(* ===== verification/Pgfy_Prelude.thy ===== *)
theory Pgfy_Prelude
  imports Main "HOL-Library.List_Lexorder" "HOL-Library.Product_Lexorder" "HOL-Library.Char_ord"
begin

text \<open>
  What the components share: Go's times and durations as integers, the errors of the program as
  one datatype, and the table operations the SQL statements of \<^verbatim>\<open>internal/store\<close> are made of
  (an update with a condition, a delete, a count, an insert-or-update), with their laws.
  SQL text compares byte by byte, as the lexicographic order on \<open>string\<close> does.
\<close>

named_theorems table_simps \<open>laws of the table operations\<close>
named_theorems tx_simps \<open>inversion of the transaction combinators\<close>
named_theorems tx_healthy \<open>evaluation of transactions with a driver that does not fail\<close>
named_theorems tx_keeps \<open>composition rules for invariants of transactions\<close>
named_theorems tx_triple \<open>composition rules for pre- and postconditions of computations\<close>
named_theorems tx_avoids \<open>composition rules for the errors of a computation\<close>

section \<open>Time\<close>

text \<open>
  A \<^verbatim>\<open>time.Time\<close> is the number of nanoseconds since the Unix epoch, a \<^verbatim>\<open>time.Duration\<close> a
  number of nanoseconds; \<^verbatim>\<open>t.Unix()\<close> drops the fraction of a second towards minus infinity.
\<close>

type_synonym gotime = int
type_synonym duration = int

abbreviation second :: duration where
  "second \<equiv> 1000000000"

abbreviation minute :: duration where
  "minute \<equiv> 60 * second"

abbreviation hour :: duration where
  "hour \<equiv> 3600 * second"

definition unix :: "gotime \<Rightarrow> int" where
  "unix t = t div second"

definition from_unix :: "int \<Rightarrow> gotime" where
  "from_unix n = n * second"

section \<open>Errors\<close>

text \<open>
  The errors a Go function can return. \<open>EDriver\<close> is a failure of the SQL driver or of the disk
  under it, \<open>EConstraint\<close> a violated primary key, unique or foreign key, \<open>ENoRows\<close> is
  \<^verbatim>\<open>sql.ErrNoRows\<close>, \<open>EExternal\<close> any error of PostgreSQL or of the bucket, \<open>EMsg\<close> is
  \<^verbatim>\<open>errors.New\<close>; the others are the exported error values of the store.
\<close>

datatype err =
    EDriver
  | EConstraint
  | ENoRows
  | EExternal string
  | EMsg string
  | ErrSetup
  | ErrTokenActive
  | ErrCredentialsChanged
  | ErrToken
  | ErrCode
  | ErrCodeReused
  | LockedError int
  | ErrMaintenance
  | ErrJobBusy
  | ErrProjectNotFound
  | ErrRevisionConflict
  | ErrNotDeletable
  | ErrProjectBusy

section \<open>Tables\<close>

definition update_where :: "('r \<Rightarrow> bool) \<Rightarrow> ('r \<Rightarrow> 'r) \<Rightarrow> 'r list \<Rightarrow> 'r list" where
  "update_where P f rows = map (\<lambda>r. if P r then f r else r) rows"

definition delete_where :: "('r \<Rightarrow> bool) \<Rightarrow> 'r list \<Rightarrow> 'r list" where
  "delete_where P rows = filter (\<lambda>r. \<not> P r) rows"

definition count_where :: "('r \<Rightarrow> bool) \<Rightarrow> 'r list \<Rightarrow> nat" where
  "count_where P rows = length (filter P rows)"

text \<open>\<^verbatim>\<open>INSERT ... ON CONFLICT(key) DO UPDATE\<close>: the conflict is decided by \<open>P\<close>.\<close>

definition upsert :: "('r \<Rightarrow> bool) \<Rightarrow> 'r \<Rightarrow> ('r \<Rightarrow> 'r) \<Rightarrow> 'r list \<Rightarrow> 'r list" where
  "upsert P new upd rows =
     (if list_ex P rows then update_where P upd rows else rows @ [new])"

text \<open>\<^verbatim>\<open>LIKE\<close> in SQLite: \<^verbatim>\<open>%\<close> is any run, \<^verbatim>\<open>_\<close> any character, ASCII letters fold case.\<close>

definition fold_case :: "char \<Rightarrow> char" where
  "fold_case c = (let n = (of_char c :: nat) in if 65 \<le> n \<and> n \<le> 90 then char_of (n + 32) else c)"

fun sql_like :: "string \<Rightarrow> string \<Rightarrow> bool" where
  "sql_like [] s = (s = [])"
| "sql_like (p # ps) [] = (p = CHR ''%'' \<and> sql_like ps [])"
| "sql_like (p # ps) (c # s) =
     (if p = CHR ''%'' then sql_like ps (c # s) \<or> sql_like (p # ps) s
      else (p = CHR ''_'' \<or> fold_case p = fold_case c) \<and> sql_like ps s)"

subsection \<open>Laws of the table operations\<close>

lemma length_update_where [simp]: "length (update_where P f rows) = length rows"
  by (simp add: update_where_def)

lemma set_update_where:
  "set (update_where P f rows) = (\<lambda>r. if P r then f r else r) ` set rows"
  by (simp add: update_where_def)

lemma in_update_where:
  "x \<in> set (update_where P f rows) \<longleftrightarrow>
     (\<exists>r \<in> set rows. (P r \<and> x = f r) \<or> (\<not> P r \<and> x = r))"
  by (auto simp: update_where_def)

lemma ball_update_where:
  "(\<forall>x \<in> set (update_where P f rows). Q x) \<longleftrightarrow> (\<forall>r \<in> set rows. if P r then Q (f r) else Q r)"
  by (auto simp: update_where_def)

lemma update_where_unmatched: "r \<in> set rows \<Longrightarrow> \<not> P r \<Longrightarrow> r \<in> set (update_where P f rows)"
  unfolding in_update_where by blast

lemma map_update_where:
  assumes "\<And>r. P r \<Longrightarrow> key (f r) = key r"
  shows "map key (update_where P f rows) = map key rows"
  using assms by (simp add: update_where_def)

lemma bex_key_update_where:
  assumes "\<And>r. key (f r) = key r"
  shows "(\<exists>x \<in> set (update_where P f rows). key x = k) \<longleftrightarrow> (\<exists>r \<in> set rows. key r = k)"
  using assms by (induction rows) (auto simp: update_where_def)

lemma bex_update_where:
  assumes "\<And>r. P r \<Longrightarrow> Q (f r) \<longleftrightarrow> Q r"
  shows "(\<exists>x \<in> set (update_where P f rows). Q x) \<longleftrightarrow> (\<exists>r \<in> set rows. Q r)"
  using assms by (induction rows) (auto simp: update_where_def)

lemma update_where_none: "(\<And>r. r \<in> set rows \<Longrightarrow> \<not> P r) \<Longrightarrow> update_where P f rows = rows"
  by (auto simp: update_where_def intro: map_idI)

text \<open>A loop of updates that write the same values is one update.\<close>

lemma fold_update_where:
  assumes "\<And>x y r. P y r \<Longrightarrow> P x (f r) = P x r" and "\<And>r. f (f r) = f r"
  shows "fold (\<lambda>x. update_where (P x) f) xs rows = update_where (\<lambda>r. \<exists>x \<in> set xs. P x r) f rows"
proof (induction xs arbitrary: rows)
  case Nil
  then show ?case by (simp add: update_where_none)
next
  case (Cons x xs)
  have "(\<exists>y \<in> set xs. P y (f r)) = (\<exists>y \<in> set xs. P y r)" if "P x r" for r
    using assms(1) [OF that] by simp
  then show ?case unfolding fold.simps o_apply Cons.IH
    by (auto simp: update_where_def assms(2))
qed

lemma set_delete_where [simp]: "set (delete_where P rows) = {r \<in> set rows. \<not> P r}"
  by (auto simp: delete_where_def)

lemma distinct_map_delete_where:
  "distinct (map key rows) \<Longrightarrow> distinct (map key (delete_where P rows))"
  by (simp add: delete_where_def distinct_map_filter)

lemma count_where_Nil [simp]: "count_where P [] = 0"
  by (simp add: count_where_def)

lemma count_where_Cons [simp]:
  "count_where P (r # rows) = (if P r then Suc (count_where P rows) else count_where P rows)"
  by (simp add: count_where_def)

lemma count_where_append [simp]:
  "count_where P (xs @ ys) = count_where P xs + count_where P ys"
  by (simp add: count_where_def)

lemma count_where_zero: "count_where P rows = 0 \<longleftrightarrow> (\<forall>r \<in> set rows. \<not> P r)"
  by (induction rows) auto

lemma count_where_pos: "0 < count_where P rows \<longleftrightarrow> (\<exists>r \<in> set rows. P r)"
  by (induction rows) auto

lemma count_where_mono:
  "(\<And>r. r \<in> set rows \<Longrightarrow> P r \<Longrightarrow> Q r) \<Longrightarrow> count_where P rows \<le> count_where Q rows"
  by (induction rows) (auto simp: le_SucI)

lemma count_where_update_le:
  assumes "\<And>r. r \<in> set rows \<Longrightarrow> P r \<Longrightarrow> Q (f r) \<Longrightarrow> Q r"
  shows "count_where Q (update_where P f rows) \<le> count_where Q rows"
  using assms by (induction rows) (auto simp: update_where_def le_SucI)

lemma count_where_update_eq:
  assumes "\<And>r. r \<in> set rows \<Longrightarrow> P r \<Longrightarrow> Q (f r) \<longleftrightarrow> Q r"
  shows "count_where Q (update_where P f rows) = count_where Q rows"
  using assms by (induction rows) (auto simp: update_where_def)

lemma count_where_delete_le: "count_where Q (delete_where P rows) \<le> count_where Q rows"
  by (induction rows) (auto simp: delete_where_def)

lemma in_upsert:
  "x \<in> set (upsert P new upd rows) \<Longrightarrow>
     x = new \<or> x \<in> set rows \<or> (\<exists>r \<in> set rows. P r \<and> x = upd r)"
  by (auto simp: upsert_def in_update_where split: if_splits)

lemma upsert_other:
  assumes "\<And>r. P r \<Longrightarrow> \<not> Q r" and "\<And>r. P r \<Longrightarrow> \<not> Q (upd r)" and "\<not> Q new"
  shows "filter Q (upsert P new upd rows) = filter Q rows"
proof -
  have "filter Q (update_where P upd rows) = filter Q rows"
    using assms(1,2) by (induction rows) (auto simp: update_where_def)
  then show ?thesis using assms(3) by (simp add: upsert_def)
qed

lemma distinct_map_upsert:
  assumes "distinct (map key rows)" and "\<And>r. P r \<longleftrightarrow> key r = key new"
    and "\<And>r. P r \<Longrightarrow> key (upd r) = key r"
  shows "distinct (map key (upsert P new upd rows))"
proof -
  have "map key (update_where P upd rows) = map key rows"
    using assms(3) by (rule map_update_where)
  then show ?thesis using assms(1,2) by (auto simp: upsert_def list_ex_iff)
qed

lemmas [table_simps] =
  in_update_where set_update_where count_where_zero count_where_pos

subsection \<open>Looking a row up by its key\<close>

lemma find_Some_iff_mem:
  "find P xs = Some x \<Longrightarrow> x \<in> set xs \<and> P x"
  by (auto simp: find_Some_iff)

lemma list_ex_key: "list_ex (\<lambda>r. key r = k) rows \<longleftrightarrow> k \<in> key ` set rows"
  by (auto simp: list_ex_iff)

lemma find_key_unique:
  assumes "distinct (map key rows)" and "r \<in> set rows"
  shows "find (\<lambda>x. key x = key r) rows = Some r"
  using assms by (induction rows) (auto simp: image_iff)

lemma find_update_where:
  assumes "\<And>r. P r \<Longrightarrow> Q (f r) \<longleftrightarrow> Q r"
  shows "find Q (update_where P f rows) = map_option (\<lambda>r. if P r then f r else r) (find Q rows)"
  using assms by (induction rows) (auto simp: update_where_def)

lemma find_append:
  "find P (xs @ ys) = (case find P xs of None \<Rightarrow> find P ys | Some x \<Rightarrow> Some x)"
  by (induction xs) auto

lemma find_upsert:
  assumes "\<And>r. P r \<longleftrightarrow> key r = k" and "key new = k" and "\<And>r. key r = k \<Longrightarrow> key (upd r) = k"
  shows "find (\<lambda>r. key r = q) (upsert P new upd rows) =
    (if q = k then Some (case find (\<lambda>r. key r = k) rows of None \<Rightarrow> new | Some r \<Rightarrow> upd r)
     else find (\<lambda>r. key r = q) rows)"
proof (cases "list_ex P rows")
  case True
  have "find (\<lambda>r. key r = q) (update_where P upd rows) =
      map_option (\<lambda>r. if P r then upd r else r) (find (\<lambda>r. key r = q) rows)"
    using assms by (intro find_update_where) auto
  moreover have "find (\<lambda>r. key r = k) rows \<noteq> None"
    using True assms(1) by (auto simp: list_ex_iff find_None_iff)
  ultimately show ?thesis
    using True assms
    by (cases "find (\<lambda>r. key r = q) rows")
      (auto simp: upsert_def split: option.splits dest: find_Some_iff_mem)
next
  case False
  then have "find (\<lambda>r. key r = k) rows = None"
    using assms(1) by (auto simp: list_ex_iff find_None_iff)
  with False assms show ?thesis by (auto simp: upsert_def find_append split: option.splits)
qed

text \<open>A compare-and-swap by primary key touches one row or none.\<close>

lemma find_key_None: "find (\<lambda>r. key r = k) rows = None \<longleftrightarrow> k \<notin> key ` set rows"
  by (auto simp: find_None_iff)

lemma count_where_key:
  assumes "distinct (map key rows)"
  shows "count_where (\<lambda>r. key r = k \<and> Q r) rows =
    (case find (\<lambda>r. key r = k) rows of None \<Rightarrow> 0 | Some r \<Rightarrow> if Q r then 1 else 0)"
  using assms
proof (induction rows)
  case (Cons r rows)
  then have "key r = k \<Longrightarrow> find (\<lambda>r. key r = k) rows = None" by (auto simp: find_key_None)
  with Cons show ?case by (auto split: option.splits)
qed simp

lemma find_update_key:
  assumes "\<And>r. key (f r) = key r"
  shows "find (\<lambda>r. key r = k) (update_where (\<lambda>r. key r = k' \<and> Q r) f rows) =
    (if k = k' then map_option (\<lambda>r. if Q r then f r else r) (find (\<lambda>r. key r = k) rows)
     else find (\<lambda>r. key r = k) rows)"
proof -
  have "find (\<lambda>r. key r = k) (update_where (\<lambda>r. key r = k' \<and> Q r) f rows) =
      map_option (\<lambda>r. if key r = k' \<and> Q r then f r else r) (find (\<lambda>r. key r = k) rows)"
    using assms by (intro find_update_where) simp
  then show ?thesis by (cases "find (\<lambda>r. key r = k) rows") (auto dest: find_Some_iff_mem)
qed

lemma find_update_by_key:
  assumes "\<And>r. key (f r) = key r"
  shows "find (\<lambda>r. key r = k) (update_where (\<lambda>r. key r = k') f rows) =
    (if k = k' then map_option f (find (\<lambda>r. key r = k) rows) else find (\<lambda>r. key r = k) rows)"
  using find_update_key [of key f k k' "\<lambda>_. True" rows] assms by simp

lemma upsert_cong:
  "(\<And>r. P r \<Longrightarrow> f r = g r) \<Longrightarrow> upsert P new f rows = upsert P new g rows"
  by (simp add: upsert_def update_where_def)

section \<open>Ordered queries\<close>

text \<open>The first row of an ordered query: the least key, \<open>None\<close> when no row qualifies.\<close>

definition first_by :: "('r \<Rightarrow> 'k::linorder) \<Rightarrow> 'r list \<Rightarrow> 'r option" where
  "first_by k rows = (case sort_key k rows of [] \<Rightarrow> None | r # _ \<Rightarrow> Some r)"

lemma first_by_None [simp]: "first_by k rows = None \<longleftrightarrow> rows = []"
proof -
  have "sort_key k rows = [] \<longleftrightarrow> rows = []"
    by (metis length_0_conv length_sort)
  then show ?thesis by (auto simp: first_by_def split: list.splits)
qed

lemma first_by_Nil [simp]: "first_by k [] = None"
  by simp

lemma first_by_Some:
  assumes "first_by k rows = Some r"
  shows "r \<in> set rows \<and> (\<forall>r' \<in> set rows. k r \<le> k r')"
proof -
  obtain rs where rs: "sort_key k rows = r # rs"
    using assms by (auto simp: first_by_def split: list.splits)
  have "sorted (map k (r # rs))" using sorted_sort_key [of k rows] rs by simp
  moreover have "set (r # rs) = set rows" using set_sort [of k rows] rs by simp
  ultimately show ?thesis by (metis insert_iff list.set(2) list.simps(9) order_refl sorted_simps(2) image_eqI list.set_map)
qed

end
