(* ===== verification/Sql_Tx.thy ===== *)
theory Sql_Tx
  imports Pgfy_Prelude
begin

text \<open>
  The \<^verbatim>\<open>database/sql\<close> layer every store operation is written in. A computation takes the
  database and the driver's coming failures, and returns a value or an error with the database it
  leaves. One element of the failure list is used up by each statement, by \<^verbatim>\<open>BeginTx\<close> and by
  \<^verbatim>\<open>Commit\<close>: \<open>True\<close> makes it fail. The empty list is a driver that does not fail.
  \<^verbatim>\<open>if e != nil { return e }\<close> is \<open>bind_tx\<close>, \<^verbatim>\<open>defer tx.Rollback()\<close> with
  \<^verbatim>\<open>tx.Commit()\<close> at the end is \<open>transact\<close>. The one open connection
  (\<^verbatim>\<open>SetMaxOpenConns(1)\<close>) serialises the transactions, so each runs alone.
\<close>

type_synonym 'd conn = "'d \<times> bool list"
type_synonym ('d, 'a) tx = "'d conn \<Rightarrow> (err + 'a) \<times> 'd conn"

definition ret :: "'a \<Rightarrow> ('d, 'a) tx" where
  "ret x s = (Inr x, s)"

definition throw :: "err \<Rightarrow> ('d, 'a) tx" where
  "throw e s = (Inl e, s)"

definition bind_tx :: "('d, 'a) tx \<Rightarrow> ('a \<Rightarrow> ('d, 'b) tx) \<Rightarrow> ('d, 'b) tx" where
  "bind_tx m f s = (case m s of (Inl e, s') \<Rightarrow> (Inl e, s') | (Inr x, s') \<Rightarrow> f x s')"

definition then_tx :: "('d, 'a) tx \<Rightarrow> ('d, 'b) tx \<Rightarrow> ('d, 'b) tx" where
  "then_tx m k = bind_tx m (\<lambda>_. k)"

text \<open>\<^verbatim>\<open>_ = f()\<close>: the error is dropped, the effect stays.\<close>

definition attempt :: "('d, 'a) tx \<Rightarrow> ('d, err + 'a) tx" where
  "attempt m s = (case m s of (r, s') \<Rightarrow> (Inr r, s'))"

definition fails_now :: "bool list \<Rightarrow> bool" where
  "fails_now fs = (fs \<noteq> [] \<and> hd fs)"

definition stmt :: "('d \<Rightarrow> err + ('a \<times> 'd)) \<Rightarrow> ('d, 'a) tx" where
  "stmt f s = (case s of (d, fs) \<Rightarrow>
     if fails_now fs then (Inl EDriver, (d, tl fs))
     else (case f d of Inl e \<Rightarrow> (Inl e, (d, tl fs)) | Inr (x, d') \<Rightarrow> (Inr x, (d', tl fs))))"

text \<open>A query with one result, \<^verbatim>\<open>QueryRow\<close> that may find no row, and statements that write.\<close>

definition query :: "('d \<Rightarrow> 'a) \<Rightarrow> ('d, 'a) tx" where
  "query q = stmt (\<lambda>d. Inr (q d, d))"

definition query_row :: "('d \<Rightarrow> 'a option) \<Rightarrow> ('d, 'a) tx" where
  "query_row q = stmt (\<lambda>d. case q d of None \<Rightarrow> Inl ENoRows | Some x \<Rightarrow> Inr (x, d))"

definition exec :: "('d \<Rightarrow> 'd) \<Rightarrow> ('d, unit) tx" where
  "exec u = stmt (\<lambda>d. Inr ((), u d))"

definition exec_affected :: "('d \<Rightarrow> nat \<times> 'd) \<Rightarrow> ('d, nat) tx" where
  "exec_affected u = stmt (\<lambda>d. Inr (u d))"

text \<open>An \<^verbatim>\<open>INSERT\<close> that a constraint may refuse.\<close>

definition exec_insert :: "('d \<Rightarrow> 'd option) \<Rightarrow> ('d, unit) tx" where
  "exec_insert u = stmt (\<lambda>d. case u d of None \<Rightarrow> Inl EConstraint | Some d' \<Rightarrow> Inr ((), d'))"

definition transact :: "('d, 'a) tx \<Rightarrow> ('d, 'a) tx" where
  "transact m s = (case s of (d, fs) \<Rightarrow>
     if fails_now fs then (Inl EDriver, (d, tl fs))
     else (case m (d, tl fs) of
       (Inl e, (d', fs')) \<Rightarrow> (Inl e, (d, fs'))
     | (Inr x, (d', fs')) \<Rightarrow>
         if fails_now fs' then (Inl EDriver, (d, tl fs')) else (Inr x, (d', tl fs'))))"

text \<open>
  \<^verbatim>\<open>commitThen\<close>: the transaction's result is itself an error or a value, and either way the
  writes are committed before it is returned.
\<close>

definition transact_then :: "('d, err + 'a) tx \<Rightarrow> ('d, 'a) tx" where
  "transact_then m = bind_tx (transact m) (\<lambda>r. case r of Inl e \<Rightarrow> throw e | Inr x \<Rightarrow> ret x)"

text \<open>
  A transaction that may return early without an error and without a commit: \<open>Inl x\<close> is the early
  return (the deferred rollback undoes the writes), \<open>Inr x\<close> the return after the commit.
\<close>

definition transact_exit :: "('d, 'a + 'a) tx \<Rightarrow> ('d, 'a) tx" where
  "transact_exit m s = (case s of (d, fs) \<Rightarrow>
     if fails_now fs then (Inl EDriver, (d, tl fs))
     else (case m (d, tl fs) of
       (Inl e, (d', fs')) \<Rightarrow> (Inl e, (d, fs'))
     | (Inr (Inl x), (d', fs')) \<Rightarrow> (Inr x, (d, fs'))
     | (Inr (Inr x), (d', fs')) \<Rightarrow>
         if fails_now fs' then (Inl EDriver, (d, tl fs')) else (Inr x, (d', tl fs'))))"

text \<open>A \<^verbatim>\<open>for\<close> loop that stops at the first error.\<close>

primrec for_each :: "('x \<Rightarrow> ('d, unit) tx) \<Rightarrow> 'x list \<Rightarrow> ('d, unit) tx" where
  "for_each f [] = ret ()"
| "for_each f (x # xs) = then_tx (f x) (for_each f xs)"

section \<open>Outcomes\<close>

text \<open>
  \<open>returns m s x d\<close>: the call returns \<open>x\<close> without error and leaves the database \<open>d\<close>;
  \<open>fails m s e d\<close>: it returns the error \<open>e\<close> and leaves \<open>d\<close>.
\<close>

definition returns :: "('d, 'a) tx \<Rightarrow> 'd conn \<Rightarrow> 'a \<Rightarrow> 'd \<Rightarrow> bool" where
  "returns m s x d \<longleftrightarrow> fst (m s) = Inr x \<and> fst (snd (m s)) = d"

definition fails :: "('d, 'a) tx \<Rightarrow> 'd conn \<Rightarrow> err \<Rightarrow> 'd \<Rightarrow> bool" where
  "fails m s e d \<longleftrightarrow> fst (m s) = Inl e \<and> fst (snd (m s)) = d"

text \<open>What a call leaves behind whatever it returns, and an invariant that survives it.\<close>

definition leaves :: "('d, 'a) tx \<Rightarrow> 'd conn \<Rightarrow> 'd" where
  "leaves m s = fst (snd (m s))"

definition succeeds :: "('d, 'a) tx \<Rightarrow> 'd conn \<Rightarrow> bool" where
  "succeeds m s = (case fst (m s) of Inl _ \<Rightarrow> False | Inr _ \<Rightarrow> True)"

definition keeps :: "('d \<Rightarrow> bool) \<Rightarrow> ('d, 'a) tx \<Rightarrow> bool" where
  "keeps I m \<longleftrightarrow> (\<forall>s. I (fst s) \<longrightarrow> I (leaves m s))"

subsection \<open>Inversion\<close>

lemma returnsI: "m s = (Inr x, (d, fs)) \<Longrightarrow> returns m s x d"
  by (simp add: returns_def)

lemma succeeds_leaves: "succeeds m s \<Longrightarrow> returns m s (projr (fst (m s))) (leaves m s)"
  by (cases "fst (m s)") (auto simp: succeeds_def returns_def leaves_def)

lemma returnsE:
  assumes "returns m s x d"
  obtains fs where "m s = (Inr x, (d, fs))"
  using assms by (cases "m s") (auto simp: returns_def)

lemma returns_iff: "returns m s x d \<longleftrightarrow> (\<exists>fs. m s = (Inr x, (d, fs)))"
  by (cases "m s") (auto simp: returns_def)

lemma failsE:
  assumes "fails m s e d"
  obtains fs where "m s = (Inl e, (d, fs))"
  using assms by (cases "m s") (auto simp: fails_def)

lemma fails_iff: "fails m s e d \<longleftrightarrow> (\<exists>fs. m s = (Inl e, (d, fs)))"
  by (cases "m s") (auto simp: fails_def)

lemma returns_or_fails:
  "(\<exists>x. returns m s x (leaves m s)) \<or> (\<exists>e. fails m s e (leaves m s))"
  by (cases "fst (m s)") (auto simp: returns_def fails_def leaves_def)

lemma returns_leaves: "returns m s x d \<Longrightarrow> leaves m s = d"
  by (simp add: returns_def leaves_def)

lemma fails_leaves: "fails m s e d \<Longrightarrow> leaves m s = d"
  by (simp add: fails_def leaves_def)

lemma ret_Inr [tx_simps]: "ret x s = (Inr y, s') \<longleftrightarrow> y = x \<and> s' = s"
  by (auto simp: ret_def)

lemma throw_Inr [tx_simps]: "throw e s = (Inr y, s') \<longleftrightarrow> False"
  by (simp add: throw_def)

lemma bind_Inr [tx_simps]:
  "bind_tx m f s = (Inr y, s') \<longleftrightarrow> (\<exists>x s1. m s = (Inr x, s1) \<and> f x s1 = (Inr y, s'))"
  by (auto simp: bind_tx_def split: prod.splits sum.splits)

lemma then_Inr [tx_simps]:
  "then_tx m k s = (Inr y, s') \<longleftrightarrow> (\<exists>x s1. m s = (Inr x, s1) \<and> k s1 = (Inr y, s'))"
  by (auto simp: then_tx_def bind_Inr)

lemma stmt_Inr [tx_simps]:
  "stmt f s = (Inr x, s') \<longleftrightarrow>
     (\<exists>d'. \<not> fails_now (snd s) \<and> f (fst s) = Inr (x, d') \<and> s' = (d', tl (snd s)))"
  by (cases s) (auto simp: stmt_def split: sum.splits)

lemma query_Inr [tx_simps]:
  "query q s = (Inr x, s') \<longleftrightarrow> \<not> fails_now (snd s) \<and> x = q (fst s) \<and> s' = (fst s, tl (snd s))"
  by (auto simp: query_def stmt_Inr)

lemma query_row_Inr [tx_simps]:
  "query_row q s = (Inr x, s') \<longleftrightarrow>
     \<not> fails_now (snd s) \<and> q (fst s) = Some x \<and> s' = (fst s, tl (snd s))"
  by (auto simp: query_row_def stmt_Inr split: option.splits)

lemma exec_Inr [tx_simps]:
  "exec u s = (Inr x, s') \<longleftrightarrow> \<not> fails_now (snd s) \<and> s' = (u (fst s), tl (snd s))"
  by (auto simp: exec_def stmt_Inr)

lemma exec_affected_Inr [tx_simps]:
  "exec_affected u s = (Inr n, s') \<longleftrightarrow>
     \<not> fails_now (snd s) \<and> n = fst (u (fst s)) \<and> s' = (snd (u (fst s)), tl (snd s))"
  by (cases "u (fst s)") (auto simp: exec_affected_def stmt_Inr)

lemma exec_insert_Inr [tx_simps]:
  "exec_insert u s = (Inr x, s') \<longleftrightarrow>
     (\<exists>d'. \<not> fails_now (snd s) \<and> u (fst s) = Some d' \<and> s' = (d', tl (snd s)))"
  by (auto simp: exec_insert_def stmt_Inr split: option.splits)

lemma transact_Inr [tx_simps]:
  "transact m s = (Inr x, s') \<longleftrightarrow>
     (\<exists>d' fs'. \<not> fails_now (snd s) \<and> m (fst s, tl (snd s)) = (Inr x, (d', fs')) \<and>
        \<not> fails_now fs' \<and> s' = (d', tl fs'))"
  by (cases s) (auto simp: transact_def split: prod.splits sum.splits)

lemma transact_then_Inr [tx_simps]:
  fixes m :: "('d, err + 'a) tx"
  shows "transact_then m s = (Inr x, s') \<longleftrightarrow> transact m s = (Inr (Inr x), s')"
proof -
  have "(case r of Inl e \<Rightarrow> throw e | Inr x \<Rightarrow> ret x) s1 = (Inr x, s') \<longleftrightarrow> r = Inr x \<and> s1 = s'"
    for r :: "err + 'a" and s1 :: "'d conn"
    by (cases r) (auto simp: ret_def throw_def)
  then show ?thesis by (cases s') (auto simp: transact_then_def bind_Inr)
qed

lemma transact_exit_Inr [tx_simps]:
  "transact_exit m s = (Inr x, s') \<longleftrightarrow>
     (\<exists>d' fs'. \<not> fails_now (snd s) \<and>
        ((m (fst s, tl (snd s)) = (Inr (Inl x), (d', fs')) \<and> s' = (fst s, fs')) \<or>
         (m (fst s, tl (snd s)) = (Inr (Inr x), (d', fs')) \<and> \<not> fails_now fs' \<and>
            s' = (d', tl fs'))))"
  by (cases s) (auto simp: transact_exit_def split: prod.splits sum.splits)

lemma attempt_Inr [tx_simps]: "attempt m s = (Inr r, s') \<longleftrightarrow> m s = (r, s')"
  by (auto simp: attempt_def split: prod.splits)

text \<open>A guard: \<^verbatim>\<open>if c { return e }\<close>.\<close>

lemma guard_Inr [tx_simps]:
  "(if c then throw e else m) s = (Inr x, s') \<longleftrightarrow> \<not> c \<and> m s = (Inr x, s')"
  by (simp add: throw_def)

lemma guard_not_Inr [tx_simps]:
  "(if c then m else throw e) s = (Inr x, s') \<longleftrightarrow> c \<and> m s = (Inr x, s')"
  by (simp add: throw_def)

lemma row_Inr [tx_simps]:
  "(case r of None \<Rightarrow> throw e | Some v \<Rightarrow> m v) s = (Inr x, s') \<longleftrightarrow>
     (\<exists>v. r = Some v \<and> m v s = (Inr x, s'))"
  by (cases r) (simp_all add: throw_def)

lemma option_Inr [tx_simps]:
  "(case r of None \<Rightarrow> m | Some v \<Rightarrow> f v) s = (Inr x, s') \<longleftrightarrow>
     (r = None \<and> m s = (Inr x, s')) \<or> (\<exists>v. r = Some v \<and> f v s = (Inr x, s'))"
  by (cases r) simp_all

lemma result_Inr [tx_simps]:
  "(case r of Inl e \<Rightarrow> f e | Inr v \<Rightarrow> g v) s = (Inr x, s') \<longleftrightarrow>
     (\<exists>e. r = Inl e \<and> f e s = (Inr x, s')) \<or> (\<exists>v. r = Inr v \<and> g v s = (Inr x, s'))"
  by (cases r) simp_all

lemma not_fails_now_Nil [simp]: "\<not> fails_now []"
  by (simp add: fails_now_def)

subsection \<open>Atomicity\<close>

text \<open>A transaction that reports an error has changed nothing.\<close>

lemma transact_fails: "fails (transact m) s e d \<Longrightarrow> d = fst s"
  by (cases s) (auto simp: fails_def transact_def split: prod.splits sum.splits if_splits)

lemma transact_exit_fails: "fails (transact_exit m) s e d \<Longrightarrow> d = fst s"
  by (cases s) (auto simp: fails_def transact_exit_def split: prod.splits sum.splits if_splits)

lemma stmt_fails: "fails (stmt f) s e d \<Longrightarrow> d = fst s"
  by (cases s) (auto simp: fails_def stmt_def split: prod.splits sum.splits if_splits)

lemma query_fails: "fails (query q) s e d \<Longrightarrow> d = fst s \<and> e = EDriver"
  by (cases s) (auto simp: fails_def query_def stmt_def split: if_splits)

lemma query_row_fails: "fails (query_row q) s e d \<Longrightarrow> d = fst s"
  by (auto simp: query_row_def dest: stmt_fails)

lemma exec_fails: "fails (exec u) s e d \<Longrightarrow> d = fst s \<and> e = EDriver"
  by (cases s) (auto simp: fails_def exec_def stmt_def split: if_splits)

lemma exec_affected_fails: "fails (exec_affected u) s e d \<Longrightarrow> d = fst s"
  unfolding exec_affected_def by (rule stmt_fails)

lemma exec_insert_fails: "fails (exec_insert u) s e d \<Longrightarrow> d = fst s"
  unfolding exec_insert_def by (rule stmt_fails)

lemma fails_bind:
  "fails (bind_tx m f) s e d \<longleftrightarrow>
     fails m s e d \<or> (\<exists>x s1. m s = (Inr x, s1) \<and> fails (f x) s1 e d)"
  by (auto simp: fails_def bind_tx_def split: prod.splits sum.splits)

lemma fails_then:
  "fails (then_tx m k) s e d \<longleftrightarrow>
     fails m s e d \<or> (\<exists>x s1. m s = (Inr x, s1) \<and> fails k s1 e d)"
  by (simp add: then_tx_def fails_bind)

lemma fails_throw [simp]: "fails (throw e) s e' d \<longleftrightarrow> e' = e \<and> d = fst s"
  by (auto simp: fails_def throw_def)

lemma fails_ret [simp]: "\<not> fails (ret x) s e d"
  by (simp add: fails_def ret_def)

lemma returns_ret [simp]: "returns (ret x) s y d \<longleftrightarrow> y = x \<and> d = fst s"
  by (auto simp: returns_def ret_def)

lemma returns_throw [simp]: "\<not> returns (throw e) s y d"
  by (simp add: returns_def throw_def)

subsection \<open>Invariants of a computation\<close>

lemma keepsI:
  assumes "\<And>d fs x d'. I d \<Longrightarrow> returns m (d, fs) x d' \<Longrightarrow> I d'"
    and "\<And>d fs e d'. I d \<Longrightarrow> fails m (d, fs) e d' \<Longrightarrow> I d'"
  shows "keeps I m"
  unfolding keeps_def using assms returns_or_fails by (metis prod.collapse)

lemma keepsD: "keeps I m \<Longrightarrow> I (fst s) \<Longrightarrow> I (leaves m s)"
  by (cases s) (simp add: keeps_def)

lemma keepsD_eq: "keeps I m \<Longrightarrow> m s = (r, s') \<Longrightarrow> I (fst s) \<Longrightarrow> I (fst s')"
  using keepsD [of I m s] by (simp add: leaves_def)

lemma keeps_ret [tx_keeps]: "keeps I (ret x)"
  by (simp add: keeps_def leaves_def ret_def)

lemma keeps_throw [tx_keeps]: "keeps I (throw e)"
  by (simp add: keeps_def leaves_def throw_def)

lemma keeps_bind [tx_keeps]:
  assumes "keeps I m" and "\<And>x. keeps I (f x)"
  shows "keeps I (bind_tx m f)"
proof -
  have "I (leaves (bind_tx m f) s)" if "I (fst s)" for s
  proof -
    obtain r s1 where eq: "m s = (r, s1)" by (metis surj_pair)
    have s1: "I (fst s1)" by (rule keepsD_eq [OF assms(1) eq that])
    show ?thesis
    proof (cases r)
      case (Inl e)
      with eq s1 show ?thesis by (simp add: leaves_def bind_tx_def)
    next
      case (Inr x)
      with eq keepsD [OF assms(2) s1, of x] show ?thesis
        by (simp add: leaves_def bind_tx_def)
    qed
  qed
  then show ?thesis by (simp add: keeps_def)
qed

lemma keeps_then [tx_keeps]: "keeps I m \<Longrightarrow> keeps I k \<Longrightarrow> keeps I (then_tx m k)"
  by (simp add: then_tx_def keeps_bind)

lemma keeps_attempt [tx_keeps]: "keeps I m \<Longrightarrow> keeps I (attempt m)"
  by (rule keepsI)
    (auto simp: returns_iff attempt_def fails_def split: prod.splits dest: keepsD_eq)

lemma keeps_query [tx_keeps]: "keeps I (query q)"
  by (rule keepsI) (auto simp: returns_iff query_Inr dest: query_fails)

lemma keeps_query_row [tx_keeps]: "keeps I (query_row q)"
  by (rule keepsI) (auto simp: returns_iff query_row_Inr dest: query_row_fails)

lemma keeps_exec [tx_keeps]: "(\<And>d. I d \<Longrightarrow> I (u d)) \<Longrightarrow> keeps I (exec u)"
  by (rule keepsI) (auto simp: returns_iff exec_Inr dest: exec_fails)

lemma keeps_exec_affected [tx_keeps]:
  "(\<And>d. I d \<Longrightarrow> I (snd (u d))) \<Longrightarrow> keeps I (exec_affected u)"
  by (rule keepsI) (auto simp: returns_iff exec_affected_Inr dest: exec_affected_fails)

lemma keeps_exec_insert [tx_keeps]:
  "(\<And>d d'. I d \<Longrightarrow> u d = Some d' \<Longrightarrow> I d') \<Longrightarrow> keeps I (exec_insert u)"
  by (rule keepsI) (auto simp: returns_iff exec_insert_Inr dest: exec_insert_fails)

text \<open>A transaction only has to keep the invariant on its committed path.\<close>

lemma keeps_transact:
  assumes "\<And>d fs x d'. I d \<Longrightarrow> returns m (d, fs) x d' \<Longrightarrow> I d'"
  shows "keeps I (transact m)"
  by (rule keepsI)
    (auto simp: returns_iff transact_Inr dest: transact_fails intro: assms [OF _ returnsI])

lemma keeps_transact_body [tx_keeps]: "keeps I m \<Longrightarrow> keeps I (transact m)"
  by (rule keeps_transact) (metis fst_conv keepsD returns_leaves)

lemma keeps_transact_exit [tx_keeps]:
  assumes "keeps I m"
  shows "keeps I (transact_exit m)"
  by (rule keepsI)
    (auto simp: returns_iff transact_exit_Inr dest: transact_exit_fails keepsD_eq [OF assms])

lemma keeps_transact_then [tx_keeps]: "keeps I m \<Longrightarrow> keeps I (transact_then m)"
  unfolding transact_then_def
  by (rule keeps_bind [OF keeps_transact_body]) (auto split: sum.splits intro: keeps_ret keeps_throw)

lemma keeps_for_each [tx_keeps]: "(\<And>x. keeps I (f x)) \<Longrightarrow> keeps I (for_each f xs)"
  by (induction xs) (auto intro: tx_keeps)

lemma keeps_if [tx_keeps]: "keeps I m \<Longrightarrow> keeps I k \<Longrightarrow> keeps I (if c then m else k)"
  by simp

lemma keeps_option [tx_keeps]:
  "keeps I m \<Longrightarrow> (\<And>v. keeps I (f v)) \<Longrightarrow> keeps I (case r of None \<Rightarrow> m | Some v \<Rightarrow> f v)"
  by (cases r) simp_all

lemma keeps_result [tx_keeps]:
  "(\<And>e. keeps I (f e)) \<Longrightarrow> (\<And>v. keeps I (g v)) \<Longrightarrow> keeps I (case r of Inl e \<Rightarrow> f e | Inr v \<Rightarrow> g v)"
  by (cases r) simp_all

lemma keeps_stmt [tx_keeps]:
  "(\<And>d x d'. I d \<Longrightarrow> f d = Inr (x, d') \<Longrightarrow> I d') \<Longrightarrow> keeps I (stmt f)"
  by (rule keepsI) (auto simp: returns_iff stmt_Inr dest: stmt_fails)

text \<open>A computation that keeps everything only reads.\<close>

lemma reads_only: "(\<And>I. keeps I m) \<Longrightarrow> leaves m s = fst s"
  using keepsD [of "\<lambda>x. x = fst s" m s] by blast

text \<open>What a transaction leaves: the database as it was, or what its body committed.\<close>

lemma transact_leaves:
  "leaves (transact m) s = fst s \<or>
   (\<exists>x d fs fs'. m (fst s, fs) = (Inr x, (d, fs')) \<and> leaves (transact m) s = d)"
  using returns_or_fails [of "transact m" s]
  by (auto simp: returns_iff transact_Inr dest: transact_fails)

text \<open>A loop whose body has a known effect has the fold of it as its effect.\<close>

lemma for_each_fold:
  assumes "\<And>x d fs u s'. x \<in> set xs \<Longrightarrow> f x (d, fs) = (Inr u, s') \<Longrightarrow> fst s' = g x d"
    and "for_each f xs (d, fs) = (Inr u, s')"
  shows "fst s' = fold g xs d"
  using assms
proof (induction xs arbitrary: d fs)
  case Nil
  then show ?case by (simp add: ret_Inr)
next
  case (Cons x xs)
  then obtain v s1 where x: "f x (d, fs) = (Inr v, s1)" and xs: "for_each f xs s1 = (Inr u, s')"
    by (auto simp: then_Inr)
  have "fst s1 = g x d" using Cons.prems(1) [OF _ x] by simp
  moreover have "fst s' = fold g xs (fst s1)"
    using Cons.IH [of "fst s1" "snd s1"] Cons.prems(1) xs by simp
  ultimately show ?case by simp
qed

lemma for_each_exec:
  "for_each (\<lambda>x. exec (g x)) xs (d, fs) = (Inr u, s') \<Longrightarrow> fst s' = fold g xs d"
  by (rule for_each_fold) (auto simp: exec_Inr)

subsection \<open>Errors a computation cannot return\<close>

definition avoids :: "err \<Rightarrow> ('d, 'a) tx \<Rightarrow> bool" where
  "avoids e m \<longleftrightarrow> (\<forall>s d. \<not> fails m s e d)"

definition own_error :: "err \<Rightarrow> bool" where
  "own_error e \<longleftrightarrow> e \<noteq> EDriver \<and> e \<noteq> EConstraint \<and> e \<noteq> ENoRows"

lemma avoids_ret [tx_avoids]: "avoids e (ret x)"
  by (simp add: avoids_def)

lemma avoids_throw [tx_avoids]: "e \<noteq> e' \<Longrightarrow> avoids e (throw e')"
  by (simp add: avoids_def)

lemma avoids_bind [tx_avoids]: "avoids e m \<Longrightarrow> (\<And>x. avoids e (f x)) \<Longrightarrow> avoids e (bind_tx m f)"
  by (simp add: avoids_def fails_bind)

lemma avoids_then [tx_avoids]: "avoids e m \<Longrightarrow> avoids e k \<Longrightarrow> avoids e (then_tx m k)"
  by (simp add: avoids_def fails_then)

lemma avoids_attempt [tx_avoids]: "avoids e (attempt m)"
  by (auto simp: avoids_def fails_def attempt_def split: prod.split)

lemma avoids_stmt: "own_error e \<Longrightarrow> (\<And>d. f d \<noteq> Inl e) \<Longrightarrow> avoids e (stmt f)"
  by (auto simp: avoids_def fails_def stmt_def own_error_def split: prod.split sum.split)

lemma avoids_query [tx_avoids]: "own_error e \<Longrightarrow> avoids e (query q)"
  unfolding query_def by (rule avoids_stmt) simp_all

lemma avoids_query_row [tx_avoids]: "own_error e \<Longrightarrow> avoids e (query_row q)"
  unfolding query_row_def by (rule avoids_stmt) (auto simp: own_error_def split: option.split)

lemma avoids_exec [tx_avoids]: "own_error e \<Longrightarrow> avoids e (exec u)"
  unfolding exec_def by (rule avoids_stmt) simp_all

lemma avoids_exec_affected [tx_avoids]: "own_error e \<Longrightarrow> avoids e (exec_affected u)"
  unfolding exec_affected_def by (rule avoids_stmt) simp_all

lemma avoids_exec_insert [tx_avoids]: "own_error e \<Longrightarrow> avoids e (exec_insert u)"
  unfolding exec_insert_def by (rule avoids_stmt) (auto simp: own_error_def split: option.split)

lemma avoids_if [tx_avoids]: "avoids e m \<Longrightarrow> avoids e k \<Longrightarrow> avoids e (if c then m else k)"
  by simp

lemma avoids_result [tx_avoids]:
  "(\<And>x. avoids e (f x)) \<Longrightarrow> (\<And>v. avoids e (g v)) \<Longrightarrow> avoids e (case r of Inl x \<Rightarrow> f x | Inr v \<Rightarrow> g v)"
  by (cases r) simp_all

text \<open>An error that the body of a committing transaction cannot raise was committed.\<close>

lemma query_row_state: "query_row q s = (r, s1) \<Longrightarrow> fst s1 = fst s"
  by (cases s) (auto simp: query_row_def stmt_def split: if_splits option.splits)

lemma transact_then_error:
  assumes "fails (transact_then m) s e d" and "d \<noteq> fst s"
  obtains fs fs' where "m (fst s, fs) = (Inr (Inl e), (d, fs'))"
proof -
  have "\<not> fails (transact m) s e d" using assms(2) by (auto dest: transact_fails)
  then obtain r s1 where t: "transact m s = (Inr r, s1)"
    and f: "fails (case r of Inl e \<Rightarrow> throw e | Inr x \<Rightarrow> ret x) s1 e d"
    using assms(1) by (auto simp: transact_then_def fails_bind)
  from f have "r = Inl e" "d = fst s1" by (cases r; simp)+
  with t show thesis using that by (auto simp: transact_Inr)
qed

lemma transact_then_fails:
  assumes "fails (transact_then m) s e d" and "avoids e m" and "own_error e"
  obtains fs fs' where "m (fst s, fs) = (Inr (Inl e), (d, fs'))"
proof -
  have m: "fst (m s') \<noteq> Inl e" for s' using assms(2) by (cases s') (auto simp: avoids_def fails_def)
  have "\<not> fails (transact m) s e d'" for d'
    using m [of "(fst s, tl (snd s))"] assms(3) by (cases s)
      (auto simp: fails_def transact_def own_error_def split: prod.splits sum.splits if_splits)
  then obtain r s1 where t: "transact m s = (Inr r, s1)"
    and f: "fails (case r of Inl e \<Rightarrow> throw e | Inr x \<Rightarrow> ret x) s1 e d"
    using assms(1) by (auto simp: transact_then_def fails_bind)
  from f have "r = Inl e" "d = fst s1" by (cases r; simp)+
  with t show thesis using that by (auto simp: transact_Inr)
qed

subsection \<open>A driver that does not fail\<close>

lemma ret_healthy [tx_healthy]: "ret x (d, []) = (Inr x, (d, []))"
  by (simp add: ret_def)

lemma throw_healthy [tx_healthy]: "throw e (d, []) = (Inl e, (d, []))"
  by (simp add: throw_def)

lemma bind_healthy [tx_healthy]:
  "bind_tx m f (d, []) = (case m (d, []) of (Inl e, s') \<Rightarrow> (Inl e, s') | (Inr x, s') \<Rightarrow> f x s')"
  by (simp add: bind_tx_def)

lemma then_healthy [tx_healthy]:
  "then_tx m k (d, []) = (case m (d, []) of (Inl e, s') \<Rightarrow> (Inl e, s') | (Inr x, s') \<Rightarrow> k s')"
  by (simp add: then_tx_def bind_tx_def)

lemma attempt_healthy [tx_healthy]:
  "attempt m (d, []) = (case m (d, []) of (r, s') \<Rightarrow> (Inr r, s'))"
  by (simp add: attempt_def)

lemma query_healthy [tx_healthy]: "query q (d, []) = (Inr (q d), (d, []))"
  by (simp add: query_def stmt_def)

lemma query_row_healthy [tx_healthy]:
  "query_row q (d, []) = (case q d of None \<Rightarrow> Inl ENoRows | Some x \<Rightarrow> Inr x, (d, []))"
  by (simp add: query_row_def stmt_def split: option.split)

lemma exec_healthy [tx_healthy]: "exec u (d, []) = (Inr (), (u d, []))"
  by (simp add: exec_def stmt_def)

lemma exec_affected_healthy [tx_healthy]:
  "exec_affected u (d, []) = (Inr (fst (u d)), (snd (u d), []))"
  by (simp add: exec_affected_def stmt_def split: prod.split)

lemma exec_insert_healthy [tx_healthy]:
  "exec_insert u (d, []) =
     (case u d of None \<Rightarrow> (Inl EConstraint, (d, [])) | Some d' \<Rightarrow> (Inr (), (d', [])))"
  by (simp add: exec_insert_def stmt_def split: option.split)

lemma transact_healthy [tx_healthy]:
  "transact m (d, []) = (case m (d, []) of
       (Inl e, (d', fs')) \<Rightarrow> (Inl e, (d, fs'))
     | (Inr x, (d', fs')) \<Rightarrow>
         if fails_now fs' then (Inl EDriver, (d, tl fs')) else (Inr x, (d', tl fs')))"
  by (simp add: transact_def)

lemma transact_exit_healthy [tx_healthy]:
  "transact_exit m (d, []) = (case m (d, []) of
       (Inl e, (d', fs')) \<Rightarrow> (Inl e, (d, fs'))
     | (Inr (Inl x), (d', fs')) \<Rightarrow> (Inr x, (d, fs'))
     | (Inr (Inr x), (d', fs')) \<Rightarrow>
         if fails_now fs' then (Inl EDriver, (d, tl fs')) else (Inr x, (d', tl fs')))"
  by (simp add: transact_exit_def)

lemma transact_then_healthy [tx_healthy]:
  "transact_then m (d, []) = (case transact m (d, []) of
       (Inl e, s') \<Rightarrow> (Inl e, s') | (Inr (Inl e), s') \<Rightarrow> (Inl e, s') | (Inr (Inr x), s') \<Rightarrow> (Inr x, s'))"
  by (auto simp: transact_then_def bind_tx_def throw_def ret_def split: prod.split sum.split)

lemma for_each_exec_healthy [tx_healthy]:
  "for_each (\<lambda>x. exec (g x)) xs (d, []) = (Inr (), (fold g xs d, []))"
  by (induction xs arbitrary: d) (simp_all add: ret_def then_tx_def bind_tx_def exec_healthy)

section \<open>Interface: operations that are all or nothing\<close>

text \<open>
  Most writing operations of the store are one transaction. The contract a caller relies on: an
  error means nothing was written, so the call can be repeated. \<open>tries\<close> repeats a call while it
  fails, as the scheduler and the browser do.
\<close>

fun tries :: "nat \<Rightarrow> ('d, 'a) tx \<Rightarrow> ('d, 'a) tx" where
  "tries 0 op = op"
| "tries (Suc n) op = (\<lambda>s. case op s of (Inl e, s') \<Rightarrow> tries n op s' | r \<Rightarrow> r)"

locale atomic_op =
  fixes op :: "('d, 'a) tx"
  assumes error_unchanged: "fails op s e d \<Longrightarrow> d = fst s"
begin

lemma tries_error_unchanged: "fails (tries n op) s e d \<Longrightarrow> d = fst s"
proof (induction n arbitrary: s)
  case 0
  then show ?case by (auto intro: error_unchanged)
next
  case (Suc n)
  show ?case
  proof -
    obtain r s' where eq: "op s = (r, s')" by (metis surj_pair)
    show ?thesis
    proof (cases r)
      case (Inl e')
      with eq have "fst s' = fst s"
        using error_unchanged [of s e' "fst s'"] by (simp add: fails_def)
      moreover have "fails (tries n op) s' e d"
        using Suc.prems eq Inl by (simp add: fails_def)
      ultimately show ?thesis using Suc.IH by simp
    next
      case (Inr x)
      with Suc.prems eq show ?thesis by (simp add: fails_def)
    qed
  qed
qed

text \<open>A success after any number of failed attempts is the success of one call.\<close>

lemma tries_success: "returns (tries n op) (d, fs) x d' \<Longrightarrow> \<exists>fs'. returns op (d, fs') x d'"
proof (induction n arbitrary: fs)
  case 0
  then show ?case by auto
next
  case (Suc n)
  show ?case
  proof -
    obtain r s' where eq: "op (d, fs) = (r, s')" by (metis surj_pair)
    show ?thesis
    proof (cases r)
      case (Inl e)
      with eq have "fst s' = d"
        using error_unchanged [of "(d, fs)" e "fst s'"] by (simp add: fails_def)
      then obtain fs1 where "s' = (d, fs1)" by (cases s') auto
      with Suc eq Inl show ?thesis by (auto simp: returns_def)
    next
      case (Inr y)
      with Suc.prems eq have "returns op (d, fs) x d'" by (simp add: returns_def)
      then show ?thesis by blast
    qed
  qed
qed

end

interpretation transaction: atomic_op "transact m" for m :: "('d, 'a) tx"
  by unfold_locales (rule transact_fails)

interpretation transaction_exit: atomic_op "transact_exit m" for m :: "('d, 'a + 'a) tx"
  by unfold_locales (rule transact_exit_fails)

end
