(* ===== verification/Store_Schema.thy ===== *)
theory Store_Schema
  imports Sql_Tx
begin

text \<open>
  The tables of the management database, as the migrations of
  \<^verbatim>\<open>internal/store/migrations\<close> leave them: one record per row, a column that may be
  \<^verbatim>\<open>NULL\<close> as an \<open>option\<close>, and the database as a record of tables. A table is the list of its
  rows in the order of insertion; \<^verbatim>\<open>AUTOINCREMENT\<close> columns take the next number of a counter
  kept beside the table. The \<^verbatim>\<open>administrator\<close> table holds at most the row with id 1.
\<close>

record admin_row =
  adm_email :: string
  adm_password_hash :: string
  adm_created_at :: int
  adm_totp_secret_sealed :: "string option"
  adm_totp_last_step :: int
  adm_code_failures :: int
  adm_code_locked_until :: int

record session_row =
  ses_token_hash :: string
  ses_scope :: string
  ses_expires_at :: int

record auth_token_row =
  tok_id :: int
  tok_purpose :: string
  tok_token_hash :: string
  tok_expires_at :: int
  tok_attempts :: int
  tok_max_attempts :: int
  tok_consumed_at :: "int option"
  tok_parent_id :: "int option"
  tok_sealed_payload :: string
  tok_created_at :: int

record project_row =
  prj_id :: string
  prj_name :: string
  prj_db_name :: string
  prj_role_name :: string
  prj_idempotency_key :: string
  prj_stage :: string
  prj_failed :: int
  prj_stage_error :: string
  prj_created_at :: int
  prj_ready_at :: "int option"
  prj_frozen_at :: "int option"
  prj_deleting_at :: "int option"

record secret_row =
  sec_project_id :: string
  sec_sealed_password :: string
  sec_pending_password_sealed :: "string option"
  sec_pending_request_id :: string

record policy_revision_row =
  rev_project_id :: string
  rev_revision :: int
  rev_addresses :: string
  rev_created_at :: int

record policy_state_row =
  pol_project_id :: string
  pol_current_revision :: int
  pol_applied_revision :: int
  pol_state :: string
  pol_last_error :: string

record connection_check_row =
  chk_id :: string
  chk_project_id :: string
  chk_challenge_hash :: string
  chk_expires_at :: int
  chk_state :: string
  chk_evidence :: "string option"
  chk_fingerprint :: string
  chk_created_at :: int

record job_row =
  job_id :: string
  job_kind :: string
  job_project_id :: "string option"
  job_state :: string
  job_stage :: string
  job_error :: string
  job_input :: string
  job_result :: string
  job_created_at :: int
  job_started_at :: "int option"
  job_finished_at :: "int option"
  job_stage_at :: "int option"
  job_scheduled :: int
  job_target_storage :: string
  job_target_key :: string

record backup_row =
  bak_id :: string
  bak_project_id :: "string option"
  bak_job_id :: string
  bak_object_key :: string
  bak_manifest :: string
  bak_size_bytes :: int
  bak_created_at :: int
  bak_storage_target :: string

record policy_row =
  bpo_target_interval_hours :: int
  bpo_retention_daily :: int
  bpo_retention_weekly :: int
  bpo_preferred_hour :: int
  bpo_updated_at :: int

record schedule_row =
  sch_project_id :: string
  sch_last_attempt_at :: int
  sch_failures :: int
  sch_next_attempt_at :: int

record target_row =
  tgt_storage_target :: string
  tgt_endpoint :: string
  tgt_bucket :: string
  tgt_prefix :: string
  tgt_active :: int
  tgt_reconciled_at :: int
  tgt_last_error :: string

record prefix_row =
  pfx_storage_target :: string
  pfx_db_name :: string
  pfx_reconciled_at :: int
  pfx_complete :: int
  pfx_manifest_only :: int
  pfx_archive_only :: int
  pfx_damaged :: int
  pfx_mixed :: int

record bucket_row =
  bkt_storage_target :: string
  bkt_manifest_key :: string
  bkt_db_name :: string
  bkt_taken_at :: int
  bkt_state :: string
  bkt_archive_key :: string
  bkt_installation_id :: string
  bkt_project_id :: string
  bkt_project_name :: string
  bkt_postgres_version :: string
  bkt_table_count :: int
  bkt_size_bytes :: int
  bkt_seen_at :: int
  bkt_delete_started_at :: int

record audit_row =
  aud_id :: int
  aud_at :: int
  aud_admin_id :: "int option"
  aud_action :: string
  aud_target :: string
  aud_request_id :: string
  aud_detail :: string

record limits_row =
  lim_project_id :: string
  lim_statement_timeout_ms :: int
  lim_idle_in_transaction_ms :: int
  lim_temp_file_limit_kb :: int
  lim_lock_timeout_ms :: int
  lim_connection_limit :: int
  lim_revision :: int
  lim_applied_revision :: int
  lim_last_error :: string
  lim_updated_at :: int

record condition_row =
  con_key :: string
  con_kind :: string
  con_source :: string
  con_summary :: string
  con_detail :: string
  con_active :: int
  con_first_seen_at :: int
  con_last_seen_at :: int
  con_clear_since :: "int option"
  con_last_fired_at :: "int option"
  con_sent_state :: string

record event_row =
  evt_id :: int
  evt_kind :: string
  evt_key :: string
  evt_summary :: string
  evt_detail :: string
  evt_created_at :: int
  evt_sent_at :: "int option"
  evt_attempts :: int

record db =
  metadata :: "(string \<times> string) list"
  administrator :: "admin_row option"
  sessions :: "session_row list"
  auth_tokens :: "auth_token_row list"
  auth_tokens_seq :: int
  projects :: "project_row list"
  project_secrets :: "secret_row list"
  policy_revisions :: "policy_revision_row list"
  policy_state :: "policy_state_row list"
  connection_checks :: "connection_check_row list"
  settings :: "(string \<times> string \<times> int) list"
  jobs :: "job_row list"
  backups :: "backup_row list"
  backup_policy :: policy_row
  backup_schedule :: "schedule_row list"
  bucket_targets :: "target_row list"
  bucket_prefixes :: "prefix_row list"
  bucket_backups :: "bucket_row list"
  audit_log :: "audit_row list"
  audit_seq :: int
  project_limits :: "limits_row list"
  alert_conditions :: "condition_row list"
  alert_events :: "event_row list"
  alert_events_seq :: int

text \<open>The database right after the migrations: the one policy row with its default values.\<close>

definition empty_db :: db where
  "empty_db = \<lparr>metadata = [], administrator = None, sessions = [], auth_tokens = [],
     auth_tokens_seq = 1, projects = [], project_secrets = [], policy_revisions = [],
     policy_state = [], connection_checks = [], settings = [], jobs = [], backups = [],
     backup_policy = \<lparr>bpo_target_interval_hours = 24, bpo_retention_daily = 14,
       bpo_retention_weekly = 8, bpo_preferred_hour = -1, bpo_updated_at = 0\<rparr>,
     backup_schedule = [], bucket_targets = [], bucket_prefixes = [], bucket_backups = [],
     audit_log = [], audit_seq = 1, project_limits = [], alert_conditions = [],
     alert_events = [], alert_events_seq = 1\<rparr>"

type_synonym 'a dbop = "(db, 'a) tx"

section \<open>Metadata\<close>

text \<open>Key-value tables: \<^verbatim>\<open>INSERT ... ON CONFLICT(key) DO UPDATE\<close> and \<^verbatim>\<open>DELETE\<close>.\<close>

definition kv_put :: "'k \<Rightarrow> 'v \<Rightarrow> ('k \<times> 'v) list \<Rightarrow> ('k \<times> 'v) list" where
  "kv_put k v rows = upsert (\<lambda>r. fst r = k) (k, v) (\<lambda>r. (k, v)) rows"

definition kv_delete :: "'k \<Rightarrow> ('k \<times> 'v) list \<Rightarrow> ('k \<times> 'v) list" where
  "kv_delete k rows = delete_where (\<lambda>r. fst r = k) rows"

lemma map_of_kv_put: "map_of (kv_put k v rows) = (map_of rows)(k \<mapsto> v)"
proof -
  have "map_of (map (\<lambda>r. if fst r = k then (k, v) else r) rows) = (map_of rows)(k \<mapsto> v)"
    if "\<exists>r \<in> set rows. fst r = k"
    using that
  proof (induction rows)
    case Nil
    then show ?case by simp
  next
    case (Cons r rows)
    show ?case
    proof (cases "\<exists>r \<in> set rows. fst r = k")
      case True
      with Cons show ?thesis by (cases r) (auto simp: fun_eq_iff)
    next
      case False
      then have "map (\<lambda>r. if fst r = k then (k, v) else r) rows = rows"
        by (intro map_idI) auto
      with False Cons.prems show ?thesis by (cases r) (auto simp: fun_eq_iff)
    qed
  qed
  moreover have "map_of (rows @ [(k, v)]) = (map_of rows)(k \<mapsto> v)"
    if "\<forall>r \<in> set rows. fst r \<noteq> k"
    using that by (induction rows) (auto simp: fun_eq_iff)
  ultimately show ?thesis
    by (auto simp: kv_put_def upsert_def update_where_def list_ex_iff)
qed

lemma map_of_kv_delete: "map_of (kv_delete k rows) = (map_of rows)(k := None)"
  by (induction rows) (auto simp: kv_delete_def delete_where_def fun_eq_iff)

end
