(* ===== verification/Backup_Policy.thy ===== *)
theory Backup_Policy
  imports Store_Schema
begin

text \<open>
  The backup policy of \<^verbatim>\<open>internal/store/backups.go\<close>: validation, when a project is due
  (\<^verbatim>\<open>DueBefore\<close>, \<^verbatim>\<open>NextAfter\<close>) and how repeated failures are spaced out
  (\<^verbatim>\<open>backoff\<close>). A validated policy has small numbers, so Go's 64-bit products are exact.
\<close>

type_synonym BackupPolicy = policy_row

definition Interval :: "BackupPolicy \<Rightarrow> duration" where
  "Interval p = bpo_target_interval_hours p * hour"

definition backupIntervals :: "int list" where
  "backupIntervals = [1, 6, 12, 24]"

definition Validate_policy :: "BackupPolicy \<Rightarrow> err + unit" where
  "Validate_policy p =
     (if bpo_target_interval_hours p \<notin> set backupIntervals then
        Inl (EMsg ''the backup target interval must be 1, 6, 12 or 24 hours'')
      else if bpo_retention_daily p < 1 \<or> bpo_retention_daily p > 90 then
        Inl (EMsg ''daily retention must be between 1 and 90 backups'')
      else if bpo_retention_weekly p < 0 \<or> bpo_retention_weekly p > 52 then
        Inl (EMsg ''weekly retention must be between 0 and 52 backups'')
      else if bpo_preferred_hour p < -1 \<or> bpo_preferred_hour p > 23 then
        Inl (EMsg ''the preferred hour must be between 0 and 23, or any time'')
      else Inr ())"

definition hourly :: "BackupPolicy \<Rightarrow> bool" where
  "hourly p = (bpo_preferred_hour p \<ge> 0 \<and> bpo_target_interval_hours p = 24)"

text \<open>
  \<^verbatim>\<open>time.Date(t.Year(), t.Month(), t.Day(), h, 0, 0, 0, time.UTC)\<close> for a UTC time \<open>t\<close>: the
  midnight at or before \<open>t\<close>, and \<open>h\<close> hours. \<^verbatim>\<open>AddDate(0, 0, n)\<close> in UTC moves \<open>n\<close> times 24
  hours.
\<close>

abbreviation day :: duration where
  "day \<equiv> 86400 * second"

definition same_day_at :: "gotime \<Rightarrow> int \<Rightarrow> gotime" where
  "same_day_at t h = t div day * day + h * hour"

definition DueBefore :: "BackupPolicy \<Rightarrow> gotime \<Rightarrow> gotime" where
  "DueBefore p now =
     (if \<not> hourly p then now - Interval p
      else (let window = same_day_at now (bpo_preferred_hour p);
                window = (if window > now then window - day else window)
            in window - second))"

definition NextAfter :: "BackupPolicy \<Rightarrow> int \<Rightarrow> int" where
  "NextAfter p newest =
     (if \<not> hourly p then newest + Interval p div second
      else (let at = from_unix newest;
                next = same_day_at at (bpo_preferred_hour p);
                next = (if \<not> next > at then next + day else next)
            in unix next))"

definition backoff :: "int \<Rightarrow> duration \<Rightarrow> duration" where
  "backoff failures interval =
     (if failures \<le> 1 then 15 * minute
      else if failures = 2 then hour
      else if failures = 3 then 4 * hour
      else interval)"

section \<open>Lemmas\<close>

lemma unix_diff_seconds: "unix (t - n * second) = unix t - n"
  by (simp add: unix_def)

lemma unix_seconds [simp]: "unix (n * second) = n"
  by (simp add: unix_def)

lemma unix_less_iff: "n * second > t \<longleftrightarrow> n > unix t"
  unfolding unix_def by linarith

lemma day_number: "t div day = unix t div 86400"
  using zdiv_zmult2_eq [of 86400 t second] by (simp add: unix_def)

lemma same_day_at_seconds: "same_day_at t h = (unix t div 86400 * 86400 + h * 3600) * second"
  unfolding same_day_at_def day_number by (simp add: algebra_simps)

text \<open>The two functions in whole seconds.\<close>

lemma DueBefore_hourly:
  assumes "hourly p"
  shows "unix (DueBefore p now) =
    (let w = unix now div 86400 * 86400 + bpo_preferred_hour p * 3600
     in (if w > unix now then w - 86400 else w) - 1)"
proof -
  define w where "w = unix now div 86400 * 86400 + bpo_preferred_hour p * 3600"
  have at: "same_day_at now (bpo_preferred_hour p) = w * second"
    unfolding w_def by (rule same_day_at_seconds)
  have gt: "w * second > now \<longleftrightarrow> w > unix now" by (rule unix_less_iff)
  have "unix (w * second - day - second) = w - 86400 - 1" "unix (w * second - second) = w - 1" for w
    by (simp_all add: unix_def)
  then show ?thesis
    using assms gt unfolding DueBefore_def at Let_def w_def [symmetric] by simp
qed

lemma NextAfter_hourly:
  assumes "hourly p"
  shows "NextAfter p newest =
    (let n = newest div 86400 * 86400 + bpo_preferred_hour p * 3600
     in if n > newest then n else n + 86400)"
proof -
  define n where "n = newest div 86400 * 86400 + bpo_preferred_hour p * 3600"
  have u: "unix (from_unix newest) = newest" by (simp add: from_unix_def)
  have at: "same_day_at (from_unix newest) (bpo_preferred_hour p) = n * second"
    unfolding same_day_at_seconds u n_def ..
  have gt: "n * second > from_unix newest \<longleftrightarrow> n > newest"
    using unix_less_iff [of "from_unix newest" n] unfolding u .
  have "unix (n * second + day) = n + 86400" "unix (n * second) = n" for n
    by (simp_all add: unix_def)
  then show ?thesis
    using assms gt unfolding NextAfter_def at Let_def n_def [symmetric] by simp
qed

lemma not_hourly_due:
  "\<not> hourly p \<Longrightarrow> newest \<le> unix (DueBefore p now) \<longleftrightarrow> NextAfter p newest \<le> unix now"
proof -
  assume h: "\<not> hourly p"
  have "unix (now - Interval p) = unix now - bpo_target_interval_hours p * 3600"
    unfolding Interval_def unix_def by linarith
  moreover have "Interval p div second = bpo_target_interval_hours p * 3600"
    by (simp add: Interval_def)
  ultimately show ?thesis using h unfolding DueBefore_def NextAfter_def by auto
qed

lemma Validate_policy_ok:
  "Validate_policy p = Inr () \<longleftrightarrow>
     bpo_target_interval_hours p \<in> {1, 6, 12, 24} \<and>
     1 \<le> bpo_retention_daily p \<and> bpo_retention_daily p \<le> 90 \<and>
     0 \<le> bpo_retention_weekly p \<and> bpo_retention_weekly p \<le> 52 \<and>
     -1 \<le> bpo_preferred_hour p \<and> bpo_preferred_hour p \<le> 23"
  by (auto simp: Validate_policy_def backupIntervals_def)

lemma backoff_pos: "Validate_policy p = Inr () \<Longrightarrow> 0 < backoff n (Interval p)"
  by (auto simp: backoff_def Interval_def Validate_policy_ok)

lemma window_exists:
  fixes h now newest :: int
  assumes "0 \<le> h" "h \<le> 23"
  shows "newest \<le> (let w = now div 86400 * 86400 + h * 3600
                     in (if w > now then w - 86400 else w) - 1) \<longleftrightarrow>
         (let n = newest div 86400 * 86400 + h * 3600
          in if n > newest then n else n + 86400) \<le> now"
proof -
  define a where "a = now div 86400"
  define r where "r = now mod 86400"
  define b where "b = newest div 86400"
  define q where "q = newest mod 86400"
  have now: "now = a * 86400 + r" and r: "0 \<le> r" "r < 86400"
    by (simp_all add: a_def r_def)
  have newest: "newest = b * 86400 + q" and q: "0 \<le> q" "q < 86400"
    by (simp_all add: b_def q_def)
  have d: "now div 86400 = a" "newest div 86400 = b" by (simp_all add: a_def b_def)
  consider "a < b" | "a = b" | "a = b + 1" | "a \<ge> b + 2" by linarith
  then show ?thesis
    using assms r q unfolding Let_def d unfolding now newest
    by cases (auto; linarith)+
qed

section \<open>Properties\<close>

text \<open>
  \<^verbatim>\<open>NextAfter\<close> is consistent with \<^verbatim>\<open>DueBefore\<close>: for a valid policy a project whose newest
  backup was taken at \<open>newest\<close> is due at \<open>now\<close> exactly when the time \<^verbatim>\<open>NextAfter\<close> announces has
  come, with and without a preferred hour.
\<close>

theorem DueBefore_NextAfter:
  assumes "Validate_policy p = Inr ()"
  shows "newest \<le> unix (DueBefore p now) \<longleftrightarrow> NextAfter p newest \<le> unix now"
proof (cases "hourly p")
  case True
  with assms have "0 \<le> bpo_preferred_hour p" "bpo_preferred_hour p \<le> 23"
    by (auto simp: hourly_def Validate_policy_ok)
  then show ?thesis
    unfolding DueBefore_hourly [OF True] NextAfter_hourly [OF True] by (rule window_exists)
next
  case False
  then show ?thesis by (rule not_hourly_due)
qed

theorem DueBefore_NextAfter_witness:
  "let p = \<lparr>bpo_target_interval_hours = 24, bpo_retention_daily = 14, bpo_retention_weekly = 8,
            bpo_preferred_hour = 3, bpo_updated_at = 0\<rparr>
   in 100000 \<le> unix (DueBefore p (200000 * second)) \<longleftrightarrow> NextAfter p 100000 \<le> 200000"
  using DueBefore_NextAfter [of "\<lparr>bpo_target_interval_hours = 24, bpo_retention_daily = 14,
      bpo_retention_weekly = 8, bpo_preferred_hour = 3, bpo_updated_at = 0\<rparr>" 100000
      "200000 * second"]
  by (simp add: Validate_policy_def backupIntervals_def unix_def Let_def)

text \<open>
  The next backup is never announced in the past and never more than one target interval away:
  \<^verbatim>\<open>newest < NextAfter newest <= newest + interval\<close>.
\<close>

theorem NextAfter_within_interval:
  assumes "Validate_policy p = Inr ()"
  shows "newest < NextAfter p newest \<and> NextAfter p newest \<le> newest + Interval p div second"
proof (cases "hourly p")
  case True
  with assms have h: "0 \<le> bpo_preferred_hour p" "bpo_preferred_hour p \<le> 23"
    and i: "bpo_target_interval_hours p = 24"
    by (auto simp: hourly_def Validate_policy_ok)
  have "0 \<le> newest mod 86400" "newest mod 86400 < 86400"
    "newest = newest div 86400 * 86400 + newest mod 86400"
    by simp_all
  with h i show ?thesis
    unfolding NextAfter_hourly [OF True] Let_def Interval_def by (simp; linarith)
next
  case False
  with assms show ?thesis by (auto simp: NextAfter_def Interval_def Validate_policy_ok)
qed

theorem NextAfter_within_interval_witness:
  "let p = \<lparr>bpo_target_interval_hours = 24, bpo_retention_daily = 1, bpo_retention_weekly = 0,
            bpo_preferred_hour = 23, bpo_updated_at = 0\<rparr>
   in 86399 < NextAfter p 86399 \<and> NextAfter p 86399 \<le> 86399 + 86400"
  using NextAfter_within_interval [of "\<lparr>bpo_target_interval_hours = 24, bpo_retention_daily = 1,
      bpo_retention_weekly = 0, bpo_preferred_hour = 23, bpo_updated_at = 0\<rparr>" 86399]
  by (simp add: Validate_policy_def backupIntervals_def Interval_def)

end
