(* ===== verification/Store_Maintenance.thy ===== *)
theory Store_Maintenance
  imports Store_Schema
begin

text \<open>
  The metadata table: the maintenance flag a host-side update sets
  (\<^verbatim>\<open>internal/store/maintenance.go\<close>), the health write and the installation identity
  (\<^verbatim>\<open>internal/store/store.go\<close>), and the sealed settings (\<^verbatim>\<open>internal/store/jobs.go\<close>).
\<close>

section \<open>The maintenance flag\<close>

definition maintenanceGuard :: "db \<Rightarrow> bool" where
  "maintenanceGuard d = (\<not> list_ex (\<lambda>r. r = (''maintenance'', ''1'')) (metadata d))"

definition SetMaintenance :: "bool \<Rightarrow> unit dbop" where
  "SetMaintenance on =
     (if \<not> on then exec (metadata_update (kv_delete ''maintenance''))
      else exec (metadata_update (kv_put ''maintenance'' ''1'')))"

definition maintenance :: "bool dbop" where
  "maintenance = query (\<lambda>d. \<not> maintenanceGuard d)"

definition Maintenance :: "bool dbop" where
  "Maintenance = maintenance"

definition RunningJobs :: "nat dbop" where
  "RunningJobs = query (\<lambda>d. count_where (\<lambda>j. job_state j = ''running'') (jobs d))"

section \<open>Health and identity\<close>

definition Check :: "unit dbop" where
  "Check = exec (metadata_update (kv_put ''health'' ''ok''))"

text \<open>\<^verbatim>\<open>INSERT OR IGNORE\<close> keeps the first identity; a second one is refused.\<close>

definition Bind :: "string \<Rightarrow> unit dbop" where
  "Bind ident =
     then_tx (exec (metadata_update (\<lambda>m.
        if list_ex (\<lambda>r. fst r = ''installation_id'') m then m else m @ [(''installation_id'', ident)])))
     (bind_tx (query_row (\<lambda>d. map_of (metadata d) ''installation_id'')) (\<lambda>got.
        if got \<noteq> ident then throw (EMsg ''installation identity mismatch'') else ret ()))"

section \<open>Settings\<close>

definition Setting :: "string \<Rightarrow> string dbop" where
  "Setting key = bind_tx (query (\<lambda>d. map_of (settings d) key)) (\<lambda>row.
     case row of None \<Rightarrow> ret '''' | Some (sealed, _) \<Rightarrow> ret sealed)"

definition SetSetting :: "string \<Rightarrow> string \<Rightarrow> gotime \<Rightarrow> unit dbop" where
  "SetSetting key sealed now = exec (settings_update (kv_put key (sealed, unix now)))"

section \<open>Lemmas\<close>

lemma maintenanceGuard_iff:
  "maintenanceGuard d \<longleftrightarrow> (''maintenance'', ''1'') \<notin> set (metadata d)"
  by (auto simp: maintenanceGuard_def list_ex_iff)

lemma maintenanceGuard_metadata:
  "metadata d' = metadata d \<Longrightarrow> maintenanceGuard d' = maintenanceGuard d"
  by (simp add: maintenanceGuard_def)

lemma maintenance_Inr [tx_simps]:
  "maintenance s = (Inr on, s') \<longleftrightarrow>
     \<not> fails_now (snd s) \<and> on = (\<not> maintenanceGuard (fst s)) \<and> s' = (fst s, tl (snd s))"
  by (simp add: maintenance_def query_Inr)

lemma maintenance_fails: "fails maintenance s e d \<Longrightarrow> d = fst s \<and> e = EDriver"
  by (auto simp: maintenance_def dest: query_fails)

lemma keeps_maintenance [tx_keeps]: "keeps I maintenance"
  by (simp add: maintenance_def keeps_query)

lemma SetMaintenance_guard:
  assumes "returns (SetMaintenance on) (d, fs) u d'"
  shows "maintenanceGuard d' = (\<not> on)"
proof (cases on)
  case True
  with assms have "d' = metadata_update (kv_put ''maintenance'' ''1'') d"
    by (auto simp: SetMaintenance_def returns_iff exec_Inr)
  moreover have "map_of (kv_put ''maintenance'' ''1'' (metadata d)) ''maintenance'' = Some ''1''"
    by (simp add: map_of_kv_put)
  ultimately show ?thesis using True by (auto simp: maintenanceGuard_iff dest: map_of_SomeD)
next
  case False
  with assms show ?thesis
    by (auto simp: SetMaintenance_def returns_iff exec_Inr maintenanceGuard_iff kv_delete_def)
qed

text \<open>Two installations can never share a management database.\<close>

lemma Bind_identity:
  assumes "returns (Bind a) (d, fs) u d1" and "returns (Bind b) (d1, fs1) v d2"
  shows "b = a \<and> d2 = d1"
proof -
  have eq: "map_of (m @ [(''installation_id'', x)]) ''installation_id'' = Some x"
    if "\<forall>r \<in> set m. fst r \<noteq> ''installation_id''" for m x
    using that by (induction m) auto
  from assms(1) have a: "map_of (metadata d1) ''installation_id'' = Some a"
    by (auto simp: Bind_def returns_iff tx_simps list_ex_iff split: if_splits)
  then have "list_ex (\<lambda>r. fst r = ''installation_id'') (metadata d1)"
    by (force simp: list_ex_iff dest: map_of_SomeD)
  with a assms(2) show ?thesis
    by (auto simp: Bind_def returns_iff tx_simps split: if_splits)
qed

lemma SetSetting_Setting:
  assumes "returns (SetSetting key sealed now) (d, fs) u d'"
    and "returns (Setting key') (d', fs') v d''"
  shows "v = (if key' = key then sealed
              else case map_of (settings d) key' of None \<Rightarrow> '''' | Some (x, _) \<Rightarrow> x)"
  using assms
  by (auto simp: SetSetting_def Setting_def returns_iff tx_simps map_of_kv_put
      split: option.splits if_splits)

end
