(* ===== verification/Store_Alerts.thy ===== *)
theory Store_Alerts
  imports Store_Maintenance
begin

text \<open>
  The alert tables of \<^verbatim>\<open>internal/store/alerts.go\<close>: conditions that are true now and what the
  receiver last heard of each, and one-shot events queued in the transaction of the change they
  report. \<^verbatim>\<open>checked\<close> is the set of sources an evaluation looked at, a Go map that is only
  looked up.
\<close>

definition AlertRepeat :: duration where "AlertRepeat = 24 * hour"
definition AlertClearAfter :: duration where "AlertClearAfter = 10 * minute"
definition AlertEventMaxAge :: duration where "AlertEventMaxAge = 24 * hour"

record AlertCondition =
  AlertCondition_Key :: string
  AlertCondition_Kind :: string
  AlertCondition_Source :: string
  AlertCondition_Summary :: string
  AlertCondition_Detail :: string
  AlertCondition_Active :: bool
  AlertCondition_FirstSeenAt :: int
  AlertCondition_LastFiredAt :: int
  AlertCondition_SentState :: string

definition new_event :: "string \<Rightarrow> string \<Rightarrow> string \<Rightarrow> string \<Rightarrow> gotime \<Rightarrow> db \<Rightarrow> db" where
  "new_event kind key summary detail now d =
     d\<lparr>alert_events := alert_events d @ [\<lparr>evt_id = alert_events_seq d, evt_kind = kind, evt_key = key,
          evt_summary = summary, evt_detail = detail, evt_created_at = unix now,
          evt_sent_at = None, evt_attempts = 0\<rparr>],
       alert_events_seq := alert_events_seq d + 1\<rparr>"

definition RecordAlertEvent ::
  "string \<Rightarrow> string \<Rightarrow> string \<Rightarrow> string \<Rightarrow> gotime \<Rightarrow> unit dbop" where
  "RecordAlertEvent kind key summary detail now = exec (new_event kind key summary detail now)"

section \<open>Reconciling the conditions\<close>

definition condition_seen :: "gotime \<Rightarrow> AlertCondition \<Rightarrow> condition_row list \<Rightarrow> condition_row list" where
  "condition_seen now c = upsert (\<lambda>r. con_key r = AlertCondition_Key c)
     \<lparr>con_key = AlertCondition_Key c, con_kind = AlertCondition_Kind c,
      con_source = AlertCondition_Source c, con_summary = AlertCondition_Summary c,
      con_detail = AlertCondition_Detail c, con_active = 1, con_first_seen_at = unix now,
      con_last_seen_at = unix now, con_clear_since = None, con_last_fired_at = None,
      con_sent_state = ''''\<rparr>
     (\<lambda>r. r\<lparr>con_kind := AlertCondition_Kind c, con_source := AlertCondition_Source c,
            con_summary := AlertCondition_Summary c, con_detail := AlertCondition_Detail c,
            con_first_seen_at :=
              (if con_active r = 1 \<or>
                  (case con_clear_since r of None \<Rightarrow> False
                   | Some since \<Rightarrow> unix now - since < AlertClearAfter div second)
               then con_first_seen_at r else unix now),
            con_active := 1, con_last_seen_at := unix now, con_clear_since := None\<rparr>)"

definition allSources :: "string list dbop" where
  "allSources = bind_tx (attempt (query (\<lambda>d. remdups (map con_source
       (filter (\<lambda>r. con_active r = 0 \<and> con_sent_state r = ''firing'') (alert_conditions d))))))
     (\<lambda>r. ret (case r of Inl _ \<Rightarrow> [] | Inr xs \<Rightarrow> xs))"

definition restart_wait :: "gotime \<Rightarrow> string \<Rightarrow> condition_row list \<Rightarrow> condition_row list" where
  "restart_wait now source = update_where
     (\<lambda>r. con_active r = 0 \<and> con_sent_state r = ''firing'' \<and> con_source r = source)
     (\<lambda>r. r\<lparr>con_clear_since := Some (unix now)\<rparr>)"

definition mark_clear :: "gotime \<Rightarrow> string \<Rightarrow> condition_row list \<Rightarrow> condition_row list" where
  "mark_clear now key = update_where (\<lambda>r. con_key r = key)
     (\<lambda>r. r\<lparr>con_active := 0, con_clear_since := Some (unix now)\<rparr>)"

definition forget_resolved :: "gotime \<Rightarrow> condition_row list \<Rightarrow> condition_row list" where
  "forget_resolved now = delete_where (\<lambda>r. con_active r = 0 \<and> con_sent_state r \<noteq> ''firing'' \<and>
     (case con_clear_since r of None \<Rightarrow> False
      | Some since \<Rightarrow> since < unix (now - 30 * 24 * hour)))"

definition drop_events :: "gotime \<Rightarrow> event_row list \<Rightarrow> event_row list" where
  "drop_events now = delete_where (\<lambda>v. case evt_sent_at v of
       Some sent \<Rightarrow> sent < unix (now - 30 * 24 * hour)
     | None \<Rightarrow> evt_created_at v < unix (now - AlertEventMaxAge))"

definition ReconcileAlerts ::
  "AlertCondition list \<Rightarrow> (string \<Rightarrow> bool) \<Rightarrow> gotime \<Rightarrow> unit dbop" where
  "ReconcileAlerts active checked now = transact (
     then_tx (for_each (\<lambda>c. exec (alert_conditions_update (condition_seen now c))) active)
     (bind_tx (query (\<lambda>d. map (\<lambda>r. (con_key r, con_source r))
         (filter (\<lambda>r. con_active r = 1) (alert_conditions d)))) (\<lambda>rows.
      let seen = (\<lambda>k. list_ex (\<lambda>c. AlertCondition_Key c = k) active);
          clear = map fst (filter (\<lambda>(key, source). \<not> seen key \<and> checked source) rows)
      in bind_tx allSources (\<lambda>sources.
     then_tx (for_each (\<lambda>source. exec (alert_conditions_update (restart_wait now source)))
       (filter (\<lambda>source. \<not> checked source) sources))
     (then_tx (for_each (\<lambda>key. exec (alert_conditions_update (mark_clear now key))) clear)
     (then_tx (exec (alert_conditions_update (forget_resolved now)))
     (bind_tx (query (\<lambda>d. count_where (\<lambda>v. evt_sent_at v = None \<and>
         evt_created_at v < unix (now - AlertEventMaxAge)) (alert_events d))) (\<lambda>dropped.
     exec (alert_events_update (drop_events now))))))))))"

section \<open>Delivery\<close>

record Outgoing =
  Outgoing_Key :: string
  Outgoing_Kind :: string
  Outgoing_State :: string
  Outgoing_Summary :: string
  Outgoing_Detail :: string
  Outgoing_EventID :: int
  Outgoing_At :: int

definition to_send :: "gotime \<Rightarrow> condition_row \<Rightarrow> bool" where
  "to_send now r \<longleftrightarrow>
     (con_active r = 1 \<and>
        (case con_last_fired_at r of None \<Rightarrow> True | Some at \<Rightarrow> at \<le> unix (now - AlertRepeat))) \<or>
     (con_active r = 0 \<and> con_sent_state r = ''firing'' \<and>
        (case con_clear_since r of None \<Rightarrow> False | Some since \<Rightarrow> since \<le> unix (now - AlertClearAfter)))"

definition outgoing_condition :: "condition_row \<Rightarrow> Outgoing" where
  "outgoing_condition r = \<lparr>Outgoing_Key = con_key r, Outgoing_Kind = con_kind r,
     Outgoing_State = (if con_active r = 1 then ''firing'' else ''resolved''),
     Outgoing_Summary = con_summary r, Outgoing_Detail = con_detail r, Outgoing_EventID = 0,
     Outgoing_At = con_last_seen_at r\<rparr>"

definition outgoing_event :: "event_row \<Rightarrow> Outgoing" where
  "outgoing_event v = \<lparr>Outgoing_Key = evt_key v, Outgoing_Kind = evt_kind v,
     Outgoing_State = ''event'', Outgoing_Summary = evt_summary v, Outgoing_Detail = evt_detail v,
     Outgoing_EventID = evt_id v, Outgoing_At = evt_created_at v\<rparr>"

definition AlertsToSend :: "gotime \<Rightarrow> Outgoing list dbop" where
  "AlertsToSend now =
     bind_tx (query (\<lambda>d. map outgoing_condition
       (sort_key con_first_seen_at (filter (to_send now) (alert_conditions d))))) (\<lambda>conditions.
     bind_tx (query (\<lambda>d. map outgoing_event (sort_key evt_id
       (filter (\<lambda>v. evt_sent_at v = None \<and> evt_created_at v \<ge> unix (now - AlertEventMaxAge))
         (alert_events d))))) (\<lambda>events.
     ret (conditions @ events)))"

definition MarkAlertSent :: "Outgoing \<Rightarrow> gotime \<Rightarrow> unit dbop" where
  "MarkAlertSent out now =
     (if Outgoing_State out = ''event'' then
        exec (alert_events_update (update_where (\<lambda>v. evt_id v = Outgoing_EventID out)
          (\<lambda>v. v\<lparr>evt_sent_at := Some (unix now), evt_attempts := evt_attempts v + 1\<rparr>)))
      else if Outgoing_State out = ''firing'' then
        exec (alert_conditions_update (update_where (\<lambda>r. con_key r = Outgoing_Key out)
          (\<lambda>r. r\<lparr>con_sent_state := ''firing'', con_last_fired_at := Some (unix now)\<rparr>)))
      else
        exec (alert_conditions_update (update_where
          (\<lambda>r. con_key r = Outgoing_Key out \<and> con_active r = 0)
          (\<lambda>r. r\<lparr>con_sent_state := ''resolved''\<rparr>))))"

definition AlertAttemptFailed :: "Outgoing \<Rightarrow> unit dbop" where
  "AlertAttemptFailed out =
     (if Outgoing_State out = ''event'' then
        bind_tx (attempt (exec (alert_events_update (update_where
          (\<lambda>v. evt_id v = Outgoing_EventID out) (\<lambda>v. v\<lparr>evt_attempts := evt_attempts v + 1\<rparr>)))))
          (\<lambda>_. ret ())
      else ret ())"

definition forget_delivery :: "condition_row list \<Rightarrow> condition_row list" where
  "forget_delivery = update_where (\<lambda>r. con_active r = 1)
     (\<lambda>r. r\<lparr>con_sent_state := '''', con_last_fired_at := None\<rparr>)"

definition ResetAlertDelivery :: "unit dbop" where
  "ResetAlertDelivery = exec (alert_conditions_update forget_delivery)"

definition AlertConditions :: "AlertCondition list dbop" where
  "AlertConditions = query (\<lambda>d. map (\<lambda>r.
     \<lparr>AlertCondition_Key = con_key r, AlertCondition_Kind = con_kind r,
      AlertCondition_Source = con_source r, AlertCondition_Summary = con_summary r,
      AlertCondition_Detail = con_detail r, AlertCondition_Active = (con_active r \<noteq> 0),
      AlertCondition_FirstSeenAt = con_first_seen_at r,
      AlertCondition_LastFiredAt = (case con_last_fired_at r of None \<Rightarrow> 0 | Some at \<Rightarrow> at),
      AlertCondition_SentState = con_sent_state r\<rparr>)
     (take 200 (sort_key (\<lambda>r. (- con_active r, - con_first_seen_at r)) (alert_conditions d))))"

definition AlertWebhookSetting :: string where
  "AlertWebhookSetting = ''alerts_webhook''"

definition SetAlertWebhook :: "string \<Rightarrow> bool \<Rightarrow> gotime \<Rightarrow> unit dbop" where
  "SetAlertWebhook sealed receiverChanged now = transact (
     then_tx (exec (settings_update (kv_put AlertWebhookSetting (sealed, unix now))))
     (if receiverChanged then
        then_tx (exec (alert_conditions_update forget_delivery))
        (exec (alert_conditions_update (update_where (\<lambda>r. con_active r = 0)
          (\<lambda>r. r\<lparr>con_sent_state := ''''\<rparr>))))
      else ret ()))"

section \<open>A run of the alerter\<close>

text \<open>
  What the alerter does between two firing messages of one condition: reconciliations, deliveries
  that succeed or fail, and events queued by other transactions, in any order and with any driver
  failure, at times from \<open>lo\<close> to before \<open>hi\<close>. Changing the receiver is not part of such a run.
\<close>

inductive alerter_run :: "gotime \<Rightarrow> gotime \<Rightarrow> db \<Rightarrow> db \<Rightarrow> bool" for lo hi where
  run_refl: "alerter_run lo hi d d"
| run_reconcile: "alerter_run lo hi d d1 \<Longrightarrow> lo \<le> now \<Longrightarrow> now < hi \<Longrightarrow>
    alerter_run lo hi d (leaves (ReconcileAlerts active checked now) (d1, fs))"
| run_sent: "alerter_run lo hi d d1 \<Longrightarrow> lo \<le> now \<Longrightarrow>
    alerter_run lo hi d (leaves (MarkAlertSent out now) (d1, fs))"
| run_attempt: "alerter_run lo hi d d1 \<Longrightarrow>
    alerter_run lo hi d (leaves (AlertAttemptFailed out) (d1, fs))"
| run_event: "alerter_run lo hi d d1 \<Longrightarrow>
    alerter_run lo hi d (leaves (RecordAlertEvent kind key summary detail now) (d1, fs))"

text \<open>The condition \<open>k\<close> was told to the receiver at second \<open>t\<close> or later and is not yet forgotten.\<close>

definition told_since :: "int \<Rightarrow> string \<Rightarrow> db \<Rightarrow> bool" where
  "told_since t k d \<longleftrightarrow>
     (\<exists>r \<in> set (alert_conditions d). con_key r = k) \<and>
     (\<forall>r \<in> set (alert_conditions d). con_key r = k \<longrightarrow>
        (\<exists>at. con_last_fired_at r = Some at \<and> t \<le> at) \<and>
        (con_active r = 1 \<or> (\<exists>c. con_clear_since r = Some c \<and> t \<le> c)))"

lemma unix_mono: "a \<le> b \<Longrightarrow> unix a \<le> unix b"
  unfolding unix_def by (rule zdiv_mono1) simp_all

lemma unix_minus: "unix (t - n * second) = unix t - n"
  unfolding unix_def by linarith

lemma told_since_update_where:
  assumes "told_since t k d"
    and "\<And>r. con_key (f r) = con_key r"
    and "\<And>r at. con_last_fired_at r = Some at \<Longrightarrow> t \<le> at \<Longrightarrow>
           \<exists>at'. con_last_fired_at (f r) = Some at' \<and> t \<le> at'"
    and "\<And>r. con_active r = 1 \<or> (\<exists>c. con_clear_since r = Some c \<and> t \<le> c) \<Longrightarrow>
           con_active (f r) = 1 \<or> (\<exists>c. con_clear_since (f r) = Some c \<and> t \<le> c)"
  shows "told_since t k (alert_conditions_update (update_where P f) d)"
proof -
  have "\<exists>r \<in> set (update_where P f (alert_conditions d)). con_key r = k"
    using assms(1,2) by (simp add: told_since_def bex_key_update_where)
  moreover have "\<forall>x \<in> set (update_where P f (alert_conditions d)). con_key x = k \<longrightarrow>
      (\<exists>at. con_last_fired_at x = Some at \<and> t \<le> at) \<and>
      (con_active x = 1 \<or> (\<exists>c. con_clear_since x = Some c \<and> t \<le> c))"
    unfolding ball_update_where
  proof
    fix r assume "r \<in> set (alert_conditions d)"
    with assms(1) have "con_key r = k \<longrightarrow> (\<exists>at. con_last_fired_at r = Some at \<and> t \<le> at) \<and>
        (con_active r = 1 \<or> (\<exists>c. con_clear_since r = Some c \<and> t \<le> c))"
      by (simp add: told_since_def)
    then show "if P r then con_key (f r) = k \<longrightarrow> (\<exists>at. con_last_fired_at (f r) = Some at \<and> t \<le> at) \<and>
        (con_active (f r) = 1 \<or> (\<exists>c. con_clear_since (f r) = Some c \<and> t \<le> c))
      else con_key r = k \<longrightarrow> (\<exists>at. con_last_fired_at r = Some at \<and> t \<le> at) \<and>
        (con_active r = 1 \<or> (\<exists>c. con_clear_since r = Some c \<and> t \<le> c))"
      using assms(2,3,4) [of r] by auto
  qed
  ultimately show ?thesis by (simp add: told_since_def)
qed

lemma told_since_seen:
  assumes "told_since t k d"
  shows "told_since t k (alert_conditions_update (condition_seen now c) d)"
proof (cases "list_ex (\<lambda>r. con_key r = AlertCondition_Key c) (alert_conditions d)")
  case True
  then have "alert_conditions_update (condition_seen now c) d =
    alert_conditions_update (update_where (\<lambda>r. con_key r = AlertCondition_Key c)
      (\<lambda>r. r\<lparr>con_kind := AlertCondition_Kind c, con_source := AlertCondition_Source c,
            con_summary := AlertCondition_Summary c, con_detail := AlertCondition_Detail c,
            con_first_seen_at :=
              (if con_active r = 1 \<or>
                  (case con_clear_since r of None \<Rightarrow> False
                   | Some since \<Rightarrow> unix now - since < AlertClearAfter div second)
               then con_first_seen_at r else unix now),
            con_active := 1, con_last_seen_at := unix now, con_clear_since := None\<rparr>)) d"
    by (simp add: condition_seen_def upsert_def)
  also have "told_since t k \<dots>" using assms by (rule told_since_update_where) simp_all
  finally show ?thesis .
next
  case False
  then have "AlertCondition_Key c \<noteq> k" using assms by (auto simp: told_since_def list_ex_iff)
  with False assms show ?thesis by (auto simp: told_since_def condition_seen_def upsert_def)
qed

lemma told_since_forget:
  assumes "told_since t k d" and "unix (now - 30 * 24 * hour) \<le> t"
  shows "told_since t k (alert_conditions_update (forget_resolved now) d)"
  using assms unfolding told_since_def forget_resolved_def by (force split: option.splits)

lemma told_since_events [simp]: "told_since t k (alert_events_update f d) = told_since t k d"
  by (simp add: told_since_def)

lemma keeps_allSources [tx_keeps]: "keeps I allSources"
  unfolding allSources_def by (intro tx_keeps)

lemma told_since_reconcile:
  assumes "t \<le> unix now" and "unix (now - 30 * 24 * hour) \<le> t"
  shows "keeps (told_since t k) (ReconcileAlerts active checked now)"
  unfolding ReconcileAlerts_def Let_def
proof (intro tx_keeps)
  show "told_since t k (alert_conditions_update (condition_seen now c) d)"
    if "told_since t k d" for c d using that by (rule told_since_seen)
  show "told_since t k (alert_conditions_update (restart_wait now source) d)"
    if "told_since t k d" for source d
    unfolding restart_wait_def using that assms(1) by (intro told_since_update_where) auto
  show "told_since t k (alert_conditions_update (mark_clear now key) d)"
    if "told_since t k d" for key d
    unfolding mark_clear_def using that assms(1) by (intro told_since_update_where) auto
  show "told_since t k (alert_conditions_update (forget_resolved now) d)" if "told_since t k d" for d
    using that assms(2) by (rule told_since_forget)
qed simp

lemma told_since_sent:
  assumes "t \<le> unix now"
  shows "keeps (told_since t k) (MarkAlertSent out now)"
  unfolding MarkAlertSent_def
proof (intro tx_keeps)
  show "told_since t k (alert_conditions_update (update_where (\<lambda>r. con_key r = Outgoing_Key out)
      (\<lambda>r. r\<lparr>con_sent_state := ''firing'', con_last_fired_at := Some (unix now)\<rparr>)) d)"
    if "told_since t k d" for d using that assms by (intro told_since_update_where) auto
  show "told_since t k (alert_conditions_update (update_where
      (\<lambda>r. con_key r = Outgoing_Key out \<and> con_active r = 0) (con_sent_state_update (\<lambda>_. ''resolved''))) d)"
    if "told_since t k d" for d using that by (intro told_since_update_where) auto
qed simp

lemma told_since_attempt: "keeps (told_since t k) (AlertAttemptFailed out)"
  unfolding AlertAttemptFailed_def by (intro tx_keeps) simp_all

lemma told_since_event: "keeps (told_since t k) (RecordAlertEvent kind key summary detail now)"
  unfolding RecordAlertEvent_def by (intro tx_keeps) (simp add: new_event_def told_since_def)

lemma alerter_run_told:
  assumes "alerter_run lo hi d d'" and "told_since (unix lo) k d" and "hi \<le> lo + 30 * 24 * hour"
  shows "told_since (unix lo) k d'"
  using assms(1,2)
proof (induction rule: alerter_run.induct)
  case (run_reconcile d d1 now active checked fs)
  have "unix (now - 30 * 24 * hour) \<le> unix lo"
    using run_reconcile.hyps assms(3) by (intro unix_mono) simp
  with run_reconcile unix_mono [of lo now] show ?case
    using keepsD [OF told_since_reconcile, of "unix lo" now k "(d1, fs)"] by simp
next
  case (run_sent d d1 now out fs)
  with unix_mono [of lo now] keepsD [OF told_since_sent, of "unix lo" now k "(d1, fs)"]
  show ?case by simp
next
  case (run_attempt d d1 out fs)
  with keepsD [OF told_since_attempt, of "unix lo" k "(d1, fs)"] show ?case by simp
next
  case (run_event d d1 kind key summary detail now fs)
  with keepsD [OF told_since_event, of "unix lo" k "(d1, fs)"] show ?case by simp
qed


section \<open>Properties\<close>

text \<open>
  At most one firing message a day: once the receiver was told at \<open>t0\<close> that an active condition
  is firing, no run of the alerter in the next 24 hours puts a firing message of that condition
  back into what is to be sent, however the condition clears and comes back meanwhile.
\<close>

theorem fires_once_a_day:
  assumes told: "returns (MarkAlertSent out t0) (d, fs) u d1" "Outgoing_State out = ''firing''"
    and active: "\<exists>r \<in> set (alert_conditions d). con_key r = Outgoing_Key out"
      "\<forall>r \<in> set (alert_conditions d). con_key r = Outgoing_Key out \<longrightarrow> con_active r = 1"
    and run: "alerter_run t0 (t0 + AlertRepeat) d1 d2"
    and sending: "returns (AlertsToSend now) (d2, fs2) outs d3" "unix now < unix t0 + 86400"
  shows "\<forall>o' \<in> set outs. Outgoing_Key o' = Outgoing_Key out \<longrightarrow> Outgoing_State o' \<noteq> ''firing''"
proof -
  have "told_since (unix t0) (Outgoing_Key out) d1"
    using told active by (auto simp: MarkAlertSent_def returns_iff tx_simps told_since_def
        bex_key_update_where in_update_where)
  then have d2: "told_since (unix t0) (Outgoing_Key out) d2"
    by (rule alerter_run_told [OF run]) (simp add: AlertRepeat_def)
  have "unix (now - AlertRepeat) = unix now - 86400"
    using unix_minus [of now 86400] by (simp add: AlertRepeat_def)
  with sending(2) have no: "\<not> (con_active r = 1 \<and> to_send now r)"
    if "r \<in> set (alert_conditions d2)" "con_key r = Outgoing_Key out" for r
    using that d2 by (fastforce simp: told_since_def to_send_def)
  show ?thesis
    using sending(1) no
    by (auto simp: AlertsToSend_def returns_iff tx_simps outgoing_condition_def outgoing_event_def
        split: if_splits)
qed

definition disk_alert :: Outgoing where
  "disk_alert = \<lparr>Outgoing_Key = ''disk'', Outgoing_Kind = ''disk'', Outgoing_State = ''firing'',
     Outgoing_Summary = ''low'', Outgoing_Detail = '''', Outgoing_EventID = 0, Outgoing_At = 0\<rparr>"

definition disk_full :: db where
  "disk_full = empty_db\<lparr>alert_conditions := [\<lparr>con_key = ''disk'', con_kind = ''disk'',
     con_source = ''host'', con_summary = ''low'', con_detail = '''', con_active = 1,
     con_first_seen_at = 0, con_last_seen_at = 0, con_clear_since = None, con_last_fired_at = None,
     con_sent_state = ''''\<rparr>]\<rparr>"

theorem fires_once_a_day_witness:
  "let d1 = leaves (MarkAlertSent disk_alert 0) (disk_full, []);
       d2 = leaves (ReconcileAlerts [] (\<lambda>_. True) (60 * second)) (d1, []);
       outs = projr (fst (AlertsToSend (3600 * second) (d2, [])))
   in filter (\<lambda>o'. Outgoing_Key o' = ''disk'' \<and> Outgoing_State o' = ''firing'') outs = []"
proof -
  define d1 where "d1 = leaves (MarkAlertSent disk_alert 0) (disk_full, [])"
  define d2 where "d2 = leaves (ReconcileAlerts [] (\<lambda>_. True) (60 * second)) (d1, [])"
  define outs where "outs = projr (fst (AlertsToSend (3600 * second) (d2, [])))"
  have a: "returns (MarkAlertSent disk_alert 0) (disk_full, []) () d1"
    by (simp add: d1_def leaves_def returns_def MarkAlertSent_def disk_alert_def exec_def stmt_def)
  have b: "alerter_run 0 (0 + AlertRepeat) d1 d2"
    unfolding d2_def by (rule run_reconcile [OF run_refl]) (simp_all add: AlertRepeat_def)
  have c: "returns (AlertsToSend (3600 * second)) (d2, []) outs d2"
    by (simp add: outs_def returns_def AlertsToSend_def bind_tx_def query_def stmt_def ret_def)
  have "\<forall>o' \<in> set outs. Outgoing_Key o' = Outgoing_Key disk_alert \<longrightarrow> Outgoing_State o' \<noteq> ''firing''"
    by (rule fires_once_a_day [OF a _ _ _ b c])
      (simp_all add: disk_alert_def disk_full_def unix_def)
  then show ?thesis by (simp add: filter_empty_conv Let_def d1_def d2_def outs_def disk_alert_def)
qed

section \<open>Sources that were not checked\<close>

definition clear_keys ::
  "AlertCondition list \<Rightarrow> (string \<Rightarrow> bool) \<Rightarrow> condition_row list \<Rightarrow> string list" where
  "clear_keys active checked rows = map con_key (filter (\<lambda>r. con_active r = 1 \<and>
     \<not> list_ex (\<lambda>c. AlertCondition_Key c = con_key r) active \<and> checked (con_source r)) rows)"

definition waiting_sources :: "(string \<Rightarrow> bool) \<Rightarrow> condition_row list \<Rightarrow> string list" where
  "waiting_sources checked rows = filter (\<lambda>s. \<not> checked s) (remdups (map con_source
     (filter (\<lambda>r. con_active r = 0 \<and> con_sent_state r = ''firing'') rows)))"

lemma fold_conditions:
  "fold (\<lambda>x. alert_conditions_update (g x)) xs d = alert_conditions_update (fold g xs) d"
  by (induction xs arbitrary: d) (simp_all add: o_def)

lemma ReconcileAlerts_conditions:
  assumes "returns (ReconcileAlerts active checked now) (d, []) u d'"
  defines "rows \<equiv> fold (condition_seen now) active (alert_conditions d)"
  shows "alert_conditions d' = forget_resolved now (fold (mark_clear now) (clear_keys active checked rows)
           (fold (restart_wait now) (waiting_sources checked rows) rows))"
proof -
  have keys: "map fst (filter (\<lambda>(key, source). \<not> list_ex (\<lambda>c. AlertCondition_Key c = key) active \<and>
        checked source) (map (\<lambda>r. (con_key r, con_source r)) (filter (\<lambda>r. con_active r = 1) rows))) =
      clear_keys active checked rows" for rows :: "condition_row list"
    by (simp add: clear_keys_def filter_map o_def conj_commute conj_left_commute)
  from assms(1) show ?thesis
    unfolding rows_def
    by (auto simp: returns_def ReconcileAlerts_def allSources_def tx_healthy Let_def fold_conditions
        keys waiting_sources_def)
qed

lemma fold_restart_wait:
  "fold (restart_wait now) ss rows = update_where
     (\<lambda>r. con_active r = 0 \<and> con_sent_state r = ''firing'' \<and> con_source r \<in> set ss)
     (\<lambda>r. r\<lparr>con_clear_since := Some (unix now)\<rparr>) rows"
  unfolding restart_wait_def by (subst fold_update_where) (auto intro: arg_cong2 [of _ _ _ _ update_where])

lemma fold_mark_clear:
  "fold (mark_clear now) ks rows = update_where (\<lambda>r. con_key r \<in> set ks)
     (\<lambda>r. r\<lparr>con_active := 0, con_clear_since := Some (unix now)\<rparr>) rows"
  unfolding mark_clear_def by (subst fold_update_where) auto

lemma fold_seen_other:
  assumes "k \<notin> AlertCondition_Key ` set active"
  shows "filter (\<lambda>r. con_key r = k) (fold (condition_seen now) active rows) =
         filter (\<lambda>r. con_key r = k) rows"
  using assms
proof (induction active arbitrary: rows)
  case (Cons c active)
  have "filter (\<lambda>r. con_key r = k) (condition_seen now c rows) = filter (\<lambda>r. con_key r = k) rows"
    unfolding condition_seen_def using Cons.prems by (intro upsert_other) auto
  with Cons show ?case by simp
qed simp

lemma unchecked_row_stays:
  fixes now :: gotime
  assumes "distinct (map con_key rows)" "r \<in> set rows" "con_active r = 1" "\<not> checked (con_source r)"
    and "con_key r \<notin> AlertCondition_Key ` set active"
  defines "seen \<equiv> fold (condition_seen now) active rows"
  shows "r \<in> set (forget_resolved now (fold (mark_clear now) (clear_keys active checked seen)
    (fold (restart_wait now) ss seen)))"
proof -
  have only: "filter (\<lambda>x. con_key x = con_key r) rows = [r]"
    using assms(1,2) by (induction rows) (auto simp: filter_empty_conv image_iff)
  then have "filter (\<lambda>x. con_key x = con_key r) seen = [r]"
    unfolding seen_def using assms(5) by (simp add: fold_seen_other)
  then have "set (filter (\<lambda>x. con_key x = con_key r) seen) = {r}" by simp
  then have one: "{x \<in> set seen. con_key x = con_key r} = {r}" by simp
  then have k: "con_key r \<notin> set (clear_keys active checked seen)"
    using assms(4) by (auto simp: clear_keys_def)
  have "r \<in> set seen" using one by blast
  then have "r \<in> set (fold (restart_wait now) ss seen)"
    unfolding fold_restart_wait using assms(3) by (intro update_where_unmatched) simp_all
  then have "r \<in> set (fold (mark_clear now) (clear_keys active checked seen)
      (fold (restart_wait now) ss seen))"
    unfolding fold_mark_clear using k by (intro update_where_unmatched)
  with assms(3) show ?thesis by (simp add: forget_resolved_def)
qed

lemma unchecked_wait_restarts:
  assumes "r \<in> set (forget_resolved now (fold (mark_clear now) ks
      (fold (restart_wait now) (waiting_sources checked rows) rows)))"
    and "con_active r = 0" "con_sent_state r = ''firing''" "\<not> checked (con_source r)"
  shows "con_clear_since r = Some (unix now)"
  using assms
  by (auto simp: forget_resolved_def fold_mark_clear fold_restart_wait in_update_where waiting_sources_def)

text \<open>
  A source that was not checked proves nothing: a reconciliation leaves its active conditions
  exactly as they were, and a condition of it that waits to be announced as resolved starts its ten
  minutes again, so nothing of that source is sent as resolved before they have passed.
\<close>

theorem unchecked_never_resolves:
  assumes "distinct (map con_key (alert_conditions d))"
    and "returns (ReconcileAlerts active checked t0) (d, []) u d'"
  shows "(\<forall>r \<in> set (alert_conditions d). con_active r = 1 \<and> \<not> checked (con_source r) \<and>
            con_key r \<notin> AlertCondition_Key ` set active \<longrightarrow> r \<in> set (alert_conditions d')) \<and>
         (\<forall>r \<in> set (alert_conditions d'). \<forall>now. con_active r = 0 \<and> \<not> checked (con_source r) \<and>
            unix now < unix t0 + 600 \<longrightarrow> \<not> to_send now r)"
proof -
  have wait: "unix (now - AlertClearAfter) = unix now - 600" for now
    using unix_minus [of now 600] by (simp add: AlertClearAfter_def)
  note rows = ReconcileAlerts_conditions [OF assms(2)]
  have "\<not> to_send now r" if "r \<in> set (alert_conditions d')" "con_active r = 0"
    "\<not> checked (con_source r)" "unix now < unix t0 + 600" for r now
    using that unchecked_wait_restarts [of r t0] unfolding rows by (auto simp: to_send_def wait)
  moreover have "r \<in> set (alert_conditions d')" if "r \<in> set (alert_conditions d)" "con_active r = 1"
    "\<not> checked (con_source r)" "con_key r \<notin> AlertCondition_Key ` set active" for r
    unfolding rows using unchecked_row_stays [OF assms(1) that(1,2)] that by blast
  ultimately show ?thesis by blast
qed

theorem unchecked_never_resolves_witness:
  "let d' = leaves (ReconcileAlerts [] (\<lambda>s. s \<noteq> ''host'') (60 * second)) (disk_full, [])
   in alert_conditions disk_full \<noteq> [] \<and> hd (alert_conditions disk_full) \<in> set (alert_conditions d')"
proof -
  define d' where "d' = leaves (ReconcileAlerts [] (\<lambda>s. s \<noteq> ''host'') (60 * second)) (disk_full, [])"
  have r: "returns (ReconcileAlerts [] (\<lambda>s. s \<noteq> ''host'') (60 * second)) (disk_full, []) () d'"
    by (simp add: d'_def leaves_def returns_def ReconcileAlerts_def allSources_def tx_healthy Let_def)
  have "distinct (map con_key (alert_conditions disk_full))" by (simp add: disk_full_def)
  from unchecked_never_resolves [OF this r]
  have "hd (alert_conditions disk_full) \<in> set (alert_conditions d')" by (simp add: disk_full_def)
  then show ?thesis unfolding Let_def d'_def by (simp add: disk_full_def)
qed

end
