(* ===== verification/Store_Jobs.thy ===== *)
theory Store_Jobs
  imports Backup_Policy Store_Alerts
begin

text \<open>
  The durable job queue and the backup history of \<^verbatim>\<open>internal/store/jobs.go\<close>. A job row is
  inserted queued, claimed by the one worker (running) and ends succeeded, failed or interrupted.
\<close>

section \<open>Rows and results\<close>

record Job =
  Job_ID :: string
  Job_Kind :: string
  Job_ProjectID :: string
  Job_State :: string
  Job_Stage :: string
  Job_Error :: string
  Job_Input :: string
  Job_Result :: string
  Job_CreatedAt :: int
  Job_StartedAt :: int
  Job_FinishedAt :: int
  Job_StageAt :: int
  Job_Scheduled :: bool
  Job_TargetStorage :: string
  Job_TargetKey :: string

definition coalesce :: "'a option \<Rightarrow> 'a \<Rightarrow> 'a" where
  "coalesce x y = (case x of None \<Rightarrow> y | Some v \<Rightarrow> v)"

definition scanJob :: "job_row \<Rightarrow> Job" where
  "scanJob r = \<lparr>Job_ID = job_id r, Job_Kind = job_kind r,
     Job_ProjectID = coalesce (job_project_id r) '''', Job_State = job_state r,
     Job_Stage = job_stage r, Job_Error = job_error r, Job_Input = job_input r,
     Job_Result = job_result r, Job_CreatedAt = job_created_at r,
     Job_StartedAt = coalesce (job_started_at r) 0, Job_FinishedAt = coalesce (job_finished_at r) 0,
     Job_StageAt = coalesce (job_stage_at r) 0, Job_Scheduled = (job_scheduled r \<noteq> 0),
     Job_TargetStorage = job_target_storage r, Job_TargetKey = job_target_key r\<rparr>"

definition active_job :: "job_row \<Rightarrow> bool" where
  "active_job j = (job_state j = ''queued'' \<or> job_state j = ''running'')"

definition project_exists :: "string \<Rightarrow> db \<Rightarrow> bool" where
  "project_exists p d = list_ex (\<lambda>r. prj_id r = p) (projects d)"

text \<open>\<^verbatim>\<open>INSERT INTO jobs\<close> with the column defaults; the id is the primary key and a project id
  must name a project.\<close>

definition queued_job ::
  "string \<Rightarrow> string \<Rightarrow> string option \<Rightarrow> string \<Rightarrow> int \<Rightarrow> gotime \<Rightarrow> job_row" where
  "queued_job jid kind project input flag now =
     \<lparr>job_id = jid, job_kind = kind, job_project_id = project, job_state = ''queued'',
      job_stage = ''queued'', job_error = '''', job_input = input, job_result = ''{}'',
      job_created_at = unix now, job_started_at = None, job_finished_at = None,
      job_stage_at = None, job_scheduled = flag, job_target_storage = '''', job_target_key = ''''\<rparr>"

definition insert_job :: "job_row \<Rightarrow> db \<Rightarrow> db option" where
  "insert_job j d =
     (if list_ex (\<lambda>r. job_id r = job_id j) (jobs d) \<or>
         (case job_project_id j of None \<Rightarrow> False | Some p \<Rightarrow> \<not> project_exists p d)
      then None else Some (d\<lparr>jobs := jobs d @ [j]\<rparr>))"

text \<open>\<^verbatim>\<open>INSERT INTO backup_schedule ... ON CONFLICT(project_id) DO UPDATE\<close>: a new row needs its
  project, an update does not.\<close>

definition upsert_schedule :: "schedule_row \<Rightarrow> (schedule_row \<Rightarrow> schedule_row) \<Rightarrow> db \<Rightarrow> db option" where
  "upsert_schedule new upd d =
     (let P = (\<lambda>r. sch_project_id r = sch_project_id new)
      in if \<not> list_ex P (backup_schedule d) \<and> \<not> project_exists (sch_project_id new) d then None
         else Some (d\<lparr>backup_schedule := upsert P new upd (backup_schedule d)\<rparr>))"

section \<open>The queue\<close>

definition get_Job :: "string \<Rightarrow> Job dbop" where
  "get_Job jid = bind_tx (query (\<lambda>d. find (\<lambda>r. job_id r = jid) (jobs d))) (\<lambda>row.
     case row of None \<Rightarrow> throw ErrProjectNotFound | Some r \<Rightarrow> ret (scanJob r))"

definition enqueue_body ::
  "string \<Rightarrow> string \<Rightarrow> string \<Rightarrow> string \<Rightarrow> bool \<Rightarrow> gotime \<Rightarrow> unit dbop" where
  "enqueue_body jid kind projectID input scheduled now =
     bind_tx maintenance (\<lambda>on. if on then throw ErrMaintenance else
     bind_tx (query (\<lambda>d. count_where active_job (jobs d))) (\<lambda>active.
     if active > 0 then throw ErrJobBusy else
     let project = (if projectID \<noteq> '''' then Some projectID else None);
         flag = (if scheduled then 1 else 0)
     in then_tx (exec_insert (insert_job (queued_job jid kind project input flag now)))
     (if kind = ''backup'' \<and> projectID \<noteq> '''' then
        exec_insert (upsert_schedule
          \<lparr>sch_project_id = projectID, sch_last_attempt_at = unix now, sch_failures = 0,
           sch_next_attempt_at = 0\<rparr>
          (\<lambda>r. r\<lparr>sch_last_attempt_at := unix now\<rparr>))
      else ret ())))"

definition enqueue ::
  "string \<Rightarrow> string \<Rightarrow> string \<Rightarrow> string \<Rightarrow> bool \<Rightarrow> gotime \<Rightarrow> Job dbop" where
  "enqueue jid kind projectID input scheduled now =
     then_tx (transact (enqueue_body jid kind projectID input scheduled now)) (get_Job jid)"

definition EnqueueJob :: "string \<Rightarrow> string \<Rightarrow> string \<Rightarrow> string \<Rightarrow> gotime \<Rightarrow> Job dbop" where
  "EnqueueJob jid kind projectID input now = enqueue jid kind projectID input False now"

definition EnqueueBackupJob :: "string \<Rightarrow> string \<Rightarrow> string \<Rightarrow> bool \<Rightarrow> gotime \<Rightarrow> Job dbop" where
  "EnqueueBackupJob jid projectID input scheduled now =
     enqueue jid ''backup'' projectID input scheduled now"

definition SetJobTarget :: "string \<Rightarrow> string \<Rightarrow> string \<Rightarrow> unit dbop" where
  "SetJobTarget jid target key = exec (jobs_update (update_where (\<lambda>j. job_id j = jid)
     (\<lambda>j. j\<lparr>job_target_storage := target, job_target_key := key\<rparr>)))"

definition query_jobs :: "(job_row list \<Rightarrow> job_row list) \<Rightarrow> Job list dbop" where
  "query_jobs q = query (\<lambda>d. map scanJob (q (jobs d)))"

definition created_order :: "job_row \<Rightarrow> int \<times> string" where
  "created_order j = (job_created_at j, job_id j)"

definition ProjectJobs :: "string \<Rightarrow> nat \<Rightarrow> Job list dbop" where
  "ProjectJobs projectID limit = query_jobs (\<lambda>rows. take limit (rev (sort_key created_order
     (filter (\<lambda>j. job_project_id j = Some projectID) rows))))"

definition ActiveJobs :: "Job list dbop" where
  "ActiveJobs = query_jobs (\<lambda>rows. sort_key created_order (filter active_job rows))"

definition RecentJobs :: "nat \<Rightarrow> Job list dbop" where
  "RecentJobs limit = query_jobs (\<lambda>rows. take limit (rev (sort_key created_order rows)))"

definition start_job :: "string \<Rightarrow> gotime \<Rightarrow> db \<Rightarrow> nat \<times> db" where
  "start_job jid now d =
     (if maintenanceGuard d then
        (count_where (\<lambda>j. job_id j = jid) (jobs d),
         d\<lparr>jobs := update_where (\<lambda>j. job_id j = jid)
             (\<lambda>j. j\<lparr>job_state := ''running'', job_stage := ''starting'',
                    job_started_at := Some (unix now), job_stage_at := Some (unix now)\<rparr>) (jobs d)\<rparr>)
      else (0, d))"

definition ClaimJob :: "gotime \<Rightarrow> Job option dbop" where
  "ClaimJob now = transact_exit (
     bind_tx (query (\<lambda>d. first_by created_order (filter (\<lambda>j. job_state j = ''queued'') (jobs d))))
     (\<lambda>row. case row of
       None \<Rightarrow> ret (Inl None)
     | Some r \<Rightarrow>
         bind_tx (exec_affected (start_job (job_id r) now)) (\<lambda>n.
         if n = 0 then ret (Inl None)
         else ret (Inr (Some ((scanJob r)\<lparr>Job_State := ''running'', Job_Stage := ''starting'',
                                Job_StartedAt := unix now\<rparr>))))))"

definition SetJobStage :: "string \<Rightarrow> string \<Rightarrow> gotime \<Rightarrow> unit dbop" where
  "SetJobStage jid stage now = exec (jobs_update (update_where
     (\<lambda>j. job_id j = jid \<and> job_state j = ''running'')
     (\<lambda>j. j\<lparr>job_stage := stage, job_stage_at := Some (unix now)\<rparr>)))"

definition finish_row :: "string \<Rightarrow> string \<Rightarrow> string \<Rightarrow> string \<Rightarrow> string \<Rightarrow> gotime \<Rightarrow> db \<Rightarrow> db" where
  "finish_row jid state stage errorText result now = jobs_update (update_where (\<lambda>j. job_id j = jid)
     (\<lambda>j. j\<lparr>job_state := state, job_stage := stage, job_error := errorText, job_result := result,
            job_finished_at := Some (unix now)\<rparr>))"

definition FinishJob ::
  "string \<Rightarrow> string \<Rightarrow> string \<Rightarrow> string \<Rightarrow> string \<Rightarrow> gotime \<Rightarrow> unit dbop" where
  "FinishJob jid state stage errorText result now =
     exec (finish_row jid state stage errorText result now)"

section \<open>Outcomes and the schedule\<close>

definition recordOutcome :: "string \<Rightarrow> bool \<Rightarrow> gotime \<Rightarrow> duration \<Rightarrow> unit dbop" where
  "recordOutcome projectID succeeded now interval =
     (if succeeded then
        exec_insert (upsert_schedule
          \<lparr>sch_project_id = projectID, sch_last_attempt_at = unix now, sch_failures = 0,
           sch_next_attempt_at = 0\<rparr>
          (\<lambda>r. r\<lparr>sch_last_attempt_at := unix now, sch_failures := 0, sch_next_attempt_at := 0\<rparr>))
      else
        bind_tx (query (\<lambda>d. find (\<lambda>r. sch_project_id r = projectID) (backup_schedule d))) (\<lambda>row.
        let failures = (case row of None \<Rightarrow> 0 | Some r \<Rightarrow> sch_failures r) + 1;
            next = unix (now + backoff failures interval)
        in exec_insert (upsert_schedule
          \<lparr>sch_project_id = projectID, sch_last_attempt_at = unix now, sch_failures = failures,
           sch_next_attempt_at = next\<rparr>
          (\<lambda>r. r\<lparr>sch_last_attempt_at := unix now, sch_failures := failures,
                 sch_next_attempt_at := next\<rparr>))))"

definition interrupt_row :: "gotime \<Rightarrow> job_row \<Rightarrow> job_row" where
  "interrupt_row now j = j\<lparr>job_state := ''interrupted'',
     job_error := ''The application restarted before this job finished.'',
     job_finished_at := Some (unix now)\<rparr>"

definition interrupt_one :: "gotime \<Rightarrow> duration \<Rightarrow> Job \<Rightarrow> unit dbop" where
  "interrupt_one now interval j =
     then_tx (exec (jobs_update (update_where (\<lambda>r. job_id r = Job_ID j) (interrupt_row now))))
     (let outcome = (if Job_Kind j = ''delete'' then ''the deletion resumes automatically.''
                     else ''it was not completed.'')
      in then_tx (RecordAlertEvent ''job_interrupted'' (''job_interrupted:'' @ Job_ID j)
           (''A '' @ Job_Kind j @ '' was interrupted by an application restart'')
           (''Job '' @ Job_ID j @ '' stopped at stage '' @ Job_Stage j @ ''; '' @ outcome) now)
         (if Job_Kind j = ''backup'' \<and> Job_Scheduled j \<and> Job_ProjectID j \<noteq> '''' then
            recordOutcome (Job_ProjectID j) False now interval
          else ret ()))"

definition InterruptRunningJobs :: "gotime \<Rightarrow> duration \<Rightarrow> Job list dbop" where
  "InterruptRunningJobs now interval = transact (
     bind_tx (query_jobs (filter (\<lambda>j. job_state j = ''running''))) (\<lambda>running.
     then_tx (for_each (interrupt_one now interval) running)
     (ret running)))"

record Backup =
  Backup_ID :: string
  Backup_ProjectID :: string
  Backup_JobID :: string
  Backup_ObjectKey :: string
  Backup_Manifest :: string
  Backup_SizeBytes :: int
  Backup_CreatedAt :: int
  Backup_StorageTarget :: string

definition insert_backup :: "Backup \<Rightarrow> db \<Rightarrow> db option" where
  "insert_backup b d =
     (if list_ex (\<lambda>r. bak_id r = Backup_ID b \<or> bak_object_key r = Backup_ObjectKey b) (backups d) \<or>
         \<not> project_exists (Backup_ProjectID b) d
      then None
      else Some (d\<lparr>backups := backups d @ [\<lparr>bak_id = Backup_ID b,
             bak_project_id = Some (Backup_ProjectID b), bak_job_id = Backup_JobID b,
             bak_object_key = Backup_ObjectKey b, bak_manifest = Backup_Manifest b,
             bak_size_bytes = Backup_SizeBytes b, bak_created_at = Backup_CreatedAt b,
             bak_storage_target = Backup_StorageTarget b\<rparr>]\<rparr>))"

definition CompleteBackupJob ::
  "string \<Rightarrow> string \<Rightarrow> string \<Rightarrow> string \<Rightarrow> string \<Rightarrow> string \<Rightarrow> Backup option \<Rightarrow> bool \<Rightarrow> gotime \<Rightarrow>
   duration \<Rightarrow> unit dbop" where
  "CompleteBackupJob jid projectID state stage errorText result backup scheduled now interval =
     transact (
       then_tx (exec (finish_row jid state stage errorText result now))
       (then_tx (case backup of None \<Rightarrow> ret () | Some b \<Rightarrow> exec_insert (insert_backup b))
       (if projectID \<noteq> '''' then
          let succeeded = (state = ''succeeded'')
          in if succeeded \<or> scheduled then recordOutcome projectID succeeded now interval
             else ret ()
        else ret ())))"

definition RecordBackup :: "Backup \<Rightarrow> unit dbop" where
  "RecordBackup b = exec_insert (insert_backup b)"

definition scanBackup :: "backup_row \<Rightarrow> Backup" where
  "scanBackup r = \<lparr>Backup_ID = bak_id r, Backup_ProjectID = coalesce (bak_project_id r) '''',
     Backup_JobID = bak_job_id r, Backup_ObjectKey = bak_object_key r,
     Backup_Manifest = bak_manifest r, Backup_SizeBytes = bak_size_bytes r,
     Backup_CreatedAt = bak_created_at r, Backup_StorageTarget = bak_storage_target r\<rparr>"

definition ProjectBackups :: "string \<Rightarrow> nat \<Rightarrow> Backup list dbop" where
  "ProjectBackups projectID limit = query (\<lambda>d. map scanBackup (take limit
     (rev (sort_key bak_created_at
       (filter (\<lambda>b. bak_project_id b = Some projectID) (backups d))))))"

section \<open>What an enqueue does\<close>

definition schedule_attempt :: "string \<Rightarrow> gotime \<Rightarrow> schedule_row list \<Rightarrow> schedule_row list" where
  "schedule_attempt p now = upsert (\<lambda>r. sch_project_id r = p)
     \<lparr>sch_project_id = p, sch_last_attempt_at = unix now, sch_failures = 0, sch_next_attempt_at = 0\<rparr>
     (\<lambda>r. r\<lparr>sch_last_attempt_at := unix now\<rparr>)"

definition enqueued ::
  "string \<Rightarrow> string \<Rightarrow> string \<Rightarrow> string \<Rightarrow> bool \<Rightarrow> gotime \<Rightarrow> db \<Rightarrow> db" where
  "enqueued jid kind p input scheduled now d =
     d\<lparr>jobs := jobs d @ [queued_job jid kind (if p \<noteq> '''' then Some p else None) input
                           (if scheduled then 1 else 0) now],
       backup_schedule := (if kind = ''backup'' \<and> p \<noteq> '''' then
                             schedule_attempt p now (backup_schedule d) else backup_schedule d)\<rparr>"

definition enqueue_allowed :: "string \<Rightarrow> string \<Rightarrow> db \<Rightarrow> bool" where
  "enqueue_allowed jid p d \<longleftrightarrow> maintenanceGuard d \<and> (\<forall>j \<in> set (jobs d). \<not> active_job j) \<and>
     jid \<notin> job_id ` set (jobs d) \<and> (p \<noteq> '''' \<longrightarrow> project_exists p d)"

lemma insert_job_Some:
  "insert_job j d = Some d' \<longleftrightarrow>
     job_id j \<notin> job_id ` set (jobs d) \<and>
     (case job_project_id j of None \<Rightarrow> True | Some p \<Rightarrow> project_exists p d) \<and>
     d' = d\<lparr>jobs := jobs d @ [j]\<rparr>"
  by (auto simp: insert_job_def list_ex_key split: option.splits)

lemma upsert_schedule_Some:
  "upsert_schedule new upd d = Some d' \<longleftrightarrow>
     (list_ex (\<lambda>r. sch_project_id r = sch_project_id new) (backup_schedule d) \<or>
      project_exists (sch_project_id new) d) \<and>
     d' = d\<lparr>backup_schedule :=
            upsert (\<lambda>r. sch_project_id r = sch_project_id new) new upd (backup_schedule d)\<rparr>"
  by (auto simp: upsert_schedule_def Let_def)

lemma project_exists_cong [simp]:
  "project_exists p (jobs_update f d) = project_exists p d"
  "project_exists p (backup_schedule_update g d) = project_exists p d"
  by (simp_all add: project_exists_def)

lemma enqueue_body_Inr:
  assumes "enqueue_body jid kind p input scheduled now (d, fs) = (Inr u, (d', fs'))"
  shows "enqueue_allowed jid p d \<and> d' = enqueued jid kind p input scheduled now d"
proof (cases "kind = ''backup'' \<and> p \<noteq> ''''")
  case True
  with assms show ?thesis
    by (simp add: enqueue_body_def tx_simps Let_def insert_job_Some upsert_schedule_Some
        queued_job_def enqueued_def enqueue_allowed_def schedule_attempt_def count_where_zero)
next
  case False
  with assms show ?thesis
    by (cases "p = ''''")
      (auto simp: enqueue_body_def tx_simps Let_def insert_job_Some queued_job_def enqueued_def
        enqueue_allowed_def count_where_zero)
qed

lemma enqueue_body_healthy:
  assumes "enqueue_allowed jid p d"
  shows "enqueue_body jid kind p input scheduled now (d, []) =
           (Inr (), (enqueued jid kind p input scheduled now d, []))"
proof (cases "kind = ''backup'' \<and> p \<noteq> ''''")
  case True
  with assms show ?thesis
    by (auto simp: enqueue_body_def tx_simps Let_def insert_job_Some upsert_schedule_Some
        queued_job_def enqueued_def enqueue_allowed_def schedule_attempt_def count_where_zero)
next
  case False
  with assms show ?thesis
    by (cases "p = ''''")
      (auto simp: enqueue_body_def tx_simps Let_def insert_job_Some queued_job_def enqueued_def
        enqueue_allowed_def count_where_zero)
qed

lemma find_enqueued:
  "jid \<notin> job_id ` set (jobs d) \<Longrightarrow>
     find (\<lambda>r. job_id r = jid) (jobs (enqueued jid kind p input scheduled now d)) =
       Some (queued_job jid kind (if p \<noteq> '''' then Some p else None) input
              (if scheduled then 1 else 0) now)"
  by (auto simp: enqueued_def find_append queued_job_def find_None_iff image_iff
      split: option.splits dest: find_Some_iff_mem)

lemma get_Job_Inr:
  "get_Job jid s = (Inr j, s') \<longleftrightarrow>
     (\<exists>r. \<not> fails_now (snd s) \<and> find (\<lambda>r. job_id r = jid) (jobs (fst s)) = Some r \<and>
        j = scanJob r \<and> s' = (fst s, tl (snd s)))"
  by (auto simp: get_Job_def tx_simps split: option.splits)

lemma keeps_get_Job [tx_keeps]: "keeps I (get_Job jid)"
  unfolding get_Job_def by (intro tx_keeps)


section \<open>The order of the queue\<close>

definition is_queued :: "job_row \<Rightarrow> bool" where
  "is_queued j = (job_state j = ''queued'')"

definition queue :: "db \<Rightarrow> string list" where
  "queue d = map job_id (sort_key created_order (filter is_queued (jobs d)))"

definition jobs_keyed :: "db \<Rightarrow> bool" where
  "jobs_keyed d = distinct (map job_id (jobs d))"

definition run_row :: "gotime \<Rightarrow> job_row \<Rightarrow> job_row" where
  "run_row now j = j\<lparr>job_state := ''running'', job_stage := ''starting'',
     job_started_at := Some (unix now), job_stage_at := Some (unix now)\<rparr>"

definition claimed :: "string \<Rightarrow> gotime \<Rightarrow> db \<Rightarrow> db" where
  "claimed jid now d = d\<lparr>jobs := update_where (\<lambda>j. job_id j = jid) (run_row now) (jobs d)\<rparr>"

lemma queue_Nil: "queue d = [] \<longleftrightarrow> filter is_queued (jobs d) = []"
proof -
  have "length (queue d) = length (filter is_queued (jobs d))" by (simp add: queue_def)
  then show ?thesis by (metis length_0_conv)
qed

lemma queue_Cons:
  assumes "queue d = k # ks"
  obtains r where "first_by created_order (filter is_queued (jobs d)) = Some r" "job_id r = k"
    "r \<in> set (jobs d)" "is_queued r"
proof -
  obtain r rs where rs: "sort_key created_order (filter is_queued (jobs d)) = r # rs" "job_id r = k"
    using assms by (auto simp: queue_def)
  then have first: "first_by created_order (filter is_queued (jobs d)) = Some r"
    by (simp add: first_by_def)
  with first_by_Some [OF first] rs(2) that show ?thesis by auto
qed

lemma jobs_keyed_update:
  "(\<And>r. job_id (f r) = job_id r) \<Longrightarrow> jobs_keyed (d\<lparr>jobs := update_where P f (jobs d)\<rparr>) = jobs_keyed d"
  by (simp add: jobs_keyed_def map_update_where)

lemma filter_not_key:
  "filter is_queued (update_where (\<lambda>j. job_id j = k) (run_row now) rows) =
     filter (\<lambda>j. is_queued j \<and> job_id j \<noteq> k) rows"
  by (induction rows) (auto simp: update_where_def run_row_def is_queued_def)

lemma queue_claimed:
  assumes "jobs_keyed d" "queue d = k # ks"
  shows "queue (claimed k now d) = ks"
proof -
  define rows where "rows = sort_key created_order (filter is_queued (jobs d))"
  have dist: "distinct (map job_id rows)"
    using assms(1) by (simp add: rows_def jobs_keyed_def distinct_map_filter distinct_map inj_on_def)
  obtain r rs where rs: "rows = r # rs" "job_id r = k" "ks = map job_id rs"
    using assms(2) by (auto simp: queue_def rows_def)
  have "queue (claimed k now d) =
      map job_id (sort_key created_order (filter (\<lambda>j. job_id j \<noteq> k) (filter is_queued (jobs d))))"
    by (simp add: queue_def claimed_def filter_not_key conj_commute)
  also have "\<dots> = map job_id (filter (\<lambda>j. job_id j \<noteq> k) rows)"
    by (simp only: rows_def filter_sort)
  also have "filter (\<lambda>j. job_id j \<noteq> k) rows = rs"
    using dist rs by (auto simp: image_iff intro!: filter_True)
  finally show ?thesis using rs(3) by simp
qed

lemma start_job_eq:
  "start_job jid now d =
     (if maintenanceGuard d then (count_where (\<lambda>j. job_id j = jid) (jobs d), claimed jid now d)
      else (0, d))"
  by (simp add: start_job_def claimed_def run_row_def [abs_def])

lemma ClaimJob_Inr:
  assumes "ClaimJob now (d, fs) = (Inr r, (d', fs'))"
  shows "(case r of
      None \<Rightarrow> d' = d \<and> (queue d = [] \<or> \<not> maintenanceGuard d)
    | Some j \<Rightarrow> maintenanceGuard d \<and> queue d = Job_ID j # tl (queue d) \<and>
                d' = claimed (Job_ID j) now d)"
proof (cases "queue d")
  case Nil
  then have "filter is_queued (jobs d) = []" by (simp add: queue_Nil)
  with Nil assms show ?thesis
    by (auto simp: ClaimJob_def tx_simps is_queued_def [abs_def, symmetric])
next
  case (Cons k ks)
  obtain row where row: "first_by created_order (filter is_queued (jobs d)) = Some row"
    "job_id row = k" "row \<in> set (jobs d)" "is_queued row" using queue_Cons [OF Cons] .
  then have "count_where (\<lambda>j. job_id j = k) (jobs d) \<noteq> 0" by (auto simp: count_where_zero)
  with assms row Cons show ?thesis
    by (auto simp: ClaimJob_def tx_simps is_queued_def [abs_def, symmetric] start_job_eq scanJob_def
        split: if_splits)
qed

lemma ClaimJob_healthy:
  assumes "maintenanceGuard d"
  shows "case queue d of
      [] \<Rightarrow> ClaimJob now (d, []) = (Inr None, (d, []))
    | k # ks \<Rightarrow> \<exists>j. Job_ID j = k \<and> ClaimJob now (d, []) = (Inr (Some j), (claimed k now d, []))"
proof (cases "queue d")
  case Nil
  then have "filter is_queued (jobs d) = []" by (simp add: queue_Nil)
  with Nil show ?thesis
    by (auto simp: ClaimJob_def tx_simps is_queued_def [abs_def, symmetric])
next
  case (Cons k ks)
  obtain row where row: "first_by created_order (filter is_queued (jobs d)) = Some row"
    "job_id row = k" "row \<in> set (jobs d)" "is_queued row" using queue_Cons [OF Cons] .
  then have "count_where (\<lambda>j. job_id j = k) (jobs d) \<noteq> 0" by (auto simp: count_where_zero)
  with assms row Cons show ?thesis
    by (auto simp: ClaimJob_def tx_simps is_queued_def [abs_def, symmetric] start_job_eq scanJob_def)
qed

section \<open>Interface: a queue that is drained in order\<close>

text \<open>
  The worker's view of the queue: \<open>pending\<close> is what is queued, oldest first, and a claim takes the
  head. \<open>claims n\<close> is the worker claiming \<open>n\<close> times.
\<close>

locale claim_queue =
  fixes claim :: "'d \<Rightarrow> 'k option \<times> 'd"
    and pending :: "'d \<Rightarrow> 'k list"
    and inv :: "'d \<Rightarrow> bool"
  assumes claim_empty: "inv d \<Longrightarrow> pending d = [] \<Longrightarrow> claim d = (None, d)"
    and claim_head: "inv d \<Longrightarrow> pending d = k # ks \<Longrightarrow>
      fst (claim d) = Some k \<and> pending (snd (claim d)) = ks \<and> inv (snd (claim d))"
begin

primrec claims :: "nat \<Rightarrow> 'd \<Rightarrow> 'k option list" where
  "claims 0 d = []"
| "claims (Suc n) d = fst (claim d) # claims n (snd (claim d))"

lemma claims_empty: "inv d \<Longrightarrow> pending d = [] \<Longrightarrow> claims n d = replicate n None"
  by (induction n arbitrary: d) (simp_all add: claim_empty)

lemma claims_drain:
  "inv d \<Longrightarrow> claims (length (pending d) + n) d = map Some (pending d) @ replicate n None"
proof (induction "pending d" arbitrary: d)
  case Nil
  then show ?case using claims_empty [of d n] by (metis append_Nil list.simps(8) list.size(3) add_0)
next
  case (Cons k ks)
  from claim_head [OF Cons.prems Cons.hyps(2) [symmetric]]
  have c: "fst (claim d) = Some k" "pending (snd (claim d)) = ks" "inv (snd (claim d))" by auto
  then have "claims (length ks + n) (snd (claim d)) = map Some ks @ replicate n None"
    using Cons.hyps(1) [of "snd (claim d)"] by simp
  with c Cons.hyps(2) [symmetric] show ?case by simp
qed

end

text \<open>A claim with a driver that does not fail, and the worker's repeated claims.\<close>

definition claim_id :: "gotime \<Rightarrow> db \<Rightarrow> string option \<times> db" where
  "claim_id now d = (case ClaimJob now (d, []) of
     (Inr r, (d', _)) \<Rightarrow> (map_option Job_ID r, d') | (Inl _, (d', _)) \<Rightarrow> (None, d'))"

primrec claim_times :: "nat \<Rightarrow> gotime \<Rightarrow> db \<Rightarrow> string option list" where
  "claim_times 0 now d = []"
| "claim_times (Suc n) now d = (case claim_id now d of (k, d') \<Rightarrow> k # claim_times n now d')"

lemma claimed_guard [simp]: "maintenanceGuard (claimed k now d) = maintenanceGuard d"
  by (simp add: claimed_def maintenanceGuard_def)

lemma claimed_keyed [simp]: "jobs_keyed (claimed k now d) = jobs_keyed d"
  by (simp add: claimed_def jobs_keyed_update run_row_def)

interpretation job_queue: claim_queue "claim_id now" queue
  "\<lambda>d. jobs_keyed d \<and> maintenanceGuard d" for now
proof unfold_locales
  show "claim_id now d = (None, d)" if "jobs_keyed d \<and> maintenanceGuard d" "queue d = []" for d
    using that ClaimJob_healthy [of d now] by (simp add: claim_id_def)
  show "fst (claim_id now d) = Some k \<and> queue (snd (claim_id now d)) = ks \<and>
      jobs_keyed (snd (claim_id now d)) \<and> maintenanceGuard (snd (claim_id now d))"
    if "jobs_keyed d \<and> maintenanceGuard d" "queue d = k # ks" for d k ks
    using that ClaimJob_healthy [of d now] by (auto simp: claim_id_def queue_claimed)
qed

lemma claim_times_eq: "claim_times n now d = job_queue.claims now n d"
  by (induction n arbitrary: d) (simp_all split: prod.split)

section \<open>The effect of an outcome and of an interruption\<close>

definition schedule_failures :: "string \<Rightarrow> db \<Rightarrow> int" where
  "schedule_failures p d =
     (case find (\<lambda>r. sch_project_id r = p) (backup_schedule d) of None \<Rightarrow> 0 | Some r \<Rightarrow> sch_failures r)"

definition outcome_row :: "string \<Rightarrow> int \<Rightarrow> int \<Rightarrow> int \<Rightarrow> schedule_row" where
  "outcome_row p at failures next = \<lparr>sch_project_id = p, sch_last_attempt_at = at,
     sch_failures = failures, sch_next_attempt_at = next\<rparr>"

definition outcome_recorded :: "string \<Rightarrow> bool \<Rightarrow> gotime \<Rightarrow> duration \<Rightarrow> db \<Rightarrow> db" where
  "outcome_recorded p succeeded now interval d =
     (let failures = (if succeeded then 0 else schedule_failures p d + 1);
          next = (if succeeded then 0 else unix (now + backoff failures interval));
          row = outcome_row p (unix now) failures next
      in d\<lparr>backup_schedule :=
             upsert (\<lambda>r. sch_project_id r = p) row (\<lambda>_. row) (backup_schedule d)\<rparr>)"

lemma recordOutcome_Inr:
  assumes "recordOutcome p succeeded now interval s = (Inr u, s')"
  shows "fst s' = outcome_recorded p succeeded now interval (fst s)"
proof -
  have all: "upsert (\<lambda>r. sch_project_id r = p) (outcome_row p a b c)
       (\<lambda>r. r\<lparr>sch_last_attempt_at := a, sch_failures := b, sch_next_attempt_at := c\<rparr>) rows =
     upsert (\<lambda>r. sch_project_id r = p) (outcome_row p a b c) (\<lambda>_. outcome_row p a b c) rows"
    for a b c rows
    by (rule upsert_cong) (simp add: outcome_row_def)
  have key: "sch_project_id (outcome_row p a b c) = p" for a b c by (simp add: outcome_row_def)
  show ?thesis
    using assms
    by (cases succeeded)
      (auto simp: recordOutcome_def tx_simps upsert_schedule_Some outcome_recorded_def Let_def
        schedule_failures_def outcome_row_def [symmetric] all key)
qed

lemma find_outcome_recorded:
  "find (\<lambda>r. sch_project_id r = q) (backup_schedule (outcome_recorded p succeeded now interval d)) =
     (if q = p then
        Some (outcome_row p (unix now) (if succeeded then 0 else schedule_failures p d + 1)
          (if succeeded then 0 else unix (now + backoff (schedule_failures p d + 1) interval)))
      else find (\<lambda>r. sch_project_id r = q) (backup_schedule d))"
proof -
  have "find (\<lambda>r. sch_project_id r = q) (upsert (\<lambda>r. sch_project_id r = p) row (\<lambda>_. row) rows) =
      (if q = p then Some row else find (\<lambda>r. sch_project_id r = q) rows)"
    if "sch_project_id row = p" for row :: schedule_row and rows
    using that by (subst find_upsert [of _ sch_project_id p]) (auto split: option.splits)
  then show ?thesis by (simp add: outcome_recorded_def Let_def outcome_row_def)
qed

lemma failures_outcome_recorded:
  "schedule_failures q (outcome_recorded p succeeded now interval d) =
     (if q = p then (if succeeded then 0 else schedule_failures p d + 1) else schedule_failures q d)"
  by (simp add: schedule_failures_def [of q] find_outcome_recorded outcome_row_def)

lemma outcome_recorded_frame [simp]:
  "jobs (outcome_recorded p succeeded now interval d) = jobs d"
  "alert_events (outcome_recorded p succeeded now interval d) = alert_events d"
  "projects (outcome_recorded p succeeded now interval d) = projects d"
  "backups (outcome_recorded p succeeded now interval d) = backups d"
  by (simp_all add: outcome_recorded_def Let_def)

definition scheduled_backup_of :: "string \<Rightarrow> Job \<Rightarrow> bool" where
  "scheduled_backup_of p j \<longleftrightarrow>
     Job_Kind j = ''backup'' \<and> Job_Scheduled j \<and> Job_ProjectID j = p \<and> p \<noteq> ''''"

definition interrupted_one :: "gotime \<Rightarrow> duration \<Rightarrow> Job \<Rightarrow> db \<Rightarrow> db" where
  "interrupted_one now interval j d =
     (let outcome = (if Job_Kind j = ''delete'' then ''the deletion resumes automatically.''
                     else ''it was not completed.'');
          d1 = jobs_update (update_where (\<lambda>r. job_id r = Job_ID j) (interrupt_row now)) d;
          d2 = new_event ''job_interrupted'' (''job_interrupted:'' @ Job_ID j)
                 (''A '' @ Job_Kind j @ '' was interrupted by an application restart'')
                 (''Job '' @ Job_ID j @ '' stopped at stage '' @ Job_Stage j @ ''; '' @ outcome) now d1
      in if scheduled_backup_of (Job_ProjectID j) j
         then outcome_recorded (Job_ProjectID j) False now interval d2 else d2)"

lemma interrupt_one_Inr:
  assumes "interrupt_one now interval j (d, fs) = (Inr u, s')"
  shows "fst s' = interrupted_one now interval j d"
proof (cases "Job_Kind j = ''backup'' \<and> Job_Scheduled j \<and> Job_ProjectID j \<noteq> ''''")
  case True
  with assms show ?thesis
    by (auto simp: interrupt_one_def interrupted_one_def scheduled_backup_of_def tx_simps Let_def
        RecordAlertEvent_def dest!: recordOutcome_Inr)
next
  case False
  with assms show ?thesis
    by (auto simp: interrupt_one_def interrupted_one_def scheduled_backup_of_def tx_simps Let_def
        RecordAlertEvent_def)
qed

lemma interrupted_one_effects:
  "jobs (interrupted_one now interval j d) =
     update_where (\<lambda>r. job_id r = Job_ID j) (interrupt_row now) (jobs d)"
  "map evt_key (alert_events (interrupted_one now interval j d)) =
     map evt_key (alert_events d) @ [''job_interrupted:'' @ Job_ID j]"
  "schedule_failures p (interrupted_one now interval j d) =
     schedule_failures p d + (if scheduled_backup_of p j then 1 else 0)"
proof -
  have "schedule_failures p (new_event a b c e now (jobs_update x d)) = schedule_failures p d"
    for p a b c e x by (simp add: new_event_def schedule_failures_def)
  then show "schedule_failures p (interrupted_one now interval j d) =
      schedule_failures p d + (if scheduled_backup_of p j then 1 else 0)"
    by (auto simp: interrupted_one_def Let_def failures_outcome_recorded scheduled_backup_of_def)
qed (simp_all add: interrupted_one_def Let_def new_event_def)

lemma interrupt_row_id [simp]: "job_id (interrupt_row now r) = job_id r"
  by (simp add: interrupt_row_def)

lemma interrupted_jobs:
  "jobs (fold (interrupted_one now interval) js d) =
     update_where (\<lambda>r. job_id r \<in> Job_ID ` set js) (interrupt_row now) (jobs d)"
proof (induction js arbitrary: d)
  case Nil
  then show ?case by (simp add: update_where_none)
next
  case (Cons j js)
  show ?case
    by (simp add: Cons.IH interrupted_one_effects update_where_def) (auto simp: interrupt_row_def)
qed

lemma interrupted_events:
  "map evt_key (alert_events (fold (interrupted_one now interval) js d)) =
     map evt_key (alert_events d) @ map (\<lambda>j. ''job_interrupted:'' @ Job_ID j) js"
  by (induction js arbitrary: d) (simp_all add: interrupted_one_effects)

lemma interrupted_failures:
  "schedule_failures p (fold (interrupted_one now interval) js d) =
     schedule_failures p d + int (count_where (scheduled_backup_of p) js)"
  by (induction js arbitrary: d) (simp_all add: interrupted_one_effects)

lemma InterruptRunningJobs_Inr:
  assumes "returns (InterruptRunningJobs now interval) (d, fs) running d'"
  shows "running = map scanJob (filter (\<lambda>j. job_state j = ''running'') (jobs d)) \<and>
         d' = fold (interrupted_one now interval) running d"
proof -
  from assms obtain fs1 s1 u where
    run: "running = map scanJob (filter (\<lambda>j. job_state j = ''running'') (jobs d))" and
    loop: "for_each (interrupt_one now interval) running (d, fs1) = (Inr u, s1)" and "d' = fst s1"
    by (auto simp: InterruptRunningJobs_def returns_iff tx_simps query_jobs_def)
  with for_each_fold [OF interrupt_one_Inr loop] show ?thesis by simp
qed

lemma running_by_id:
  assumes "jobs_keyed d"
  shows "update_where (\<lambda>r. job_id r \<in> Job_ID ` set (map scanJob (filter P (jobs d)))) f (jobs d) =
         update_where P f (jobs d)"
proof -
  have "job_id r \<in> job_id ` {j \<in> set (jobs d). P j} \<longleftrightarrow> P r" if "r \<in> set (jobs d)" for r
    using assms that unfolding jobs_keyed_def distinct_map by (auto dest: inj_onD)
  moreover have "Job_ID ` set (map scanJob (filter P (jobs d))) = job_id ` {j \<in> set (jobs d). P j}"
    by (auto simp: scanJob_def image_image)
  ultimately show ?thesis by (simp add: update_where_def)
qed

lemma insert_backup_Some:
  assumes "insert_backup b d = Some d'"
  shows "jobs d' = jobs d" "backup_schedule d' = backup_schedule d"
    "Backup_ID b \<in> bak_id ` set (backups d')"
  using assms by (auto simp: insert_backup_def split: if_splits)

lemma CompleteBackupJob_Inr:
  assumes "returns (CompleteBackupJob jid p state stage e result backup scheduled now interval)
      (d, fs) u d'"
    and "p \<noteq> ''''"
  obtains d2 where "jobs d2 = jobs (finish_row jid state stage e result now d)"
    "backup_schedule d2 = backup_schedule d"
    "\<forall>b. backup = Some b \<longrightarrow> Backup_ID b \<in> bak_id ` set (backups d2)"
    "d' = (if state = ''succeeded'' \<or> scheduled
           then outcome_recorded p (state = ''succeeded'') now interval d2 else d2)"
proof -
  define d1 where "d1 = finish_row jid state stage e result now d"
  have d1: "backup_schedule d1 = backup_schedule d" by (simp add: d1_def finish_row_def)
  from assms obtain s2 v fs1 fs2 where
    hist: "(case backup of None \<Rightarrow> ret () | Some b \<Rightarrow> exec_insert (insert_backup b)) (d1, fs1) =
             (Inr v, s2)" and
    out: "(if state = ''succeeded'' \<or> scheduled
           then recordOutcome p (state = ''succeeded'') now interval else ret ()) s2 =
             (Inr u, (d', fs2))"
    by (auto simp: CompleteBackupJob_def returns_iff tx_simps Let_def d1_def)
  have "jobs (fst s2) = jobs d1" "backup_schedule (fst s2) = backup_schedule d1"
    "\<forall>b. backup = Some b \<longrightarrow> Backup_ID b \<in> bak_id ` set (backups (fst s2))"
    using hist by (auto simp: tx_simps split: option.splits dest: insert_backup_Some)
  moreover have "d' = (if state = ''succeeded'' \<or> scheduled
      then outcome_recorded p (state = ''succeeded'') now interval (fst s2) else fst s2)"
    using out by (cases "state = ''succeeded'' \<or> scheduled")
      (auto simp: tx_simps dest!: recordOutcome_Inr)
  ultimately show ?thesis using that [of "fst s2"] d1 by (simp add: d1_def)
qed

section \<open>Properties\<close>

text \<open>
  C13. Enqueueing is all or nothing: whatever statement the driver fails, and also when the new row
  cannot be read back, the database is either as it was, or no job was queued or running, no
  maintenance was under way, the project exists, and the one new queued row (with the attempt of a
  backup noted in the schedule) was added.
\<close>

theorem enqueue_all_or_nothing:
  "leaves (enqueue jid kind p input scheduled now) (d, fs) = d \<or>
   (enqueue_allowed jid p d \<and>
    leaves (enqueue jid kind p input scheduled now) (d, fs) =
      enqueued jid kind p input scheduled now d)"
proof -
  define t where "t = transact (enqueue_body jid kind p input scheduled now)"
  obtain r s' where t: "t (d, fs) = (r, s')" by (metis surj_pair)
  have "leaves (get_Job jid) s' = fst s'"
    by (rule reads_only) (rule keeps_get_Job)
  then have "leaves (enqueue jid kind p input scheduled now) (d, fs) = leaves t (d, fs)"
    using t unfolding enqueue_def t_def [symmetric] then_tx_def bind_tx_def leaves_def
    by (cases r) auto
  then show ?thesis
    using transact_leaves [of "enqueue_body jid kind p input scheduled now" "(d, fs)"]
    unfolding t_def by (auto dest: enqueue_body_Inr)
qed

text \<open>
  With a driver that does not fail, the answer of an enqueue is determined by the database:
  maintenance first, then a busy queue, then a taken id or an unknown project, and otherwise the
  queued job itself.
\<close>

theorem enqueue_outcome:
  "fst (enqueue jid kind p input scheduled now (d, [])) =
     (if \<not> maintenanceGuard d then Inl ErrMaintenance
      else if \<exists>j \<in> set (jobs d). active_job j then Inl ErrJobBusy
      else if jid \<in> job_id ` set (jobs d) \<or> (p \<noteq> '''' \<and> \<not> project_exists p d) then Inl EConstraint
      else Inr (scanJob (queued_job jid kind (if p \<noteq> '''' then Some p else None) input
                  (if scheduled then 1 else 0) now)))"
proof (cases "enqueue_allowed jid p d")
  case True
  then have "enqueue jid kind p input scheduled now (d, []) =
    (Inr (scanJob (queued_job jid kind (if p \<noteq> '''' then Some p else None) input
            (if scheduled then 1 else 0) now)), (enqueued jid kind p input scheduled now d, []))"
    using find_enqueued [of jid d] enqueue_body_healthy [OF True]
    by (simp add: enqueue_def tx_simps get_Job_Inr enqueue_allowed_def)
  with True show ?thesis by (auto simp: enqueue_allowed_def)
next
  case False
  then show ?thesis
    by (auto simp: enqueue_allowed_def enqueue_def enqueue_body_def transact_def then_tx_def
        bind_tx_def maintenance_def query_def stmt_def throw_def count_where_pos count_where_zero
        exec_insert_def insert_job_def queued_job_def list_ex_key fails_now_def Let_def)
qed

text \<open>
  The worker claims every queued job exactly once, oldest first (creation time, then id), and
  then finds the queue empty, however often it asks.
\<close>

theorem claim_in_order:
  assumes "distinct (map job_id (jobs d))" and "maintenanceGuard d"
  shows "claim_times (length (queue d) + n) now d = map Some (queue d) @ replicate n None"
  using assms unfolding claim_times_eq by (intro job_queue.claims_drain) (simp add: jobs_keyed_def)

definition two_jobs :: db where
  "two_jobs = empty_db\<lparr>jobs :=
     [queued_job ''b'' ''import'' None ''{}'' 0 (20 * second),
      queued_job ''a'' ''backup'' None ''{}'' 0 (10 * second)]\<rparr>"

theorem claim_in_order_witness:
  "claim_times 3 0 two_jobs = [Some ''a'', Some ''b'', None]"
proof -
  have q: "queue two_jobs = [''a'', ''b'']"
    by (simp add: queue_def two_jobs_def queued_job_def is_queued_def created_order_def unix_def)
  then show ?thesis
    using claim_in_order [of two_jobs 1 0]
    by (simp add: two_jobs_def queued_job_def maintenanceGuard_def empty_db_def numeral_3_eq_3)
qed

text \<open>
  The restart sweep: every running job, and only those, ends interrupted with its reason; each
  has exactly one alert event, queued in the same transaction; and a project's failure count grows
  by the scheduled backups of it that were interrupted, never by a manual one.
\<close>

theorem InterruptRunningJobs_effect:
  assumes "distinct (map job_id (jobs d))"
    and "returns (InterruptRunningJobs now interval) (d, fs) running d'"
  shows "jobs d' = update_where (\<lambda>j. job_state j = ''running'') (interrupt_row now) (jobs d) \<and>
    map evt_key (alert_events d') = map evt_key (alert_events d) @
      map (\<lambda>j. ''job_interrupted:'' @ job_id j) (filter (\<lambda>j. job_state j = ''running'') (jobs d)) \<and>
    schedule_failures p d' = schedule_failures p d + int (count_where
      (\<lambda>j. job_state j = ''running'' \<and> scheduled_backup_of p (scanJob j)) (jobs d))"
proof -
  have run: "running = map scanJob (filter (\<lambda>j. job_state j = ''running'') (jobs d))"
    and d': "d' = fold (interrupted_one now interval) running d"
    using InterruptRunningJobs_Inr [OF assms(2)] by auto
  have "jobs_keyed d" using assms(1) by (simp add: jobs_keyed_def)
  then have "jobs d' = update_where (\<lambda>j. job_state j = ''running'') (interrupt_row now) (jobs d)"
    unfolding d' interrupted_jobs run by (rule running_by_id)
  moreover have "map (\<lambda>j. ''job_interrupted:'' @ Job_ID j) running =
      map (\<lambda>j. ''job_interrupted:'' @ job_id j) (filter (\<lambda>j. job_state j = ''running'') (jobs d))"
    by (simp add: run scanJob_def)
  moreover have "count_where (scheduled_backup_of p) running = count_where
      (\<lambda>j. job_state j = ''running'' \<and> scheduled_backup_of p (scanJob j)) (jobs d)"
    by (simp add: run count_where_def filter_map o_def conj_commute)
  ultimately show ?thesis
    by (simp add: d' interrupted_events interrupted_failures)
qed

definition running_backup :: db where
  "running_backup = empty_db\<lparr>
     projects := [\<lparr>prj_id = ''p'', prj_name = ''p'', prj_db_name = ''p'', prj_role_name = ''p'',
       prj_idempotency_key = ''k'', prj_stage = ''ready'', prj_failed = 0, prj_stage_error = '''',
       prj_created_at = 0, prj_ready_at = Some 0, prj_frozen_at = None, prj_deleting_at = None\<rparr>],
     jobs := [run_row 0 (queued_job ''j'' ''backup'' (Some ''p'') ''{}'' 1 0)]\<rparr>"

theorem InterruptRunningJobs_effect_witness:
  "\<exists>running d'. returns (InterruptRunningJobs 0 hour) (running_backup, []) running d' \<and>
     schedule_failures ''p'' d' = 1 \<and> map evt_key (alert_events d') = [''job_interrupted:j''] \<and>
     map job_state (jobs d') = [''interrupted'']"
proof -
  have "succeeds (InterruptRunningJobs 0 hour) (running_backup, [])" by code_simp
  then obtain running d' where
    r: "returns (InterruptRunningJobs 0 hour) (running_backup, []) running d'"
    using succeeds_leaves by blast
  have d: "distinct (map job_id (jobs running_backup))" by (simp add: running_backup_def)
  have "schedule_failures ''p'' d' = 1" "map evt_key (alert_events d') = [''job_interrupted:j'']"
    "map job_state (jobs d') = [''interrupted'']"
    using InterruptRunningJobs_effect [OF d r, of "''p''"]
    by (simp_all add: running_backup_def schedule_failures_def empty_db_def run_row_def
        queued_job_def scheduled_backup_of_def scanJob_def coalesce_def update_where_def
        interrupt_row_def)
  with r have "returns (InterruptRunningJobs 0 hour) (running_backup, []) running d' \<and>
     schedule_failures ''p'' d' = 1 \<and> map evt_key (alert_events d') = [''job_interrupted:j''] \<and>
     map job_state (jobs d') = [''interrupted'']" by simp
  then show ?thesis by (intro exI)
qed

text \<open>
  Finishing a backup is one transaction. When it succeeds in full, the job row is final, the
  backup is in the history, a success clears the project's failures and lifts the delay, a failed
  scheduled backup counts one failure and waits the backoff, and a failed manual backup leaves the
  schedule untouched. When it reports an error, nothing has changed and the job is still running.
\<close>

theorem CompleteBackupJob_outcome:
  assumes "p \<noteq> ''''"
  shows "(fails (CompleteBackupJob jid p state stage e result backup scheduled now interval)
            (d, fs) er d' \<longrightarrow> d' = d) \<and>
    (returns (CompleteBackupJob jid p state stage e result backup scheduled now interval)
            (d, fs) u d' \<longrightarrow>
      jobs d' = jobs (finish_row jid state stage e result now d) \<and>
      (\<forall>b. backup = Some b \<longrightarrow> Backup_ID b \<in> bak_id ` set (backups d')) \<and>
      (let failures = (if state = ''succeeded'' then 0
                       else if scheduled then schedule_failures p d + 1
                       else schedule_failures p d)
       in schedule_failures p d' = failures \<and>
          (state = ''succeeded'' \<longrightarrow> find (\<lambda>r. sch_project_id r = p) (backup_schedule d') =
             Some (outcome_row p (unix now) 0 0)) \<and>
          (state \<noteq> ''succeeded'' \<and> scheduled \<longrightarrow>
             find (\<lambda>r. sch_project_id r = p) (backup_schedule d') =
             Some (outcome_row p (unix now) failures (unix (now + backoff failures interval)))) \<and>
          (state \<noteq> ''succeeded'' \<and> \<not> scheduled \<longrightarrow> backup_schedule d' = backup_schedule d)))"
  (is "?F \<and> (?R \<longrightarrow> ?P)")
proof
  show ?F using transaction.error_unchanged by (fastforce simp: CompleteBackupJob_def)
  show "?R \<longrightarrow> ?P"
  proof
    assume ?R
    then obtain d2 where d2: "jobs d2 = jobs (finish_row jid state stage e result now d)"
        "backup_schedule d2 = backup_schedule d"
        "\<forall>b. backup = Some b \<longrightarrow> Backup_ID b \<in> bak_id ` set (backups d2)"
      and d': "d' = (if state = ''succeeded'' \<or> scheduled
                     then outcome_recorded p (state = ''succeeded'') now interval d2 else d2)"
      using assms by (rule CompleteBackupJob_Inr)
    have "schedule_failures p d2 = schedule_failures p d" using d2(2) by (simp add: schedule_failures_def)
    with d2 d' show ?P
      by (auto simp: Let_def failures_outcome_recorded find_outcome_recorded)
  qed
qed

theorem CompleteBackupJob_outcome_witness:
  "\<exists>d'. returns (CompleteBackupJob ''j'' ''p'' ''failed'' ''upload'' ''no space'' ''{}'' None True
             (100 * second) hour) (running_backup, []) () d' \<and>
        schedule_failures ''p'' d' = 1 \<and>
        find (\<lambda>r. sch_project_id r = ''p'') (backup_schedule d') =
          Some (outcome_row ''p'' 100 1 1000)"
proof -
  have "succeeds (CompleteBackupJob ''j'' ''p'' ''failed'' ''upload'' ''no space'' ''{}'' None True
      (100 * second) hour) (running_backup, [])"
    by code_simp
  then obtain d' where r: "returns (CompleteBackupJob ''j'' ''p'' ''failed'' ''upload'' ''no space''
      ''{}'' None True (100 * second) hour) (running_backup, []) () d'"
    using succeeds_leaves by fastforce
  have z: "schedule_failures ''p'' running_backup = 0"
    by (simp add: schedule_failures_def running_backup_def empty_db_def)
  have p: "''p'' \<noteq> ''''" by simp
  have "schedule_failures ''p'' d' = 1 \<and> find (\<lambda>r. sch_project_id r = ''p'') (backup_schedule d') =
      Some (outcome_row ''p'' 100 1 1000)"
    using r CompleteBackupJob_outcome [OF p, of "''j''" "''failed''" "''upload''" "''no space''" "''{}''"
      None True "100 * second" hour running_backup "[]" EDriver d' "()"]
    by (simp add: z Let_def unix_def backoff_def)
  with r show ?thesis by (intro exI) (rule conjI)
qed

end
