(* ===== verification/Store_Access.thy ===== *)
theory Store_Access
  imports Store_Jobs
begin

text \<open>
  \<^verbatim>\<open>internal/store/access.go\<close>: the append-only audit log, the guardrails of a project's role
  under an optimistic revision check, and the rotation of a project's password.
\<close>

section \<open>The audit log\<close>

record AuditEntry =
  AuditEntry_ID :: int
  AuditEntry_At :: int
  AuditEntry_AdminID :: int
  AuditEntry_Action :: string
  AuditEntry_Target :: string
  AuditEntry_RequestID :: string
  AuditEntry_Detail :: string

definition audited :: "AuditEntry \<Rightarrow> db \<Rightarrow> db" where
  "audited entry d =
     d\<lparr>audit_log := audit_log d @ [\<lparr>aud_id = audit_seq d, aud_at = AuditEntry_At entry,
          aud_admin_id = (if AuditEntry_AdminID entry \<noteq> 0 then Some (AuditEntry_AdminID entry) else None),
          aud_action = AuditEntry_Action entry, aud_target = AuditEntry_Target entry,
          aud_request_id = AuditEntry_RequestID entry, aud_detail = AuditEntry_Detail entry\<rparr>],
       audit_seq := audit_seq d + 1\<rparr>"

definition audit :: "AuditEntry \<Rightarrow> unit dbop" where
  "audit entry = exec (audited entry)"

definition Audit :: "AuditEntry \<Rightarrow> unit dbop" where
  "Audit entry = audit entry"

definition AuditEntries :: "nat \<Rightarrow> AuditEntry list dbop" where
  "AuditEntries limit = query (\<lambda>d. map (\<lambda>r.
     \<lparr>AuditEntry_ID = aud_id r, AuditEntry_At = aud_at r,
      AuditEntry_AdminID = coalesce (aud_admin_id r) 0, AuditEntry_Action = aud_action r,
      AuditEntry_Target = aud_target r, AuditEntry_RequestID = aud_request_id r,
      AuditEntry_Detail = aud_detail r\<rparr>)
     (take limit (rev (sort_key aud_id (audit_log d)))))"

section \<open>Limits\<close>

record Limits =
  StatementTimeoutMS :: int
  IdleInTransactionMS :: int
  TempFileLimitKB :: int
  LockTimeoutMS :: int
  ConnectionLimit :: int

definition DefaultLimits :: Limits where
  "DefaultLimits = \<lparr>StatementTimeoutMS = 60000, IdleInTransactionMS = 300000,
     TempFileLimitKB = 1048576, LockTimeoutMS = 10000, ConnectionLimit = 25\<rparr>"

definition timeout :: "string \<Rightarrow> int \<Rightarrow> err option" where
  "timeout name v =
     (if v \<noteq> 0 \<and> (v < 1000 \<or> v > 86400000)
      then Some (EMsg (name @ '' must be off or between 1 second and 24 hours'')) else None)"

definition Validate_limits :: "Limits \<Rightarrow> err + unit" where
  "Validate_limits l =
     (case find (\<lambda>e. e \<noteq> None)
        [timeout ''statement timeout'' (StatementTimeoutMS l),
         timeout ''idle-in-transaction timeout'' (IdleInTransactionMS l),
         timeout ''lock timeout'' (LockTimeoutMS l)] of
        Some e \<Rightarrow> Inl (the e)
      | None \<Rightarrow>
          if TempFileLimitKB l \<noteq> -1 \<and> (TempFileLimitKB l < 1024 \<or> TempFileLimitKB l > 1073741824) then
            Inl (EMsg ''temporary file limit must be unlimited or between 1 MB and 1 TB'')
          else if ConnectionLimit l < 1 \<or> ConnectionLimit l > 100 then
            Inl (EMsg ''connection limit must be between 1 and 100'')
          else Inr ())"

record ProjectLimits =
  PL_Limits :: Limits
  PL_Revision :: int
  PL_AppliedRevision :: int
  PL_LastError :: string

definition row_limits :: "limits_row \<Rightarrow> Limits" where
  "row_limits r = \<lparr>StatementTimeoutMS = lim_statement_timeout_ms r,
     IdleInTransactionMS = lim_idle_in_transaction_ms r, TempFileLimitKB = lim_temp_file_limit_kb r,
     LockTimeoutMS = lim_lock_timeout_ms r, ConnectionLimit = lim_connection_limit r\<rparr>"

definition scanLimits :: "limits_row \<Rightarrow> ProjectLimits" where
  "scanLimits r = \<lparr>PL_Limits = row_limits r, PL_Revision = lim_revision r,
     PL_AppliedRevision = lim_applied_revision r, PL_LastError = lim_last_error r\<rparr>"

definition get_ProjectLimits :: "string \<Rightarrow> ProjectLimits dbop" where
  "get_ProjectLimits projectID =
     bind_tx (query (\<lambda>d. find (\<lambda>r. lim_project_id r = projectID) (project_limits d))) (\<lambda>row.
     case row of None \<Rightarrow> throw ErrProjectNotFound | Some r \<Rightarrow> ret (scanLimits r))"

definition new_limits :: "Limits \<Rightarrow> gotime \<Rightarrow> limits_row \<Rightarrow> limits_row" where
  "new_limits l now r = r\<lparr>lim_statement_timeout_ms := StatementTimeoutMS l,
     lim_idle_in_transaction_ms := IdleInTransactionMS l, lim_temp_file_limit_kb := TempFileLimitKB l,
     lim_lock_timeout_ms := LockTimeoutMS l, lim_connection_limit := ConnectionLimit l,
     lim_revision := lim_revision r + 1, lim_updated_at := unix now\<rparr>"

definition update_limits :: "string \<Rightarrow> Limits \<Rightarrow> int \<Rightarrow> gotime \<Rightarrow> db \<Rightarrow> nat \<times> db" where
  "update_limits projectID l seenRevision now d =
     (let P = (\<lambda>r. lim_project_id r = projectID \<and> lim_revision r = seenRevision)
      in (count_where P (project_limits d),
          d\<lparr>project_limits := update_where P (new_limits l now) (project_limits d)\<rparr>))"

definition SetProjectLimits :: "string \<Rightarrow> Limits \<Rightarrow> int \<Rightarrow> gotime \<Rightarrow> ProjectLimits dbop" where
  "SetProjectLimits projectID l seenRevision now =
     (case Validate_limits l of
        Inl e \<Rightarrow> throw e
      | Inr _ \<Rightarrow>
          bind_tx (exec_affected (update_limits projectID l seenRevision now)) (\<lambda>n.
          if n \<noteq> 1 then then_tx (get_ProjectLimits projectID) (throw ErrRevisionConflict)
          else get_ProjectLimits projectID))"

record RoleLimits =
  RL_ProjectID :: string
  RL_Role :: string
  RL_Database :: string
  RL_Limits :: ProjectLimits

text \<open>The join; rows with equal creation times come in the order of insertion.\<close>

definition ReadyProjectLimits :: "RoleLimits list dbop" where
  "ReadyProjectLimits = query (\<lambda>d. concat (map (\<lambda>p.
     map (\<lambda>r. \<lparr>RL_ProjectID = prj_id p, RL_Role = prj_role_name p, RL_Database = prj_db_name p,
               RL_Limits = scanLimits r\<rparr>)
       (filter (\<lambda>r. lim_project_id r = prj_id p) (project_limits d)))
     (sort_key prj_created_at (filter (\<lambda>p. prj_stage p = ''ready'') (projects d)))))"

definition MarkLimitsApplied :: "string \<Rightarrow> int \<Rightarrow> unit dbop" where
  "MarkLimitsApplied projectID revision = exec (project_limits_update (update_where
     (\<lambda>r. lim_project_id r = projectID \<and> lim_revision r = revision)
     (\<lambda>r. r\<lparr>lim_applied_revision := revision, lim_last_error := ''''\<rparr>)))"

definition LimitsFailed :: "string \<Rightarrow> string \<Rightarrow> unit dbop" where
  "LimitsFailed projectID reason = exec (project_limits_update (update_where
     (\<lambda>r. lim_project_id r = projectID) (\<lambda>r. r\<lparr>lim_last_error := reason\<rparr>)))"

section \<open>Password rotation\<close>

definition begin_rotation :: "string \<Rightarrow> string \<Rightarrow> string \<Rightarrow> db \<Rightarrow> nat \<times> db" where
  "begin_rotation projectID sealed requestID d =
     (let P = (\<lambda>r. sec_project_id r = projectID \<and>
                   list_ex (\<lambda>p. prj_id p = sec_project_id r \<and> prj_stage p = ''ready'') (projects d))
      in (count_where P (project_secrets d),
          d\<lparr>project_secrets := update_where P
              (\<lambda>r. r\<lparr>sec_pending_password_sealed := Some sealed, sec_pending_request_id := requestID\<rparr>)
              (project_secrets d)\<rparr>))"

definition BeginRotation :: "string \<Rightarrow> string \<Rightarrow> string \<Rightarrow> unit dbop" where
  "BeginRotation projectID sealed requestID =
     bind_tx (exec_affected (begin_rotation projectID sealed requestID)) (\<lambda>n.
     if n \<noteq> 1 then throw ErrProjectNotFound else ret ())"

definition PendingPassword :: "string \<Rightarrow> string dbop" where
  "PendingPassword projectID =
     bind_tx (query (\<lambda>d. find (\<lambda>r. sec_project_id r = projectID) (project_secrets d))) (\<lambda>row.
     case row of None \<Rightarrow> throw ErrProjectNotFound
     | Some r \<Rightarrow> ret (coalesce (sec_pending_password_sealed r) ''''))"

record PendingRotation =
  PR_ProjectID :: string
  PR_RequestID :: string
  PR_Sealed :: string

definition PendingRotations :: "PendingRotation list dbop" where
  "PendingRotations = query (\<lambda>d.
     map (\<lambda>r. \<lparr>PR_ProjectID = sec_project_id r, PR_RequestID = sec_pending_request_id r,
               PR_Sealed = coalesce (sec_pending_password_sealed r) ''''\<rparr>)
     (filter (\<lambda>r. sec_pending_password_sealed r \<noteq> None \<and>
        list_ex (\<lambda>p. prj_id p = sec_project_id r \<and> prj_stage p \<noteq> ''deleting'') (projects d))
       (project_secrets d)))"

definition swap_password :: "string \<Rightarrow> string \<Rightarrow> db \<Rightarrow> nat \<times> db" where
  "swap_password projectID sealed d =
     (let P = (\<lambda>r. sec_project_id r = projectID \<and> sec_pending_password_sealed r = Some sealed)
      in (count_where P (project_secrets d),
          d\<lparr>project_secrets := update_where P
              (\<lambda>r. r\<lparr>sec_sealed_password := sealed, sec_pending_password_sealed := None,
                     sec_pending_request_id := ''''\<rparr>) (project_secrets d)\<rparr>))"

definition CompleteRotation :: "string \<Rightarrow> string \<Rightarrow> AuditEntry \<Rightarrow> bool dbop" where
  "CompleteRotation projectID sealed entry = transact_exit (
     bind_tx (exec_affected (swap_password projectID sealed)) (\<lambda>n.
     if n = 0 then ret (Inl False) else
     then_tx (audit entry)
     (then_tx (RecordAlertEvent ''credential_rotated'' (''credential_rotated:'' @ projectID)
        ''A database password was changed''
        (''Project '' @ projectID @ ''; every session using the old password was closed.'')
        (from_unix (AuditEntry_At entry)))
     (ret (Inr True)))))"

section \<open>Interface: edits under a revision check\<close>

text \<open>
  The contract of an optimistic edit: it takes effect only when the editor saw the current revision,
  and then moves the revision on by one. \<open>wins\<close> is what happens when editors, each with the revision
  it saw and with whatever driver failures it meets, submit one after the other: the revisions seen
  by those whose edit was reported as done.
\<close>

locale revisioned =
  fixes edit :: "int \<Rightarrow> 'v \<Rightarrow> ('d, 'a) tx"
    and revision :: "'d \<Rightarrow> int option"
    and inv :: "'d \<Rightarrow> bool"
  assumes edit_returns: "inv d \<Longrightarrow> returns (edit seen v) (d, fs) x d' \<Longrightarrow>
      revision d = Some seen \<and> revision d' = Some (seen + 1) \<and> inv d'"
    and edit_fails: "inv d \<Longrightarrow> fails (edit seen v) (d, fs) e d' \<Longrightarrow>
      (d' = d \<or> (revision d = Some seen \<and> revision d' = Some (seen + 1))) \<and> inv d'"
begin

fun wins :: "(int \<times> 'v \<times> bool list) list \<Rightarrow> 'd \<Rightarrow> int list" where
  "wins [] d = []"
| "wins ((seen, v, fs) # es) d =
     (case edit seen v (d, fs) of
        (Inl e, (d', _)) \<Rightarrow> wins es d'
      | (Inr x, (d', _)) \<Rightarrow> seen # wins es d')"

lemma wins_increasing:
  "inv d \<Longrightarrow> (\<forall>w \<in> set (wins es d). \<exists>r. revision d = Some r \<and> r \<le> w) \<and> sorted_wrt (<) (wins es d)"
proof (induction es d rule: wins.induct)
  case (1 d)
  then show ?case by simp
next
  case (2 seen v fs es d)
  obtain r d' fs' where eq: "edit seen v (d, fs) = (r, (d', fs'))" by (metis surj_pair)
  show ?case
  proof (cases r)
    case (Inl e)
    then have f: "fails (edit seen v) (d, fs) e d'" using eq by (simp add: fails_def)
    then have d': "inv d'" "d' = d \<or> (revision d = Some seen \<and> revision d' = Some (seen + 1))"
      using edit_fails [OF 2(3)] by blast+
    then have "\<forall>w \<in> set (wins es d'). \<exists>r. revision d = Some r \<and> r \<le> w" "sorted_wrt (<) (wins es d')"
      using 2(1) [OF eq [symmetric] Inl refl] by force+
    then show ?thesis using eq Inl by simp
  next
    case (Inr x)
    then have "returns (edit seen v) (d, fs) x d'" using eq by (simp add: returns_def)
    then have d': "revision d = Some seen" "revision d' = Some (seen + 1)" "inv d'"
      using edit_returns [OF 2(3)] by blast+
    then have "\<forall>w \<in> set (wins es d'). seen + 1 \<le> w" "sorted_wrt (<) (wins es d')"
      using 2(2) [OF eq [symmetric] Inr refl] by force+
    then show ?thesis using eq Inr d'(1) by force
  qed
qed

lemma wins_distinct: "inv d \<Longrightarrow> distinct (wins es d)"
  using wins_increasing strict_sorted_iff by blast

lemma stale_edit_refused:
  assumes "inv d" "returns (edit seen v) (d, fs) x d1"
  shows "\<not> returns (edit seen w) (d1, fs') y d2"
  using edit_returns [OF assms] edit_returns [of d1 seen w fs' y d2] by auto

end

section \<open>The limits under concurrent editors\<close>

definition limits_revision :: "string \<Rightarrow> db \<Rightarrow> int option" where
  "limits_revision p d =
     map_option lim_revision (find (\<lambda>r. lim_project_id r = p) (project_limits d))"

definition limits_keyed :: "db \<Rightarrow> bool" where
  "limits_keyed d = distinct (map lim_project_id (project_limits d))"

definition edit_limits :: "string \<Rightarrow> int \<Rightarrow> Limits \<times> gotime \<Rightarrow> ProjectLimits dbop" where
  "edit_limits p seen v = SetProjectLimits p (fst v) seen (snd v)"

lemma new_limits_key [simp]: "lim_project_id (new_limits l now r) = lim_project_id r"
  by (simp add: new_limits_def)

lemma update_limits_facts:
  assumes "limits_keyed d"
  shows "fst (update_limits p l seen now d) = (if limits_revision p d = Some seen then 1 else 0)"
    and "limits_keyed (snd (update_limits p l seen now d))"
    and "limits_revision p (snd (update_limits p l seen now d)) =
      (if limits_revision p d = Some seen then Some (seen + 1) else limits_revision p d)"
    and "limits_revision p d \<noteq> Some seen \<Longrightarrow> snd (update_limits p l seen now d) = d"
proof -
  show n: "fst (update_limits p l seen now d) = (if limits_revision p d = Some seen then 1 else 0)"
    using count_where_key [of lim_project_id "project_limits d"] assms
    by (auto simp: update_limits_def limits_keyed_def limits_revision_def Let_def split: option.splits)
  show "limits_keyed (snd (update_limits p l seen now d))"
    using assms by (simp add: update_limits_def limits_keyed_def Let_def map_update_where)
  show "limits_revision p (snd (update_limits p l seen now d)) =
      (if limits_revision p d = Some seen then Some (seen + 1) else limits_revision p d)"
    by (cases "find (\<lambda>r. lim_project_id r = p) (project_limits d)")
      (auto simp: update_limits_def limits_revision_def Let_def find_update_key new_limits_def)
  show "snd (update_limits p l seen now d) = d" if "limits_revision p d \<noteq> Some seen"
    using n that by (auto simp: update_limits_def Let_def count_where_zero update_where_none)
qed

lemma get_ProjectLimits_Inr:
  "get_ProjectLimits p s = (Inr x, s') \<longleftrightarrow>
     (\<exists>r. \<not> fails_now (snd s) \<and> find (\<lambda>r. lim_project_id r = p) (project_limits (fst s)) = Some r \<and>
        x = scanLimits r \<and> s' = (fst s, tl (snd s)))"
  by (auto simp: get_ProjectLimits_def tx_simps)

lemma keeps_get_ProjectLimits [tx_keeps]: "keeps I (get_ProjectLimits p)"
  unfolding get_ProjectLimits_def by (intro tx_keeps)

lemma fails_reads: "(\<And>I. keeps I m) \<Longrightarrow> fails m s e d \<Longrightarrow> d = fst s"
  using reads_only [of m s] fails_leaves [of m s e d] by simp

lemma SetProjectLimits_returns:
  assumes "limits_keyed d" "returns (SetProjectLimits p l seen now) (d, fs) x d'"
  shows "Validate_limits l = Inr () \<and> limits_revision p d = Some seen \<and>
    d' = snd (update_limits p l seen now d) \<and> PL_Limits x = l \<and> PL_Revision x = seen + 1"
proof -
  have v: "Validate_limits l = Inr ()"
    using assms(2) by (cases "Validate_limits l") (auto simp: SetProjectLimits_def)
  with assms have r: "limits_revision p d = Some seen" and d': "d' = snd (update_limits p l seen now d)"
    and x: "\<exists>r. find (\<lambda>r. lim_project_id r = p) (project_limits d') = Some r \<and> x = scanLimits r"
    by (auto simp: SetProjectLimits_def returns_iff tx_simps get_ProjectLimits_Inr update_limits_facts
        split: if_splits)
  then have "PL_Limits x = l \<and> PL_Revision x = seen + 1"
    by (auto simp: update_limits_def Let_def find_update_key limits_revision_def new_limits_def
        scanLimits_def row_limits_def)
  with v r d' show ?thesis by simp
qed

lemma SetProjectLimits_fails:
  assumes "limits_keyed d" "fails (SetProjectLimits p l seen now) (d, fs) e d'"
  shows "d' = d \<or> (limits_revision p d = Some seen \<and> d' = snd (update_limits p l seen now d))"
proof (cases "Validate_limits l")
  case (Inl er)
  with assms show ?thesis by (simp add: SetProjectLimits_def)
next
  case (Inr u)
  with assms(2) show ?thesis
    using update_limits_facts [OF assms(1)]
    by (auto simp: SetProjectLimits_def fails_bind fails_then tx_simps get_ProjectLimits_Inr
        dest!: exec_affected_fails fails_reads [OF keeps_get_ProjectLimits] split: if_splits)
qed

interpretation limits_edit: revisioned "edit_limits p" "limits_revision p" limits_keyed for p
proof unfold_locales
  show "limits_revision p d = Some seen \<and> limits_revision p d' = Some (seen + 1) \<and> limits_keyed d'"
    if "limits_keyed d" "returns (edit_limits p seen v) (d, fs) x d'" for d seen v fs x d'
    using SetProjectLimits_returns [OF that(1) that(2) [unfolded edit_limits_def]]
      update_limits_facts [OF that(1)] by simp
  show "(d' = d \<or> limits_revision p d = Some seen \<and> limits_revision p d' = Some (seen + 1)) \<and>
      limits_keyed d'"
    if "limits_keyed d" "fails (edit_limits p seen v) (d, fs) e d'" for d seen v fs e d'
    using SetProjectLimits_fails [OF that(1) that(2) [unfolded edit_limits_def]] that(1)
      update_limits_facts [OF that(1)] by auto
qed


text \<open>Editors one after the other, each with the revision it saw; those whose edit was accepted.\<close>

fun accepted_limits :: "string \<Rightarrow> (int \<times> (Limits \<times> gotime) \<times> bool list) list \<Rightarrow> db \<Rightarrow> int list" where
  "accepted_limits p [] d = []"
| "accepted_limits p ((seen, v, fs) # es) d =
     (case SetProjectLimits p (fst v) seen (snd v) (d, fs) of
        (Inl e, (d', _)) \<Rightarrow> accepted_limits p es d'
      | (Inr x, (d', _)) \<Rightarrow> seen # accepted_limits p es d')"

lemma accepted_limits_eq: "accepted_limits p es d = limits_edit.wins p es d"
proof (induction es arbitrary: d)
  case (Cons e es)
  obtain seen v fs where e: "e = (seen, v, fs)" by (metis surj_pair)
  have "SetProjectLimits p (fst v) seen (snd v) = edit_limits p seen v" by (simp add: edit_limits_def)
  with Cons.IH show ?case unfolding e by (simp split: prod.splits sum.splits)
qed simp

interpretation rotation_finish: atomic_op "CompleteRotation p sealed entry" for p sealed entry
  by unfold_locales (simp add: CompleteRotation_def transact_exit_fails)

section \<open>Lemmas on rotation\<close>

definition stored_password :: "string \<Rightarrow> db \<Rightarrow> string option" where
  "stored_password p d =
     map_option sec_sealed_password (find (\<lambda>r. sec_project_id r = p) (project_secrets d))"

definition pending_password :: "string \<Rightarrow> db \<Rightarrow> string option" where
  "pending_password p d = Option.bind (find (\<lambda>r. sec_project_id r = p) (project_secrets d))
     sec_pending_password_sealed"

definition secrets_keyed :: "db \<Rightarrow> bool" where
  "secrets_keyed d = distinct (map sec_project_id (project_secrets d))"

lemma BeginRotation_returns:
  assumes "secrets_keyed d" "returns (BeginRotation p sealed req) (d, fs) u d'"
  shows "secrets_keyed d'" "pending_password p d' = Some sealed" "audit_log d' = audit_log d"
    "alert_events d' = alert_events d"
proof -
  define Q where "Q = (\<lambda>r :: secret_row. list_ex (\<lambda>q. prj_id q = sec_project_id r \<and> prj_stage q = ''ready'') (projects d))"
  have eff: "begin_rotation p sealed req d =
      (count_where (\<lambda>r. sec_project_id r = p \<and> Q r) (project_secrets d),
       d\<lparr>project_secrets := update_where (\<lambda>r. sec_project_id r = p \<and> Q r)
         (\<lambda>r. r\<lparr>sec_pending_password_sealed := Some sealed, sec_pending_request_id := req\<rparr>)
         (project_secrets d)\<rparr>)"
    unfolding begin_rotation_def Q_def Let_def ..
  from assms(2) have n: "count_where (\<lambda>r. sec_project_id r = p \<and> Q r) (project_secrets d) = 1"
    and d': "d' = snd (begin_rotation p sealed req d)"
    by (auto simp: BeginRotation_def returns_iff tx_simps eff)
  then obtain r where "find (\<lambda>r. sec_project_id r = p) (project_secrets d) = Some r" "Q r"
    using assms(1) unfolding secrets_keyed_def
    by (subst (asm) count_where_key) (auto split: option.splits if_splits)
  then show "pending_password p d' = Some sealed"
    by (simp add: d' eff pending_password_def find_update_key)
  show "secrets_keyed d'" "audit_log d' = audit_log d" "alert_events d' = alert_events d"
    using assms(1) by (simp_all add: d' eff secrets_keyed_def map_update_where)
qed

lemma swap_password_facts:
  assumes "secrets_keyed d"
  shows "fst (swap_password p sealed d) = (if pending_password p d = Some sealed then 1 else 0)"
    and "pending_password p d = Some sealed \<Longrightarrow>
      stored_password p (snd (swap_password p sealed d)) = Some sealed \<and>
      pending_password p (snd (swap_password p sealed d)) = None"
    and "secrets_keyed (snd (swap_password p sealed d))"
proof -
  show "fst (swap_password p sealed d) = (if pending_password p d = Some sealed then 1 else 0)"
    using count_where_key [of sec_project_id "project_secrets d" p] assms
    by (auto simp: swap_password_def secrets_keyed_def pending_password_def Let_def split: option.splits)
  show "secrets_keyed (snd (swap_password p sealed d))"
    using assms by (simp add: swap_password_def secrets_keyed_def Let_def map_update_where)
qed (auto simp: swap_password_def stored_password_def pending_password_def Let_def find_update_key
    bind_eq_Some_conv)

lemma CompleteRotation_returns:
  assumes "secrets_keyed d" "returns (CompleteRotation p sealed entry) (d, fs) b d'"
  shows "if pending_password p d = Some sealed
    then b \<and> stored_password p d' = Some sealed \<and> pending_password p d' = None \<and>
         secrets_keyed d' \<and> length (audit_log d') = Suc (length (audit_log d)) \<and>
         map evt_key (alert_events d') = map evt_key (alert_events d) @ [''credential_rotated:'' @ p]
    else \<not> b \<and> d' = d"
proof -
  have frame: "pending_password p (new_event a x y z t (audited entry d1)) = pending_password p d1"
    "stored_password p (new_event a x y z t (audited entry d1)) = stored_password p d1"
    "secrets_keyed (new_event a x y z t (audited entry d1)) = secrets_keyed d1"
    for a x y z t and d1 :: db
    by (simp_all add: new_event_def audited_def pending_password_def stored_password_def secrets_keyed_def)
  have "audit_log (snd (swap_password p sealed d)) = audit_log d"
    "alert_events (snd (swap_password p sealed d)) = alert_events d"
    by (simp_all add: swap_password_def Let_def)
  then show ?thesis
    using assms(2) swap_password_facts [OF assms(1), of p sealed]
    by (auto simp: CompleteRotation_def returns_iff tx_simps audit_def RecordAlertEvent_def frame
        split: if_splits) (auto simp: new_event_def audited_def)
qed

section \<open>Properties\<close>

text \<open>
  C23. No lost update of limits: of any number of editors that submit one after the other, with any
  driver failures, no two that saw the same revision are both told that their edit was stored.
\<close>

theorem limits_no_lost_update:
  assumes "distinct (map lim_project_id (project_limits d))"
  shows "sorted_wrt (<) (accepted_limits p es d)"
  using assms limits_edit.wins_increasing [of d p es]
  by (simp add: accepted_limits_eq limits_keyed_def)

definition limited :: db where
  "limited = empty_db\<lparr>project_limits := [\<lparr>lim_project_id = ''p'', lim_statement_timeout_ms = 60000,
     lim_idle_in_transaction_ms = 300000, lim_temp_file_limit_kb = 1048576,
     lim_lock_timeout_ms = 10000, lim_connection_limit = 25, lim_revision = 1,
     lim_applied_revision = 0, lim_last_error = '''', lim_updated_at = 0\<rparr>]\<rparr>"

theorem limits_no_lost_update_witness:
  "let es = [(1, (DefaultLimits, 0), []), (1, (DefaultLimits, 5), []), (2, (DefaultLimits, 7), [])]
   in accepted_limits ''p'' es limited = [1, 2] \<and> sorted_wrt (<) (accepted_limits ''p'' es limited)"
proof -
  have "accepted_limits ''p'' [(1, (DefaultLimits, 0), []), (1, (DefaultLimits, 5), []),
      (2, (DefaultLimits, 7), [])] limited = [1, 2]"
    by code_simp
  moreover have "distinct (map lim_project_id (project_limits limited))" by (simp add: limited_def)
  ultimately show ?thesis using limits_no_lost_update [of limited] by (simp add: Let_def)
qed

definition limits_valid :: "db \<Rightarrow> bool" where
  "limits_valid d \<longleftrightarrow> list_all (\<lambda>r. Validate_limits (row_limits r) = Inr ()) (project_limits d)"

text \<open>
  Only limits inside the accepted ranges are ever stored: whatever is submitted and whatever
  fails, an edit keeps every row of the limits table valid.
\<close>

theorem limits_stay_valid:
  "keeps limits_valid (SetProjectLimits p l seen now)"
proof (cases "Validate_limits l")
  case (Inl e)
  then show ?thesis by (simp add: SetProjectLimits_def keeps_throw)
next
  case (Inr u)
  have "row_limits (new_limits l now r) = l" for r by (simp add: row_limits_def new_limits_def)
  with Inr show ?thesis
    unfolding SetProjectLimits_def
    by (auto simp: update_limits_def Let_def limits_valid_def list_all_iff in_update_where intro!: tx_keeps)
qed

text \<open>
  A password rotation is finished exactly once: after it was begun, a finisher that reports
  success (after any number of failed attempts) has made the pending password the active one with
  one audit row and one alert, and a second finisher of the same rotation reports that there was
  nothing left to do and changes nothing.
\<close>

theorem rotation_exactly_once:
  assumes "distinct (map sec_project_id (project_secrets d))"
    and "returns (BeginRotation p sealed req) (d, fs) u d1"
    and "returns (tries n (CompleteRotation p sealed entry)) (d1, fs1) b d2"
    and "returns (tries m (CompleteRotation p sealed entry')) (d2, fs2) b' d3"
  shows "b \<and> \<not> b' \<and> d3 = d2 \<and> stored_password p d2 = Some sealed \<and> pending_password p d2 = None \<and>
    length (audit_log d2) = Suc (length (audit_log d)) \<and>
    map evt_key (alert_events d2) = map evt_key (alert_events d) @ [''credential_rotated:'' @ p]"
proof -
  have k: "secrets_keyed d" using assms(1) by (simp add: secrets_keyed_def)
  note d1 = BeginRotation_returns [OF k assms(2)]
  obtain fs1' where "returns (CompleteRotation p sealed entry) (d1, fs1') b d2"
    using rotation_finish.tries_success [OF assms(3)] by blast
  note d2 = CompleteRotation_returns [OF d1(1) this]
  obtain fs2' where "returns (CompleteRotation p sealed entry') (d2, fs2') b' d3"
    using rotation_finish.tries_success [OF assms(4)] by blast
  note d3 = CompleteRotation_returns [OF _ this]
  show ?thesis using d1 d2 d3 by simp
qed

definition rotating :: db where
  "rotating = running_backup\<lparr>project_secrets := [\<lparr>sec_project_id = ''p'',
     sec_sealed_password = ''old'', sec_pending_password_sealed = None, sec_pending_request_id = ''''\<rparr>]\<rparr>"

definition rotation_entry :: AuditEntry where
  "rotation_entry = \<lparr>AuditEntry_ID = 0, AuditEntry_At = 5, AuditEntry_AdminID = 1,
     AuditEntry_Action = ''rotate'', AuditEntry_Target = ''p'', AuditEntry_RequestID = ''r'',
     AuditEntry_Detail = ''''\<rparr>"

theorem rotation_exactly_once_witness:
  "let d1 = leaves (BeginRotation ''p'' ''new'' ''r'') (rotating, []);
       d2 = leaves (tries 1 (CompleteRotation ''p'' ''new'' rotation_entry)) (d1, [False, True])
   in stored_password ''p'' rotating = Some ''old'' \<and> stored_password ''p'' d2 = Some ''new'' \<and>
      pending_password ''p'' d2 = None \<and> length (audit_log d2) = 1"
proof -
  define d1 where "d1 = leaves (BeginRotation ''p'' ''new'' ''r'') (rotating, [])"
  define d2 where
    "d2 = leaves (tries 1 (CompleteRotation ''p'' ''new'' rotation_entry)) (d1, [False, True])"
  define d3 where "d3 = leaves (tries 0 (CompleteRotation ''p'' ''new'' rotation_entry)) (d2, [])"
  have "succeeds (BeginRotation ''p'' ''new'' ''r'') (rotating, [])" by code_simp
  note a = succeeds_leaves [OF this, folded d1_def]
  have "succeeds (tries 1 (CompleteRotation ''p'' ''new'' rotation_entry)) (d1, [False, True])"
    unfolding d1_def by code_simp
  note b = succeeds_leaves [OF this, folded d2_def]
  have "succeeds (tries 0 (CompleteRotation ''p'' ''new'' rotation_entry)) (d2, [])"
    unfolding d2_def d1_def by code_simp
  note c = succeeds_leaves [OF this, folded d3_def]
  have "distinct (map sec_project_id (project_secrets rotating))" by (simp add: rotating_def)
  from rotation_exactly_once [OF this a b c]
  have "stored_password ''p'' d2 = Some ''new''" "pending_password ''p'' d2 = None"
    "length (audit_log d2) = Suc (length (audit_log rotating))" by simp_all
  then show ?thesis
    unfolding Let_def d1_def [symmetric] d2_def [symmetric]
    by (simp add: stored_password_def rotating_def running_backup_def empty_db_def)
qed

end
