(* ===== verification/Calendar.thy ===== *)
theory Calendar
  imports Pgfy_Prelude
begin

text \<open>
  What the program uses of Go's \<^verbatim>\<open>time\<close> package in UTC: the proleptic Gregorian date of a day
  number, \<^verbatim>\<open>Format\<close> and \<^verbatim>\<open>Parse\<close> with the layouts \<^verbatim>\<open>20060102T150405Z\<close>,
  \<^verbatim>\<open>2006-01-02\<close> and RFC 3339, and \<^verbatim>\<open>ISOWeek\<close>. Day 0 is 1 January 1970.
\<close>

section \<open>Dates\<close>

text \<open>
  Days are counted in years that begin on 1 March, so that the leap day is the last; \<open>a\<close> counts the
  400-year eras, \<open>c\<close>, \<open>q\<close> and \<open>y\<close> the centuries, four-year groups and years in them.
\<close>

definition year_parts :: "int \<Rightarrow> int \<times> int \<times> int \<times> int \<times> int" where
  "year_parts z =
     (let a = z div 146097; r = z mod 146097;
          c = min 3 (r div 36524); r2 = r - c * 36524;
          q = r2 div 1461; r3 = r2 mod 1461;
          y = min 3 (r3 div 365)
      in (a, c, q, y, r3 - y * 365))"

definition civil_of_days :: "int \<Rightarrow> int \<times> int \<times> int" where
  "civil_of_days days =
     (case year_parts (days + 719468) of (a, c, q, y, doy) \<Rightarrow>
        let mp = (5 * doy + 2) div 153;
            d = doy - (153 * mp + 2) div 5 + 1;
            m = (if mp < 10 then mp + 3 else mp - 9);
            yr = 400 * a + 100 * c + 4 * q + y
        in (if m \<le> 2 then yr + 1 else yr, m, d))"

definition days_of_civil :: "int \<Rightarrow> int \<Rightarrow> int \<Rightarrow> int" where
  "days_of_civil year m d =
     (let yr = (if m \<le> 2 then year - 1 else year);
          a = yr div 400; c = yr mod 400 div 100; q = yr mod 100 div 4; y = yr mod 4;
          mp = (if m > 2 then m - 3 else m + 9);
          doy = (153 * mp + 2) div 5 + d - 1
      in 146097 * a + 36524 * c + 1461 * q + 365 * y + doy - 719468)"

definition days_in_month :: "int \<Rightarrow> int \<Rightarrow> int" where
  "days_in_month year m =
     (if m = 2 then (if year mod 4 = 0 \<and> (year mod 100 \<noteq> 0 \<or> year mod 400 = 0) then 29 else 28)
      else if m \<in> {4, 6, 9, 11} then 30 else 31)"

lemma year_parts_bounds:
  assumes "year_parts z = (a, c, q, y, doy)"
  shows "z = 146097 * a + 36524 * c + 1461 * q + 365 * y + doy"
    "0 \<le> c" "c \<le> 3" "0 \<le> q" "q \<le> 24" "0 \<le> y" "y \<le> 3" "0 \<le> doy" "doy \<le> 365"
proof -
  define r where "r = z mod 146097"
  define r2 where "r2 = r - c * 36524"
  define r3 where "r3 = r2 mod 1461"
  have a: "a = z div 146097" and c: "c = min 3 (r div 36524)" and q: "q = r2 div 1461"
    and y: "y = min 3 (r3 div 365)" and doy: "doy = r3 - y * 365"
    using assms unfolding year_parts_def Let_def prod.inject r3_def r2_def r_def by blast+
  have r: "0 \<le> r" "r < 146097" and z: "z = 146097 * a + r" by (simp_all add: r_def a)
  have r2: "0 \<le> r2" "r2 \<le> 36524" "0 \<le> c" "c \<le> 3"
    using r unfolding r2_def c by (auto simp: min_def)
  have r3: "0 \<le> r3" "r3 < 1461" and r2q: "r2 = 1461 * q + r3" by (simp_all add: r3_def q)
  have y': "0 \<le> doy" "doy \<le> 365" "0 \<le> y" "y \<le> 3"
    using r3 unfolding doy y by (auto simp: min_def)
  have "0 \<le> q" "q \<le> 24" using r2 r2q r3 unfolding q by linarith+
  then show "z = 146097 * a + 36524 * c + 1461 * q + 365 * y + doy"
    "0 \<le> c" "c \<le> 3" "0 \<le> q" "q \<le> 24" "0 \<le> y" "y \<le> 3" "0 \<le> doy" "doy \<le> 365"
    using r2 y' z r2q r2_def doy by simp_all
qed

lemma days_of_civil_of_days:
  assumes "civil_of_days n = (year, m, d)"
  shows "days_of_civil year m d = n" "1 \<le> m" "m \<le> 12" "1 \<le> d" "d \<le> 31"
proof -
  obtain a c q y doy where parts: "year_parts (n + 719468) = (a, c, q, y, doy)"
    by (metis surj_pair)
  note b = year_parts_bounds [OF parts]
  define mp where "mp = (5 * doy + 2) div 153"
  define yr where "yr = 400 * a + 100 * c + 4 * q + y"
  have mp: "0 \<le> mp" "mp \<le> 11" using b unfolding mp_def by linarith+
  have m: "m = (if mp < 10 then mp + 3 else mp - 9)" and d: "d = doy - (153 * mp + 2) div 5 + 1"
    and year: "year = (if m \<le> 2 then yr + 1 else yr)"
    using assms by (auto simp: civil_of_days_def parts Let_def mp_def yr_def)
  show "1 \<le> m" "m \<le> 12" using mp m by auto
  have "153 * mp \<le> 5 * doy + 2" "5 * doy + 2 < 153 * mp + 153" unfolding mp_def by linarith+
  then show "1 \<le> d" "d \<le> 31" unfolding d by linarith+
  have yr': "(if m \<le> 2 then year - 1 else year) = yr" using year by auto
  have mp': "(if m > 2 then m - 3 else m + 9) = mp" using m mp by auto
  have y1: "yr div 400 = a"
    by (rule int_div_pos_eq [of _ _ _ "100 * c + 4 * q + y"]) (use b in \<open>simp_all add: yr_def\<close>)
  have y2: "yr mod 400 = 100 * c + 4 * q + y"
    by (rule int_mod_pos_eq [of _ _ a]) (use b in \<open>simp_all add: yr_def\<close>)
  have y3: "(100 * c + 4 * q + y) div 100 = c"
    by (rule int_div_pos_eq [of _ _ _ "4 * q + y"]) (use b in simp_all)
  have y4: "yr mod 100 = 4 * q + y"
    by (rule int_mod_pos_eq [of _ _ "4 * a + c"]) (use b in \<open>simp_all add: yr_def\<close>)
  have y5: "(4 * q + y) div 4 = q"
    by (rule int_div_pos_eq [of _ _ _ y]) (use b in simp_all)
  have y6: "yr mod 4 = y"
    by (rule int_mod_pos_eq [of _ _ "100 * a + 25 * c + q"]) (use b in \<open>simp_all add: yr_def\<close>)
  show "days_of_civil year m d = n"
    unfolding days_of_civil_def yr' mp' Let_def y1 y2 y3 y4 y5 y6 using b(1) unfolding d by simp
qed

text \<open>The day 365 of a year that begins in March is a 29 February, so the year it ends in is leap.\<close>

lemma leap_day_parts:
  assumes "year_parts z = (a, c, q, y, doy)" "doy = 365"
  shows "y = 3 \<and> (q < 24 \<or> c = 3 \<and> q = 24)"
proof -
  define r where "r = z mod 146097"
  define r2 where "r2 = r - c * 36524"
  define r3 where "r3 = r2 mod 1461"
  have c: "c = min 3 (r div 36524)" and q: "q = r2 div 1461"
    and y: "y = min 3 (r3 div 365)" and doy: "doy = r3 - y * 365"
    using assms unfolding year_parts_def Let_def prod.inject r3_def r2_def r_def by blast+
  note b = year_parts_bounds [OF assms(1)]
  have r: "0 \<le> r" "r < 146097" by (simp_all add: r_def)
  have r2q: "r2 = 1461 * q + r3" by (simp add: r3_def q)
  have y3: "y = 3"
  proof (rule ccontr)
    assume "y \<noteq> 3"
    with y have "y = r3 div 365" by (simp add: min_def split: if_splits)
    then have "r3 - y * 365 < 365" by linarith
    with doy assms(2) show False by simp
  qed
  have "c = 3" if "q = 24"
  proof (rule ccontr)
    assume "c \<noteq> 3"
    with c have "c = r div 36524" by (simp add: min_def split: if_splits)
    then have "r2 < 36524" unfolding r2_def by linarith
    with r2q that doy y3 assms(2) show False by simp
  qed
  with y3 b show ?thesis by auto
qed

lemma civil_day_in_month:
  assumes "civil_of_days n = (year, m, d)"
  shows "d \<le> days_in_month year m"
proof -
  obtain a c q y doy where parts: "year_parts (n + 719468) = (a, c, q, y, doy)"
    by (metis surj_pair)
  note b = year_parts_bounds [OF parts]
  define mp where "mp = (5 * doy + 2) div 153"
  define yr where "yr = 400 * a + 100 * c + 4 * q + y"
  have m: "m = (if mp < 10 then mp + 3 else mp - 9)" and d: "d = doy - (153 * mp + 2) div 5 + 1"
    and year: "year = (if m \<le> 2 then yr + 1 else yr)"
    using assms by (auto simp: civil_of_days_def parts Let_def mp_def yr_def)
  have mp: "153 * mp \<le> 5 * doy + 2" "5 * doy + 2 < 153 * mp + 153" unfolding mp_def by linarith+
  then have range: "0 \<le> mp" "mp \<le> 11" using b by linarith+
  consider "mp \<in> {0, 2, 4, 5, 7, 9, 10}" | "mp \<in> {1, 3, 6, 8}" | "mp = 11"
  proof -
    have "mp \<in> {0, 2, 4, 5, 7, 9, 10} \<or> mp \<in> {1, 3, 6, 8} \<or> mp = 11"
      using range unfolding insert_iff empty_iff by presburger
    then show ?thesis using that by blast
  qed
  then show ?thesis
  proof cases
    case 1
    then have "m \<notin> {2, 4, 6, 9, 11}" unfolding m by auto
    then show ?thesis using days_of_civil_of_days(5) [OF assms] by (simp add: days_in_month_def)
  next
    case 2
    then have cases: "mp = 1 \<or> mp = 3 \<or> mp = 6 \<or> mp = 8" by simp
    then have "d \<le> 30" using mp unfolding d by (elim disjE) simp_all
    moreover from cases have "m \<noteq> 2" "days_in_month year m = 30"
      unfolding m days_in_month_def by (elim disjE; simp)+
    ultimately show ?thesis by simp
  next
    case 3
    have "year mod 4 = 0 \<and> (year mod 100 \<noteq> 0 \<or> year mod 400 = 0)" if "doy = 365"
    proof -
      note leap_day_parts [OF parts that]
      then have y: "y = 3" and q: "q < 24 \<or> c = 3 \<and> q = 24" by simp_all
      have year': "year = 400 * a + 100 * c + 4 * (q + 1)" using 3 y year m by (simp add: yr_def)
      from q show ?thesis
      proof
        assume q24: "q < 24"
        have "year mod 100 = 4 * (q + 1)"
          by (rule int_mod_pos_eq [of _ _ "4 * a + c"]) (use b(4) q24 in \<open>simp_all add: year'\<close>)
        moreover have "year mod 4 = 0" unfolding year' by presburger
        moreover have "4 * (q + 1) \<noteq> 0" using b(4) by simp
        ultimately show ?thesis by simp
      next
        assume "c = 3 \<and> q = 24"
        then have "year = 400 * (a + 1)" and "year = 4 * (100 * (a + 1))" using year' by simp_all
        then have "year mod 400 = 0" and "year mod 4 = 0" by (metis mod_mult_self1_is_0)+
        then show ?thesis by simp
      qed
    qed
    moreover have "d = doy - 336" "m = 2" using 3 unfolding d m by simp_all
    ultimately show ?thesis using b(9) by (cases "doy = 365") (simp_all add: days_in_month_def)
  qed
qed


section \<open>Decimal numbers\<close>

definition digit_char :: "nat \<Rightarrow> char" where
  "digit_char n = char_of (48 + n)"

definition is_digit :: "char \<Rightarrow> bool" where
  "is_digit c = (let n = (of_char c :: nat) in 48 \<le> n \<and> n \<le> 57)"

fun fixed_digits :: "nat \<Rightarrow> nat \<Rightarrow> string" where
  "fixed_digits 0 n = []"
| "fixed_digits (Suc w) n = fixed_digits w (n div 10) @ [digit_char (n mod 10)]"

fun dec :: "nat \<Rightarrow> string" where
  "dec n = (if n < 10 then [digit_char n] else dec (n div 10) @ [digit_char (n mod 10)])"

declare dec.simps [simp del]

text \<open>A number padded with zeros to a width, as \<^verbatim>\<open>Format\<close> and \<^verbatim>\<open>%0*d\<close> print it; wider numbers keep all digits.\<close>

definition padded :: "nat \<Rightarrow> int \<Rightarrow> string" where
  "padded w n =
     (if n < 0 then CHR ''-'' # (if nat (- n) < 10 ^ w then fixed_digits w (nat (- n)) else dec (nat (- n)))
      else if nat n < 10 ^ w then fixed_digits w (nat n) else dec (nat n))"

definition decimal :: "int \<Rightarrow> string" where
  "decimal n = (if n < 0 then CHR ''-'' # dec (nat (- n)) else dec (nat n))"

definition number :: "string \<Rightarrow> nat" where
  "number s = foldl (\<lambda>n c. 10 * n + (of_char c - 48)) 0 s"

lemma of_digit_char: "n < 10 \<Longrightarrow> of_char (digit_char n) = 48 + n"
  by (simp add: digit_char_def)

lemma is_digit_digit_char: "n < 10 \<Longrightarrow> is_digit (digit_char n)"
  by (simp add: is_digit_def of_digit_char)

lemma length_fixed_digits [simp]: "length (fixed_digits w n) = w"
  by (induction w arbitrary: n) simp_all

lemma fixed_digits_are_digits: "list_all is_digit (fixed_digits w n)"
  by (induction w arbitrary: n) (simp_all add: is_digit_digit_char)

lemma number_fixed_digits: "number (fixed_digits w n) = n mod 10 ^ w"
proof (induction w arbitrary: n)
  case (Suc w)
  have "10 * (n div 10 mod 10 ^ w) + n mod 10 = n mod 10 ^ Suc w"
    by (metis mod_mult2_eq power_Suc)
  with Suc show ?case by (simp add: number_def of_digit_char)
qed (simp add: number_def)

lemma padded_eq: "0 \<le> n \<Longrightarrow> n < 10 ^ w \<Longrightarrow> padded w n = fixed_digits w (nat n)"
  by (simp add: padded_def nat_less_iff)

section \<open>Clock\<close>

definition date_of :: "gotime \<Rightarrow> int \<times> int \<times> int" where
  "date_of t = civil_of_days (unix t div 86400)"

definition clock_of :: "gotime \<Rightarrow> int \<times> int \<times> int" where
  "clock_of t = (let s = unix t mod 86400 in (s div 3600, s mod 3600 div 60, s mod 60))"

text \<open>\<^verbatim>\<open>Format\<close> with \<^verbatim>\<open>20060102T150405Z\<close>, \<^verbatim>\<open>2006-01-02\<close> and RFC 3339, all in UTC.\<close>

definition format_stamp :: "gotime \<Rightarrow> string" where
  "format_stamp t = (case date_of t of (year, m, d) \<Rightarrow> case clock_of t of (hh, mm, ss) \<Rightarrow>
     padded 4 year @ padded 2 m @ padded 2 d @ ''T'' @ padded 2 hh @ padded 2 mm @ padded 2 ss @ ''Z'')"

definition format_date :: "gotime \<Rightarrow> string" where
  "format_date t = (case date_of t of (year, m, d) \<Rightarrow>
     padded 4 year @ ''-'' @ padded 2 m @ ''-'' @ padded 2 d)"

definition format_rfc3339 :: "gotime \<Rightarrow> string" where
  "format_rfc3339 t = (case date_of t of (year, m, d) \<Rightarrow> case clock_of t of (hh, mm, ss) \<Rightarrow>
     padded 4 year @ ''-'' @ padded 2 m @ ''-'' @ padded 2 d @ ''T'' @
     padded 2 hh @ '':'' @ padded 2 mm @ '':'' @ padded 2 ss @ ''Z'')"

text \<open>
  \<^verbatim>\<open>time.Parse\<close> with \<^verbatim>\<open>20060102T150405Z\<close> on a text of exactly that shape (eight digits,
  \<^verbatim>\<open>T\<close>, six digits, \<^verbatim>\<open>Z\<close>): every field must be in its range.
\<close>

definition stamp_shape :: "string \<Rightarrow> bool" where
  "stamp_shape s \<longleftrightarrow> length s = 16 \<and> list_all is_digit (take 8 s) \<and> s ! 8 = CHR ''T'' \<and>
     list_all is_digit (take 6 (drop 9 s)) \<and> s ! 15 = CHR ''Z''"

definition parse_stamp :: "string \<Rightarrow> gotime option" where
  "parse_stamp s =
     (let field = (\<lambda>i w. int (number (take w (drop i s))));
          year = field 0 4; m = field 4 2; d = field 6 2;
          hh = field 9 2; mm = field 11 2; ss = field 13 2
      in if stamp_shape s \<and> 1 \<le> m \<and> m \<le> 12 \<and> 1 \<le> d \<and> d \<le> days_in_month year m \<and>
            hh < 24 \<and> mm < 60 \<and> ss < 60
         then Some (from_unix (days_of_civil year m d * 86400 + hh * 3600 + mm * 60 + ss))
         else None)"

text \<open>\<^verbatim>\<open>ISOWeek\<close>: the year and week of the Thursday of the same week; day 0 was a Thursday.\<close>

definition iso_week :: "gotime \<Rightarrow> int \<times> int" where
  "iso_week t =
     (let days = unix t div 86400;
          thursday = days + 3 - (days + 3) mod 7
      in case civil_of_days thursday of (year, _, _) \<Rightarrow>
           (year, (thursday - days_of_civil year 1 1) div 7 + 1))"

section \<open>The stamp round trip\<close>

lemma clock_bounds:
  assumes "clock_of t = (hh, mm, ss)"
  shows "0 \<le> hh" "hh < 24" "0 \<le> mm" "mm < 60" "0 \<le> ss" "ss < 60"
    "unix t mod 86400 = hh * 3600 + mm * 60 + ss"
proof -
  define s where "s = unix t mod 86400"
  have s: "0 \<le> s" "s < 86400" by (simp_all add: s_def)
  have eq: "hh = s div 3600" "mm = s mod 3600 div 60" "ss = s mod 60"
    using assms unfolding clock_of_def Let_def prod.inject s_def by blast+
  have "s mod 3600 mod 60 = s mod 60" by (rule mod_mod_cancel) simp
  then show "unix t mod 86400 = hh * 3600 + mm * 60 + ss"
    unfolding s_def [symmetric] eq
    by (metis div_mult_mod_eq add.assoc)
  show "0 \<le> hh" "hh < 24" "0 \<le> mm" "mm < 60" "0 \<le> ss" "ss < 60"
    using s unfolding eq by auto
qed

lemma stamp_digits:
  assumes "length y = 4" "length m = 2" "length d = 2" "length hh = 2" "length mm = 2" "length ss = 2"
    and "s = y @ m @ d @ ''T'' @ hh @ mm @ ss @ ''Z''"
  shows "take 4 s = y" "take 2 (drop 4 s) = m" "take 2 (drop 6 s) = d" "take 2 (drop 9 s) = hh"
    "take 2 (drop 11 s) = mm" "take 2 (drop 13 s) = ss" "length s = 16" "s ! 8 = CHR ''T''"
    "s ! 15 = CHR ''Z''" "take 8 s = y @ m @ d" "take 6 (drop 9 s) = hh @ mm @ ss"
  using assms by (simp_all add: nth_append)

theorem parse_format_stamp:
  assumes "date_of t = (year, m, d)" "0 \<le> year" "year < 10000"
  shows "parse_stamp (format_stamp t) = Some (from_unix (unix t))"
proof -
  obtain hh mm ss where clock: "clock_of t = (hh, mm, ss)" by (metis surj_pair)
  note c = clock_bounds [OF clock]
  note civil = assms(1) [unfolded date_of_def]
  note day = days_of_civil_of_days [OF civil] civil_day_in_month [OF civil]
  define s where "s = format_stamp t"
  have s: "s = fixed_digits 4 (nat year) @ fixed_digits 2 (nat m) @ fixed_digits 2 (nat d) @ ''T'' @
      fixed_digits 2 (nat hh) @ fixed_digits 2 (nat mm) @ fixed_digits 2 (nat ss) @ ''Z''"
    using assms c day by (simp add: s_def format_stamp_def clock padded_eq)
  note parts = stamp_digits [OF _ _ _ _ _ _ s, simplified]
  have num: "int (number (fixed_digits w (nat x))) = x" if "0 \<le> x" "x < 10 ^ w" for x w
    using that by (simp add: number_fixed_digits nat_less_iff)
  have shape: "stamp_shape s"
    using fixed_digits_are_digits unfolding stamp_shape_def parts by (simp add: parts)
  have "parse_stamp s = Some (from_unix (days_of_civil year m d * 86400 + hh * 3600 + mm * 60 + ss))"
    unfolding parse_stamp_def Let_def using shape assms c day
    by (simp add: parts num)
  moreover have "days_of_civil year m d * 86400 + hh * 3600 + mm * 60 + ss = unix t"
    using day(1) c(7) by (metis add.assoc div_mult_mod_eq)
  ultimately show ?thesis by (simp add: s_def)
qed

end
