(* ===== verification/Security.thy ===== *)
theory Security
  imports Calendar "HOL-Library.Word"
begin

text \<open>
  \<^verbatim>\<open>internal/security\<close>: token hashes and the second factor. The hash functions of Go's standard
  library (SHA-256, SHA-1, HMAC) are written out on 32-bit words, so that \<^verbatim>\<open>Hash\<close> and
  \<^verbatim>\<open>HOTP\<close> are the functions the program computes; a text is its bytes.
\<close>

unbundle bit_operations_syntax

type_synonym byte = "8 word"
type_synonym word32 = "32 word"

section \<open>Bytes\<close>

definition bytes :: "string \<Rightarrow> byte list" where
  "bytes s = map of_char s"

definition text_of :: "byte list \<Rightarrow> string" where
  "text_of bs = map (\<lambda>b. char_of (unat b)) bs"

definition be_word :: "byte list \<Rightarrow> word32" where
  "be_word bs = foldl (\<lambda>w b. push_bit 8 w OR ucast b) 0 bs"

definition be_bytes :: "word32 \<Rightarrow> byte list" where
  "be_bytes w = [ucast (drop_bit 24 w), ucast (drop_bit 16 w), ucast (drop_bit 8 w), ucast w]"

text \<open>\<^verbatim>\<open>binary.BigEndian.PutUint64\<close>.\<close>

definition be_bytes64 :: "64 word \<Rightarrow> byte list" where
  "be_bytes64 w = map (\<lambda>i. ucast (drop_bit (8 * i) w)) [7, 6, 5, 4, 3, 2, 1, 0]"

fun chunks :: "nat \<Rightarrow> 'a list \<Rightarrow> 'a list list" where
  "chunks n xs = (if n = 0 \<or> xs = [] then [] else take n xs # chunks n (drop n xs))"

declare chunks.simps [simp del]

definition rotate_left :: "nat \<Rightarrow> word32 \<Rightarrow> word32" where
  "rotate_left n w = push_bit n w OR drop_bit (32 - n) w"

definition rotate_right :: "nat \<Rightarrow> word32 \<Rightarrow> word32" where
  "rotate_right n w = drop_bit n w OR push_bit (32 - n) w"

text \<open>The padding both hash functions share: a one bit, zeros, and the length in bits.\<close>

definition sha_pad :: "byte list \<Rightarrow> byte list" where
  "sha_pad msg = msg @ [0x80] @ replicate ((119 - length msg mod 64) mod 64) 0 @
     be_bytes64 (of_nat (8 * length msg))"

definition sha_blocks :: "byte list \<Rightarrow> word32 list list" where
  "sha_blocks msg = map (\<lambda>block. map be_word (chunks 4 block)) (chunks 64 (sha_pad msg))"

section \<open>SHA-256\<close>

definition sha256_k :: "word32 list" where
  "sha256_k = [
     1116352408, 1899447441, 3049323471, 3921009573, 961987163, 1508970993, 2453635748, 2870763221,
     3624381080, 310598401, 607225278, 1426881987, 1925078388, 2162078206, 2614888103, 3248222580,
     3835390401, 4022224774, 264347078, 604807628, 770255983, 1249150122, 1555081692, 1996064986,
     2554220882, 2821834349, 2952996808, 3210313671, 3336571891, 3584528711, 113926993, 338241895,
     666307205, 773529912, 1294757372, 1396182291, 1695183700, 1986661051, 2177026350, 2456956037,
     2730485921, 2820302411, 3259730800, 3345764771, 3516065817, 3600352804, 4094571909, 275423344,
     430227734, 506948616, 659060556, 883997877, 958139571, 1322822218, 1537002063, 1747873779,
     1955562222, 2024104815, 2227730452, 2361852424, 2428436474, 2756734187, 3204031479, 3329325298]"

definition sha256_init :: "word32 list" where
  "sha256_init = [
     1779033703, 3144134277, 1013904242, 2773480762, 1359893119, 2600822924, 528734635, 1541459225]"

text \<open>The message schedule, newest word first.\<close>

definition sha256_next :: "word32 list \<Rightarrow> word32" where
  "sha256_next ws =
     (let w15 = ws ! 14; w2 = ws ! 1;
          s0 = rotate_right 7 w15 XOR rotate_right 18 w15 XOR drop_bit 3 w15;
          s1 = rotate_right 17 w2 XOR rotate_right 19 w2 XOR drop_bit 10 w2
      in ws ! 15 + s0 + ws ! 6 + s1)"

primrec extend_schedule :: "(word32 list \<Rightarrow> word32) \<Rightarrow> nat \<Rightarrow> word32 list \<Rightarrow> word32 list" where
  "extend_schedule nxt 0 ws = ws"
| "extend_schedule nxt (Suc n) ws = extend_schedule nxt n (nxt ws # ws)"

fun sha256_round :: "word32 \<times> word32 \<Rightarrow> word32 list \<Rightarrow> word32 list" where
  "sha256_round (k, w) [a, b, c, d, e, f, g, h] =
     (let s1 = rotate_right 6 e XOR rotate_right 11 e XOR rotate_right 25 e;
          ch = (e AND f) XOR (NOT e AND g);
          t1 = h + s1 + ch + k + w;
          s0 = rotate_right 2 a XOR rotate_right 13 a XOR rotate_right 22 a;
          maj = (a AND b) XOR (a AND c) XOR (b AND c)
      in [t1 + s0 + maj, a, b, c, d + t1, e, f, g])"
| "sha256_round _ st = st"

definition sha256_block :: "word32 list \<Rightarrow> word32 list \<Rightarrow> word32 list" where
  "sha256_block st block =
     map2 (+) st (fold sha256_round (zip sha256_k (rev (extend_schedule sha256_next 48 (rev block)))) st)"

definition sha256 :: "byte list \<Rightarrow> byte list" where
  "sha256 msg = concat (map be_bytes (foldl sha256_block sha256_init (sha_blocks msg)))"

definition hex_digit :: "nat \<Rightarrow> char" where
  "hex_digit n = (if n < 10 then char_of (48 + n) else char_of (87 + n))"

definition hex :: "byte list \<Rightarrow> string" where
  "hex bs = concat (map (\<lambda>b. [hex_digit (unat b div 16), hex_digit (unat b mod 16)]) bs)"

definition Hash :: "string \<Rightarrow> string" where
  "Hash s = hex (sha256 (bytes s))"

section \<open>SHA-1 and HMAC\<close>

definition sha1_init :: "word32 list" where
  "sha1_init = [0x67452301, 0xefcdab89, 0x98badcfe, 0x10325476, 0xc3d2e1f0]"

definition sha1_next :: "word32 list \<Rightarrow> word32" where
  "sha1_next ws = rotate_left 1 (ws ! 2 XOR ws ! 7 XOR ws ! 13 XOR ws ! 15)"

definition sha1_mix :: "nat \<Rightarrow> word32 \<Rightarrow> word32 \<Rightarrow> word32 \<Rightarrow> word32 \<times> word32" where
  "sha1_mix t b c d =
     (if t < 20 then ((b AND c) OR (NOT b AND d), 0x5a827999)
      else if t < 40 then (b XOR c XOR d, 0x6ed9eba1)
      else if t < 60 then ((b AND c) OR (b AND d) OR (c AND d), 0x8f1bbcdc)
      else (b XOR c XOR d, 0xca62c1d6))"

fun sha1_round :: "nat \<times> word32 \<Rightarrow> word32 list \<Rightarrow> word32 list" where
  "sha1_round (t, w) [a, b, c, d, e] =
     (case sha1_mix t b c d of (f, k) \<Rightarrow> [rotate_left 5 a + f + e + k + w, a, rotate_left 30 b, c, d])"
| "sha1_round _ st = st"

definition sha1_block :: "word32 list \<Rightarrow> word32 list \<Rightarrow> word32 list" where
  "sha1_block st block =
     map2 (+) st (fold sha1_round (zip [0..<80] (rev (extend_schedule sha1_next 64 (rev block)))) st)"

definition sha1 :: "byte list \<Rightarrow> byte list" where
  "sha1 msg = concat (map be_bytes (foldl sha1_block sha1_init (sha_blocks msg)))"

text \<open>HMAC with a hash of 64-byte blocks.\<close>

definition hmac :: "(byte list \<Rightarrow> byte list) \<Rightarrow> byte list \<Rightarrow> byte list \<Rightarrow> byte list" where
  "hmac hash key msg =
     (let k0 = (if length key > 64 then hash key else key);
          k = k0 @ replicate (64 - length k0) 0
      in hash (map (\<lambda>b. b XOR 0x5c) k @ hash (map (\<lambda>b. b XOR 0x36) k @ msg)))"

section \<open>One-time codes\<close>

definition TOTPPeriod :: int where "TOTPPeriod = 30"
definition TOTPDigits :: nat where "TOTPDigits = 6"

definition HOTP :: "byte list \<Rightarrow> 64 word \<Rightarrow> nat \<Rightarrow> string" where
  "HOTP secret counter digits =
     (let digest = hmac sha1 secret (be_bytes64 counter);
          offset = unat (last digest AND 0x0f);
          val = be_word (take 4 (drop offset digest)) AND 0x7fffffff;
          modulus = ((*) 10 ^^ digits) (1 :: word32)
      in padded digits (uint (val mod modulus)))"

text \<open>Go's division truncates towards zero.\<close>

definition TOTPStep :: "gotime \<Rightarrow> int" where
  "TOTPStep now = sgn (unix now) * (\<bar>unix now\<bar> div TOTPPeriod)"

definition TOTPCode :: "byte list \<Rightarrow> int \<Rightarrow> string" where
  "TOTPCode secret step = HOTP secret (word_of_int step) TOTPDigits"

text \<open>
  \<^verbatim>\<open>strings.TrimSpace\<close> on UTF-8 text: the encodings of the white space characters, stripped at
  both ends.
\<close>

definition white_space :: "nat list list" where
  "white_space = [[9], [10], [11], [12], [13], [32], [0xC2, 0x85], [0xC2, 0xA0], [0xE1, 0x9A, 0x80]] @
     map (\<lambda>n. [0xE2, 0x80, n]) ([0x80..<0x8B] @ [0xA8, 0xA9, 0xAF]) @
     [[0xE2, 0x81, 0x9F], [0xE3, 0x80, 0x80]]"

fun strip_spaces :: "char list list \<Rightarrow> nat \<Rightarrow> string \<Rightarrow> string" where
  "strip_spaces spaces 0 s = s"
| "strip_spaces spaces (Suc n) s =
     (case find (\<lambda>p. take (length p) s = p) spaces of
        None \<Rightarrow> s
      | Some p \<Rightarrow> strip_spaces spaces n (drop (length p) s))"

definition TrimSpace :: "string \<Rightarrow> string" where
  "TrimSpace s =
     (let spaces = map (map char_of) white_space;
          left = strip_spaces spaces (length s) s
      in rev (strip_spaces (map rev spaces) (length left) (rev left)))"

definition code_digits :: "string \<Rightarrow> string" where
  "code_digits code = filter (\<lambda>c. c \<noteq> CHR '' '') (TrimSpace code)"

text \<open>The result is the step, whether the code is accepted, and whether it was used before.\<close>

definition VerifyTOTP :: "byte list \<Rightarrow> string \<Rightarrow> gotime \<Rightarrow> int \<Rightarrow> int \<times> bool \<times> bool" where
  "VerifyTOTP secret code now lastStep =
     (let code' = code_digits code; current = TOTPStep now in
      if length code' \<noteq> TOTPDigits then (0, False, False)
      else case find (\<lambda>candidate. TOTPCode secret candidate = code') [current - 1, current, current + 1] of
        None \<Rightarrow> (0, False, False)
      | Some candidate \<Rightarrow>
          if candidate \<le> lastStep then (candidate, False, True) else (candidate, True, False))"

text \<open>The secret in base32, in groups of four, as it is typed into an authenticator.\<close>

definition bits_of :: "nat \<Rightarrow> nat \<Rightarrow> bool list" where
  "bits_of w n = map (\<lambda>i. odd (n div 2 ^ i)) (rev [0..<w])"

definition of_bits :: "bool list \<Rightarrow> nat" where
  "of_bits bs = foldl (\<lambda>n b. 2 * n + of_bool b) 0 bs"

definition base32_char :: "nat \<Rightarrow> char" where
  "base32_char n = ''ABCDEFGHIJKLMNOPQRSTUVWXYZ234567'' ! n"

definition base32 :: "byte list \<Rightarrow> string" where
  "base32 bs = map (\<lambda>g. base32_char (of_bits (g @ replicate (5 - length g) False)))
     (chunks 5 (concat (map (\<lambda>b. bits_of 8 (unat b)) bs)))"

fun join :: "string \<Rightarrow> string list \<Rightarrow> string" where
  "join sep [] = []"
| "join sep [s] = s"
| "join sep (s # ss) = s @ sep @ join sep ss"

definition TOTPKey :: "byte list \<Rightarrow> string" where
  "TOTPKey secret = join '' '' (chunks 4 (base32 secret))"

section \<open>Lemmas\<close>

lemma code_modulus: "((*) 10 ^^ TOTPDigits) (1 :: word32) = 1000000"
  by (simp add: TOTPDigits_def eval_nat_numeral)

lemma TOTPCode_eq:
  obtains n where "n < 1000000" "TOTPCode secret step = fixed_digits 6 n"
proof -
  define digest where "digest = hmac sha1 secret (be_bytes64 (word_of_int step))"
  define val where "val = be_word (take 4 (drop (unat (last digest AND 0x0f)) digest)) AND 0x7fffffff"
  define n where "n = uint (val mod 1000000)"
  have code: "TOTPCode secret step = padded 6 n"
    unfolding TOTPCode_def HOTP_def Let_def n_def val_def digest_def code_modulus
    by (simp add: TOTPDigits_def)
  have "n = uint val mod uint (1000000 :: word32)" unfolding n_def by (rule uint_mod)
  then have n: "0 \<le> n" "n < 1000000" by simp_all
  then have "nat n < 1000000" "TOTPCode secret step = fixed_digits 6 (nat n)"
    using code padded_eq [of n 6] by simp_all
  then show thesis by (rule that)
qed

text \<open>White space is stripped from what the user typed; a code itself has none.\<close>

lemma strip_spaces_digit:
  assumes "\<And>p. p \<in> set spaces \<Longrightarrow> p \<noteq> [] \<and> \<not> is_digit (hd p)" "s \<noteq> []" "is_digit (hd s)"
  shows "strip_spaces spaces n s = s"
proof (cases n)
  case (Suc m)
  have "take (length p) s \<noteq> p" if "p \<in> set spaces" for p
    using assms(1) [OF that] assms(2,3) by (cases p; cases s) auto
  then have "find (\<lambda>p. take (length p) s = p) spaces = None" by (simp add: find_None_iff)
  with Suc show ?thesis by simp
qed simp

lemma white_space_not_digit:
  "list_all (\<lambda>p. p \<noteq> [] \<and> \<not> is_digit (char_of (hd p)) \<and> \<not> is_digit (char_of (last p))) white_space"
  by code_simp

lemma TrimSpace_digits:
  assumes "s \<noteq> []" "list_all is_digit s"
  shows "TrimSpace s = s"
proof -
  have "is_digit (hd s)" "is_digit (last s)" using assms by (simp_all add: list_all_iff)
  moreover have "p \<noteq> [] \<and> \<not> is_digit (hd p)" if "p \<in> set (map (map char_of) white_space)" for p
    using that white_space_not_digit by (auto simp: list_all_iff hd_map)
  moreover have "p \<noteq> [] \<and> \<not> is_digit (hd p)" if "p \<in> set (map rev (map (map char_of) white_space))" for p
    using that white_space_not_digit by (auto simp: list_all_iff hd_rev last_map)
  ultimately show ?thesis
    using assms(1) unfolding TrimSpace_def Let_def
    by (simp add: strip_spaces_digit hd_rev del: set_map)
qed

lemma code_digits_TOTPCode: "code_digits (TOTPCode secret step) = TOTPCode secret step"
proof -
  obtain n where n: "TOTPCode secret step = fixed_digits 6 n" by (rule TOTPCode_eq)
  have digits: "list_all is_digit (fixed_digits 6 n)" by (rule fixed_digits_are_digits)
  have "fixed_digits 6 n \<noteq> []" by (metis length_fixed_digits list.size(3) zero_neq_numeral)
  then have "TrimSpace (fixed_digits 6 n) = fixed_digits 6 n" using digits by (rule TrimSpace_digits)
  moreover have "filter (\<lambda>c. c \<noteq> CHR '' '') (fixed_digits 6 n) = fixed_digits 6 n"
    using digits by (intro filter_True) (auto simp: list_all_iff is_digit_def)
  ultimately show ?thesis by (simp add: code_digits_def n)
qed

lemma length_TOTPCode: "length (TOTPCode secret step) = TOTPDigits"
  by (rule TOTPCode_eq [of secret step]) (simp add: TOTPDigits_def)

text \<open>
  Nothing else is accepted: an accepted code is the code of the step it returns, that step is
  newer than the last accepted one and at most one away from the clock.
\<close>

lemma VerifyTOTP_sound:
  assumes "VerifyTOTP secret code now lastStep = (step, True, reused)"
  shows "code_digits code = TOTPCode secret step \<and> lastStep < step \<and> \<bar>step - TOTPStep now\<bar> \<le> 1 \<and> \<not> reused"
proof -
  define window where "window = [TOTPStep now - 1, TOTPStep now, TOTPStep now + 1]"
  from assms have "find (\<lambda>c. TOTPCode secret c = code_digits code) window = Some step"
    and "lastStep < step" "\<not> reused"
    by (auto simp: VerifyTOTP_def Let_def window_def split: if_splits option.splits)
  moreover from this(1) have "step \<in> set window \<and> TOTPCode secret step = code_digits code"
    by (rule find_Some_iff_mem)
  ultimately show ?thesis by (auto simp: window_def)
qed

section \<open>Properties\<close>

text \<open>
  A code is always six decimal digits, whatever the secret and the step, and comparing what the
  user typed ignores the blanks around and between them only.
\<close>

theorem TOTPCode_six_digits:
  "length (TOTPCode secret step) = 6 \<and> list_all is_digit (TOTPCode secret step) \<and>
   number (TOTPCode secret step) < 10 ^ 6 \<and> code_digits (TOTPCode secret step) = TOTPCode secret step"
proof -
  obtain n where n: "n < 1000000" "TOTPCode secret step = fixed_digits 6 n" by (rule TOTPCode_eq)
  then have "number (TOTPCode secret step) < 10 ^ 6" by (simp add: number_fixed_digits)
  moreover have "length (TOTPCode secret step) = 6" "list_all is_digit (TOTPCode secret step)"
    using n by (simp_all add: fixed_digits_are_digits)
  ultimately show ?thesis using code_digits_TOTPCode by blast
qed

text \<open>
  The current code, the one before and the one after are accepted while their steps are newer
  than the last accepted one, the step returned is newer than it and within one step of the clock,
  and with that step recorded the same code is refused as used: it works once.
\<close>

theorem VerifyTOTP_once:
  assumes "code_digits code = TOTPCode secret s" "\<bar>s - TOTPStep now\<bar> \<le> 1"
    and "lastStep < TOTPStep now - 1"
  shows "\<exists>step. VerifyTOTP secret code now lastStep = (step, True, False) \<and> lastStep < step \<and>
    \<bar>step - TOTPStep now\<bar> \<le> 1 \<and> TOTPCode secret step = code_digits code \<and>
    VerifyTOTP secret code now step = (step, False, True)"
proof -
  define window where "window = [TOTPStep now - 1, TOTPStep now, TOTPStep now + 1]"
  have s: "s \<in> set window" using assms(2) by (auto simp: window_def)
  then obtain step where step: "find (\<lambda>c. TOTPCode secret c = code_digits code) window = Some step"
    using assms(1) by (cases "find (\<lambda>c. TOTPCode secret c = code_digits code) window")
      (auto simp: find_None_iff)
  then have "step \<in> set window \<and> TOTPCode secret step = code_digits code"
    by (rule find_Some_iff_mem)
  moreover have "length (code_digits code) = TOTPDigits" by (simp add: assms(1) length_TOTPCode)
  ultimately show ?thesis
    using step assms(3) by (auto simp: VerifyTOTP_def Let_def window_def)
qed

theorem VerifyTOTP_once_witness:
  "\<exists>step. VerifyTOTP [1, 2, 3] (TOTPCode [1, 2, 3] 10) (305 * second) 8 = (step, True, False) \<and> 8 < step"
proof -
  have "TOTPStep (305 * second) = 10" by (simp add: TOTPStep_def unix_def TOTPPeriod_def)
  then show ?thesis
    using VerifyTOTP_once [OF code_digits_TOTPCode, of 10 "305 * second" 8 "[1, 2, 3]"] by auto
qed

end
