(* ===== verification/Store_Auth.thy ===== *)
theory Store_Auth
  imports Store_Access Security
begin

text \<open>
  Sign-in (\<^verbatim>\<open>internal/store/auth.go\<close> and the sessions of \<^verbatim>\<open>internal/store/store.go\<close>): the
  short-lived tokens of setup, reset, enrolment and the password step, the second factor with its
  lockout, and the sessions. The random tokens and the hashes of the caller are arguments; so is
  \<^verbatim>\<open>verify\<close>, the closure in which the HTTP layer opens the sealed payload and checks the code.
\<close>

section \<open>Tokens\<close>

definition setupTTL :: duration where "setupTTL = 30 * minute"
definition resetTTL :: duration where "resetTTL = 30 * minute"
definition enrolTTL :: duration where "enrolTTL = 10 * minute"
definition pendingTTL :: duration where "pendingTTL = 5 * minute"
definition codeTries :: int where "codeTries = 5"
definition sessionTTL :: duration where "sessionTTL = 12 * hour"

record token =
  token_ID :: int
  token_Parent :: "int option"
  token_Payload :: string
  token_Attempts :: int
  token_Max :: int

text \<open>Deleting tokens: a token whose parent goes keeps its row, with the reference cleared.\<close>

definition delete_tokens :: "(auth_token_row \<Rightarrow> bool) \<Rightarrow> auth_token_row list \<Rightarrow> auth_token_row list" where
  "delete_tokens P rows =
     (let gone = map tok_id (filter P rows)
      in update_where (\<lambda>r. case tok_parent_id r of None \<Rightarrow> False | Some p \<Rightarrow> p \<in> set gone)
           (\<lambda>r. r\<lparr>tok_parent_id := None\<rparr>) (delete_where P rows))"

definition new_token ::
  "string \<Rightarrow> string \<Rightarrow> duration \<Rightarrow> int \<Rightarrow> int option \<Rightarrow> string \<Rightarrow> gotime \<Rightarrow> int \<Rightarrow> auth_token_row" where
  "new_token purpose hash ttl mx parent payload now i =
     \<lparr>tok_id = i, tok_purpose = purpose, tok_token_hash = hash, tok_expires_at = unix (now + ttl),
      tok_attempts = 0, tok_max_attempts = mx, tok_consumed_at = None, tok_parent_id = parent,
      tok_sealed_payload = payload, tok_created_at = unix now\<rparr>"

definition insert_token ::
  "string \<Rightarrow> string \<Rightarrow> duration \<Rightarrow> int \<Rightarrow> int option \<Rightarrow> string \<Rightarrow> gotime \<Rightarrow> db \<Rightarrow> err + (int \<times> db)" where
  "insert_token purpose hash ttl mx parent payload now d =
     (if list_ex (\<lambda>r. tok_token_hash r = hash) (auth_tokens d) \<or>
         (case parent of None \<Rightarrow> False | Some p \<Rightarrow> \<not> list_ex (\<lambda>r. tok_id r = p) (auth_tokens d)) \<or>
         \<not> list_ex (\<lambda>q. q = purpose) [''setup'', ''reset'', ''enrol'', ''pending'']
      then Inl EConstraint
      else Inr (auth_tokens_seq d,
        d\<lparr>auth_tokens := auth_tokens d @ [new_token purpose hash ttl mx parent payload now (auth_tokens_seq d)],
          auth_tokens_seq := auth_tokens_seq d + 1\<rparr>))"

definition issue ::
  "string \<Rightarrow> string \<Rightarrow> duration \<Rightarrow> int \<Rightarrow> int option \<Rightarrow> string \<Rightarrow> gotime \<Rightarrow> int dbop" where
  "issue purpose hash ttl mx parent payload now =
     then_tx (exec (\<lambda>d. d\<lparr>auth_tokens :=
        delete_tokens (\<lambda>r. tok_expires_at r < unix (now - 24 * hour)) (auth_tokens d)\<rparr>))
     (stmt (insert_token purpose hash ttl mx parent payload now))"

definition live_token :: "string \<Rightarrow> string \<Rightarrow> gotime \<Rightarrow> auth_token_row \<Rightarrow> bool" where
  "live_token purpose hash now r \<longleftrightarrow> tok_token_hash r = hash \<and> tok_purpose r = purpose \<and>
     tok_consumed_at r = None \<and> tok_expires_at r > unix now \<and> tok_attempts r < tok_max_attempts r"

definition spend_attempt :: "auth_token_row \<Rightarrow> auth_token_row" where
  "spend_attempt r = r\<lparr>tok_attempts := tok_attempts r + 1\<rparr>"

definition scan_token :: "auth_token_row \<Rightarrow> token" where
  "scan_token r = \<lparr>token_ID = tok_id r, token_Parent = tok_parent_id r,
     token_Payload = tok_sealed_payload r, token_Attempts = tok_attempts r, token_Max = tok_max_attempts r\<rparr>"

definition use_token :: "string \<Rightarrow> string \<Rightarrow> gotime \<Rightarrow> token dbop" where
  "use_token purpose hash now =
     bind_tx (exec_affected (\<lambda>d. (count_where (live_token purpose hash now) (auth_tokens d),
        d\<lparr>auth_tokens := update_where (live_token purpose hash now) spend_attempt (auth_tokens d)\<rparr>))) (\<lambda>n.
     if n \<noteq> 1 then throw ErrToken
     else query_row (\<lambda>d. map_option scan_token (find (\<lambda>r. tok_token_hash r = hash) (auth_tokens d))))"

definition consume_row :: "int \<Rightarrow> gotime \<Rightarrow> auth_token_row list \<Rightarrow> auth_token_row list" where
  "consume_row i now = update_where (\<lambda>r. tok_id r = i) (\<lambda>r. r\<lparr>tok_consumed_at := Some (unix now)\<rparr>)"

definition consume :: "int \<Rightarrow> gotime \<Rightarrow> unit dbop" where
  "consume i now = exec (\<lambda>d. d\<lparr>auth_tokens := consume_row i now (auth_tokens d)\<rparr>)"

definition spendFailure :: "token \<Rightarrow> gotime \<Rightarrow> unit dbop" where
  "spendFailure t now = (if token_Attempts t \<ge> token_Max t then consume (token_ID t) now else ret ())"

section \<open>Sessions\<close>

definition drop_sessions :: "string \<Rightarrow> gotime \<Rightarrow> db \<Rightarrow> db" where
  "drop_sessions scope now d =
     d\<lparr>sessions := delete_where (\<lambda>s. ses_expires_at s \<le> unix now \<or> ses_scope s \<noteq> scope) (sessions d)\<rparr>"

definition insert_session :: "string \<Rightarrow> string \<Rightarrow> gotime \<Rightarrow> db \<Rightarrow> db option" where
  "insert_session sessionHash scope now d =
     (if list_ex (\<lambda>s. ses_token_hash s = sessionHash) (sessions d) \<or> administrator d = None then None
      else Some (d\<lparr>sessions := sessions d @ [\<lparr>ses_token_hash = sessionHash, ses_scope = scope,
        ses_expires_at = unix (now + sessionTTL)\<rparr>]\<rparr>))"

definition addSession :: "string \<Rightarrow> string \<Rightarrow> gotime \<Rightarrow> unit dbop" where
  "addSession sessionHash scope now =
     then_tx (exec (drop_sessions scope now)) (exec_insert (insert_session sessionHash scope now))"

definition adminExists :: "bool dbop" where
  "adminExists = query (\<lambda>d. administrator d \<noteq> None)"

section \<open>Setup\<close>

definition take_setup_lock :: "db \<Rightarrow> db" where
  "take_setup_lock = metadata_update (\<lambda>m.
     if list_ex (\<lambda>r. fst r = ''setup_lock'') m then m else m @ [(''setup_lock'', ''1'')])"

definition NewSetupToken :: "string \<Rightarrow> gotime \<Rightarrow> string dbop" where
  "NewSetupToken plain now = transact (
     then_tx (exec take_setup_lock) (
     bind_tx adminExists (\<lambda>exists.
     if exists then throw ErrSetup
     else bind_tx (query (\<lambda>d. count_where (\<lambda>r. tok_purpose r = ''setup'' \<and> tok_consumed_at r = None \<and>
            tok_expires_at r > unix now) (auth_tokens d))) (\<lambda>live.
     if live > 0 then throw ErrTokenActive
     else bind_tx (issue ''setup'' (Hash plain) setupTTL 1 None '''' now) (\<lambda>_. ret plain)))))"

definition new_admin :: "string \<Rightarrow> string \<Rightarrow> gotime \<Rightarrow> string option \<Rightarrow> int \<Rightarrow> admin_row" where
  "new_admin email passwordHash now secret step =
     \<lparr>adm_email = email, adm_password_hash = passwordHash, adm_created_at = unix now,
      adm_totp_secret_sealed = secret, adm_totp_last_step = step, adm_code_failures = 0,
      adm_code_locked_until = 0\<rparr>"

definition insert_admin :: "admin_row \<Rightarrow> db \<Rightarrow> db option" where
  "insert_admin row d =
     (if administrator d \<noteq> None then None else Some (d\<lparr>administrator := Some row\<rparr>))"

text \<open>The first steps of \<^verbatim>\<open>Setup\<close> and \<^verbatim>\<open>BeginEnrolment\<close>: every failure is the same answer.\<close>

definition spend_setup_token :: "string \<Rightarrow> gotime \<Rightarrow> token dbop" where
  "spend_setup_token setupToken now =
     bind_tx (attempt (use_token ''setup'' (Hash setupToken) now)) (\<lambda>r.
     case r of Inl _ \<Rightarrow> throw ErrSetup | Inr t \<Rightarrow>
     bind_tx (attempt adminExists) (\<lambda>r.
     case r of Inl _ \<Rightarrow> throw ErrSetup | Inr exists \<Rightarrow> if exists then throw ErrSetup else ret t))"

definition Setup ::
  "string \<Rightarrow> string \<Rightarrow> string \<Rightarrow> string \<Rightarrow> string \<Rightarrow> gotime \<Rightarrow> unit dbop" where
  "Setup setupToken email passwordHash sessionHash scope now = transact (
     bind_tx (spend_setup_token setupToken now) (\<lambda>t.
     then_tx (exec_insert (insert_admin (new_admin email passwordHash now None 0))) (
     then_tx (consume (token_ID t) now) (
     addSession sessionHash scope now))))"

section \<open>Enrolment\<close>

record Enrolment =
  Enrolment_Kind :: string
  Enrolment_Email :: string
  Enrolment_PasswordHash :: string
  Enrolment_Binding :: string
  Enrolment_Scope :: string
  Enrolment_Secret :: "byte list"

record Confirmed = Enrolment +
  Confirmed_SecretSealed :: string
  Confirmed_Step :: int

definition BeginEnrolment :: "string \<Rightarrow> string \<Rightarrow> string \<Rightarrow> gotime \<Rightarrow> unit dbop" where
  "BeginEnrolment setupToken enrolHash sealed now = transact (
     bind_tx (spend_setup_token setupToken now) (\<lambda>t.
     then_tx (consume (token_ID t) now) (
     bind_tx (issue ''enrol'' enrolHash enrolTTL codeTries (Some (token_ID t)) sealed now) (\<lambda>_. ret ()))))"

definition BeginUpgrade :: "string \<Rightarrow> string \<Rightarrow> gotime \<Rightarrow> unit dbop" where
  "BeginUpgrade enrolHash sealed now = transact (
     bind_tx (issue ''enrol'' enrolHash enrolTTL codeTries None sealed now) (\<lambda>_. ret ()))"

definition retire_resets :: "gotime \<Rightarrow> db \<Rightarrow> db" where
  "retire_resets now d = d\<lparr>auth_tokens := update_where
     (\<lambda>r. tok_purpose r = ''reset'' \<and> tok_consumed_at r = None)
     (\<lambda>r. r\<lparr>tok_consumed_at := Some (unix now)\<rparr>) (auth_tokens d)\<rparr>"

definition NewResetToken :: "string \<Rightarrow> gotime \<Rightarrow> string dbop" where
  "NewResetToken plain now = transact (
     bind_tx adminExists (\<lambda>exists.
     if \<not> exists then throw ErrSetup
     else then_tx (exec (retire_resets now)) (
          bind_tx (issue ''reset'' (Hash plain) resetTTL 1 None '''' now) (\<lambda>_. ret plain))))"

definition BeginReset :: "string \<Rightarrow> string \<Rightarrow> string \<Rightarrow> gotime \<Rightarrow> unit dbop" where
  "BeginReset resetToken enrolHash sealed now = transact (
     bind_tx (attempt (use_token ''reset'' (Hash resetToken) now)) (\<lambda>r.
     case r of Inl _ \<Rightarrow> throw ErrToken | Inr t \<Rightarrow>
     then_tx (consume (token_ID t) now) (
     bind_tx (issue ''enrol'' enrolHash enrolTTL codeTries (Some (token_ID t)) sealed now) (\<lambda>_. ret ()))))"

definition EnrolmentPayload :: "string \<Rightarrow> gotime \<Rightarrow> string dbop" where
  "EnrolmentPayload enrolHash now =
     bind_tx (query (\<lambda>d. find (live_token ''enrol'' enrolHash now) (auth_tokens d))) (\<lambda>row.
     case row of None \<Rightarrow> throw ErrToken | Some r \<Rightarrow> ret (tok_sealed_payload r))"

text \<open>
  A confirmation ends in one of three ways: an error with the transaction rolled back
  (\<open>throw\<close>), an error after what the attempt must leave behind was committed (\<open>ret (Inl e)\<close>), or
  the administrator's address (\<open>ret (Inr email)\<close>).
\<close>

definition stale :: "token \<Rightarrow> gotime \<Rightarrow> (err + string) dbop" where
  "stale t now = then_tx (consume (token_ID t) now) (ret (Inl ErrToken))"

definition parent_purpose :: "token \<Rightarrow> string dbop" where
  "parent_purpose t =
     (case token_Parent t of
        None \<Rightarrow> ret ''''
      | Some p \<Rightarrow> query (\<lambda>d.
          case find (\<lambda>r. tok_id r = p \<and> tok_consumed_at r \<noteq> None) (auth_tokens d) of
            None \<Rightarrow> '''' | Some r \<Rightarrow> tok_purpose r))"

definition finish_enrolment ::
  "token \<Rightarrow> string \<Rightarrow> string \<Rightarrow> string \<Rightarrow> string \<Rightarrow> gotime \<Rightarrow> (err + string) dbop" where
  "finish_enrolment t kind sessionHash scope requestID now =
     (let is_reset = kind = ''reset'';
          action = (if is_reset then ''auth.reset'' else ''auth.second_factor'');
          event = (if is_reset then ''admin_reset'' else ''second_factor_enrolled'');
          summary = (if is_reset then ''Administrator access was reset over SSH''
                     else ''A second factor was enrolled for the administrator'')
      in then_tx (audit \<lparr>AuditEntry_ID = 0, AuditEntry_At = unix now, AuditEntry_AdminID = 1,
           AuditEntry_Action = action, AuditEntry_Target = '''', AuditEntry_RequestID = requestID,
           AuditEntry_Detail = ''{\"kind\":\"'' @ kind @ ''\"}''\<rparr>) (
         then_tx (RecordAlertEvent event (event @ '':'' @ format_rfc3339 now) summary
           ''If this was not you, reset access over SSH with pgfyctl reset-admin.'' now) (
         then_tx (addSession sessionHash scope now) (
         then_tx (consume (token_ID t) now) (
         bind_tx (query_row (\<lambda>d. map_option adm_email (administrator d))) (\<lambda>email. ret (Inr email)))))))"

text \<open>\<^verbatim>\<open>UPDATE administrator ... WHERE id=1 AND ...\<close> with the number of rows it changed.\<close>

definition update_admin :: "(admin_row \<Rightarrow> bool) \<Rightarrow> (admin_row \<Rightarrow> admin_row) \<Rightarrow> db \<Rightarrow> nat \<times> db" where
  "update_admin P f d =
     (case administrator d of
        None \<Rightarrow> (0, d)
      | Some a \<Rightarrow> if P a then (1, d\<lparr>administrator := Some (f a)\<rparr>) else (0, d))"

definition enrol_factor :: "string \<Rightarrow> int \<Rightarrow> admin_row \<Rightarrow> admin_row" where
  "enrol_factor sealed step a = a\<lparr>adm_totp_secret_sealed := Some sealed, adm_totp_last_step := step,
     adm_code_failures := 0, adm_code_locked_until := 0\<rparr>"

definition confirm_upgrade :: "token \<Rightarrow> Confirmed \<Rightarrow> gotime \<Rightarrow> (err + string) dbop \<Rightarrow> (err + string) dbop" where
  "confirm_upgrade t c now finish =
     bind_tx (attempt (query_row (\<lambda>d. map_option adm_password_hash (administrator d)))) (\<lambda>r.
     case r of Inl _ \<Rightarrow> stale t now | Inr current \<Rightarrow>
     if Hash current \<noteq> Enrolment_Binding c then stale t now
     else bind_tx (exec_affected (update_admin
            (\<lambda>a. adm_totp_secret_sealed a = None \<and> adm_password_hash a = current)
            (enrol_factor (Confirmed_SecretSealed c) (Confirmed_Step c)))) (\<lambda>n.
     if n \<noteq> 1 then stale t now else finish))"

definition newest_reset :: "db \<Rightarrow> int" where
  "newest_reset d = foldl max 0 (map tok_id (filter (\<lambda>r. tok_purpose r = ''reset'') (auth_tokens d)))"

definition replace_credentials :: "Confirmed \<Rightarrow> admin_row \<Rightarrow> admin_row" where
  "replace_credentials c a = enrol_factor (Confirmed_SecretSealed c) (Confirmed_Step c)
     (a\<lparr>adm_password_hash := Enrolment_PasswordHash c\<rparr>)"

definition drop_other_tokens :: "token \<Rightarrow> db \<Rightarrow> db" where
  "drop_other_tokens t d = d\<lparr>auth_tokens := delete_tokens (\<lambda>r.
     (tok_purpose r = ''pending'' \<or> tok_purpose r = ''enrol'' \<or> tok_purpose r = ''reset'') \<and>
     tok_id r \<noteq> token_ID t \<and> tok_id r \<noteq> coalesce (token_Parent t) 0) (auth_tokens d)\<rparr>"

definition confirm_reset ::
  "token \<Rightarrow> Confirmed \<Rightarrow> string \<Rightarrow> bool \<Rightarrow> gotime \<Rightarrow> (err + string) dbop \<Rightarrow> (err + string) dbop" where
  "confirm_reset t c parentPurpose exists now finish =
     (if parentPurpose \<noteq> ''reset'' \<or> \<not> exists then stale t now
      else bind_tx (query newest_reset) (\<lambda>newest.
      if newest \<noteq> coalesce (token_Parent t) 0 then stale t now
      else bind_tx (attempt maintenance) (\<lambda>r.
      case r of Inl _ \<Rightarrow> throw ErrMaintenance | Inr on \<Rightarrow>
      if on then throw ErrMaintenance
      else bind_tx (exec_affected (update_admin (\<lambda>_. True) (replace_credentials c))) (\<lambda>_.
      then_tx (exec (\<lambda>d. d\<lparr>sessions := []\<rparr>)) (
      then_tx (exec (drop_other_tokens t)) (
      then_tx (exec (retire_resets now)) finish))))))"

definition confirm_kind ::
  "token \<Rightarrow> Confirmed \<Rightarrow> string \<Rightarrow> bool \<Rightarrow> string \<Rightarrow> gotime \<Rightarrow> (err + string) dbop \<Rightarrow> (err + string) dbop" where
  "confirm_kind t c parentPurpose exists scope now finish =
     (if Enrolment_Scope c \<noteq> '''' \<and> Enrolment_Scope c \<noteq> scope then stale t now
      else if Enrolment_Kind c = ''setup'' then
        (if parentPurpose \<noteq> ''setup'' \<or> exists then stale t now
         else then_tx (exec_insert (insert_admin (new_admin (Enrolment_Email c)
           (Enrolment_PasswordHash c) now (Some (Confirmed_SecretSealed c)) (Confirmed_Step c)))) finish)
      else if Enrolment_Kind c = ''upgrade'' then confirm_upgrade t c now finish
      else if Enrolment_Kind c = ''reset'' then confirm_reset t c parentPurpose exists now finish
      else stale t now)"

definition confirm_verified ::
  "token \<Rightarrow> string \<Rightarrow> string \<Rightarrow> string \<Rightarrow> gotime \<Rightarrow> (string \<Rightarrow> err + Confirmed) \<Rightarrow> (err + string) dbop" where
  "confirm_verified t sessionHash scope requestID now verify =
     (case verify (token_Payload t) of
        Inl verr \<Rightarrow> then_tx (spendFailure t now) (ret (Inl verr))
      | Inr c \<Rightarrow>
          bind_tx adminExists (\<lambda>exists.
          bind_tx (parent_purpose t) (\<lambda>parentPurpose.
          confirm_kind t c parentPurpose exists scope now
            (finish_enrolment t (Enrolment_Kind c) sessionHash scope requestID now))))"

definition ConfirmEnrolment ::
  "string \<Rightarrow> string \<Rightarrow> string \<Rightarrow> string \<Rightarrow> gotime \<Rightarrow> (string \<Rightarrow> err + Confirmed) \<Rightarrow> string dbop" where
  "ConfirmEnrolment enrolHash sessionHash scope requestID now verify = transact_then (
     bind_tx (attempt (use_token ''enrol'' enrolHash now)) (\<lambda>r.
     case r of Inl _ \<Rightarrow> throw ErrToken
     | Inr t \<Rightarrow> confirm_verified t sessionHash scope requestID now verify))"

section \<open>The payload of a password step\<close>

text \<open>
  \<^verbatim>\<open>encoding/json\<close> on a struct of two strings: the fields in order, quotes, backslashes, control
  characters and the characters special to HTML escaped. The payload is read back from what
  \<^verbatim>\<open>BeginPending\<close> wrote (hexadecimal digits and the session scope, ASCII both), so the reader is
  written for that shape; anything else is an error.
\<close>

record pendingPayload =
  pendingPayload_Binding :: string
  pendingPayload_Scope :: string

definition json_char :: "char \<Rightarrow> string" where
  "json_char c = (let n = (of_char c :: nat) in
     if n = 34 \<or> n = 92 then [CHR 0x5C, c]
     else if n = 8 then [CHR 0x5C, CHR ''b'']
     else if n = 12 then [CHR 0x5C, CHR ''f'']
     else if n = 10 then [CHR 0x5C, CHR ''n'']
     else if n = 13 then [CHR 0x5C, CHR ''r'']
     else if n = 9 then [CHR 0x5C, CHR ''t'']
     else if n < 32 \<or> n = 60 \<or> n = 62 \<or> n = 38 then
       CHR 0x5C # ''u00'' @ [hex_digit (n div 16), hex_digit (n mod 16)]
     else [c])"

definition json_string :: "string \<Rightarrow> string" where
  "json_string s = [CHR 0x22] @ concat (map json_char s) @ [CHR 0x22]"

definition marshal_pending :: "pendingPayload \<Rightarrow> string" where
  "marshal_pending p = ''{'' @ json_string ''binding'' @ '':'' @ json_string (pendingPayload_Binding p) @
     '','' @ json_string ''scope'' @ '':'' @ json_string (pendingPayload_Scope p) @ ''}''"

definition hex_value :: "char \<Rightarrow> nat option" where
  "hex_value c = (let n = (of_char c :: nat) in
     if 48 \<le> n \<and> n \<le> 57 then Some (n - 48)
     else if 97 \<le> n \<and> n \<le> 102 then Some (n - 87)
     else if 65 \<le> n \<and> n \<le> 70 then Some (n - 55) else None)"

definition json_escape :: "string \<Rightarrow> (char \<times> string) option" where
  "json_escape s = (case s of
       [] \<Rightarrow> None
     | c # rest \<Rightarrow>
         if c = CHR 0x22 \<or> c = CHR 0x5C \<or> c = CHR ''/'' then Some (c, rest)
         else if c = CHR ''b'' then Some (CHR 0x08, rest)
         else if c = CHR ''f'' then Some (CHR 0x0C, rest)
         else if c = CHR ''n'' then Some (CHR 0x0A, rest)
         else if c = CHR ''r'' then Some (CHR 0x0D, rest)
         else if c = CHR ''t'' then Some (CHR 0x09, rest)
         else if c = CHR ''u'' then
           (case rest of
              z1 # z2 # h # l # rest' \<Rightarrow>
                (if z1 = CHR ''0'' \<and> z2 = CHR ''0'' then
                   (case (hex_value h, hex_value l) of
                      (Some hi, Some lo) \<Rightarrow> if hi < 8 then Some (char_of (16 * hi + lo), rest') else None
                    | _ \<Rightarrow> None)
                 else None)
            | _ \<Rightarrow> None)
         else None)"

fun json_body :: "nat \<Rightarrow> string \<Rightarrow> (string \<times> string) option" where
  "json_body 0 s = None"
| "json_body (Suc n) [] = None"
| "json_body (Suc n) (c # s) =
     (if c = CHR 0x22 then Some ([], s)
      else if c = CHR 0x5C then
        (case json_escape s of
           None \<Rightarrow> None
         | Some (x, rest) \<Rightarrow> map_option (\<lambda>(xs, rest'). (x # xs, rest')) (json_body n rest))
      else if (of_char c :: nat) < 32 then None
      else map_option (\<lambda>(xs, rest'). (c # xs, rest')) (json_body n s))"

definition expect :: "string \<Rightarrow> string \<Rightarrow> string option" where
  "expect p s = (if take (length p) s = p then Some (drop (length p) s) else None)"

definition read_string :: "string \<Rightarrow> (string \<times> string) option" where
  "read_string s = (case expect [CHR 0x22] s of None \<Rightarrow> None | Some rest \<Rightarrow> json_body (length rest) rest)"

definition unmarshal_pending :: "string \<Rightarrow> pendingPayload option" where
  "unmarshal_pending s =
     Option.bind (expect (''{'' @ json_string ''binding'' @ '':'') s) (\<lambda>s1.
     Option.bind (read_string s1) (\<lambda>(b, s2).
     Option.bind (expect ('','' @ json_string ''scope'' @ '':'') s2) (\<lambda>s3.
     Option.bind (read_string s3) (\<lambda>(sc, s4).
     if s4 = ''}'' then Some \<lparr>pendingPayload_Binding = b, pendingPayload_Scope = sc\<rparr> else None))))"

section \<open>The password step and its code\<close>

definition Factor :: "(bool \<times> string) dbop" where
  "Factor = query_row (\<lambda>d. map_option (\<lambda>a.
     (adm_totp_secret_sealed a \<noteq> None \<and> adm_totp_secret_sealed a \<noteq> Some '''', adm_password_hash a))
     (administrator d))"

definition BeginPending :: "string \<Rightarrow> string \<Rightarrow> string \<Rightarrow> gotime \<Rightarrow> unit dbop" where
  "BeginPending pendingHash passwordHash scope now =
     (let payload = marshal_pending \<lparr>pendingPayload_Binding = Hash passwordHash, pendingPayload_Scope = scope\<rparr>
      in transact (bind_tx (issue ''pending'' pendingHash pendingTTL codeTries None payload now) (\<lambda>_. ret ())))"

text \<open>
  \<^verbatim>\<open>time.Minute << (failures/5 - 1)\<close> is a shift of a signed 64-bit number: beyond seven doublings
  the comparison is not consulted, so a wrapped value is never used.
\<close>

definition lock_after :: "int \<Rightarrow> duration" where
  "lock_after failures =
     (let lock = sint (push_bit (nat (failures div 5 - 1)) (word_of_int minute :: 64 word))
      in if failures div 5 > 7 \<or> lock > hour then hour else lock)"

definition locked_until :: "int \<Rightarrow> gotime \<Rightarrow> int" where
  "locked_until failures now = (if failures mod 5 = 0 then unix (now + lock_after failures) else 0)"

definition count_failure :: "int \<Rightarrow> int \<Rightarrow> admin_row \<Rightarrow> admin_row" where
  "count_failure failures locked a = a\<lparr>adm_code_failures := failures,
     adm_code_locked_until := (if locked > 0 then locked else adm_code_locked_until a)\<rparr>"

definition wrong_code :: "int \<Rightarrow> gotime \<Rightarrow> unit dbop" where
  "wrong_code failures now =
     bind_tx (exec_affected (update_admin (\<lambda>_. True) (count_failure failures (locked_until failures now)))) (\<lambda>_.
     if failures mod 10 = 0 then
       RecordAlertEvent ''second_factor_failures'' (''second_factor_failures:'' @ format_rfc3339 now)
         ''Repeated wrong sign-in codes''
         ''Someone who knows the administrator password entered many wrong codes. If it was not you, change the password with pgfyctl reset-admin.'' now
     else ret ())"

definition accept_step :: "int \<Rightarrow> admin_row \<Rightarrow> admin_row" where
  "accept_step step a = a\<lparr>adm_totp_last_step := step, adm_code_failures := 0, adm_code_locked_until := 0\<rparr>"

definition password_step_counts :: "token \<Rightarrow> admin_row \<Rightarrow> string \<Rightarrow> bool" where
  "password_step_counts t a scope \<longleftrightarrow>
     (case unmarshal_pending (token_Payload t) of
        None \<Rightarrow> False
      | Some p \<Rightarrow> pendingPayload_Binding p = Hash (adm_password_hash a) \<and>
                  pendingPayload_Scope p = scope \<and> adm_totp_secret_sealed a \<noteq> None)"

definition confirm_code ::
  "token \<Rightarrow> admin_row \<Rightarrow> string \<Rightarrow> string \<Rightarrow> gotime \<Rightarrow> (string \<Rightarrow> int \<Rightarrow> err + int) \<Rightarrow> (err + string) dbop" where
  "confirm_code t a sessionHash scope now verify =
     (case verify (coalesce (adm_totp_secret_sealed a) '''') (adm_totp_last_step a) of
        Inl verr \<Rightarrow>
          then_tx (spendFailure t now) (
          then_tx (if verr = ErrCode then wrong_code (adm_code_failures a + 1) now else ret ()) (
          ret (Inl verr)))
      | Inr step \<Rightarrow>
          bind_tx (exec_affected (update_admin (\<lambda>a. adm_totp_last_step a < step) (accept_step step))) (\<lambda>n.
          if n \<noteq> 1 then ret (Inl ErrCodeReused)
          else then_tx (addSession sessionHash scope now) (
               then_tx (consume (token_ID t) now) (
               ret (Inr (adm_email a))))))"

definition ConfirmPending ::
  "string \<Rightarrow> string \<Rightarrow> string \<Rightarrow> gotime \<Rightarrow> (string \<Rightarrow> int \<Rightarrow> err + int) \<Rightarrow> string dbop" where
  "ConfirmPending pendingHash sessionHash scope now verify = transact_then (
     bind_tx (attempt (query_row administrator)) (\<lambda>r.
     case r of Inl _ \<Rightarrow> throw ErrToken | Inr a \<Rightarrow>
     if adm_code_locked_until a > unix now
     then throw (LockedError (adm_code_locked_until a - unix now))
     else bind_tx (attempt (use_token ''pending'' pendingHash now)) (\<lambda>r.
     case r of Inl _ \<Rightarrow> throw ErrToken | Inr t \<Rightarrow>
     if \<not> password_step_counts t a scope then stale t now
     else confirm_code t a sessionHash scope now verify)))"

definition Abandon :: "string \<Rightarrow> gotime \<Rightarrow> unit dbop" where
  "Abandon hash now = exec (\<lambda>d. d\<lparr>auth_tokens := update_where
     (\<lambda>r. tok_token_hash r = hash \<and> (tok_purpose r = ''pending'' \<or> tok_purpose r = ''enrol'') \<and>
        tok_consumed_at r = None)
     (\<lambda>r. r\<lparr>tok_consumed_at := Some (unix now)\<rparr>) (auth_tokens d)\<rparr>)"

text \<open>The read-only form of the checks; a query that fails leaves its variable at zero.\<close>

definition count_admins :: "int dbop" where
  "count_admins = bind_tx (attempt adminExists) (\<lambda>r.
     ret (case r of Inl _ \<Rightarrow> 0 | Inr exists \<Rightarrow> if exists then 1 else 0))"

definition newest_reset_id :: "int dbop" where
  "newest_reset_id = bind_tx (attempt (query newest_reset)) (\<lambda>r.
     ret (case r of Inl _ \<Rightarrow> 0 | Inr i \<Rightarrow> i))"

definition EnrolmentUsable :: "string \<Rightarrow> string \<Rightarrow> bool dbop" where
  "EnrolmentUsable enrolHash kind =
     bind_tx (attempt (query_row (\<lambda>d. map_option tok_parent_id
        (find (\<lambda>r. tok_token_hash r = enrolHash) (auth_tokens d))))) (\<lambda>r.
     case r of
       Inl _ \<Rightarrow> ret False
     | Inr parent \<Rightarrow>
         bind_tx count_admins (\<lambda>admins.
         if kind = ''setup'' then ret (admins = 0)
         else if kind = ''reset'' then
           bind_tx newest_reset_id (\<lambda>newest. ret (admins = 1 \<and> parent = Some newest))
         else ret True))"

definition AdminEmail :: "string dbop" where
  "AdminEmail = query_row (\<lambda>d. map_option adm_email (administrator d))"

section \<open>Passwords and sessions\<close>

definition SetupAvailable :: "bool dbop" where
  "SetupAvailable = query (\<lambda>d. administrator d = None)"

definition get_Password :: "string \<Rightarrow> string dbop" where
  "get_Password email = query_row (\<lambda>d. case administrator d of
     None \<Rightarrow> None | Some a \<Rightarrow> if adm_email a = email then Some (adm_password_hash a) else None)"

definition AddSession :: "string \<Rightarrow> string \<Rightarrow> string \<Rightarrow> gotime \<Rightarrow> unit dbop" where
  "AddSession token scope passwordHash now = transact (
     bind_tx (query_row administrator) (\<lambda>a.
     if adm_password_hash a \<noteq> passwordHash \<or>
        adm_totp_secret_sealed a \<noteq> None \<and> adm_totp_secret_sealed a \<noteq> Some ''''
     then throw ErrCredentialsChanged
     else then_tx (exec (drop_sessions scope now))
                  (exec_insert (insert_session (Hash token) scope now))))"

record Session =
  Session_Email :: string
  Session_ExpiresAt :: int
  Session_CSRF :: string
  Session_ClientIP :: string

definition get_Session :: "string \<Rightarrow> string \<Rightarrow> gotime \<Rightarrow> Session dbop" where
  "get_Session token scope now = query_row (\<lambda>d.
     case administrator d of None \<Rightarrow> None | Some a \<Rightarrow>
     map_option (\<lambda>s. \<lparr>Session_Email = adm_email a, Session_ExpiresAt = ses_expires_at s,
         Session_CSRF = '''', Session_ClientIP = ''''\<rparr>)
       (find (\<lambda>s. ses_token_hash s = Hash token \<and> ses_scope s = scope \<and> ses_expires_at s > unix now)
         (sessions d)))"

definition Logout :: "string \<Rightarrow> unit dbop" where
  "Logout token = exec (\<lambda>d. d\<lparr>sessions := delete_where (\<lambda>s. ses_token_hash s = Hash token) (sessions d)\<rparr>)"

section \<open>The payload round trip\<close>

lemma hex_value_digit: "n < 16 \<Longrightarrow> hex_value (hex_digit n) = Some n"
  by (simp add: hex_value_def hex_digit_def)

lemma json_escape_char:
  fixes c :: char
  defines "n \<equiv> (of_char c :: nat)"
  assumes "n < 32 \<or> n = 34 \<or> n = 92 \<or> n = 60 \<or> n = 62 \<or> n = 38"
  obtains e where "json_char c = CHR 0x5C # e" "json_escape (e @ s) = Some (c, s)"
proof -
  have c: "c = char_of n" by (simp add: n_def)
  have lt: "n < 256" by (simp add: n_def)
  consider "n = 34 \<or> n = 92 \<or> n = 8 \<or> n = 12 \<or> n = 10 \<or> n = 13 \<or> n = 9"
    | "n < 32 \<or> n = 60 \<or> n = 62 \<or> n = 38" "n \<notin> {34, 92, 8, 12, 10, 13, 9}"
    using assms(2) by auto
  then show thesis
  proof cases
    case 1
    then have "\<exists>e. json_char (char_of n) = CHR 0x5C # e \<and> json_escape (e @ s) = Some (char_of n, s)"
      by (elim disjE) (simp_all add: json_char_def json_escape_def Let_def char_of_def bit_0)
    then show thesis using that unfolding c by blast
  next
    case 2
    have hi: "n div 16 < 16" "n mod 16 < 16" "n div 16 < 8" using 2 by auto
    have "json_char c = CHR 0x5C # ''u00'' @ [hex_digit (n div 16), hex_digit (n mod 16)]"
      using 2 by (auto simp: json_char_def n_def [symmetric] Let_def)
    moreover have "json_escape ((''u00'' @ [hex_digit (n div 16), hex_digit (n mod 16)]) @ s) = Some (c, s)"
      using hi by (simp add: json_escape_def hex_value_digit c)
    ultimately show thesis by (rule that)
  qed
qed

lemma json_body_char:
  "json_body (Suc n) (json_char c @ s) = map_option (\<lambda>(xs, rest). (c # xs, rest)) (json_body n s)"
proof (cases "(of_char c :: nat) < 32 \<or> (of_char c :: nat) \<in> {34, 92, 60, 62, 38}")
  case True
  then obtain e where "json_char c = CHR 0x5C # e" "json_escape (e @ s) = Some (c, s)"
    using json_escape_char [of c s] by auto
  then show ?thesis by simp
next
  case False
  then have "json_char c = [c]" by (simp add: json_char_def Let_def)
  moreover have "c \<noteq> CHR 0x22" "c \<noteq> CHR 0x5C" using False by auto
  ultimately show ?thesis using False by simp
qed

lemma json_char_not_Nil: "json_char c \<noteq> []"
  by (simp add: json_char_def Let_def)

lemma json_body_string:
  "length s < n \<Longrightarrow> json_body n (concat (map json_char s) @ CHR 0x22 # rest) = Some (s, rest)"
proof (induction s arbitrary: n)
  case Nil
  then show ?case by (cases n) auto
next
  case (Cons c s)
  then obtain m where m: "n = Suc m" "length s < m" by (cases n) auto
  with Cons.IH [OF m(2)] show ?case by (simp add: json_body_char)
qed

lemma length_json: "length s \<le> length (concat (map json_char s))"
proof (induction s)
  case (Cons c s)
  moreover have "Suc 0 \<le> length (json_char c)" by (simp add: Suc_le_eq json_char_not_Nil)
  ultimately show ?case by simp
qed simp

lemma expect_append: "expect p (p @ s) = Some s"
  by (simp add: expect_def)

lemma read_json_string: "read_string (json_string s @ rest) = Some (s, rest)"
proof -
  define tail where "tail = concat (map json_char s) @ CHR 0x22 # rest"
  have "expect [CHR 0x22] (json_string s @ rest) = Some tail"
    by (simp add: expect_def json_string_def tail_def)
  moreover have "length s < length tail" using length_json [of s] by (simp add: tail_def)
  ultimately show ?thesis unfolding read_string_def tail_def by (simp add: json_body_string)
qed

lemma unmarshal_marshal: "unmarshal_pending (marshal_pending p) = Some p"
proof -
  define b where "b = ''{'' @ json_string ''binding'' @ '':''"
  define c where "c = '','' @ json_string ''scope'' @ '':''"
  define B where "B = json_string (pendingPayload_Binding p)"
  define S where "S = json_string (pendingPayload_Scope p)"
  have "marshal_pending p = b @ B @ c @ S @ ''}''"
    unfolding marshal_pending_def b_def c_def B_def S_def append_assoc ..
  then show ?thesis
    unfolding unmarshal_pending_def b_def [symmetric] c_def [symmetric]
    by (simp add: expect_append read_json_string B_def S_def)
qed

section \<open>Interface: invariants of sign-in\<close>

text \<open>
  Every operation of this component changes the token table only by pruning rows, inserting a new
  token, spending one attempt of a live token, and marking tokens consumed, and the administrator
  only by storing a row. A property that those steps keep is kept by every operation, whatever
  fails on the way.
\<close>

inductive auth_run :: "db \<Rightarrow> db \<Rightarrow> bool" for d where
  ar_start: "auth_run d d"
| ar_setup_token: "auth_run d d1 \<Longrightarrow> auth_run d (leaves (NewSetupToken plain now) (d1, fs))"
| ar_setup: "auth_run d d1 \<Longrightarrow>
    auth_run d (leaves (Setup setupToken email passwordHash sessionHash scope now) (d1, fs))"
| ar_enrol: "auth_run d d1 \<Longrightarrow> auth_run d (leaves (BeginEnrolment setupToken enrolHash sealed now) (d1, fs))"
| ar_upgrade: "auth_run d d1 \<Longrightarrow> auth_run d (leaves (BeginUpgrade enrolHash sealed now) (d1, fs))"
| ar_reset_token: "auth_run d d1 \<Longrightarrow> auth_run d (leaves (NewResetToken plain now) (d1, fs))"
| ar_reset: "auth_run d d1 \<Longrightarrow> auth_run d (leaves (BeginReset resetToken enrolHash sealed now) (d1, fs))"
| ar_confirm: "auth_run d d1 \<Longrightarrow>
    auth_run d (leaves (ConfirmEnrolment enrolHash sessionHash scope requestID now verify) (d1, fs))"
| ar_pending: "auth_run d d1 \<Longrightarrow>
    auth_run d (leaves (BeginPending pendingHash passwordHash scope now) (d1, fs))"
| ar_code: "auth_run d d1 \<Longrightarrow>
    auth_run d (leaves (ConfirmPending pendingHash sessionHash scope now check) (d1, fs))"
| ar_abandon: "auth_run d d1 \<Longrightarrow> auth_run d (leaves (Abandon hash now) (d1, fs))"
| ar_session: "auth_run d d1 \<Longrightarrow> auth_run d (leaves (AddSession tok scope passwordHash now) (d1, fs))"
| ar_logout: "auth_run d d1 \<Longrightarrow> auth_run d (leaves (Logout tok) (d1, fs))"

locale auth_invariant =
  fixes I :: "db \<Rightarrow> bool"
  assumes tokens_pruned: "I d \<Longrightarrow> I (d\<lparr>auth_tokens := delete_tokens P (auth_tokens d)\<rparr>)"
    and token_inserted: "I d \<Longrightarrow> 0 < mx \<Longrightarrow>
      insert_token purpose hash ttl mx parent payload now d = Inr (i, d') \<Longrightarrow> I d'"
    and token_spent: "I d \<Longrightarrow>
      I (d\<lparr>auth_tokens := update_where (live_token purpose hash now) spend_attempt (auth_tokens d)\<rparr>)"
    and tokens_consumed: "I d \<Longrightarrow>
      I (d\<lparr>auth_tokens := update_where Q (\<lambda>r. r\<lparr>tok_consumed_at := Some t\<rparr>) (auth_tokens d)\<rparr>)"
    and admin_stored: "I d \<Longrightarrow> I (d\<lparr>administrator := Some a\<rparr>)"
    and elsewhere: "I d \<Longrightarrow> auth_tokens d' = auth_tokens d \<Longrightarrow>
      auth_tokens_seq d' = auth_tokens_seq d \<Longrightarrow> administrator d' = administrator d \<Longrightarrow> I d'"
begin

lemma keeps_issue: "0 < mx \<Longrightarrow> keeps I (issue purpose hash ttl mx parent payload now)"
  unfolding issue_def by (intro tx_keeps) (auto intro: tokens_pruned token_inserted)

lemma keeps_use_token: "keeps I (use_token purpose hash now)"
  unfolding use_token_def by (intro tx_keeps) (auto intro: token_spent)

lemma keeps_consume: "keeps I (consume i now)"
  unfolding consume_def consume_row_def by (intro tx_keeps tokens_consumed)

lemma keeps_spendFailure: "keeps I (spendFailure t now)"
  unfolding spendFailure_def by (intro tx_keeps keeps_consume)

lemma keeps_stale: "keeps I (stale t now)"
  unfolding stale_def by (intro tx_keeps keeps_consume)

lemma keeps_insert_session: "keeps I (exec_insert (insert_session h scope now))"
  by (intro tx_keeps)
    (auto simp: insert_session_def split: if_splits elim!: elsewhere)

lemma keeps_drop_sessions: "keeps I (exec (drop_sessions scope now))"
  by (intro tx_keeps) (auto simp: drop_sessions_def elim!: elsewhere)

lemma keeps_addSession: "keeps I (addSession h scope now)"
  unfolding addSession_def by (intro tx_keeps keeps_drop_sessions keeps_insert_session)

lemma keeps_adminExists: "keeps I adminExists"
  unfolding adminExists_def by (intro tx_keeps)

lemma keeps_spend_setup_token: "keeps I (spend_setup_token setupToken now)"
  unfolding spend_setup_token_def by (intro tx_keeps keeps_use_token keeps_adminExists)

lemma keeps_insert_admin: "keeps I (exec_insert (insert_admin row))"
  by (intro tx_keeps) (auto simp: insert_admin_def split: if_splits intro: admin_stored)

lemma keeps_update_admin: "keeps I (exec_affected (update_admin P f))"
  by (intro tx_keeps) (auto simp: update_admin_def split: option.split intro: admin_stored)

lemma keeps_event: "keeps I (RecordAlertEvent kind key summary detail now)"
  unfolding RecordAlertEvent_def
  by (intro tx_keeps) (auto simp: new_event_def elim!: elsewhere)

lemma keeps_audit: "keeps I (audit entry)"
  unfolding audit_def by (intro tx_keeps) (auto simp: audited_def elim!: elsewhere)

lemma keeps_retire_resets: "keeps I (exec (retire_resets now))"
  unfolding retire_resets_def by (intro tx_keeps tokens_consumed)

lemma keeps_drop_other_tokens: "keeps I (exec (drop_other_tokens t))"
  unfolding drop_other_tokens_def by (intro tx_keeps tokens_pruned)

lemma keeps_clear_sessions: "keeps I (exec (\<lambda>d. d\<lparr>sessions := []\<rparr>))"
  by (intro tx_keeps) (auto elim!: elsewhere)

lemma keeps_NewSetupToken: "keeps I (NewSetupToken plain now)"
  unfolding NewSetupToken_def
  by (intro tx_keeps keeps_issue keeps_adminExists)
    (auto simp: take_setup_lock_def elim!: elsewhere)

lemma keeps_Setup: "keeps I (Setup setupToken email passwordHash sessionHash scope now)"
  unfolding Setup_def
  by (intro keeps_transact_body keeps_bind keeps_then keeps_spend_setup_token keeps_insert_admin
      keeps_consume keeps_addSession)

lemma keeps_BeginEnrolment: "keeps I (BeginEnrolment setupToken enrolHash sealed now)"
  unfolding BeginEnrolment_def
  by (intro tx_keeps keeps_spend_setup_token keeps_consume keeps_issue) (simp add: codeTries_def)

lemma keeps_BeginUpgrade: "keeps I (BeginUpgrade enrolHash sealed now)"
  unfolding BeginUpgrade_def by (intro tx_keeps keeps_issue) (simp add: codeTries_def)

lemma keeps_NewResetToken: "keeps I (NewResetToken plain now)"
  unfolding NewResetToken_def
  by (intro keeps_transact_body keeps_bind keeps_if keeps_then keeps_throw keeps_ret keeps_issue
      keeps_adminExists keeps_retire_resets) simp

lemma keeps_BeginReset: "keeps I (BeginReset resetToken enrolHash sealed now)"
  unfolding BeginReset_def
  by (intro tx_keeps keeps_use_token keeps_consume keeps_issue) (simp add: codeTries_def)

lemma keeps_BeginPending: "keeps I (BeginPending pendingHash passwordHash scope now)"
  unfolding BeginPending_def Let_def by (intro tx_keeps keeps_issue) (simp add: codeTries_def)

lemma keeps_finish_enrolment: "keeps I (finish_enrolment t kind sessionHash scope requestID now)"
  unfolding finish_enrolment_def Let_def
  by (intro keeps_then keeps_bind keeps_query_row keeps_ret keeps_audit keeps_event keeps_addSession
      keeps_consume)

lemma keeps_confirm_kind:
  assumes "keeps I finish"
  shows "keeps I (confirm_kind t c parentPurpose exists scope now finish)"
  unfolding confirm_kind_def confirm_upgrade_def confirm_reset_def
  by (intro keeps_if keeps_then keeps_bind keeps_attempt keeps_result keeps_query_row keeps_query keeps_throw
      keeps_maintenance keeps_stale keeps_insert_admin keeps_update_admin keeps_retire_resets
      keeps_clear_sessions keeps_drop_other_tokens assms)

lemma keeps_ConfirmEnrolment:
  "keeps I (ConfirmEnrolment enrolHash sessionHash scope requestID now verify)"
  unfolding ConfirmEnrolment_def confirm_verified_def parent_purpose_def
  by (intro keeps_transact_then keeps_bind keeps_attempt keeps_result keeps_option keeps_throw keeps_then
      keeps_ret keeps_query keeps_use_token keeps_spendFailure keeps_adminExists keeps_confirm_kind
      keeps_finish_enrolment)

lemma keeps_ConfirmPending: "keeps I (ConfirmPending pendingHash sessionHash scope now check)"
  unfolding ConfirmPending_def confirm_code_def wrong_code_def
  by (intro keeps_transact_then keeps_bind keeps_attempt keeps_result keeps_throw keeps_if keeps_then
      keeps_ret keeps_query_row keeps_use_token keeps_stale keeps_spendFailure keeps_update_admin
      keeps_event keeps_addSession keeps_consume)

lemma keeps_Abandon: "keeps I (Abandon hash now)"
  unfolding Abandon_def by (intro tx_keeps tokens_consumed)

lemma keeps_AddSession: "keeps I (AddSession tok scope passwordHash now)"
  unfolding AddSession_def
  by (intro keeps_transact_body keeps_bind keeps_query_row keeps_if keeps_throw keeps_then
      keeps_drop_sessions keeps_insert_session)

lemma keeps_Logout: "keeps I (Logout tok)"
  unfolding Logout_def by (intro tx_keeps) (auto elim!: elsewhere)

lemma auth_run_keeps: "auth_run d d' \<Longrightarrow> I d \<Longrightarrow> I d'"
  by (induction rule: auth_run.induct)
    (simp_all add: keepsD [OF keeps_NewSetupToken] keepsD [OF keeps_Setup]
      keepsD [OF keeps_BeginEnrolment] keepsD [OF keeps_BeginUpgrade] keepsD [OF keeps_NewResetToken]
      keepsD [OF keeps_BeginReset] keepsD [OF keeps_ConfirmEnrolment] keepsD [OF keeps_BeginPending]
      keepsD [OF keeps_ConfirmPending] keepsD [OF keeps_Abandon] keepsD [OF keeps_AddSession]
      keepsD [OF keeps_Logout])

end

subsection \<open>Attempts, keys and spent tokens\<close>

definition attempts_bounded :: "db \<Rightarrow> bool" where
  "attempts_bounded d \<longleftrightarrow>
     list_all (\<lambda>r. 0 \<le> tok_attempts r \<and> tok_attempts r \<le> tok_max_attempts r) (auth_tokens d)"

definition tokens_keyed :: "db \<Rightarrow> bool" where
  "tokens_keyed d \<longleftrightarrow> distinct (map tok_token_hash (auth_tokens d)) \<and> distinct (map tok_id (auth_tokens d)) \<and>
     list_all (\<lambda>r. tok_id r < auth_tokens_seq d) (auth_tokens d)"

text \<open>The token numbered \<open>i\<close> was used up: no row of that number is open any more.\<close>

definition used_up :: "int \<Rightarrow> db \<Rightarrow> bool" where
  "used_up i d \<longleftrightarrow> i < auth_tokens_seq d \<and>
     list_all (\<lambda>r. tok_id r \<noteq> i \<or> tok_consumed_at r \<noteq> None) (auth_tokens d)"

lemma map_delete_tokens:
  "(\<And>r. key (r\<lparr>tok_parent_id := None\<rparr>) = key r) \<Longrightarrow>
     map key (delete_tokens P rows) = map key (delete_where P rows)"
  unfolding delete_tokens_def Let_def by (rule map_update_where)

lemma all_delete_tokens:
  "(\<And>r. Q (r\<lparr>tok_parent_id := None\<rparr>) = Q r) \<Longrightarrow> list_all Q rows \<Longrightarrow> list_all Q (delete_tokens P rows)"
  unfolding delete_tokens_def Let_def list_all_iff ball_update_where by simp

lemma insert_token_Inr:
  "insert_token purpose hash ttl mx parent payload now d = Inr (i, d') \<longleftrightarrow>
     i = auth_tokens_seq d \<and> hash \<notin> tok_token_hash ` set (auth_tokens d) \<and>
     (\<forall>p. parent = Some p \<longrightarrow> p \<in> tok_id ` set (auth_tokens d)) \<and>
     purpose \<in> {''setup'', ''reset'', ''enrol'', ''pending''} \<and>
     d' = d\<lparr>auth_tokens := auth_tokens d @ [new_token purpose hash ttl mx parent payload now i],
            auth_tokens_seq := auth_tokens_seq d + 1\<rparr>"
  by (cases parent) (auto simp: insert_token_def list_ex_key)

interpretation bounded_attempts: auth_invariant attempts_bounded
proof
  show "attempts_bounded (d\<lparr>auth_tokens := delete_tokens P (auth_tokens d)\<rparr>)"
    if "attempts_bounded d" for d P
    using that by (simp add: attempts_bounded_def all_delete_tokens)
qed (auto simp: attempts_bounded_def insert_token_Inr new_token_def list_all_iff ball_update_where
    live_token_def spend_attempt_def)

interpretation keyed_tokens: auth_invariant tokens_keyed
proof
  show "tokens_keyed (d\<lparr>auth_tokens := delete_tokens P (auth_tokens d)\<rparr>)" if "tokens_keyed d" for d P
    using that
    by (simp add: tokens_keyed_def all_delete_tokens map_delete_tokens distinct_map_delete_where)
qed (auto simp: tokens_keyed_def insert_token_Inr new_token_def list_all_iff ball_update_where
    spend_attempt_def map_update_where)

interpretation spent_token: auth_invariant "used_up i" for i
proof
  show "used_up i (d\<lparr>auth_tokens := delete_tokens P (auth_tokens d)\<rparr>)" if "used_up i d" for d P
    using that by (simp add: used_up_def all_delete_tokens)
qed (auto simp: used_up_def insert_token_Inr new_token_def list_all_iff ball_update_where spend_attempt_def)

interpretation administered: auth_invariant "\<lambda>d. administrator d \<noteq> None"
  by unfold_locales (auto simp: insert_token_Inr)

section \<open>Lemmas on the operations\<close>

lemma use_token_row:
  assumes "use_token purpose hash now (d, fs) = (Inr t, s1)" and "tokens_keyed d"
  obtains r where "r \<in> set (auth_tokens d)" "live_token purpose hash now r"
    "t = scan_token (spend_attempt r)"
    "fst s1 = d\<lparr>auth_tokens := update_where (live_token purpose hash now) spend_attempt (auth_tokens d)\<rparr>"
proof -
  define d1 where
    "d1 = d\<lparr>auth_tokens := update_where (live_token purpose hash now) spend_attempt (auth_tokens d)\<rparr>"
  from assms(1) have n: "count_where (live_token purpose hash now) (auth_tokens d) = 1"
    and t: "map_option scan_token (find (\<lambda>r. tok_token_hash r = hash) (auth_tokens d1)) = Some t"
    and s1: "fst s1 = d1"
    by (auto simp: use_token_def tx_simps d1_def)
  from n obtain r where r: "r \<in> set (auth_tokens d)" "live_token purpose hash now r"
    using count_where_pos [of "live_token purpose hash now" "auth_tokens d"] by auto
  then have hash: "tok_token_hash r = hash" by (simp add: live_token_def)
  have "find (\<lambda>r. tok_token_hash r = hash) (auth_tokens d) = Some r"
    using find_key_unique [of tok_token_hash "auth_tokens d" r] assms(2) r(1) hash
    by (simp add: tokens_keyed_def)
  then have "find (\<lambda>r. tok_token_hash r = hash) (auth_tokens d1) = Some (spend_attempt r)"
    using r(2) by (simp add: d1_def find_update_where spend_attempt_def)
  with t r s1 show thesis by (auto simp: d1_def intro: that)
qed

lemma addSession_Inr:
  "addSession h scope now (d, fs) = (Inr u, s1) \<Longrightarrow>
     administrator d \<noteq> None \<and> fst s1 = d\<lparr>sessions :=
       delete_where (\<lambda>s. ses_expires_at s \<le> unix now \<or> ses_scope s \<noteq> scope) (sessions d) @
       [\<lparr>ses_token_hash = h, ses_scope = scope, ses_expires_at = unix (now + sessionTTL)\<rparr>]\<rparr>"
  by (auto simp: addSession_def tx_simps insert_session_def drop_sessions_def split: if_splits)

lemma consume_Inr:
  "consume i now s = (Inr u, s1) \<longleftrightarrow>
     \<not> fails_now (snd s) \<and> s1 = ((fst s)\<lparr>auth_tokens := consume_row i now (auth_tokens (fst s))\<rparr>, tl (snd s))"
  by (auto simp: consume_def exec_Inr)

lemma used_up_consumed:
  "i < auth_tokens_seq d \<Longrightarrow> used_up i (d\<lparr>auth_tokens := consume_row i now (auth_tokens d)\<rparr>)"
  by (simp add: used_up_def consume_row_def list_all_iff ball_update_where)

lemma update_admin_Some:
  "administrator d = Some a \<Longrightarrow>
     update_admin P f d = (if P a then (1, d\<lparr>administrator := Some (f a)\<rparr>) else (0, d))"
  by (simp add: update_admin_def)

text \<open>An accepted code: what was checked and what the transaction leaves.\<close>

lemma confirm_code_accepts:
  assumes "confirm_code t a sessionHash scope now check (d, fs) = (Inr (Inr email), s1)"
    and "administrator d = Some a"
  obtains step where "check (coalesce (adm_totp_secret_sealed a) '''') (adm_totp_last_step a) = Inr step"
    "adm_totp_last_step a < step" "email = adm_email a"
    "fst s1 = d\<lparr>administrator := Some (accept_step step a), sessions :=
       delete_where (\<lambda>s. ses_expires_at s \<le> unix now \<or> ses_scope s \<noteq> scope) (sessions d) @
       [\<lparr>ses_token_hash = sessionHash, ses_scope = scope, ses_expires_at = unix (now + sessionTTL)\<rparr>],
       auth_tokens := consume_row (token_ID t) now (auth_tokens d)\<rparr>"
proof -
  from assms(1) obtain step where
    ok: "check (coalesce (adm_totp_secret_sealed a) '''') (adm_totp_last_step a) = Inr step"
    by (auto simp: confirm_code_def tx_simps split: sum.splits)
  from assms obtain fs2 s3 where step: "adm_totp_last_step a < step"
    and s: "addSession sessionHash scope now (d\<lparr>administrator := Some (accept_step step a)\<rparr>, fs2) = (Inr (), s3)"
    and c: "consume (token_ID t) now s3 = (Inr (), s1)" and email: "email = adm_email a"
    by (auto simp: confirm_code_def ok tx_simps update_admin_Some split: if_splits)
  from addSession_Inr [OF s] have "fst s3 = d\<lparr>administrator := Some (accept_step step a), sessions :=
       delete_where (\<lambda>s. ses_expires_at s \<le> unix now \<or> ses_scope s \<noteq> scope) (sessions d) @
       [\<lparr>ses_token_hash = sessionHash, ses_scope = scope, ses_expires_at = unix (now + sessionTTL)\<rparr>]\<rparr>"
    by simp
  then show thesis using ok email step c that [of step] by (simp add: consume_Inr)
qed

lemma ConfirmPending_accepts:
  assumes "returns (ConfirmPending pendingHash sessionHash scope now check) (d, fs) email d1"
    and "tokens_keyed d"
  obtains a r step where "administrator d = Some a" "adm_code_locked_until a \<le> unix now"
    "r \<in> set (auth_tokens d)" "live_token ''pending'' pendingHash now r"
    "password_step_counts (scan_token r) a scope"
    "check (coalesce (adm_totp_secret_sealed a) '''') (adm_totp_last_step a) = Inr step"
    "adm_totp_last_step a < step" "email = adm_email a"
    "administrator d1 = Some (accept_step step a)"
    "sessions d1 = delete_where (\<lambda>s. ses_expires_at s \<le> unix now \<or> ses_scope s \<noteq> scope) (sessions d) @
       [\<lparr>ses_token_hash = sessionHash, ses_scope = scope, ses_expires_at = unix (now + sessionTTL)\<rparr>]"
    "used_up (tok_id r) d1"
proof -
  from assms(1) obtain a t fs1 s2 s3 where a: "administrator d = Some a"
    and lock: "adm_code_locked_until a \<le> unix now"
    and u: "use_token ''pending'' pendingHash now (d, fs1) = (Inr t, s2)"
    and ok: "password_step_counts t a scope"
    and c: "confirm_code t a sessionHash scope now check s2 = (Inr (Inr email), s3)"
    and d1: "fst s3 = d1"
    by (auto simp: ConfirmPending_def returns_iff tx_simps stale_def not_less split: sum.splits if_splits)
  obtain r where r: "r \<in> set (auth_tokens d)" "live_token ''pending'' pendingHash now r"
    and t: "t = scan_token (spend_attempt r)"
    and d2: "fst s2 = d\<lparr>auth_tokens := update_where (live_token ''pending'' pendingHash now)
        spend_attempt (auth_tokens d)\<rparr>"
    using use_token_row [OF u assms(2)] .
  have adm: "administrator (fst s2) = Some a" using a d2 by simp
  have c': "confirm_code t a sessionHash scope now check (fst s2, snd s2) = (Inr (Inr email), s3)"
    using c by simp
  obtain step where step: "check (coalesce (adm_totp_secret_sealed a) '''') (adm_totp_last_step a) = Inr step"
    "adm_totp_last_step a < step" "email = adm_email a"
    and d1': "fst s3 = (fst s2)\<lparr>administrator := Some (accept_step step a), sessions :=
       delete_where (\<lambda>s. ses_expires_at s \<le> unix now \<or> ses_scope s \<noteq> scope) (sessions (fst s2)) @
       [\<lparr>ses_token_hash = sessionHash, ses_scope = scope, ses_expires_at = unix (now + sessionTTL)\<rparr>],
       auth_tokens := consume_row (token_ID t) now (auth_tokens (fst s2))\<rparr>"
    using confirm_code_accepts [OF c' adm] .
  have "password_step_counts (scan_token r) a scope"
    using ok by (simp add: t password_step_counts_def scan_token_def spend_attempt_def)
  moreover have "used_up (tok_id r) d1"
  proof -
    have "tok_id r < auth_tokens_seq d" using assms(2) r(1) by (auto simp: tokens_keyed_def list_all_iff)
    then show ?thesis
      unfolding d1 [symmetric] d1' t
      by (simp add: used_up_def d2 scan_token_def spend_attempt_def consume_row_def list_all_iff
          ball_update_where)
  qed
  moreover have "administrator d1 = Some (accept_step step a)" "sessions d1 =
      delete_where (\<lambda>s. ses_expires_at s \<le> unix now \<or> ses_scope s \<noteq> scope) (sessions d) @
      [\<lparr>ses_token_hash = sessionHash, ses_scope = scope, ses_expires_at = unix (now + sessionTTL)\<rparr>]"
    unfolding d1 [symmetric] d1' d2 by simp_all
  ultimately show thesis
    using that [of a r step] a lock r step by simp
qed

lemma live_not_used_up: "used_up i d \<Longrightarrow> r \<in> set (auth_tokens d) \<Longrightarrow> tok_id r = i \<Longrightarrow> \<not> live_token purpose hash now r"
  by (auto simp: used_up_def live_token_def list_all_iff)

text \<open>The steps that a series of sign-in attempts had accepted, in order.\<close>

definition last_step :: "db \<Rightarrow> int" where
  "last_step d = (case administrator d of None \<Rightarrow> 0 | Some a \<Rightarrow> adm_totp_last_step a)"

fun accepted_steps ::
  "(string \<times> string \<times> string \<times> gotime \<times> (string \<Rightarrow> int \<Rightarrow> err + int) \<times> bool list) list \<Rightarrow> db \<Rightarrow> int list" where
  "accepted_steps [] d = []"
| "accepted_steps ((pendingHash, sessionHash, scope, now, check, fs) # es) d =
     (let op = ConfirmPending pendingHash sessionHash scope now check; d' = leaves op (d, fs)
      in (if succeeds op (d, fs) then [last_step d'] else []) @ accepted_steps es d')"

lemma keeps_session: "(\<And>d f. I (sessions_update f d) = I d) \<Longrightarrow> keeps I (addSession h scope now)"
  unfolding addSession_def
  by (intro tx_keeps) (auto simp: drop_sessions_def insert_session_def split: if_splits)

lemma keeps_last_step: "keeps (\<lambda>d. n \<le> last_step d) (ConfirmPending pendingHash sessionHash scope now check)"
  unfolding ConfirmPending_def confirm_code_def wrong_code_def stale_def spendFailure_def consume_def
    use_token_def RecordAlertEvent_def
  by (intro keeps_transact_then keeps_bind keeps_attempt keeps_result keeps_throw keeps_if keeps_then
      keeps_ret keeps_query_row keeps_exec keeps_exec_affected keeps_session)
    (auto simp: last_step_def update_admin_def count_failure_def accept_step_def new_event_def
      split: option.splits)

lemma ConfirmPending_step:
  assumes "returns (ConfirmPending pendingHash sessionHash scope now check) (d, fs) email d1"
  shows "last_step d < last_step d1"
proof -
  from assms obtain a t fs1 s2 s3 where a: "administrator d = Some a"
    and u: "use_token ''pending'' pendingHash now (d, fs1) = (Inr t, s2)"
    and c: "confirm_code t a sessionHash scope now check (fst s2, snd s2) = (Inr (Inr email), s3)"
    and d1: "fst s3 = d1"
    by (auto simp: ConfirmPending_def returns_iff tx_simps stale_def not_less split: sum.splits if_splits)
  have adm: "administrator (fst s2) = Some a" using a u by (auto simp: use_token_def tx_simps)
  show ?thesis
    by (rule confirm_code_accepts [OF c adm]) (simp add: last_step_def a d1 [symmetric] accept_step_def)
qed

lemma lock_after_doubles:
  assumes "0 < k"
  shows "lock_after (5 * k) = (if k \<le> 6 then 2 ^ nat (k - 1) * minute else hour)"
proof (cases "k \<le> 7")
  case True
  with assms have "k \<in> {1, 2, 3, 4, 5, 6, 7}" by auto
  moreover have "lock_after 5 = minute" "lock_after 10 = 2 * minute" "lock_after 15 = 4 * minute"
    "lock_after 20 = 8 * minute" "lock_after 25 = 16 * minute" "lock_after 30 = 32 * minute"
    "lock_after 35 = hour"
    by code_simp+
  ultimately show ?thesis by auto
next
  case False
  then show ?thesis by (simp add: lock_after_def Let_def)
qed

lemma consume_scan:
  assumes "tokens_keyed d" "r \<in> set (auth_tokens d)" "live_token purpose hash now r"
  defines "spent \<equiv> update_where (live_token purpose hash now) spend_attempt (auth_tokens d)"
  shows "spend_attempt r \<in> set spent"
    "r\<lparr>tok_attempts := tok_attempts r + 1, tok_consumed_at := Some (unix now)\<rparr> \<in>
      set (consume_row (tok_id r) now spent)"
proof -
  show s: "spend_attempt r \<in> set spent"
    using assms(2,3) by (auto simp: spent_def in_update_where)
  show "r\<lparr>tok_attempts := tok_attempts r + 1, tok_consumed_at := Some (unix now)\<rparr> \<in>
      set (consume_row (tok_id r) now spent)"
    unfolding consume_row_def set_update_where
    by (rule rev_image_eqI [OF s]) (simp add: spend_attempt_def)
qed

lemma wrong_code_Inr:
  "wrong_code failures now (d, fs) = (Inr u, s1) \<Longrightarrow> administrator d = Some a \<Longrightarrow>
     administrator (fst s1) = Some (count_failure failures (locked_until failures now) a) \<and>
     sessions (fst s1) = sessions d \<and> auth_tokens (fst s1) = auth_tokens d \<and>
     length (alert_events (fst s1)) = length (alert_events d) + (if failures mod 10 = 0 then 1 else 0)"
  by (auto simp: wrong_code_def tx_simps update_admin_Some RecordAlertEvent_def new_event_def split: if_splits)

lemma spendFailure_Inr:
  "spendFailure t now (d, fs) = (Inr u, s1) \<Longrightarrow>
     fst s1 = d\<lparr>auth_tokens := (if token_Attempts t \<ge> token_Max t
       then consume_row (token_ID t) now (auth_tokens d) else auth_tokens d)\<rparr>"
  by (auto simp: spendFailure_def consume_Inr ret_Inr split: if_splits)

lemma ConfirmPending_wrong_code:
  assumes "fails (ConfirmPending pendingHash sessionHash scope now check) (d, fs) ErrCode d1"
    and "tokens_keyed d" and "administrator d = Some a"
  obtains r d3 fs3 fs4 where "r \<in> set (auth_tokens d)" "live_token ''pending'' pendingHash now r"
    "d3 = d\<lparr>auth_tokens :=
       (let spent = update_where (live_token ''pending'' pendingHash now) spend_attempt (auth_tokens d)
        in if tok_attempts r + 1 \<ge> tok_max_attempts r then consume_row (tok_id r) now spent else spent)\<rparr>"
    "wrong_code (adm_code_failures a + 1) now (d3, fs3) = (Inr (), (d1, fs4))"
proof -
  have "avoids ErrCode (bind_tx (attempt (query_row administrator)) (\<lambda>r.
     case r of Inl _ \<Rightarrow> throw ErrToken | Inr a \<Rightarrow>
     if adm_code_locked_until a > unix now
     then throw (LockedError (adm_code_locked_until a - unix now))
     else bind_tx (attempt (use_token ''pending'' pendingHash now)) (\<lambda>r.
     case r of Inl _ \<Rightarrow> throw ErrToken | Inr t \<Rightarrow>
     if \<not> password_step_counts t a scope then stale t now
     else confirm_code t a sessionHash scope now check)))"
    unfolding confirm_code_def stale_def consume_def spendFailure_def wrong_code_def addSession_def
      RecordAlertEvent_def
    by (intro tx_avoids) (simp_all add: own_error_def)
  then obtain t fs1 s2 fs2 where
    u: "use_token ''pending'' pendingHash now (d, fs1) = (Inr t, s2)"
    and c: "confirm_code t a sessionHash scope now check (fst s2, snd s2) = (Inr (Inl ErrCode), (d1, fs2))"
    using assms(1) unfolding ConfirmPending_def
    by (elim transact_then_fails)
      (auto simp: own_error_def tx_simps stale_def assms(3) split: sum.splits if_splits)
  obtain r where r: "r \<in> set (auth_tokens d)" "live_token ''pending'' pendingHash now r"
    and t: "t = scan_token (spend_attempt r)"
    and d2: "fst s2 = d\<lparr>auth_tokens := update_where (live_token ''pending'' pendingHash now)
        spend_attempt (auth_tokens d)\<rparr>"
    using use_token_row [OF u assms(2)] .
  from c obtain s3 where sf: "spendFailure t now (fst s2, snd s2) = (Inr (), s3)"
    and w: "wrong_code (adm_code_failures a + 1) now (fst s3, snd s3) = (Inr (), (d1, fs2))"
    by (auto simp: confirm_code_def tx_simps split: sum.splits if_splits)
  have "fst s3 = d\<lparr>auth_tokens :=
       (let spent = update_where (live_token ''pending'' pendingHash now) spend_attempt (auth_tokens d)
        in if tok_attempts r + 1 \<ge> tok_max_attempts r then consume_row (tok_id r) now spent else spent)\<rparr>"
    using spendFailure_Inr [OF sf] by (simp add: d2 t scan_token_def spend_attempt_def Let_def)
  then show thesis using that r w by blast
qed

text \<open>An enrolment that ends in an error leaves the credentials and the sessions as they were.\<close>

definition credentials :: "db \<Rightarrow> admin_row option \<times> session_row list" where
  "credentials d = (administrator d, sessions d)"

lemma finish_enrolment_not_Inl: "finish_enrolment t kind h scope req now s \<noteq> (Inr (Inl e), s1)"
  by (auto simp: finish_enrolment_def Let_def tx_simps)

lemma stale_Inr:
  "stale t now s = (Inr r, s1) \<longleftrightarrow> \<not> fails_now (snd s) \<and> r = Inl ErrToken \<and>
     s1 = ((fst s)\<lparr>auth_tokens := consume_row (token_ID t) now (auth_tokens (fst s))\<rparr>, tl (snd s))"
  by (auto simp: stale_def then_Inr consume_Inr ret_Inr)

lemma confirm_kind_error:
  assumes "confirm_kind t c parentPurpose exists scope now
      (finish_enrolment t kind h scope' req now) (d, fs) = (Inr (Inl e), s1)"
  shows "credentials (fst s1) = credentials d"
proof -
  have upgrade: "credentials (fst s1) = credentials d"
    if "confirm_upgrade t c now (finish_enrolment t kind h scope' req now) (d, fs) = (Inr (Inl e), s1)"
    using that
    by (auto simp: confirm_upgrade_def tx_simps stale_Inr finish_enrolment_not_Inl credentials_def
        update_admin_def split: if_splits option.splits dest: query_row_state)
  have reset: "credentials (fst s1) = credentials d"
    if "confirm_reset t c parentPurpose exists now (finish_enrolment t kind h scope' req now) (d, fs) = (Inr (Inl e), s1)"
    using that
    by (auto simp: confirm_reset_def tx_simps stale_Inr finish_enrolment_not_Inl credentials_def split: if_splits)
  show ?thesis
    using assms upgrade reset
    by (auto simp: confirm_kind_def stale_Inr tx_simps finish_enrolment_not_Inl credentials_def split: if_splits)
qed

lemma credentials_tokens:
  "keeps (\<lambda>x. credentials x = C) (use_token purpose hash now)"
  "keeps (\<lambda>x. credentials x = C) (consume i now)"
  "keeps (\<lambda>x. credentials x = C) (exec (retire_resets now))"
  "keeps (\<lambda>x. credentials x = C) (issue purpose hash ttl mx parent payload now)"
  unfolding use_token_def consume_def issue_def retire_resets_def
  by (intro tx_keeps; simp add: credentials_def insert_token_Inr)+

lemma use_token_credentials:
  "use_token purpose hash now (d, fs) = (r, s1) \<Longrightarrow> credentials (fst s1) = credentials d"
  by (rule keepsD_eq [where I = "\<lambda>x. credentials x = credentials d" and m = "use_token purpose hash now"])
    (auto simp: use_token_def credentials_def intro!: tx_keeps)

definition consumed_purpose :: "int option \<Rightarrow> auth_token_row list \<Rightarrow> string" where
  "consumed_purpose parent rows = (case parent of None \<Rightarrow> '''' | Some i \<Rightarrow>
     case find (\<lambda>r. tok_id r = i \<and> tok_consumed_at r \<noteq> None) rows of None \<Rightarrow> '''' | Some r \<Rightarrow> tok_purpose r)"

lemma consumed_purposeD:
  "consumed_purpose parent rows = ''reset'' \<Longrightarrow>
     \<exists>p \<in> set rows. parent = Some (tok_id p) \<and> tok_consumed_at p \<noteq> None"
  by (auto simp: consumed_purpose_def split: option.splits dest!: find_Some_iff_mem)

lemma parent_purpose_Inr:
  "parent_purpose t (d, fs) = (Inr p, s1) \<Longrightarrow>
     fst s1 = d \<and> p = consumed_purpose (token_Parent t) (auth_tokens d)"
  by (auto simp: parent_purpose_def consumed_purpose_def tx_simps split: option.splits)

lemma ConfirmEnrolment_error:
  assumes "fails (ConfirmEnrolment enrolHash sessionHash scope requestID now verify) s e d1"
  shows "credentials d1 = credentials (fst s)"
proof -
  have "credentials d1 = credentials (fst s)" if changed: "d1 \<noteq> fst s"
  proof -
    obtain fs fs' t s2 where u: "use_token ''enrol'' enrolHash now (fst s, fs) = (Inr t, s2)"
      and b: "confirm_verified t sessionHash scope requestID now verify s2 = (Inr (Inl e), (d1, fs'))"
      by (rule transact_then_error [OF assms [unfolded ConfirmEnrolment_def] changed])
        (auto simp: tx_simps)
    show ?thesis
    proof (cases "verify (token_Payload t)")
      case (Inl x)
      with b show ?thesis using use_token_credentials [OF u]
        by (cases s2) (auto simp: confirm_verified_def then_Inr ret_Inr credentials_def dest!: spendFailure_Inr)
    next
      case (Inr c)
      with b obtain fs2 p x where "confirm_kind t c p x scope now
          (finish_enrolment t (Enrolment_Kind c) sessionHash scope requestID now) (fst s2, fs2) = (Inr (Inl e), (d1, fs'))"
        by (auto simp: confirm_verified_def bind_Inr adminExists_def query_Inr dest!: parent_purpose_Inr)
      from confirm_kind_error [OF this] show ?thesis using use_token_credentials [OF u] by simp
    qed
  qed
  then show ?thesis by blast
qed

text \<open>A step of a sign-in that could still be finished.\<close>

definition open_step :: "auth_token_row \<Rightarrow> bool" where
  "open_step r \<longleftrightarrow> tok_consumed_at r = None \<and>
     (tok_purpose r = ''pending'' \<or> tok_purpose r = ''enrol'' \<or> tok_purpose r = ''reset'')"

lemma finish_enrolment_Inr:
  assumes "finish_enrolment t kind h scope req now (d, fs) = (Inr (Inr email), s1)"
  shows "map_option adm_email (administrator d) = Some email \<and> administrator (fst s1) = administrator d \<and>
    sessions (fst s1) = delete_where (\<lambda>s. ses_expires_at s \<le> unix now \<or> ses_scope s \<noteq> scope) (sessions d) @
      [\<lparr>ses_token_hash = h, ses_scope = scope, ses_expires_at = unix (now + sessionTTL)\<rparr>] \<and>
    auth_tokens (fst s1) = consume_row (token_ID t) now (auth_tokens d) \<and>
    length (audit_log (fst s1)) = Suc (length (audit_log d)) \<and>
    length (alert_events (fst s1)) = Suc (length (alert_events d))"
  using assms
  by (auto simp: finish_enrolment_def Let_def tx_simps audit_def audited_def RecordAlertEvent_def
      new_event_def consume_Inr dest!: addSession_Inr)

lemma confirm_reset_Inr:
  assumes "confirm_reset t c p exists now finish (d, fs) = (Inr (Inr email), s)"
    and "exists \<longleftrightarrow> administrator d \<noteq> None"
  obtains a fs' where "administrator d = Some a" "p = ''reset''" "maintenanceGuard d"
    "finish (retire_resets now (drop_other_tokens t
       (d\<lparr>administrator := Some (replace_credentials c a), sessions := []\<rparr>)), fs') = (Inr (Inr email), s)"
proof -
  from assms obtain a where a: "administrator d = Some a" and p: "p = ''reset''"
    by (auto simp: confirm_reset_def stale_Inr split: if_splits)
  with assms(1) show thesis
    by (auto simp: confirm_reset_def stale_Inr tx_simps update_admin_def split: if_splits intro: that)
qed

lemma open_steps_dropped:
  assumes "distinct (map tok_id rows)" "p \<in> set rows" "tok_consumed_at p \<noteq> None"
  shows "\<forall>r \<in> set (consume_row i now (update_where Q (\<lambda>r. r\<lparr>tok_consumed_at := Some (unix now)\<rparr>)
      (delete_tokens (\<lambda>r. (tok_purpose r = ''pending'' \<or> tok_purpose r = ''enrol'' \<or> tok_purpose r = ''reset'') \<and>
         tok_id r \<noteq> i \<and> tok_id r \<noteq> tok_id p) rows))). \<not> open_step r"
proof -
  have "tok_consumed_at r \<noteq> None" if "r \<in> set rows" "tok_id r = tok_id p" for r
    using that assms by (metis distinct_map inj_onD)
  then show ?thesis
    by (auto simp: consume_row_def ball_update_where delete_tokens_def Let_def open_step_def)
qed

lemma ConfirmEnrolment_verified:
  assumes "returns (ConfirmEnrolment enrolHash sessionHash scope requestID now verify) (d, fs) email d1"
    and "tokens_keyed d" and "r \<in> set (auth_tokens d)" "live_token ''enrol'' enrolHash now r"
    and "verify (tok_sealed_payload r) = Inr c"
  obtains p fs2 s3 where "fst s3 = d1"
    "confirm_kind (scan_token (spend_attempt r)) c p (administrator d \<noteq> None) scope now
       (finish_enrolment (scan_token (spend_attempt r)) (Enrolment_Kind c) sessionHash scope requestID now)
       (d\<lparr>auth_tokens := update_where (live_token ''enrol'' enrolHash now) spend_attempt (auth_tokens d)\<rparr>, fs2) =
       (Inr (Inr email), s3)"
    "p = consumed_purpose (tok_parent_id r)
       (update_where (live_token ''enrol'' enrolHash now) spend_attempt (auth_tokens d))"
proof -
  from assms(1) obtain t fs1 s2 s3 where
    u: "use_token ''enrol'' enrolHash now (d, fs1) = (Inr t, s2)"
    and v: "confirm_verified t sessionHash scope requestID now verify s2 = (Inr (Inr email), s3)"
    and d1: "fst s3 = d1"
    by (auto simp: ConfirmEnrolment_def returns_iff tx_simps)
  obtain q where q: "q \<in> set (auth_tokens d)" "live_token ''enrol'' enrolHash now q"
    and t: "t = scan_token (spend_attempt q)"
    and d2: "fst s2 = d\<lparr>auth_tokens := update_where (live_token ''enrol'' enrolHash now)
        spend_attempt (auth_tokens d)\<rparr>"
    using use_token_row [OF u assms(2)] .
  have "q = r"
    using q assms(2-4) by (auto simp: tokens_keyed_def live_token_def distinct_map dest: inj_onD)
  with t v d2 assms(5) show thesis
    by (auto simp: confirm_verified_def scan_token_def spend_attempt_def bind_Inr adminExists_def query_Inr
        intro!: that [OF d1] dest!: parent_purpose_Inr)
qed

section \<open>Properties\<close>

text \<open>
  Tokens are spent within their limits: through any series of sign-in operations, with any
  driver failures, no token has more attempts than it allows, and hashes and numbers stay unique.
\<close>

theorem tokens_within_limits:
  assumes "auth_run d d'" "attempts_bounded d" "tokens_keyed d"
  shows "attempts_bounded d' \<and> tokens_keyed d'"
  using assms by (blast intro: bounded_attempts.auth_run_keeps keyed_tokens.auth_run_keeps)

theorem tokens_within_limits_witness:
  "let d' = leaves (BeginPending ''b'' ''pw'' ''s'' 0) (leaves (BeginUpgrade ''a'' '''' 0) (empty_db, []), [])
   in attempts_bounded d' \<and> tokens_keyed d'"
proof -
  have "auth_run empty_db (leaves (BeginPending ''b'' ''pw'' ''s'' 0)
      (leaves (BeginUpgrade ''a'' '''' 0) (empty_db, []), []))"
    by (intro auth_run.intros)
  moreover have "attempts_bounded empty_db" "tokens_keyed empty_db"
    by (simp_all add: attempts_bounded_def tokens_keyed_def empty_db_def)
  ultimately show ?thesis unfolding Let_def by (rule tokens_within_limits)
qed


text \<open>
  While code entry is locked nothing is spent and nothing is written: the answer is the time
  left, whatever code was entered, also a right one.
\<close>

theorem locked_writes_nothing:
  assumes "administrator d = Some a" "unix now < adm_code_locked_until a"
  shows "leaves (ConfirmPending pendingHash sessionHash scope now check) (d, fs) = d \<and>
    \<not> succeeds (ConfirmPending pendingHash sessionHash scope now check) (d, fs) \<and>
    fst (ConfirmPending pendingHash sessionHash scope now check (d, [])) =
      Inl (LockedError (adm_code_locked_until a - unix now))"
proof -
  have "fst (ConfirmPending pendingHash sessionHash scope now check (d, fs)) \<in>
      {Inl EDriver, Inl ErrToken, Inl (LockedError (adm_code_locked_until a - unix now))} \<and>
    leaves (ConfirmPending pendingHash sessionHash scope now check) (d, fs) = d"
    using assms
    by (simp add: leaves_def ConfirmPending_def transact_then_def transact_def bind_tx_def attempt_def
        query_row_def stmt_def throw_def)
  moreover have "fst (ConfirmPending pendingHash sessionHash scope now check (d, [])) =
      Inl (LockedError (adm_code_locked_until a - unix now))"
    using assms by (simp add: ConfirmPending_def tx_healthy)
  ultimately show ?thesis by (auto simp: succeeds_def)
qed

theorem locked_writes_nothing_witness:
  "fst (ConfirmPending ''p'' ''s'' ''sc'' (30 * second) (\<lambda>_ _. Inr 5)
     (empty_db\<lparr>administrator := Some \<lparr>adm_email = ''a'', adm_password_hash = ''h'', adm_created_at = 0,
        adm_totp_secret_sealed = Some ''x'', adm_totp_last_step = 1, adm_code_failures = 5,
        adm_code_locked_until = 60\<rparr>\<rparr>, [])) = Inl (LockedError 30)"
  using locked_writes_nothing [of "empty_db\<lparr>administrator := Some \<lparr>adm_email = ''a'',
        adm_password_hash = ''h'', adm_created_at = 0, adm_totp_secret_sealed = Some ''x'',
        adm_totp_last_step = 1, adm_code_failures = 5, adm_code_locked_until = 60\<rparr>\<rparr>" _ "30 * second"]
  by (simp add: unix_def)

text \<open>
  A wrong code is counted even though the call reports an error: the attempt of the password
  step and the administrator's failure count are committed, the last attempt consumes the step,
  no session is opened, every tenth failure queues one alert, and every fifth in a row locks code
  entry for 1, 2, 4, ... minutes, at most an hour.
\<close>

theorem wrong_code_counts:
  assumes "fails (ConfirmPending pendingHash sessionHash scope now check) (d, fs) ErrCode d1"
    and "tokens_keyed d" and "administrator d = Some a"
  defines "n \<equiv> adm_code_failures a + 1"
  shows "sessions d1 = sessions d \<and>
    administrator d1 = Some (count_failure n (locked_until n now) a) \<and>
    length (alert_events d1) = length (alert_events d) + (if n mod 10 = 0 then 1 else 0) \<and>
    (\<exists>r r'. r \<in> set (auth_tokens d) \<and> live_token ''pending'' pendingHash now r \<and>
       r' \<in> set (auth_tokens d1) \<and> tok_id r' = tok_id r \<and> tok_attempts r' = tok_attempts r + 1 \<and>
       (tok_attempts r' \<ge> tok_max_attempts r' \<longleftrightarrow> tok_consumed_at r' \<noteq> None)) \<and>
    (\<forall>k > 0. locked_until (5 * k) now = unix (now + (if k \<le> 6 then 2 ^ nat (k - 1) * minute else hour)))"
proof -
  obtain r d3 fs3 fs4 where r: "r \<in> set (auth_tokens d)" "live_token ''pending'' pendingHash now r"
    and d3: "d3 = d\<lparr>auth_tokens :=
       (let spent = update_where (live_token ''pending'' pendingHash now) spend_attempt (auth_tokens d)
        in if tok_attempts r + 1 \<ge> tok_max_attempts r then consume_row (tok_id r) now spent else spent)\<rparr>"
    and w: "wrong_code n now (d3, fs3) = (Inr (), (d1, fs4))"
    using ConfirmPending_wrong_code [OF assms(1-3), folded n_def] .
  define spent where
    "spent = update_where (live_token ''pending'' pendingHash now) spend_attempt (auth_tokens d)"
  have "administrator d3 = Some a" using assms(3) by (simp add: d3)
  note w' = wrong_code_Inr [OF w this]
  have tokens: "auth_tokens d1 =
      (if tok_attempts r + 1 \<ge> tok_max_attempts r then consume_row (tok_id r) now spent else spent)"
    using w' by (simp add: d3 spent_def [symmetric])
  note rows = consume_scan [OF assms(2) r, folded spent_def]
  define r' where "r' = (if tok_attempts r + 1 \<ge> tok_max_attempts r
    then r\<lparr>tok_attempts := tok_attempts r + 1, tok_consumed_at := Some (unix now)\<rparr> else spend_attempt r)"
  have "r' \<in> set (auth_tokens d1)" using rows by (simp add: tokens r'_def)
  moreover have "tok_id r' = tok_id r \<and> tok_attempts r' = tok_attempts r + 1 \<and>
      (tok_attempts r' \<ge> tok_max_attempts r' \<longleftrightarrow> tok_consumed_at r' \<noteq> None)"
    using r(2) by (simp add: r'_def spend_attempt_def live_token_def)
  moreover have "length (alert_events d1) = length (alert_events d) + (if n mod 10 = 0 then 1 else 0)"
    using w' by (simp add: d3)
  moreover have "sessions d1 = sessions d" "administrator d1 = Some (count_failure n (locked_until n now) a)"
    using w' by (simp_all add: d3)
  moreover have "locked_until (5 * k) now = unix (now + (if k \<le> 6 then 2 ^ nat (k - 1) * minute else hour))"
    if "k > 0" for k using that by (simp add: locked_until_def lock_after_doubles)
  ultimately show ?thesis using r by blast
qed

text \<open>An administrator with a factor and four wrong codes, at the code step.\<close>

definition signing_in :: db where
  "signing_in = empty_db\<lparr>administrator := Some \<lparr>adm_email = ''a'', adm_password_hash = ''h'', adm_created_at = 0,
     adm_totp_secret_sealed = Some ''x'', adm_totp_last_step = 1, adm_code_failures = 4,
     adm_code_locked_until = 0\<rparr>,
     auth_tokens := [new_token ''pending'' ''p'' pendingTTL codeTries None
       (marshal_pending \<lparr>pendingPayload_Binding = Hash ''h'', pendingPayload_Scope = ''sc''\<rparr>) 0 1],
     auth_tokens_seq := 2\<rparr>"

lemma signing_in_token:
  "use_token ''pending'' ''p'' 0 (signing_in, []) =
     (Inr (scan_token (spend_attempt (hd (auth_tokens signing_in)))),
      (signing_in\<lparr>auth_tokens := [spend_attempt (hd (auth_tokens signing_in))]\<rparr>, []))"
  by (simp add: use_token_def tx_healthy signing_in_def live_token_def new_token_def pendingTTL_def
      codeTries_def unix_def update_where_def spend_attempt_def)

theorem wrong_code_counts_witness:
  "let d1 = leaves (ConfirmPending ''p'' ''s'' ''sc'' 0 (\<lambda>_ _. Inl ErrCode)) (signing_in, [])
   in map_option adm_code_failures (administrator d1) = Some 5 \<and>
      map_option adm_code_locked_until (administrator d1) = Some 60"
proof -
  define d1 where "d1 = leaves (ConfirmPending ''p'' ''s'' ''sc'' 0 (\<lambda>_ _. Inl ErrCode)) (signing_in, [])"
  obtain a where a: "administrator signing_in = Some a" and n: "adm_code_failures a = 4"
    and open_entry: "adm_code_locked_until a = 0" and h: "adm_password_hash a = ''h''"
    and x: "adm_totp_secret_sealed a = Some ''x''"
    by (simp add: signing_in_def)
  have counts: "password_step_counts (scan_token (spend_attempt (hd (auth_tokens signing_in)))) a ''sc''"
    by (simp add: password_step_counts_def scan_token_def spend_attempt_def signing_in_def new_token_def
        unmarshal_marshal h x)
  have "fails (ConfirmPending ''p'' ''s'' ''sc'' 0 (\<lambda>_ _. Inl ErrCode)) (signing_in, []) ErrCode d1"
    unfolding fails_def d1_def leaves_def
    by (simp add: ConfirmPending_def confirm_code_def wrong_code_def spendFailure_def consume_def
        tx_healthy a counts signing_in_token n open_entry unix_def update_admin_def RecordAlertEvent_def)
  moreover have "tokens_keyed signing_in"
    by (simp add: tokens_keyed_def signing_in_def new_token_def)
  ultimately have "administrator d1 = Some (count_failure 5 (locked_until 5 0) a)"
    using wrong_code_counts [OF _ _ a] n by simp
  moreover have "locked_until 5 0 = 60" by code_simp
  ultimately show ?thesis unfolding Let_def d1_def [symmetric] by (simp add: count_failure_def)
qed

text \<open>
  C25. Nothing about the administrator changes until a code confirms: beginning an enrolment or a
  reset, issuing a reset token, and a confirmation that ends in any error leave the password, the
  factor and the sessions exactly as they were.
\<close>

theorem credentials_change_only_on_success:
  assumes "fails (ConfirmEnrolment enrolHash sessionHash scope requestID now verify) (d, fs) e d1"
  shows "credentials d1 = credentials d \<and>
    credentials (leaves (BeginReset resetToken enrolHash sealed now) (d0, fs0)) = credentials d0 \<and>
    credentials (leaves (NewResetToken plain now) (d0, fs0)) = credentials d0 \<and>
    credentials (leaves (BeginUpgrade enrolHash sealed now) (d0, fs0)) = credentials d0 \<and>
    credentials (leaves (BeginEnrolment setupToken enrolHash sealed now) (d0, fs0)) = credentials d0"
proof -
  note rules = keeps_transact_body keeps_bind keeps_then keeps_if keeps_result keeps_attempt keeps_ret
    keeps_throw keeps_query credentials_tokens
  define same where "same = (\<lambda>x. credentials x = credentials d0)"
  have "keeps same (BeginReset resetToken enrolHash sealed now)"
    "keeps same (NewResetToken plain now)" "keeps same (BeginUpgrade enrolHash sealed now)"
    "keeps same (BeginEnrolment setupToken enrolHash sealed now)"
    unfolding same_def BeginReset_def NewResetToken_def BeginUpgrade_def BeginEnrolment_def
      spend_setup_token_def adminExists_def by (intro rules)+
  from this [THEN keepsD, of "(d0, fs0)"] show ?thesis
    using ConfirmEnrolment_error [OF assms] by (simp add: same_def)
qed

theorem credentials_change_only_on_success_witness:
  "credentials (leaves (ConfirmEnrolment ''x'' ''s'' ''sc'' ''q'' 0 (\<lambda>_. Inl ErrCode)) (signing_in, [])) =
     credentials signing_in"
proof -
  have "fails (ConfirmEnrolment ''x'' ''s'' ''sc'' ''q'' 0 (\<lambda>_. Inl ErrCode)) (signing_in, []) ErrToken
      (leaves (ConfirmEnrolment ''x'' ''s'' ''sc'' ''q'' 0 (\<lambda>_. Inl ErrCode)) (signing_in, []))"
    unfolding fails_def leaves_def
    by (simp add: ConfirmEnrolment_def use_token_def tx_healthy signing_in_def live_token_def new_token_def)
  from credentials_change_only_on_success [OF this] show ?thesis by blast
qed

text \<open>
  C24. A confirmed reset takes the account over completely: the password and the factor are the new
  ones, the only session is the one just opened, no password step, enrolment or reset begun before
  can still be finished, and a password-only session can no longer be opened. It never happens
  during an update.
\<close>

theorem reset_takes_over:
  assumes "returns (ConfirmEnrolment enrolHash sessionHash scope requestID now verify) (d, fs) email d1"
    and "tokens_keyed d" "r \<in> set (auth_tokens d)" "live_token ''enrol'' enrolHash now r"
    and "verify (tok_sealed_payload r) = Inr c" "Enrolment_Kind c = ''reset''"
    and "Confirmed_SecretSealed c \<noteq> ''''"
  shows "maintenanceGuard d \<and>
    administrator d1 = map_option (replace_credentials c) (administrator d) \<and>
    sessions d1 = [\<lparr>ses_token_hash = sessionHash, ses_scope = scope, ses_expires_at = unix (now + sessionTTL)\<rparr>] \<and>
    filter open_step (auth_tokens d1) = [] \<and>
    \<not> succeeds (AddSession tok scope' passwordHash now') (d1, fs')"
proof -
  define t where "t = scan_token (spend_attempt r)"
  define rows where "rows = update_where (live_token ''enrol'' enrolHash now) spend_attempt (auth_tokens d)"
  obtain p fs2 s3 where s3: "fst s3 = d1"
    and k: "confirm_kind t c p (administrator d \<noteq> None) scope now
       (finish_enrolment t (Enrolment_Kind c) sessionHash scope requestID now) (d\<lparr>auth_tokens := rows\<rparr>, fs2) =
       (Inr (Inr email), s3)"
    and p: "p = consumed_purpose (tok_parent_id r) rows"
    using ConfirmEnrolment_verified [OF assms(1-5), folded t_def rows_def] .
  have "confirm_reset t c p (administrator d \<noteq> None) now
      (finish_enrolment t ''reset'' sessionHash scope requestID now) (d\<lparr>auth_tokens := rows\<rparr>, fs2) =
      (Inr (Inr email), s3)"
    using k assms(6) by (simp add: confirm_kind_def stale_Inr split: if_splits)
  then obtain a d4 fs4 where a: "administrator d = Some a" and reset: "p = ''reset''" and guard: "maintenanceGuard d"
    and d4: "d4 = retire_resets now (drop_other_tokens t
       (d\<lparr>auth_tokens := rows, administrator := Some (replace_credentials c a), sessions := []\<rparr>))"
    and f: "finish_enrolment t ''reset'' sessionHash scope requestID now (d4, fs4) = (Inr (Inr email), s3)"
    by (rule confirm_reset_Inr) (simp_all add: maintenanceGuard_def)
  note f' = finish_enrolment_Inr [OF f]
  have adm: "administrator d1 = Some (replace_credentials c a)"
    and ses: "sessions d1 = [\<lparr>ses_token_hash = sessionHash, ses_scope = scope, ses_expires_at = unix (now + sessionTTL)\<rparr>]"
    using f' by (simp_all add: s3 d4 retire_resets_def drop_other_tokens_def delete_where_def)
  obtain q where q: "q \<in> set rows" "tok_parent_id r = Some (tok_id q)" "tok_consumed_at q \<noteq> None"
    using consumed_purposeD p reset by metis
  have "distinct (map tok_id rows)"
    using assms(2) by (simp add: rows_def tokens_keyed_def map_update_where spend_attempt_def)
  from open_steps_dropped [OF this q(1,3)] have "filter open_step (auth_tokens d1) = []"
    using f' q(2) by (simp add: s3 d4 retire_resets_def drop_other_tokens_def filter_empty_conv t_def
        scan_token_def spend_attempt_def coalesce_def)
  moreover have "\<not> succeeds (AddSession tok scope' passwordHash now') (d1, fs')"
    using assms(7) by (auto simp: succeeds_def AddSession_def transact_def bind_tx_def query_row_def stmt_def adm
        replace_credentials_def enrol_factor_def throw_def)
  ultimately show ?thesis using guard a adm ses by simp
qed

text \<open>A reset that was begun with the token issued over SSH, in a store with another open step.\<close>

definition resetting :: db where
  "resetting = empty_db\<lparr>administrator := Some \<lparr>adm_email = ''a'', adm_password_hash = ''h'', adm_created_at = 0,
       adm_totp_secret_sealed = Some ''x'', adm_totp_last_step = 1, adm_code_failures = 4,
       adm_code_locked_until = 0\<rparr>,
     auth_tokens := [new_token ''pending'' ''p'' pendingTTL codeTries None ''sealed'' 0 1,
      (new_token ''reset'' ''r'' resetTTL 1 None '''' 0 2)\<lparr>tok_attempts := 1, tok_consumed_at := Some 0\<rparr>,
      new_token ''enrol'' ''e'' enrolTTL codeTries (Some 2) ''sealed'' 0 3],
     auth_tokens_seq := 4,
     sessions := [\<lparr>ses_token_hash = ''old'', ses_scope = ''sc'', ses_expires_at = 1000\<rparr>]\<rparr>"

definition new_credentials :: Confirmed where
  "new_credentials = \<lparr>Enrolment_Kind = ''reset'', Enrolment_Email = '''', Enrolment_PasswordHash = ''new'',
     Enrolment_Binding = '''', Enrolment_Scope = ''sc'', Enrolment_Secret = [],
     Confirmed_SecretSealed = ''y'', Confirmed_Step = 9\<rparr>"

definition confirm_new :: "string dbop" where
  "confirm_new = ConfirmEnrolment ''e'' ''s'' ''sc'' ''q'' 0 (\<lambda>_. Inr new_credentials)"

theorem reset_takes_over_witness:
  "let d1 = leaves confirm_new (resetting, [])
   in map ses_token_hash (sessions d1) = [''s''] \<and> filter open_step (auth_tokens d1) = [] \<and>
      map_option adm_password_hash (administrator d1) = Some ''new''"
proof -
  define d1 where "d1 = leaves confirm_new (resetting, [])"
  define r where "r = new_token ''enrol'' ''e'' enrolTTL codeTries (Some 2) ''sealed'' 0 3"
  have "succeeds confirm_new (resetting, [])" by code_simp
  note ret = succeeds_leaves [OF this, folded d1_def, unfolded confirm_new_def]
  have rows: "tokens_keyed resetting" "r \<in> set (auth_tokens resetting)" "live_token ''enrol'' ''e'' 0 r"
    by (simp_all add: r_def resetting_def tokens_keyed_def new_token_def live_token_def
        codeTries_def enrolTTL_def unix_def)
  have c: "Enrolment_Kind new_credentials = ''reset''" "Confirmed_SecretSealed new_credentials \<noteq> ''''"
    by (simp_all add: new_credentials_def)
  have "\<exists>a. administrator resetting = Some a" by (simp add: resetting_def)
  with reset_takes_over [OF ret rows refl c] show ?thesis
    unfolding Let_def d1_def [symmetric]
    by (auto simp: replace_credentials_def enrol_factor_def new_credentials_def)
qed

text \<open>
  There is one setup: once an administrator was created, no further setup token is issued and
  no setup or enrolment with a setup token succeeds, through any later operations of sign-in.
\<close>

theorem setup_once:
  assumes "returns (Setup setupToken email passwordHash sessionHash scope now) (d, fs) u d1"
    and "auth_run d1 d2"
  shows "\<not> succeeds (NewSetupToken plain now2) (d2, fs2) \<and>
    \<not> succeeds (Setup setupToken2 email2 passwordHash2 sessionHash2 scope2 now2) (d2, fs2) \<and>
    \<not> succeeds (BeginEnrolment setupToken2 enrolHash sealed now2) (d2, fs2)"
proof -
  have "administrator d1 \<noteq> None"
    using assms(1) by (auto simp: Setup_def returns_iff tx_simps dest!: addSession_Inr)
  then have adm: "administrator d2 \<noteq> None" using administered.auth_run_keeps assms(2) by blast
  then have "\<not> succeeds (NewSetupToken plain now2) (d2, fs2)"
    by (auto simp: NewSetupToken_def adminExists_def take_setup_lock_def tx_simps
        dest!: succeeds_leaves simp: returns_iff)
  moreover have spend: "\<not> (\<exists>t s1. spend_setup_token setupToken2 now2 (d2, f) = (Inr t, s1))" for f
    using adm administered.keeps_use_token [of "''setup''" "Hash setupToken2" now2]
    by (auto simp: spend_setup_token_def adminExists_def tx_simps dest: keepsD_eq)
  ultimately show ?thesis
    by (auto simp: Setup_def BeginEnrolment_def tx_simps dest!: succeeds_leaves simp: returns_iff)
qed

definition installed :: db where
  "installed = empty_db\<lparr>auth_tokens := [new_token ''setup'' (Hash ''t'') setupTTL 1 None '''' 0 1],
     auth_tokens_seq := 2\<rparr>"

theorem setup_once_witness:
  "let d1 = leaves (Setup ''t'' ''a'' ''pw'' ''s'' ''sc'' 0) (installed, [])
   in \<not> succeeds (Setup ''t'' ''b'' ''pw2'' ''s2'' ''sc'' 1) (d1, []) \<and> administrator installed = None"
proof -
  define d1 where "d1 = leaves (Setup ''t'' ''a'' ''pw'' ''s'' ''sc'' 0) (installed, [])"
  have "succeeds (Setup ''t'' ''a'' ''pw'' ''s'' ''sc'' 0) (installed, [])"
    by (simp add: succeeds_def Setup_def spend_setup_token_def use_token_def adminExists_def tx_healthy
        installed_def live_token_def new_token_def setupTTL_def unix_def update_where_def spend_attempt_def
        insert_admin_def consume_def addSession_def insert_session_def drop_sessions_def empty_db_def
        delete_where_def scan_token_def)
  from setup_once [OF succeeds_leaves [OF this, folded d1_def] ar_start] show ?thesis
    unfolding Let_def d1_def [symmetric] by (simp add: installed_def empty_db_def)
qed

end
