(* ===== verification/Store_Projects.thy ===== *)
theory Store_Projects
  imports Store_Access
begin

text \<open>
  \<^verbatim>\<open>internal/store/projects.go\<close>: creating a project under an idempotency key, its provisioning
  stage, the network policy under an optimistic revision check, and the connection checks.
\<close>

section \<open>Projects\<close>

record Project =
  Project_ID :: string
  Project_Name :: string
  Project_DBName :: string
  Project_RoleName :: string
  Project_Stage :: string
  Project_Failed :: bool
  Project_StageError :: string
  Project_CreatedAt :: int
  Project_ReadyAt :: int
  Project_FrozenAt :: int
  Project_DeletingAt :: int

definition scanProject :: "project_row \<Rightarrow> Project" where
  "scanProject r = \<lparr>Project_ID = prj_id r, Project_Name = prj_name r, Project_DBName = prj_db_name r,
     Project_RoleName = prj_role_name r, Project_Stage = prj_stage r,
     Project_Failed = (prj_failed r \<noteq> 0), Project_StageError = prj_stage_error r,
     Project_CreatedAt = prj_created_at r, Project_ReadyAt = coalesce (prj_ready_at r) 0,
     Project_FrozenAt = coalesce (prj_frozen_at r) 0,
     Project_DeletingAt = coalesce (prj_deleting_at r) 0\<rparr>"

text \<open>The id is the primary key; database, role and idempotency key are unique.\<close>

definition insert_project :: "Project \<Rightarrow> string \<Rightarrow> gotime \<Rightarrow> db \<Rightarrow> db option" where
  "insert_project p key now d =
     (if list_ex (\<lambda>r. prj_id r = Project_ID p \<or> prj_db_name r = Project_DBName p \<or>
           prj_role_name r = Project_RoleName p \<or> prj_idempotency_key r = key) (projects d)
      then None
      else Some (d\<lparr>projects := projects d @ [\<lparr>prj_id = Project_ID p, prj_name = Project_Name p,
             prj_db_name = Project_DBName p, prj_role_name = Project_RoleName p,
             prj_idempotency_key = key, prj_stage = ''identity_persisted'', prj_failed = 0,
             prj_stage_error = '''', prj_created_at = unix now, prj_ready_at = None,
             prj_frozen_at = None, prj_deleting_at = None\<rparr>]\<rparr>))"

definition insert_secret :: "string \<Rightarrow> string \<Rightarrow> db \<Rightarrow> db option" where
  "insert_secret p sealed d =
     (if list_ex (\<lambda>r. sec_project_id r = p) (project_secrets d) \<or> \<not> project_exists p d then None
      else Some (d\<lparr>project_secrets := project_secrets d @ [\<lparr>sec_project_id = p,
             sec_sealed_password = sealed, sec_pending_password_sealed = None,
             sec_pending_request_id = ''''\<rparr>]\<rparr>))"

definition insert_policy_state :: "string \<Rightarrow> db \<Rightarrow> db option" where
  "insert_policy_state p d =
     (if list_ex (\<lambda>r. pol_project_id r = p) (policy_state d) \<or> \<not> project_exists p d then None
      else Some (d\<lparr>policy_state := policy_state d @ [\<lparr>pol_project_id = p, pol_current_revision = 0,
             pol_applied_revision = 0, pol_state = ''idle'', pol_last_error = ''''\<rparr>]\<rparr>))"

definition insert_limits :: "string \<Rightarrow> Limits \<Rightarrow> gotime \<Rightarrow> db \<Rightarrow> db option" where
  "insert_limits p l now d =
     (if list_ex (\<lambda>r. lim_project_id r = p) (project_limits d) \<or> \<not> project_exists p d then None
      else Some (d\<lparr>project_limits := project_limits d @ [\<lparr>lim_project_id = p,
             lim_statement_timeout_ms = StatementTimeoutMS l,
             lim_idle_in_transaction_ms = IdleInTransactionMS l,
             lim_temp_file_limit_kb = TempFileLimitKB l, lim_lock_timeout_ms = LockTimeoutMS l,
             lim_connection_limit = ConnectionLimit l, lim_revision = 1, lim_applied_revision = 0,
             lim_last_error = '''', lim_updated_at = unix now\<rparr>]\<rparr>))"

definition projectBy :: "(project_row \<Rightarrow> string) \<Rightarrow> string \<Rightarrow> Project dbop" where
  "projectBy column value =
     bind_tx (query (\<lambda>d. find (\<lambda>r. column r = value) (projects d))) (\<lambda>row.
     case row of None \<Rightarrow> throw ErrProjectNotFound | Some r \<Rightarrow> ret (scanProject r))"

text \<open>
  The transaction gives back the error of the first insert (rolled back, so the project of the
  repeated key can be looked up), or nothing when all four rows are in.
\<close>

definition create_rows :: "Project \<Rightarrow> string \<Rightarrow> string \<Rightarrow> gotime \<Rightarrow> err option dbop" where
  "create_rows p key sealed now = transact_exit (
     bind_tx (attempt (exec_insert (insert_project p key now))) (\<lambda>r.
     case r of
       Inl e \<Rightarrow> ret (Inl (Some e))
     | Inr _ \<Rightarrow>
         then_tx (exec_insert (insert_secret (Project_ID p) sealed))
         (then_tx (exec_insert (insert_policy_state (Project_ID p)))
         (then_tx (exec_insert (insert_limits (Project_ID p) DefaultLimits now))
         (ret (Inr None))))))"

definition CreateProject :: "Project \<Rightarrow> string \<Rightarrow> string \<Rightarrow> gotime \<Rightarrow> (Project \<times> bool) dbop" where
  "CreateProject p key sealed now =
     bind_tx (create_rows p key sealed now) (\<lambda>r.
     case r of
       Some e \<Rightarrow>
         bind_tx (attempt (projectBy prj_idempotency_key key)) (\<lambda>existing.
         case existing of Inr q \<Rightarrow> ret (q, False) | Inl _ \<Rightarrow> throw e)
     | None \<Rightarrow>
         ret (p\<lparr>Project_Stage := ''identity_persisted'', Project_CreatedAt := unix now\<rparr>, True))"

definition get_Project :: "string \<Rightarrow> Project dbop" where
  "get_Project pid = projectBy prj_id pid"

definition project_order :: "project_row \<Rightarrow> int \<times> string" where
  "project_order r = (prj_created_at r, prj_id r)"

definition Projects :: "Project list dbop" where
  "Projects = query (\<lambda>d. map scanProject (sort_key project_order (projects d)))"

definition IncompleteProjects :: "Project list dbop" where
  "IncompleteProjects = query (\<lambda>d. map scanProject (sort_key project_order
     (filter (\<lambda>r. prj_failed r = 0 \<and> prj_stage r \<notin> {''ready'', ''deleting''}) (projects d))))"

definition SetProjectStage :: "string \<Rightarrow> string \<Rightarrow> gotime \<Rightarrow> unit dbop" where
  "SetProjectStage pid stage now =
     (if stage = ''ready'' then
        exec (projects_update (update_where (\<lambda>r. prj_id r = pid \<and> prj_stage r \<noteq> ''deleting'')
          (\<lambda>r. r\<lparr>prj_stage := stage, prj_ready_at := Some (unix now)\<rparr>)))
      else
        exec (projects_update (update_where (\<lambda>r. prj_id r = pid \<and> prj_stage r \<noteq> ''deleting'')
          (\<lambda>r. r\<lparr>prj_stage := stage\<rparr>))))"

definition FailProject :: "string \<Rightarrow> string \<Rightarrow> unit dbop" where
  "FailProject pid stageError =
     exec (projects_update (update_where (\<lambda>r. prj_id r = pid \<and> prj_stage r \<noteq> ''deleting'')
       (\<lambda>r. r\<lparr>prj_failed := 1, prj_stage_error := stageError\<rparr>)))"

text \<open>An \<^verbatim>\<open>UPDATE projects\<close> that has to hit one row.\<close>

definition update_one_project ::
  "(project_row \<Rightarrow> bool) \<Rightarrow> (project_row \<Rightarrow> project_row) \<Rightarrow> unit dbop" where
  "update_one_project P f =
     bind_tx (exec_affected (\<lambda>d. (count_where P (projects d),
       d\<lparr>projects := update_where P f (projects d)\<rparr>))) (\<lambda>n.
     if n \<noteq> 1 then throw ErrProjectNotFound else ret ())"

definition RetryProject :: "string \<Rightarrow> unit dbop" where
  "RetryProject pid = update_one_project (\<lambda>r. prj_id r = pid \<and> prj_failed r = 1)
     (\<lambda>r. r\<lparr>prj_failed := 0, prj_stage_error := ''''\<rparr>)"

text \<open>\<open>None\<close> is Go's zero time.\<close>

definition SetProjectFrozen :: "string \<Rightarrow> gotime option \<Rightarrow> unit dbop" where
  "SetProjectFrozen pid at = update_one_project (\<lambda>r. prj_id r = pid)
     (\<lambda>r. r\<lparr>prj_frozen_at := map_option unix at\<rparr>)"

definition SealedPassword :: "string \<Rightarrow> string dbop" where
  "SealedPassword pid =
     bind_tx (query (\<lambda>d. find (\<lambda>r. sec_project_id r = pid) (project_secrets d))) (\<lambda>row.
     case row of None \<Rightarrow> throw ErrProjectNotFound | Some r \<Rightarrow> ret (sec_sealed_password r))"

section \<open>The network policy\<close>

record PolicyState =
  PolicyState_CurrentRevision :: int
  PolicyState_AppliedRevision :: int
  PolicyState_State :: string
  PolicyState_LastError :: string
  PolicyState_Addresses :: string

definition insert_revision :: "string \<Rightarrow> int \<Rightarrow> string \<Rightarrow> gotime \<Rightarrow> db \<Rightarrow> db option" where
  "insert_revision p revn addresses now d =
     (if list_ex (\<lambda>r. rev_project_id r = p \<and> rev_revision r = revn) (policy_revisions d) \<or>
         \<not> project_exists p d
      then None
      else Some (d\<lparr>policy_revisions := policy_revisions d @ [\<lparr>rev_project_id = p,
             rev_revision = revn, rev_addresses = addresses, rev_created_at = unix now\<rparr>]\<rparr>))"

definition set_current :: "string \<Rightarrow> int \<Rightarrow> db \<Rightarrow> db" where
  "set_current p next = policy_state_update (update_where (\<lambda>r. pol_project_id r = p)
     (\<lambda>r. r\<lparr>pol_current_revision := next, pol_state := ''pending'', pol_last_error := ''''\<rparr>))"

definition RecordPolicyRevision :: "string \<Rightarrow> int \<Rightarrow> string \<Rightarrow> gotime \<Rightarrow> int dbop" where
  "RecordPolicyRevision projectID expectedRevision addresses now = transact (
     bind_tx (query (\<lambda>d. find (\<lambda>r. pol_project_id r = projectID) (policy_state d))) (\<lambda>row.
     case row of
       None \<Rightarrow> throw ErrProjectNotFound
     | Some r \<Rightarrow>
         if pol_current_revision r \<noteq> expectedRevision then throw ErrRevisionConflict else
         let next = pol_current_revision r + 1 in
         then_tx (exec_insert (insert_revision projectID next addresses now))
         (then_tx (exec (set_current projectID next))
         (ret next))))"

definition get_PolicyState :: "string \<Rightarrow> PolicyState dbop" where
  "get_PolicyState projectID =
     bind_tx (query (\<lambda>d. map_option (\<lambda>st. (st, coalesce (map_option rev_addresses
        (find (\<lambda>r. rev_project_id r = pol_project_id st \<and> rev_revision r = pol_current_revision st)
          (policy_revisions d))) ''[]''))
        (find (\<lambda>r. pol_project_id r = projectID) (policy_state d)))) (\<lambda>row.
     case row of
       None \<Rightarrow> throw ErrProjectNotFound
     | Some (st, addresses) \<Rightarrow> ret \<lparr>PolicyState_CurrentRevision = pol_current_revision st,
         PolicyState_AppliedRevision = pol_applied_revision st, PolicyState_State = pol_state st,
         PolicyState_LastError = pol_last_error st, PolicyState_Addresses = addresses\<rparr>)"

definition ApplyPolicyResult :: "string \<Rightarrow> int \<Rightarrow> bool \<Rightarrow> string \<Rightarrow> unit dbop" where
  "ApplyPolicyResult projectID revision applied message =
     (if applied then
        exec (policy_state_update (update_where
          (\<lambda>r. pol_project_id r = projectID \<and> pol_current_revision r = revision)
          (\<lambda>r. r\<lparr>pol_applied_revision := revision, pol_state := ''applied'', pol_last_error := ''''\<rparr>)))
      else
        exec (policy_state_update (update_where
          (\<lambda>r. pol_project_id r = projectID \<and> pol_current_revision r = revision)
          (\<lambda>r. r\<lparr>pol_state := ''failed'', pol_last_error := message\<rparr>))))"

section \<open>Connection checks\<close>

record ConnectionCheck =
  ConnectionCheck_ID :: string
  ConnectionCheck_ProjectID :: string
  ConnectionCheck_ChallengeHash :: string
  ConnectionCheck_ExpiresAt :: int
  ConnectionCheck_State :: string
  ConnectionCheck_Evidence :: string
  ConnectionCheck_Fingerprint :: string
  ConnectionCheck_CreatedAt :: int

definition insert_check :: "connection_check_row \<Rightarrow> db \<Rightarrow> db option" where
  "insert_check c d =
     (if list_ex (\<lambda>r. chk_id r = chk_id c) (connection_checks d) \<or>
         \<not> project_exists (chk_project_id c) d
      then None else Some (d\<lparr>connection_checks := connection_checks d @ [c]\<rparr>))"

definition NewConnectionCheck ::
  "string \<Rightarrow> string \<Rightarrow> string \<Rightarrow> string \<Rightarrow> gotime \<Rightarrow> unit dbop" where
  "NewConnectionCheck cid projectID challengeHash fingerprint now =
     exec_insert (insert_check \<lparr>chk_id = cid, chk_project_id = projectID,
       chk_challenge_hash = challengeHash, chk_expires_at = unix (now + 10 * minute),
       chk_state = ''pending'', chk_evidence = None, chk_fingerprint = fingerprint,
       chk_created_at = unix now\<rparr>)"

text \<open>The challenge hash is not selected and stays empty.\<close>

definition get_ConnectionCheck :: "string \<Rightarrow> string \<Rightarrow> ConnectionCheck dbop" where
  "get_ConnectionCheck projectID checkID =
     bind_tx (query (\<lambda>d. find (\<lambda>r. chk_id r = checkID \<and> chk_project_id r = projectID)
       (connection_checks d))) (\<lambda>row.
     case row of
       None \<Rightarrow> throw ErrProjectNotFound
     | Some r \<Rightarrow> ret \<lparr>ConnectionCheck_ID = chk_id r, ConnectionCheck_ProjectID = chk_project_id r,
         ConnectionCheck_ChallengeHash = '''', ConnectionCheck_ExpiresAt = chk_expires_at r,
         ConnectionCheck_State = chk_state r, ConnectionCheck_Evidence = coalesce (chk_evidence r) '''',
         ConnectionCheck_Fingerprint = chk_fingerprint r, ConnectionCheck_CreatedAt = chk_created_at r\<rparr>)"

definition ExpireConnectionChecks :: "gotime \<Rightarrow> unit dbop" where
  "ExpireConnectionChecks now = exec (connection_checks_update (update_where
     (\<lambda>r. chk_state r = ''pending'' \<and> chk_expires_at r \<le> unix now) (\<lambda>r. r\<lparr>chk_state := ''expired''\<rparr>)))"

definition PendingChallengeHash :: "string \<Rightarrow> string \<Rightarrow> string dbop" where
  "PendingChallengeHash projectID checkID =
     bind_tx (query (\<lambda>d. find (\<lambda>r. chk_id r = checkID \<and> chk_project_id r = projectID \<and>
       chk_state r = ''pending'') (connection_checks d))) (\<lambda>row.
     case row of None \<Rightarrow> throw ErrProjectNotFound | Some r \<Rightarrow> ret (chk_challenge_hash r))"

definition complete_check :: "string \<Rightarrow> string \<Rightarrow> db \<Rightarrow> nat \<times> db" where
  "complete_check cid evidence d =
     (let P = (\<lambda>r. chk_id r = cid \<and> chk_state r = ''pending'')
      in (count_where P (connection_checks d),
          d\<lparr>connection_checks := update_where P
              (\<lambda>r. r\<lparr>chk_state := ''successful'', chk_evidence := Some evidence\<rparr>)
              (connection_checks d)\<rparr>))"

definition CompleteConnectionCheck :: "string \<Rightarrow> string \<Rightarrow> unit dbop" where
  "CompleteConnectionCheck cid evidence =
     bind_tx (exec_affected (complete_check cid evidence)) (\<lambda>n.
     if n \<noteq> 1 then throw ErrProjectNotFound else ret ())"

section \<open>Lemmas\<close>

lemma project_exists_iff: "project_exists p d \<longleftrightarrow> p \<in> prj_id ` set (projects d)"
  by (simp add: project_exists_def list_ex_key)

lemma projectBy_Inr:
  "projectBy column value s = (Inr q, s') \<longleftrightarrow>
     (\<exists>r. \<not> fails_now (snd s) \<and> find (\<lambda>r. column r = value) (projects (fst s)) = Some r \<and>
        q = scanProject r \<and> s' = (fst s, tl (snd s)))"
  by (auto simp: projectBy_def tx_simps)

lemma keeps_projectBy [tx_keeps]: "keeps I (projectBy column value)"
  unfolding projectBy_def by (intro tx_keeps)

lemma insert_project_Some:
  "insert_project p key now d = Some d' \<Longrightarrow>
     key \<notin> prj_idempotency_key ` set (projects d) \<and>
     (\<exists>r. projects d' = projects d @ [r] \<and> prj_idempotency_key r = key \<and> prj_id r = Project_ID p \<and>
        prj_name r = Project_Name p \<and> prj_db_name r = Project_DBName p \<and>
        prj_role_name r = Project_RoleName p \<and> prj_stage r = ''identity_persisted'' \<and>
        prj_created_at r = unix now)"
  by (auto simp: insert_project_def list_ex_iff split: if_splits)

lemma insert_secret_Some:
  "insert_secret p sealed d = Some d' \<Longrightarrow> projects d' = projects d"
  "insert_policy_state p d = Some d' \<Longrightarrow> projects d' = projects d"
  "insert_limits p l now d = Some d' \<Longrightarrow> projects d' = projects d"
  by (auto simp: insert_secret_def insert_policy_state_def insert_limits_def split: if_splits)

lemma create_rows_None:
  assumes "create_rows p key sealed now (d, fs) = (Inr None, (d', fs'))"
  shows "\<exists>r. key \<notin> prj_idempotency_key ` set (projects d) \<and> projects d' = projects d @ [r] \<and>
    prj_idempotency_key r = key \<and> prj_id r = Project_ID p \<and> prj_name r = Project_Name p \<and>
    prj_db_name r = Project_DBName p \<and> prj_role_name r = Project_RoleName p \<and>
    prj_stage r = ''identity_persisted'' \<and> prj_created_at r = unix now"
proof -
  from assms obtain d1 d2 d3 where "insert_project p key now d = Some d1"
    "insert_secret (Project_ID p) sealed d1 = Some d2"
    "insert_policy_state (Project_ID p) d2 = Some d3"
    "insert_limits (Project_ID p) DefaultLimits now d3 = Some d'"
    by (auto simp: create_rows_def tx_simps)
  then show ?thesis by (auto dest!: insert_project_Some insert_secret_Some)
qed

lemma create_rows_Some:
  "create_rows p key sealed now (d, fs) = (Inr (Some e), (d', fs')) \<Longrightarrow> d' = d"
  by (auto simp: create_rows_def tx_simps)

lemma create_rows_taken:
  assumes "key \<in> prj_idempotency_key ` set (projects d)"
  shows "create_rows p key sealed now (d, fs) \<noteq> (Inr None, s')"
  using create_rows_None [of p key sealed now d fs "fst s'" "snd s'"] assms by (cases s') auto

lemma CreateProject_returns:
  assumes "returns (CreateProject p key sealed now) (d, fs) (q, created) d'"
  shows "if created then create_rows p key sealed now (d, fs) = (Inr None, (d', snd (snd
             (create_rows p key sealed now (d, fs))))) \<and>
           q = p\<lparr>Project_Stage := ''identity_persisted'', Project_CreatedAt := unix now\<rparr>
         else d' = d \<and> (\<exists>r. find (\<lambda>r. prj_idempotency_key r = key) (projects d) = Some r \<and>
           q = scanProject r)"
proof -
  obtain r s1 where c: "create_rows p key sealed now (d, fs) = (Inr r, s1)"
    using assms by (auto simp: CreateProject_def returns_iff tx_simps)
  show ?thesis
  proof (cases r)
    case None
    with assms c show ?thesis
      by (cases s1) (auto simp: CreateProject_def returns_iff bind_Inr ret_Inr)
  next
    case (Some e)
    then have "fst s1 = d" using c create_rows_Some by (metis prod.collapse)
    with Some assms c show ?thesis
      by (auto simp: CreateProject_def returns_iff tx_simps projectBy_Inr)
  qed
qed

section \<open>The policy under concurrent editors\<close>

definition policy_revision :: "string \<Rightarrow> db \<Rightarrow> int option" where
  "policy_revision p d =
     map_option pol_current_revision (find (\<lambda>r. pol_project_id r = p) (policy_state d))"

definition edit_policy :: "string \<Rightarrow> int \<Rightarrow> string \<times> gotime \<Rightarrow> int dbop" where
  "edit_policy p seen v = RecordPolicyRevision p seen (fst v) (snd v)"

lemma RecordPolicyRevision_returns:
  assumes "returns (RecordPolicyRevision p seen addresses now) (d, fs) n d'"
  shows "policy_revision p d = Some seen \<and> n = seen + 1 \<and> policy_revision p d' = Some n \<and>
    (\<exists>d1. insert_revision p n addresses now d = Some d1 \<and> d' = set_current p n d1)"
proof -
  from assms obtain r d1 where r: "find (\<lambda>r. pol_project_id r = p) (policy_state d) = Some r"
    "pol_current_revision r = seen" "n = seen + 1" and
    d1: "insert_revision p n addresses now d = Some d1" "d' = set_current p n d1"
    by (auto simp: RecordPolicyRevision_def returns_iff tx_simps Let_def)
  have "policy_state d1 = policy_state d"
    using d1(1) by (auto simp: insert_revision_def split: if_splits)
  with r d1 show ?thesis
    by (auto simp: policy_revision_def set_current_def find_update_by_key)
qed

interpretation policy_edit: revisioned "edit_policy p" "policy_revision p" "\<lambda>_. True" for p
proof unfold_locales
  show "policy_revision p d = Some seen \<and> policy_revision p d' = Some (seen + 1) \<and> True"
    if "returns (edit_policy p seen v) (d, fs) x d'" for d seen v fs x d'
    using RecordPolicyRevision_returns [OF that [unfolded edit_policy_def]] by simp
  show "(d' = d \<or> policy_revision p d = Some seen \<and> policy_revision p d' = Some (seen + 1)) \<and> True"
    if "fails (edit_policy p seen v) (d, fs) e d'" for d seen v fs e d'
    using transact_fails that by (fastforce simp: edit_policy_def RecordPolicyRevision_def)
qed


text \<open>Editors of one project's allowlist, one after the other; those whose revision was recorded.\<close>

fun accepted_policies :: "string \<Rightarrow> (int \<times> (string \<times> gotime) \<times> bool list) list \<Rightarrow> db \<Rightarrow> int list" where
  "accepted_policies p [] d = []"
| "accepted_policies p ((seen, v, fs) # es) d =
     (case RecordPolicyRevision p seen (fst v) (snd v) (d, fs) of
        (Inl e, (d', _)) \<Rightarrow> accepted_policies p es d'
      | (Inr x, (d', _)) \<Rightarrow> seen # accepted_policies p es d')"

lemma accepted_policies_eq: "accepted_policies p es d = policy_edit.wins p es d"
proof (induction es arbitrary: d)
  case (Cons e es)
  obtain seen v fs where e: "e = (seen, v, fs)" by (metis surj_pair)
  have "RecordPolicyRevision p seen (fst v) (snd v) = edit_policy p seen v" by (simp add: edit_policy_def)
  with Cons.IH show ?case unfolding e by (simp split: prod.splits sum.splits)
qed simp

lemma get_PolicyState_after:
  assumes "returns (RecordPolicyRevision p seen addresses now) (d, fs) n d'"
    and "returns (get_PolicyState p) (d', fs') st d''"
  shows "PolicyState_CurrentRevision st = n \<and> PolicyState_State st = ''pending'' \<and>
    PolicyState_Addresses st = addresses \<and> d'' = d'"
proof -
  from RecordPolicyRevision_returns [OF assms(1)] obtain d1 r where
    ins: "insert_revision p n addresses now d = Some d1" and d': "d' = set_current p n d1" and
    r: "find (\<lambda>r. pol_project_id r = p) (policy_state d) = Some r"
    by (auto simp: policy_revision_def)
  have "find (\<lambda>r. rev_project_id r = p \<and> rev_revision r = n) (policy_revisions d) = None"
    using ins by (auto simp: insert_revision_def list_ex_iff find_None_iff split: if_splits)
  then have new: "find (\<lambda>r. rev_project_id r = p \<and> rev_revision r = n) (policy_revisions d1) =
      Some \<lparr>rev_project_id = p, rev_revision = n, rev_addresses = addresses, rev_created_at = unix now\<rparr>"
    and same: "policy_state d1 = policy_state d"
    using ins by (auto simp: insert_revision_def find_append split: if_splits)
  have "pol_project_id r = p" using r by (auto dest: find_Some_iff_mem)
  with assms(2) r new same show ?thesis
    by (auto simp: d' get_PolicyState_def returns_iff tx_simps set_current_def find_update_by_key
        coalesce_def)
qed

lemma complete_check_none:
  assumes "\<forall>r \<in> set (connection_checks d). chk_id r = cid \<longrightarrow> chk_state r \<noteq> ''pending''"
  shows "complete_check cid evidence d = (0, d)"
proof -
  have "count_where (\<lambda>r. chk_id r = cid \<and> chk_state r = ''pending'') (connection_checks d) = 0"
    "update_where (\<lambda>r. chk_id r = cid \<and> chk_state r = ''pending'') f (connection_checks d) =
       connection_checks d" for f
    using assms by (auto simp: count_where_zero intro!: update_where_none)
  then show ?thesis by (simp add: complete_check_def)
qed

lemma CompleteConnectionCheck_refused:
  assumes "\<forall>r \<in> set (connection_checks d). chk_id r = cid \<longrightarrow> chk_state r \<noteq> ''pending''"
  shows "\<not> succeeds (CompleteConnectionCheck cid evidence) (d, fs)"
    and "leaves (CompleteConnectionCheck cid evidence) (d, fs) = d"
  using complete_check_none [OF assms]
  by (simp_all add: CompleteConnectionCheck_def succeeds_def leaves_def bind_tx_def exec_affected_def
      stmt_def throw_def)

section \<open>Properties\<close>

text \<open>
  Creating a project is idempotent: after a creation succeeded, a request with the same
  idempotency key that succeeds creates nothing, changes nothing, and returns the identity that was
  persisted first, whatever name, database or password it carried.
\<close>

theorem CreateProject_idempotent:
  assumes "returns (CreateProject p key sealed now) (d, fs) (q, True) d1"
    and "returns (CreateProject p' key sealed' now') (d1, fs') (q', created) d2"
  shows "\<not> created \<and> d2 = d1 \<and> Project_ID q' = Project_ID p \<and> Project_Name q' = Project_Name p \<and>
    Project_DBName q' = Project_DBName p \<and> Project_RoleName q' = Project_RoleName p \<and>
    Project_Stage q' = ''identity_persisted''"
proof -
  from CreateProject_returns [OF assms(1)] obtain fs1
    where "create_rows p key sealed now (d, fs) = (Inr None, (d1, fs1))" by auto
  from create_rows_None [OF this] obtain r where
    fresh: "key \<notin> prj_idempotency_key ` set (projects d)" and
    d1: "projects d1 = projects d @ [r]" and
    r: "prj_idempotency_key r = key" "prj_id r = Project_ID p" "prj_name r = Project_Name p"
      "prj_db_name r = Project_DBName p" "prj_role_name r = Project_RoleName p"
      "prj_stage r = ''identity_persisted''" by blast
  have "find (\<lambda>r. prj_idempotency_key r = key) (projects d) = None"
    using fresh by (simp add: find_key_None)
  then have found: "find (\<lambda>r. prj_idempotency_key r = key) (projects d1) = Some r"
    by (simp add: d1 find_append r)
  have "\<not> created"
    using CreateProject_returns [OF assms(2)] create_rows_taken [of key d1] d1 r(1) by auto
  then have "d2 = d1" "q' = scanProject r" using CreateProject_returns [OF assms(2)] found by auto
  with \<open>\<not> created\<close> r show ?thesis by (simp add: scanProject_def)
qed

definition shop :: Project where
  "shop = \<lparr>Project_ID = ''1'', Project_Name = ''shop'', Project_DBName = ''shop_db'',
     Project_RoleName = ''shop_role'', Project_Stage = '''', Project_Failed = False,
     Project_StageError = '''', Project_CreatedAt = 0, Project_ReadyAt = 0, Project_FrozenAt = 0,
     Project_DeletingAt = 0\<rparr>"

theorem CreateProject_idempotent_witness:
  "let d1 = leaves (CreateProject shop ''key'' ''sealed'' 0) (empty_db, []);
       q = projr (fst (CreateProject (shop\<lparr>Project_ID := ''2''\<rparr>) ''key'' ''other'' 9 (d1, [])))
   in length (projects d1) = 1 \<and> \<not> snd q \<and> Project_ID (fst q) = ''1''"
proof -
  define d1 where "d1 = leaves (CreateProject shop ''key'' ''sealed'' 0) (empty_db, [])"
  define d2 where
    "d2 = leaves (CreateProject (shop\<lparr>Project_ID := ''2''\<rparr>) ''key'' ''other'' 9) (d1, [])"
  define q where
    "q = projr (fst (CreateProject (shop\<lparr>Project_ID := ''2''\<rparr>) ''key'' ''other'' 9 (d1, [])))"
  have "CreateProject shop ''key'' ''sealed'' 0 (empty_db, []) =
      (Inr (shop\<lparr>Project_Stage := ''identity_persisted'', Project_CreatedAt := 0\<rparr>, True), (d1, []))"
    unfolding d1_def by code_simp
  then have a: "returns (CreateProject shop ''key'' ''sealed'' 0) (empty_db, [])
      (shop\<lparr>Project_Stage := ''identity_persisted'', Project_CreatedAt := 0\<rparr>, True) d1"
    by (rule returnsI)
  have "succeeds (CreateProject (shop\<lparr>Project_ID := ''2''\<rparr>) ''key'' ''other'' 9) (d1, [])"
    unfolding d1_def by code_simp
  from succeeds_leaves [OF this, folded d2_def q_def]
  have b': "returns (CreateProject (shop\<lparr>Project_ID := ''2''\<rparr>) ''key'' ''other'' 9) (d1, [])
      (fst q, snd q) d2" by simp
  have "length (projects d1) = 1" unfolding d1_def by code_simp
  moreover have "\<not> snd q \<and> Project_ID (fst q) = ''1''"
    using CreateProject_idempotent [OF a b'] by (simp add: shop_def)
  ultimately show ?thesis unfolding Let_def d1_def [symmetric] q_def [symmetric] by simp
qed

text \<open>
  No lost update of an allowlist: of any number of editors that submit one after the other,
  with any driver failures, no two that saw the same revision are both accepted.
\<close>

theorem policy_no_lost_update: "sorted_wrt (<) (accepted_policies p es d)"
  by (simp add: accepted_policies_eq policy_edit.wins_increasing)

text \<open>
  What was recorded is what is read back: after an accepted edit the state of the policy shows
  the new revision with exactly the submitted addresses, waiting to be applied.
\<close>

theorem policy_roundtrip:
  assumes "returns (RecordPolicyRevision p seen addresses now) (d, fs) n d'"
    and "returns (get_PolicyState p) (d', fs') st d''"
  shows "n = seen + 1 \<and> PolicyState_CurrentRevision st = n \<and> PolicyState_State st = ''pending'' \<and>
    PolicyState_Addresses st = addresses"
  using get_PolicyState_after [OF assms] RecordPolicyRevision_returns [OF assms(1)] by simp

theorem policy_roundtrip_witness:
  "let d = leaves (CreateProject shop ''key'' ''sealed'' 0) (empty_db, []);
       d1 = leaves (RecordPolicyRevision ''1'' 0 ''[10.0.0.1]'' 5) (d, []);
       st = projr (fst (get_PolicyState ''1'' (d1, [])))
   in succeeds (RecordPolicyRevision ''1'' 0 ''[10.0.0.1]'' 5) (d, []) \<and>
      PolicyState_Addresses st = ''[10.0.0.1]'' \<and> PolicyState_State st = ''pending''"
proof -
  define d where "d = leaves (CreateProject shop ''key'' ''sealed'' 0) (empty_db, [])"
  define d1 where "d1 = leaves (RecordPolicyRevision ''1'' 0 ''[10.0.0.1]'' 5) (d, [])"
  define st where "st = projr (fst (get_PolicyState ''1'' (d1, [])))"
  have ok: "succeeds (RecordPolicyRevision ''1'' 0 ''[10.0.0.1]'' 5) (d, [])"
    unfolding d_def by code_simp
  note a = succeeds_leaves [OF ok, folded d1_def]
  have "succeeds (get_PolicyState ''1'') (d1, [])" unfolding d1_def d_def by code_simp
  note b = succeeds_leaves [OF this, folded st_def]
  from policy_roundtrip [OF a b] ok show ?thesis
    unfolding Let_def d_def [symmetric] d1_def [symmetric] st_def [symmetric] by simp
qed

definition applied_is_current :: "db \<Rightarrow> bool" where
  "applied_is_current d \<longleftrightarrow>
     list_all (\<lambda>r. pol_state r = ''applied'' \<longrightarrow> pol_applied_revision r = pol_current_revision r)
       (policy_state d)"

lemma applied_is_current_update:
  "applied_is_current d \<Longrightarrow>
   (\<And>r. P r \<Longrightarrow> pol_state (f r) = ''applied'' \<Longrightarrow> pol_applied_revision (f r) = pol_current_revision (f r)) \<Longrightarrow>
   applied_is_current (policy_state_update (update_where P f) d)"
  unfolding applied_is_current_def list_all_iff by (auto simp: in_update_where)

text \<open>
  The host's report never vouches for a newer policy: a policy shown as applied has its current
  revision applied, whatever edits, late reports and failures are interleaved.
\<close>

theorem policy_applied_is_current:
  "keeps applied_is_current (RecordPolicyRevision p seen addresses now) \<and>
   keeps applied_is_current (ApplyPolicyResult p revision applied message)"
proof
  show "keeps applied_is_current (RecordPolicyRevision p seen addresses now)"
    unfolding RecordPolicyRevision_def Let_def
  proof (intro tx_keeps)
    show "applied_is_current d'" if "applied_is_current d" "insert_revision p n addresses now d = Some d'"
      for d d' n using that by (auto simp: insert_revision_def applied_is_current_def split: if_splits)
    show "applied_is_current (set_current p n d)" if "applied_is_current d" for n d
      unfolding set_current_def using that by (rule applied_is_current_update) simp
  qed
  show "keeps applied_is_current (ApplyPolicyResult p revision applied message)"
    unfolding ApplyPolicyResult_def
    by (intro tx_keeps; rule applied_is_current_update) simp_all
qed

text \<open>
  Evidence is stored at most once: after a connection check was completed, every further
  evidence for it is refused and the first stays.
\<close>

theorem evidence_once:
  assumes "returns (CompleteConnectionCheck cid evidence) (d, fs) u d1"
  shows "\<not> succeeds (CompleteConnectionCheck cid evidence') (d1, fs') \<and>
    leaves (CompleteConnectionCheck cid evidence') (d1, fs') = d1"
proof -
  from assms have "d1 = snd (complete_check cid evidence d)"
    by (auto simp: CompleteConnectionCheck_def returns_iff tx_simps)
  then have "\<forall>r \<in> set (connection_checks d1). chk_id r = cid \<longrightarrow> chk_state r \<noteq> ''pending''"
    by (simp add: complete_check_def Let_def ball_update_where)
  then show ?thesis using CompleteConnectionCheck_refused by blast
qed

theorem evidence_once_witness:
  "let d = leaves (NewConnectionCheck ''c'' ''p'' ''hash'' ''fp'' 0) (running_backup, []);
       d1 = leaves (CompleteConnectionCheck ''c'' ''seen'') (d, [])
   in map chk_evidence (connection_checks d1) = [Some ''seen''] \<and>
      \<not> succeeds (CompleteConnectionCheck ''c'' ''forged'') (d1, [])"
proof -
  define d where "d = leaves (NewConnectionCheck ''c'' ''p'' ''hash'' ''fp'' 0) (running_backup, [])"
  define d1 where "d1 = leaves (CompleteConnectionCheck ''c'' ''seen'') (d, [])"
  have "succeeds (CompleteConnectionCheck ''c'' ''seen'') (d, [])" unfolding d_def by code_simp
  note a = succeeds_leaves [OF this, folded d1_def]
  have "map chk_evidence (connection_checks d1) = [Some ''seen'']" unfolding d1_def d_def by code_simp
  with evidence_once [OF a, of "''forged''" "[]"]
  show ?thesis unfolding Let_def d_def [symmetric] d1_def [symmetric] by simp
qed

text \<open>
  A connection check does not outlive its deadline: once the overdue checks were expired at
  \<open>now\<close>, no check whose deadline had come is pending, gives out its challenge or takes evidence.
\<close>

theorem overdue_check_refused:
  assumes "returns (ExpireConnectionChecks now) (d, fs) u d1"
    and "\<forall>r \<in> set (connection_checks d). chk_id r = cid \<longrightarrow> chk_expires_at r \<le> unix now"
  shows "\<not> succeeds (CompleteConnectionCheck cid evidence) (d1, fs') \<and>
    \<not> succeeds (PendingChallengeHash p cid) (d1, fs')"
proof -
  have d1: "connection_checks d1 = update_where (\<lambda>r. chk_state r = ''pending'' \<and>
      chk_expires_at r \<le> unix now) (\<lambda>r. r\<lparr>chk_state := ''expired''\<rparr>) (connection_checks d)"
    using assms(1) by (auto simp: ExpireConnectionChecks_def returns_iff tx_simps)
  have none: "\<forall>r \<in> set (connection_checks d1). chk_id r = cid \<longrightarrow> chk_state r \<noteq> ''pending''"
    using assms(2) unfolding d1 ball_update_where by auto
  then have "find (\<lambda>r. chk_id r = cid \<and> chk_project_id r = p \<and> chk_state r = ''pending'')
      (connection_checks d1) = None" by (auto simp: find_None_iff)
  then have "\<not> succeeds (PendingChallengeHash p cid) (d1, fs')"
    by (simp add: PendingChallengeHash_def succeeds_def bind_tx_def query_def stmt_def throw_def)
  with CompleteConnectionCheck_refused(1) [OF none] show ?thesis by simp
qed

theorem overdue_check_refused_witness:
  "let d = leaves (NewConnectionCheck ''c'' ''p'' ''hash'' ''fp'' 0) (running_backup, []);
       d1 = leaves (ExpireConnectionChecks (10 * minute)) (d, [])
   in succeeds (PendingChallengeHash ''p'' ''c'') (d, []) \<and>
      \<not> succeeds (PendingChallengeHash ''p'' ''c'') (d1, [])"
proof -
  define d where "d = leaves (NewConnectionCheck ''c'' ''p'' ''hash'' ''fp'' 0) (running_backup, [])"
  define d1 where "d1 = leaves (ExpireConnectionChecks (10 * minute)) (d, [])"
  have "succeeds (ExpireConnectionChecks (10 * minute)) (d, [])" unfolding d_def by code_simp
  note a = succeeds_leaves [OF this, folded d1_def]
  have "list_all (\<lambda>r. chk_id r = ''c'' \<longrightarrow> chk_expires_at r \<le> unix (10 * minute)) (connection_checks d)"
    unfolding d_def by code_simp
  then have b: "\<forall>r \<in> set (connection_checks d). chk_id r = ''c'' \<longrightarrow> chk_expires_at r \<le> unix (10 * minute)"
    unfolding list_all_iff .
  have "succeeds (PendingChallengeHash ''p'' ''c'') (d, [])" unfolding d_def by code_simp
  with overdue_check_refused [OF a b, of _ "[]" "''p''"]
  show ?thesis unfolding Let_def d_def [symmetric] d1_def [symmetric] by simp
qed

end
