(* ===== verification/Store_Backups.thy ===== *)
theory Store_Backups
  imports Store_Projects
begin

text \<open>
  The rest of \<^verbatim>\<open>internal/store/backups.go\<close>: the policy row, which project is backed up next, the
  cache of what the bucket holds, the intents of retention, and the pruning of job history.
\<close>

definition BackupComplete :: string where "BackupComplete = ''complete''"
definition BackupArchiveOnly :: string where "BackupArchiveOnly = ''archive_only''"

section \<open>The policy and the schedule\<close>

definition get_BackupPolicy :: "BackupPolicy dbop" where
  "get_BackupPolicy = query backup_policy"

definition SetBackupPolicy :: "BackupPolicy \<Rightarrow> gotime \<Rightarrow> unit dbop" where
  "SetBackupPolicy p now =
     (case Validate_policy p of
        Inl e \<Rightarrow> throw e
      | Inr _ \<Rightarrow> exec (backup_policy_update (\<lambda>_. p\<lparr>bpo_updated_at := unix now\<rparr>)))"

definition get_BackupSchedule :: "string \<Rightarrow> schedule_row dbop" where
  "get_BackupSchedule projectID =
     bind_tx (query (\<lambda>d. find (\<lambda>r. sch_project_id r = projectID) (backup_schedule d))) (\<lambda>row.
     case row of
       None \<Rightarrow> ret \<lparr>sch_project_id = projectID, sch_last_attempt_at = 0, sch_failures = 0,
                    sch_next_attempt_at = 0\<rparr>
     | Some r \<Rightarrow> ret r)"

text \<open>A Go map keyed by project id, as the list of its rows.\<close>

definition BackupFailures :: "schedule_row list dbop" where
  "BackupFailures = query (\<lambda>d. filter (\<lambda>b. sch_failures b > 0 \<and>
     list_ex (\<lambda>p. prj_id p = sch_project_id b \<and> prj_stage p \<noteq> ''deleting'') (projects d))
     (backup_schedule d))"

text \<open>\<^verbatim>\<open>max(taken_at)\<close> over the recoverable backups of one project's database.\<close>

definition max_of :: "int list \<Rightarrow> int option" where
  "max_of xs = (case xs of [] \<Rightarrow> None | x # ys \<Rightarrow> Some (fold max ys x))"

definition recoverable :: "string \<Rightarrow> string \<Rightarrow> project_row \<Rightarrow> bucket_row \<Rightarrow> bool" where
  "recoverable target installationID p b \<longleftrightarrow>
     bkt_storage_target b = target \<and> bkt_state b = ''complete'' \<and>
     bkt_installation_id b = installationID \<and> bkt_project_id b = prj_id p \<and>
     bkt_db_name b = prj_db_name p"

definition newest_of :: "string \<Rightarrow> string \<Rightarrow> project_row \<Rightarrow> db \<Rightarrow> int option" where
  "newest_of target installationID p d =
     max_of (map bkt_taken_at (filter (recoverable target installationID p) (bucket_backups d)))"

definition schedule_of :: "project_row \<Rightarrow> db \<Rightarrow> schedule_row option" where
  "schedule_of p d = find (\<lambda>s. sch_project_id s = prj_id p) (backup_schedule d)"

definition is_candidate :: "string \<Rightarrow> string \<Rightarrow> gotime \<Rightarrow> gotime \<Rightarrow> db \<Rightarrow> project_row \<Rightarrow> bool" where
  "is_candidate target installationID now dueBefore d p \<longleftrightarrow>
     prj_stage p = ''ready'' \<and> prj_failed p = 0 \<and>
     coalesce (map_option sch_next_attempt_at (schedule_of p d)) 0 \<le> unix now \<and>
     coalesce (newest_of target installationID p d) 0 \<le> unix dueBefore"

definition attempt_order :: "db \<Rightarrow> project_row \<Rightarrow> int \<times> int \<times> string" where
  "attempt_order d p = (coalesce (map_option sch_last_attempt_at (schedule_of p d)) 0,
     prj_created_at p, prj_id p)"

definition BackupCandidates :: "string \<Rightarrow> string \<Rightarrow> gotime \<Rightarrow> gotime \<Rightarrow> Project list dbop" where
  "BackupCandidates target installationID now dueBefore = query (\<lambda>d. map scanProject
     (sort_key (attempt_order d)
       (filter (is_candidate target installationID now dueBefore d) (projects d))))"

definition NewestRecoverable :: "string \<Rightarrow> string \<Rightarrow> (string \<times> int) list dbop" where
  "NewestRecoverable target installationID = query (\<lambda>d. concat (map (\<lambda>p.
     case newest_of target installationID p d of None \<Rightarrow> [] | Some at \<Rightarrow> [(prj_id p, at)])
     (projects d)))"

section \<open>Storage targets\<close>

record StorageTarget =
  StorageTarget_Target :: string
  StorageTarget_Endpoint :: string
  StorageTarget_Bucket :: string
  StorageTarget_Prefix :: string
  StorageTarget_Active :: bool
  StorageTarget_ReconciledAt :: int
  StorageTarget_LastError :: string

definition put_target :: "StorageTarget \<Rightarrow> target_row list \<Rightarrow> target_row list" where
  "put_target t = upsert (\<lambda>r. tgt_storage_target r = StorageTarget_Target t)
     \<lparr>tgt_storage_target = StorageTarget_Target t, tgt_endpoint = StorageTarget_Endpoint t,
      tgt_bucket = StorageTarget_Bucket t, tgt_prefix = StorageTarget_Prefix t, tgt_active = 1,
      tgt_reconciled_at = 0, tgt_last_error = ''''\<rparr>
     (\<lambda>r. r\<lparr>tgt_endpoint := StorageTarget_Endpoint t, tgt_bucket := StorageTarget_Bucket t,
            tgt_prefix := StorageTarget_Prefix t, tgt_active := 1\<rparr>)"

definition ActivateStorageTarget :: "StorageTarget \<Rightarrow> unit dbop" where
  "ActivateStorageTarget t = transact (
     then_tx (exec (bucket_targets_update (put_target t)))
     (exec (bucket_targets_update (update_where
        (\<lambda>r. tgt_storage_target r \<noteq> StorageTarget_Target t) (\<lambda>r. r\<lparr>tgt_active := 0\<rparr>)))))"

definition get_StorageTarget :: "string \<Rightarrow> StorageTarget dbop" where
  "get_StorageTarget target =
     bind_tx (query (\<lambda>d. find (\<lambda>r. tgt_storage_target r = target) (bucket_targets d))) (\<lambda>row.
     ret (case row of
       None \<Rightarrow> \<lparr>StorageTarget_Target = target, StorageTarget_Endpoint = '''',
         StorageTarget_Bucket = '''', StorageTarget_Prefix = '''', StorageTarget_Active = False,
         StorageTarget_ReconciledAt = 0, StorageTarget_LastError = ''''\<rparr>
     | Some r \<Rightarrow> \<lparr>StorageTarget_Target = target, StorageTarget_Endpoint = tgt_endpoint r,
         StorageTarget_Bucket = tgt_bucket r, StorageTarget_Prefix = tgt_prefix r,
         StorageTarget_Active = (tgt_active r \<noteq> 0), StorageTarget_ReconciledAt = tgt_reconciled_at r,
         StorageTarget_LastError = tgt_last_error r\<rparr>))"

definition ensure_target :: "string \<Rightarrow> target_row list \<Rightarrow> target_row list" where
  "ensure_target target rows =
     (if list_ex (\<lambda>r. tgt_storage_target r = target) rows then rows
      else rows @ [\<lparr>tgt_storage_target = target, tgt_endpoint = '''', tgt_bucket = '''',
             tgt_prefix = '''', tgt_active = 0, tgt_reconciled_at = 0, tgt_last_error = ''''\<rparr>])"

definition SetTargetReconciled :: "string \<Rightarrow> gotime \<Rightarrow> string \<Rightarrow> unit dbop" where
  "SetTargetReconciled target at lastError =
     then_tx (exec (bucket_targets_update (ensure_target target)))
     (if lastError \<noteq> '''' then
        exec (bucket_targets_update (update_where (\<lambda>r. tgt_storage_target r = target)
          (\<lambda>r. r\<lparr>tgt_last_error := lastError\<rparr>)))
      else
        exec (bucket_targets_update (update_where (\<lambda>r. tgt_storage_target r = target)
          (\<lambda>r. r\<lparr>tgt_reconciled_at := unix at, tgt_last_error := ''''\<rparr>))))"

section \<open>The cache of the bucket\<close>

record BucketBackup =
  BB_ManifestKey :: string
  BB_ArchiveKey :: string
  BB_DBName :: string
  BB_TakenAt :: int
  BB_State :: string
  BB_InstallationID :: string
  BB_ProjectID :: string
  BB_ProjectName :: string
  BB_PostgresVersion :: string
  BB_TableCount :: int
  BB_SizeBytes :: int
  BB_DeleteStartedAt :: int

record PrefixState =
  PS_DBName :: string
  PS_ReconciledAt :: int
  PS_Complete :: int
  PS_ManifestOnly :: int
  PS_ArchiveOnly :: int
  PS_Damaged :: int
  PS_Mixed :: bool

definition scanBucketBackup :: "bucket_row \<Rightarrow> BucketBackup" where
  "scanBucketBackup r = \<lparr>BB_ManifestKey = bkt_manifest_key r, BB_ArchiveKey = bkt_archive_key r,
     BB_DBName = bkt_db_name r, BB_TakenAt = bkt_taken_at r, BB_State = bkt_state r,
     BB_InstallationID = bkt_installation_id r, BB_ProjectID = bkt_project_id r,
     BB_ProjectName = bkt_project_name r, BB_PostgresVersion = bkt_postgres_version r,
     BB_TableCount = bkt_table_count r, BB_SizeBytes = bkt_size_bytes r,
     BB_DeleteStartedAt = bkt_delete_started_at r\<rparr>"

definition bucket_row_of :: "string \<Rightarrow> BucketBackup \<Rightarrow> gotime \<Rightarrow> int \<Rightarrow> bucket_row" where
  "bucket_row_of target b now started = \<lparr>bkt_storage_target = target,
     bkt_manifest_key = BB_ManifestKey b, bkt_db_name = BB_DBName b, bkt_taken_at = BB_TakenAt b,
     bkt_state = BB_State b, bkt_archive_key = BB_ArchiveKey b,
     bkt_installation_id = BB_InstallationID b, bkt_project_id = BB_ProjectID b,
     bkt_project_name = BB_ProjectName b, bkt_postgres_version = BB_PostgresVersion b,
     bkt_table_count = BB_TableCount b, bkt_size_bytes = BB_SizeBytes b, bkt_seen_at = unix now,
     bkt_delete_started_at = started\<rparr>"

text \<open>Every column but the key is overwritten; the deletion marker is kept for an archive-only entry.\<close>

definition put_backup :: "string \<Rightarrow> gotime \<Rightarrow> BucketBackup \<Rightarrow> bucket_row list \<Rightarrow> bucket_row list" where
  "put_backup target now b = upsert
     (\<lambda>r. bkt_storage_target r = target \<and> bkt_manifest_key r = BB_ManifestKey b)
     (bucket_row_of target b now 0)
     (\<lambda>r. bucket_row_of target b now
        (if BB_State b = BackupArchiveOnly then bkt_delete_started_at r else 0))"

definition drop_backup :: "string \<Rightarrow> string \<Rightarrow> bucket_row list \<Rightarrow> bucket_row list" where
  "drop_backup target key = delete_where
     (\<lambda>r. bkt_storage_target r = target \<and> bkt_manifest_key r = key)"

definition put_prefix :: "string \<Rightarrow> gotime \<Rightarrow> PrefixState \<Rightarrow> prefix_row list \<Rightarrow> prefix_row list" where
  "put_prefix target now state =
     (let row = \<lparr>pfx_storage_target = target, pfx_db_name = PS_DBName state,
                 pfx_reconciled_at = unix now, pfx_complete = PS_Complete state,
                 pfx_manifest_only = PS_ManifestOnly state, pfx_archive_only = PS_ArchiveOnly state,
                 pfx_damaged = PS_Damaged state, pfx_mixed = (if PS_Mixed state then 1 else 0)\<rparr>
      in upsert (\<lambda>r. pfx_storage_target r = target \<and> pfx_db_name r = PS_DBName state) row (\<lambda>_. row))"

definition ReplacePrefix ::
  "string \<Rightarrow> PrefixState \<Rightarrow> BucketBackup list \<Rightarrow> gotime \<Rightarrow> unit dbop" where
  "ReplacePrefix target state bs now = transact (
     let keys = (\<lambda>k. list_ex (\<lambda>b. BB_ManifestKey b = k) bs) in
     bind_tx (query (\<lambda>d. map bkt_manifest_key (filter (\<lambda>r. bkt_storage_target r = target \<and>
        bkt_db_name r = PS_DBName state) (bucket_backups d)))) (\<lambda>rows.
     let gone = filter (\<lambda>k. \<not> keys k) rows in
     then_tx (for_each (\<lambda>key. exec (bucket_backups_update (drop_backup target key))) gone)
     (then_tx (for_each (\<lambda>b. exec (bucket_backups_update (put_backup target now b))) bs)
     (exec (bucket_prefixes_update (put_prefix target now state))))))"

definition empty_prefix :: "string \<Rightarrow> PrefixState" where
  "empty_prefix name = \<lparr>PS_DBName = name, PS_ReconciledAt = 0, PS_Complete = 0,
     PS_ManifestOnly = 0, PS_ArchiveOnly = 0, PS_Damaged = 0, PS_Mixed = False\<rparr>"

definition TombstonePrefixes :: "string \<Rightarrow> (string \<Rightarrow> bool) \<Rightarrow> gotime \<Rightarrow> unit dbop" where
  "TombstonePrefixes target present now =
     bind_tx (query (\<lambda>d. map pfx_db_name (filter (\<lambda>r. pfx_storage_target r = target)
       (bucket_prefixes d)))) (\<lambda>names.
     for_each (\<lambda>name. ReplacePrefix target (empty_prefix name) [] now)
       (filter (\<lambda>name. \<not> present name) names))"

definition PrefixStates :: "string \<Rightarrow> PrefixState list dbop" where
  "PrefixStates target = query (\<lambda>d. map (\<lambda>r. \<lparr>PS_DBName = pfx_db_name r,
     PS_ReconciledAt = pfx_reconciled_at r, PS_Complete = pfx_complete r,
     PS_ManifestOnly = pfx_manifest_only r, PS_ArchiveOnly = pfx_archive_only r,
     PS_Damaged = pfx_damaged r, PS_Mixed = (pfx_mixed r \<noteq> 0)\<rparr>)
     (sort_key pfx_db_name (filter (\<lambda>r. pfx_storage_target r = target) (bucket_prefixes d))))"

definition newest_first :: "bucket_row list \<Rightarrow> bucket_row list" where
  "newest_first rows = rev (sort_key (\<lambda>r. (bkt_taken_at r, bkt_manifest_key r)) rows)"

definition BucketBackups ::
  "string \<Rightarrow> string \<Rightarrow> int \<Rightarrow> nat \<Rightarrow> (BucketBackup list \<times> bool) dbop" where
  "BucketBackups target dbName before limit =
     (let before = (if before \<le> 0 then 2 ^ 62 - 1 else before) in
      bind_tx (query (\<lambda>d. map scanBucketBackup (take (limit + 1) (newest_first
        (filter (\<lambda>r. bkt_storage_target r = target \<and> bkt_db_name r = dbName \<and>
           bkt_state r = BackupComplete \<and> bkt_taken_at r < before) (bucket_backups d)))))) (\<lambda>out.
      if length out > limit then ret (take limit out, True) else ret (out, False)))"

definition PrefixBackups :: "string \<Rightarrow> string \<Rightarrow> BucketBackup list dbop" where
  "PrefixBackups target dbName = query (\<lambda>d. map scanBucketBackup (newest_first
     (filter (\<lambda>r. bkt_storage_target r = target \<and> bkt_db_name r = dbName) (bucket_backups d))))"

definition get_BucketBackup :: "string \<Rightarrow> string \<Rightarrow> BucketBackup dbop" where
  "get_BucketBackup target key =
     bind_tx (query (\<lambda>d. find (\<lambda>r. bkt_storage_target r = target \<and> bkt_manifest_key r = key)
       (bucket_backups d))) (\<lambda>row.
     case row of None \<Rightarrow> throw ErrProjectNotFound | Some r \<Rightarrow> ret (scanBucketBackup r))"

section \<open>Retention's intents and history\<close>

definition MarkBackupDeleting :: "string \<Rightarrow> string \<Rightarrow> gotime \<Rightarrow> unit dbop" where
  "MarkBackupDeleting target key now = exec (bucket_backups_update (update_where
     (\<lambda>r. bkt_storage_target r = target \<and> bkt_manifest_key r = key)
     (\<lambda>r. r\<lparr>bkt_delete_started_at := unix now\<rparr>)))"

definition MarkBackupArchiveOnly :: "string \<Rightarrow> string \<Rightarrow> unit dbop" where
  "MarkBackupArchiveOnly target key = exec (bucket_backups_update (update_where
     (\<lambda>r. bkt_storage_target r = target \<and> bkt_manifest_key r = key)
     (\<lambda>r. r\<lparr>bkt_state := BackupArchiveOnly\<rparr>)))"

definition ForgetBucketBackup :: "string \<Rightarrow> string \<Rightarrow> unit dbop" where
  "ForgetBucketBackup target key = exec (bucket_backups_update (drop_backup target key))"

definition DeleteLocalBackupRow :: "string \<Rightarrow> string \<Rightarrow> unit dbop" where
  "DeleteLocalBackupRow target objectKey = exec (backups_update (delete_where
     (\<lambda>b. bak_storage_target b = target \<and> bak_object_key b = objectKey)))"

definition is_lost :: "string \<Rightarrow> db \<Rightarrow> backup_row \<Rightarrow> bool" where
  "is_lost target d b \<longleftrightarrow> bak_storage_target b = target \<and>
     \<not> list_ex (\<lambda>r. bkt_storage_target r = bak_storage_target b \<and>
          bkt_manifest_key r = bak_object_key b \<and> bkt_state r = ''complete'') (bucket_backups d)"

definition ForgetLostLocalBackups :: "string \<Rightarrow> nat dbop" where
  "ForgetLostLocalBackups target = exec_affected (\<lambda>d.
     (count_where (is_lost target d) (backups d),
      d\<lparr>backups := delete_where (is_lost target d) (backups d)\<rparr>))"

definition AbandonedUploadKey :: "string \<Rightarrow> string \<Rightarrow> gotime \<Rightarrow> bool dbop" where
  "AbandonedUploadKey target key before = query (\<lambda>d. count_where (\<lambda>j. job_kind j = ''backup'' \<and>
     job_target_storage j = target \<and> job_target_key j = key \<and>
     (job_state j = ''failed'' \<or> job_state j = ''interrupted'') \<and>
     (case job_finished_at j of None \<Rightarrow> False | Some at \<Rightarrow> at > 0 \<and> at < unix before)) (jobs d) > 0)"

definition needs_cleaning :: "db \<Rightarrow> job_row \<Rightarrow> bool" where
  "needs_cleaning d j \<longleftrightarrow> list_ex (\<lambda>b. bkt_storage_target b = job_target_storage j \<and>
     bkt_state b = ''archive_only'' \<and> job_target_key j \<noteq> '''' \<and>
     sql_like (job_target_key j @ ''%'') (bkt_manifest_key b)) (bucket_backups d)"

definition reconciled_since :: "db \<Rightarrow> job_row \<Rightarrow> int \<Rightarrow> bool" where
  "reconciled_since d j at \<longleftrightarrow> list_ex (\<lambda>t. tgt_storage_target t = job_target_storage j \<and>
     tgt_reconciled_at t > at) (bucket_targets d)"

definition prunable :: "gotime \<Rightarrow> db \<Rightarrow> job_row \<Rightarrow> bool" where
  "prunable before d j \<longleftrightarrow>
     (case job_finished_at j of
        None \<Rightarrow> False
      | Some at \<Rightarrow> at > 0 \<and> at < unix before \<and> \<not> needs_cleaning d j \<and>
                   (job_target_key j = '''' \<or> reconciled_since d j at))"

definition PruneJobs :: "gotime \<Rightarrow> nat dbop" where
  "PruneJobs before = exec_affected (\<lambda>d. (count_where (prunable before d) (jobs d),
     d\<lparr>jobs := delete_where (prunable before d) (jobs d)\<rparr>))"

definition LateProjects :: "string \<Rightarrow> string \<Rightarrow> duration \<Rightarrow> gotime \<Rightarrow> Project list dbop" where
  "LateProjects target installationID interval now =
     bind_tx Projects (\<lambda>ps.
     bind_tx (NewestRecoverable target installationID) (\<lambda>newest.
     let deadline = unix (now - 3 * interval div 2) in
     ret (filter (\<lambda>p. Project_Stage p = ''ready'' \<and> \<not> Project_Failed p \<and>
       (case map_of newest (Project_ID p) of
          None \<Rightarrow> Project_ReadyAt p < deadline
        | Some at \<Rightarrow> at < deadline)) ps)))"

section \<open>Lemmas on the cache\<close>

definition bucket_key :: "bucket_row \<Rightarrow> string \<times> string" where
  "bucket_key r = (bkt_storage_target r, bkt_manifest_key r)"

definition bucket_lookup :: "string \<Rightarrow> string \<Rightarrow> db \<Rightarrow> bucket_row option" where
  "bucket_lookup t k d = find (\<lambda>r. bucket_key r = (t, k)) (bucket_backups d)"

text \<open>The deletion marker an entry of a new listing carries.\<close>

definition carried :: "BucketBackup \<Rightarrow> bucket_row option \<Rightarrow> int" where
  "carried b old = (if BB_State b = BackupArchiveOnly then
     (case old of None \<Rightarrow> 0 | Some r \<Rightarrow> bkt_delete_started_at r) else 0)"

lemma bucket_row_of_key [simp]: "bucket_key (bucket_row_of t b now n) = (t, BB_ManifestKey b)"
  by (simp add: bucket_key_def bucket_row_of_def)

lemma find_put_backup:
  "find (\<lambda>r. bucket_key r = q) (put_backup t now b rows) =
     (if q = (t, BB_ManifestKey b)
      then Some (bucket_row_of t b now (carried b (find (\<lambda>r. bucket_key r = q) rows)))
      else find (\<lambda>r. bucket_key r = q) rows)"
  unfolding put_backup_def
  by (subst find_upsert [of _ bucket_key "(t, BB_ManifestKey b)"])
    (auto simp: bucket_key_def [of "_ :: bucket_row"] bucket_row_of_def carried_def split: option.splits)

lemma find_put_backups:
  assumes "distinct (map BB_ManifestKey bs)"
  shows "find (\<lambda>r. bucket_key r = (t', k)) (fold (put_backup t now) bs rows) =
    (case find (\<lambda>b. BB_ManifestKey b = k) bs of
       Some b \<Rightarrow> if t' = t then Some (bucket_row_of t b now
                   (carried b (find (\<lambda>r. bucket_key r = (t', k)) rows)))
                 else find (\<lambda>r. bucket_key r = (t', k)) rows
     | None \<Rightarrow> find (\<lambda>r. bucket_key r = (t', k)) rows)"
  using assms
proof (induction bs arbitrary: rows)
  case (Cons b bs)
  have "find (\<lambda>b'. BB_ManifestKey b' = BB_ManifestKey b) bs = None"
    using Cons.prems by (simp add: find_key_None)
  with Cons show ?case by (auto simp: find_put_backup split: option.splits)
qed simp

lemma fold_drop_backup:
  "fold (drop_backup t) ks rows =
     delete_where (\<lambda>r. bkt_storage_target r = t \<and> bkt_manifest_key r \<in> set ks) rows"
proof (induction ks arbitrary: rows)
  case (Cons k ks)
  show ?case unfolding fold.simps o_apply Cons.IH
    by (auto simp: drop_backup_def delete_where_def intro: filter_cong)
qed (simp add: delete_where_def)

lemma find_delete_where:
  assumes "\<And>r. key r = q \<Longrightarrow> P r = p"
  shows "find (\<lambda>r. key r = q) (delete_where P rows) = (if p then None else find (\<lambda>r. key r = q) rows)"
  using assms by (induction rows) (auto simp: delete_where_def)

lemma ReplacePrefix_returns:
  assumes "returns (ReplacePrefix t state bs now) (d, fs) u d'"
  defines "gone \<equiv> filter (\<lambda>k. k \<notin> BB_ManifestKey ` set bs) (map bkt_manifest_key
    (filter (\<lambda>r. bkt_storage_target r = t \<and> bkt_db_name r = PS_DBName state) (bucket_backups d)))"
  shows "bucket_backups d' =
    fold (put_backup t now) bs (fold (drop_backup t) gone (bucket_backups d))"
proof -
  have keys: "list_ex (\<lambda>b. BB_ManifestKey b = k) bs \<longleftrightarrow> k \<in> BB_ManifestKey ` set bs" for k
    by (rule list_ex_key)
  have fold_b: "fold (\<lambda>x. bucket_backups_update (g x)) xs e = bucket_backups_update (fold g xs) e"
    for g :: "'z \<Rightarrow> bucket_row list \<Rightarrow> bucket_row list" and xs e
    by (induction xs arbitrary: e) (simp_all add: o_def)
  from assms(1) obtain s1 s2 fs1 u1 u2 where
    g: "for_each (\<lambda>key. exec (bucket_backups_update (drop_backup t key))) gone (d, fs1) = (Inr u1, s1)" and
    p: "for_each (\<lambda>b. exec (bucket_backups_update (put_backup t now b))) bs (fst s1, snd s1) = (Inr u2, s2)"
    and d': "d' = bucket_prefixes_update (put_prefix t now state) (fst s2)"
    by (auto simp: ReplacePrefix_def returns_iff tx_simps Let_def keys gone_def)
  show ?thesis
    unfolding d' using for_each_exec [OF g] for_each_exec [OF p] by (simp add: fold_b)
qed

lemma gone_iff:
  assumes "distinct (map bucket_key (bucket_backups d))"
  shows "k \<in> set (map bkt_manifest_key
      (filter (\<lambda>r. bkt_storage_target r = t \<and> bkt_db_name r = n) (bucket_backups d))) \<longleftrightarrow>
    (\<exists>r. bucket_lookup t k d = Some r \<and> bkt_db_name r = n)"
proof
  assume "\<exists>r. bucket_lookup t k d = Some r \<and> bkt_db_name r = n"
  then show "k \<in> set (map bkt_manifest_key
      (filter (\<lambda>r. bkt_storage_target r = t \<and> bkt_db_name r = n) (bucket_backups d)))"
    unfolding bucket_lookup_def by (auto simp: bucket_key_def dest!: find_Some_iff_mem)
next
  assume "k \<in> set (map bkt_manifest_key
      (filter (\<lambda>r. bkt_storage_target r = t \<and> bkt_db_name r = n) (bucket_backups d)))"
  then obtain r where r: "r \<in> set (bucket_backups d)" "bucket_key r = (t, k)" "bkt_db_name r = n"
    by (auto simp: bucket_key_def)
  then have "bucket_lookup t k d = Some r"
    using find_key_unique [OF assms r(1)] by (simp add: bucket_lookup_def)
  with r(3) show "\<exists>r. bucket_lookup t k d = Some r \<and> bkt_db_name r = n" by blast
qed

lemma ReplacePrefix_lookup:
  assumes "distinct (map bucket_key (bucket_backups d))" "distinct (map BB_ManifestKey bs)"
    and "returns (ReplacePrefix t state bs now) (d, fs) u d'"
  shows "bucket_lookup t' k d' =
    (if t' \<noteq> t then bucket_lookup t' k d
     else case find (\<lambda>b. BB_ManifestKey b = k) bs of
       Some b \<Rightarrow> Some (bucket_row_of t b now (carried b (bucket_lookup t k d)))
     | None \<Rightarrow> (case bucket_lookup t k d of
                  None \<Rightarrow> None
                | Some r \<Rightarrow> if bkt_db_name r = PS_DBName state then None else Some r))"
proof -
  define gone where "gone = filter (\<lambda>k. k \<notin> BB_ManifestKey ` set bs) (map bkt_manifest_key
    (filter (\<lambda>r. bkt_storage_target r = t \<and> bkt_db_name r = PS_DBName state) (bucket_backups d)))"
  have gone: "k \<in> set gone \<longleftrightarrow> find (\<lambda>b. BB_ManifestKey b = k) bs = None \<and>
      (\<exists>r. bucket_lookup t k d = Some r \<and> bkt_db_name r = PS_DBName state)"
    using gone_iff [OF assms(1), of k t "PS_DBName state"] by (auto simp: gone_def find_key_None)
  have "find (\<lambda>r. bucket_key r = (t', k)) (fold (drop_backup t) gone (bucket_backups d)) =
      (if t' = t \<and> k \<in> set gone then None else bucket_lookup t' k d)"
    unfolding fold_drop_backup bucket_lookup_def by (rule find_delete_where) (auto simp: bucket_key_def)
  then have "bucket_lookup t' k d' =
      (case find (\<lambda>b. BB_ManifestKey b = k) bs of
         Some b \<Rightarrow> if t' = t then Some (bucket_row_of t b now (carried b (bucket_lookup t k d)))
                   else bucket_lookup t' k d
       | None \<Rightarrow> if t' = t \<and> k \<in> set gone then None else bucket_lookup t' k d)"
    unfolding bucket_lookup_def [of t' k d'] ReplacePrefix_returns [OF assms(3), folded gone_def]
      find_put_backups [OF assms(2)] using gone by (auto split: option.splits)
  then show ?thesis using gone by (auto split: option.splits)
qed

lemma max_of_props:
  "max_of xs = None \<longleftrightarrow> xs = []"
  "max_of xs = Some m \<Longrightarrow> m \<in> set xs \<and> (\<forall>x \<in> set xs. x \<le> m)"
proof -
  show "max_of xs = None \<longleftrightarrow> xs = []" by (simp add: max_of_def split: list.splits)
  have "fold max ys y \<in> insert y (set ys) \<and> (\<forall>z \<in> insert y (set ys). z \<le> fold max ys y)" for ys and y :: int
  proof (induction ys arbitrary: y)
    case (Cons a ys)
    from Cons.IH [of "max a y"] show ?case by (auto simp: max_def split: if_splits)
  qed simp
  then show "m \<in> set xs \<and> (\<forall>x \<in> set xs. x \<le> m)" if "max_of xs = Some m"
    using that by (auto simp: max_of_def split: list.splits)
qed

section \<open>Properties\<close>

text \<open>
  A complete listing of one database prefix replaces what was recorded of it and nothing else:
  every listed entry is stored, an entry that is no longer listed is gone, entries of other
  databases and other stores stay, and a deletion marker survives only on an entry that is still
  seen without its manifest.
\<close>

theorem ReplacePrefix_exact:
  assumes "distinct (map bucket_key (bucket_backups d))" "distinct (map BB_ManifestKey bs)"
    and "returns (ReplacePrefix t state bs now) (d, fs) u d'"
  shows "bucket_lookup t' k d' =
    (if t' \<noteq> t then bucket_lookup t' k d
     else case find (\<lambda>b. BB_ManifestKey b = k) bs of
       Some b \<Rightarrow> Some (bucket_row_of t b now (carried b (bucket_lookup t k d)))
     | None \<Rightarrow> (case bucket_lookup t k d of
                  None \<Rightarrow> None
                | Some r \<Rightarrow> if bkt_db_name r = PS_DBName state then None else Some r))"
  using assms by (rule ReplacePrefix_lookup)

definition sample_backup :: "string \<Rightarrow> string \<Rightarrow> BucketBackup" where
  "sample_backup key state = \<lparr>BB_ManifestKey = key, BB_ArchiveKey = key @ ''.dump'', BB_DBName = ''shop'',
     BB_TakenAt = 7, BB_State = state, BB_InstallationID = ''i'', BB_ProjectID = ''1'',
     BB_ProjectName = ''shop'', BB_PostgresVersion = ''17'', BB_TableCount = 3, BB_SizeBytes = 10,
     BB_DeleteStartedAt = 0\<rparr>"

definition cached :: db where
  "cached = empty_db\<lparr>bucket_backups := [bucket_row_of ''t'' (sample_backup ''a'' ''complete'') 0 4,
     bucket_row_of ''t'' (sample_backup ''b'' ''archive_only'') 0 5]\<rparr>"

theorem ReplacePrefix_exact_witness:
  "let d' = leaves (ReplacePrefix ''t'' (empty_prefix ''shop'') [sample_backup ''b'' ''archive_only''] 0) (cached, [])
   in bucket_lookup ''t'' ''a'' d' = None \<and>
      map_option bkt_delete_started_at (bucket_lookup ''t'' ''b'' d') = Some 5"
proof -
  define bs where "bs = [sample_backup ''b'' ''archive_only'']"
  define d' where "d' = leaves (ReplacePrefix ''t'' (empty_prefix ''shop'') bs 0) (cached, [])"
  have "succeeds (ReplacePrefix ''t'' (empty_prefix ''shop'') bs 0) (cached, [])"
    unfolding bs_def by code_simp
  note r = succeeds_leaves [OF this, folded d'_def]
  have n: "PS_DBName (empty_prefix ''shop'') = ''shop''" by (simp add: empty_prefix_def)
  have "distinct (map bucket_key (bucket_backups cached))" by (simp add: cached_def sample_backup_def)
  moreover have "distinct (map BB_ManifestKey bs)" by (simp add: bs_def)
  ultimately have l: "bucket_lookup ''t'' k d' = (case find (\<lambda>b. BB_ManifestKey b = k) bs of
       Some b \<Rightarrow> Some (bucket_row_of ''t'' b 0 (carried b (bucket_lookup ''t'' k cached)))
     | None \<Rightarrow> (case bucket_lookup ''t'' k cached of
                  None \<Rightarrow> None
                | Some r \<Rightarrow> if bkt_db_name r = ''shop'' then None else Some r))" for k
    using ReplacePrefix_exact [OF _ _ r, of "''t''" k, unfolded n] by simp
  show ?thesis unfolding Let_def d'_def [unfolded bs_def, symmetric] l
    by (simp add: bs_def sample_backup_def cached_def bucket_lookup_def bucket_row_of_def
        bucket_key_def carried_def BackupArchiveOnly_def)
qed

text \<open>
  Pruning keeps provenance: a job row that is gone was finished before the cut-off, its
  directory (when it had one) has no archive left to clean in the cache, and its store had a complete
  reconciliation after it finished; queued and running jobs are never pruned.
\<close>

theorem PruneJobs_provenance:
  assumes "returns (PruneJobs before) (d, fs) n d'" and "j \<in> set (jobs d)" "j \<notin> set (jobs d')"
  shows "\<exists>at. job_finished_at j = Some at \<and> at < unix before \<and>
    (job_target_key j \<noteq> '''' \<longrightarrow> reconciled_since d j at \<and>
      (\<forall>b \<in> set (bucket_backups d). bkt_storage_target b = job_target_storage j \<and>
         bkt_state b = ''archive_only'' \<longrightarrow> \<not> sql_like (job_target_key j @ ''%'') (bkt_manifest_key b)))"
proof -
  have "prunable before d j"
    using assms by (auto simp: PruneJobs_def returns_iff tx_simps)
  then show ?thesis
    by (auto simp: prunable_def needs_cleaning_def list_ex_iff split: option.splits)
qed

definition old_job :: job_row where
  "old_job = (queued_job ''j'' ''backup'' None ''{}'' 0 0)\<lparr>job_state := ''failed'', job_finished_at := Some 10,
     job_target_storage := ''t'', job_target_key := ''shop/1/''\<rparr>"

definition reconciled_store :: db where
  "reconciled_store = empty_db\<lparr>jobs := [old_job], bucket_targets := [\<lparr>tgt_storage_target = ''t'',
     tgt_endpoint = '''', tgt_bucket = '''', tgt_prefix = '''', tgt_active = 1,
     tgt_reconciled_at = 50, tgt_last_error = ''''\<rparr>]\<rparr>"

theorem PruneJobs_provenance_witness:
  "jobs (leaves (PruneJobs (100 * second)) (reconciled_store, [])) = [] \<and>
   reconciled_since reconciled_store old_job 10"
proof -
  define d' where "d' = leaves (PruneJobs (100 * second)) (reconciled_store, [])"
  have "succeeds (PruneJobs (100 * second)) (reconciled_store, [])" by code_simp
  note r = succeeds_leaves [OF this, folded d'_def]
  have none: "jobs d' = []" unfolding d'_def by code_simp
  have "old_job \<in> set (jobs reconciled_store)" by (simp add: reconciled_store_def)
  from PruneJobs_provenance [OF r this] none
  show ?thesis unfolding d'_def [symmetric] by (auto simp: old_job_def)
qed

text \<open>
  Another server's backups never satisfy a local schedule: which projects are due, and in which
  order, depends only on the cached backups that carry this installation's id.
\<close>

theorem foreign_backups_ignored:
  assumes "filter (\<lambda>b. bkt_installation_id b = me) (bucket_backups d) =
           filter (\<lambda>b. bkt_installation_id b = me) (bucket_backups d')"
    and "projects d' = projects d" "backup_schedule d' = backup_schedule d"
  shows "fst (BackupCandidates target me now due (d', [])) =
         fst (BackupCandidates target me now due (d, []))"
proof -
  have own: "filter (recoverable target me p) rows =
      filter (recoverable target me p) (filter (\<lambda>b. bkt_installation_id b = me) rows)" for p rows
    by (auto simp: recoverable_def intro: filter_cong)
  have "newest_of target me p d' = newest_of target me p d" for p
    unfolding newest_of_def own [of p "bucket_backups d'"] own [of p "bucket_backups d"] assms(1) ..
  then have "is_candidate target me now due d' = is_candidate target me now due d"
    by (simp add: fun_eq_iff is_candidate_def schedule_of_def assms(3))
  moreover have "attempt_order d' = attempt_order d"
    by (simp add: fun_eq_iff attempt_order_def schedule_of_def assms(3))
  ultimately show ?thesis by (simp add: BackupCandidates_def query_healthy assms(2))
qed

theorem foreign_backups_ignored_witness:
  "let d = running_backup;
       d' = running_backup\<lparr>bucket_backups := [bucket_row_of ''t''
              ((sample_backup ''a'' ''complete'')\<lparr>BB_InstallationID := ''other'', BB_ProjectID := ''p'',
                BB_DBName := ''p'', BB_TakenAt := 1000\<rparr>) 0 0]\<rparr>
   in fst (BackupCandidates ''t'' ''me'' (100 * second) (50 * second) (d', [])) =
      fst (BackupCandidates ''t'' ''me'' (100 * second) (50 * second) (d, [])) \<and>
      projr (fst (BackupCandidates ''t'' ''me'' (100 * second) (50 * second) (d, []))) \<noteq> []"
proof -
  have "projr (fst (BackupCandidates ''t'' ''me'' (100 * second) (50 * second) (running_backup, []))) \<noteq> []"
    by code_simp
  then show ?thesis
    unfolding Let_def
    by (intro conjI foreign_backups_ignored)
      (simp_all add: running_backup_def empty_db_def bucket_row_of_def sample_backup_def)
qed

text \<open>
  After a store was activated it is the one active store, every store known before is still
  known, and its reconciliation time is kept.
\<close>

theorem ActivateStorageTarget_one_active:
  assumes "returns (ActivateStorageTarget t) (d, fs) u d'"
  shows "(\<forall>r \<in> set (bucket_targets d'). tgt_active r = 1 \<longleftrightarrow> tgt_storage_target r = StorageTarget_Target t) \<and>
    (\<exists>r \<in> set (bucket_targets d'). tgt_active r = 1) \<and>
    (\<forall>r \<in> set (bucket_targets d). \<exists>r' \<in> set (bucket_targets d').
       tgt_storage_target r' = tgt_storage_target r \<and> tgt_reconciled_at r' = tgt_reconciled_at r)"
proof -
  define rows where "rows = put_target t (bucket_targets d)"
  have d': "bucket_targets d' = update_where (\<lambda>r. tgt_storage_target r \<noteq> StorageTarget_Target t)
      (\<lambda>r. r\<lparr>tgt_active := 0\<rparr>) rows"
    using assms by (auto simp: ActivateStorageTarget_def returns_iff tx_simps rows_def)
  have act: "\<forall>r \<in> set rows. tgt_storage_target r = StorageTarget_Target t \<longrightarrow> tgt_active r = 1"
    and ex: "\<exists>r \<in> set rows. tgt_storage_target r = StorageTarget_Target t"
    by (auto simp: rows_def put_target_def upsert_def list_ex_iff ball_update_where bex_key_update_where)
  have kept: "\<exists>r' \<in> set rows. tgt_storage_target r' = tgt_storage_target r \<and>
      tgt_reconciled_at r' = tgt_reconciled_at r" if "r \<in> set (bucket_targets d)" for r
    using that unfolding rows_def put_target_def upsert_def
    by (auto simp: bex_update_where)
  have "\<forall>r \<in> set (bucket_targets d'). tgt_active r = 1 \<longleftrightarrow> tgt_storage_target r = StorageTarget_Target t"
    unfolding d' ball_update_where using act by simp
  moreover have "\<exists>r \<in> set (bucket_targets d'). tgt_storage_target r = StorageTarget_Target t"
    unfolding d' using ex by (simp add: bex_key_update_where)
  moreover have "\<exists>r' \<in> set (bucket_targets d'). tgt_storage_target r' = tgt_storage_target r \<and>
      tgt_reconciled_at r' = tgt_reconciled_at r" if "r \<in> set (bucket_targets d)" for r
    unfolding d' using kept [OF that]
    by (auto simp: bex_update_where)
  ultimately show ?thesis by blast
qed

theorem ActivateStorageTarget_one_active_witness:
  "let t = \<lparr>StorageTarget_Target = ''new'', StorageTarget_Endpoint = '''', StorageTarget_Bucket = '''',
            StorageTarget_Prefix = '''', StorageTarget_Active = True, StorageTarget_ReconciledAt = 0,
            StorageTarget_LastError = ''''\<rparr>;
       d' = leaves (ActivateStorageTarget t) (reconciled_store, [])
   in (\<exists>r \<in> set (bucket_targets d'). tgt_active r = 1) \<and>
      (\<exists>r' \<in> set (bucket_targets d'). tgt_storage_target r' = ''t'' \<and> tgt_reconciled_at r' = 50)"
proof -
  define t where "t = \<lparr>StorageTarget_Target = ''new'', StorageTarget_Endpoint = '''',
    StorageTarget_Bucket = '''', StorageTarget_Prefix = '''', StorageTarget_Active = True,
    StorageTarget_ReconciledAt = 0, StorageTarget_LastError = ''''\<rparr>"
  define d' where "d' = leaves (ActivateStorageTarget t) (reconciled_store, [])"
  have "succeeds (ActivateStorageTarget t) (reconciled_store, [])" unfolding t_def by code_simp
  from ActivateStorageTarget_one_active [OF succeeds_leaves [OF this, folded d'_def]]
  show ?thesis unfolding Let_def t_def [symmetric] d'_def [symmetric] by (auto simp: reconciled_store_def)
qed

section \<open>Late projects are due\<close>

lemma DueBefore_ge:
  assumes "Validate_policy p = Inr ()"
  shows "unix now - bpo_target_interval_hours p * 3600 - 1 \<le> unix (DueBefore p now)"
proof (cases "hourly p")
  case True
  with assms have h: "0 \<le> bpo_preferred_hour p" "bpo_preferred_hour p \<le> 23"
    and i: "bpo_target_interval_hours p = 24"
    by (auto simp: hourly_def Validate_policy_ok)
  have "0 \<le> unix now mod 86400" "unix now mod 86400 < 86400"
    "unix now = unix now div 86400 * 86400 + unix now mod 86400" by simp_all
  with h i show ?thesis unfolding DueBefore_hourly [OF True] Let_def by (simp; linarith)
next
  case False
  have "unix (now - Interval p) = unix now - bpo_target_interval_hours p * 3600"
    unfolding Interval_def unix_def by linarith
  with False show ?thesis by (simp add: DueBefore_def)
qed

lemma late_deadline:
  assumes "Validate_policy p = Inr ()"
  shows "unix (now - 3 * Interval p div 2) < unix (DueBefore p now)"
proof -
  have "3 * Interval p div 2 = (bpo_target_interval_hours p * 5400) * second"
    by (simp add: Interval_def)
  then have "unix (now - 3 * Interval p div 2) = unix now - bpo_target_interval_hours p * 5400"
    using unix_minus [of now "bpo_target_interval_hours p * 5400"] by simp
  moreover have "bpo_target_interval_hours p \<ge> 1" using assms by (auto simp: Validate_policy_ok)
  ultimately show ?thesis using DueBefore_ge [OF assms, of now] by linarith
qed

lemma map_of_newest:
  assumes "distinct (map prj_id rows)" "p \<in> set rows"
  shows "map_of (concat (map (\<lambda>p. case f p of None \<Rightarrow> [] | Some at \<Rightarrow> [(prj_id p, at)]) rows)) (prj_id p) = f p"
  using assms
proof (induction rows)
  case (Cons q rows)
  have none: "map_of (concat (map (\<lambda>p. case f p of None \<Rightarrow> [] | Some at \<Rightarrow> [(prj_id p, at)]) rows)) k = None"
    if "k \<notin> prj_id ` set rows" for k
    using that by (induction rows) (auto split: option.splits simp: map_add_def)
  show ?case
  proof (cases "p = q")
    case True
    with Cons.prems none [of "prj_id q"] show ?thesis by (auto split: option.splits simp: map_add_def)
  next
    case False
    with Cons.prems(2) have p: "p \<in> set rows" by simp
    then have "prj_id p \<in> prj_id ` set rows" by (rule imageI)
    with Cons.prems(1) have "prj_id p \<noteq> prj_id q" by auto
    with Cons p show ?thesis by (auto split: option.splits simp: map_add_def)
  qed
qed simp

text \<open>
  A project that is reported late is one the scheduler would back up: with the validated policy
  in force, a late project whose backoff has expired is among the candidates.
\<close>

theorem late_is_candidate:
  assumes "Validate_policy pol = Inr ()" and "distinct (map prj_id (projects d))"
    and "0 \<le> unix (DueBefore pol now)"
    and "returns (LateProjects target me (Interval pol) now) (d, fs) late d1"
    and "returns (BackupCandidates target me now (DueBefore pol now)) (d, fs') cands d2"
    and "p \<in> set (projects d)" "scanProject p \<in> set late"
    and "\<forall>s. schedule_of p d = Some s \<longrightarrow> sch_next_attempt_at s \<le> unix now" "0 \<le> unix now"
  shows "scanProject p \<in> set cands"
proof -
  from assms(4,7) have ready: "prj_stage p = ''ready''" "prj_failed p = 0" and
    late: "case map_of (concat (map (\<lambda>p. case newest_of target me p d of None \<Rightarrow> []
       | Some at \<Rightarrow> [(prj_id p, at)]) (projects d))) (prj_id p) of
         None \<Rightarrow> True | Some at \<Rightarrow> at < unix (now - 3 * Interval pol div 2)"
    by (auto simp: LateProjects_def Projects_def NewestRecoverable_def returns_iff tx_simps Let_def
        scanProject_def split: option.splits)
  have "coalesce (newest_of target me p d) 0 \<le> unix (DueBefore pol now)"
    using late late_deadline [OF assms(1), of now] assms(3)
    unfolding map_of_newest [OF assms(2,6)] by (auto simp: coalesce_def split: option.splits)
  moreover have "coalesce (map_option sch_next_attempt_at (schedule_of p d)) 0 \<le> unix now"
    using assms(8,9) by (auto simp: coalesce_def split: option.splits)
  ultimately have "is_candidate target me now (DueBefore pol now) d p"
    using ready by (simp add: is_candidate_def)
  then show ?thesis
    using assms(5,6) by (auto simp: BackupCandidates_def returns_iff tx_simps)
qed

theorem late_is_candidate_witness:
  "let now = 200000 * second; pol = backup_policy empty_db;
       cands = projr (fst (BackupCandidates ''t'' ''me'' now (DueBefore pol now) (running_backup, [])))
   in scanProject (hd (projects running_backup)) \<in> set cands"
proof -
  define pol where "pol = backup_policy empty_db"
  define late where
    "late = projr (fst (LateProjects ''t'' ''me'' (Interval pol) (200000 * second) (running_backup, [])))"
  define cands where "cands = projr (fst (BackupCandidates ''t'' ''me'' (200000 * second)
    (DueBefore pol (200000 * second)) (running_backup, [])))"
  have "succeeds (LateProjects ''t'' ''me'' (Interval pol) (200000 * second)) (running_backup, [])"
    unfolding pol_def by code_simp
  note l = succeeds_leaves [OF this, folded late_def]
  have "succeeds (BackupCandidates ''t'' ''me'' (200000 * second)
      (DueBefore pol (200000 * second))) (running_backup, [])" unfolding pol_def by code_simp
  note c = succeeds_leaves [OF this, folded cands_def]
  have v: "Validate_policy pol = Inr ()" unfolding pol_def by code_simp
  have due: "0 \<le> unix (DueBefore pol (200000 * second))" unfolding pol_def by code_simp
  have "late = map scanProject (projects running_backup)" unfolding late_def pol_def by code_simp
  then have m: "scanProject (hd (projects running_backup)) \<in> set late"
    by (simp add: running_backup_def)
  have "scanProject (hd (projects running_backup)) \<in> set cands"
    by (rule late_is_candidate [OF v _ due l c _ m])
      (simp_all add: running_backup_def empty_db_def schedule_of_def unix_def)
  then show ?thesis unfolding Let_def pol_def cands_def .
qed

end
