(* ===== verification/Store_Deletion.thy ===== *)
theory Store_Deletion
  imports Store_Backups
begin

text \<open>
  \<^verbatim>\<open>internal/store/deletion.go\<close>: marking a project for deletion, queueing and resuming the delete
  job, and removing what the project left. The callback \<^verbatim>\<open>newJob\<close> that names the job is a
  parameter.
\<close>

definition delete_active :: "string \<Rightarrow> job_row \<Rightarrow> bool" where
  "delete_active pid j \<longleftrightarrow> job_project_id j = Some pid \<and> job_kind j = ''delete'' \<and> active_job j"

definition insertDeleteJob :: "string \<Rightarrow> string \<Rightarrow> string \<Rightarrow> gotime \<Rightarrow> unit dbop" where
  "insertDeleteJob jid projectID input now =
     exec_insert (insert_job (queued_job jid ''delete'' (Some projectID) input 0 now))"

definition mark_deleting :: "string \<Rightarrow> gotime \<Rightarrow> db \<Rightarrow> db" where
  "mark_deleting pid now = projects_update (update_where (\<lambda>r. prj_id r = pid)
     (\<lambda>r. r\<lparr>prj_stage := ''deleting'', prj_failed := 0, prj_stage_error := '''',
            prj_deleting_at := Some (unix now)\<rparr>))"

definition cancel_queued :: "string \<Rightarrow> gotime \<Rightarrow> db \<Rightarrow> db" where
  "cancel_queued pid now = jobs_update (update_where
     (\<lambda>j. job_project_id j = Some pid \<and> job_state j = ''queued'' \<and> job_kind j \<noteq> ''delete'')
     (\<lambda>j. j\<lparr>job_state := ''failed'', job_error := ''Cancelled: the database is being deleted.'',
            job_finished_at := Some (unix now)\<rparr>))"

definition drop_backup_conditions :: "string \<Rightarrow> db \<Rightarrow> db" where
  "drop_backup_conditions pid = alert_conditions_update (delete_where
     (\<lambda>r. con_key r = ''backup_failed:'' @ pid \<or> con_key r = ''backup_stale:'' @ pid))"

text \<open>
  The transaction leaves early with the delete job that is already waiting or running (the left
  summand), or commits and gives the id of the new job and whether the tombstone is new.
\<close>

definition queue_deletion ::
  "string \<Rightarrow> Project \<Rightarrow> (Project \<Rightarrow> string \<times> string) \<Rightarrow> gotime \<Rightarrow> bool \<Rightarrow>
   ((Job + (string \<times> bool)) + (Job + (string \<times> bool))) dbop" where
  "queue_deletion projectID p newJob now created =
     then_tx (insertDeleteJob (fst (newJob p)) projectID (snd (newJob p)) now)
     (ret (Inr (Inr (fst (newJob p), created))))"

definition retry_deletion ::
  "string \<Rightarrow> Project \<Rightarrow> (Project \<Rightarrow> string \<times> string) \<Rightarrow> AuditEntry \<Rightarrow> gotime \<Rightarrow>
   ((Job + (string \<times> bool)) + (Job + (string \<times> bool))) dbop" where
  "retry_deletion projectID p newJob entry now =
     bind_tx (query (\<lambda>d. first_by job_created_at (filter (delete_active projectID) (jobs d))))
     (\<lambda>active. case active of
        None \<Rightarrow>
          then_tx (audit (entry\<lparr>AuditEntry_Action := ''project.delete.retry''\<rparr>))
          (queue_deletion projectID p newJob now False)
      | Some j \<Rightarrow> ret (Inl (Inl (scanJob j))))"

definition fresh_deletion ::
  "string \<Rightarrow> Project \<Rightarrow> (Project \<Rightarrow> string \<times> string) \<Rightarrow> AuditEntry \<Rightarrow> gotime \<Rightarrow>
   ((Job + (string \<times> bool)) + (Job + (string \<times> bool))) dbop" where
  "fresh_deletion projectID p newJob entry now =
     (if Project_Stage p \<noteq> ''ready'' \<and> \<not> Project_Failed p then throw ErrNotDeletable else
      bind_tx (query (\<lambda>d. count_where (\<lambda>j. job_project_id j = Some projectID \<and>
         job_state j = ''running'') (jobs d))) (\<lambda>running.
      if running > 0 then throw ErrProjectBusy else
      then_tx (exec (mark_deleting projectID now))
      (then_tx (exec (cancel_queued projectID now))
      (then_tx (audit entry)
      (then_tx (exec (drop_backup_conditions projectID))
      (queue_deletion projectID p newJob now True))))))"

definition begin_deletion ::
  "string \<Rightarrow> (Project \<Rightarrow> string \<times> string) \<Rightarrow> AuditEntry \<Rightarrow> gotime \<Rightarrow> (Job + (string \<times> bool)) dbop" where
  "begin_deletion projectID newJob entry now = transact_exit (
     bind_tx maintenance (\<lambda>on. if on then throw ErrMaintenance else
     bind_tx (query (\<lambda>d. find (\<lambda>r. prj_id r = projectID) (projects d))) (\<lambda>row.
     case row of
       None \<Rightarrow> throw ErrProjectNotFound
     | Some r \<Rightarrow>
         if Project_Stage (scanProject r) = ''deleting''
         then retry_deletion projectID (scanProject r) newJob entry now
         else fresh_deletion projectID (scanProject r) newJob entry now)))"

definition BeginProjectDeletion ::
  "string \<Rightarrow> (Project \<Rightarrow> string \<times> string) \<Rightarrow> AuditEntry \<Rightarrow> gotime \<Rightarrow> (Job \<times> bool) dbop" where
  "BeginProjectDeletion projectID newJob entry now =
     bind_tx (begin_deletion projectID newJob entry now) (\<lambda>r.
     case r of
       Inl active \<Rightarrow> ret (active, False)
     | Inr (jid, created) \<Rightarrow> bind_tx (get_Job jid) (\<lambda>job. ret (job, created)))"

definition deletion_order :: "project_row \<Rightarrow> int \<times> string" where
  "deletion_order r = (coalesce (prj_deleting_at r) 0, prj_id r)"

definition pending_deletions :: "db \<Rightarrow> Project list" where
  "pending_deletions d = map scanProject (sort_key deletion_order
     (filter (\<lambda>r. prj_stage r = ''deleting'' \<and> \<not> list_ex (delete_active (prj_id r)) (jobs d))
       (projects d)))"

definition ResumeDeletions :: "(Project \<Rightarrow> string \<times> string) \<Rightarrow> gotime \<Rightarrow> nat dbop" where
  "ResumeDeletions newJob now = transact_exit (
     bind_tx maintenance (\<lambda>on. if on then ret (Inl 0) else
     bind_tx (query pending_deletions) (\<lambda>pending.
     then_tx (for_each (\<lambda>p. let (jid, input) = newJob p in
        insertDeleteJob jid (Project_ID p) input now) pending)
     (ret (Inr (length pending))))))"

definition LastDeleteJob :: "string \<Rightarrow> Job option dbop" where
  "LastDeleteJob projectID = query (\<lambda>d.
     let rows = sort_key job_created_at
       (filter (\<lambda>j. job_project_id j = Some projectID \<and> job_kind j = ''delete'') (jobs d))
     in if rows = [] then None else Some (scanJob (last rows)))"

definition forget_project_rows :: "string \<Rightarrow> (db \<Rightarrow> db) list" where
  "forget_project_rows pid =
     [project_secrets_update (delete_where (\<lambda>r. sec_project_id r = pid)),
      policy_revisions_update (delete_where (\<lambda>r. rev_project_id r = pid)),
      policy_state_update (delete_where (\<lambda>r. pol_project_id r = pid)),
      connection_checks_update (delete_where (\<lambda>r. chk_project_id r = pid)),
      project_limits_update (delete_where (\<lambda>r. lim_project_id r = pid)),
      backup_schedule_update (delete_where (\<lambda>r. sch_project_id r = pid)),
      jobs_update (update_where (\<lambda>j. job_project_id j = Some pid) (\<lambda>j. j\<lparr>job_project_id := None\<rparr>)),
      backups_update (update_where (\<lambda>b. bak_project_id b = Some pid) (\<lambda>b. b\<lparr>bak_project_id := None\<rparr>)),
      projects_update (delete_where (\<lambda>r. prj_id r = pid))]"

definition deleted_detail :: "Project \<Rightarrow> string" where
  "deleted_detail p = ''Project '' @ Project_Name p @ '' ('' @ Project_DBName p @
     '') and its PostgreSQL user were removed. Its backups stay in the bucket under the retention policy.''"

definition CompleteProjectDeletion :: "string \<Rightarrow> Project \<Rightarrow> string \<Rightarrow> gotime \<Rightarrow> unit dbop" where
  "CompleteProjectDeletion jobID p result now = transact (
     bind_tx (query (\<lambda>d. find (\<lambda>r. prj_id r = Project_ID p) (projects d))) (\<lambda>row.
     if (case row of None \<Rightarrow> True | Some r \<Rightarrow> prj_stage r \<noteq> ''deleting'')
     then throw (EMsg ''the project is no longer marked for deletion'') else
     then_tx (for_each exec (forget_project_rows (Project_ID p)))
     (then_tx (exec (finish_row jobID ''succeeded'' ''done'' '''' result now))
     (RecordAlertEvent ''project_deleted'' (''project_deleted:'' @ Project_ID p) ''A database was deleted''
        (deleted_detail p) now))))"

definition FailDeleteJob ::
  "string \<Rightarrow> string \<Rightarrow> string \<Rightarrow> string \<Rightarrow> string \<Rightarrow> string \<Rightarrow> gotime \<Rightarrow> unit dbop" where
  "FailDeleteJob jobID projectID projectName stage message result now = transact (
     bind_tx (query (\<lambda>d. count_where (\<lambda>j. job_project_id j = Some projectID \<and> job_kind j = ''delete'' \<and>
        job_state j = ''failed'' \<and> job_id j \<noteq> jobID) (jobs d))) (\<lambda>earlier.
     then_tx (exec (finish_row jobID ''failed'' stage message result now))
     (if earlier = 0 \<and> projectID \<noteq> '''' then
        RecordAlertEvent ''delete_failed'' (''delete_failed:'' @ projectID)
          (''Deleting '' @ projectName @ '' did not finish'')
          (''It stopped at stage '' @ stage @ '': '' @ message @
           '' It is retried automatically every 15 minutes; see the database page.'') now
      else ret ())))"

section \<open>The effect of the operations\<close>

definition begun ::
  "string \<Rightarrow> string \<Rightarrow> string \<Rightarrow> AuditEntry \<Rightarrow> gotime \<Rightarrow> bool \<Rightarrow> db \<Rightarrow> db" where
  "begun pid jid input entry now created d =
     (let d1 = (if created then drop_backup_conditions pid
                  (audited entry (cancel_queued pid now (mark_deleting pid now d)))
                else audited (entry\<lparr>AuditEntry_Action := ''project.delete.retry''\<rparr>) d)
      in d1\<lparr>jobs := jobs d1 @ [queued_job jid ''delete'' (Some pid) input 0 now]\<rparr>)"

lemma insertDeleteJob_Inr [tx_simps]:
  "insertDeleteJob jid pid input now s = (Inr u, s') \<longleftrightarrow>
     \<not> fails_now (snd s) \<and> jid \<notin> job_id ` set (jobs (fst s)) \<and> project_exists pid (fst s) \<and>
     s' = ((fst s)\<lparr>jobs := jobs (fst s) @ [queued_job jid ''delete'' (Some pid) input 0 now]\<rparr>, tl (snd s))"
  by (auto simp: insertDeleteJob_def exec_insert_Inr insert_job_Some queued_job_def)

lemma audit_Inr [tx_simps]:
  "audit entry s = (Inr u, s') \<longleftrightarrow> \<not> fails_now (snd s) \<and> s' = (audited entry (fst s), tl (snd s))"
  by (simp add: audit_def exec_Inr)

lemma begun_frame:
  "map job_id (jobs (begun pid jid input entry now created d)) = map job_id (jobs d) @ [jid]"
  "projects (begun pid jid input entry now True d) = projects (mark_deleting pid now d)"
  "projects (begun pid jid input entry now False d) = projects d"
  by (simp_all add: begun_def Let_def drop_backup_conditions_def audited_def cancel_queued_def
      mark_deleting_def queued_job_def map_update_where)

lemma queue_deletion_Inr:
  "queue_deletion pid p newJob now c s = (Inr x, s') \<Longrightarrow>
     fst (newJob p) \<notin> job_id ` set (jobs (fst s)) \<and> x = Inr (Inr (fst (newJob p), c)) \<and>
     fst s' = (fst s)\<lparr>jobs := jobs (fst s) @
       [queued_job (fst (newJob p)) ''delete'' (Some pid) (snd (newJob p)) 0 now]\<rparr>"
  by (auto simp: queue_deletion_def tx_simps)

lemma retry_deletion_Inr:
  assumes "retry_deletion pid p newJob entry now s = (Inr x, s')"
  shows "(\<exists>j \<in> set (jobs (fst s)). delete_active pid j \<and> x = Inl (Inl (scanJob j))) \<or>
    ((\<forall>j \<in> set (jobs (fst s)). \<not> delete_active pid j) \<and> x = Inr (Inr (fst (newJob p), False)) \<and>
     fst (newJob p) \<notin> job_id ` set (jobs (fst s)) \<and>
     fst s' = begun pid (fst (newJob p)) (snd (newJob p)) entry now False (fst s))"
proof (cases "first_by job_created_at (filter (delete_active pid) (jobs (fst s)))")
  case None
  then have none: "\<forall>j \<in> set (jobs (fst s)). \<not> delete_active pid j" by (simp add: filter_empty_conv)
  from assms None obtain s1 where q: "queue_deletion pid p newJob now False s1 = (Inr x, s')" and
    s1: "fst s1 = audited (entry\<lparr>AuditEntry_Action := ''project.delete.retry''\<rparr>) (fst s)"
    by (auto simp: retry_deletion_def bind_Inr query_Inr then_Inr audit_Inr)
  have "jobs (audited e d) = jobs d" for e and d :: db by (simp add: audited_def)
  with none queue_deletion_Inr [OF q] show ?thesis unfolding s1 by (simp add: begun_def Let_def)
next
  case (Some j)
  from first_by_Some [OF Some] have "j \<in> set (jobs (fst s))" "delete_active pid j" by auto
  moreover have "x = Inl (Inl (scanJob j))"
    using assms Some by (auto simp: retry_deletion_def bind_Inr query_Inr ret_Inr)
  ultimately show ?thesis by blast
qed

lemma job_ids_update: "(\<And>j. job_id (f j) = job_id j) \<Longrightarrow>
    job_id ` set (update_where P f rows) = job_id ` set rows"
  by (induction rows) (auto simp: update_where_def)

lemma fresh_deletion_Inr:
  assumes "fresh_deletion pid p newJob entry now s = (Inr x, s')"
  shows "x = Inr (Inr (fst (newJob p), True)) \<and> fst (newJob p) \<notin> job_id ` set (jobs (fst s)) \<and>
    (Project_Stage p = ''ready'' \<or> Project_Failed p) \<and>
    (\<forall>j \<in> set (jobs (fst s)). \<not> (job_project_id j = Some pid \<and> job_state j = ''running'')) \<and>
    fst s' = begun pid (fst (newJob p)) (snd (newJob p)) entry now True (fst s)"
proof -
  have ids: "job_id ` set (jobs (drop_backup_conditions pid (audited entry
      (cancel_queued pid now (mark_deleting pid now e))))) = job_id ` set (jobs e)" for e
    by (simp add: drop_backup_conditions_def audited_def cancel_queued_def mark_deleting_def job_ids_update)
  from assms obtain s1 where q: "queue_deletion pid p newJob now True s1 = (Inr x, s')" and
    s1: "fst s1 = drop_backup_conditions pid (audited entry
           (cancel_queued pid now (mark_deleting pid now (fst s))))" and
    ok: "Project_Stage p = ''ready'' \<or> Project_Failed p"
      "\<forall>j \<in> set (jobs (fst s)). \<not> (job_project_id j = Some pid \<and> job_state j = ''running'')"
    by (auto simp: fresh_deletion_def tx_simps count_where_zero)
  show ?thesis
    using queue_deletion_Inr [OF q] ok unfolding s1 ids by (simp add: begun_def Let_def)
qed

lemma begin_deletion_commits:
  assumes "begin_deletion pid newJob entry now (d, fs) = (Inr (Inr (jid, created)), (d', fs'))"
  obtains r input where "maintenanceGuard d" "find (\<lambda>r. prj_id r = pid) (projects d) = Some r"
    "newJob (scanProject r) = (jid, input)" "jid \<notin> job_id ` set (jobs d)"
    "d' = begun pid jid input entry now created d"
    "created = (prj_stage r \<noteq> ''deleting'')"
    "created \<Longrightarrow> prj_stage r = ''ready'' \<or> prj_failed r \<noteq> 0"
    "created \<Longrightarrow> \<forall>j \<in> set (jobs d). \<not> (job_project_id j = Some pid \<and> job_state j = ''running'')"
    "\<not> created \<Longrightarrow> \<forall>j \<in> set (jobs d). \<not> delete_active pid j"
proof -
  from assms obtain r fs1 x s1 where g: "maintenanceGuard d" and
    r: "find (\<lambda>r. prj_id r = pid) (projects d) = Some r" and
    body: "(if Project_Stage (scanProject r) = ''deleting''
            then retry_deletion pid (scanProject r) newJob entry now
            else fresh_deletion pid (scanProject r) newJob entry now) (d, fs1) = (Inr x, s1)" and
    x: "x = Inr (Inr (jid, created)) \<and> d' = fst s1 \<or> x = Inl (Inr (jid, created))"
    unfolding begin_deletion_def by (auto simp: transact_exit_Inr bind_Inr maintenance_Inr guard_Inr
        query_Inr row_Inr)
  show ?thesis
  proof (cases "prj_stage r = ''deleting''")
    case True
    then have "retry_deletion pid (scanProject r) newJob entry now (d, fs1) = (Inr x, s1)"
      using body by (simp add: scanProject_def)
    from retry_deletion_Inr [OF this] True g r x show ?thesis
      by (intro that [of r "snd (newJob (scanProject r))"]) auto
  next
    case False
    then have "fresh_deletion pid (scanProject r) newJob entry now (d, fs1) = (Inr x, s1)"
      using body by (simp add: scanProject_def)
    from fresh_deletion_Inr [OF this] False g r x show ?thesis
      by (intro that [of r "snd (newJob (scanProject r))"]) (auto simp: scanProject_def)
  qed
qed

lemma begin_deletion_active:
  assumes "begin_deletion pid newJob entry now (d, fs) = (Inr (Inl job), (d', fs'))"
  shows "d' = d \<and> (\<exists>j \<in> set (jobs d). delete_active pid j \<and> job = scanJob j)"
proof -
  from assms obtain r fs1 x s1 where
    body: "(if Project_Stage (scanProject r) = ''deleting''
            then retry_deletion pid (scanProject r) newJob entry now
            else fresh_deletion pid (scanProject r) newJob entry now) (d, fs1) = (Inr x, s1)" and
    x: "x = Inl (Inl job) \<and> d' = d \<or> x = Inr (Inl job)"
    unfolding begin_deletion_def by (auto simp: transact_exit_Inr bind_Inr maintenance_Inr guard_Inr
        query_Inr row_Inr)
  show ?thesis
    using body x by (auto split: if_splits dest!: retry_deletion_Inr fresh_deletion_Inr)
qed

lemma begin_deletion_fails: "fails (begin_deletion pid newJob entry now) s e d \<Longrightarrow> d = fst s"
  unfolding begin_deletion_def by (rule transact_exit_fails)

text \<open>What a request to delete leaves, whatever it answers.\<close>

lemma BeginProjectDeletion_leaves:
  "leaves (BeginProjectDeletion pid newJob entry now) (d, fs) = d \<or>
   (\<exists>jid created fs'. begin_deletion pid newJob entry now (d, fs) =
      (Inr (Inr (jid, created)), (leaves (BeginProjectDeletion pid newJob entry now) (d, fs), fs')))"
proof -
  obtain r d1 fs1 where eq: "begin_deletion pid newJob entry now (d, fs) = (r, (d1, fs1))"
    by (metis surj_pair)
  have reads: "leaves (bind_tx (get_Job jid) (\<lambda>job. ret (job, c))) s = fst s" for jid s and c :: bool
    by (rule reads_only) (intro tx_keeps)
  show ?thesis
  proof (cases r)
    case (Inl e)
    then have "d1 = d"
      using eq begin_deletion_fails [of pid newJob entry now "(d, fs)" e d1] by (simp add: fails_def)
    with eq Inl show ?thesis by (simp add: BeginProjectDeletion_def leaves_def bind_tx_def)
  next
    case (Inr x)
    show ?thesis
    proof (cases x)
      case (Inl job)
      with eq Inr begin_deletion_active have "d1 = d" by blast
      with eq Inr Inl show ?thesis by (simp add: BeginProjectDeletion_def leaves_def bind_tx_def ret_def)
    next
      case (Inr y)
      obtain jid created where y: "y = (jid, created)" by (cases y)
      have "leaves (BeginProjectDeletion pid newJob entry now) (d, fs) = d1"
        using eq \<open>r = Inr x\<close> Inr y reads [of jid created "(d1, fs1)"]
        by (simp add: BeginProjectDeletion_def leaves_def bind_tx_def [of "begin_deletion _ _ _ _"])
      with eq \<open>r = Inr x\<close> Inr y show ?thesis by blast
    qed
  qed
qed

section \<open>The tombstone\<close>

definition tombstoned :: "string \<Rightarrow> int \<Rightarrow> db \<Rightarrow> bool" where
  "tombstoned pid t d \<longleftrightarrow>
     (\<exists>r \<in> set (projects d). prj_id r = pid) \<and>
     (\<forall>r \<in> set (projects d). prj_id r = pid \<longrightarrow> prj_stage r = ''deleting'' \<and> prj_deleting_at r = Some t)"

lemma tombstoned_projects: "projects d' = projects d \<Longrightarrow> tombstoned pid t d' = tombstoned pid t d"
  by (simp add: tombstoned_def)

lemma tombstoned_update:
  assumes "tombstoned pid t d" "\<And>r. prj_id (f r) = prj_id r"
    and "\<And>r. P r \<Longrightarrow> prj_id r = pid \<Longrightarrow> prj_stage r = ''deleting'' \<Longrightarrow> prj_deleting_at r = Some t \<Longrightarrow>
           prj_stage (f r) = ''deleting'' \<and> prj_deleting_at (f r) = Some t"
  shows "tombstoned pid t (d\<lparr>projects := update_where P f (projects d)\<rparr>)"
  using assms by (simp add: tombstoned_def bex_update_where ball_update_where)

lemma tombstoned_update':
  assumes "tombstoned pid t d" "\<And>r. prj_id (f r) = prj_id r"
    and "\<And>r. P r \<Longrightarrow> prj_id r = pid \<Longrightarrow> prj_stage r = ''deleting'' \<Longrightarrow> prj_deleting_at r = Some t \<Longrightarrow>
           prj_stage (f r) = ''deleting'' \<and> prj_deleting_at (f r) = Some t"
  shows "tombstoned pid t (projects_update (update_where P f) d)"
  using assms by (simp add: tombstoned_def bex_update_where ball_update_where)

lemma tombstoned_insert:
  "tombstoned pid t d \<Longrightarrow> insert_project p key now d = Some d' \<Longrightarrow> tombstoned pid t d'"
proof -
  assume I: "tombstoned pid t d" and ins: "insert_project p key now d = Some d'"
  have "Project_ID p \<notin> prj_id ` set (projects d)"
    using ins by (auto simp: insert_project_def list_ex_iff split: if_splits)
  moreover have "pid \<in> prj_id ` set (projects d)" using I by (auto simp: tombstoned_def)
  ultimately have "pid \<noteq> Project_ID p" by blast
  with I ins show "tombstoned pid t d'"
    by (auto simp: tombstoned_def insert_project_def split: if_splits)
qed

lemma keeps_SetProjectStage: "keeps (tombstoned pid t) (SetProjectStage q stage now)"
  unfolding SetProjectStage_def by (intro tx_keeps; rule tombstoned_update') auto

lemma keeps_FailProject: "keeps (tombstoned pid t) (FailProject q e)"
  unfolding FailProject_def by (intro tx_keeps; rule tombstoned_update') auto

lemma keeps_RetryProject: "keeps (tombstoned pid t) (RetryProject q)"
  unfolding RetryProject_def update_one_project_def
  by (intro tx_keeps; simp; intro tombstoned_update) auto

lemma keeps_SetProjectFrozen: "keeps (tombstoned pid t) (SetProjectFrozen q at)"
  unfolding SetProjectFrozen_def update_one_project_def
  by (intro tx_keeps; simp; intro tombstoned_update) auto

lemma keeps_sum [tx_keeps]:
  "(\<And>e. keeps I (f e)) \<Longrightarrow> (\<And>v. keeps I (g v)) \<Longrightarrow> keeps I (case r of Inl e \<Rightarrow> f e | Inr v \<Rightarrow> g v)"
  by (cases r) simp_all

lemma keeps_CreateProject: "keeps (tombstoned pid t) (CreateProject p key sealed now)"
  unfolding CreateProject_def create_rows_def
proof (intro tx_keeps)
  show "tombstoned pid t d'" if "tombstoned pid t d" "insert_project p key now d = Some d'" for d d'
    using that by (rule tombstoned_insert)
qed (auto simp: insert_secret_def insert_policy_state_def insert_limits_def tombstoned_def
    split: if_splits)

lemma keeps_BeginProjectDeletion:
  "keeps (tombstoned pid t) (BeginProjectDeletion q newJob entry now)"
proof -
  have "tombstoned pid t d'"
    if I: "tombstoned pid t d" and c: "begin_deletion q newJob entry now (d, fs) =
      (Inr (Inr (jid, created)), (d', fs'))" for d fs d' fs' jid created
  proof -
    obtain r input where r: "find (\<lambda>r. prj_id r = q) (projects d) = Some r"
      and d': "d' = begun q jid input entry now created d" and cr: "created = (prj_stage r \<noteq> ''deleting'')"
      using begin_deletion_commits [OF c] .
    show ?thesis
    proof (cases created)
      case True
      with cr r I have "q \<noteq> pid" by (auto simp: tombstoned_def dest!: find_Some_iff_mem)
      then have "tombstoned pid t (mark_deleting q now d)"
        unfolding mark_deleting_def by (intro tombstoned_update' [OF I]) auto
      with True d' tombstoned_projects [OF begun_frame(2)] show ?thesis by simp
    next
      case False
      with I d' tombstoned_projects [OF begun_frame(3)] show ?thesis by simp
    qed
  qed
  then have "tombstoned pid t (leaves (BeginProjectDeletion q newJob entry now) (d, fs))"
    if "tombstoned pid t d" for d fs
    using BeginProjectDeletion_leaves [of q newJob entry now d fs] that by metis
  then show ?thesis by (simp add: keeps_def)
qed

lemma keeps_insertDeleteJob: "keeps (tombstoned pid t) (insertDeleteJob jid q input now)"
  unfolding insertDeleteJob_def
  by (intro tx_keeps) (auto simp: insert_job_def tombstoned_def split: if_splits)

lemma keeps_ResumeDeletions: "keeps (tombstoned pid t) (ResumeDeletions newJob now)"
  unfolding ResumeDeletions_def
  by (intro tx_keeps) (auto split: prod.split intro: keeps_insertDeleteJob)

text \<open>Another project's completed deletion.\<close>

definition forgotten :: "string \<Rightarrow> db \<Rightarrow> db" where
  "forgotten pid d = fold (\<lambda>u. u) (forget_project_rows pid) d"

lemma forgotten_projects: "projects (forgotten pid d) = delete_where (\<lambda>r. prj_id r = pid) (projects d)"
  by (simp add: forgotten_def forget_project_rows_def)

lemma CompleteProjectDeletion_Inr:
  assumes "returns (CompleteProjectDeletion jid p result now) (d, fs) u d'"
  obtains r where
    "d' = new_event ''project_deleted'' (''project_deleted:'' @ Project_ID p) ''A database was deleted''
       (deleted_detail p) now
       (finish_row jid ''succeeded'' ''done'' '''' result now (forgotten (Project_ID p) d))"
    "find (\<lambda>r. prj_id r = Project_ID p) (projects d) = Some r" "prj_stage r = ''deleting''"
proof -
  from assms obtain fs1 v s1 r where
    loop: "for_each (\<lambda>u. exec u) (forget_project_rows (Project_ID p)) (d, fs1) = (Inr v, s1)" and
    r: "find (\<lambda>r. prj_id r = Project_ID p) (projects d) = Some r" "prj_stage r = ''deleting''" and
    d': "d' = new_event ''project_deleted'' (''project_deleted:'' @ Project_ID p) ''A database was deleted''
       (deleted_detail p) now (finish_row jid ''succeeded'' ''done'' '''' result now (fst s1))"
    unfolding CompleteProjectDeletion_def returns_iff RecordAlertEvent_def
    by (auto simp: transact_Inr bind_Inr query_Inr guard_Inr then_Inr exec_Inr split: option.splits)
  have "fst s1 = forgotten (Project_ID p) d"
    unfolding forgotten_def using for_each_exec [of "\<lambda>u. u", OF loop] .
  then show ?thesis using that [OF _ r] d' by simp
qed

lemma keeps_CompleteProjectDeletion:
  assumes "Project_ID p \<noteq> pid"
  shows "keeps (tombstoned pid t) (CompleteProjectDeletion jid p result now)"
proof (rule keepsI)
  show "tombstoned pid t d'" if "tombstoned pid t d"
    "returns (CompleteProjectDeletion jid p result now) (d, fs) x d'" for d fs x d'
  proof -
    have "projects d' = delete_where (\<lambda>r. prj_id r = Project_ID p) (projects d)"
      by (rule CompleteProjectDeletion_Inr [OF that(2)])
        (simp add: new_event_def finish_row_def forgotten_projects)
    with that(1) assms show ?thesis by (auto simp: tombstoned_def)
  qed
  show "tombstoned pid t d'" if "tombstoned pid t d"
    "fails (CompleteProjectDeletion jid p result now) (d, fs) e d'" for d fs e d'
    using that transact_fails unfolding CompleteProjectDeletion_def by fastforce
qed

text \<open>
  What can happen to the projects table after a project was marked: the provisioner reports a stage
  or a failure, the operator retries, freezes, creates or deletes, deletions are resumed or
  completed, in any order, at any time and with any driver failure. Only the completed deletion of
  the project \<open>pid\<close> itself is left out.
\<close>

inductive projects_run :: "string \<Rightarrow> db \<Rightarrow> db \<Rightarrow> bool" for pid where
  pr_start: "projects_run pid d d"
| pr_stage: "projects_run pid d d1 \<Longrightarrow> projects_run pid d (leaves (SetProjectStage q stage now) (d1, fs))"
| pr_fail: "projects_run pid d d1 \<Longrightarrow> projects_run pid d (leaves (FailProject q e) (d1, fs))"
| pr_retry: "projects_run pid d d1 \<Longrightarrow> projects_run pid d (leaves (RetryProject q) (d1, fs))"
| pr_freeze: "projects_run pid d d1 \<Longrightarrow> projects_run pid d (leaves (SetProjectFrozen q at) (d1, fs))"
| pr_create: "projects_run pid d d1 \<Longrightarrow>
    projects_run pid d (leaves (CreateProject p key sealed now) (d1, fs))"
| pr_begin: "projects_run pid d d1 \<Longrightarrow>
    projects_run pid d (leaves (BeginProjectDeletion q newJob entry now) (d1, fs))"
| pr_resume: "projects_run pid d d1 \<Longrightarrow> projects_run pid d (leaves (ResumeDeletions newJob now) (d1, fs))"
| pr_complete: "projects_run pid d d1 \<Longrightarrow> Project_ID p \<noteq> pid \<Longrightarrow>
    projects_run pid d (leaves (CompleteProjectDeletion jid p result now) (d1, fs))"

lemmas keeps_tombstone = keeps_SetProjectStage keeps_FailProject keeps_RetryProject
  keeps_SetProjectFrozen keeps_CreateProject keeps_BeginProjectDeletion keeps_ResumeDeletions
  keeps_CompleteProjectDeletion

lemma projects_run_tombstoned:
  "projects_run pid d d' \<Longrightarrow> tombstoned pid t d \<Longrightarrow> tombstoned pid t d'"
proof (induction rule: projects_run.induct)
  case (pr_start d)
  then show ?case .
qed (simp_all add: keepsD [OF keeps_SetProjectStage] keepsD [OF keeps_FailProject]
    keepsD [OF keeps_RetryProject] keepsD [OF keeps_SetProjectFrozen] keepsD [OF keeps_CreateProject]
    keepsD [OF keeps_BeginProjectDeletion] keepsD [OF keeps_ResumeDeletions]
    keepsD [OF keeps_CompleteProjectDeletion])

lemma fresh_deletion_tombstone:
  assumes "returns (BeginProjectDeletion pid newJob entry now) (d, fs) (job, True) d'"
  obtains jid input where "d' = begun pid jid input entry now True d" "tombstoned pid (unix now) d'"
    "job = scanJob (queued_job jid ''delete'' (Some pid) input 0 now)"
    "\<forall>j \<in> set (jobs d). \<not> (job_project_id j = Some pid \<and> job_state j = ''running'')"
proof -
  from assms obtain jid fs1 fs2 where
    c: "begin_deletion pid newJob entry now (d, fs) = (Inr (Inr (jid, True)), (d', fs1))" and
    g: "get_Job jid (d', fs1) = (Inr job, (d', fs2))"
    by (auto simp: BeginProjectDeletion_def returns_iff bind_Inr result_Inr ret_Inr get_Job_Inr
        split: prod.splits)
  from begin_deletion_commits [OF c] obtain r input where
    r: "find (\<lambda>r. prj_id r = pid) (projects d) = Some r" and fresh: "jid \<notin> job_id ` set (jobs d)" and
    d': "d' = begun pid jid input entry now True d" and
    busy: "\<forall>j \<in> set (jobs d). \<not> (job_project_id j = Some pid \<and> job_state j = ''running'')" by metis
  have "\<exists>r \<in> set (projects d). prj_id r = pid" using r by (auto dest: find_Some_iff_mem)
  then have "tombstoned pid (unix now) (mark_deleting pid now d)"
    by (simp add: tombstoned_def mark_deleting_def bex_update_where ball_update_where)
  then have t: "tombstoned pid (unix now) d'"
    using tombstoned_projects [OF begun_frame(2)] d' by simp
  have "find (\<lambda>j. job_id j = jid) (jobs d') = Some (queued_job jid ''delete'' (Some pid) input 0 now)"
    using fresh by (simp add: d' begun_def Let_def find_append drop_backup_conditions_def audited_def
        cancel_queued_def mark_deleting_def find_key_None [THEN iffD2] job_ids_update queued_job_def)
  then have "job = scanJob (queued_job jid ''delete'' (Some pid) input 0 now)"
    using g by (auto simp: get_Job_Inr)
  with d' t busy that show ?thesis by blast
qed

lemma resumed_jobs:
  assumes "for_each (\<lambda>p. let (jid, input) = newJob p in insertDeleteJob jid (Project_ID p) input now)
      ps (d, fs) = (Inr u, s')"
  shows "jobs (fst s') = jobs d @ map (\<lambda>p. queued_job (fst (newJob p)) ''delete''
      (Some (Project_ID p)) (snd (newJob p)) 0 now) ps \<and> projects (fst s') = projects d"
  using assms
proof (induction ps arbitrary: d fs)
  case Nil
  then show ?case by (simp add: ret_Inr)
next
  case (Cons p ps)
  then obtain fs1 where "for_each (\<lambda>p. let (jid, input) = newJob p in
      insertDeleteJob jid (Project_ID p) input now) ps
      (d\<lparr>jobs := jobs d @ [queued_job (fst (newJob p)) ''delete'' (Some (Project_ID p))
         (snd (newJob p)) 0 now]\<rparr>, fs1) = (Inr u, s')"
    by (auto simp: then_Inr insertDeleteJob_Inr split: prod.splits)
  from Cons.IH [OF this] show ?case by simp
qed

lemma count_pending:
  assumes "distinct (map prj_id (projects d))" "r \<in> set (projects d)" "prj_stage r = ''deleting''"
  shows "count_where (delete_active (prj_id r)) (map (\<lambda>p. queued_job (fst (newJob p)) ''delete''
      (Some (Project_ID p)) (snd (newJob p)) 0 now) (pending_deletions d)) =
    (if list_ex (delete_active (prj_id r)) (jobs d) then 0 else 1)"
proof -
  define rows where "rows = sort_key deletion_order (filter (\<lambda>r. prj_stage r = ''deleting'' \<and>
    \<not> list_ex (delete_active (prj_id r)) (jobs d)) (projects d))"
  have dist: "distinct (map prj_id rows)"
    using assms(1) by (simp add: rows_def distinct_map distinct_map_filter inj_on_def)
  have mem: "r \<in> set rows \<longleftrightarrow> \<not> list_ex (delete_active (prj_id r)) (jobs d)"
    using assms(2,3) by (auto simp: rows_def)
  have "count_where (delete_active (prj_id r)) (map (\<lambda>p. queued_job (fst (newJob p)) ''delete''
      (Some (Project_ID p)) (snd (newJob p)) 0 now) (pending_deletions d)) =
    count_where (\<lambda>q. prj_id q = prj_id r \<and> True) rows"
    by (simp add: pending_deletions_def rows_def [symmetric] count_where_def filter_map o_def
        delete_active_def active_job_def queued_job_def scanProject_def)
  also have "\<dots> = (case find (\<lambda>q. prj_id q = prj_id r) rows of None \<Rightarrow> 0 | Some _ \<Rightarrow> 1)"
    using dist by (subst count_where_key) auto
  also have "\<dots> = (if r \<in> set rows then 1 else 0)"
  proof (cases "r \<in> set rows")
    case True
    then show ?thesis using find_key_unique [OF dist True] by simp
  next
    case False
    have "q = r" if "q \<in> set rows" "prj_id q = prj_id r" for q
      using that assms(1,2) by (auto simp: rows_def distinct_map dest: inj_onD)
    with False have "find (\<lambda>q. prj_id q = prj_id r) rows = None" by (auto simp: find_None_iff)
    with False show ?thesis by simp
  qed
  finally show ?thesis using mem by simp
qed

section \<open>Properties\<close>


text \<open>
  When the deletion of a project was requested, nothing but the delete job is left to run for
  it: every other job of it that was queued is cancelled with a reason, and none was running.
\<close>

theorem deletion_cancels_jobs:
  assumes "returns (BeginProjectDeletion pid newJob entry now) (d, fs) (job, True) d1"
  shows "Job_Kind job = ''delete'' \<and> Job_ProjectID job = pid \<and> Job_State job = ''queued'' \<and>
    (\<forall>j \<in> set (jobs d1). job_project_id j = Some pid \<and> active_job j \<longrightarrow> job_kind j = ''delete'') \<and>
    length (jobs d1) = Suc (length (jobs d)) \<and> length (audit_log d1) = Suc (length (audit_log d))"
proof -
  obtain jid input where d1: "d1 = begun pid jid input entry now True d" and
    job: "job = scanJob (queued_job jid ''delete'' (Some pid) input 0 now)" and
    idle: "\<forall>j \<in> set (jobs d). \<not> (job_project_id j = Some pid \<and> job_state j = ''running'')"
    using fresh_deletion_tombstone [OF assms] .
  have "\<forall>j \<in> set (jobs (cancel_queued pid now (mark_deleting pid now d))).
      job_project_id j = Some pid \<and> active_job j \<longrightarrow> job_kind j = ''delete''"
    using idle by (auto simp: cancel_queued_def mark_deleting_def ball_update_where active_job_def)
  then show ?thesis
    by (auto simp: d1 job begun_def Let_def drop_backup_conditions_def audited_def scanJob_def
        queued_job_def coalesce_def) (simp_all add: cancel_queued_def mark_deleting_def)
qed


text \<open>
  Resuming deletions gives every project marked for deletion exactly the delete job it lacks:
  outside maintenance, a marked project without a waiting or running delete job gets one, a project
  that has one gets none.
\<close>

theorem ResumeDeletions_one_each:
  assumes "distinct (map prj_id (projects d))" "maintenanceGuard d"
    and "returns (ResumeDeletions newJob now) (d, fs) n d'"
    and "r \<in> set (projects d)" "prj_stage r = ''deleting''"
  shows "count_where (delete_active (prj_id r)) (jobs d') =
    max 1 (count_where (delete_active (prj_id r)) (jobs d))"
proof -
  from assms(2,3) obtain fs1 u s1 where
    loop: "for_each (\<lambda>p. let (jid, input) = newJob p in insertDeleteJob jid (Project_ID p) input now)
      (pending_deletions d) (d, fs1) = (Inr u, s1)" and "d' = fst s1"
    by (auto simp: ResumeDeletions_def returns_iff tx_simps split: if_splits)
  with resumed_jobs [OF loop] have "jobs d' = jobs d @ map (\<lambda>p. queued_job (fst (newJob p)) ''delete''
      (Some (Project_ID p)) (snd (newJob p)) 0 now) (pending_deletions d)" by simp
  moreover have "list_ex (delete_active (prj_id r)) (jobs d) \<longleftrightarrow>
      0 < count_where (delete_active (prj_id r)) (jobs d)"
    by (simp add: list_ex_iff count_where_pos)
  ultimately show ?thesis
    by (simp add: count_pending [OF assms(1,4,5)])
qed

subsection \<open>A deletion, step by step\<close>

definition busy_shop :: db where
  "busy_shop = rotating\<lparr>jobs := [queued_job ''j'' ''backup'' (Some ''p'') ''{}'' 0 0]\<rparr>"

definition delete_shop :: "(Job \<times> bool) dbop" where
  "delete_shop = BeginProjectDeletion ''p'' (\<lambda>_. (''del'', ''{}'')) rotation_entry (9 * second)"

definition marked_shop :: db where
  "marked_shop = leaves delete_shop (busy_shop, [])"

lemma delete_shop_returns:
  "returns (BeginProjectDeletion ''p'' (\<lambda>_. (''del'', ''{}'')) rotation_entry (9 * second)) (busy_shop, [])
     (fst (projr (fst (delete_shop (busy_shop, [])))), True) marked_shop"
proof -
  have "succeeds delete_shop (busy_shop, [])" by code_simp
  note r = succeeds_leaves [OF this, folded marked_shop_def]
  have c: "snd (projr (fst (delete_shop (busy_shop, [])))) = True" by code_simp
  obtain job created where x: "projr (fst (delete_shop (busy_shop, []))) = (job, created)"
    by (metis surj_pair)
  show ?thesis unfolding delete_shop_def [symmetric] using r c unfolding x by simp
qed


theorem deletion_cancels_jobs_witness:
  "length (jobs marked_shop) = 2 \<and>
   filter (\<lambda>j. job_project_id j = Some ''p'' \<and> active_job j \<and> job_kind j \<noteq> ''delete'')
     (jobs marked_shop) = []"
proof -
  have "length (jobs busy_shop) = 1" by (simp add: busy_shop_def)
  with deletion_cancels_jobs [OF delete_shop_returns] show ?thesis by (simp add: filter_empty_conv)
qed


text \<open>The deletion after its first job failed: a restart queues one more.\<close>

definition failed_shop :: db where
  "failed_shop = leaves (FailDeleteJob ''del'' ''p'' ''shop'' ''drop'' ''in use'' ''{}'' 40) (marked_shop, [])"

theorem ResumeDeletions_one_each_witness:
  "let d' = leaves (ResumeDeletions (\<lambda>_. (''del2'', ''{}'')) 50) (failed_shop, [])
   in count_where (delete_active ''p'') (jobs failed_shop) = 0 \<and>
      count_where (delete_active ''p'') (jobs d') = 1"
proof -
  define d' where "d' = leaves (ResumeDeletions (\<lambda>_. (''del2'', ''{}'')) 50) (failed_shop, [])"
  have "succeeds (ResumeDeletions (\<lambda>_. (''del2'', ''{}'')) 50) (failed_shop, [])" by code_simp
  note r = succeeds_leaves [OF this, folded d'_def]
  have zero: "count_where (delete_active ''p'') (jobs failed_shop) = 0" by code_simp
  have ids: "map prj_id (projects failed_shop) = [''p'']" by code_simp
  then obtain row where row: "projects failed_shop = [row]" "prj_id row = ''p''" by auto
  have stages: "map prj_stage (projects failed_shop) = [''deleting'']" by code_simp
  have g: "maintenanceGuard failed_shop" by code_simp
  have "distinct (map prj_id (projects failed_shop))" by (simp add: ids)
  from ResumeDeletions_one_each [OF this g r, of row] zero row stages
  show ?thesis unfolding Let_def d'_def [symmetric] by simp
qed

end
