(* ===== verification/Storage_Layout.thy ===== *)
theory Storage_Layout
  imports Security
begin

text \<open>
  The layout of a backup store (\<^verbatim>\<open>internal/storage/layout.go\<close> and the keys and manifests of
  \<^verbatim>\<open>internal/storage/storage.go\<close>): which names are ours, how a listing is classified, and when a
  manifest agrees with the place it was found at. Object keys are byte strings.
\<close>

section \<open>Texts\<close>

text \<open>\<^verbatim>\<open>strings.Split\<close> at one character, \<^verbatim>\<open>TrimPrefix\<close>, \<^verbatim>\<open>TrimSuffix\<close>, \<^verbatim>\<open>Trim\<close>, \<^verbatim>\<open>HasSuffix\<close>.\<close>

fun split_at :: "char \<Rightarrow> string \<Rightarrow> string list" where
  "split_at c [] = [[]]"
| "split_at c (x # xs) =
     (if x = c then [] # split_at c xs
      else case split_at c xs of [] \<Rightarrow> [[x]] | p # ps \<Rightarrow> (x # p) # ps)"

definition has_prefix :: "string \<Rightarrow> string \<Rightarrow> bool" where
  "has_prefix s p \<longleftrightarrow> take (length p) s = p"

definition has_suffix :: "string \<Rightarrow> string \<Rightarrow> bool" where
  "has_suffix s p \<longleftrightarrow> length p \<le> length s \<and> drop (length s - length p) s = p"

definition trim_prefix :: "string \<Rightarrow> string \<Rightarrow> string" where
  "trim_prefix s p = (if has_prefix s p then drop (length p) s else s)"

definition trim_suffix :: "string \<Rightarrow> string \<Rightarrow> string" where
  "trim_suffix s p = (if has_suffix s p then take (length s - length p) s else s)"

definition trim_char :: "char \<Rightarrow> string \<Rightarrow> string" where
  "trim_char c s = rev (dropWhile (\<lambda>x. x = c) (rev (dropWhile (\<lambda>x. x = c) s)))"

text \<open>\<^verbatim>\<open>strings.LastIndex\<close> of one character.\<close>

definition last_index :: "char \<Rightarrow> string \<Rightarrow> nat option" where
  "last_index c s =
     (if list_ex (\<lambda>x. x = c) s then Some (length s - 1 - length (takeWhile (\<lambda>x. x \<noteq> c) (rev s))) else None)"

text \<open>\<^verbatim>\<open>%q\<close>: the text in double quotes, with the escapes of a Go string literal.\<close>

definition quote_char :: "char \<Rightarrow> string" where
  "quote_char c = (let n = (of_char c :: nat) in
     if n = 34 \<or> n = 92 then [CHR 0x5C, c]
     else if 7 \<le> n \<and> n \<le> 13 then [CHR 0x5C, ''abtnvfr'' ! (n - 7)]
     else if n < 32 \<or> n = 127 then CHR 0x5C # ''x'' @ [hex_digit (n div 16), hex_digit (n mod 16)]
     else [c])"

definition quoted :: "string \<Rightarrow> string" where
  "quoted s = [CHR 0x22] @ concat (map quote_char s) @ [CHR 0x22]"

text \<open>\<^verbatim>\<open>path.Join\<close>: empty parts are ignored, the rest is cleaned element by element.\<close>

fun clean_parts :: "bool \<Rightarrow> string list \<Rightarrow> string list \<Rightarrow> string list" where
  "clean_parts rooted [] done = done"
| "clean_parts rooted (p # ps) done =
     (if p = [] \<or> p = ''.'' then clean_parts rooted ps done
      else if p = ''..'' then
        (if done \<noteq> [] \<and> last done \<noteq> ''..'' then clean_parts rooted ps (butlast done)
         else if rooted then clean_parts rooted ps done
         else clean_parts rooted ps (done @ [p]))
      else clean_parts rooted ps (done @ [p]))"

definition path_clean :: "string \<Rightarrow> string" where
  "path_clean s =
     (let rooted = has_prefix s ''/''; cleaned = join ''/'' (clean_parts rooted (split_at (CHR ''/'') s) [])
      in if rooted then ''/'' @ cleaned else if cleaned = [] then ''.'' else cleaned)"

definition path_join :: "string list \<Rightarrow> string" where
  "path_join parts =
     (let joined = join ''/'' (filter (\<lambda>p. p \<noteq> []) parts) in if joined = [] then [] else path_clean joined)"

section \<open>Names\<close>

definition ArchiveFile :: string where "ArchiveFile = ''archive.dump''"
definition ManifestFile :: string where "ManifestFile = ''manifest.json''"

definition StateComplete :: string where "StateComplete = ''complete''"
definition StateManifestOnly :: string where "StateManifestOnly = ''manifest_only''"
definition StateArchiveOnly :: string where "StateArchiveOnly = ''archive_only''"
definition StateDamaged :: string where "StateDamaged = ''damaged''"

definition lower_letter :: "char \<Rightarrow> bool" where
  "lower_letter c = (let n = (of_char c :: nat) in 97 \<le> n \<and> n \<le> 122)"

text \<open>The expressions \<^verbatim>\<open>^[a-z][a-z0-9_]{0,62}$\<close> and \<^verbatim>\<open>^\d{8}T\d{6}Z$\<close>.\<close>

definition ValidDatabaseSegment :: "string \<Rightarrow> bool" where
  "ValidDatabaseSegment name =
     (case name of
        [] \<Rightarrow> False
      | c # cs \<Rightarrow> lower_letter c \<and> length cs \<le> 62 \<and>
          list_all (\<lambda>x. lower_letter x \<or> is_digit x \<or> x = CHR ''_'') cs)"

text \<open>The zero \<^verbatim>\<open>time.Time\<close> is 1 January of year 1.\<close>

definition zero_time :: gotime where
  "zero_time = from_unix (- 62135596800)"

definition ParseDirectorySegment :: "string \<Rightarrow> gotime \<times> bool" where
  "ParseDirectorySegment name =
     (if \<not> stamp_shape name then (zero_time, False)
      else case parse_stamp name of None \<Rightarrow> (zero_time, False) | Some at \<Rightarrow> (at, True))"

section \<open>Listings\<close>

record Entry =
  Entry_Directory :: string
  Entry_ManifestKey :: string
  Entry_ArchiveKey :: string
  Entry_TakenAt :: gotime
  Entry_State :: string
  Entry_SizeBytes :: int

record Object =
  Object_Key :: string
  Object_Size :: int

record found =
  found_archive :: bool
  found_manifest :: bool
  found_unexpected :: bool
  found_size :: int

definition nothing_found :: found where
  "nothing_found = \<lparr>found_archive = False, found_manifest = False, found_unexpected = False, found_size = 0\<rparr>"

definition note_file :: "string \<Rightarrow> int \<Rightarrow> found \<Rightarrow> found" where
  "note_file file n f =
     (if file = ArchiveFile then f\<lparr>found_archive := True, found_size := n\<rparr>
      else if file = ManifestFile then f\<lparr>found_manifest := True\<rparr>
      else f\<lparr>found_unexpected := True\<rparr>)"

text \<open>Go's map from folder to what was found in it, as a list in the order of first sight.\<close>

definition note_object :: "string \<Rightarrow> Object \<Rightarrow> (string \<times> found) list \<Rightarrow> (string \<times> found) list" where
  "note_object root obj dirs =
     (case split_at (CHR ''/'') (trim_prefix (Object_Key obj) root) of
        [name, file] \<Rightarrow>
          upsert (\<lambda>d. fst d = name) (name, note_file file (Object_Size obj) nothing_found)
            (\<lambda>d. (fst d, note_file file (Object_Size obj) (snd d))) dirs
      | _ \<Rightarrow> dirs)"

definition entry_state :: "bool \<Rightarrow> found \<Rightarrow> string" where
  "entry_state ok f =
     (if \<not> ok \<or> found_unexpected f then StateDamaged
      else if found_archive f \<and> found_manifest f then StateComplete
      else if found_archive f then StateArchiveOnly
      else StateManifestOnly)"

definition entry_of :: "string \<Rightarrow> string \<times> found \<Rightarrow> Entry" where
  "entry_of root d =
     (case ParseDirectorySegment (fst d) of (at, ok) \<Rightarrow>
        let directory = root @ fst d in
        \<lparr>Entry_Directory = directory, Entry_ManifestKey = directory @ ''/'' @ ManifestFile,
         Entry_ArchiveKey = directory @ ''/'' @ ArchiveFile, Entry_TakenAt = at,
         Entry_State = entry_state ok (snd d), Entry_SizeBytes = found_size (snd d)\<rparr>)"

text \<open>Newest first, equal times by folder; folders are distinct, so the order is determined.\<close>

definition sortEntries :: "Entry list \<Rightarrow> Entry list" where
  "sortEntries entries = rev (sort_key (\<lambda>e. (Entry_TakenAt e, Entry_Directory e)) entries)"

definition EntriesFrom :: "string \<Rightarrow> Object list \<Rightarrow> Entry list" where
  "EntriesFrom root objects = sortEntries (map (entry_of root) (fold (note_object root) objects []))"

section \<open>Manifests\<close>

record TableCount =
  TableCount_Schema :: string
  TableCount_Name :: string
  TableCount_Rows :: int

record ObjectCounts =
  ObjectCounts_Sequences :: int
  ObjectCounts_Views :: int
  ObjectCounts_Functions :: int
  ObjectCounts_Indexes :: int
  ObjectCounts_Constraints :: int

record Manifest =
  Manifest_Version :: int
  Manifest_InstallationID :: string
  Manifest_ProjectID :: string
  Manifest_ProjectName :: string
  Manifest_DBName :: string
  Manifest_PostgresVersion :: string
  Manifest_CreatedAt :: gotime
  Manifest_ArchiveKey :: string
  Manifest_SHA256 :: string
  Manifest_SizeBytes :: int
  Manifest_Tables :: "TableCount list"
  Manifest_TablesTruncated :: bool
  Manifest_Objects :: "ObjectCounts option"
  Manifest_ManifestKey :: string

definition parent :: "Entry \<Rightarrow> string" where
  "parent e = (case last_index (CHR ''/'') (Entry_Directory e) of
     Some i \<Rightarrow> if i > 0 then take i (Entry_Directory e) else Entry_Directory e
   | None \<Rightarrow> Entry_Directory e)"

definition directoryName :: "Entry \<Rightarrow> string" where
  "directoryName e = (case last_index (CHR ''/'') (Entry_Directory e) of
     Some i \<Rightarrow> drop (Suc i) (Entry_Directory e)
   | None \<Rightarrow> Entry_Directory e)"

definition CheckManifest :: "Manifest \<Rightarrow> Entry \<Rightarrow> err option" where
  "CheckManifest m entry =
     (if Manifest_Version m \<noteq> 1 then Some (EMsg ''unsupported manifest version'')
      else if Manifest_ManifestKey m \<noteq> Entry_ManifestKey entry then
        Some (EMsg (''manifest key '' @ quoted (Manifest_ManifestKey m) @ '' does not match its location''))
      else if Manifest_ArchiveKey m \<noteq> Entry_ArchiveKey entry then
        Some (EMsg (''archive key '' @ quoted (Manifest_ArchiveKey m) @ '' does not match its location''))
      else if \<not> ValidDatabaseSegment (Manifest_DBName m) \<or>
              \<not> has_suffix (parent entry) (''/'' @ Manifest_DBName m) then
        Some (EMsg (''database name '' @ quoted (Manifest_DBName m) @ '' does not match its location''))
      else if format_stamp (Manifest_CreatedAt m) \<noteq> directoryName entry then
        Some (EMsg ''manifest timestamp does not match its location'')
      else None)"

section \<open>Keys\<close>

text \<open>\<open>prefix\<close> is the folder of the settings the client was made with.\<close>

definition key :: "string \<Rightarrow> string list \<Rightarrow> string" where
  "key prefix parts = path_join (trim_char (CHR ''/'') prefix # parts)"

definition BackupKey :: "string \<Rightarrow> string \<Rightarrow> gotime \<Rightarrow> string" where
  "BackupKey prefix dbName at = key prefix [''backups'', dbName, format_stamp at]"

definition not_a_manifest :: err where
  "not_a_manifest = EMsg ''not a backup manifest in the configured folder''"

definition EntryFor :: "string \<Rightarrow> string \<Rightarrow> err + Entry" where
  "EntryFor prefix manifestKey =
     (let root = key prefix [''backups''] @ ''/'' in
      case split_at (CHR ''/'') (trim_prefix manifestKey root) of
        [db, dir, file] \<Rightarrow>
          if \<not> has_prefix manifestKey root \<or> file \<noteq> ManifestFile \<or> \<not> ValidDatabaseSegment db
          then Inl not_a_manifest
          else (case ParseDirectorySegment dir of (at, ok) \<Rightarrow>
            if \<not> ok then Inl not_a_manifest
            else let directory = root @ db @ ''/'' @ dir in
              Inr \<lparr>Entry_Directory = directory, Entry_ManifestKey = manifestKey,
                Entry_ArchiveKey = directory @ ''/'' @ ArchiveFile, Entry_TakenAt = at,
                Entry_State = '''', Entry_SizeBytes = 0\<rparr>)
      | _ \<Rightarrow> Inl not_a_manifest)"

section \<open>Lemmas on keys\<close>

definition plain :: "string \<Rightarrow> bool" where
  "plain q \<longleftrightarrow> q \<noteq> [] \<and> CHR ''/'' \<notin> set q \<and> q \<noteq> ''.'' \<and> q \<noteq> ''..''"

lemma split_at_not_Nil [simp]: "split_at c s \<noteq> []"
  by (induction s) (auto split: list.split)

lemma split_at_none: "c \<notin> set s \<Longrightarrow> split_at c s = [s]"
  by (induction s) auto

lemma split_at_append: "split_at c (a @ c # b) = split_at c a @ split_at c b"
proof (induction a)
  case (Cons x a)
  obtain p ps where "split_at c a = p # ps" by (meson neq_Nil_conv split_at_not_Nil)
  with Cons show ?case by simp
qed simp

lemma join_split: "join [c] (split_at c s) = s"
proof (induction s)
  case (Cons x s)
  obtain p ps where "split_at c s = p # ps" by (meson neq_Nil_conv split_at_not_Nil)
  with Cons show ?case by (cases ps) auto
qed simp

lemma clean_parts_append: "clean_parts r (ps @ qs) ds = clean_parts r qs (clean_parts r ps ds)"
  by (induction ps arbitrary: ds) auto

lemma clean_parts_plain: "plain q \<Longrightarrow> clean_parts r [q] ds = ds @ [q]"
  by (simp add: plain_def)

lemma join_snoc: "ps \<noteq> [] \<Longrightarrow> join sep (ps @ [q]) = join sep ps @ sep @ q"
proof (induction ps rule: induct_list012)
  case (3 x y zs)
  then show ?case by simp
qed simp_all

lemma join_not_Nil: "ps \<noteq> [] \<Longrightarrow> list_all (\<lambda>p. p \<noteq> []) ps \<Longrightarrow> join sep ps \<noteq> []"
  by (induction ps rule: induct_list012) auto

lemma clean_parts_not_Nil:
  assumes "list_all (\<lambda>p. p \<noteq> []) ds" shows "list_all (\<lambda>p. p \<noteq> []) (clean_parts r ps ds)"
  using assms
proof (induction ps arbitrary: ds)
  case (Cons p ps)
  have "list_all (\<lambda>p. p \<noteq> []) (butlast ds)" using Cons.prems by (auto simp: list_all_iff dest: in_set_butlastD)
  then show ?case using Cons by (cases r) simp_all
qed simp

definition cleaned :: "string \<Rightarrow> string list" where
  "cleaned s = clean_parts (has_prefix s ''/'') (split_at (CHR ''/'') s) []"

lemma path_clean_cleaned:
  "path_clean s = (if has_prefix s ''/'' then ''/'' @ join ''/'' (cleaned s)
     else if cleaned s = [] then ''.'' else join ''/'' (cleaned s))"
proof -
  have "list_all (\<lambda>p. p \<noteq> []) (cleaned s)" by (simp add: cleaned_def clean_parts_not_Nil)
  then have "join ''/'' (cleaned s) = [] \<longleftrightarrow> cleaned s = []"
    using join_not_Nil [of "cleaned s" "''/''"] by auto
  then show ?thesis unfolding path_clean_def cleaned_def [symmetric] Let_def by simp
qed

lemma cleaned_snoc:
  assumes "plain q" "x \<noteq> []"
  shows "has_prefix (x @ ''/'' @ q) ''/'' = has_prefix x ''/''"
    and "cleaned (x @ ''/'' @ q) = cleaned x @ [q]"
proof -
  show root: "has_prefix (x @ ''/'' @ q) ''/'' = has_prefix x ''/''"
    using assms(2) by (cases x) (simp_all add: has_prefix_def)
  have "split_at (CHR ''/'') (x @ ''/'' @ q) = split_at (CHR ''/'') x @ [q]"
    using assms(1) by (simp add: split_at_append split_at_none plain_def)
  then show "cleaned (x @ ''/'' @ q) = cleaned x @ [q]"
    using assms(1) unfolding cleaned_def root by (simp only: clean_parts_append clean_parts_plain)
qed

lemma path_clean_snoc:
  assumes "plain q" "x \<noteq> []" "cleaned x \<noteq> []"
  shows "path_clean (x @ ''/'' @ q) = path_clean x @ ''/'' @ q"
  using assms(3) unfolding path_clean_cleaned cleaned_snoc [OF assms(1,2)]
  by (simp add: join_snoc)

text \<open>The folder of the backups: everything below it extends it by plain parts.\<close>

definition joined :: "string \<Rightarrow> string" where
  "joined prefix = join ''/'' (filter (\<lambda>p. p \<noteq> []) [trim_char (CHR ''/'') prefix, ''backups''])"

lemma joined_cleaned: "joined prefix \<noteq> []" "cleaned (joined prefix) \<noteq> []"
proof -
  have "cleaned (x @ ''/'' @ ''backups'') \<noteq> []" if "x \<noteq> []" for x
    using cleaned_snoc(2) [of "''backups''" x] that by (simp add: plain_def)
  moreover have "cleaned ''backups'' \<noteq> []" by code_simp
  ultimately show "joined prefix \<noteq> []" "cleaned (joined prefix) \<noteq> []"
    by (simp_all add: joined_def)
qed

lemma key_backups:
  "key prefix [''backups''] = path_clean (joined prefix)"
  using joined_cleaned(1) [of prefix] by (simp add: key_def path_join_def joined_def Let_def)

lemma key_below:
  assumes "plain db" "plain dir"
  shows "key prefix [''backups'', db, dir] = key prefix [''backups''] @ ''/'' @ db @ ''/'' @ dir"
proof -
  let ?j = "joined prefix"
  have "key prefix [''backups'', db, dir] = path_clean ((?j @ ''/'' @ db) @ ''/'' @ dir)"
    using assms by (simp add: key_def path_join_def joined_def Let_def plain_def)
  also have "\<dots> = path_clean (?j @ ''/'' @ db) @ ''/'' @ dir"
    by (rule path_clean_snoc) (use assms joined_cleaned cleaned_snoc(2) in simp_all)
  also have "path_clean (?j @ ''/'' @ db) = path_clean ?j @ ''/'' @ db"
    by (rule path_clean_snoc) (use assms joined_cleaned in simp_all)
  finally show ?thesis by (simp add: key_backups)
qed

lemma valid_segment_plain:
  assumes "ValidDatabaseSegment db" shows "plain db"
proof -
  have "lower_letter c \<or> is_digit c \<or> c = CHR ''_''" if "c \<in> set db" for c
    using assms that by (auto simp: ValidDatabaseSegment_def list_all_iff split: list.splits)
  moreover have "\<not> (lower_letter (CHR ''/'') \<or> is_digit (CHR ''/'') \<or> CHR ''/'' = CHR ''_'')"
    "\<not> (lower_letter (CHR ''.'') \<or> is_digit (CHR ''.'') \<or> CHR ''.'' = CHR ''_'')" by code_simp+
  moreover have "db \<noteq> []" using assms by (auto simp: ValidDatabaseSegment_def)
  ultimately show ?thesis unfolding plain_def by (metis list.set_intros(1))
qed

lemma stamp_shape_plain:
  assumes "stamp_shape s" shows "plain s"
proof -
  have len: "length s = 16" and parts: "list_all is_digit (take 8 s)" "s ! 8 = CHR ''T''"
    "list_all is_digit (take 6 (drop 9 s))" "s ! 15 = CHR ''Z''"
    using assms by (auto simp: stamp_shape_def)
  have "is_digit (s ! i) \<or> s ! i = CHR ''T'' \<or> s ! i = CHR ''Z''" if i: "i < 16" for i
  proof -
    consider "i < 8" | "i = 8" | "9 \<le> i" "i < 15" | "i = 15" using i by linarith
    then show ?thesis
    proof cases
      case 1
      then show ?thesis using parts(1) len by (auto simp: list_all_length)
    next
      case 3
      then have "i - 9 < length (take 6 (drop 9 s))" using len by simp
      then have "is_digit (take 6 (drop 9 s) ! (i - 9))" using parts(3) unfolding list_all_length by blast
      then show ?thesis using 3 len by simp
    qed (use parts in simp_all)
  qed
  moreover have "\<not> (is_digit (CHR ''/'') \<or> CHR ''/'' = CHR ''T'' \<or> CHR ''/'' = CHR ''Z'')" by code_simp
  ultimately have "s ! i \<noteq> CHR ''/''" if "i < length s" for i using len that by metis
  then have "CHR ''/'' \<notin> set s" by (metis in_set_conv_nth)
  then show ?thesis using len by (auto simp: plain_def)
qed

lemma last_index_append: "c \<notin> set b \<Longrightarrow> last_index c (a @ c # b) = Some (length a)"
proof -
  assume "c \<notin> set b"
  then have "takeWhile (\<lambda>x. x \<noteq> c) (rev b @ c # rev a) = rev b"
    by (subst takeWhile_append2) auto
  then show ?thesis by (simp add: last_index_def)
qed

lemma has_prefix_append [simp]: "has_prefix (a @ b) a" "trim_prefix (a @ b) a = b"
  by (simp_all add: has_prefix_def trim_prefix_def)

lemma has_suffix_append [simp]: "has_suffix (a @ b) b"
  by (simp add: has_suffix_def)

lemma split_plain3:
  assumes "plain a" "plain b" "plain c"
  shows "split_at (CHR ''/'') (a @ ''/'' @ b @ ''/'' @ c) = [a, b, c]"
  using assms by (simp add: plain_def split_at_append split_at_none)

lemma format_stamp_parses:
  assumes "date_of at = (year, m, d)" "0 \<le> year" "year < 10000"
  shows "ParseDirectorySegment (format_stamp at) = (from_unix (unix at), True)" "plain (format_stamp at)"
proof -
  have parsed: "parse_stamp (format_stamp at) = Some (from_unix (unix at))"
    using assms by (rule parse_format_stamp)
  then have "stamp_shape (format_stamp at)"
    by (auto simp: parse_stamp_def Let_def split: if_splits)
  with parsed show "ParseDirectorySegment (format_stamp at) = (from_unix (unix at), True)"
    "plain (format_stamp at)"
    by (simp_all add: ParseDirectorySegment_def stamp_shape_plain)
qed

lemma CheckManifest_below:
  assumes "ValidDatabaseSegment (Manifest_DBName m)" "plain (format_stamp (Manifest_CreatedAt m))"
    and "Entry_Directory e = root @ ''/'' @ Manifest_DBName m @ ''/'' @ format_stamp (Manifest_CreatedAt m)"
  shows "CheckManifest m e = None \<longleftrightarrow>
    Manifest_Version m = 1 \<and> Manifest_ManifestKey m = Entry_ManifestKey e \<and>
    Manifest_ArchiveKey m = Entry_ArchiveKey e"
proof -
  let ?db = "Manifest_DBName m" and ?s = "format_stamp (Manifest_CreatedAt m)"
  have "last_index (CHR ''/'') (Entry_Directory e) = Some (length (root @ ''/'' @ ?db))"
    using last_index_append [of "CHR ''/''" ?s "root @ ''/'' @ ?db"] assms(2,3)
    by (simp add: plain_def)
  then have "parent e = root @ ''/'' @ ?db" "directoryName e = ?s"
    using assms(3) by (simp_all add: parent_def directoryName_def)
  then show ?thesis using assms(1) has_suffix_append [of root "''/'' @ ?db"]
    by (simp add: CheckManifest_def)
qed

definition entry_at :: "string \<Rightarrow> gotime \<Rightarrow> Entry" where
  "entry_at directory at =
     \<lparr>Entry_Directory = directory, Entry_ManifestKey = directory @ ''/'' @ ManifestFile,
      Entry_ArchiveKey = directory @ ''/'' @ ArchiveFile, Entry_TakenAt = at,
      Entry_State = '''', Entry_SizeBytes = 0\<rparr>"

lemma EntryFor_below:
  assumes "ValidDatabaseSegment db" "ParseDirectorySegment dir = (at, True)" "plain dir"
  shows "EntryFor prefix (key prefix [''backups'', db, dir] @ ''/'' @ ManifestFile) =
    Inr (entry_at (key prefix [''backups'', db, dir]) at)"
proof -
  let ?root = "key prefix [''backups'']"
  have db: "plain db" using assms(1) by (rule valid_segment_plain)
  have mfile: "plain ManifestFile" by (simp add: ManifestFile_def plain_def)
  have dir: "key prefix [''backups'', db, dir] = ?root @ ''/'' @ db @ ''/'' @ dir"
    using db assms(3) by (rule key_below)
  then have key: "key prefix [''backups'', db, dir] @ ''/'' @ ManifestFile =
      (?root @ ''/'') @ (db @ ''/'' @ dir @ ''/'' @ ManifestFile)" by simp
  show ?thesis
    unfolding EntryFor_def Let_def key has_prefix_append split_plain3 [OF db assms(3) mfile]
    using assms(1,2) dir key has_prefix_append(1) [of "?root @ ''/''" "db @ ''/'' @ dir @ ''/'' @ ManifestFile"]
    by (simp add: entry_at_def)
qed

text \<open>
  The folder a backup is written to is recognised again: for a valid database name and a time
  within the years the layout can spell, the manifest key below \<^verbatim>\<open>BackupKey\<close> is read back as the
  entry of that folder, with the time cut to whole seconds and the archive beside it, and the
  manifest check accepts exactly a version 1 manifest of that database and time which names these
  two keys. Any folder prefix works, with slashes, dots or empty parts in it.
\<close>

theorem EntryFor_BackupKey:
  assumes "ValidDatabaseSegment (Manifest_DBName m)" "date_of (Manifest_CreatedAt m) = (year, mon, day)"
    and "0 \<le> year" "year < 10000"
    and "directory = BackupKey prefix (Manifest_DBName m) (Manifest_CreatedAt m)"
    and "e = entry_at directory (from_unix (unix (Manifest_CreatedAt m)))"
  shows "EntryFor prefix (directory @ ''/'' @ ManifestFile) = Inr e \<and>
    (CheckManifest m e = None \<longleftrightarrow>
       Manifest_Version m = 1 \<and> Manifest_ManifestKey m = directory @ ''/'' @ ManifestFile \<and>
       Manifest_ArchiveKey m = directory @ ''/'' @ ArchiveFile)"
proof -
  let ?s = "format_stamp (Manifest_CreatedAt m)"
  note s = format_stamp_parses [OF assms(2-4)]
  have dir: "directory = key prefix [''backups''] @ ''/'' @ Manifest_DBName m @ ''/'' @ ?s"
    unfolding assms(5) BackupKey_def by (rule key_below [OF valid_segment_plain [OF assms(1)] s(2)])
  show ?thesis
    using EntryFor_below [OF assms(1) s, of prefix] CheckManifest_below [OF assms(1) s(2), of e] dir
    unfolding assms(5,6) BackupKey_def by (simp add: entry_at_def)
qed

lemma EntryFor_BackupKey_witness:
  "EntryFor ''/team a//'' ''team a/backups/shop_1/20240229T235960Z/manifest.json'' = Inl not_a_manifest \<and>
   EntryFor ''/team a//'' (BackupKey ''/team a//'' ''shop_1'' (from_unix 1709251199) @ ''/'' @ ManifestFile) =
     Inr (entry_at ''team a/backups/shop_1/20240229T235959Z'' (from_unix 1709251199))"
proof -
  define m where "m = \<lparr>Manifest_Version = 1, Manifest_InstallationID = ''i'', Manifest_ProjectID = ''p'',
    Manifest_ProjectName = ''n'', Manifest_DBName = ''shop_1'', Manifest_PostgresVersion = ''17'',
    Manifest_CreatedAt = from_unix 1709251199, Manifest_ArchiveKey = '''', Manifest_SHA256 = '''',
    Manifest_SizeBytes = 5, Manifest_Tables = [], Manifest_TablesTruncated = False,
    Manifest_Objects = None, Manifest_ManifestKey = ''''\<rparr>"
  have "ValidDatabaseSegment ''shop_1''" "date_of (from_unix 1709251199) = (2024, 2, 29)" by code_simp+
  note r = EntryFor_BackupKey [of m 2024 2 29, OF _ _ _ _ refl refl, of "''/team a//''", unfolded m_def, simplified, OF this]
  have "BackupKey ''/team a//'' ''shop_1'' (from_unix 1709251199) = ''team a/backups/shop_1/20240229T235959Z''"
    "from_unix (unix (from_unix 1709251199)) = from_unix 1709251199"
    "EntryFor ''/team a//'' ''team a/backups/shop_1/20240229T235960Z/manifest.json'' = Inl not_a_manifest"
    by code_simp+
  with r show ?thesis by simp
qed

section \<open>Classifying a listing\<close>

definition place_of :: "string \<Rightarrow> Object \<Rightarrow> (string \<times> string) option" where
  "place_of root obj =
     (case split_at (CHR ''/'') (trim_prefix (Object_Key obj) root) of [name, file] \<Rightarrow> Some (name, file) | _ \<Rightarrow> None)"

definition files_in :: "string \<Rightarrow> Object list \<Rightarrow> string \<Rightarrow> string set" where
  "files_in root objects name = {file. Some (name, file) \<in> place_of root ` set objects}"

definition archive_size :: "string \<Rightarrow> Object list \<Rightarrow> string \<Rightarrow> int" where
  "archive_size root objects name =
     fold (\<lambda>obj n. if place_of root obj = Some (name, ArchiveFile) then Object_Size obj else n) objects 0"

lemma note_object_place:
  "note_object root obj dirs =
     (case place_of root obj of
        None \<Rightarrow> dirs
      | Some (name, file) \<Rightarrow>
          upsert (\<lambda>d. fst d = name) (name, note_file file (Object_Size obj) nothing_found)
            (\<lambda>d. (fst d, note_file file (Object_Size obj) (snd d))) dirs)"
  by (simp add: note_object_def place_of_def split: list.split)

definition classified :: "string \<Rightarrow> Object list \<Rightarrow> string \<Rightarrow> found" where
  "classified root objects name =
     \<lparr>found_archive = ArchiveFile \<in> files_in root objects name,
      found_manifest = ManifestFile \<in> files_in root objects name,
      found_unexpected = (\<not> files_in root objects name \<subseteq> {ArchiveFile, ManifestFile}),
      found_size = archive_size root objects name\<rparr>"

lemma files_in_snoc:
  "files_in root (objects @ [obj]) name =
     (case place_of root obj of
        Some (n, file) \<Rightarrow> if n = name then insert file (files_in root objects name) else files_in root objects name
      | None \<Rightarrow> files_in root objects name)"
  by (auto simp: files_in_def split: option.split)

lemma archive_size_none: "files_in root objects name = {} \<Longrightarrow> archive_size root objects name = 0"
proof (induction objects rule: rev_induct)
  case (snoc obj objects)
  then show ?case
    by (auto simp: files_in_snoc archive_size_def split: option.splits prod.splits if_splits)
qed (simp add: archive_size_def)

lemma classified_none: "files_in root objects name = {} \<Longrightarrow> classified root objects name = nothing_found"
  by (simp add: classified_def nothing_found_def archive_size_none)

lemma ArchiveFile_ManifestFile [simp]: "ArchiveFile \<noteq> ManifestFile" "ManifestFile \<noteq> ArchiveFile"
  by (simp_all add: ArchiveFile_def ManifestFile_def)

lemma classified_snoc:
  assumes "place_of root obj = Some (name, file)"
  shows "classified root (objects @ [obj]) name = note_file file (Object_Size obj) (classified root objects name)"
  using assms by (auto simp: classified_def note_file_def files_in_snoc archive_size_def)

lemma classified_other:
  assumes "\<And>file. place_of root obj \<noteq> Some (name, file)"
  shows "classified root (objects @ [obj]) name = classified root objects name"
    "files_in root (objects @ [obj]) name = files_in root objects name"
  using assms by (auto simp: classified_def files_in_snoc archive_size_def split: option.splits)

lemma find_noted:
  "find (\<lambda>d. fst d = name) (fold (note_object root) objects []) =
     (if files_in root objects name = {} then None else Some (name, classified root objects name))"
proof (induction objects arbitrary: name rule: rev_induct)
  case Nil
  then show ?case by (simp add: files_in_def)
next
  case (snoc obj objects)
  show ?case
  proof (cases "place_of root obj")
    case None
    then show ?thesis using snoc classified_other [of root obj name] by (simp add: note_object_place)
  next
    case (Some p)
    obtain n fl where p: "p = (n, fl)" by (cases p)
    let ?dirs = "fold (note_object root) objects []"
    have step: "find (\<lambda>d. fst d = q) (note_object root obj ?dirs) =
        (if q = n then Some (case find (\<lambda>d. fst d = n) ?dirs of
            None \<Rightarrow> (n, note_file fl (Object_Size obj) nothing_found)
          | Some d \<Rightarrow> (fst d, note_file fl (Object_Size obj) (snd d)))
         else find (\<lambda>d. fst d = q) ?dirs)" for q
      using Some p by (simp add: note_object_place find_upsert)
    show ?thesis
    proof (cases "name = n")
      case True
      then show ?thesis
        using Some p snoc [of n] step [of n] classified_snoc [of root obj n fl objects]
        by (simp add: files_in_snoc classified_none)
    next
      case False
      then show ?thesis using Some p snoc step [of name] classified_other [of root obj name objects] by simp
    qed
  qed
qed

lemma distinct_noted: "distinct (map fst (fold (note_object root) objects []))"
proof (induction objects rule: rev_induct)
  case (snoc obj objects)
  then show ?case
    by (auto simp: note_object_place intro!: distinct_map_upsert split: option.split)
qed simp

lemma set_noted:
  "set (fold (note_object root) objects []) =
     (\<lambda>name. (name, classified root objects name)) ` {name. files_in root objects name \<noteq> {}}" (is "set ?dirs = _")
proof (intro set_eqI)
  fix d
  have "d \<in> set ?dirs \<longleftrightarrow> find (\<lambda>x. fst x = fst d) ?dirs = Some d"
    using find_key_unique [OF distinct_noted] find_Some_iff_mem by metis
  then show "d \<in> set ?dirs \<longleftrightarrow>
      d \<in> (\<lambda>name. (name, classified root objects name)) ` {name. files_in root objects name \<noteq> {}}"
    by (cases d) (auto simp: find_noted)
qed

definition newest_first_order :: "Entry \<Rightarrow> Entry \<Rightarrow> bool" where
  "newest_first_order a b \<longleftrightarrow>
     Entry_TakenAt b < Entry_TakenAt a \<or> Entry_TakenAt a = Entry_TakenAt b \<and> Entry_Directory b < Entry_Directory a"

lemma sortEntries_order:
  assumes "distinct (map Entry_Directory entries)"
  shows "sorted_wrt newest_first_order (sortEntries entries)"
proof -
  let ?k = "\<lambda>e. (Entry_TakenAt e, Entry_Directory e)" and ?s = "sort_key (\<lambda>e. (Entry_TakenAt e, Entry_Directory e)) entries"
  have "distinct (map ?k entries)"
    using assms by (auto simp: distinct_map inj_on_def)
  then have "distinct (map ?k ?s)"
    by (simp add: distinct_map)
  then have "sorted_wrt (<) (map ?k ?s)" by (simp add: strict_sorted_iff)
  then have "sorted_wrt (\<lambda>a b. ?k a < ?k b) ?s" by (simp add: sorted_wrt_map)
  then have "sorted_wrt (\<lambda>a b. ?k b < ?k a) (rev ?s)" by (simp add: sorted_wrt_rev)
  then show ?thesis
    unfolding sortEntries_def newest_first_order_def
    by (rule sorted_wrt_mono_rel [rotated]) (auto simp: less_prod_def')
qed

lemma EntriesFrom_set:
  "set (EntriesFrom root objects) =
     (\<lambda>name. entry_of root (name, classified root objects name)) ` {name. files_in root objects name \<noteq> {}}"
  by (simp add: EntriesFrom_def sortEntries_def set_noted image_image)

lemma EntriesFrom_distinct: "distinct (map Entry_Directory (EntriesFrom root objects))"
  and EntriesFrom_sorted: "sorted_wrt newest_first_order (EntriesFrom root objects)"
proof -
  let ?es = "map (entry_of root) (fold (note_object root) objects [])"
  have "map Entry_Directory ?es = map (\<lambda>d. root @ d) (map fst (fold (note_object root) objects []))"
    by (simp add: entry_of_def Let_def split: prod.split)
  moreover have "distinct (map (\<lambda>d. root @ d) (map fst (fold (note_object root) objects [])))"
    using distinct_noted by (subst distinct_map) (simp add: inj_on_def)
  ultimately have *: "distinct (map Entry_Directory ?es)" by (simp only:)
  then show "sorted_wrt newest_first_order (EntriesFrom root objects)"
    unfolding EntriesFrom_def by (rule sortEntries_order)
  show "distinct (map Entry_Directory (EntriesFrom root objects))"
    using * unfolding EntriesFrom_def sortEntries_def by (auto simp: distinct_map intro: inj_on_imageI dest: inj_on_imageI2)
qed

lemma entry_state_complete:
  "entry_state ok (classified root objects name) = StateComplete \<longleftrightarrow>
     ok \<and> files_in root objects name = {ArchiveFile, ManifestFile}"
  by (auto simp: entry_state_def classified_def StateComplete_def StateDamaged_def StateArchiveOnly_def
      StateManifestOnly_def)

definition complete_entry :: "string \<Rightarrow> string \<Rightarrow> gotime \<Rightarrow> int \<Rightarrow> Entry" where
  "complete_entry root name at n =
     (entry_at (root @ name) at)\<lparr>Entry_State := StateComplete, Entry_SizeBytes := n\<rparr>"

text \<open>
  What a listing of one database offers for restore: an entry is complete exactly when its
  folder is named by a valid time stamp and the files listed directly below it are the archive and
  the manifest and nothing else; its keys, time and size are those of the folder. A folder of
  unknown origin, a folder with a file too many and anything nested deeper is never complete.
  Entries come newest first, each folder once.
\<close>

theorem EntriesFrom_exact:
  "{e \<in> set (EntriesFrom root objects). Entry_State e = StateComplete} =
     {complete_entry root name at (archive_size root objects name) | name at.
        ParseDirectorySegment name = (at, True) \<and> files_in root objects name = {ArchiveFile, ManifestFile}} \<and>
   sorted_wrt newest_first_order (EntriesFrom root objects)"
proof (intro conjI)
  have "entry_of root (name, classified root objects name) = complete_entry root name at (archive_size root objects name)"
    if "ParseDirectorySegment name = (at, True)" "files_in root objects name = {ArchiveFile, ManifestFile}" for name at
    using that by (simp add: entry_of_def complete_entry_def entry_at_def entry_state_complete) (simp add: classified_def)
  moreover have "Entry_State (entry_of root (name, classified root objects name)) = StateComplete \<longleftrightarrow>
      (\<exists>at. ParseDirectorySegment name = (at, True)) \<and> files_in root objects name = {ArchiveFile, ManifestFile}" for name
    by (auto simp: entry_of_def Let_def entry_state_complete split: prod.split)
  ultimately show "{e \<in> set (EntriesFrom root objects). Entry_State e = StateComplete} =
      {complete_entry root name at (archive_size root objects name) | name at.
        ParseDirectorySegment name = (at, True) \<and> files_in root objects name = {ArchiveFile, ManifestFile}}"
    unfolding EntriesFrom_set by (auto simp: image_iff) (metis insert_not_empty)+
  show "sorted_wrt newest_first_order (EntriesFrom root objects)" by (rule EntriesFrom_sorted)
qed

end
