(* ===== verification/World.thy ===== *)
theory World
  imports Store_Deletion Store_Alerts Storage_Layout
begin

text \<open>
  What the worker, the provisioner and the alerter of \<^verbatim>\<open>internal\<close> act on beside the management
  database. Everything that is not this program (the S3 provider, PostgreSQL, the clock, the file
  system) is a value of a type the model knows nothing of, and a call to it is a function that
  answers and moves that value on. The record \<open>world\<close> holds the database, this outside, and a log
  of the calls that matter for safety, newest first, each with the database as it was at the call.
  Store operations run in it by \<open>on_db\<close>, outside calls by \<open>call_out\<close>, operations on the program's own
  files by \<open>on_files\<close>; a file operation can fail like a statement.
\<close>

section \<open>Calls to the outside\<close>

type_synonym ('x, 'a) io = "'x \<Rightarrow> (err + 'a) \<times> 'x"

definition io_ret :: "'a \<Rightarrow> ('x, 'a) io" where
  "io_ret a x = (Inr a, x)"

definition io_throw :: "err \<Rightarrow> ('x, 'a) io" where
  "io_throw e x = (Inl e, x)"

definition io_bind :: "('x, 'a) io \<Rightarrow> ('a \<Rightarrow> ('x, 'b) io) \<Rightarrow> ('x, 'b) io" where
  "io_bind m f x = (case m x of (Inl e, x') \<Rightarrow> (Inl e, x') | (Inr a, x') \<Rightarrow> f a x')"

lemma io_bind_Inr:
  "io_bind m f x = (Inr b, x') \<longleftrightarrow> (\<exists>a x1. m x = (Inr a, x1) \<and> f a x1 = (Inr b, x'))"
  by (auto simp: io_bind_def split: prod.splits sum.splits)

lemma io_ret_Inr: "io_ret a x = (Inr b, x') \<longleftrightarrow> b = a \<and> x' = x"
  by (auto simp: io_ret_def)

lemma io_guard_Inr: "(if c then io_throw e else m) x = (Inr b, x') \<longleftrightarrow> \<not> c \<and> m x = (Inr b, x')"
  by (simp add: io_throw_def)

lemma io_throw_Inr: "io_throw e x = (Inr b, x') \<longleftrightarrow> False"
  by (simp add: io_throw_def)

lemma io_option_Inr:
  "(case r of None \<Rightarrow> m | Some v \<Rightarrow> f v) x = (Inr b, x') \<longleftrightarrow>
     (r = None \<and> m x = (Inr b, x')) \<or> (\<exists>v. r = Some v \<and> f v x = (Inr b, x'))"
  by (cases r) simp_all

lemma io_result_Inr:
  "(case r of Inl e \<Rightarrow> f e | Inr v \<Rightarrow> g v) x = (Inr b, x') \<longleftrightarrow>
     (\<exists>e. r = Inl e \<and> f e x = (Inr b, x')) \<or> (\<exists>v. r = Inr v \<and> g v x = (Inr b, x'))"
  by (cases r) simp_all

lemmas io_simps = io_bind_Inr io_ret_Inr io_guard_Inr io_throw_Inr io_option_Inr io_result_Inr

section \<open>The world\<close>

datatype call =
    ReadManifest string "err + Manifest"
  | Removed string db
  | Uploaded string string db
  | RoleEnsured string string db
  | DatabaseEnsured string string db
  | LimitsSet string db
  | PasswordSet string string db
  | SessionsEnded string db
  | ProjectDropped string string db
  | RulesLoaded string db
  | Checksummed string string int
  | Posted string string "int option"
  | RestoreRun string string db

record 'x world =
  wdb :: db
  outside :: 'x
  calls :: "call list"
  files :: "string \<Rightarrow> string option"

type_synonym ('x, 'a) act = "('x world, 'a) tx"

definition on_db :: "'a dbop \<Rightarrow> ('x, 'a) act" where
  "on_db m s = (case m (wdb (fst s), snd s) of (r, (d, fs)) \<Rightarrow> (r, ((fst s)\<lparr>wdb := d\<rparr>, fs)))"

text \<open>A call is logged as \<open>note\<close> says, from its answer and the database at the time.\<close>

definition call_out :: "(err + 'a \<Rightarrow> db \<Rightarrow> call list) \<Rightarrow> ('x, 'a) io \<Rightarrow> ('x, 'a) act" where
  "call_out note f s = (case f (outside (fst s)) of (r, x) \<Rightarrow>
     (r, ((fst s)\<lparr>outside := x, calls := note r (wdb (fst s)) @ calls (fst s)\<rparr>, snd s)))"

definition unlogged :: "err + 'a \<Rightarrow> db \<Rightarrow> call list" where
  "unlogged r d = []"

definition observe :: "('x \<Rightarrow> 'a \<times> 'x) \<Rightarrow> ('x, 'a) act" where
  "observe f = call_out unlogged (\<lambda>x. case f x of (a, x') \<Rightarrow> (Inr a, x'))"

definition file_error :: err where
  "file_error = EExternal ''file system''"

definition on_files :: "((string \<Rightarrow> string option) \<Rightarrow> 'a \<times> (string \<Rightarrow> string option)) \<Rightarrow> ('x, 'a) act" where
  "on_files f s = (if fails_now (snd s) then (Inl file_error, (fst s, tl (snd s)))
     else case f (files (fst s)) of (a, m) \<Rightarrow> (Inr a, ((fst s)\<lparr>files := m\<rparr>, tl (snd s))))"

text \<open>A loop over a list that keeps going after an error and reports the last one.\<close>

fun for_all_errors :: "('y \<Rightarrow> ('d, unit) tx) \<Rightarrow> 'y list \<Rightarrow> err option \<Rightarrow> ('d, err option) tx" where
  "for_all_errors f [] failure = ret failure"
| "for_all_errors f (y # ys) failure =
     bind_tx (attempt (f y)) (\<lambda>r. case r of
       Inl e \<Rightarrow> for_all_errors f ys (Some e)
     | Inr _ \<Rightarrow> for_all_errors f ys failure)"

section \<open>Pre- and postconditions\<close>

text \<open>
  \<open>triple P m Q E\<close>: started in a state with \<open>P\<close>, the computation returns \<open>x\<close> in a state with \<open>Q x\<close> or
  ends with an error in a state with \<open>E\<close>, whatever the driver does.
\<close>

definition triple :: "('d \<Rightarrow> bool) \<Rightarrow> ('d, 'a) tx \<Rightarrow> ('a \<Rightarrow> 'd \<Rightarrow> bool) \<Rightarrow> ('d \<Rightarrow> bool) \<Rightarrow> bool" where
  "triple P m Q E \<longleftrightarrow>
     (\<forall>s x s'. P (fst s) \<longrightarrow> m s = (Inr x, s') \<longrightarrow> Q x (fst s')) \<and>
     (\<forall>s e s'. P (fst s) \<longrightarrow> m s = (Inl e, s') \<longrightarrow> E (fst s'))"

lemma tripleI:
  assumes "\<And>s x s'. P (fst s) \<Longrightarrow> m s = (Inr x, s') \<Longrightarrow> Q x (fst s')"
    and "\<And>s e s'. P (fst s) \<Longrightarrow> m s = (Inl e, s') \<Longrightarrow> E (fst s')"
  shows "triple P m Q E"
  unfolding triple_def using assms by blast

lemma tripleD_Inr: "triple P m Q E \<Longrightarrow> P (fst s) \<Longrightarrow> m s = (Inr x, s') \<Longrightarrow> Q x (fst s')"
  unfolding triple_def by blast

lemma tripleD_Inl: "triple P m Q E \<Longrightarrow> P (fst s) \<Longrightarrow> m s = (Inl e, s') \<Longrightarrow> E (fst s')"
  unfolding triple_def by blast

lemma triple_leaves:
  assumes "triple P m Q E" "P (fst s)" "\<And>x d. Q x d \<Longrightarrow> R d" "\<And>d. E d \<Longrightarrow> R d"
  shows "R (leaves m s)"
proof -
  obtain r s' where m: "m s = (r, s')" by (metis surj_pair)
  then show ?thesis using assms
    by (cases r) (auto simp: leaves_def dest: tripleD_Inr tripleD_Inl)
qed

lemma triple_keeps: "keeps I m \<longleftrightarrow> triple I m (\<lambda>_. I) I"
proof
  show "triple I m (\<lambda>_. I) I" if "keeps I m" using keepsD_eq [OF that] by (intro tripleI) blast+
  show "keeps I m" if "triple I m (\<lambda>_. I) I"
    unfolding keeps_def using triple_leaves [OF that] by blast
qed

lemma triple_conseq:
  assumes "triple P' m Q' E'" "\<And>d. P d \<Longrightarrow> P' d" "\<And>x d. Q' x d \<Longrightarrow> Q x d" "\<And>d. E' d \<Longrightarrow> E d"
  shows "triple P m Q E"
  by (rule tripleI) (use assms in \<open>blast dest: tripleD_Inr tripleD_Inl\<close>)+

lemma triple_error: "triple P m Q E \<Longrightarrow> (\<And>d. E d \<Longrightarrow> E' d) \<Longrightarrow> triple P m Q E'"
  by (erule triple_conseq)

lemma triple_pre: "triple P m Q E \<Longrightarrow> (\<And>d. P' d \<Longrightarrow> P d) \<Longrightarrow> triple P' m Q E"
  by (erule triple_conseq)

lemma triple_ret [tx_triple]: "(\<And>d. P d \<Longrightarrow> Q x d) \<Longrightarrow> triple P (ret x) Q E"
  by (simp add: triple_def ret_def)

lemma triple_throw [tx_triple]: "(\<And>d. P d \<Longrightarrow> E d) \<Longrightarrow> triple P (throw e) Q E"
  by (simp add: triple_def throw_def)

lemma triple_bind:
  assumes "triple P m R E" "\<And>x. triple (R x) (f x) Q E"
  shows "triple P (bind_tx m f) Q E"
proof (rule tripleI)
  fix s y s' assume p: "P (fst s)" and "bind_tx m f s = (Inr y, s')"
  then obtain x s1 where "m s = (Inr x, s1)" "f x s1 = (Inr y, s')" by (auto simp: bind_Inr)
  with p show "Q y (fst s')" using assms by (blast dest: tripleD_Inr)
next
  fix s e s' assume p: "P (fst s)" and b: "bind_tx m f s = (Inl e, s')"
  obtain r s1 where m: "m s = (r, s1)" by (metis surj_pair)
  show "E (fst s')"
  proof (cases r)
    case (Inl e')
    then have "m s = (Inl e', s')" using b m by (simp add: bind_tx_def)
    then show ?thesis by (rule tripleD_Inl [OF assms(1) p])
  next
    case (Inr x)
    then have "R x (fst s1)" "f x s1 = (Inl e, s')"
      using b m tripleD_Inr [OF assms(1) p] by (simp_all add: bind_tx_def)
    then show ?thesis by (rule tripleD_Inl [OF assms(2)])
  qed
qed

lemma triple_then:
  assumes "triple P m R E" "\<And>x. triple (R x) k Q E"
  shows "triple P (then_tx m k) Q E"
  unfolding then_tx_def by (rule triple_bind [OF assms])

lemma triple_attempt:
  assumes "triple P m (\<lambda>x. Q (Inr x)) (\<lambda>d. \<forall>e. Q (Inl e) d)"
  shows "triple P (attempt m) Q E"
proof (rule tripleI)
  fix s r s' assume p: "P (fst s)" and a: "attempt m s = (Inr r, s')"
  show "Q r (fst s')"
    using tripleD_Inr [OF assms p] tripleD_Inl [OF assms p] a by (cases r) (auto simp: attempt_Inr)
next
  fix s e s' assume "attempt m s = (Inl e, s')"
  then show "E (fst s')" by (simp add: attempt_def split: prod.splits)
qed

lemma triple_for_each:
  assumes "\<And>x xs. triple (J (x # xs)) (f x) (\<lambda>_. J xs) E"
  shows "triple (J xs) (for_each f xs) (\<lambda>_. J []) E"
proof (induction xs)
  case (Cons x xs)
  show ?case unfolding for_each.simps by (rule triple_then [OF assms Cons])
qed (simp add: triple_ret)

lemma keeps_for_all_errors [tx_keeps]:
  "(\<And>y. keeps I (f y)) \<Longrightarrow> keeps I (for_all_errors f ys failure)"
proof (induction ys arbitrary: failure)
  case (Cons y ys)
  then show ?case
    unfolding for_all_errors.simps
    by (intro keeps_bind keeps_attempt keeps_result) simp_all
qed (simp add: keeps_ret)

subsection \<open>Rules for the world\<close>

lemma on_db_eq: "on_db m (w, fs) = (fst (m (wdb w, fs)), (w\<lparr>wdb := leaves m (wdb w, fs)\<rparr>, snd (snd (m (wdb w, fs)))))"
  by (simp add: on_db_def leaves_def split: prod.split)

lemma on_db_Inr [tx_simps]:
  "on_db m s = (Inr x, s') \<longleftrightarrow>
     (\<exists>d fs. m (wdb (fst s), snd s) = (Inr x, (d, fs)) \<and> s' = ((fst s)\<lparr>wdb := d\<rparr>, fs))"
  by (auto simp: on_db_def split: prod.splits)

lemma on_db_Inl [tx_simps]:
  "on_db m s = (Inl e, s') \<longleftrightarrow>
     (\<exists>d fs. m (wdb (fst s), snd s) = (Inl e, (d, fs)) \<and> s' = ((fst s)\<lparr>wdb := d\<rparr>, fs))"
  by (auto simp: on_db_def split: prod.splits)

lemma call_out_Inr [tx_simps]:
  "call_out note f s = (Inr a, s') \<longleftrightarrow>
     (\<exists>x. f (outside (fst s)) = (Inr a, x) \<and>
        s' = ((fst s)\<lparr>outside := x, calls := note (Inr a) (wdb (fst s)) @ calls (fst s)\<rparr>, snd s))"
  by (auto simp: call_out_def split: prod.splits)

lemma call_out_Inl [tx_simps]:
  "call_out note f s = (Inl e, s') \<longleftrightarrow>
     (\<exists>x. f (outside (fst s)) = (Inl e, x) \<and>
        s' = ((fst s)\<lparr>outside := x, calls := note (Inl e) (wdb (fst s)) @ calls (fst s)\<rparr>, snd s))"
  by (auto simp: call_out_def split: prod.splits)

lemma observe_Inr [tx_simps]:
  "observe f s = (Inr a, s') \<longleftrightarrow>
     (\<exists>x. f (outside (fst s)) = (a, x) \<and> s' = ((fst s)\<lparr>outside := x\<rparr>, snd s))"
  by (auto simp: observe_def call_out_Inr unlogged_def split: prod.splits)

lemma on_files_Inr [tx_simps]:
  "on_files f s = (Inr a, s') \<longleftrightarrow>
     (\<exists>m. \<not> fails_now (snd s) \<and> f (files (fst s)) = (a, m) \<and> s' = ((fst s)\<lparr>files := m\<rparr>, tl (snd s)))"
  by (auto simp: on_files_def split: prod.splits)

lemma on_files_Inl: "on_files f s = (Inl e, s') \<Longrightarrow> fst s' = fst s \<and> e = file_error"
  by (auto simp: on_files_def split: prod.splits if_splits)

text \<open>What holds of the database alone, or of the log alone, is not disturbed by the rest.\<close>

definition of_db :: "(db \<Rightarrow> bool) \<Rightarrow> 'x world \<Rightarrow> bool" where
  "of_db I w = I (wdb w)"

definition of_calls :: "(call list \<Rightarrow> bool) \<Rightarrow> 'x world \<Rightarrow> bool" where
  "of_calls I w = I (calls w)"

lemma keeps_on_db_of_db [tx_keeps]: "keeps I m \<Longrightarrow> keeps (of_db I) (on_db m)"
  unfolding keeps_def of_db_def
  by (metis (no_types, lifting) fst_conv leaves_def on_db_eq prod.collapse select_convs(1) snd_conv surjective update_convs(1))

lemma keeps_on_db_of_calls [tx_keeps]: "keeps (of_calls I) (on_db m)"
  unfolding keeps_def of_calls_def by (auto simp: on_db_def leaves_def split: prod.splits)

lemma keeps_call_of_db [tx_keeps]: "keeps (of_db I) (call_out note f)"
  unfolding keeps_def of_db_def by (auto simp: call_out_def leaves_def split: prod.splits)

lemma keeps_observe_of_db [tx_keeps]: "keeps (of_db I) (observe f)"
  unfolding observe_def by (rule keeps_call_of_db)

lemma keeps_observe_of_calls [tx_keeps]: "keeps (of_calls I) (observe f)"
  unfolding keeps_def of_calls_def
  by (auto simp: observe_def call_out_def unlogged_def leaves_def split: prod.splits)

lemma keeps_unlogged_of_calls [tx_keeps]: "keeps (of_calls I) (call_out unlogged f)"
  unfolding keeps_def of_calls_def by (auto simp: call_out_def unlogged_def leaves_def split: prod.splits)

lemma keeps_on_files_of_db [tx_keeps]: "keeps (of_db I) (on_files f)"
  unfolding keeps_def of_db_def by (auto simp: on_files_def leaves_def split: prod.splits)

lemma keeps_on_files_of_calls [tx_keeps]: "keeps (of_calls I) (on_files f)"
  unfolding keeps_def of_calls_def by (auto simp: on_files_def leaves_def split: prod.splits)

lemma triple_on_files:
  assumes "\<And>w a m. P w \<Longrightarrow> f (files w) = (a, m) \<Longrightarrow> Q a (w\<lparr>files := m\<rparr>)" "\<And>w. P w \<Longrightarrow> E w"
  shows "triple P (on_files f) Q E"
  by (rule tripleI) (auto simp: on_files_Inr assms dest: on_files_Inl)

lemma triple_on_db:
  assumes "\<And>w fs x d fs'. P w \<Longrightarrow> m (wdb w, fs) = (Inr x, (d, fs')) \<Longrightarrow> Q x (w\<lparr>wdb := d\<rparr>)"
    and "\<And>w fs e d fs'. P w \<Longrightarrow> m (wdb w, fs) = (Inl e, (d, fs')) \<Longrightarrow> E (w\<lparr>wdb := d\<rparr>)"
  shows "triple P (on_db m) Q E"
  by (rule tripleI) (auto simp: on_db_Inr on_db_Inl intro: assms)

lemma triple_exec:
  assumes "\<And>w. P w \<Longrightarrow> Q () (w\<lparr>wdb := u (wdb w)\<rparr>)" "\<And>w. P w \<Longrightarrow> E w"
  shows "triple P (on_db (exec u)) Q E"
proof (rule triple_on_db)
  fix w :: "'a world" and fs x d fs'
  assume "P w" "exec u (wdb w, fs) = (Inr x, d, fs')"
  then show "Q x (w\<lparr>wdb := d\<rparr>)" using assms(1) by (auto simp: exec_Inr)
next
  fix w :: "'a world" and fs e d fs'
  assume p: "P w" and "exec u (wdb w, fs) = (Inl e, d, fs')"
  then have "d = wdb w" using exec_fails [of u "(wdb w, fs)" e d] by (simp add: fails_def)
  then show "E (w\<lparr>wdb := d\<rparr>)" using p assms(2) by simp
qed

lemma triple_query:
  assumes "\<And>w. P w \<Longrightarrow> Q (q (wdb w)) w" "\<And>w. P w \<Longrightarrow> E w"
  shows "triple P (on_db (query q)) Q E"
proof (rule triple_on_db)
  fix w :: "'a world" and fs x d fs'
  assume "P w" "query q (wdb w, fs) = (Inr x, d, fs')"
  then show "Q x (w\<lparr>wdb := d\<rparr>)" using assms(1) by (auto simp: query_Inr)
next
  fix w :: "'a world" and fs e d fs'
  assume p: "P w" and "query q (wdb w, fs) = (Inl e, d, fs')"
  then have "d = wdb w" using query_fails [of q "(wdb w, fs)" e d] by (simp add: fails_def)
  then show "E (w\<lparr>wdb := d\<rparr>)" using p assms(2) by simp
qed

lemma triple_call:
  assumes "\<And>w a x. P w \<Longrightarrow> f (outside w) = (Inr a, x) \<Longrightarrow>
      Q a (w\<lparr>outside := x, calls := note (Inr a) (wdb w) @ calls w\<rparr>)"
    and "\<And>w e x. P w \<Longrightarrow> f (outside w) = (Inl e, x) \<Longrightarrow>
      E (w\<lparr>outside := x, calls := note (Inl e) (wdb w) @ calls w\<rparr>)"
  shows "triple P (call_out note f) Q E"
  by (rule tripleI) (auto simp: call_out_Inr call_out_Inl intro: assms)

lemma triple_observe:
  assumes "\<And>w a x. P w \<Longrightarrow> Q a (w\<lparr>outside := x\<rparr>)"
  shows "triple P (observe f) Q E"
  unfolding observe_def
  by (rule triple_call) (auto simp: unlogged_def split: prod.splits intro: assms)

lemma triple_ifI: "(c \<Longrightarrow> triple P m Q E) \<Longrightarrow> (\<not> c \<Longrightarrow> triple P k Q E) \<Longrightarrow> triple P (if c then m else k) Q E"
  by simp

lemma triple_call_db: "triple (\<lambda>x. wdb x = d) (call_out lg f) (\<lambda>_ x. wdb x = d) (\<lambda>x. wdb x = d)"
  by (rule triple_call) simp_all

lemma triple_query_db: "triple (\<lambda>x. wdb x = d) (on_db (query q)) (\<lambda>_ x. wdb x = d) (\<lambda>x. wdb x = d)"
  by (rule triple_query) simp_all

text \<open>A condition on the database together with one on the log.\<close>

definition both :: "(db \<Rightarrow> bool) \<Rightarrow> (call list \<Rightarrow> bool) \<Rightarrow> 'x world \<Rightarrow> bool" where
  "both D J w \<longleftrightarrow> D (wdb w) \<and> J (calls w)"

lemma keeps_on_db_both [tx_keeps]: "keeps D m \<Longrightarrow> keeps (both D J) (on_db m)"
  unfolding keeps_def both_def by (auto simp: on_db_eq leaves_def)

lemma keeps_call_both:
  "(\<And>r d cs. D d \<Longrightarrow> J cs \<Longrightarrow> J (lg r d @ cs)) \<Longrightarrow> keeps (both D J) (call_out lg f)"
  unfolding keeps_def both_def by (auto simp: call_out_def leaves_def split: prod.splits)

lemma keeps_unlogged_both [tx_keeps]: "keeps (both D J) (call_out unlogged f)"
  by (rule keeps_call_both) (simp add: unlogged_def)

lemma keeps_observe_both [tx_keeps]: "keeps (both D J) (observe f)"
  unfolding observe_def by (rule keeps_unlogged_both)

lemma keeps_on_files_both [tx_keeps]: "keeps (both D J) (on_files f)"
  unfolding keeps_def both_def by (auto simp: on_files_def leaves_def split: prod.splits)

lemma triple_both: "keeps (both D J) m \<Longrightarrow> triple (both D J) m (\<lambda>_. of_calls J) (of_calls J)"
  by (rule tripleI) (auto simp: both_def of_calls_def dest: keepsD_eq)

lemma of_calls_both: "of_calls J = both (\<lambda>_. True) J"
  by (simp add: fun_eq_iff both_def of_calls_def)

lemma triple_read:
  assumes "\<And>d fs x d' fs'. D d \<Longrightarrow> m (d, fs) = (Inr x, (d', fs')) \<Longrightarrow> D' x d'"
  shows "triple (both D J) (on_db m) (\<lambda>x. both (D' x) J) (of_calls J)"
  by (rule triple_on_db) (auto simp: both_def of_calls_def dest: assms)

text \<open>A computation that reports no error, whatever fails below it.\<close>

definition never_fails :: "('d, 'a) tx \<Rightarrow> bool" where
  "never_fails m \<longleftrightarrow> triple (\<lambda>_. True) m (\<lambda>_ _. True) (\<lambda>_. False)"

lemma never_fails_bind: "never_fails m \<Longrightarrow> (\<And>x. never_fails (f x)) \<Longrightarrow> never_fails (bind_tx m f)"
  unfolding never_fails_def by (rule triple_bind)

lemma never_fails_then: "never_fails m \<Longrightarrow> never_fails k \<Longrightarrow> never_fails (then_tx m k)"
  unfolding never_fails_def by (rule triple_then)

lemma never_fails_ret: "never_fails (ret x)"
  unfolding never_fails_def by (rule triple_ret) simp

lemma never_fails_attempt: "never_fails (attempt m)"
  unfolding never_fails_def by (rule triple_attempt) (simp add: triple_def)

lemma never_fails_observe: "never_fails (observe f)"
  unfolding never_fails_def by (rule triple_observe) simp

lemma never_fails_if: "never_fails m \<Longrightarrow> never_fails k \<Longrightarrow> never_fails (if c then m else k)"
  by simp

lemma never_fails_result:
  "(\<And>e. never_fails (f e)) \<Longrightarrow> (\<And>v. never_fails (g v)) \<Longrightarrow> never_fails (case r of Inl e \<Rightarrow> f e | Inr v \<Rightarrow> g v)"
  by (cases r) simp_all

lemma never_fails_for_each: "(\<And>y. never_fails (f y)) \<Longrightarrow> never_fails (for_each f ys)"
  by (induction ys) (auto intro: never_fails_ret never_fails_then)

lemmas never_fails_rules = never_fails_bind never_fails_then never_fails_ret never_fails_attempt never_fails_observe
  never_fails_if never_fails_result never_fails_for_each

lemma triple_never_fails: "never_fails m \<Longrightarrow> triple P m (\<lambda>_ _. True) E"
  unfolding never_fails_def triple_def by blast

end
