(* ===== verification/Storage_Client.thy ===== *)
theory Storage_Client
  imports World
begin

text \<open>
  The client of the backup store (\<^verbatim>\<open>internal/storage/storage.go\<close> and the reading half of
  \<^verbatim>\<open>layout.go\<close>). The S3 library and the provider behind it are the record \<open>minio\<close> of outside
  calls; JSON decoding of a manifest is the argument \<open>decode\<close>. What the worker uses of the client is
  the Go interface \<^verbatim>\<open>objectStore\<close>, a record of calls; the locale \<open>backup_store\<close> states what a worker
  may rely on, and the client is shown to provide it.
\<close>

section \<open>Settings\<close>

record Settings =
  Endpoint :: string
  Region :: string
  Bucket :: string
  Prefix :: string
  AccessKey :: string
  SecretKey :: string
  SessionToken :: string
  PathStyle :: bool
  PrivateEndpoint :: bool
  BucketProtection :: string
  ProtectionState :: string
  ProtectionCheckedAt :: int

definition ProtectionVersioning :: string where "ProtectionVersioning = ''versioning''"
definition ProtectionAcknowledged :: string where "ProtectionAcknowledged = ''acknowledged''"
definition VersioningEnabled :: string where "VersioningEnabled = ''enabled''"
definition VersioningDisabled :: string where "VersioningDisabled = ''disabled''"
definition VersioningUnsupported :: string where "VersioningUnsupported = ''unsupported''"

text \<open>\<^verbatim>\<open>strings.ToLower\<close> on the ASCII letters, the only letters of a host name on the wire.\<close>

definition Target :: "Settings \<Rightarrow> string" where
  "Target s = Hash (map fold_case (Endpoint s) @ ''|'' @ Bucket s @ ''|'' @ trim_char (CHR ''/'') (Prefix s))"

text \<open>Four bullets, three bytes each in UTF-8, then at most the last four bytes of a long secret.\<close>

definition bullets :: string where
  "bullets = concat (replicate 4 [CHR 0xE2, CHR 0x80, CHR 0xA2])"

definition mask :: "string \<Rightarrow> string" where
  "mask v = (if v = '''' then '''' else if length v > 4 then bullets @ drop (length v - 4) v else bullets)"

definition Masked :: "Settings \<Rightarrow> Settings" where
  "Masked s = s\<lparr>AccessKey := mask (AccessKey s), SecretKey := mask (SecretKey s),
     SessionToken := mask (SessionToken s)\<rparr>"

section \<open>The provider\<close>

text \<open>An error of the library: the provider's code and message if it answered, and the error text.\<close>

record s3_error =
  s3_response :: "(string \<times> string) option"
  s3_text :: string

definition describe :: "s3_error \<Rightarrow> string" where
  "describe e = (case s3_response e of
     None \<Rightarrow> s3_text e
   | Some (code, message) \<Rightarrow>
       if code = '''' then s3_text e
       else if code = ''AccessDenied'' then
         ''Access denied: the credentials cannot perform this operation on the bucket.''
       else if code = ''NoSuchBucket'' then ''The bucket does not exist at this endpoint/region.''
       else if code = ''InvalidAccessKeyId'' \<or> code = ''SignatureDoesNotMatch'' then
         ''The access key or secret key is not accepted by the endpoint.''
       else code @ '': '' @ message)"

definition described :: "s3_error \<Rightarrow> err" where
  "described e = EMsg (describe e)"

record 'x minio =
  ListObjects :: "string \<Rightarrow> string \<Rightarrow> bool \<Rightarrow> 'x \<Rightarrow> (s3_error + Object) list \<times> 'x"
  GetObject :: "string \<Rightarrow> string \<Rightarrow> 'x \<Rightarrow> (s3_error + string) \<times> 'x"
  PutObject :: "string \<Rightarrow> string \<Rightarrow> string \<Rightarrow> string \<Rightarrow> 'x \<Rightarrow> (s3_error + unit) \<times> 'x"
  FPutObject :: "string \<Rightarrow> string \<Rightarrow> string \<Rightarrow> 'x \<Rightarrow> (s3_error + unit) \<times> 'x"
  FGetObject :: "string \<Rightarrow> string \<Rightarrow> string \<Rightarrow> 'x \<Rightarrow> (s3_error + unit) \<times> 'x"
  RemoveObject :: "string \<Rightarrow> string \<Rightarrow> 'x \<Rightarrow> (s3_error + unit) \<times> 'x"
  GetBucketVersioning :: "string \<Rightarrow> 'x \<Rightarrow> (s3_error + bool) \<times> 'x"

record 'x Client =
  settings_of :: Settings
  mc :: "'x minio"

text \<open>\<^verbatim>\<open>if e != nil { return errors.New(describe(e)) }\<close>\<close>

definition answered :: "('x \<Rightarrow> (s3_error + 'a) \<times> 'x) \<Rightarrow> ('x, 'a) io" where
  "answered f x = (case f x of (Inl e, x') \<Rightarrow> (Inl (described e), x') | (Inr a, x') \<Rightarrow> (Inr a, x'))"

text \<open>The loop over a listing, left at the first object that carries an error.\<close>

fun listed :: "(s3_error + Object) list \<Rightarrow> err + Object list" where
  "listed [] = Inr []"
| "listed (Inl e # _) = Inl (described e)"
| "listed (Inr obj # rest) = (case listed rest of Inl e \<Rightarrow> Inl e | Inr objs \<Rightarrow> Inr (obj # objs))"

definition listing :: "'x Client \<Rightarrow> string \<Rightarrow> bool \<Rightarrow> ('x, Object list) io" where
  "listing c prefix recursive x =
     (case ListObjects (mc c) (Bucket (settings_of c)) prefix recursive x of (items, x') \<Rightarrow> (listed items, x'))"

section \<open>Operations\<close>

definition UploadFile :: "'x Client \<Rightarrow> string \<Rightarrow> string \<Rightarrow> ('x, unit) io" where
  "UploadFile c k file = answered (FPutObject (mc c) (Bucket (settings_of c)) k file)"

definition UploadBytes :: "'x Client \<Rightarrow> string \<Rightarrow> string \<Rightarrow> string \<Rightarrow> ('x, unit) io" where
  "UploadBytes c k b contentType = answered (PutObject (mc c) (Bucket (settings_of c)) k b contentType)"

definition DownloadFile :: "'x Client \<Rightarrow> string \<Rightarrow> string \<Rightarrow> ('x, unit) io" where
  "DownloadFile c k file = answered (FGetObject (mc c) (Bucket (settings_of c)) k file)"

definition ReadBytes :: "'x Client \<Rightarrow> string \<Rightarrow> nat \<Rightarrow> ('x, string) io" where
  "ReadBytes c k limit =
     io_bind (answered (GetObject (mc c) (Bucket (settings_of c)) k)) (\<lambda>b. io_ret (take limit b))"

definition Remove :: "'x Client \<Rightarrow> string \<Rightarrow> ('x, unit) io" where
  "Remove c k = answered (RemoveObject (mc c) (Bucket (settings_of c)) k)"

definition client_key :: "'x Client \<Rightarrow> string list \<Rightarrow> string" where
  "client_key c parts = key (Prefix (settings_of c)) parts"

definition ListDatabases :: "'x Client \<Rightarrow> ('x, string list) io" where
  "ListDatabases c =
     (let root = client_key c [''backups''] @ ''/'' in
      io_bind (listing c root False) (\<lambda>objects.
      let names = map (\<lambda>obj. trim_suffix (trim_prefix (Object_Key obj) root) ''/'') objects in
      io_ret (sort (filter (\<lambda>name. name \<noteq> '''' \<and> ValidDatabaseSegment name) names))))"

definition ListBackups :: "'x Client \<Rightarrow> string \<Rightarrow> ('x, Entry list) io" where
  "ListBackups c dbName =
     (if \<not> ValidDatabaseSegment dbName then
        io_throw (EMsg ''not a database folder written by this application'')
      else let root = client_key c [''backups'', dbName] @ ''/'' in
        io_bind (listing c root True) (\<lambda>objects. io_ret (EntriesFrom root objects)))"

definition MaxManifestBytes :: nat where "MaxManifestBytes = 8388608"

definition EncodeManifest :: "(Manifest \<Rightarrow> err + string) \<Rightarrow> Manifest \<Rightarrow> err + string" where
  "EncodeManifest encode m = (case encode m of
     Inl e \<Rightarrow> Inl e
   | Inr b \<Rightarrow> if length b > MaxManifestBytes
       then Inl (EMsg ''the manifest exceeds the size limit for this release'') else Inr b)"

definition read_as_manifest :: "(string \<Rightarrow> Manifest option) \<Rightarrow> Entry \<Rightarrow> string \<Rightarrow> string \<Rightarrow> err + Manifest" where
  "read_as_manifest decode entry k b =
     (if length b > MaxManifestBytes then Inl (EMsg ''the manifest exceeds the size limit for this release'')
      else case decode b of
        None \<Rightarrow> Inl (EMsg ''the manifest is unreadable or from an unsupported version'')
      | Some m0 \<Rightarrow>
          let m = m0\<lparr>Manifest_ManifestKey := k\<rparr> in
          if CheckManifest m entry \<noteq> None then
            Inl (EMsg ''the backup's manifest does not match its location and will not be restored'')
          else Inr m)"

definition get_Manifest :: "(string \<Rightarrow> Manifest option) \<Rightarrow> 'x Client \<Rightarrow> string \<Rightarrow> ('x, Manifest) io" where
  "get_Manifest decode c k =
     (case EntryFor (Prefix (settings_of c)) k of
        Inl e \<Rightarrow> io_throw e
      | Inr entry \<Rightarrow>
          io_bind (ReadBytes c k (MaxManifestBytes + 1)) (\<lambda>b.
          case read_as_manifest decode entry k b of Inl e \<Rightarrow> io_throw e | Inr m \<Rightarrow> io_ret m))"

definition Protection :: "'x Client \<Rightarrow> ('x, string) io" where
  "Protection c x = (case GetBucketVersioning (mc c) (Bucket (settings_of c)) x of
     (Inr enabled, x') \<Rightarrow> (Inr (if enabled then VersioningEnabled else VersioningDisabled), x')
   | (Inl e, x') \<Rightarrow>
       let code = (case s3_response e of None \<Rightarrow> '''' | Some (code, _) \<Rightarrow> code) in
       if code \<in> {''NotImplemented'', ''MethodNotAllowed'', ''NotSupported'', ''UnsupportedOperation''}
       then (Inr VersioningUnsupported, x')
       else if code = ''AccessDenied'' then
         (Inl (EMsg ''the credentials may not read the bucket's versioning setting; allow s3:GetBucketVersioning and try again''), x')
       else (Inl (EMsg (''the bucket's versioning setting could not be read: '' @ describe e)), x'))"

section \<open>The check of a store\<close>

record CheckStep =
  step_Name :: string
  step_OK :: bool
  step_Error :: string
  step_Detail :: string

definition passed :: "string \<Rightarrow> CheckStep" where
  "passed name = \<lparr>step_Name = name, step_OK = True, step_Error = '''', step_Detail = ''''\<rparr>"

definition refused :: "string \<Rightarrow> string \<Rightarrow> CheckStep" where
  "refused name reason = \<lparr>step_Name = name, step_OK = False, step_Error = reason, step_Detail = ''''\<rparr>"

text \<open>
  Every step is an outside call that answers with the reason it failed, or passes; the check stops at
  the first that fails.
\<close>

fun run_steps :: "(string \<times> ('x \<Rightarrow> (string + 'a) \<times> 'x)) list \<Rightarrow> 'x \<Rightarrow> (CheckStep list \<times> bool) \<times> 'x" where
  "run_steps [] x = (([], True), x)"
| "run_steps ((name, f) # rest) x =
     (case f x of
        (Inl reason, x') \<Rightarrow> (([refused name reason], False), x')
      | (Inr _, x') \<Rightarrow> (case run_steps rest x' of ((steps, ok), x2) \<Rightarrow> ((passed name # steps, ok), x2)))"

definition check_upload :: "'x Client \<Rightarrow> string \<Rightarrow> string \<Rightarrow> 'x \<Rightarrow> (string + unit) \<times> 'x" where
  "check_upload c k payload x = (case PutObject (mc c) (Bucket (settings_of c)) k payload ''text/plain'' x of
     (Inl e, x') \<Rightarrow> (Inl (describe e), x') | (Inr _, x') \<Rightarrow> (Inr (), x'))"

definition check_list :: "'x Client \<Rightarrow> string \<Rightarrow> 'x \<Rightarrow> (string + unit) \<times> 'x" where
  "check_list c k x = (case ListObjects (mc c) (Bucket (settings_of c)) k False x of (items, x') \<Rightarrow>
     (case filter (\<lambda>i. case i of Inl _ \<Rightarrow> True | Inr _ \<Rightarrow> False) items of
        Inl e # _ \<Rightarrow> (Inl (describe e), x')
      | _ \<Rightarrow> if list_ex (\<lambda>i. case i of Inl _ \<Rightarrow> False | Inr obj \<Rightarrow> Object_Key obj = k) items
             then (Inr (), x') else (Inl ''the uploaded object was not listed'', x')))"

definition check_download :: "'x Client \<Rightarrow> string \<Rightarrow> string \<Rightarrow> 'x \<Rightarrow> (string + unit) \<times> 'x" where
  "check_download c k payload x = (case GetObject (mc c) (Bucket (settings_of c)) k x of
     (Inl e, x') \<Rightarrow> (Inl (describe e), x')
   | (Inr got, x') \<Rightarrow> if got = payload then (Inr (), x') else (Inl ''downloaded content differs from the upload'', x'))"

definition check_cleanup :: "'x Client \<Rightarrow> string \<Rightarrow> 'x \<Rightarrow> (string + unit) \<times> 'x" where
  "check_cleanup c k x = (case RemoveObject (mc c) (Bucket (settings_of c)) k x of
     (Inl e, x') \<Rightarrow> (Inl (describe e), x') | (Inr _, x') \<Rightarrow> (Inr (), x'))"

definition protection_step :: "err + string \<Rightarrow> CheckStep" where
  "protection_step r = (case r of
     Inl (EMsg reason) \<Rightarrow> refused ''protection'' reason
   | Inl _ \<Rightarrow> refused ''protection'' ''''
   | Inr state \<Rightarrow>
       if state = VersioningEnabled then
         (passed ''protection'')\<lparr>step_Detail := ''the bucket keeps versions of deleted objects''\<rparr>
       else if state = VersioningDisabled then
         refused ''protection'' ''versioning is off for this bucket; a deleted backup cannot be recovered''
       else (passed ''protection'')\<lparr>step_Detail :=
         ''this provider does not report versioning; protection is the acknowledged setting''\<rparr>)"

definition Check_store :: "('x \<Rightarrow> gotime \<times> 'x) \<Rightarrow> 'x Client \<Rightarrow> 'x \<Rightarrow> CheckStep list \<times> 'x" where
  "Check_store Now c x0 =
     (case Now x0 of (at, x1) \<Rightarrow>
      case Now x1 of (at', x2) \<Rightarrow>
      let k = client_key c [''checks'', ''pgfy-check-'' @ decimal at @ ''.txt''];
          payload = ''pgfy storage check '' @ format_rfc3339 at' in
      case run_steps [(''upload'', check_upload c k payload), (''list'', check_list c k),
                      (''download'', check_download c k payload), (''cleanup'', check_cleanup c k)] x2 of
        ((steps, ok), x3) \<Rightarrow>
          if \<not> ok then (steps, x3)
          else (case Protection c x3 of (r, x4) \<Rightarrow> (steps @ [protection_step r], x4)))"

section \<open>Interface: what the worker uses\<close>

record 'x objectStore =
  os_ListDatabases :: "('x, string list) io"
  os_ListBackups :: "string \<Rightarrow> ('x, Entry list) io"
  os_Manifest :: "string \<Rightarrow> ('x, Manifest) io"
  os_Remove :: "string \<Rightarrow> ('x, unit) io"
  os_Protection :: "('x, string) io"

definition client_store :: "(string \<Rightarrow> Manifest option) \<Rightarrow> 'x Client \<Rightarrow> 'x objectStore" where
  "client_store decode c =
     \<lparr>os_ListDatabases = ListDatabases c, os_ListBackups = ListBackups c,
      os_Manifest = get_Manifest decode c, os_Remove = Remove c, os_Protection = Protection c\<rparr>"

definition manifest_place :: "Entry \<Rightarrow> bool" where
  "manifest_place e \<longleftrightarrow> Entry_ManifestKey e = Entry_Directory e @ ''/'' @ ManifestFile \<and>
     Entry_ArchiveKey e = Entry_Directory e @ ''/'' @ ArchiveFile"

text \<open>
  What the worker relies on: a manifest is returned only if it names the key it was read from, the
  archive beside it, and a database and a time that agree with the folder; a listing gives each folder
  once, newest first, with the two keys of its folder, and names database folders of the expected shape.
\<close>

locale backup_store =
  fixes cl :: "'x objectStore"
  assumes manifest_key: "os_Manifest cl k x = (Inr m, x') \<Longrightarrow> Manifest_ManifestKey m = k"
    and manifest_checked:
      "os_Manifest cl k x = (Inr m, x') \<Longrightarrow>
         \<exists>e. manifest_place e \<and> Entry_ManifestKey e = k \<and> CheckManifest m e = None"
    and listing_order: "os_ListBackups cl db x = (Inr es, x') \<Longrightarrow> sorted_wrt newest_first_order es"
    and listing_once: "os_ListBackups cl db x = (Inr es, x') \<Longrightarrow> distinct (map Entry_Directory es)"
    and listing_place: "os_ListBackups cl db x = (Inr es, x') \<Longrightarrow> e \<in> set es \<Longrightarrow> manifest_place e"
    and databases_valid:
      "os_ListDatabases cl x = (Inr names, x') \<Longrightarrow> name \<in> set names \<Longrightarrow> ValidDatabaseSegment name"
begin

lemma listing_distinct:
  assumes "os_ListBackups cl db x = (Inr es, x')"
  shows "distinct (map Entry_ManifestKey es)"
  using listing_once [OF assms] listing_place [OF assms]
  by (auto simp: distinct_map inj_on_def manifest_place_def)

text \<open>The archive a manifest leads to is the one beside it.\<close>

lemma manifest_archive:
  assumes "os_Manifest cl (dir @ ''/'' @ ManifestFile) x = (Inr m, x')"
  shows "Manifest_ArchiveKey m = dir @ ''/'' @ ArchiveFile"
proof -
  obtain e where "manifest_place e" "Entry_ManifestKey e = dir @ ''/'' @ ManifestFile" "CheckManifest m e = None"
    using manifest_checked [OF assms] by blast
  then show ?thesis
    by (auto simp: manifest_place_def CheckManifest_def split: if_splits)
qed

end

lemma EntryFor_place:
  assumes "EntryFor prefix k = Inr e"
  shows "manifest_place e" "Entry_ManifestKey e = k"
proof -
  let ?root = "key prefix [''backups''] @ ''/''"
  obtain db dir fl at where parts: "split_at (CHR ''/'') (trim_prefix k ?root) = [db, dir, fl]"
    and ok: "has_prefix k ?root" "fl = ManifestFile"
    and e: "e = entry_at (?root @ db @ ''/'' @ dir) at\<lparr>Entry_ManifestKey := k\<rparr>"
    using assms
    by (auto simp: EntryFor_def Let_def entry_at_def split: list.splits if_splits prod.splits)
  have "trim_prefix k ?root = db @ ''/'' @ dir @ ''/'' @ fl"
    using join_split [of "CHR ''/''" "trim_prefix k ?root"] parts by simp
  then have "k = ?root @ db @ ''/'' @ dir @ ''/'' @ ManifestFile"
    using ok by (metis has_prefix_def trim_prefix_def append_take_drop_id)
  then show "manifest_place e" "Entry_ManifestKey e = k"
    by (simp_all add: e manifest_place_def entry_at_def)
qed

lemma entry_of_place: "manifest_place (entry_of root d)"
  by (simp add: manifest_place_def entry_of_def Let_def split: prod.split)

interpretation client: backup_store "client_store decode c" for decode and c :: "'x Client"
proof unfold_locales
  fix k x m x'
  assume "os_Manifest (client_store decode c) k x = (Inr m, x')"
  then have "get_Manifest decode c k x = (Inr m, x')" by (simp add: client_store_def)
  then obtain e where e: "EntryFor (Prefix (settings_of c)) k = Inr e" "CheckManifest m e = None"
    "Manifest_ManifestKey m = k"
    unfolding get_Manifest_def by (auto simp: io_simps read_as_manifest_def Let_def split: if_splits option.splits)
  then show "Manifest_ManifestKey m = k"
    "\<exists>e. manifest_place e \<and> Entry_ManifestKey e = k \<and> CheckManifest m e = None"
    using EntryFor_place [OF e(1)] by blast+
next
  fix db x es x'
  assume "os_ListBackups (client_store decode c) db x = (Inr es, x')"
  then obtain root objects where es: "es = EntriesFrom root objects"
    by (auto simp: client_store_def ListBackups_def Let_def io_simps)
  then show "sorted_wrt newest_first_order es" "distinct (map Entry_Directory es)"
    by (simp_all add: EntriesFrom_sorted EntriesFrom_distinct)
  fix e assume "e \<in> set es"
  then show "manifest_place e" using es by (auto simp: EntriesFrom_set entry_of_place)
next
  fix x names x' name
  assume "os_ListDatabases (client_store decode c) x = (Inr names, x')" "name \<in> set names"
  then show "ValidDatabaseSegment name"
    by (auto simp: client_store_def ListDatabases_def Let_def io_simps)
qed

text \<open>
  The key a stored manifest gives for itself is never compared with its location: it is overwritten by the
  key it was read from before the check, so manifests that differ only in that field are read alike.
\<close>

lemma manifest_key_not_checked:
  "get_Manifest (\<lambda>b. map_option (Manifest_ManifestKey_update (\<lambda>_. k')) (decode b)) c k = get_Manifest decode c k"
proof -
  have "read_as_manifest (\<lambda>b. map_option (Manifest_ManifestKey_update (\<lambda>_. k')) (decode b)) = read_as_manifest decode"
    by (intro ext) (simp add: read_as_manifest_def Let_def split: option.split)
  note eq = this
  show ?thesis unfolding get_Manifest_def eq by (rule refl)
qed

end
