(* ===== verification/Retention.thy ===== *)
theory Retention
  imports Storage_Client
begin

text \<open>
  Reconciliation and retention (\<^verbatim>\<open>internal/jobs/retention.go\<close>): the cache of the bucket follows
  complete listings, and what the policy no longer keeps is deleted. The log of the world records
  every manifest read and every removal, so that the order of a deletion and the grounds for it are
  properties of the log. Log lines (\<^verbatim>\<open>slog\<close>) are left out.
\<close>

section \<open>The worker\<close>

text \<open>
  What a worker is made with: its installation, its clock, the text of an error (\<^verbatim>\<open>e.Error()\<close>), the
  vault's decryption, the decoding of stored settings, and \<^verbatim>\<open>storage.New\<close>, which validates the
  settings' URL and sets up the provider's library.
\<close>

record 'x Worker =
  InstallationID :: string
  Now :: "'x \<Rightarrow> gotime \<times> 'x"
  Error_text :: "err \<Rightarrow> string"
  Vault_Open :: "string \<Rightarrow> string \<Rightarrow> string option"
  Unmarshal_settings :: "string \<Rightarrow> err + Settings"
  New_store :: "Settings \<Rightarrow> err + 'x objectStore"

definition now :: "'x Worker \<Rightarrow> ('x, gotime) act" where
  "now w = observe (Now w)"

definition Policy :: "('x, BackupPolicy) act" where
  "Policy = bind_tx (attempt (on_db get_BackupPolicy)) (\<lambda>r. case r of
     Inl _ \<Rightarrow> ret \<lparr>bpo_target_interval_hours = 24, bpo_retention_daily = 14, bpo_retention_weekly = 8,
       bpo_preferred_hour = -1, bpo_updated_at = 0\<rparr>
   | Inr p \<Rightarrow> ret p)"

definition StorageSetting :: string where "StorageSetting = ''storage''"

definition ErrStorageNotConfigured :: err where
  "ErrStorageNotConfigured = EMsg ''backup storage is not configured''"

definition StorageSettings :: "'x Worker \<Rightarrow> ('x, Settings) act" where
  "StorageSettings w =
     bind_tx (on_db (Setting StorageSetting)) (\<lambda>sealed.
     if sealed = '''' then throw ErrStorageNotConfigured
     else case Vault_Open w (''setting:'' @ StorageSetting) sealed of
       None \<Rightarrow> throw (EMsg ''stored storage settings cannot be decrypted with this installation key'')
     | Some opened \<Rightarrow> (case Unmarshal_settings w opened of Inl e \<Rightarrow> throw e | Inr s \<Rightarrow> ret s))"

section \<open>Choosing what expires\<close>

record retention =
  keep :: "string list"
  days :: "string list"
  weeks :: "string list"

definition day_of :: "BucketBackup \<Rightarrow> string" where
  "day_of b = format_date (from_unix (BB_TakenAt b))"

definition week_of :: "BucketBackup \<Rightarrow> string" where
  "week_of b = (case iso_week (from_unix (BB_TakenAt b)) of (year, week) \<Rightarrow> decimal year @ ''-'' @ padded 2 week)"

definition is_recent :: "gotime \<Rightarrow> BucketBackup \<Rightarrow> bool" where
  "is_recent at b \<longleftrightarrow> from_unix (BB_TakenAt b) > at - 24 * hour"

definition weigh :: "BackupPolicy \<Rightarrow> gotime \<Rightarrow> BucketBackup \<Rightarrow> retention \<Rightarrow> retention" where
  "weigh policy at b s =
     (let s = (if is_recent at b then s\<lparr>keep := BB_ManifestKey b # keep s\<rparr> else s) in
      if int (length (days s)) < bpo_retention_daily policy \<and> day_of b \<notin> set (days s) then
        s\<lparr>days := day_of b # days s, keep := BB_ManifestKey b # keep s\<rparr>
      else if day_of b \<in> set (days s) then s
      else if int (length (weeks s)) < bpo_retention_weekly policy \<and> week_of b \<notin> set (weeks s) then
        s\<lparr>weeks := week_of b # weeks s, keep := BB_ManifestKey b # keep s\<rparr>
      else s)"

definition selectExpired :: "BucketBackup list \<Rightarrow> BackupPolicy \<Rightarrow> gotime \<Rightarrow> BucketBackup list" where
  "selectExpired bs policy at =
     (let complete = filter (\<lambda>b. BB_State b = StateComplete) bs in
      case complete of
        [] \<Rightarrow> []
      | newest # _ \<Rightarrow>
          let s = fold (weigh policy at) complete \<lparr>keep = [BB_ManifestKey newest], days = [], weeks = []\<rparr>
          in filter (\<lambda>b. BB_ManifestKey b \<notin> set (keep s)) complete)"

text \<open>The first folder content that forbids retention decides; the empty text lets it go on.\<close>

fun blockedByForeignContent :: "BucketBackup list \<Rightarrow> string \<Rightarrow> string" where
  "blockedByForeignContent [] installationID = ''''"
| "blockedByForeignContent (b # bs) installationID =
     (if BB_State b = StateDamaged then ''it contains a backup that cannot be read''
      else if BB_State b = StateComplete \<and> BB_InstallationID b \<noteq> installationID then
        ''it contains backups from another installation''
      else blockedByForeignContent bs installationID)"

section \<open>Deleting\<close>

definition read_manifest :: "'x objectStore \<Rightarrow> string \<Rightarrow> ('x, Manifest) act" where
  "read_manifest client k = call_out (\<lambda>r d. [ReadManifest k r]) (os_Manifest client k)"

definition remove_object :: "'x objectStore \<Rightarrow> string \<Rightarrow> ('x, unit) act" where
  "remove_object client k = call_out (\<lambda>r d. [Removed k d]) (os_Remove client k)"

definition finishDelete :: "'x objectStore \<Rightarrow> string \<Rightarrow> BucketBackup \<Rightarrow> ('x, unit) act" where
  "finishDelete client target b =
     then_tx (remove_object client (BB_ArchiveKey b))
     (then_tx (on_db (ForgetBucketBackup target (BB_ManifestKey b)))
     (on_db (DeleteLocalBackupRow target (BB_ManifestKey b))))"

text \<open>The folder the manifest key stands for, as the entry the manifest is checked against.\<close>

definition folder_of :: "BucketBackup \<Rightarrow> string" where
  "folder_of b = trim_suffix (BB_ManifestKey b) (''/'' @ ManifestFile)"

definition entry_of_backup :: "BucketBackup \<Rightarrow> Entry" where
  "entry_of_backup b = \<lparr>Entry_Directory = folder_of b, Entry_ManifestKey = BB_ManifestKey b,
     Entry_ArchiveKey = BB_ArchiveKey b, Entry_TakenAt = zero_time, Entry_State = '''', Entry_SizeBytes = 0\<rparr>"

definition still_ours :: "string \<Rightarrow> BucketBackup \<Rightarrow> Manifest \<Rightarrow> bool" where
  "still_ours installationID b m \<longleftrightarrow> CheckManifest m (entry_of_backup b) = None \<and>
     Manifest_InstallationID m = installationID \<and> Manifest_ProjectID m = BB_ProjectID b"

definition deleteBackup :: "'x Worker \<Rightarrow> 'x objectStore \<Rightarrow> string \<Rightarrow> BucketBackup \<Rightarrow> ('x, unit) act" where
  "deleteBackup w client target b =
     bind_tx (read_manifest client (BB_ManifestKey b)) (\<lambda>m.
     if \<not> still_ours (InstallationID w) b m then
       then_tx (on_db (ForgetBucketBackup target (BB_ManifestKey b)))
       (throw (EMsg (''backup '' @ folder_of b @ '' changed since it was recorded; it will be read again'')))
     else
       bind_tx (now w) (\<lambda>at.
       then_tx (on_db (MarkBackupDeleting target (BB_ManifestKey b) at))
       (then_tx (remove_object client (BB_ManifestKey b))
       (then_tx (on_db (MarkBackupArchiveOnly target (BB_ManifestKey b)))
       (finishDelete client target b)))))"

text \<open>A key too short to hold the manifest's name makes the slice expression panic.\<close>

definition cleanAbandonedUpload :: "'x objectStore \<Rightarrow> string \<Rightarrow> gotime \<Rightarrow> BucketBackup \<Rightarrow> ('x, unit) act" where
  "cleanAbandonedUpload client target cutoff b =
     (if BB_State b \<noteq> StateArchiveOnly \<or> BB_DeleteStartedAt b > 0 \<or> from_unix (BB_TakenAt b) > cutoff then ret ()
      else if length (BB_ManifestKey b) < length (''/'' @ ManifestFile) then
        throw (EMsg ''slice bounds out of range'')
      else let directory = take (length (BB_ManifestKey b) - length (''/'' @ ManifestFile)) (BB_ManifestKey b) in
        bind_tx (on_db (AbandonedUploadKey target directory cutoff)) (\<lambda>ours.
        if \<not> ours then ret ()
        else then_tx (remove_object client (BB_ArchiveKey b))
          (on_db (ForgetBucketBackup target (BB_ManifestKey b)))))"

definition cleanAbandonedUploads ::
  "'x Worker \<Rightarrow> 'x objectStore \<Rightarrow> string \<Rightarrow> BucketBackup list \<Rightarrow> ('x, unit) act" where
  "cleanAbandonedUploads w client target bs =
     bind_tx (now w) (\<lambda>at. for_each (cleanAbandonedUpload client target (at - 24 * hour)) bs)"

section \<open>Retention of one database and of the store\<close>

definition half_deleted :: "BucketBackup \<Rightarrow> bool" where
  "half_deleted b \<longleftrightarrow> BB_State b = StateArchiveOnly \<and> BB_DeleteStartedAt b > 0"

definition retainDatabase ::
  "'x Worker \<Rightarrow> 'x objectStore \<Rightarrow> string \<Rightarrow> string \<Rightarrow> BackupPolicy \<Rightarrow> ('x, unit) act" where
  "retainDatabase w client target dbName policy =
     bind_tx (on_db (PrefixBackups target dbName)) (\<lambda>bs.
     then_tx (for_each (finishDelete client target) (filter half_deleted bs))
     (if blockedByForeignContent bs (InstallationID w) \<noteq> '''' then ret ()
      else bind_tx (now w) (\<lambda>at.
        then_tx (for_each (deleteBackup w client target) (selectExpired bs policy at))
        (cleanAbandonedUploads w client target bs))))"

definition retain :: "'x Worker \<Rightarrow> 'x objectStore \<Rightarrow> Settings \<Rightarrow> string list \<Rightarrow> ('x, unit) act" where
  "retain w client st databases =
     bind_tx (attempt (call_out unlogged (os_Protection client))) (\<lambda>r. case r of
       Inl _ \<Rightarrow> ret ()
     | Inr protection \<Rightarrow>
         if protection = VersioningDisabled then ret ()
         else if protection = VersioningUnsupported \<and> BucketProtection st \<noteq> ProtectionAcknowledged then ret ()
         else bind_tx Policy (\<lambda>policy.
           for_each (\<lambda>dbName. then_tx (attempt (retainDatabase w client (Target st) dbName policy)) (ret ())) databases))"

definition pruneHistory :: "'x Worker \<Rightarrow> ('x, unit) act" where
  "pruneHistory w = bind_tx (now w) (\<lambda>at. then_tx (attempt (on_db (PruneJobs (at - 90 * 24 * hour)))) (ret ()))"

section \<open>Reconciliation\<close>

definition backup_of_entry :: "string \<Rightarrow> Entry \<Rightarrow> BucketBackup" where
  "backup_of_entry dbName entry = \<lparr>BB_ManifestKey = Entry_ManifestKey entry, BB_ArchiveKey = Entry_ArchiveKey entry,
     BB_DBName = dbName, BB_TakenAt = unix (Entry_TakenAt entry), BB_State = Entry_State entry,
     BB_InstallationID = '''', BB_ProjectID = '''', BB_ProjectName = '''', BB_PostgresVersion = '''',
     BB_TableCount = 0, BB_SizeBytes = Entry_SizeBytes entry, BB_DeleteStartedAt = 0\<rparr>"

definition owned_as :: "BucketBackup \<Rightarrow> BucketBackup \<Rightarrow> BucketBackup" where
  "owned_as previous b = b\<lparr>BB_InstallationID := BB_InstallationID previous, BB_ProjectID := BB_ProjectID previous,
     BB_ProjectName := BB_ProjectName previous, BB_PostgresVersion := BB_PostgresVersion previous,
     BB_TableCount := BB_TableCount previous\<rparr>"

definition read_owner :: "'x objectStore \<Rightarrow> Entry \<Rightarrow> BucketBackup \<Rightarrow> ('x, BucketBackup) act" where
  "read_owner client entry b =
     bind_tx (attempt (read_manifest client (Entry_ManifestKey entry))) (\<lambda>r. ret (case r of
       Inl _ \<Rightarrow> b\<lparr>BB_State := StateDamaged\<rparr>
     | Inr m \<Rightarrow>
         if CheckManifest m entry \<noteq> None then b\<lparr>BB_State := StateDamaged\<rparr>
         else b\<lparr>BB_InstallationID := Manifest_InstallationID m, BB_ProjectID := Manifest_ProjectID m,
           BB_ProjectName := Manifest_ProjectName m, BB_PostgresVersion := Manifest_PostgresVersion m,
           BB_TableCount := int (length (Manifest_Tables m))\<rparr>))"

definition record_entry ::
  "'x objectStore \<Rightarrow> string \<Rightarrow> BucketBackup list \<Rightarrow> Entry \<Rightarrow> ('x, BucketBackup) act" where
  "record_entry client dbName recorded entry =
     (let b = backup_of_entry dbName entry in
      if Entry_State entry = StateComplete \<or> Entry_State entry = StateManifestOnly then
        (case find (\<lambda>p. BB_ManifestKey p = Entry_ManifestKey entry) (rev recorded) of
           Some previous \<Rightarrow>
             if BB_InstallationID previous \<noteq> '''' then ret (owned_as previous b) else read_owner client entry b
         | None \<Rightarrow> read_owner client entry b)
      else ret b)"

definition count_state :: "BucketBackup \<Rightarrow> PrefixState \<Rightarrow> PrefixState" where
  "count_state b s =
     (if BB_State b = StateComplete then s\<lparr>PS_Complete := PS_Complete s + 1\<rparr>
      else if BB_State b = StateManifestOnly then s\<lparr>PS_ManifestOnly := PS_ManifestOnly s + 1\<rparr>
      else if BB_State b = StateArchiveOnly then s\<lparr>PS_ArchiveOnly := PS_ArchiveOnly s + 1\<rparr>
      else s\<lparr>PS_Damaged := PS_Damaged s + 1\<rparr>)"

definition owners :: "BucketBackup list \<Rightarrow> string list" where
  "owners bs = remdups (map (\<lambda>b. BB_InstallationID b @ ''|'' @ BB_ProjectID b)
     (filter (\<lambda>b. BB_State b = StateComplete) bs))"

definition prefix_state :: "string \<Rightarrow> BucketBackup list \<Rightarrow> PrefixState" where
  "prefix_state dbName bs = (fold count_state bs (empty_prefix dbName))\<lparr>PS_Mixed := length (owners bs) > 1\<rparr>"

primrec map_tx :: "('y \<Rightarrow> ('d, 'b) tx) \<Rightarrow> 'y list \<Rightarrow> ('d, 'b list) tx" where
  "map_tx f [] = ret []"
| "map_tx f (y # ys) = bind_tx (f y) (\<lambda>b. bind_tx (map_tx f ys) (\<lambda>bs. ret (b # bs)))"

definition reconcilePrefix :: "'x Worker \<Rightarrow> 'x objectStore \<Rightarrow> string \<Rightarrow> string \<Rightarrow> ('x, unit) act" where
  "reconcilePrefix w client target dbName =
     bind_tx (call_out unlogged (os_ListBackups client dbName)) (\<lambda>entries.
     bind_tx (on_db (PrefixBackups target dbName)) (\<lambda>recorded.
     bind_tx (map_tx (record_entry client dbName recorded) entries) (\<lambda>bs.
     bind_tx (now w) (\<lambda>at.
     on_db (ReplacePrefix target (prefix_state dbName bs) bs at)))))"

text \<open>The failure is noted with the target, best effort, and returned.\<close>

definition reconcile_failed :: "'x Worker \<Rightarrow> string \<Rightarrow> err \<Rightarrow> ('x, unit) act" where
  "reconcile_failed w target e =
     bind_tx (now w) (\<lambda>at.
     then_tx (attempt (on_db (SetTargetReconciled target at (Error_text w e)))) (throw e))"

definition reconciled_fully :: "'x Worker \<Rightarrow> 'x objectStore \<Rightarrow> Settings \<Rightarrow> string list \<Rightarrow> ('x, unit) act" where
  "reconciled_fully w client st databases =
     then_tx (attempt (on_db (ForgetLostLocalBackups (Target st))))
     (bind_tx (attempt (on_db Maintenance)) (\<lambda>r. case r of
        Inl _ \<Rightarrow> ret ()
      | Inr on \<Rightarrow> if on then ret ()
          else then_tx (retain w client st databases) (pruneHistory w)))"

definition reconcile_databases :: "'x Worker \<Rightarrow> 'x objectStore \<Rightarrow> Settings \<Rightarrow> string list \<Rightarrow> ('x, unit) act" where
  "reconcile_databases w client st databases =
     bind_tx (now w) (\<lambda>at.
     then_tx (on_db (TombstonePrefixes (Target st) (\<lambda>name. name \<in> set databases) at))
     (bind_tx (for_all_errors (reconcilePrefix w client (Target st)) databases None) (\<lambda>failure.
      case failure of
        Some e \<Rightarrow> reconcile_failed w (Target st) e
      | None \<Rightarrow>
          bind_tx (now w) (\<lambda>at.
          then_tx (on_db (SetTargetReconciled (Target st) at ''''))
          (reconciled_fully w client st databases)))))"

definition reconcile :: "'x Worker \<Rightarrow> 'x objectStore \<Rightarrow> Settings \<Rightarrow> ('x, unit) act" where
  "reconcile w client st =
     then_tx (on_db (ActivateStorageTarget
       \<lparr>StorageTarget_Target = Target st, StorageTarget_Endpoint = Endpoint st, StorageTarget_Bucket = Bucket st,
        StorageTarget_Prefix = Prefix st, StorageTarget_Active = False, StorageTarget_ReconciledAt = 0,
        StorageTarget_LastError = ''''\<rparr>))
     (bind_tx (attempt (call_out unlogged (os_ListDatabases client))) (\<lambda>r. case r of
        Inl e \<Rightarrow> reconcile_failed w (Target st) e
      | Inr databases \<Rightarrow> reconcile_databases w client st databases))"

definition Reconcile :: "'x Worker \<Rightarrow> ('x, unit) act" where
  "Reconcile w =
     bind_tx (attempt (StorageSettings w)) (\<lambda>r. case r of
       Inl _ \<Rightarrow> ret ()
     | Inr st \<Rightarrow> (case New_store w st of
         Inl _ \<Rightarrow> ret ()
       | Inr client \<Rightarrow> then_tx (attempt (reconcile w client st)) (ret ())))"

definition is_reconciled :: "string \<Rightarrow> ('x, bool) act" where
  "is_reconciled target =
     bind_tx (attempt (on_db (get_StorageTarget target))) (\<lambda>r. ret (case r of
       Inl _ \<Rightarrow> False | Inr state \<Rightarrow> StorageTarget_ReconciledAt state > 0))"

definition reconcileIfUnknown :: "'x Worker \<Rightarrow> ('x, bool) act" where
  "reconcileIfUnknown w =
     bind_tx (attempt (StorageSettings w)) (\<lambda>r. case r of
       Inl _ \<Rightarrow> ret False
     | Inr st \<Rightarrow>
         bind_tx (attempt (on_db (get_StorageTarget (Target st)))) (\<lambda>r. case r of
           Inl _ \<Rightarrow> ret False
         | Inr state \<Rightarrow>
             if StorageTarget_ReconciledAt state > 0 then ret False
             else then_tx (Reconcile w) (is_reconciled (Target st))))"

section \<open>What retention keeps\<close>

text \<open>The first \<open>n\<close> distinct values of \<open>f\<close> along a list.\<close>

definition quota :: "nat \<Rightarrow> ('b \<Rightarrow> 'v) \<Rightarrow> 'b list \<Rightarrow> 'v list" where
  "quota n f xs = take n (rev (remdups (rev (map f xs))))"

definition first_of :: "('b \<Rightarrow> 'v) \<Rightarrow> 'b \<Rightarrow> 'b list \<Rightarrow> bool" where
  "first_of f b xs \<longleftrightarrow> find (\<lambda>c. f c = f b) xs = Some b"

lemma set_quota: "set (quota n f xs) \<subseteq> f ` set xs"
  unfolding quota_def by (rule subset_trans [OF set_take_subset]) simp

lemma quota_not_full: "length (quota n f xs) < n \<Longrightarrow> set (quota n f xs) = f ` set xs"
  by (simp add: quota_def)

lemma quota_length: "length (quota n f xs) \<le> n"
  by (simp add: quota_def)

lemma quota_snoc:
  "quota n f (xs @ [b]) =
     (if length (quota n f xs) < n \<and> f b \<notin> set (quota n f xs) then quota n f xs @ [f b] else quota n f xs)"
proof (cases "length (quota n f xs) < n")
  case True
  then have "set (quota n f xs) = f ` set xs" by (rule quota_not_full)
  moreover have "length (remdups (rev (map f xs))) < n" using True by (simp add: quota_def)
  ultimately show ?thesis using True by (auto simp: quota_def)
next
  case False
  then show ?thesis by (simp add: quota_def)
qed

lemma member_quota_snoc:
  "x \<in> set xs \<Longrightarrow> f x \<in> set (quota n f (xs @ [b])) \<longleftrightarrow> f x \<in> set (quota n f xs)"
  using quota_not_full [of n f xs] by (auto simp: quota_snoc)

lemma first_of_snoc_old: "x \<in> set xs \<Longrightarrow> first_of f x (xs @ [b]) = first_of f x xs"
  by (auto simp: first_of_def find_append find_None_iff split: option.split)

lemma first_of_snoc_new: "b \<notin> set xs \<Longrightarrow> first_of f b (xs @ [b]) \<longleftrightarrow> f b \<notin> f ` set xs"
proof (cases "find (\<lambda>c. f c = f b) xs")
  case None
  then have "f b \<notin> f ` set xs" by (auto simp: find_None_iff)
  then show ?thesis using None by (simp add: first_of_def find_append)
next
  case (Some c)
  assume b: "b \<notin> set xs"
  have c: "c \<in> set xs" "f c = f b" using find_Some_iff_mem [OF Some] by simp_all
  then have "c \<noteq> b" using b by blast
  then show ?thesis using Some c by (auto simp: first_of_def find_append intro: rev_image_eqI)
qed

text \<open>
  The days kept, the backups of other days, and the weeks kept among those. A backup is chosen when it
  is the newest of a kept day, or the newest, among the other days, of a kept week.
\<close>

definition kept_days :: "BackupPolicy \<Rightarrow> BucketBackup list \<Rightarrow> string list" where
  "kept_days policy = quota (nat (bpo_retention_daily policy)) day_of"

definition older :: "BackupPolicy \<Rightarrow> BucketBackup list \<Rightarrow> BucketBackup list" where
  "older policy cs = filter (\<lambda>b. day_of b \<notin> set (kept_days policy cs)) cs"

definition kept_weeks :: "BackupPolicy \<Rightarrow> BucketBackup list \<Rightarrow> string list" where
  "kept_weeks policy cs = quota (nat (bpo_retention_weekly policy)) week_of (older policy cs)"

definition chosen :: "BackupPolicy \<Rightarrow> BucketBackup list \<Rightarrow> BucketBackup \<Rightarrow> bool" where
  "chosen policy cs b =
     (if day_of b \<in> set (kept_days policy cs) then first_of day_of b cs
      else week_of b \<in> set (kept_weeks policy cs) \<and> first_of week_of b (older policy cs))"

lemma older_snoc:
  "older policy (cs @ [b]) =
     older policy cs @ (if day_of b \<in> set (kept_days policy (cs @ [b])) then [] else [b])"
proof -
  have "filter (\<lambda>x. day_of x \<notin> set (kept_days policy (cs @ [b]))) cs = older policy cs"
    unfolding older_def kept_days_def by (rule filter_cong) (simp_all add: member_quota_snoc)
  then show ?thesis by (simp add: older_def)
qed

lemma chosen_old: "x \<in> set cs \<Longrightarrow> chosen policy (cs @ [b]) x = chosen policy cs x"
proof -
  assume x: "x \<in> set cs"
  have day: "day_of x \<in> set (kept_days policy (cs @ [b])) \<longleftrightarrow> day_of x \<in> set (kept_days policy cs)"
    unfolding kept_days_def using x by (rule member_quota_snoc)
  have "x \<in> set (older policy cs)" if "day_of x \<notin> set (kept_days policy cs)"
    using x that by (simp add: older_def)
  then show ?thesis
    unfolding chosen_def day kept_weeks_def older_snoc
    by (simp add: x first_of_snoc_old member_quota_snoc)
qed

lemma chosen_new:
  assumes "b \<notin> set cs"
  shows "chosen policy (cs @ [b]) b \<longleftrightarrow>
    (if int (length (kept_days policy cs)) < bpo_retention_daily policy \<and> day_of b \<notin> set (kept_days policy cs) then True
     else if day_of b \<in> set (kept_days policy cs) then False
     else int (length (kept_weeks policy cs)) < bpo_retention_weekly policy \<and> week_of b \<notin> set (kept_weeks policy cs))"
    (is "_ = (if ?new then _ else _)")
proof -
  let ?D = "kept_days policy cs" and ?L = "older policy cs"
  have D: "kept_days policy (cs @ [b]) = (if ?new then ?D @ [day_of b] else ?D)"
    by (simp add: kept_days_def quota_snoc nat_less_iff [symmetric] zless_nat_eq_int_zless)
  consider "?new" | "\<not> ?new" "day_of b \<in> set ?D" | "\<not> ?new" "day_of b \<notin> set ?D" by blast
  then show ?thesis
  proof cases
    case 1
    then have "set ?D = day_of ` set cs"
      unfolding kept_days_def by (intro quota_not_full) (simp add: zless_nat_eq_int_zless)
    then show ?thesis using 1 D assms by (simp add: chosen_def first_of_snoc_new)
  next
    case 2
    then have "day_of b \<in> day_of ` set cs" using set_quota unfolding kept_days_def by fast
    then show ?thesis using 2 D assms by (auto simp: chosen_def first_of_snoc_new)
  next
    case 3
    have L: "older policy (cs @ [b]) = ?L @ [b]" and b: "b \<notin> set ?L"
      using 3 D assms by (simp_all add: older_snoc) (simp add: older_def)
    have W: "kept_weeks policy (cs @ [b]) =
        (if int (length (kept_weeks policy cs)) < bpo_retention_weekly policy \<and> week_of b \<notin> set (kept_weeks policy cs)
         then kept_weeks policy cs @ [week_of b] else kept_weeks policy cs)"
      unfolding kept_weeks_def L by (simp add: quota_snoc zless_nat_eq_int_zless)
    have "int (length (kept_weeks policy cs)) < bpo_retention_weekly policy \<Longrightarrow>
        set (kept_weeks policy cs) = week_of ` set ?L"
      unfolding kept_weeks_def by (intro quota_not_full) (simp add: zless_nat_eq_int_zless)
    moreover have "set (kept_weeks policy cs) \<subseteq> week_of ` set ?L" unfolding kept_weeks_def by (rule set_quota)
    ultimately show ?thesis
      using 3 D unfolding chosen_def W L by (auto simp: first_of_snoc_new [OF b])
  qed
qed

lemma weigh_fold:
  assumes "distinct cs"
  shows "let s = fold (weigh policy at) cs \<lparr>keep = [k], days = [], weeks = []\<rparr> in
    rev (days s) = kept_days policy cs \<and> rev (weeks s) = kept_weeks policy cs \<and>
    set (keep s) = insert k (BB_ManifestKey ` {b \<in> set cs. is_recent at b \<or> chosen policy cs b})"
  using assms
proof (induction cs rule: rev_induct)
  case Nil
  then show ?case by (simp add: kept_days_def kept_weeks_def older_def quota_def)
next
  case (snoc b cs)
  define s where "s = fold (weigh policy at) cs \<lparr>keep = [k], days = [], weeks = []\<rparr>"
  have b: "b \<notin> set cs" using snoc.prems by simp
  have s: "rev (days s) = kept_days policy cs" "rev (weeks s) = kept_weeks policy cs"
    "set (keep s) = insert k (BB_ManifestKey ` {b \<in> set cs. is_recent at b \<or> chosen policy cs b})"
    using snoc by (simp_all add: s_def Let_def)
  let ?D = "kept_days policy cs" and ?W = "kept_weeks policy cs"
  let ?new = "int (length ?D) < bpo_retention_daily policy \<and> day_of b \<notin> set ?D"
  let ?week = "int (length ?W) < bpo_retention_weekly policy \<and> week_of b \<notin> set ?W"
  have sizes: "length (days s) = length ?D" "set (days s) = set ?D" "length (weeks s) = length ?W" "set (weeks s) = set ?W"
    unfolding s(1,2) [symmetric] by simp_all
  have D: "kept_days policy (cs @ [b]) = (if ?new then ?D @ [day_of b] else ?D)"
    by (simp add: kept_days_def quota_snoc zless_nat_eq_int_zless)
  have W: "kept_weeks policy (cs @ [b]) = (if \<not> ?new \<and> day_of b \<notin> set ?D \<and> ?week then ?W @ [week_of b] else ?W)"
    unfolding kept_weeks_def older_snoc D by (auto simp: quota_snoc zless_nat_eq_int_zless)
  have new: "chosen policy (cs @ [b]) b \<longleftrightarrow> (if ?new then True else if day_of b \<in> set ?D then False else ?week)"
    by (rule chosen_new [OF b])
  have "{x \<in> set (cs @ [b]). is_recent at x \<or> chosen policy (cs @ [b]) x} =
      {x \<in> set cs. is_recent at x \<or> chosen policy cs x} \<union> (if is_recent at b \<or> chosen policy (cs @ [b]) b then {b} else {})"
    using chosen_old [of _ cs policy b] by auto
  then have kept: "insert k (BB_ManifestKey ` {x \<in> set (cs @ [b]). is_recent at x \<or> chosen policy (cs @ [b]) x}) =
      set (keep s) \<union> (if is_recent at b \<or> chosen policy (cs @ [b]) b then {BB_ManifestKey b} else {})"
    unfolding s(3) by auto
  have "rev (days (weigh policy at b s)) = kept_days policy (cs @ [b])"
    "rev (weeks (weigh policy at b s)) = kept_weeks policy (cs @ [b])"
    "set (keep (weigh policy at b s)) =
       set (keep s) \<union> (if is_recent at b \<or> chosen policy (cs @ [b]) b then {BB_ManifestKey b} else {})"
    unfolding D W new by (simp_all add: weigh_def Let_def sizes s(1,2) del: set_rev) auto
  with kept show ?case by (simp add: s_def Let_def del: set_append)
qed

definition kept :: "BackupPolicy \<Rightarrow> gotime \<Rightarrow> BucketBackup list \<Rightarrow> BucketBackup \<Rightarrow> bool" where
  "kept policy at cs b \<longleftrightarrow> b = hd cs \<or> is_recent at b \<or> chosen policy cs b"

text \<open>
  C11. Retention gives up exactly the complete backups that none of its rules keeps. Of the complete
  backups of a database, newest first, it keeps the newest, everything of the last 24 hours, the
  newest of each of the first \<^verbatim>\<open>RetentionDaily\<close> days that have one, and, among the backups of other
  days, the newest of each of the first \<^verbatim>\<open>RetentionWeekly\<close> ISO weeks that have one. Incomplete and
  damaged entries are never among what expires. The loop with its two maps computes this.
\<close>

theorem selectExpired_exact:
  assumes "distinct (map BB_ManifestKey bs)" and "cs = filter (\<lambda>b. BB_State b = StateComplete) bs"
  shows "selectExpired bs policy at = filter (\<lambda>b. \<not> kept policy at cs b) cs"
proof (cases cs)
  case Nil
  then show ?thesis using assms(2) by (simp add: selectExpired_def Let_def)
next
  case (Cons newest rest)
  let ?s = "fold (weigh policy at) cs \<lparr>keep = [BB_ManifestKey newest], days = [], weeks = []\<rparr>"
  have keys: "distinct (map BB_ManifestKey cs)" using assms by (auto simp: distinct_map intro: inj_on_subset)
  then have inj: "inj_on BB_ManifestKey (set cs)" and "distinct cs" by (simp_all add: distinct_map)
  then have keep: "set (keep ?s) = insert (BB_ManifestKey newest) (BB_ManifestKey ` {b \<in> set cs. is_recent at b \<or> chosen policy cs b})"
    using weigh_fold [of cs policy at "BB_ManifestKey newest"] by (simp add: Let_def)
  have "BB_ManifestKey b \<in> set (keep ?s) \<longleftrightarrow> kept policy at cs b" if "b \<in> set cs" for b
  proof -
    have "newest \<in> set cs" by (simp add: Cons)
    then have "BB_ManifestKey b = BB_ManifestKey newest \<longleftrightarrow> b = newest" using inj that by (simp add: inj_on_eq_iff)
    moreover have "BB_ManifestKey b \<in> BB_ManifestKey ` {b \<in> set cs. is_recent at b \<or> chosen policy cs b} \<longleftrightarrow>
        b \<in> {b \<in> set cs. is_recent at b \<or> chosen policy cs b}"
      by (rule inj_on_image_mem_iff [OF inj that]) auto
    ultimately show ?thesis unfolding keep kept_def insert_iff using that by (simp add: Cons)
  qed
  then show ?thesis using assms(2) Cons
    unfolding selectExpired_def Let_def assms(2) [symmetric] Cons list.case
    by (intro filter_cong) simp_all
qed

definition taken :: "string \<Rightarrow> int \<Rightarrow> BucketBackup" where
  "taken k at = (sample_backup k ''complete'')\<lparr>BB_TakenAt := at\<rparr>"

lemma taken_sel [simp]: "BB_ManifestKey (taken k at) = k" "BB_State (taken k at) = StateComplete" "BB_TakenAt (taken k at) = at"
  by (simp_all add: taken_def sample_backup_def StateComplete_def)

lemma taken_eq [simp]: "taken k at = taken k' at' \<longleftrightarrow> k = k' \<and> at = at'"
  by (metis taken_sel(1,3))

text \<open>Four backups of two days, a quota of one day and one week: the second of each goes.\<close>

lemma selectExpired_exact_witness:
  "map BB_ManifestKey (selectExpired [taken ''d'' 1000000, taken ''c'' 990000, taken ''b'' 800000, taken ''a'' 799999]
     (backup_policy empty_db\<lparr>bpo_retention_daily := 1, bpo_retention_weekly := 1\<rparr>) (from_unix 1300000)) = [''c'', ''a'']"
proof -
  let ?bs = "[taken ''d'' 1000000, taken ''c'' 990000, taken ''b'' 800000, taken ''a'' 799999]"
  define p where "p = backup_policy empty_db\<lparr>bpo_retention_daily := 1, bpo_retention_weekly := 1\<rparr>"
  have p: "bpo_retention_daily p = 1" "bpo_retention_weekly p = 1" by (simp_all add: p_def)
  have d: "day_of (taken ''d'' 1000000) = ''1970-01-12''" by code_simp
  have c: "day_of (taken ''c'' 990000) = ''1970-01-12''" by code_simp
  have b: "day_of (taken ''b'' 800000) = ''1970-01-10''" by code_simp
  have a: "day_of (taken ''a'' 799999) = ''1970-01-10''" by code_simp
  have wb: "week_of (taken ''b'' 800000) = ''1970-02''" by code_simp
  have wa: "week_of (taken ''a'' 799999) = ''1970-02''" by code_simp
  have recent: "\<not> is_recent (from_unix 1300000) (taken k at)" if "at \<le> 1000000" for k at
    using that by (simp add: is_recent_def from_unix_def)
  have "distinct (map BB_ManifestKey ?bs)" by simp
  from selectExpired_exact [OF this refl, of p "from_unix 1300000"]
  show ?thesis unfolding p_def [symmetric]
    by (simp add: kept_def chosen_def kept_days_def kept_weeks_def older_def quota_def first_of_def p a b c d wa wb recent)
qed

end
