(* ===== verification/Hba.thy ===== *)
theory Hba
  imports Storage_Client
begin

text \<open>
  The access rules of PostgreSQL (\<^verbatim>\<open>internal/hba/hba.go\<close>): the allowlist of a project is brought to
  canonical CIDR ranges, the rule file is rendered from all of them, validated by PostgreSQL itself and
  restored when it is refused. The addresses are those of \<^verbatim>\<open>net/netip\<close>, whose parser and printer are
  defined here as that package documents them.
\<close>

section \<open>Addresses\<close>

text \<open>An address is its bytes, four or sixteen numbers below 256, an IPv6 address with a zone.\<close>

datatype Addr = Addr4 "nat list" | Addr6 "nat list" string

definition octet :: "string \<Rightarrow> nat option" where
  "octet s = (if s \<noteq> [] \<and> list_all is_digit s \<and> (length s = 1 \<or> hd s \<noteq> CHR ''0'') \<and> number s < 256
     then Some (number s) else None)"

definition parse_v4 :: "string \<Rightarrow> nat list option" where
  "parse_v4 s = (case map octet (split_at (CHR ''.'') s) of
     [Some a, Some b, Some c, Some d] \<Rightarrow> Some [a, b, c, d]
   | _ \<Rightarrow> None)"

definition hex_value :: "char \<Rightarrow> nat option" where
  "hex_value c = (let n = (of_char c :: nat) in
     if 48 \<le> n \<and> n \<le> 57 then Some (n - 48)
     else if 97 \<le> n \<and> n \<le> 102 then Some (n - 87)
     else if 65 \<le> n \<and> n \<le> 70 then Some (n - 55)
     else None)"

definition is_hex :: "char \<Rightarrow> bool" where
  "is_hex c \<longleftrightarrow> hex_value c \<noteq> None"

definition hex_number :: "string \<Rightarrow> nat" where
  "hex_number s = foldl (\<lambda>n c. 16 * n + the (hex_value c)) 0 s"

text \<open>
  The loop over the groups of an IPv6 text: at most \<open>k\<close> more groups fit; the bytes so far, and the place
  of the double colon if one was seen.
\<close>

fun parse_groups :: "nat \<Rightarrow> string \<Rightarrow> nat list \<Rightarrow> nat option \<Rightarrow> (nat list \<times> nat option) option" where
  "parse_groups 0 s bs gap = (if s = [] then Some (bs, gap) else None)"
| "parse_groups (Suc k) s bs gap =
     (let h = takeWhile is_hex s; rest = drop (length h) s; v = hex_number h;
          bs' = bs @ [v div 256, v mod 256] in
      if h = [] \<or> length h > 4 then None
      else case rest of
        [] \<Rightarrow> Some (bs', gap)
      | c # s1 \<Rightarrow>
          if c = CHR ''.'' then
            (if gap = None \<and> length bs \<noteq> 12 \<or> length bs + 4 > 16 then None
             else map_option (\<lambda>q. (bs @ q, gap)) (parse_v4 s))
          else if c \<noteq> CHR '':'' then None
          else (case s1 of
            [] \<Rightarrow> None
          | d # s2 \<Rightarrow>
              if d = CHR '':'' then
                (if gap \<noteq> None then None
                 else if s2 = [] then Some (bs', Some (length bs'))
                 else parse_groups k s2 bs' (Some (length bs')))
              else parse_groups k s1 bs' gap))"

definition fill_gap :: "nat list \<times> nat option \<Rightarrow> nat list option" where
  "fill_gap p = (case p of (bs, gap) \<Rightarrow>
     if length bs < 16 then
       map_option (\<lambda>at. take at bs @ replicate (16 - length bs) 0 @ drop at bs) gap
     else if gap \<noteq> None then None else Some bs)"

definition parse_v6_bytes :: "string \<Rightarrow> nat list option" where
  "parse_v6_bytes s =
     (if has_prefix s ''::'' then
        (if drop 2 s = [] then Some (replicate 16 0)
         else Option.bind (parse_groups 8 (drop 2 s) [] (Some 0)) fill_gap)
      else Option.bind (parse_groups 8 s [] None) fill_gap)"

definition parse_v6 :: "string \<Rightarrow> Addr option" where
  "parse_v6 s =
     (let ip = takeWhile (\<lambda>c. c \<noteq> CHR ''%'') s; zone = drop (Suc (length ip)) s in
      if length ip < length s \<and> zone = [] then None
      else map_option (\<lambda>b. Addr6 b zone) (parse_v6_bytes ip))"

definition ParseAddr :: "string \<Rightarrow> Addr option" where
  "ParseAddr s = (case find (\<lambda>c. c = CHR ''.'' \<or> c = CHR '':'' \<or> c = CHR ''%'') s of
     None \<Rightarrow> None
   | Some c \<Rightarrow> if c = CHR ''.'' then map_option Addr4 (parse_v4 s)
       else if c = CHR '':'' then parse_v6 s else None)"

section \<open>Prefixes\<close>

text \<open>A range has no zone: \<^verbatim>\<open>PrefixFrom\<close> drops it.\<close>

record Prefix =
  prefix_addr :: Addr
  prefix_bits :: nat

fun BitLen :: "Addr \<Rightarrow> nat" where
  "BitLen (Addr4 _) = 32"
| "BitLen (Addr6 _ _) = 128"

fun without_zone :: "Addr \<Rightarrow> Addr" where
  "without_zone (Addr4 b) = Addr4 b"
| "without_zone (Addr6 b _) = Addr6 b []"

definition PrefixFrom :: "Addr \<Rightarrow> nat \<Rightarrow> Prefix" where
  "PrefixFrom a n = \<lparr>prefix_addr = without_zone a, prefix_bits = n\<rparr>"

definition has_zone :: "Addr \<Rightarrow> bool" where
  "has_zone a = (case a of Addr4 _ \<Rightarrow> False | Addr6 _ z \<Rightarrow> z \<noteq> [])"

definition parse_bits :: "nat \<Rightarrow> string \<Rightarrow> nat option" where
  "parse_bits limit s = (if s \<noteq> [] \<and> list_all is_digit s \<and> (length s > 1 \<longrightarrow> hd s \<noteq> CHR ''0'') \<and> number s \<le> limit
     then Some (number s) else None)"

definition ParsePrefix :: "string \<Rightarrow> Prefix option" where
  "ParsePrefix s = (case last_index (CHR ''/'') s of
     None \<Rightarrow> None
   | Some i \<Rightarrow> (case ParseAddr (take i s) of
       None \<Rightarrow> None
     | Some a \<Rightarrow> if has_zone a then None
         else map_option (PrefixFrom a) (parse_bits (BitLen a) (drop (Suc i) s))))"

text \<open>The bits of a byte beyond the first \<open>n\<close> are cleared.\<close>

definition mask_byte :: "nat \<Rightarrow> nat \<Rightarrow> nat" where
  "mask_byte n b = b div 2 ^ (8 - min 8 n) * 2 ^ (8 - min 8 n)"

fun mask_bytes :: "nat \<Rightarrow> nat list \<Rightarrow> nat list" where
  "mask_bytes n [] = []"
| "mask_bytes n (b # bs) = mask_byte n b # mask_bytes (n - 8) bs"

fun mask_addr :: "nat \<Rightarrow> Addr \<Rightarrow> Addr" where
  "mask_addr n (Addr4 b) = Addr4 (mask_bytes n b)"
| "mask_addr n (Addr6 b z) = Addr6 (mask_bytes n b) z"

definition Masked_prefix :: "Prefix \<Rightarrow> Prefix" where
  "Masked_prefix p = p\<lparr>prefix_addr := mask_addr (prefix_bits p) (prefix_addr p)\<rparr>"

definition Is4In6 :: "Addr \<Rightarrow> bool" where
  "Is4In6 a = (case a of Addr4 _ \<Rightarrow> False | Addr6 b _ \<Rightarrow> take 12 b = replicate 10 0 @ [255, 255])"

section \<open>Printing\<close>

definition print_v4 :: "nat list \<Rightarrow> string" where
  "print_v4 b = join ''.'' (map dec b)"

fun hex_of :: "nat \<Rightarrow> string" where
  "hex_of n = (if n < 16 then [hex_digit n] else hex_of (n div 16) @ [hex_digit (n mod 16)])"

declare hex_of.simps [simp del]

fun groups_of :: "nat list \<Rightarrow> nat list" where
  "groups_of (a # b # rest) = (256 * a + b) # groups_of rest"
| "groups_of _ = []"

definition zero_run :: "nat list \<Rightarrow> nat \<Rightarrow> nat" where
  "zero_run gs i = length (takeWhile (\<lambda>g. g = 0) (drop i gs))"

text \<open>The first longest run of at least two zero groups, as its start and end.\<close>

definition longest_run :: "nat list \<Rightarrow> (nat \<times> nat) option" where
  "longest_run gs = fold (\<lambda>i best. if zero_run gs i \<ge> 2 \<and>
       zero_run gs i > (case best of None \<Rightarrow> 0 | Some (s, e) \<Rightarrow> e - s) then Some (i, i + zero_run gs i) else best)
     [0..<length gs] None"

definition print_groups :: "nat list \<Rightarrow> string" where
  "print_groups gs = (case longest_run gs of
     None \<Rightarrow> join '':'' (map hex_of gs)
   | Some (s, e) \<Rightarrow> join '':'' (map hex_of (take s gs)) @ ''::'' @ join '':'' (map hex_of (drop e gs)))"

definition print_addr :: "Addr \<Rightarrow> string" where
  "print_addr a = (case a of
     Addr4 b \<Rightarrow> print_v4 b
   | Addr6 b z \<Rightarrow> (if Is4In6 a then ''::ffff:'' @ print_v4 (drop 12 b) else print_groups (groups_of b)) @
       (if z = [] then [] else ''%'' @ z))"

definition print_prefix :: "Prefix \<Rightarrow> string" where
  "print_prefix p = print_addr (prefix_addr p) @ ''/'' @ dec (prefix_bits p)"

section \<open>Allowlists\<close>

definition MaxAddresses :: nat where "MaxAddresses = 32"

definition read_range :: "string \<Rightarrow> err + Prefix" where
  "read_range value = (case ParsePrefix value of
     Some p \<Rightarrow> Inr p
   | None \<Rightarrow> (case ParseAddr value of
       None \<Rightarrow> Inl (EMsg (quoted value @ '' is not an IP address or CIDR range''))
     | Some a \<Rightarrow> Inr (PrefixFrom a (BitLen a))))"

definition normal_range :: "string \<Rightarrow> err + string" where
  "normal_range value = (case read_range value of
     Inl e \<Rightarrow> Inl e
   | Inr p \<Rightarrow> let q = Masked_prefix p in
       if Is4In6 (prefix_addr q) then Inl (EMsg (quoted value @ '': write IPv4 addresses without an IPv6 prefix''))
       else Inr (print_prefix q))"

fun normalize_from :: "string list \<Rightarrow> string list \<Rightarrow> err + string list" where
  "normalize_from out [] = Inr out"
| "normalize_from out (raw # rest) =
     (let value = TrimSpace raw in
      if value = [] then normalize_from out rest
      else case normal_range value of
        Inl e \<Rightarrow> Inl e
      | Inr r \<Rightarrow> normalize_from (if r \<in> set out then out else out @ [r]) rest)"

definition Normalize :: "string list \<Rightarrow> err + string list" where
  "Normalize addresses =
     (if length addresses > MaxAddresses then Inl (EMsg (''at most '' @ dec MaxAddresses @ '' addresses are allowed''))
      else normalize_from [] addresses)"

section \<open>The rule file\<close>

record Rule =
  Rule_Database :: string
  Rule_Role :: string
  Rule_Addresses :: "string list"

definition newline :: string where "newline = [CHR 0x0A]"

definition rule_lines :: "string \<Rightarrow> Rule \<Rightarrow> string" where
  "rule_lines tunnelSource r =
     (if tunnelSource \<noteq> '''' then
        ''host '' @ Rule_Database r @ '' '' @ Rule_Role r @ '' '' @ tunnelSource @ '' scram-sha-256'' @ newline
      else '''') @
     concat (map (\<lambda>a. ''hostssl '' @ Rule_Database r @ '' '' @ Rule_Role r @ '' '' @ a @ '' scram-sha-256'' @ newline)
       (Rule_Addresses r))"

text \<open>Rules are ordered by database; the databases of one installation are distinct.\<close>

definition Render :: "string \<Rightarrow> Rule list \<Rightarrow> string" where
  "Render tunnelSource rules =
     ''# Written by the Pgfy dashboard. Project roles only; system roles are pinned by the host.'' @ newline @
     concat (map (rule_lines tunnelSource) (sort_key Rule_Database rules))"

record 'x Manager =
  Dir :: string
  TunnelSource :: string
  HBAFileErrors :: "('x, string list) io"
  Reload :: "('x, gotime) io"

text \<open>The temporary file is written, then renamed over the target in one step.\<close>

definition write_file :: "string \<Rightarrow> string \<Rightarrow> ('x, unit) act" where
  "write_file target content =
     then_tx (on_files (\<lambda>m. ((), m(target @ ''.tmp'' \<mapsto> content))))
     (on_files (\<lambda>m. ((), m(target := m (target @ ''.tmp''), target @ ''.tmp'' := None))))"

definition restore_file :: "string \<Rightarrow> string option \<Rightarrow> ('x, unit) act" where
  "restore_file target previous = (case previous of
     Some content \<Rightarrow> then_tx (attempt (write_file target content)) (ret ())
   | None \<Rightarrow> then_tx (attempt (on_files (\<lambda>m. ((), m(target := None))))) (ret ()))"

definition rules_file :: "'x Manager \<Rightarrow> string" where
  "rules_file m = path_join [Dir m, ''projects.conf'']"

definition validate_and_load :: "(err \<Rightarrow> string) \<Rightarrow> 'x Manager \<Rightarrow> string \<Rightarrow> ('x, gotime) act" where
  "validate_and_load err_text m content =
     bind_tx (attempt (call_out unlogged (HBAFileErrors m))) (\<lambda>r. case r of
       Inl e \<Rightarrow> throw (EMsg (''policy could not be validated: '' @ err_text e))
     | Inr problems \<Rightarrow>
         if problems \<noteq> [] then throw (EMsg (''PostgreSQL rejected the policy: '' @ join ''; '' problems))
         else call_out (\<lambda>r d. case r of Inl _ \<Rightarrow> [] | Inr _ \<Rightarrow> [RulesLoaded content d]) (Reload m))"

definition Apply :: "(err \<Rightarrow> string) \<Rightarrow> 'x Manager \<Rightarrow> Rule list \<Rightarrow> ('x, gotime) act" where
  "Apply err_text m rules =
     (let target = rules_file m; content = Render (TunnelSource m) rules in
      bind_tx (on_files (\<lambda>f. (f target, f))) (\<lambda>previous.
      then_tx (write_file target content)
      (bind_tx (attempt (validate_and_load err_text m content)) (\<lambda>r. case r of
         Inl e \<Rightarrow> then_tx (restore_file target previous) (throw e)
       | Inr loaded \<Rightarrow> ret loaded))))"

section \<open>The rule file is restored\<close>

lemma tmp_not_target [simp]: "target @ ''.tmp'' \<noteq> target" "target \<noteq> target @ ''.tmp''"
  by simp_all

lemma write_file_Inr:
  "write_file target content s = (Inr u, s') \<Longrightarrow> files (fst s') target = Some content"
  by (auto simp: write_file_def tx_simps)

lemma write_file_Inl:
  "write_file target content s = (Inl e, s') \<Longrightarrow> files (fst s') target = files (fst s) target \<and> snd s \<noteq> []"
  by (auto simp: write_file_def then_tx_def bind_tx_def on_files_def fails_now_def split: if_splits prod.splits sum.splits)

lemma restore_file_effect:
  assumes "restore_file target previous s = (r, s')"
  shows "r = Inr ()" "files (fst s') target = previous \<or> snd s \<noteq> [] \<and> files (fst s') target = files (fst s) target"
proof -
  have "r = Inr () \<and> (files (fst s') target = previous \<or> snd s \<noteq> [] \<and> files (fst s') target = files (fst s) target)"
  proof (cases previous)
    case None
    then show ?thesis using assms
      by (auto simp: restore_file_def then_tx_def bind_tx_def attempt_def on_files_def ret_def fails_now_def split: if_splits)
  next
    case (Some content)
    obtain r1 s1 where w: "write_file target content s = (r1, s1)" by (metis surj_pair)
    then have "r = Inr ()" "s' = s1" using assms Some
      by (simp_all add: restore_file_def then_tx_def bind_tx_def attempt_def ret_def)
    moreover have "files (fst s1) target = Some content \<or> snd s \<noteq> [] \<and> files (fst s1) target = files (fst s) target"
      using write_file_Inr [of target content s _ s1] write_file_Inl [of target content s _ s1] w by (cases r1) blast+
    ultimately show ?thesis using Some by simp
  qed
  then show "r = Inr ()" "files (fst s') target = previous \<or> snd s \<noteq> [] \<and> files (fst s') target = files (fst s) target"
    by simp_all
qed

lemma validate_and_load_files:
  assumes "validate_and_load err_text m content s = (r, s')"
  shows "files (fst s') = files (fst s)" "snd s' = snd s"
  using assms by (auto simp: validate_and_load_def bind_tx_def attempt_def call_out_def throw_def split: prod.splits sum.splits if_splits)

text \<open>
  C30. A refused rule file is taken back. When applying the rules ends with an error (PostgreSQL cannot be
  asked, finds problems, or does not reload), the managed file holds again what it held before, or is
  absent again if there was none; only if a file operation itself failed can the new content stay behind.
\<close>

theorem Apply_takes_back:
  assumes "fails (Apply err_text m rules) (v, fs) e v'"
  shows "files v' (rules_file m) = files v (rules_file m) \<or>
    fs \<noteq> [] \<and> files v' (rules_file m) = Some (Render (TunnelSource m) rules)"
proof -
  let ?t = "rules_file m" and ?c = "Render (TunnelSource m) rules"
  obtain fs' where run: "Apply err_text m rules (v, fs) = (Inl e, (v', fs'))" using assms by (rule failsE)
  show ?thesis
  proof (cases "fails_now fs")
    case True
    then show ?thesis using run by (auto simp: Apply_def bind_tx_def on_files_def Let_def)
  next
    case False
    obtain r1 s1 where w: "write_file ?t ?c (v, tl fs) = (r1, s1)" by (metis surj_pair)
    show ?thesis
    proof (cases r1)
      case (Inl e1)
      then have "s1 = (v', fs')" using run False w
        by (simp add: Apply_def bind_tx_def then_tx_def on_files_def Let_def)
      then show ?thesis using write_file_Inl [of ?t ?c "(v, tl fs)" e1 s1] w Inl by simp
    next
      case (Inr u)
      then have written: "files (fst s1) ?t = Some ?c" using w write_file_Inr by blast
      have later: "snd s1 \<noteq> [] \<Longrightarrow> fs \<noteq> []"
        using w Inr by (auto simp: write_file_def tx_simps)
      obtain r2 s2 where l: "validate_and_load err_text m ?c s1 = (r2, s2)" by (metis surj_pair)
      obtain e2 where r2: "r2 = Inl e2"
        using run False w Inr l by (cases r2) (simp_all add: Apply_def bind_tx_def then_tx_def on_files_def attempt_def ret_def Let_def)
      obtain r3 s3 where undo: "restore_file ?t (files v ?t) s2 = (r3, s3)" by (metis surj_pair)
      have "s3 = (v', fs')" using run False w Inr l r2 undo restore_file_effect(1) [OF undo]
        by (simp add: Apply_def bind_tx_def then_tx_def on_files_def attempt_def throw_def Let_def)
      then show ?thesis
        using restore_file_effect(2) [OF undo] validate_and_load_files [OF l] written later by auto
    qed
  qed
qed

definition refusing :: "unit Manager" where
  "refusing = \<lparr>Dir = ''/hba'', TunnelSource = '''', HBAFileErrors = io_ret [''line 2''], Reload = io_ret 0\<rparr>"

definition ruled_world :: "unit world" where
  "ruled_world = \<lparr>wdb = empty_db, outside = (), calls = [], files = (\<lambda>_. None)(''/hba/projects.conf'' \<mapsto> ''old'')\<rparr>"

lemma Apply_takes_back_witness:
  "files (leaves (Apply (\<lambda>_. ''e'') refusing []) (ruled_world, [])) ''/hba/projects.conf'' = Some ''old''"
proof -
  have t: "rules_file refusing = ''/hba/projects.conf''" by code_simp
  have "fst (Apply (\<lambda>_. ''e'') refusing [] (ruled_world, [])) = Inl (EMsg ''PostgreSQL rejected the policy: line 2'')"
    by code_simp
  then have "fails (Apply (\<lambda>_. ''e'') refusing []) (ruled_world, []) (EMsg ''PostgreSQL rejected the policy: line 2'')
      (leaves (Apply (\<lambda>_. ''e'') refusing []) (ruled_world, []))"
    by (simp add: fails_def leaves_def)
  from Apply_takes_back [OF this] show ?thesis by (simp add: t ruled_world_def)
qed

text \<open>Success means PostgreSQL found no problem in the new file and loaded it.\<close>

lemma Apply_loads:
  assumes "returns (Apply err_text m rules) (v, fs) loaded v'"
  shows "files v' (rules_file m) = Some (Render (TunnelSource m) rules)"
    and "calls v' = RulesLoaded (Render (TunnelSource m) rules) (wdb v) # calls v" and "wdb v' = wdb v"
  using assms write_file_Inr
  by (auto simp: Apply_def returns_iff tx_simps Let_def validate_and_load_def write_file_def call_out_def unlogged_def
      attempt_def throw_def split: sum.splits prod.splits if_splits)

end
