(* ===== verification/Provisioning.thy ===== *)
theory Provisioning
  imports Hba
begin

text \<open>
  The provisioner (\<^verbatim>\<open>internal/provision/provision.go\<close>): it turns recorded projects into PostgreSQL roles and
  databases stage by stage, keeps the rule file and the limits of the roles up to date, and rotates
  passwords. PostgreSQL is the interface \<^verbatim>\<open>Roles\<close> the package declares, a record of outside calls. The
  locks of the package serialise its operations on one project; a lock that another request holds is
  an observation. Log lines are left out.
\<close>

section \<open>The interface to PostgreSQL\<close>

definition ErrRoleMismatch :: err where
  "ErrRoleMismatch = EMsg ''a role with this name exists with different attributes''"

definition ErrOwnerMismatch :: err where
  "ErrOwnerMismatch = EMsg ''a database with this name exists with a different owner''"

record RoleState =
  RS_Settings :: "string \<Rightarrow> string option"
  RS_ConnectionLimit :: int
  RS_DatabaseSettings :: "string \<Rightarrow> string option"

text \<open>The four settings of a role, in the order the source writes them; its map has no order.\<close>

definition LimitSettings :: "int \<Rightarrow> int \<Rightarrow> int \<Rightarrow> int \<Rightarrow> (string \<times> string) list" where
  "LimitSettings statementMS idleMS tempKB lockMS =
     [(''statement_timeout'', decimal statementMS @ ''ms''),
      (''idle_in_transaction_session_timeout'', decimal idleMS @ ''ms''),
      (''temp_file_limit'', if tempKB \<noteq> -1 then decimal tempKB @ ''kB'' else ''-1''),
      (''lock_timeout'', decimal lockMS @ ''ms'')]"

record 'x Roles =
  EnsureRole :: "string \<Rightarrow> string \<Rightarrow> int \<Rightarrow> ('x, unit) io"
  EnsureDatabase :: "string \<Rightarrow> string \<Rightarrow> ('x, unit) io"
  ApplyLimits :: "string \<Rightarrow> (string \<times> string) list \<Rightarrow> int \<Rightarrow> ('x, unit) io"
  RoleStates :: "('x, string \<Rightarrow> RoleState option) io"
  ResetDatabaseLimits :: "string \<Rightarrow> string \<Rightarrow> string list \<Rightarrow> ('x, unit) io"
  SetPassword :: "string \<Rightarrow> string \<Rightarrow> ('x, unit) io"
  TerminateSessions :: "string \<Rightarrow> string \<Rightarrow> ('x, unit) io"
  DropProject :: "string \<Rightarrow> string \<Rightarrow> ('x, unit) io"

text \<open>
  What a provisioner is made with: PostgreSQL, the rule file, the vault, the clock, whether its context
  has ended, whether a project's lock is free, the random token, and the decoding of stored allowlists.
\<close>

record 'x Provisioner =
  PG :: "'x Roles"
  HBA :: "'x Manager"
  Seal :: "string \<Rightarrow> string \<Rightarrow> string"
  Open :: "string \<Rightarrow> string \<Rightarrow> string option"
  Clock :: "'x \<Rightarrow> gotime \<times> 'x"
  Done :: "'x \<Rightarrow> bool \<times> 'x"
  TryLock :: "string \<Rightarrow> 'x \<Rightarrow> bool \<times> 'x"
  Token :: "'x \<Rightarrow> string \<times> 'x"
  Unmarshal_addresses :: "string \<Rightarrow> err + string list"
  Text :: "err \<Rightarrow> string"

definition DefaultAddresses :: "string list" where
  "DefaultAddresses = [''0.0.0.0/0'', ''::/0'']"

text \<open>\<^verbatim>\<open>json.Marshal\<close> of the default list.\<close>

definition DefaultAddresses_json :: string where
  "DefaultAddresses_json = ''['' @ join '','' (map quoted DefaultAddresses) @ '']''"

text \<open>\<^verbatim>\<open>_ = f()\<close> and \<^verbatim>\<open>if e != nil { slog.Warn(...) }\<close>.\<close>

definition ignoring :: "('x, 'a) act \<Rightarrow> ('x, unit) act" where
  "ignoring m = then_tx (attempt m) (ret ())"

section \<open>Limits\<close>

definition wanted :: "Limits \<Rightarrow> (string \<times> string) list" where
  "wanted l = LimitSettings (StatementTimeoutMS l) (IdleInTransactionMS l) (TempFileLimitKB l) (LockTimeoutMS l)"

definition set_limits :: "'x Provisioner \<Rightarrow> string \<Rightarrow> Limits \<Rightarrow> ('x, unit) act" where
  "set_limits p role l = call_out (\<lambda>_ d. [LimitsSet role d])
     (ApplyLimits (PG p) role (wanted l) (ConnectionLimit l))"

definition applyLimits :: "'x Provisioner \<Rightarrow> string \<Rightarrow> string \<Rightarrow> ProjectLimits \<Rightarrow> ('x, unit) act" where
  "applyLimits p projectID role l =
     then_tx (set_limits p role (PL_Limits l)) (on_db (MarkLimitsApplied projectID (PL_Revision l)))"

definition overrides :: "Limits \<Rightarrow> RoleState \<Rightarrow> string list" where
  "overrides l state = filter (\<lambda>k. RS_DatabaseSettings state k \<noteq> None) (map fst (wanted l))"

text \<open>A setting the role does not have reads as the empty text.\<close>

definition drifted :: "Limits \<Rightarrow> RoleState \<Rightarrow> bool" where
  "drifted l state \<longleftrightarrow> RS_ConnectionLimit state \<noteq> ConnectionLimit l \<or>
     list_ex (\<lambda>(k, v). coalesce (RS_Settings state k) '''' \<noteq> v) (wanted l)"

definition limits_not_accepted :: string where
  "limits_not_accepted =
     ''PostgreSQL did not accept the limits. Run pgfyctl diagnostics; they are retried automatically.''"

definition sync_role :: "'x Provisioner \<Rightarrow> (string \<Rightarrow> RoleState option) \<Rightarrow> RoleLimits \<Rightarrow> ('x, unit) act" where
  "sync_role p states r = (case states (RL_Role r) of
     None \<Rightarrow> ret ()
   | Some state \<Rightarrow>
       let l = PL_Limits (RL_Limits r); over = overrides l state in
       then_tx (if over \<noteq> [] then
           ignoring (call_out unlogged (ResetDatabaseLimits (PG p) (RL_Role r) (RL_Database r) over))
         else ret ())
       (if \<not> drifted l state then
          (if PL_AppliedRevision (RL_Limits r) < PL_Revision (RL_Limits r) then
             ignoring (on_db (MarkLimitsApplied (RL_ProjectID r) (PL_Revision (RL_Limits r))))
           else ret ())
        else bind_tx (attempt (applyLimits p (RL_ProjectID r) (RL_Role r) (RL_Limits r))) (\<lambda>e. case e of
          Inl _ \<Rightarrow> ignoring (on_db (LimitsFailed (RL_ProjectID r) limits_not_accepted))
        | Inr _ \<Rightarrow> ret ())))"

definition SyncLimits :: "'x Provisioner \<Rightarrow> ('x, unit) act" where
  "SyncLimits p = ignoring (
     bind_tx (on_db ReadyProjectLimits) (\<lambda>rs.
     if rs = [] then ret ()
     else bind_tx (call_out unlogged (RoleStates (PG p))) (\<lambda>states.
       for_each (sync_role p states) rs)))"

section \<open>The access policy\<close>

definition rule_of :: "Project \<Rightarrow> string list \<Rightarrow> Rule" where
  "rule_of project addresses = \<lparr>Rule_Database = Project_DBName project, Rule_Role = Project_RoleName project,
     Rule_Addresses = addresses\<rparr>"

fun collect_rules :: "'x Provisioner \<Rightarrow> Project list \<Rightarrow> Rule list \<Rightarrow> (string \<times> PolicyState) list \<Rightarrow>
    ('x, Rule list \<times> (string \<times> PolicyState) list) act" where
  "collect_rules p [] rules revisions = ret (rules, revisions)"
| "collect_rules p (project # rest) rules revisions =
     (if Project_Stage project \<noteq> ''ready'' then collect_rules p rest rules revisions
      else bind_tx (on_db (get_PolicyState (Project_ID project))) (\<lambda>st.
        case Unmarshal_addresses p (PolicyState_Addresses st) of
          Inl e \<Rightarrow> throw e
        | Inr addresses \<Rightarrow> (case Normalize addresses of
            Inl e \<Rightarrow> then_tx (ignoring (on_db (ApplyPolicyResult (Project_ID project) (PolicyState_CurrentRevision st) False (Text p e))))
              (collect_rules p rest rules revisions)
          | Inr normalized \<Rightarrow> collect_rules p rest (rules @ [rule_of project normalized])
              (revisions @ [(Project_ID project, st)]))))"

definition record_outcome :: "'x Provisioner \<Rightarrow> err + gotime \<Rightarrow> string \<times> PolicyState \<Rightarrow> ('x, unit) act" where
  "record_outcome p outcome entry = (case entry of (pid, st) \<Rightarrow> (case outcome of
     Inr _ \<Rightarrow> ignoring (on_db (ApplyPolicyResult pid (PolicyState_CurrentRevision st) True ''''))
   | Inl e \<Rightarrow>
       if PolicyState_AppliedRevision st \<noteq> PolicyState_CurrentRevision st then
         ignoring (on_db (ApplyPolicyResult pid (PolicyState_CurrentRevision st) False (Text p e)))
       else ret ()))"

text \<open>The outcomes are recorded per project, each on its own row, so the order of the source's map does not matter.\<close>

definition SyncPolicy :: "'x Provisioner \<Rightarrow> ('x, unit) act" where
  "SyncPolicy p =
     bind_tx (on_db Projects) (\<lambda>projects.
     bind_tx (collect_rules p projects [] []) (\<lambda>(rules, revisions).
     bind_tx (attempt (Apply (Text p) (HBA p) rules)) (\<lambda>outcome.
     then_tx (for_each (record_outcome p outcome) revisions)
     (case outcome of Inl e \<Rightarrow> throw e | Inr _ \<Rightarrow> ret ()))))"

section \<open>Stages\<close>

fun retry_from :: "'x Provisioner \<Rightarrow> nat \<Rightarrow> ('x, unit) act \<Rightarrow> err option \<Rightarrow> ('x, unit) act" where
  "retry_from p 0 fn latest = (case latest of None \<Rightarrow> ret () | Some e \<Rightarrow> throw e)"
| "retry_from p (Suc n) fn latest =
     bind_tx (attempt fn) (\<lambda>r. case r of
       Inr _ \<Rightarrow> ret ()
     | Inl e \<Rightarrow>
         if e = ErrRoleMismatch \<or> e = ErrOwnerMismatch then throw e
         else bind_tx (observe (Done p)) (\<lambda>ended. if ended then throw e else retry_from p n fn (Some e)))"

definition retry :: "'x Provisioner \<Rightarrow> ('x, unit) act \<Rightarrow> ('x, unit) act" where
  "retry p fn = retry_from p 3 fn None"

definition first_policy :: "'x Provisioner \<Rightarrow> string \<Rightarrow> ('x, unit) act" where
  "first_policy p projectID =
     bind_tx (on_db (get_PolicyState projectID)) (\<lambda>st.
     if PolicyState_CurrentRevision st = 0 then
       bind_tx (observe (Clock p)) (\<lambda>t.
       bind_tx (attempt (on_db (RecordPolicyRevision projectID 0 DefaultAddresses_json t))) (\<lambda>r. case r of
         Inl e \<Rightarrow> if e = ErrRevisionConflict then ret () else throw e
       | Inr _ \<Rightarrow> ret ()))
     else ret ())"

definition stages :: "'x Provisioner \<Rightarrow> Project \<Rightarrow> string \<Rightarrow> ProjectLimits \<Rightarrow> (string \<times> ('x, unit) act) list" where
  "stages p project password limits =
     [(''role_created'', call_out (\<lambda>_ d. [RoleEnsured (Project_RoleName project) password d])
         (EnsureRole (PG p) (Project_RoleName project) password (ConnectionLimit (PL_Limits limits)))),
      (''database_created'', call_out (\<lambda>_ d. [DatabaseEnsured (Project_DBName project) (Project_RoleName project) d])
         (EnsureDatabase (PG p) (Project_DBName project) (Project_RoleName project))),
      (''ready'', then_tx (applyLimits p (Project_ID project) (Project_RoleName project) limits)
         (first_policy p (Project_ID project)))]"

definition run_stage :: "'x Provisioner \<Rightarrow> string \<Rightarrow> string \<times> ('x, unit) act \<Rightarrow> ('x, unit) act" where
  "run_stage p projectID stage = (case stage of (name, run) \<Rightarrow>
     bind_tx (attempt (retry p run)) (\<lambda>r. case r of
       Inl e \<Rightarrow> throw (EMsg (name @ '': '' @ Text p e))
     | Inr _ \<Rightarrow> bind_tx (observe (Clock p)) (\<lambda>t. on_db (SetProjectStage projectID name t))))"

fun run_stages :: "'x Provisioner \<Rightarrow> Project \<Rightarrow> bool \<Rightarrow> (string \<times> ('x, unit) act) list \<Rightarrow> ('x, unit) act" where
  "run_stages p project started [] = ret ()"
| "run_stages p project started (stage # rest) =
     (if started then run_stages p project (Project_Stage project \<noteq> fst stage) rest
      else then_tx (run_stage p (Project_ID project) stage) (run_stages p project False rest))"

definition known_stages :: "string list" where
  "known_stages = [''identity_persisted'', ''role_created'', ''database_created'', ''ready'']"

definition provision :: "'x Provisioner \<Rightarrow> Project \<Rightarrow> ('x, unit) act" where
  "provision p seen =
     bind_tx (on_db (get_Project (Project_ID seen))) (\<lambda>project.
     if Project_Stage project = ''deleting'' \<or> Project_Failed project then ret ()
     else if Project_Stage project \<notin> set known_stages then
       throw (EMsg (''unexpected stage '' @ quoted (Project_Stage project)))
     else bind_tx (on_db (SealedPassword (Project_ID project))) (\<lambda>sealed.
       case Open p (''project:'' @ Project_ID project) sealed of
         None \<Rightarrow> throw (EMsg ''stored credentials cannot be decrypted with this installation key'')
       | Some password \<Rightarrow>
           bind_tx (on_db (get_ProjectLimits (Project_ID project))) (\<lambda>limits.
           run_stages p project (Project_Stage project \<noteq> ''identity_persisted'')
             (stages p project password limits))))"

definition ProvisionNow :: "'x Provisioner \<Rightarrow> string \<Rightarrow> ('x, unit) act" where
  "ProvisionNow p projectID =
     bind_tx (on_db (get_Project projectID)) (\<lambda>project.
     if Project_Failed project then throw (EMsg (Project_StageError project))
     else then_tx
       (if Project_Stage project \<noteq> ''ready'' then
          bind_tx (attempt (provision p project)) (\<lambda>r. case r of
            Inl e \<Rightarrow> then_tx (ignoring (on_db (FailProject (Project_ID project) (Text p e)))) (throw e)
          | Inr _ \<Rightarrow> ret ())
        else ret ())
       (SyncPolicy p))"

section \<open>Rotation\<close>

definition ErrRotationIncomplete :: err where
  "ErrRotationIncomplete = EMsg ''the password change will be finished automatically''"

definition finishRotation :: "'x Provisioner \<Rightarrow> Project \<Rightarrow> string \<Rightarrow> string \<Rightarrow> AuditEntry \<Rightarrow> ('x, unit) act" where
  "finishRotation p project password sealed entry =
     then_tx (call_out (\<lambda>_ d. [PasswordSet (Project_RoleName project) password d])
       (SetPassword (PG p) (Project_RoleName project) password))
     (then_tx (call_out (\<lambda>_ d. [SessionsEnded (Project_RoleName project) d])
       (TerminateSessions (PG p) (Project_DBName project) (Project_RoleName project)))
     (then_tx (on_db (CompleteRotation (Project_ID project) sealed entry)) (ret ())))"

definition Rotate :: "'x Provisioner \<Rightarrow> Project \<Rightarrow> AuditEntry \<Rightarrow> ('x, string) act" where
  "Rotate p project entry =
     bind_tx (observe (Token p)) (\<lambda>password.
     let sealed = Seal p (''project:'' @ Project_ID project) password in
     then_tx (on_db (BeginRotation (Project_ID project) sealed (AuditEntry_RequestID entry)))
     (bind_tx (attempt (finishRotation p project password sealed entry)) (\<lambda>r. case r of
       Inl _ \<Rightarrow> throw ErrRotationIncomplete
     | Inr _ \<Rightarrow> ret password)))"

definition automatic_entry :: "PendingRotation \<Rightarrow> gotime \<Rightarrow> AuditEntry" where
  "automatic_entry r t = \<lparr>AuditEntry_ID = 0, AuditEntry_At = unix t, AuditEntry_AdminID = 0,
     AuditEntry_Action = ''credentials.rotate'', AuditEntry_Target = PR_ProjectID r,
     AuditEntry_RequestID = PR_RequestID r,
     AuditEntry_Detail = ''{'' @ quoted ''finished'' @ '':'' @ quoted ''automatically'' @ ''}''\<rparr>"

text \<open>The pending password and the project are read again under the lock; any error ends the attempt.\<close>

definition finish_recorded :: "'x Provisioner \<Rightarrow> PendingRotation \<Rightarrow> ('x, unit) act" where
  "finish_recorded p r =
     bind_tx (on_db (PendingPassword (PR_ProjectID r))) (\<lambda>sealed.
     if sealed = '''' then ret ()
     else bind_tx (on_db (get_Project (PR_ProjectID r))) (\<lambda>project.
       case Open p (''project:'' @ PR_ProjectID r) sealed of
         None \<Rightarrow> ret ()
       | Some password \<Rightarrow>
           bind_tx (observe (Clock p)) (\<lambda>t.
           finishRotation p project password sealed (automatic_entry r t))))"

definition finish_pending :: "'x Provisioner \<Rightarrow> PendingRotation \<Rightarrow> ('x, unit) act" where
  "finish_pending p r =
     bind_tx (observe (TryLock p (PR_ProjectID r))) (\<lambda>free.
     if \<not> free then ret () else ignoring (finish_recorded p r))"

definition FinishRotations :: "'x Provisioner \<Rightarrow> ('x, unit) act" where
  "FinishRotations p = ignoring (bind_tx (on_db PendingRotations) (for_each (finish_pending p)))"

section \<open>A pass\<close>

text \<open>The loop over the incomplete projects: \<open>None\<close> when the context ended, else whether one was advanced.\<close>

fun provision_each :: "'x Provisioner \<Rightarrow> Project list \<Rightarrow> bool \<Rightarrow> ('x, bool option) act" where
  "provision_each p [] changed = ret (Some changed)"
| "provision_each p (project # rest) changed =
     bind_tx (observe (Done p)) (\<lambda>ended.
     if ended then ret None
     else bind_tx (attempt (provision p project)) (\<lambda>r. case r of
       Inl e \<Rightarrow> then_tx (ignoring (on_db (FailProject (Project_ID project) (Text p e)))) (provision_each p rest changed)
     | Inr _ \<Rightarrow> provision_each p rest True))"

definition pass :: "'x Provisioner \<Rightarrow> ('x, unit) act" where
  "pass p =
     bind_tx (attempt (on_db Maintenance)) (\<lambda>m. case m of
       Inl _ \<Rightarrow> ret ()
     | Inr on \<Rightarrow>
         if on then ret ()
         else then_tx (FinishRotations p)
           (then_tx (SyncLimits p)
           (bind_tx (attempt (on_db IncompleteProjects)) (\<lambda>r. case r of
              Inl _ \<Rightarrow> ret ()
            | Inr incomplete \<Rightarrow>
                bind_tx (provision_each p incomplete False) (\<lambda>changed.
                if changed = Some True then ignoring (SyncPolicy p) else ret ())))))"

text \<open>The loop of the process, followed for at most \<open>n\<close> rounds: it ends only when the context does.\<close>

fun run_rounds :: "'x Provisioner \<Rightarrow> nat \<Rightarrow> ('x, unit) act" where
  "run_rounds p 0 = ret ()"
| "run_rounds p (Suc n) =
     then_tx (pass p) (bind_tx (observe (Done p)) (\<lambda>ended. if ended then ret () else run_rounds p n))"

definition Run :: "'x Provisioner \<Rightarrow> nat \<Rightarrow> ('x, unit) act" where
  "Run p n = then_tx (ignoring (SyncPolicy p)) (run_rounds p n)"

end
