(* ===== verification/Tool_Output.thy ===== *)
theory Tool_Output
  imports Storage_Client
begin

text \<open>
  What the worker makes of \<^verbatim>\<open>pg_dump\<close> and \<^verbatim>\<open>pg_restore\<close> (\<^verbatim>\<open>internal/jobs/jobs.go\<close>): the error stream is read
  whole, so that the number of errors is complete, while what is kept of it is bounded; how the process
  ended decides whether its result may be used at all.
\<close>

section \<open>The error stream\<close>

fun contains :: "string \<Rightarrow> string \<Rightarrow> bool" where
  "contains part [] \<longleftrightarrow> part = []"
| "contains part (c # s) \<longleftrightarrow> has_prefix (c # s) part \<or> contains part s"

definition summary_text :: string where
  "summary_text = ''errors ignored on restore: ''"

text \<open>The leftmost match of the summary with its number, as the regular expression finds it.\<close>

fun summary_digits :: "string \<Rightarrow> string option" where
  "summary_digits [] = None"
| "summary_digits (c # s) =
     (let digits = takeWhile is_digit (drop (length summary_text) (c # s)) in
      if has_prefix (c # s) summary_text \<and> digits \<noteq> [] then Some digits else summary_digits s)"

text \<open>\<^verbatim>\<open>strconv.Atoi\<close> of decimal digits: an error beyond 64 bits.\<close>

definition Atoi :: "string \<Rightarrow> int option" where
  "Atoi digits = (if number digits < 2 ^ 63 then Some (int (number digits)) else None)"

record toolRun =
  tool_Exit :: int
  tool_Errors :: int
  tool_Counted :: string
  tool_Excerpt :: string
  tool_LastLine :: string
  tool_Err :: "err option"

definition line_limit :: nat where "line_limit = 2 ^ 20"
definition excerpt_limit :: nat where "excerpt_limit = 4096"
definition last_line_limit :: nat where "last_line_limit = 300"

definition trim_eol :: "string \<Rightarrow> string" where
  "trim_eol s = rev (dropWhile (\<lambda>c. c = CHR 0x0D \<or> c = CHR 0x0A) (rev s))"

definition readBoundedLine :: "string \<Rightarrow> string" where
  "readBoundedLine raw = trim_eol (take line_limit raw)"

text \<open>The lines of a stream: every one that ends in a newline, and what is left at the end unless it is empty.\<close>

definition stream_lines :: "string \<Rightarrow> string list" where
  "stream_lines s =
     (let parts = split_at (CHR 0x0A) s; rest = readBoundedLine (last parts) in
      map (\<lambda>l. readBoundedLine (l @ [CHR 0x0A])) (butlast parts) @ (if rest = [] then [] else [rest]))"

definition read_line :: "string \<Rightarrow> toolRun \<Rightarrow> toolRun" where
  "read_line line run =
     (let run = (if TrimSpace line \<noteq> [] then run\<lparr>tool_LastLine := line\<rparr> else run);
          run = (if contains '': error:'' line then run\<lparr>tool_Errors := tool_Errors run + 1\<rparr> else run);
          run = (case Option.bind (summary_digits line) Atoi of
              None \<Rightarrow> run
            | Some n \<Rightarrow> run\<lparr>tool_Errors := n, tool_Counted := ''reported by the tool''\<rparr>)
      in run\<lparr>tool_Excerpt := take excerpt_limit (tool_Excerpt run @ line @ [CHR 0x0A])\<rparr>)"

definition nothing_read :: toolRun where
  "nothing_read = \<lparr>tool_Exit = 0, tool_Errors = 0, tool_Counted = ''counted from the output'', tool_Excerpt = [],
     tool_LastLine = [], tool_Err = None\<rparr>"

definition readToolErrors :: "string \<Rightarrow> toolRun" where
  "readToolErrors stream =
     (let run = fold read_line (stream_lines stream) nothing_read in
      run\<lparr>tool_Excerpt := TrimSpace (tool_Excerpt run), tool_LastLine := take last_line_limit (tool_LastLine run)\<rparr>)"

section \<open>The end of a process\<close>

text \<open>
  How a process ended, as \<^verbatim>\<open>cmd.Wait\<close> reports it: by itself with a code, by a signal, by its time limit
  before a code was read, or not known. A process that cannot be started has no stream.
\<close>

datatype wait_result = Succeeded | ExitCode int | Signaled string | TimeLimit | WaitFailed

datatype process = NotStarted | Ran string wait_result

definition run_tool :: "string \<Rightarrow> process \<Rightarrow> toolRun" where
  "run_tool name p = (case p of
     NotStarted \<Rightarrow> nothing_read\<lparr>tool_Counted := [], tool_Err := Some (EMsg (name @ '' could not be started''))\<rparr>
   | Ran stream end \<Rightarrow>
       let run = readToolErrors stream in
       (case end of
          Succeeded \<Rightarrow> run
        | Signaled signal \<Rightarrow>
            run\<lparr>tool_Err := Some (EMsg (name @ '' was stopped before it finished ('' @ signal @ '')''))\<rparr>
        | TimeLimit \<Rightarrow> run\<lparr>tool_Err := Some (EMsg (name @ '' did not finish within its time limit''))\<rparr>
        | ExitCode code \<Rightarrow> run\<lparr>tool_Exit := code\<rparr>
        | WaitFailed \<Rightarrow> run\<lparr>tool_Err := Some (EMsg (name @ '' failed: '' @ tool_LastLine run))\<rparr>))"

text \<open>A tool whose complaint is a failure.\<close>

definition tool_error :: "string \<Rightarrow> toolRun \<Rightarrow> err option" where
  "tool_error name run = (case tool_Err run of
     Some e \<Rightarrow> Some e
   | None \<Rightarrow> if tool_Exit run \<noteq> 0 then Some (EMsg (name @ '' failed: '' @ tool_LastLine run)) else None)"

definition major :: "string \<Rightarrow> string" where
  "major version =
     (let m = takeWhile (\<lambda>c. c \<noteq> CHR ''.'' \<and> c \<noteq> CHR '' '') version in
      if m \<noteq> [] \<and> length m < length version then m else version)"

section \<open>What is read is complete and bounded\<close>

lemma read_line_bounds:
  "length (tool_Excerpt (read_line line run)) \<le> excerpt_limit"
  "tool_Err (read_line line run) = tool_Err run" "tool_Exit (read_line line run) = tool_Exit run"
  by (simp_all add: read_line_def Let_def split: option.split)

lemma fold_read_line_bounds:
  "length (tool_Excerpt run) \<le> excerpt_limit \<Longrightarrow> length (tool_Excerpt (fold read_line lines run)) \<le> excerpt_limit"
  "tool_Err (fold read_line lines run) = tool_Err run" "tool_Exit (fold read_line lines run) = tool_Exit run"
  by (induction lines arbitrary: run) (simp_all add: read_line_bounds)

text \<open>Without a summary of the tool's own, every line with an error is counted.\<close>

lemma fold_read_line_counts:
  assumes "\<And>line. line \<in> set lines \<Longrightarrow> summary_digits line = None"
  shows "tool_Errors (fold read_line lines run) =
    tool_Errors run + int (length (filter (contains '': error:'') lines))"
  using assms by (induction lines arbitrary: run) (simp_all add: read_line_def Let_def)

text \<open>Unless a later line counts or summarises again, the last summary of the tool is the count.\<close>

lemma fold_read_line_summary:
  assumes "summary_digits line = Some digits" "number digits < 2 ^ 63"
    and "\<And>l. l \<in> set rest \<Longrightarrow> summary_digits l = None \<and> \<not> contains '': error:'' l"
  shows "tool_Errors (fold read_line (before @ line # rest) run) = int (number digits)"
proof -
  have "tool_Errors (fold read_line rest run') = tool_Errors run'" for run'
    using fold_read_line_counts [of rest run'] assms(3) by (simp add: filter_empty_conv)
  then show ?thesis using assms(1,2) by (simp add: read_line_def Let_def Atoi_def)
qed

lemma length_strip_spaces: "length (strip_spaces spaces n s) \<le> length s"
proof (induction n arbitrary: s)
  case (Suc n)
  then show ?case by (auto split: option.split intro: le_trans [OF Suc])
qed simp

lemma length_TrimSpace: "length (TrimSpace s) \<le> length s"
  unfolding TrimSpace_def Let_def length_rev
  by (metis (no_types) length_rev length_strip_spaces order_trans)

lemma length_stream_line:
  assumes "line \<in> set (stream_lines s)"
  shows "length line \<le> line_limit"
proof -
  have "length (readBoundedLine raw) \<le> line_limit" for raw
    unfolding readBoundedLine_def trim_eol_def
    by (simp, metis length_dropWhile_le length_rev length_take min.boundedE order_trans)
  with assms show ?thesis by (auto simp: stream_lines_def Let_def split: if_splits)
qed


end
