(* ===== verification/Worker_Jobs.thy ===== *)
theory Worker_Jobs
  imports Retention Provisioning Tool_Output
begin

text \<open>
  The worker (\<^verbatim>\<open>internal/jobs/jobs.go\<close>, \<^verbatim>\<open>internal/jobs/delete.go\<close>): it claims one job at a time and runs a
  backup, a restore or a deletion, schedules backups and drives reconciliation. PostgreSQL, the tools, the
  file system and the random tokens are outside calls of the record \<open>JobWorker\<close>; temporary files and
  database sessions that the source releases on return (\<^verbatim>\<open>defer\<close>) and log lines are left out.
\<close>

section \<open>The worker\<close>

definition MaxArchiveBytes :: int where "MaxArchiveBytes = 2 * 2 ^ 30"
definition MaxTables :: nat where "MaxTables = 5000"

text \<open>The interval from the environment: what \<^verbatim>\<open>time.ParseDuration\<close> makes of it, if anything.\<close>

definition scheduleInterval :: "duration option \<Rightarrow> duration" where
  "scheduleInterval parsed = (case parsed of
     None \<Rightarrow> 5 * minute
   | Some d \<Rightarrow> if d < minute then 5 * minute else if d > hour then hour else d)"

record BackupResult =
  BR_BackupID :: string
  BR_ObjectKey :: string
  BR_SizeBytes :: int
  BR_SHA256 :: string
  BR_Tables :: "TableCount list"
  BR_TablesTruncated :: bool
  BR_Objects :: "ObjectCounts option"

record Check =
  Check_Name :: string
  Check_OK :: bool
  Check_Detail :: string

record RestoreResult =
  RR_ProjectID :: string
  RR_Verification :: string
  RR_Verified :: bool
  RR_Summary :: string
  RR_RestoreErrors :: int
  RR_Stderr :: string
  RR_Checks :: "Check list"

record restoreInput =
  RI_ManifestKey :: string
  RI_Name :: string
  RI_ProjectID :: string

record deleteInput =
  DI_ProjectID :: string
  DI_Name :: string
  DI_DBName :: string
  DI_RoleName :: string

record DeleteResult =
  DR_ProjectID :: string
  DR_Name :: string
  DR_DBName :: string

text \<open>
  The part of PostgreSQL a job talks to: the size of a database, a session and its read-only transaction,
  and the queries in it. Then the file system and the tools: the free blocks of the workspace and their
  size, a temporary directory, the password file, the checksum and length of a file, and a process.
\<close>

record 'x Server =
  DatabaseSize :: "string \<Rightarrow> ('x, int) io"
  Connect :: "string \<Rightarrow> ('x, unit) io"
  BeginRead :: "('x, unit) io"
  ExportSnapshot :: "('x, string \<times> string) io"
  ListTables :: "nat \<Rightarrow> ('x, (string \<times> string) list) io"
  CountRows :: "string \<Rightarrow> string \<Rightarrow> ('x, int) io"
  CountObjects :: "('x, ObjectCounts) io"
  ServerVersion :: "('x, string) io"
  ForeignTables :: "string \<Rightarrow> ('x, int) io"
  CanConnect :: "string \<Rightarrow> ('x, bool) io"

record 'x Host =
  Statfs :: "('x, int \<times> int) io"
  MkdirTemp :: "string \<Rightarrow> ('x, string) io"
  Passfile :: "('x, string) io"
  FileSHA256 :: "string \<Rightarrow> ('x, string \<times> int) io"
  Process :: "string \<Rightarrow> string list \<Rightarrow> 'x \<Rightarrow> process \<times> 'x"

record 'x JobWorker =
  base :: "'x Worker"
  Provision :: "'x Provisioner option"
  Server_of :: "'x Server"
  Host_of :: "'x Host"
  Ended :: "'x \<Rightarrow> bool \<times> 'x"
  Draw :: "'x \<Rightarrow> string \<times> 'x"
  DrawEach :: "'x \<Rightarrow> (string \<Rightarrow> string) \<times> 'x"
  New_client :: "Settings \<Rightarrow> err + 'x Client"
  Decode_manifest :: "string \<Rightarrow> Manifest option"
  Encode_manifest :: "Manifest \<Rightarrow> err + string"
  Decode_restore :: "string \<Rightarrow> err + restoreInput"
  Decode_delete :: "string \<Rightarrow> err + deleteInput"
  Encode_delete :: "deleteInput \<Rightarrow> string"
  Encode_backup_result :: "BackupResult \<Rightarrow> string"
  Encode_restore_result :: "RestoreResult \<Rightarrow> string"
  Encode_delete_result :: "DeleteResult \<Rightarrow> string"

definition clock :: "'x JobWorker \<Rightarrow> ('x, gotime) act" where
  "clock w = now (base w)"

definition ask_server :: "('x Server \<Rightarrow> ('x, 'a) io) \<Rightarrow> 'x JobWorker \<Rightarrow> ('x, 'a) act" where
  "ask_server f w = call_out unlogged (f (Server_of w))"

definition ask_host :: "('x Host \<Rightarrow> ('x, 'a) io) \<Rightarrow> 'x JobWorker \<Rightarrow> ('x, 'a) act" where
  "ask_host f w = call_out unlogged (f (Host_of w))"

definition StorageClient :: "'x JobWorker \<Rightarrow> ('x, 'x Client) act" where
  "StorageClient w = bind_tx (StorageSettings (base w)) (\<lambda>s.
     case New_client w s of Inl e \<Rightarrow> throw e | Inr c \<Rightarrow> ret c)"

definition set_stage :: "'x JobWorker \<Rightarrow> Job \<Rightarrow> string \<Rightarrow> ('x, unit) act" where
  "set_stage w job name = bind_tx (clock w) (\<lambda>t. ignoring (on_db (SetJobStage (Job_ID job) name t)))"

text \<open>
  A job returns its result also when it ends with an error: \<open>step\<close> goes on with the value of a call or
  returns what is known so far together with the error.
\<close>

definition give_up :: "'r \<Rightarrow> err \<Rightarrow> ('x, 'r \<times> (err + 'b)) act" where
  "give_up result e = ret (result, Inl e)"

definition step :: "'r \<Rightarrow> (err \<Rightarrow> err) \<Rightarrow> ('x, 'a) act \<Rightarrow> ('a \<Rightarrow> ('x, 'r \<times> (err + 'b)) act) \<Rightarrow> ('x, 'r \<times> (err + 'b)) act" where
  "step result f m k = bind_tx (attempt m) (\<lambda>r. case r of Inl e \<Rightarrow> give_up result (f e) | Inr a \<Rightarrow> k a)"

definition as_is :: "err \<Rightarrow> err" where "as_is e = e"

definition unreachable :: "err \<Rightarrow> err" where "unreachable e = EMsg ''PostgreSQL is not reachable''"

definition megabytes :: "int \<Rightarrow> string" where "megabytes n = decimal (n div 2 ^ 20)"

definition ensureWorkspace :: "'x JobWorker \<Rightarrow> int \<Rightarrow> ('x, unit) act" where
  "ensureWorkspace w needed =
     bind_tx (attempt (ask_host Statfs w)) (\<lambda>r. case r of
       Inl _ \<Rightarrow> throw (EMsg ''the backup workspace is unavailable'')
     | Inr (blocks, block_size) \<Rightarrow>
         let free = blocks * block_size; wants = needed * 2 + 256 * 2 ^ 20 in
         if free < wants then
           throw (EMsg (''not enough free disk for this job: '' @ megabytes free @ '' MB free, about '' @
             megabytes wants @ '' MB needed''))
         else ret ())"

section \<open>Backups\<close>

fun count_rows :: "'x JobWorker \<Rightarrow> (string \<times> string) list \<Rightarrow> ('x, TableCount list) act" where
  "count_rows w [] = ret []"
| "count_rows w ((schema, name) # rest) =
     bind_tx (ask_server (\<lambda>s. CountRows s schema name) w) (\<lambda>n.
     bind_tx (count_rows w rest) (\<lambda>ts.
     ret (\<lparr>TableCount_Schema = schema, TableCount_Name = name, TableCount_Rows = n\<rparr> # ts)))"

definition countTables :: "'x JobWorker \<Rightarrow> ('x, TableCount list \<times> bool) act" where
  "countTables w =
     bind_tx (ask_server (\<lambda>s. ListTables s (MaxTables + 1)) w) (\<lambda>tables.
     let truncated = length tables > MaxTables in
     bind_tx (count_rows w (if truncated then take MaxTables tables else tables)) (\<lambda>counts.
     ret (counts, truncated)))"

definition nothing_backed_up :: BackupResult where
  "nothing_backed_up = \<lparr>BR_BackupID = [], BR_ObjectKey = [], BR_SizeBytes = 0, BR_SHA256 = [], BR_Tables = [],
     BR_TablesTruncated = False, BR_Objects = None\<rparr>"

text \<open>What the dump is taken of: the result so far has the counts of the same snapshot.\<close>

record snapshot =
  snap_id :: string
  snap_version :: string
  snap_result :: BackupResult

definition take_snapshot :: "'x JobWorker \<Rightarrow> Project \<Rightarrow> (snapshot \<Rightarrow> ('x, BackupResult \<times> (err + 'b)) act) \<Rightarrow>
    ('x, BackupResult \<times> (err + 'b)) act" where
  "take_snapshot w project k =
     (let result = nothing_backed_up in
      step result unreachable (ask_server (\<lambda>s. Connect s (Project_DBName project)) w) (\<lambda>_.
      step result as_is (ask_server BeginRead w) (\<lambda>_.
      step result as_is (ask_server ExportSnapshot w) (\<lambda>(snap, version).
      step result as_is (countTables w) (\<lambda>(tables, truncated).
      step result as_is (ask_server CountObjects w) (\<lambda>objects.
      k \<lparr>snap_id = snap, snap_version = version, snap_result = result\<lparr>BR_Tables := tables,
          BR_TablesTruncated := truncated, BR_Objects := Some objects\<rparr>\<rparr>))))))"

definition run_process :: "'x JobWorker \<Rightarrow> string \<Rightarrow> string list \<Rightarrow> ('x, toolRun) act" where
  "run_process w name args = bind_tx (observe (Process (Host_of w) name args)) (\<lambda>p. ret (run_tool name p))"

definition tool :: "'x JobWorker \<Rightarrow> string \<Rightarrow> string list \<Rightarrow> ('x, unit) act" where
  "tool w name args = bind_tx (run_process w name args) (\<lambda>run.
     case tool_error name run of Some e \<Rightarrow> throw e | None \<Rightarrow> ret ())"

definition server_args :: "string list" where
  "server_args = [''--host=postgres'', ''--port=5432'', ''--username=pgfy_mgmt'']"

definition dump_args :: "Project \<Rightarrow> snapshot \<Rightarrow> string \<Rightarrow> string list" where
  "dump_args project snap archive = [''--format=custom'', ''--no-owner'', ''--no-privileges'',
     ''--snapshot='' @ snap_id snap] @ server_args @ [''--dbname='' @ Project_DBName project, ''--file='' @ archive]"

definition dump_archive :: "'x JobWorker \<Rightarrow> Job \<Rightarrow> Project \<Rightarrow> snapshot \<Rightarrow> string \<Rightarrow>
    (BackupResult \<Rightarrow> ('x, BackupResult \<times> (err + 'b)) act) \<Rightarrow> ('x, BackupResult \<times> (err + 'b)) act" where
  "dump_archive w job project snap archive k =
     (let result = snap_result snap in
      then_tx (set_stage w job ''dump'')
      (step result as_is (tool w ''pg_dump'' (dump_args project snap archive)) (\<lambda>_.
       then_tx (set_stage w job ''checksum'')
       (step result as_is (ask_host (\<lambda>h. FileSHA256 h archive) w) (\<lambda>(digest, n).
        if n > MaxArchiveBytes then
          give_up result (EMsg (''the archive is '' @ decimal n @ '' bytes, above the '' @ decimal MaxArchiveBytes @
            '' byte limit of this release''))
        else k (result\<lparr>BR_SHA256 := digest, BR_SizeBytes := n\<rparr>))))))"

definition manifest_of :: "'x JobWorker \<Rightarrow> Project \<Rightarrow> snapshot \<Rightarrow> BackupResult \<Rightarrow> gotime \<Rightarrow> string \<Rightarrow> Manifest" where
  "manifest_of w project snap result at folder = \<lparr>Manifest_Version = 1, Manifest_InstallationID = InstallationID (base w),
     Manifest_ProjectID = Project_ID project, Manifest_ProjectName = Project_Name project,
     Manifest_DBName = Project_DBName project, Manifest_PostgresVersion = snap_version snap, Manifest_CreatedAt = at,
     Manifest_ArchiveKey = folder @ ''/'' @ ArchiveFile, Manifest_SHA256 = BR_SHA256 result,
     Manifest_SizeBytes = BR_SizeBytes result, Manifest_Tables = BR_Tables result,
     Manifest_TablesTruncated = BR_TablesTruncated result, Manifest_Objects = BR_Objects result,
     Manifest_ManifestKey = folder @ ''/'' @ ManifestFile\<rparr>"

definition upload_file :: "'x Client \<Rightarrow> string \<Rightarrow> string \<Rightarrow> ('x, unit) act" where
  "upload_file client k path = call_out (\<lambda>_ d. [Uploaded k path d]) (UploadFile client k path)"

definition upload_bytes :: "'x Client \<Rightarrow> string \<Rightarrow> string \<Rightarrow> ('x, unit) act" where
  "upload_bytes client k content = call_out (\<lambda>_ d. [Uploaded k content d]) (UploadBytes client k content ''application/json'')"

definition client_target :: "'x Client \<Rightarrow> string" where
  "client_target client = Target (settings_of client)"

definition publish :: "'x JobWorker \<Rightarrow> Job \<Rightarrow> Project \<Rightarrow> 'x Client \<Rightarrow> snapshot \<Rightarrow> string \<Rightarrow> BackupResult \<Rightarrow>
    ('x, BackupResult \<times> (err + Backup)) act" where
  "publish w job project client snap archive result =
     bind_tx (clock w) (\<lambda>t.
     let at = from_unix (unix t);
         folder = BackupKey (Prefix (settings_of client)) (Project_DBName project) at;
         manifest = manifest_of w project snap result at folder in
     step result as_is (on_db (SetJobTarget (Job_ID job) (client_target client) folder)) (\<lambda>_.
     case EncodeManifest (Encode_manifest w) manifest of
       Inl e \<Rightarrow> give_up result e
     | Inr encoded \<Rightarrow>
         then_tx (set_stage w job ''upload_archive'')
         (step result as_is (upload_file client (Manifest_ArchiveKey manifest) archive) (\<lambda>_.
          then_tx (set_stage w job ''upload_manifest'')
          (step result as_is (upload_bytes client (Manifest_ManifestKey manifest) encoded) (\<lambda>_.
           bind_tx (observe (Draw w)) (\<lambda>token.
           let backup = ''bk_'' @ take 16 token in
           ret (result\<lparr>BR_BackupID := backup, BR_ObjectKey := Manifest_ManifestKey manifest\<rparr>,
             Inr \<lparr>Backup_ID = backup, Backup_ProjectID = Project_ID project, Backup_JobID = Job_ID job,
               Backup_ObjectKey = Manifest_ManifestKey manifest, Backup_Manifest = encoded,
               Backup_SizeBytes = BR_SizeBytes result, Backup_CreatedAt = unix at,
               Backup_StorageTarget = client_target client\<rparr>))))))))"

definition runBackup :: "'x JobWorker \<Rightarrow> Job \<Rightarrow> ('x, BackupResult \<times> (err + Backup)) act" where
  "runBackup w job =
     (let result = nothing_backed_up in
      then_tx (set_stage w job ''preparing'')
      (step result (\<lambda>_. EMsg ''the project no longer exists'') (on_db (get_Project (Job_ProjectID job))) (\<lambda>project.
       if Project_Stage project \<noteq> ''ready'' \<or> Project_Failed project then
         give_up result (EMsg ''the project database is not ready'')
       else step result as_is (StorageClient w) (\<lambda>client.
       step result unreachable (ask_server (\<lambda>s. DatabaseSize s (Project_DBName project)) w) (\<lambda>bytes_needed.
       step result as_is (ensureWorkspace w bytes_needed) (\<lambda>_.
       step result as_is (ask_host (\<lambda>h. MkdirTemp h ''backup-'') w) (\<lambda>work.
       step result as_is (ask_host Passfile w) (\<lambda>_.
       then_tx (set_stage w job ''snapshot'')
       (take_snapshot w project (\<lambda>snap.
        let archive = path_join [work, ''archive.dump''] in
        dump_archive w job project snap archive (\<lambda>dumped.
        publish w job project client snap archive dumped)))))))))))"

section \<open>Restores\<close>

definition VerificationVerified :: string where "VerificationVerified = ''verified''"
definition VerificationPartial :: string where "VerificationPartial = ''partial''"
definition VerificationFailed :: string where "VerificationFailed = ''failed''"

definition compared :: "int \<Rightarrow> int \<Rightarrow> string" where
  "compared restored recorded = decimal restored @ '' restored, '' @ decimal recorded @ '' in backup''"

definition table_check :: "TableCount \<Rightarrow> err + int \<Rightarrow> Check" where
  "table_check t r = \<lparr>Check_Name = ''rows in '' @ TableCount_Schema t @ ''.'' @ TableCount_Name t,
     Check_OK = (r = Inr (TableCount_Rows t)),
     Check_Detail = (case r of Inl _ \<Rightarrow> ''table missing after restore'' | Inr n \<Rightarrow> compared n (TableCount_Rows t))\<rparr>"

fun table_checks :: "'x JobWorker \<Rightarrow> TableCount list \<Rightarrow> ('x, Check list) act" where
  "table_checks w [] = ret []"
| "table_checks w (t # ts) =
     bind_tx (attempt (ask_server (\<lambda>s. CountRows s (TableCount_Schema t) (TableCount_Name t)) w)) (\<lambda>r.
     bind_tx (table_checks w ts) (\<lambda>cs. ret (table_check t r # cs)))"

definition object_check :: "bool \<Rightarrow> string \<times> int \<times> int \<Rightarrow> Check" where
  "object_check readable c = (case c of (name, recorded, actual) \<Rightarrow>
     \<lparr>Check_Name = name, Check_OK = (readable \<and> actual = recorded),
      Check_Detail = (if readable then compared actual recorded else ''the count could not be read after restore'')\<rparr>)"

definition no_objects :: ObjectCounts where
  "no_objects = \<lparr>ObjectCounts_Sequences = 0, ObjectCounts_Views = 0, ObjectCounts_Functions = 0,
     ObjectCounts_Indexes = 0, ObjectCounts_Constraints = 0\<rparr>"

definition object_checks :: "ObjectCounts \<Rightarrow> err + ObjectCounts \<Rightarrow> Check list" where
  "object_checks recorded r =
     (let actual = (case r of Inl _ \<Rightarrow> no_objects | Inr c \<Rightarrow> c) in
      map (object_check (case r of Inl _ \<Rightarrow> False | Inr _ \<Rightarrow> True))
        [(''sequences'', ObjectCounts_Sequences recorded, ObjectCounts_Sequences actual),
         (''views'', ObjectCounts_Views recorded, ObjectCounts_Views actual),
         (''functions'', ObjectCounts_Functions recorded, ObjectCounts_Functions actual),
         (''indexes'', ObjectCounts_Indexes recorded, ObjectCounts_Indexes actual),
         (''constraints'', ObjectCounts_Constraints recorded, ObjectCounts_Constraints actual)])"

definition owner_check :: "err + int \<Rightarrow> Check" where
  "owner_check r = \<lparr>Check_Name = ''ownership'', Check_OK = (r = Inr 0),
     Check_Detail = (case r of
       Inl _ \<Rightarrow> ''ownership could not be checked''
     | Inr n \<Rightarrow> if n > 0 then decimal n @ '' tables belong to another role''
         else ''all tables belong to the new project user'')\<rparr>"

definition permission_check :: "err + bool \<Rightarrow> Check" where
  "permission_check r = \<lparr>Check_Name = ''permissions'', Check_OK = (r = Inr True),
     Check_Detail = (if r = Inr True then ''the new project user can connect with its own credentials''
       else ''the new project user cannot connect'')\<rparr>"

definition coverage_checks :: "Manifest \<Rightarrow> Check list" where
  "coverage_checks m =
     (if Manifest_Tables m = [] then
        [\<lparr>Check_Name = ''schema'', Check_OK = True, Check_Detail = ''the backup contained no user tables''\<rparr>] else []) @
     (if Manifest_TablesTruncated m then
        [\<lparr>Check_Name = ''table coverage'', Check_OK = True, Check_Detail = ''row counts cover the first '' @
           dec (length (Manifest_Tables m)) @ '' tables recorded by this backup''\<rparr>] else [])"

definition verification :: "Manifest \<Rightarrow> Check list \<Rightarrow> string" where
  "verification m checks =
     (if \<not> list_all Check_OK checks then VerificationFailed
      else if Manifest_TablesTruncated m \<or> Manifest_Objects m = None then VerificationPartial
      else VerificationVerified)"

definition verifyRestore :: "'x JobWorker \<Rightarrow> Manifest \<Rightarrow> string \<Rightarrow> ('x, Check list \<times> string) act" where
  "verifyRestore w m role =
     bind_tx (table_checks w (Manifest_Tables m)) (\<lambda>tables.
     bind_tx (case Manifest_Objects m of
         None \<Rightarrow> ret [\<lparr>Check_Name = ''database objects'', Check_OK = True,
           Check_Detail = ''this backup predates object counts, so only tables could be compared''\<rparr>]
       | Some recorded \<Rightarrow> bind_tx (attempt (ask_server CountObjects w)) (\<lambda>r. ret (object_checks recorded r))) (\<lambda>objects.
     bind_tx (attempt (ask_server (\<lambda>s. ForeignTables s role) w)) (\<lambda>foreign.
     bind_tx (attempt (ask_server (\<lambda>s. CanConnect s role) w)) (\<lambda>can.
     let checks = tables @ coverage_checks m @ objects @ [owner_check foreign, permission_check can] in
     ret (checks, verification m checks)))))"

definition nothing_restored :: "restoreInput \<Rightarrow> RestoreResult" where
  "nothing_restored input = \<lparr>RR_ProjectID = RI_ProjectID input, RR_Verification = [], RR_Verified = False, RR_Summary = [],
     RR_RestoreErrors = 0, RR_Stderr = [], RR_Checks = []\<rparr>"

definition restore_summary :: "bool \<Rightarrow> string \<Rightarrow> toolRun \<Rightarrow> string" where
  "restore_summary reported state run =
     (if reported then ''Completed with '' @ decimal (tool_Errors run) @ '' restore errors ('' @ tool_Counted run @
        ''). The database exists and can be inspected, but it is not verified.''
      else if state = VerificationPartial then
        ''Restored. Every check that this backup supports passed, but it does not carry the full set of baselines.''
      else if state = VerificationFailed then
        ''Restored, but verification found differences. Review the checks before relying on this database.''
      else ''Restored and verified against the baselines recorded at backup time.'')"

definition reported_errors :: "toolRun \<Rightarrow> bool" where
  "reported_errors run \<longleftrightarrow> tool_Exit run \<noteq> 0 \<or> tool_Errors run > 0"

definition restore_args :: "Project \<Rightarrow> string \<Rightarrow> string list" where
  "restore_args project archive = [''--no-owner'', ''--no-privileges'', ''--role='' @ Project_RoleName project] @
     server_args @ [''--dbname='' @ Project_DBName project, archive]"

definition run_restore_tool :: "'x JobWorker \<Rightarrow> Project \<Rightarrow> string \<Rightarrow> ('x, toolRun) act" where
  "run_restore_tool w project archive =
     bind_tx (call_out (\<lambda>_ d. [RestoreRun (Project_DBName project) (Project_RoleName project) d])
       (\<lambda>x. case Process (Host_of w) ''pg_restore'' (restore_args project archive) x of (p, x') \<Rightarrow> (Inr p, x'))) (\<lambda>p.
     ret (run_tool ''pg_restore'' p))"

definition restore_and_verify :: "'x JobWorker \<Rightarrow> Job \<Rightarrow> Project \<Rightarrow> Manifest \<Rightarrow> string \<Rightarrow> RestoreResult \<Rightarrow>
    ('x, RestoreResult \<times> (err + unit)) act" where
  "restore_and_verify w job project m archive result =
     then_tx (set_stage w job ''restore'')
     (bind_tx (run_restore_tool w project archive) (\<lambda>run.
      case tool_Err run of
        Some e \<Rightarrow> give_up result e
      | None \<Rightarrow>
          let result = result\<lparr>RR_RestoreErrors := tool_Errors run, RR_Stderr := tool_Excerpt run\<rparr> in
          then_tx (set_stage w job ''verify'')
          (step result (\<lambda>_. EMsg ''PostgreSQL is not reachable for verification'')
             (ask_server (\<lambda>s. Connect s (Project_DBName project)) w) (\<lambda>_.
           bind_tx (verifyRestore w m (Project_RoleName project)) (\<lambda>(checks, state).
           let reported = reported_errors run; state = (if reported then VerificationFailed else state) in
           ret (result\<lparr>RR_Checks := checks, RR_Verification := state,
             RR_Verified := (state = VerificationVerified), RR_Summary := restore_summary reported state run\<rparr>, Inr ()))))))"

definition checksum :: "'x JobWorker \<Rightarrow> string \<Rightarrow> ('x, string \<times> int) act" where
  "checksum w path = call_out (\<lambda>r _. case r of Inl _ \<Rightarrow> [] | Inr (digest, n) \<Rightarrow> [Checksummed path digest n])
     (FileSHA256 (Host_of w) path)"

definition fetch_archive :: "'x JobWorker \<Rightarrow> Job \<Rightarrow> 'x Client \<Rightarrow> Manifest \<Rightarrow> RestoreResult \<Rightarrow>
    (string \<Rightarrow> ('x, RestoreResult \<times> (err + unit)) act) \<Rightarrow> ('x, RestoreResult \<times> (err + unit)) act" where
  "fetch_archive w job client m result k =
     step result as_is (ensureWorkspace w (Manifest_SizeBytes m)) (\<lambda>_.
     step result as_is (ask_host (\<lambda>h. MkdirTemp h ''restore-'') w) (\<lambda>work.
     let archive = path_join [work, ''archive.dump''] in
     then_tx (set_stage w job ''download'')
     (step result as_is (call_out unlogged (DownloadFile client (Manifest_ArchiveKey m) archive)) (\<lambda>_.
      then_tx (set_stage w job ''verify_archive'')
      (step result as_is (checksum w archive) (\<lambda>(digest, n).
       if digest \<noteq> Manifest_SHA256 m \<or> n \<noteq> Manifest_SizeBytes m then
         give_up result (EMsg ''the downloaded archive does not match the manifest checksum; it will not be restored'')
       else k archive))))))"

definition restore_into :: "'x JobWorker \<Rightarrow> Job \<Rightarrow> Manifest \<Rightarrow> string \<Rightarrow> restoreInput \<Rightarrow> RestoreResult \<Rightarrow>
    ('x, RestoreResult \<times> (err + unit)) act" where
  "restore_into w job m archive input result =
     then_tx (set_stage w job ''create_project'')
     (case Provision w of
        None \<Rightarrow> give_up result (EMsg ''invalid memory address or nil pointer dereference'')
      | Some p \<Rightarrow>
          step result (\<lambda>e. EMsg (''the target project could not be created: '' @ Error_text (base w) e))
            (ProvisionNow p (RI_ProjectID input)) (\<lambda>_.
          step result as_is (on_db (get_Project (RI_ProjectID input))) (\<lambda>project.
          if Project_Stage project \<noteq> ''ready'' then
            give_up result (EMsg ''the target project is not ready; it may have been deleted'')
          else step result as_is (ask_host Passfile w) (\<lambda>_.
            restore_and_verify w job project m archive result))))"

text \<open>The manifest the restore goes by is read through the client; the read is recorded.\<close>

definition fetch_manifest :: "'x JobWorker \<Rightarrow> 'x Client \<Rightarrow> string \<Rightarrow> ('x, Manifest) act" where
  "fetch_manifest w client k = call_out (\<lambda>r d. [ReadManifest k r]) (get_Manifest (Decode_manifest w) client k)"

definition runRestore :: "'x JobWorker \<Rightarrow> Job \<Rightarrow> ('x, RestoreResult \<times> (err + unit)) act" where
  "runRestore w job = (case Decode_restore w (Job_Input job) of
     Inl e \<Rightarrow> give_up (nothing_restored \<lparr>RI_ManifestKey = [], RI_Name = [], RI_ProjectID = []\<rparr>) e
   | Inr input \<Rightarrow>
       let result = nothing_restored input in
       then_tx (set_stage w job ''preparing'')
       (step result as_is (StorageClient w) (\<lambda>client.
        step result as_is (fetch_manifest w client (RI_ManifestKey input)) (\<lambda>m.
        step result unreachable (ask_server ServerVersion w) (\<lambda>version.
        if major (Manifest_PostgresVersion m) \<noteq> major version then
          give_up result (EMsg (''the backup was made with PostgreSQL '' @ Manifest_PostgresVersion m @
            '' and this server runs '' @ version @ ''; restoring across major versions is not supported''))
        else if Manifest_SizeBytes m > MaxArchiveBytes then
          give_up result (EMsg ''the archive is above the size limit of this release'')
        else fetch_archive w job client m result (\<lambda>archive. restore_into w job m archive input result))))))"

section \<open>Deletions\<close>

definition delete_job :: "'x JobWorker \<Rightarrow> (string \<Rightarrow> string) \<Rightarrow> Project \<Rightarrow> string \<times> string" where
  "delete_job w tokens p = (''job_'' @ take 16 (tokens (Project_ID p)),
     Encode_delete w \<lparr>DI_ProjectID = Project_ID p, DI_Name = Project_Name p, DI_DBName = Project_DBName p,
       DI_RoleName = Project_RoleName p\<rparr>)"

definition drop_project :: "'x Provisioner \<Rightarrow> Project \<Rightarrow> ('x, unit) act" where
  "drop_project p project =
     call_out (\<lambda>_ d. [ProjectDropped (Project_DBName project) (Project_RoleName project) d])
       (DropProject (PG p) (Project_DBName project) (Project_RoleName project))"

definition runDelete :: "'x JobWorker \<Rightarrow> Job \<Rightarrow> ('x, DeleteResult \<times> (err + unit)) act" where
  "runDelete w job = (case Decode_delete w (Job_Input job) of
     Inl e \<Rightarrow> give_up \<lparr>DR_ProjectID = [], DR_Name = [], DR_DBName = []\<rparr> e
   | Inr input \<Rightarrow>
       let result = \<lparr>DR_ProjectID = DI_ProjectID input, DR_Name = DI_Name input, DR_DBName = DI_DBName input\<rparr> in
       (case Provision w of
          None \<Rightarrow> give_up result (EMsg ''PostgreSQL management is unavailable'')
        | Some p \<Rightarrow>
            then_tx (set_stage w job ''preparing'')
            (step result (\<lambda>_. EMsg ''the project could not be read'') (on_db (get_Project (DI_ProjectID input))) (\<lambda>project.
             if Project_Stage project \<noteq> ''deleting'' then
               give_up result (EMsg ''the project is not marked for deletion'')
             else then_tx (set_stage w job ''drop_database'')
               (step result as_is (drop_project p project) (\<lambda>_.
                then_tx (set_stage w job ''access_policy'')
                (step result (\<lambda>e. EMsg (''the access policy could not be applied: '' @ Error_text (base w) e)) (SyncPolicy p) (\<lambda>_.
                 then_tx (set_stage w job ''remove_records'')
                 (bind_tx (clock w) (\<lambda>t.
                  step result as_is (on_db (CompleteProjectDeletion (Job_ID job) project (Encode_delete_result w result) t)) (\<lambda>_.
                  ret (result, Inr ()))))))))))))"

definition resumeDeletions :: "'x JobWorker \<Rightarrow> ('x, unit) act" where
  "resumeDeletions w =
     bind_tx (observe (DrawEach w)) (\<lambda>tokens.
     bind_tx (clock w) (\<lambda>t. ignoring (on_db (ResumeDeletions (delete_job w tokens) t))))"

section \<open>Running jobs\<close>

text \<open>The outcome of a job of any kind: its encoded result, the backup it made, its error.\<close>

definition run_job :: "'x JobWorker \<Rightarrow> Job \<Rightarrow> ('x, string \<times> Backup option \<times> err option) act" where
  "run_job w job =
     (if Job_Kind job = ''backup'' then
        bind_tx (runBackup w job) (\<lambda>(result, r). ret (Encode_backup_result w result,
          case r of Inl e \<Rightarrow> (None, Some e) | Inr b \<Rightarrow> (Some b, None)))
      else if Job_Kind job = ''restore'' then
        bind_tx (runRestore w job) (\<lambda>(result, r). ret (Encode_restore_result w result, None,
          case r of Inl e \<Rightarrow> Some e | Inr _ \<Rightarrow> None))
      else if Job_Kind job = ''delete'' then
        bind_tx (runDelete w job) (\<lambda>(result, r). ret (Encode_delete_result w result, None,
          case r of Inl e \<Rightarrow> Some e | Inr _ \<Rightarrow> None))
      else ret (''null'', None, Some (EMsg ''unknown job kind'')))"

definition current_stage :: "Job \<Rightarrow> ('x, string) act" where
  "current_stage job = bind_tx (attempt (on_db (get_Job (Job_ID job)))) (\<lambda>r.
     ret (case r of Inl _ \<Rightarrow> '''' | Inr current \<Rightarrow> Job_Stage current))"

definition delete_identity :: "'x JobWorker \<Rightarrow> Job \<Rightarrow> string \<times> string" where
  "delete_identity w job = (case Decode_delete w (Job_Input job) of
     Inl _ \<Rightarrow> ('''', '''') | Inr input \<Rightarrow> (DI_ProjectID input, DI_Name input))"

definition finish_job :: "'x JobWorker \<Rightarrow> Job \<Rightarrow> string \<Rightarrow> Backup option \<Rightarrow> err option \<Rightarrow> ('x, unit) act" where
  "finish_job w job encoded backup failure =
     bind_tx (current_stage job) (\<lambda>reached.
     let (state, stage, message, record) = (case failure of
         None \<Rightarrow> (''succeeded'', ''done'', '''', backup)
       | Some e \<Rightarrow> (''failed'', reached, Error_text (base w) e, None)) in
     if Job_Kind job = ''delete'' then
       (if failure = None then ret ()
        else bind_tx (clock w) (\<lambda>t. ignoring (on_db (FailDeleteJob (Job_ID job) (fst (delete_identity w job))
          (snd (delete_identity w job)) stage message encoded t))))
     else if Job_Kind job \<noteq> ''backup'' then
       bind_tx (clock w) (\<lambda>t. ignoring (on_db (FinishJob (Job_ID job) state stage message encoded t)))
     else bind_tx Policy (\<lambda>policy.
       bind_tx (clock w) (\<lambda>t.
       bind_tx (attempt (on_db (CompleteBackupJob (Job_ID job) (Job_ProjectID job) state stage message encoded record
         (Job_Scheduled job) t (Interval policy)))) (\<lambda>r.
       case r of
         Inl _ \<Rightarrow> ret ()
       | Inr _ \<Rightarrow> if state = ''succeeded'' then Reconcile (base w) else ret ()))))"

text \<open>A job cut short by the end of the process stays running, so that the next start reports it as interrupted.\<close>

definition execute :: "'x JobWorker \<Rightarrow> Job \<Rightarrow> ('x, unit) act" where
  "execute w job =
     bind_tx (run_job w job) (\<lambda>(encoded, backup, failure).
     bind_tx (observe (Ended w)) (\<lambda>ended.
     if ended then ret () else finish_job w job encoded backup failure))"

text \<open>
  The loop over the queue, followed for at most \<open>n\<close> jobs, with the reason for its end. \<open>drain\<close> follows it
  for one job more than the queue holds.
\<close>

datatype drain_end = Unfinished | ContextEnded | QueueUnavailable | NothingToClaim

fun drain_upto :: "'x JobWorker \<Rightarrow> nat \<Rightarrow> ('x, drain_end) act" where
  "drain_upto w 0 = ret Unfinished"
| "drain_upto w (Suc n) =
     bind_tx (observe (Ended w)) (\<lambda>ended.
     if ended then ret ContextEnded
     else bind_tx (clock w) (\<lambda>t.
     bind_tx (attempt (on_db (ClaimJob t))) (\<lambda>r. case r of
       Inl _ \<Rightarrow> ret QueueUnavailable
     | Inr None \<Rightarrow> ret NothingToClaim
     | Inr (Some job) \<Rightarrow> then_tx (execute w job) (drain_upto w n))))"

definition queued :: "db \<Rightarrow> nat" where
  "queued d = count_where (\<lambda>j. job_state j = ''queued'') (jobs d)"

definition drain :: "'x JobWorker \<Rightarrow> ('x, drain_end) act" where
  "drain w s = drain_upto w (Suc (queued (wdb (fst s)))) s"

section \<open>The schedule and the loop\<close>

definition scheduled_input :: string where
  "scheduled_input = ''{'' @ quoted ''scheduled'' @ '':true}''"

definition schedule_next :: "'x JobWorker \<Rightarrow> gotime \<Rightarrow> Project list \<Rightarrow> ('x, unit) act" where
  "schedule_next w t candidates = (case candidates of
     [] \<Rightarrow> ret ()
   | p # _ \<Rightarrow> bind_tx (observe (Draw w)) (\<lambda>token.
       ignoring (on_db (EnqueueBackupJob (''job_'' @ take 16 token) (Project_ID p) scheduled_input True t))))"

definition scheduleBackups :: "'x JobWorker \<Rightarrow> ('x, unit) act" where
  "scheduleBackups w = ignoring (
     bind_tx (on_db Maintenance) (\<lambda>on.
     if on then ret ()
     else bind_tx (StorageSettings (base w)) (\<lambda>st.
     bind_tx (on_db (get_StorageTarget (Target st))) (\<lambda>state.
     if StorageTarget_ReconciledAt state = 0 then ret ()
     else bind_tx (clock w) (\<lambda>t.
     bind_tx Policy (\<lambda>policy.
     bind_tx (on_db (BackupCandidates (Target st) (InstallationID (base w)) t (DueBefore policy t))) (\<lambda>candidates.
     schedule_next w t candidates)))))))"

text \<open>What wakes the loop: a request, the two tickers, or a minute without either.\<close>

datatype wake = Kicked | ReconcileTick | ScheduleTick | IdleMinute

definition look_then_schedule :: "'x JobWorker \<Rightarrow> ('x, unit) act" where
  "look_then_schedule w = bind_tx (reconcileIfUnknown (base w)) (\<lambda>known. if known then scheduleBackups w else ret ())"

definition reconcile_all :: "'x JobWorker \<Rightarrow> ('x, unit) act" where
  "reconcile_all w = then_tx (Reconcile (base w)) (then_tx (resumeDeletions w) (scheduleBackups w))"

definition on_wake :: "'x JobWorker \<Rightarrow> wake \<Rightarrow> ('x, unit) act" where
  "on_wake w event = (case event of
     Kicked \<Rightarrow> look_then_schedule w
   | ReconcileTick \<Rightarrow> reconcile_all w
   | ScheduleTick \<Rightarrow> scheduleBackups w
   | IdleMinute \<Rightarrow> look_then_schedule w)"

definition start_up :: "'x JobWorker \<Rightarrow> ('x, unit) act" where
  "start_up w =
     bind_tx Policy (\<lambda>policy.
     bind_tx (clock w) (\<lambda>t.
     then_tx (ignoring (on_db (InterruptRunningJobs t (Interval policy)))) (reconcile_all w)))"

text \<open>The worker over a series of wake-ups; it ends when the context does, which is the end of the series.\<close>

fun serve :: "'x JobWorker \<Rightarrow> wake list \<Rightarrow> ('x, unit) act" where
  "serve w [] = then_tx (drain w) (ret ())"
| "serve w (event # rest) = then_tx (drain w) (then_tx (on_wake w event) (serve w rest))"

definition Run_worker :: "'x JobWorker \<Rightarrow> wake list \<Rightarrow> ('x, unit) act" where
  "Run_worker w events = then_tx (start_up w) (serve w events)"

end
