(* ===== verification/Retention_Safety.thy ===== *)
theory Retention_Safety
  imports Retention
begin

text \<open>
  What reconciliation and retention guarantee, for every answer of the provider and every failing
  statement: every removal had its grounds recorded at that moment, an incomplete view changes nothing
  that lasts, during an update the bucket is only read, and a complete listing of a folder is recorded
  exactly.
\<close>

section \<open>Grounds for every removal\<close>

text \<open>
  A removal in the log is grounded when the database at that moment recorded the intent. The manifest
  of a backup: its row carries a deletion marker, and the manifest was read just before and names this
  installation, this key and the row's archive. An archive: its row is archive-only, and either carries
  the marker or a failed or interrupted backup job of this installation claimed the folder.
\<close>

definition in_deletion :: "string \<Rightarrow> (bucket_row \<Rightarrow> bool) \<Rightarrow> db \<Rightarrow> bool" where
  "in_deletion target P d = list_ex (\<lambda>r. bkt_storage_target r = target \<and> P r \<and> bkt_delete_started_at r > 0) (bucket_backups d)"

definition confirmed :: "string \<Rightarrow> string \<Rightarrow> string \<Rightarrow> db \<Rightarrow> call list \<Rightarrow> bool" where
  "confirmed iid target k d log = (case log of
     ReadManifest k' (Inr m) # _ \<Rightarrow> k' = k \<and> Manifest_ManifestKey m = k \<and> Manifest_InstallationID m = iid \<and>
       in_deletion target (\<lambda>r. bkt_manifest_key r = k \<and> bkt_archive_key r = Manifest_ArchiveKey m) d
   | _ \<Rightarrow> False)"

definition half_removed :: "string \<Rightarrow> string \<Rightarrow> db \<Rightarrow> bool" where
  "half_removed target k d = in_deletion target (\<lambda>r. bkt_archive_key r = k \<and> bkt_state r = StateArchiveOnly) d"

definition claims :: "string \<Rightarrow> bucket_row \<Rightarrow> job_row \<Rightarrow> bool" where
  "claims target r j \<longleftrightarrow> job_kind j = ''backup'' \<and> job_target_storage j = target \<and>
     (job_state j = ''failed'' \<or> job_state j = ''interrupted'') \<and>
     job_target_key j = take (length (bkt_manifest_key r) - length (''/'' @ ManifestFile)) (bkt_manifest_key r)"

definition abandoned :: "string \<Rightarrow> string \<Rightarrow> db \<Rightarrow> bool" where
  "abandoned target k d = list_ex (\<lambda>r. bkt_storage_target r = target \<and> bkt_archive_key r = k \<and>
     bkt_state r = StateArchiveOnly \<and> list_ex (claims target r) (jobs d)) (bucket_backups d)"

fun grounded :: "string \<Rightarrow> string \<Rightarrow> call list \<Rightarrow> bool" where
  "grounded iid target [] = True"
| "grounded iid target (Removed k d # log) =
     ((confirmed iid target k d log \<or> half_removed target k d \<or> abandoned target k d) \<and> grounded iid target log)"
| "grounded iid target (_ # log) = grounded iid target log"

definition clock_set :: "'x Worker \<Rightarrow> bool" where
  "clock_set w \<longleftrightarrow> (\<forall>x. unix (fst (Now w x)) > 0)"

text \<open>The invariant: the log is grounded, rows have distinct keys, and the backups still to be handled are recorded.\<close>

definition bucket_keyed :: "db \<Rightarrow> bool" where
  "bucket_keyed d \<longleftrightarrow> distinct (map bucket_key (bucket_backups d))"

definition safe :: "string \<Rightarrow> string \<Rightarrow> 'x world \<Rightarrow> bool" where
  "safe iid target w \<longleftrightarrow> grounded iid target (calls w) \<and> bucket_keyed (wdb w)"

definition recorded :: "string \<Rightarrow> BucketBackup set \<Rightarrow> db \<Rightarrow> bool" where
  "recorded target S d \<longleftrightarrow> S \<subseteq> scanBucketBackup ` {r \<in> set (bucket_backups d). bkt_storage_target r = target}"

lemma recorded_mono: "recorded target S d \<Longrightarrow> T \<subseteq> S \<Longrightarrow> recorded target T d"
  by (auto simp: recorded_def)

lemma bucket_keyed_drop: "bucket_keyed d \<Longrightarrow> bucket_keyed (bucket_backups_update (drop_backup t k) d)"
  by (simp add: bucket_keyed_def drop_backup_def delete_where_def distinct_map_filter)

lemma recorded_drop:
  "recorded target S d \<Longrightarrow> (\<And>x. x \<in> T \<Longrightarrow> x \<in> S \<and> BB_ManifestKey x \<noteq> k) \<Longrightarrow>
     recorded target T (bucket_backups_update (drop_backup target k) d)"
  by (force simp: recorded_def drop_backup_def delete_where_def scanBucketBackup_def)

lemma bucket_keyed_update:
  assumes "bucket_keyed d" "\<And>r. bkt_manifest_key (f r) = bkt_manifest_key r" "\<And>r. bkt_storage_target (f r) = bkt_storage_target r"
  shows "bucket_keyed (bucket_backups_update (update_where P f) d)"
  using assms by (simp add: bucket_keyed_def map_update_where bucket_key_def)

lemma recorded_update:
  assumes "recorded target S d" "\<And>x. x \<in> T \<Longrightarrow> x \<in> S \<and> BB_ManifestKey x \<noteq> k"
  shows "recorded target T (bucket_backups_update (update_where
    (\<lambda>r. bkt_storage_target r = target \<and> bkt_manifest_key r = k) f) d)"
  using assms by (force simp: recorded_def in_update_where scanBucketBackup_def)

lemmas bucket_ops = ForgetBucketBackup_def DeleteLocalBackupRow_def MarkBackupDeleting_def MarkBackupArchiveOnly_def

text \<open>Finishing a deletion: the archive goes with the row as its grounds, then the row.\<close>

lemma finishDelete_safe:
  assumes "\<And>x. x \<in> T \<Longrightarrow> x \<in> S \<and> BB_ManifestKey x \<noteq> BB_ManifestKey b"
  shows "triple (\<lambda>w. safe iid target w \<and> recorded target S (wdb w) \<and> half_removed target (BB_ArchiveKey b) (wdb w))
    (finishDelete client target b) (\<lambda>_ w. safe iid target w \<and> recorded target T (wdb w)) (safe iid target)"
  unfolding finishDelete_def remove_object_def bucket_ops
proof (intro triple_then)
  show "triple (\<lambda>w. safe iid target w \<and> recorded target S (wdb w) \<and> half_removed target (BB_ArchiveKey b) (wdb w))
      (call_out (\<lambda>r d. [Removed (BB_ArchiveKey b) d]) (os_Remove client (BB_ArchiveKey b)))
      (\<lambda>_ w. safe iid target w \<and> recorded target S (wdb w)) (safe iid target)"
    by (rule triple_call) (auto simp: safe_def)
  show "triple (\<lambda>w. safe iid target w \<and> recorded target S (wdb w))
      (on_db (exec (bucket_backups_update (drop_backup target (BB_ManifestKey b)))))
      (\<lambda>_ w. safe iid target w \<and> recorded target T (wdb w)) (safe iid target)"
    by (rule triple_exec) (auto simp: safe_def bucket_keyed_drop intro: recorded_drop [OF _ assms])
  show "triple (\<lambda>w. safe iid target w \<and> recorded target T (wdb w))
      (on_db (exec (backups_update (delete_where (\<lambda>r. bak_storage_target r = target \<and> bak_object_key r = BB_ManifestKey b)))))
      (\<lambda>_ w. safe iid target w \<and> recorded target T (wdb w)) (safe iid target)"
    by (rule triple_exec) (auto simp: safe_def recorded_def bucket_keyed_def)
qed

lemma triple_now:
  assumes "clock_set w" "\<And>v at x. P v \<Longrightarrow> unix at > 0 \<Longrightarrow> Q at (v\<lparr>outside := x\<rparr>)"
  shows "triple P (now w) Q E"
  unfolding now_def observe_def
proof (rule triple_call)
  fix v a x assume "P v" and f: "(case Now w (outside v) of (a, x') \<Rightarrow> (Inr a, x')) = (Inr a, x)"
  moreover have "a = fst (Now w (outside v))" using f by (auto split: prod.splits)
  ultimately show "Q a (v\<lparr>outside := x, calls := unlogged (Inr a) (wdb v) @ calls v\<rparr>)"
    using assms by (simp add: unlogged_def clock_set_def)
qed (auto split: prod.splits)

lemma still_ours_facts:
  assumes "still_ours iid b m"
  shows "Manifest_ManifestKey m = BB_ManifestKey b" "Manifest_ArchiveKey m = BB_ArchiveKey b" "Manifest_InstallationID m = iid"
  using assms by (auto simp: still_ours_def CheckManifest_def entry_of_backup_def split: if_splits)

lemma list_ex_update_where: "r \<in> set rows \<Longrightarrow> P r \<Longrightarrow> Q (f r) \<Longrightarrow> list_ex Q (update_where P f rows)"
  by (auto simp: list_ex_iff update_where_def intro!: bexI [of _ "f r"] rev_image_eqI [of r])

lemma in_deletion_mark:
  assumes "recorded target S d" "b \<in> S" "unix at > 0"
  shows "in_deletion target (\<lambda>r. bkt_manifest_key r = BB_ManifestKey b \<and> bkt_archive_key r = BB_ArchiveKey b)
    (bucket_backups_update (update_where (\<lambda>r. bkt_storage_target r = target \<and> bkt_manifest_key r = BB_ManifestKey b)
       (\<lambda>r. r\<lparr>bkt_delete_started_at := unix at\<rparr>)) d)"
proof -
  obtain r where "r \<in> set (bucket_backups d)" "bkt_storage_target r = target" "b = scanBucketBackup r"
    using assms(1,2) by (auto simp: recorded_def)
  then show ?thesis unfolding in_deletion_def
    by (simp, intro list_ex_update_where [of r]) (use assms(3) in \<open>auto simp: scanBucketBackup_def\<close>)
qed

lemma half_removed_mark:
  assumes "in_deletion target (\<lambda>r. bkt_manifest_key r = k \<and> bkt_archive_key r = a) d"
  shows "half_removed target a (bucket_backups_update (update_where
    (\<lambda>r. bkt_storage_target r = target \<and> bkt_manifest_key r = k) (\<lambda>r. r\<lparr>bkt_state := BackupArchiveOnly\<rparr>)) d)"
proof -
  obtain r where "r \<in> set (bucket_backups d)" "bkt_storage_target r = target" "bkt_manifest_key r = k"
    "bkt_archive_key r = a" "bkt_delete_started_at r > 0"
    using assms by (auto simp: in_deletion_def list_ex_iff)
  then show ?thesis unfolding half_removed_def in_deletion_def
    by (simp, intro list_ex_update_where [of r]) (auto simp: BackupArchiveOnly_def StateArchiveOnly_def)
qed

lemma deleteBackup_safe:
  assumes "clock_set w" "b \<in> S" and T: "\<And>x. x \<in> T \<Longrightarrow> x \<in> S \<and> BB_ManifestKey x \<noteq> BB_ManifestKey b"
  shows "triple (\<lambda>v. safe (InstallationID w) target v \<and> recorded target S (wdb v))
    (deleteBackup w client target b)
    (\<lambda>_ v. safe (InstallationID w) target v \<and> recorded target T (wdb v)) (safe (InstallationID w) target)"
proof -
  let ?I = "safe (InstallationID w) target" and ?k = "BB_ManifestKey b" and ?a = "BB_ArchiveKey b"
  let ?read = "\<lambda>m v. ?I v \<and> (\<exists>log. calls v = ReadManifest ?k (Inr m) # log)"
  let ?marked = "in_deletion target (\<lambda>r. bkt_manifest_key r = ?k \<and> bkt_archive_key r = ?a)"
  have read: "triple (\<lambda>v. ?I v \<and> recorded target S (wdb v)) (read_manifest client ?k)
      (\<lambda>m v. ?read m v \<and> recorded target S (wdb v)) ?I"
    unfolding read_manifest_def by (rule triple_call) (auto simp: safe_def)
  have forget: "triple (\<lambda>v. ?read m v \<and> recorded target S (wdb v))
      (then_tx (on_db (ForgetBucketBackup target ?k)) (throw e)) Q ?I" for m e Q
    unfolding bucket_ops
    by (rule triple_then [OF triple_exec [where Q = "\<lambda>_. ?I"] triple_throw]) (auto simp: safe_def bucket_keyed_drop)
  have clock: "triple (\<lambda>v. ?read m v \<and> recorded target S (wdb v)) (now w)
      (\<lambda>at v. ?read m v \<and> recorded target S (wdb v) \<and> unix at > 0) ?I" for m
    by (rule triple_now [OF assms(1)]) (auto simp: safe_def)
  have mark: "triple (\<lambda>v. ?read m v \<and> recorded target S (wdb v) \<and> unix at > 0) (on_db (MarkBackupDeleting target ?k at))
      (\<lambda>_ v. ?read m v \<and> recorded target T (wdb v) \<and> ?marked (wdb v)) ?I" for m at
    unfolding bucket_ops
    by (rule triple_exec)
      (auto simp: safe_def bucket_keyed_update intro: recorded_update [OF _ T] in_deletion_mark [OF _ assms(2)])
  have remove: "triple (\<lambda>v. ?read m v \<and> recorded target T (wdb v) \<and> ?marked (wdb v)) (remove_object client ?k)
      (\<lambda>_ v. ?I v \<and> recorded target T (wdb v) \<and> ?marked (wdb v)) ?I" if "still_ours (InstallationID w) b m" for m
    unfolding remove_object_def
    by (rule triple_call) (auto simp: safe_def confirmed_def still_ours_facts [OF that])
  have archived: "triple (\<lambda>v. ?I v \<and> recorded target T (wdb v) \<and> ?marked (wdb v)) (on_db (MarkBackupArchiveOnly target ?k))
      (\<lambda>_ v. ?I v \<and> recorded target T (wdb v) \<and> half_removed target ?a (wdb v)) ?I"
    unfolding bucket_ops
    by (rule triple_exec)
      (auto simp: safe_def bucket_keyed_update half_removed_mark intro: recorded_update dest: T)
  have finish: "triple (\<lambda>v. ?I v \<and> recorded target T (wdb v) \<and> half_removed target ?a (wdb v)) (finishDelete client target b)
      (\<lambda>_ v. ?I v \<and> recorded target T (wdb v)) ?I"
    by (rule finishDelete_safe) (use T in blast)
  have ours: "triple (\<lambda>v. ?read m v \<and> recorded target S (wdb v))
      (bind_tx (now w) (\<lambda>at. then_tx (on_db (MarkBackupDeleting target ?k at)) (then_tx (remove_object client ?k)
        (then_tx (on_db (MarkBackupArchiveOnly target ?k)) (finishDelete client target b)))))
      (\<lambda>_ v. ?I v \<and> recorded target T (wdb v)) ?I" if "still_ours (InstallationID w) b m" for m
    by (intro triple_bind [OF clock] triple_then [OF mark] triple_then [OF remove [OF that]] triple_then [OF archived] finish)
  show ?thesis unfolding deleteBackup_def
  proof (rule triple_bind [OF read])
    show "triple (\<lambda>v. ?read m v \<and> recorded target S (wdb v))
      (if \<not> still_ours (InstallationID w) b m then
         then_tx (on_db (ForgetBucketBackup target ?k))
           (throw (EMsg (''backup '' @ folder_of b @ '' changed since it was recorded; it will be read again'')))
       else bind_tx (now w) (\<lambda>at. then_tx (on_db (MarkBackupDeleting target ?k at)) (then_tx (remove_object client ?k)
        (then_tx (on_db (MarkBackupArchiveOnly target ?k)) (finishDelete client target b)))))
      (\<lambda>_ v. ?I v \<and> recorded target T (wdb v)) ?I" for m
      using forget ours by (cases "still_ours (InstallationID w) b m") (simp_all only: if_True if_False not_False_eq_True not_True_eq_False)
  qed
qed

lemma cleanAbandonedUpload_safe:
  assumes "b \<in> S" and T: "\<And>x. x \<in> T \<Longrightarrow> x \<in> S \<and> BB_ManifestKey x \<noteq> BB_ManifestKey b"
  shows "triple (\<lambda>v. safe iid target v \<and> recorded target S (wdb v)) (cleanAbandonedUpload client target cutoff b)
    (\<lambda>_ v. safe iid target v \<and> recorded target T (wdb v)) (safe iid target)"
proof -
  let ?I = "safe iid target" and ?dir = "take (length (BB_ManifestKey b) - length (''/'' @ ManifestFile)) (BB_ManifestKey b)"
  have weaken: "triple (\<lambda>v. ?I v \<and> recorded target S (wdb v)) (ret ()) (\<lambda>_ v. ?I v \<and> recorded target T (wdb v)) ?I"
    by (rule triple_ret) (use T in \<open>auto intro: recorded_mono\<close>)
  have look: "triple (\<lambda>v. ?I v \<and> recorded target S (wdb v)) (on_db (AbandonedUploadKey target ?dir cutoff))
      (\<lambda>ours v. ?I v \<and> recorded target S (wdb v) \<and> (ours \<and> BB_State b = StateArchiveOnly \<longrightarrow> abandoned target (BB_ArchiveKey b) (wdb v))) ?I"
    unfolding AbandonedUploadKey_def
  proof (rule triple_query)
    fix v :: "'x world" assume pre: "?I v \<and> recorded target S (wdb v)"
    then obtain r where r: "r \<in> set (bucket_backups (wdb v))" "bkt_storage_target r = target" "b = scanBucketBackup r"
      using assms(1) by (auto simp: recorded_def)
    let ?Q = "\<lambda>j. job_kind j = ''backup'' \<and> job_target_storage j = target \<and> job_target_key j = ?dir \<and>
        (job_state j = ''failed'' \<or> job_state j = ''interrupted'') \<and>
        (case job_finished_at j of None \<Rightarrow> False | Some at \<Rightarrow> at > 0 \<and> at < unix cutoff)"
    have "abandoned target (BB_ArchiveKey b) (wdb v)"
      if some: "0 < count_where ?Q (jobs (wdb v))" and arch: "BB_State b = StateArchiveOnly"
    proof -
      obtain j where "j \<in> set (jobs (wdb v))" "?Q j"
        using some unfolding count_where_pos by blast
      then have "list_ex (claims target r) (jobs (wdb v))"
        using r by (auto simp: claims_def list_ex_iff scanBucketBackup_def intro!: bexI [of _ j])
      then show ?thesis using r arch
        by (auto simp: abandoned_def list_ex_iff [of _ "bucket_backups (wdb v)"] scanBucketBackup_def intro!: bexI [of _ r])
    qed
    then show "?I v \<and> recorded target S (wdb v) \<and>
        (0 < count_where ?Q (jobs (wdb v)) \<and> BB_State b = StateArchiveOnly \<longrightarrow> abandoned target (BB_ArchiveKey b) (wdb v))"
      using pre by blast
  qed simp
  have remove: "triple (\<lambda>v. ?I v \<and> recorded target S (wdb v) \<and> abandoned target (BB_ArchiveKey b) (wdb v))
      (then_tx (remove_object client (BB_ArchiveKey b)) (on_db (ForgetBucketBackup target (BB_ManifestKey b))))
      (\<lambda>_ v. ?I v \<and> recorded target T (wdb v)) ?I"
    unfolding remove_object_def bucket_ops
    by (rule triple_then [OF triple_call [where Q = "\<lambda>_ v. ?I v \<and> recorded target S (wdb v)"] triple_exec])
      (auto simp: safe_def bucket_keyed_drop intro: recorded_drop [OF _ T])
  have ours: "triple (\<lambda>v. ?I v \<and> recorded target S (wdb v) \<and> (ours \<and> BB_State b = StateArchiveOnly \<longrightarrow> abandoned target (BB_ArchiveKey b) (wdb v)))
      (if \<not> ours then ret () else then_tx (remove_object client (BB_ArchiveKey b)) (on_db (ForgetBucketBackup target (BB_ManifestKey b))))
      (\<lambda>_ v. ?I v \<and> recorded target T (wdb v)) ?I" if "BB_State b = StateArchiveOnly" for ours
    using that triple_conseq [OF weaken] triple_conseq [OF remove] by (cases ours) auto
  show ?thesis
    unfolding cleanAbandonedUpload_def Let_def
    by (intro triple_ifI weaken triple_throw triple_bind [OF look] ours) blast+
qed

lemma for_each_safe:
  assumes "\<And>b S T. b \<in> S \<Longrightarrow> (\<And>x. x \<in> T \<Longrightarrow> x \<in> S \<and> BB_ManifestKey x \<noteq> BB_ManifestKey b) \<Longrightarrow> G b \<Longrightarrow>
      triple (\<lambda>v. safe iid target v \<and> recorded target S (wdb v)) (f b)
        (\<lambda>_ v. safe iid target v \<and> recorded target T (wdb v)) (safe iid target)"
    and "distinct (map BB_ManifestKey (xs @ ks))" and "list_all G xs"
  shows "triple (\<lambda>v. safe iid target v \<and> recorded target (set (xs @ ks)) (wdb v)) (for_each f xs)
    (\<lambda>_ v. safe iid target v \<and> recorded target (set ks) (wdb v)) (safe iid target)"
  using assms(2,3)
proof (induction xs)
  case (Cons b xs)
  show ?case unfolding for_each.simps
    by (rule triple_then [OF assms(1) Cons.IH]) (use Cons.prems in \<open>auto intro: rev_image_eqI\<close>)
qed (simp add: triple_ret)

lemma distinct_filters:
  assumes "distinct (map f bs)" "\<And>b. P b \<Longrightarrow> \<not> Q b"
  shows "distinct (map f (filter P bs @ filter Q bs))"
  using assms by (induction bs) auto

lemma half_deleted_recorded:
  "recorded target S d \<Longrightarrow> b \<in> S \<Longrightarrow> half_deleted b \<Longrightarrow> half_removed target (BB_ArchiveKey b) d"
  by (force simp: recorded_def half_deleted_def half_removed_def in_deletion_def list_ex_iff scanBucketBackup_def)

lemma finishDelete_loop_safe:
  assumes "b \<in> S" "\<And>x. x \<in> T \<Longrightarrow> x \<in> S \<and> BB_ManifestKey x \<noteq> BB_ManifestKey b" "half_deleted b"
  shows "triple (\<lambda>v. safe iid target v \<and> recorded target S (wdb v)) (finishDelete client target b)
    (\<lambda>_ v. safe iid target v \<and> recorded target T (wdb v)) (safe iid target)"
  by (rule triple_conseq [OF finishDelete_safe [OF assms(2)]]) (use assms in \<open>auto intro: half_deleted_recorded\<close>)

definition eligible :: "BucketBackup \<Rightarrow> bool" where
  "eligible b \<longleftrightarrow> BB_State b = StateArchiveOnly \<and> \<not> BB_DeleteStartedAt b > 0"

lemma clean_loop_safe:
  assumes "distinct (map BB_ManifestKey xs)"
  shows "triple (\<lambda>v. safe iid target v \<and> recorded target (set (filter eligible xs)) (wdb v))
    (for_each (cleanAbandonedUpload client target cutoff) xs) (\<lambda>_. safe iid target) (safe iid target)"
  using assms
proof (induction xs)
  case (Cons b xs)
  have "triple (\<lambda>v. safe iid target v \<and> recorded target (set (filter eligible (b # xs))) (wdb v))
      (cleanAbandonedUpload client target cutoff b)
      (\<lambda>_ v. safe iid target v \<and> recorded target (set (filter eligible xs)) (wdb v)) (safe iid target)"
  proof (cases "eligible b")
    case True
    then show ?thesis
      by (intro cleanAbandonedUpload_safe) (use Cons.prems in \<open>auto intro: rev_image_eqI\<close>)
  next
    case False
    then have "cleanAbandonedUpload client target cutoff b = ret ()"
      by (auto simp: cleanAbandonedUpload_def eligible_def)
    then show ?thesis using False by (simp add: triple_ret)
  qed
  then show ?case unfolding for_each.simps
    by (rule triple_then) (use Cons in simp)
qed (auto intro: triple_ret)

lemma selectExpired_filter:
  obtains P where "selectExpired bs policy at = filter P bs" "\<And>b. P b \<Longrightarrow> BB_State b = StateComplete"
proof (cases "filter (\<lambda>b. BB_State b = StateComplete) bs")
  case Nil
  then have "selectExpired bs policy at = filter (\<lambda>_. False) bs" by (simp add: selectExpired_def)
  then show ?thesis by (rule that) simp
next
  case (Cons newest rest)
  let ?s = "fold (weigh policy at) (newest # rest) \<lparr>keep = [BB_ManifestKey newest], days = [], weeks = []\<rparr>"
  have "selectExpired bs policy at = filter (\<lambda>b. BB_State b = StateComplete \<and> BB_ManifestKey b \<notin> set (keep ?s)) bs"
    unfolding selectExpired_def Let_def by (simp only: Cons list.case) (simp only: Cons [symmetric] filter_filter)
  then show ?thesis by (rule that) simp
qed

lemma retainDatabase_safe:
  assumes "clock_set w"
  shows "keeps (safe (InstallationID w) target) (retainDatabase w client target dbName policy)"
proof -
  let ?I = "safe (InstallationID w) target"
  let ?got = "\<lambda>bs v. ?I v \<and> recorded target (set bs) (wdb v) \<and> distinct (map BB_ManifestKey bs)"
  have rows: "triple ?I (on_db (PrefixBackups target dbName)) ?got ?I"
    unfolding PrefixBackups_def
  proof (rule triple_query)
    fix v :: "'x world" assume i: "?I v"
    let ?rows = "filter (\<lambda>r. bkt_storage_target r = target \<and> bkt_db_name r = dbName) (bucket_backups (wdb v))"
    have "distinct (map bucket_key ?rows)" using i by (simp add: safe_def bucket_keyed_def distinct_map_filter)
    then have "distinct (map bkt_manifest_key (newest_first ?rows))"
      by (auto simp: newest_first_def distinct_map inj_on_def bucket_key_def)
    then show "?got (map scanBucketBackup (newest_first ?rows)) v"
      using i by (auto simp: recorded_def newest_first_def scanBucketBackup_def comp_def)
  qed simp
  have half: "triple (?got bs) (for_each (finishDelete client target) (filter half_deleted bs))
      (\<lambda>_ v. ?I v \<and> recorded target (set (filter (\<lambda>b. \<not> half_deleted b) bs)) (wdb v)) ?I"
    if "distinct (map BB_ManifestKey bs)" for bs
    by (rule triple_conseq [OF for_each_safe [where G = half_deleted and ks = "filter (\<lambda>b. \<not> half_deleted b) bs"]])
      (use that distinct_filters [OF that, of half_deleted "\<lambda>b. \<not> half_deleted b"] in
        \<open>auto simp: list_all_iff intro: finishDelete_loop_safe elim: recorded_mono\<close>)
  have expired: "triple (\<lambda>v. ?I v \<and> recorded target (set (filter (\<lambda>b. \<not> half_deleted b) bs)) (wdb v))
      (for_each (deleteBackup w client target) (selectExpired bs policy at))
      (\<lambda>_ v. ?I v \<and> recorded target (set (filter eligible bs)) (wdb v)) ?I"
    if "distinct (map BB_ManifestKey bs)" for bs at
  proof -
    obtain P where P: "selectExpired bs policy at = filter P bs" "\<And>b. P b \<Longrightarrow> BB_State b = StateComplete"
      using selectExpired_filter by blast
    have sub: "set (filter P bs @ filter eligible bs) \<subseteq> set (filter (\<lambda>b. \<not> half_deleted b) bs)"
      using P(2) by (auto simp: half_deleted_def eligible_def StateComplete_def StateArchiveOnly_def)
    have "distinct (map BB_ManifestKey (filter P bs @ filter eligible bs))"
      by (rule distinct_filters [OF that]) (use P(2) in \<open>auto simp: eligible_def StateComplete_def StateArchiveOnly_def\<close>)
    then have "triple (\<lambda>v. ?I v \<and> recorded target (set (filter P bs @ filter eligible bs)) (wdb v))
        (for_each (deleteBackup w client target) (filter P bs))
        (\<lambda>_ v. ?I v \<and> recorded target (set (filter eligible bs)) (wdb v)) ?I"
      by (intro for_each_safe [where G = "\<lambda>_. True"] deleteBackup_safe [OF assms]) (auto simp: list_all_iff)
    then show ?thesis unfolding P(1)
      by (rule triple_conseq) (use sub recorded_mono in blast)+
  qed
  have clean: "triple (\<lambda>v. ?I v \<and> recorded target (set (filter eligible bs)) (wdb v))
      (cleanAbandonedUploads w client target bs) (\<lambda>_. ?I) ?I"
    if "distinct (map BB_ManifestKey bs)" for bs
    unfolding cleanAbandonedUploads_def
    by (rule triple_bind [OF triple_now [OF assms] clean_loop_safe [OF that]]) (auto simp: safe_def)
  have clock: "triple (\<lambda>v. ?I v \<and> recorded target (set (filter (\<lambda>b. \<not> half_deleted b) bs)) (wdb v)) (now w)
      (\<lambda>_ v. ?I v \<and> recorded target (set (filter (\<lambda>b. \<not> half_deleted b) bs)) (wdb v)) ?I" for bs
    by (rule triple_now [OF assms]) (auto simp: safe_def)
  have rest: "triple (?got bs)
      (then_tx (for_each (finishDelete client target) (filter half_deleted bs))
       (if blockedByForeignContent bs (InstallationID w) \<noteq> '''' then ret ()
        else bind_tx (now w) (\<lambda>at. then_tx (for_each (deleteBackup w client target) (selectExpired bs policy at))
          (cleanAbandonedUploads w client target bs)))) (\<lambda>_. ?I) ?I" for bs
  proof (cases "distinct (map BB_ManifestKey bs)")
    case True
    show ?thesis
      by (intro triple_then [OF half [OF True]] triple_ifI
          triple_bind [OF clock triple_then [OF expired [OF True] clean [OF True]]] triple_ret) blast
  qed (simp add: triple_def)
  show ?thesis unfolding triple_keeps retainDatabase_def by (rule triple_bind [OF rows rest])
qed

lemma keeps_on_db_safe: "keeps bucket_keyed m \<Longrightarrow> keeps (safe iid target) (on_db m)"
  by (rule keepsI) (auto simp: returns_iff fails_iff on_db_Inr on_db_Inl safe_def dest: keepsD_eq)

lemma keeps_unlogged_safe: "keeps (safe iid target) (call_out unlogged f)"
  unfolding keeps_def safe_def by (auto simp: call_out_def unlogged_def leaves_def split: prod.splits)

lemma keeps_read_manifest_safe: "keeps (safe iid target) (read_manifest client k)"
  unfolding keeps_def safe_def read_manifest_def by (auto simp: call_out_def leaves_def split: prod.splits)

lemma keeps_now_safe: "keeps (safe iid target) (now w)"
  unfolding now_def observe_def by (rule keeps_unlogged_safe)

lemma bucket_keyed_put: "bucket_keyed d \<Longrightarrow> bucket_keyed (bucket_backups_update (put_backup target at b) d)"
  unfolding bucket_keyed_def put_backup_def
  by (simp, rule distinct_map_upsert) (auto simp: bucket_key_def bucket_row_of_def)

lemma keeps_ReplacePrefix: "keeps bucket_keyed (ReplacePrefix target state bs at)"
  unfolding ReplacePrefix_def Let_def
  by (intro tx_keeps) (auto simp: bucket_keyed_drop bucket_keyed_put, simp add: bucket_keyed_def)

lemmas keeps_safe = keeps_on_db_safe keeps_unlogged_safe keeps_read_manifest_safe keeps_now_safe

lemma keeps_map_tx [tx_keeps]: "(\<And>y. keeps I (f y)) \<Longrightarrow> keeps I (map_tx f ys)"
  by (induction ys) (auto intro!: keeps_bind keeps_ret)

lemma reconcilePrefix_safe: "keeps (safe iid target) (reconcilePrefix w client target' dbName)"
  unfolding reconcilePrefix_def record_entry_def read_owner_def Let_def
  by (intro keeps_bind keeps_safe keeps_map_tx keeps_if keeps_option keeps_ret keeps_attempt keeps_ReplacePrefix)
    (auto simp: PrefixBackups_def intro: tx_keeps)

lemma Policy_safe: "keeps (safe iid target) Policy"
  unfolding Policy_def get_BackupPolicy_def
  by (intro keeps_bind keeps_attempt keeps_safe keeps_query) (auto split: sum.splits intro: keeps_ret)

lemma reconcile_failed_safe: "keeps (safe iid target) (reconcile_failed w target' e)"
  unfolding reconcile_failed_def SetTargetReconciled_def
  by (intro keeps_bind keeps_then keeps_attempt keeps_safe keeps_throw tx_keeps) (simp_all add: bucket_keyed_def)

lemma reconciled_fully_safe:
  assumes "clock_set w"
  shows "keeps (safe (InstallationID w) (Target st)) (reconciled_fully w client st databases)"
  unfolding reconciled_fully_def retain_def pruneHistory_def ForgetLostLocalBackups_def Maintenance_def PruneJobs_def
  by (intro keeps_bind keeps_then keeps_attempt keeps_result keeps_if keeps_ret keeps_safe keeps_for_each
      keeps_maintenance keeps_exec_affected Policy_safe retainDatabase_safe [OF assms])
    (simp_all add: bucket_keyed_def)

lemma reconcile_databases_safe:
  assumes "clock_set w"
  shows "keeps (safe (InstallationID w) (Target st)) (reconcile_databases w client st databases)"
  unfolding reconcile_databases_def TombstonePrefixes_def SetTargetReconciled_def
  by (intro keeps_bind keeps_then keeps_safe keeps_query keeps_for_each keeps_ReplacePrefix keeps_for_all_errors
      reconcilePrefix_safe keeps_option reconciled_fully_safe [OF assms] reconcile_failed_safe keeps_if keeps_exec)
    (simp_all add: bucket_keyed_def)

lemma reconcile_safe:
  assumes "clock_set w"
  shows "keeps (safe (InstallationID w) (Target st)) (reconcile w client st)"
  unfolding reconcile_def ActivateStorageTarget_def
  by (intro keeps_bind keeps_then keeps_attempt keeps_result keeps_safe reconcile_failed_safe
      reconcile_databases_safe [OF assms] keeps_transact_body keeps_exec)
    (simp_all add: bucket_keyed_def)

text \<open>
  C2. Nothing is deleted from a bucket without proof that it is ours. Start from an empty log and a
  cache whose rows have distinct keys; whatever the provider answers, whichever statement fails and
  wherever a pass stops, every removal the worker asked for had its grounds in the database at that
  very moment. A manifest is removed only right after it was read and found to name this installation,
  its own key and the recorded archive, and with the intent already recorded; an archive only while its row is
  archive-only and either carries that mark or belongs to a failed or interrupted backup job of this
  installation.
\<close>

theorem removals_are_grounded:
  assumes "clock_set w" "bucket_keyed (wdb v)" "calls v = []"
  shows "grounded (InstallationID w) (Target st) (calls (leaves (reconcile w client st) (v, fs)))"
  using keepsD [OF reconcile_safe [OF assms(1)], of st "(v, fs)" client] assms(2,3) by (simp add: safe_def)

definition quiet_store :: "unit objectStore" where
  "quiet_store = \<lparr>os_ListDatabases = io_ret [''shop''], os_ListBackups = (\<lambda>_. io_ret []),
     os_Manifest = (\<lambda>_. io_throw (EExternal ''gone'')), os_Remove = (\<lambda>_. io_ret ()), os_Protection = io_ret VersioningEnabled\<rparr>"

definition sample_worker :: "unit Worker" where
  "sample_worker = \<lparr>InstallationID = ''i'', Now = (\<lambda>_. (from_unix 1300000, ())), Error_text = (\<lambda>_. ''failed''),
     Vault_Open = (\<lambda>_ s. Some s), Unmarshal_settings = (\<lambda>_. Inl (EMsg ''no'')), New_store = (\<lambda>_. Inr quiet_store)\<rparr>"

definition sample_settings :: Settings where
  "sample_settings = \<lparr>Endpoint = ''https://s3.example'', Region = '''', Bucket = ''b'', Prefix = ''p'', AccessKey = ''a'',
     SecretKey = ''s'', SessionToken = '''', PathStyle = False, PrivateEndpoint = False,
     BucketProtection = ''versioning'', ProtectionState = '''', ProtectionCheckedAt = 0\<rparr>"

definition sample_world :: "unit world" where
  "sample_world = \<lparr>wdb = cached, outside = (), calls = [], files = (\<lambda>_. None)\<rparr>"

lemma removals_are_grounded_witness:
  "grounded ''i'' (Target sample_settings)
     (calls (leaves (reconcile sample_worker quiet_store sample_settings) (sample_world, [False, False, True])))"
proof -
  have "clock_set sample_worker" by (simp add: clock_set_def sample_worker_def unix_def from_unix_def)
  moreover have "bucket_keyed (wdb sample_world)" "calls sample_world = []"
    by (simp_all add: sample_world_def cached_def bucket_keyed_def sample_backup_def)
  ultimately show ?thesis
    using removals_are_grounded [of sample_worker sample_world sample_settings quiet_store]
    by (simp add: sample_worker_def)
qed

section \<open>An incomplete listing\<close>

definition removals :: "call list \<Rightarrow> string list" where
  "removals log = concat (map (\<lambda>c. case c of Removed k _ \<Rightarrow> [k] | _ \<Rightarrow> []) log)"

definition reconciled_of :: "string \<Rightarrow> db \<Rightarrow> int" where
  "reconciled_of t d = (case find (\<lambda>r. tgt_storage_target r = t) (bucket_targets d) of None \<Rightarrow> 0 | Some r \<Rightarrow> tgt_reconciled_at r)"

definition speaks :: "'x Worker \<Rightarrow> bool" where
  "speaks w \<longleftrightarrow> (\<forall>e. Error_text w e \<noteq> '''')"

text \<open>Only the cache of the bucket has changed since \<open>d\<close>: not what is known to be complete, nor the history.\<close>

definition cache_only :: "db \<Rightarrow> db \<Rightarrow> bool" where
  "cache_only d d' \<longleftrightarrow> jobs d' = jobs d \<and> backups d' = backups d \<and> metadata d' = metadata d \<and>
     (\<forall>t. reconciled_of t d' = reconciled_of t d)"

definition looking :: "db \<Rightarrow> 'x world \<Rightarrow> bool" where
  "looking d w \<longleftrightarrow> removals (calls w) = [] \<and> cache_only d (wdb w)"

lemma keeps_on_db_looking: "keeps (cache_only d) m \<Longrightarrow> keeps (looking d) (on_db m)"
  by (rule keepsI) (auto simp: returns_iff fails_iff on_db_Inr on_db_Inl looking_def dest: keepsD_eq)

lemma keeps_unlogged_looking: "keeps (looking d) (call_out unlogged f)"
  unfolding keeps_def looking_def by (auto simp: call_out_def unlogged_def leaves_def split: prod.splits)

lemma keeps_read_manifest_looking: "keeps (looking d) (read_manifest client k)"
  unfolding keeps_def looking_def read_manifest_def removals_def by (auto simp: call_out_def leaves_def split: prod.splits)

lemma keeps_now_looking: "keeps (looking d) (now w)"
  unfolding now_def observe_def by (rule keeps_unlogged_looking)

lemmas keeps_looking = keeps_on_db_looking keeps_unlogged_looking keeps_read_manifest_looking keeps_now_looking

lemma cache_only_bucket: "cache_only d (bucket_backups_update f d') = cache_only d d'"
  "cache_only d (bucket_prefixes_update g d') = cache_only d d'"
  by (simp_all add: cache_only_def reconciled_of_def)

lemma keeps_ReplacePrefix_cache: "keeps (cache_only d) (ReplacePrefix target state bs at)"
  unfolding ReplacePrefix_def Let_def by (intro tx_keeps) (simp_all add: cache_only_bucket)

lemma reconcilePrefix_looking: "keeps (looking d) (reconcilePrefix w client target dbName)"
  unfolding reconcilePrefix_def record_entry_def read_owner_def Let_def
  by (intro keeps_bind keeps_looking keeps_map_tx keeps_if keeps_option keeps_ret keeps_attempt keeps_ReplacePrefix_cache)
    (auto simp: PrefixBackups_def intro: tx_keeps)

lemma cache_only_targets:
  assumes "cache_only d d'" "\<And>t. reconciled_of t (bucket_targets_update f d') = reconciled_of t d'"
  shows "cache_only d (bucket_targets_update f d')"
  using assms by (simp add: cache_only_def)

lemma reconciled_of_update_where:
  assumes "\<And>r. tgt_storage_target (f r) = tgt_storage_target r" "\<And>r. tgt_reconciled_at (f r) = tgt_reconciled_at r"
  shows "reconciled_of t (bucket_targets_update (update_where P f) d) = reconciled_of t d"
  using assms by (auto simp: reconciled_of_def find_update_where split: option.splits)

lemma reconciled_of_ensure: "reconciled_of t (bucket_targets_update (ensure_target target) d) = reconciled_of t d"
  by (auto simp: reconciled_of_def ensure_target_def find_append split: option.splits)

lemma reconciled_of_put: "reconciled_of t (bucket_targets_update (put_target tg) d) = reconciled_of t d"
  unfolding reconciled_of_def put_target_def
  by simp (subst find_upsert [of _ tgt_storage_target "StorageTarget_Target tg"], auto split: option.splits)

lemma SetTargetReconciled_error:
  assumes "reason \<noteq> ''''"
  shows "keeps (cache_only d) (SetTargetReconciled target at reason)"
proof -
  have "SetTargetReconciled target at reason = then_tx (exec (bucket_targets_update (ensure_target target)))
      (exec (bucket_targets_update (update_where (\<lambda>r. tgt_storage_target r = target) (\<lambda>r. r\<lparr>tgt_last_error := reason\<rparr>))))"
    using assms by (simp add: SetTargetReconciled_def)
  then show ?thesis
    by (simp only:) (intro keeps_then keeps_exec cache_only_targets reconciled_of_ensure reconciled_of_update_where; simp)
qed

lemma reconcile_failed_looking:
  assumes "speaks w"
  shows "keeps (looking d) (reconcile_failed w target e)"
  unfolding reconcile_failed_def
  by (intro keeps_bind keeps_then keeps_attempt keeps_looking keeps_throw SetTargetReconciled_error)
    (use assms in \<open>simp add: speaks_def\<close>)

lemma reconcile_failed_fails: "triple P (reconcile_failed w target e) (\<lambda>_ _. False) (\<lambda>_. True)"
  by (rule tripleI) (auto simp: reconcile_failed_def tx_simps)

text \<open>What follows a complete view never reports an error: each of its parts only logs.\<close>

lemma reconciled_fully_never_fails: "never_fails (reconciled_fully w client st databases)"
  unfolding reconciled_fully_def retain_def pruneHistory_def Policy_def now_def by (intro never_fails_rules)

lemma keeps_TombstonePrefixes_cache: "keeps (cache_only d) (TombstonePrefixes target present at)"
  unfolding TombstonePrefixes_def by (intro keeps_bind keeps_query keeps_for_each keeps_ReplacePrefix_cache)

lemma keeps_Activate_cache: "keeps (cache_only d) (ActivateStorageTarget tg)"
  unfolding ActivateStorageTarget_def
  by (intro keeps_transact_body keeps_then keeps_exec cache_only_targets reconciled_of_put reconciled_of_update_where; simp)

lemma SetTargetReconciled_looking:
  "triple (looking d) (on_db (SetTargetReconciled target at reason)) (\<lambda>_ _. True) (looking d)"
proof -
  have "triple (cache_only d) (SetTargetReconciled target at reason) (\<lambda>_ _. True) (cache_only d)"
    unfolding SetTargetReconciled_def
  proof (rule triple_then)
    show "triple (cache_only d) (exec (bucket_targets_update (ensure_target target))) (\<lambda>_. cache_only d) (cache_only d)"
      unfolding triple_keeps [symmetric] by (intro keeps_exec cache_only_targets reconciled_of_ensure)
    have "triple (cache_only d) (exec u) (\<lambda>_ _. True) (cache_only d)" for u
    proof (rule tripleI)
      fix s :: "db conn" and e s' assume "cache_only d (fst s)" "exec u s = (Inl e, s')"
      then show "cache_only d (fst s')" using exec_fails [of u s e "fst s'"] by (simp add: fails_def)
    qed simp
    then show "triple (cache_only d) (if reason \<noteq> '''' then exec (bucket_targets_update (update_where
        (\<lambda>r. tgt_storage_target r = target) (\<lambda>r. r\<lparr>tgt_last_error := reason\<rparr>)))
      else exec (bucket_targets_update (update_where (\<lambda>r. tgt_storage_target r = target)
        (\<lambda>r. r\<lparr>tgt_reconciled_at := unix at, tgt_last_error := ''''\<rparr>)))) (\<lambda>_ _. True) (cache_only d)"
      by simp
  qed
  then show ?thesis
    by (intro triple_on_db) (auto simp: looking_def, metis tripleD_Inl fst_conv)
qed

lemma reconcile_error_looking:
  assumes "speaks w"
  shows "triple (looking d) (reconcile w client st) (\<lambda>_ _. True) (looking d)"
proof -
  note clock = keeps_now_looking [unfolded triple_keeps]
  have weak: "triple (looking d) m (\<lambda>_ _. True) (looking d)" if "keeps (looking d) m" for m :: "('x, unit) act"
    using that unfolding triple_keeps by (rule triple_conseq) simp_all
  have fin: "triple (looking d) (then_tx (on_db (SetTargetReconciled (Target st) at '''')) (reconciled_fully w client st dbs))
      (\<lambda>_ _. True) (looking d)" for at dbs
    by (rule triple_then [OF SetTargetReconciled_looking triple_never_fails [OF reconciled_fully_never_fails]])
  have loop: "triple (looking d) (for_all_errors (reconcilePrefix w client (Target st)) dbs None) (\<lambda>_. looking d) (looking d)" for dbs
    unfolding triple_keeps [symmetric] by (intro keeps_for_all_errors reconcilePrefix_looking)
  have after: "triple (looking d) (case failure of Some e \<Rightarrow> reconcile_failed w (Target st) e
      | None \<Rightarrow> bind_tx (now w) (\<lambda>at. then_tx (on_db (SetTargetReconciled (Target st) at '''')) (reconciled_fully w client st dbs)))
      (\<lambda>_ _. True) (looking d)" for failure dbs
    by (cases failure) (auto intro: weak reconcile_failed_looking [OF assms] triple_bind [OF clock fin])
  have dbs: "triple (looking d) (reconcile_databases w client st dbs) (\<lambda>_ _. True) (looking d)" for dbs
    unfolding reconcile_databases_def
    by (intro triple_bind [OF clock] triple_then [OF keeps_on_db_looking [OF keeps_TombstonePrefixes_cache, unfolded triple_keeps]] triple_bind [OF loop] after)
  have listed: "triple (looking d) (case r of Inl e \<Rightarrow> reconcile_failed w (Target st) e
      | Inr databases \<Rightarrow> reconcile_databases w client st databases) (\<lambda>_ _. True) (looking d)" for r
    by (cases r) (auto intro: weak reconcile_failed_looking [OF assms] dbs)
  show ?thesis unfolding reconcile_def
    by (intro triple_then [OF keeps_on_db_looking [OF keeps_Activate_cache, unfolded triple_keeps]]
        triple_bind [OF keeps_attempt [OF keeps_unlogged_looking, unfolded triple_keeps] listed])
qed

text \<open>
  C31. A view that is not complete changes nothing that lasts. When reconciliation ends with an error
  (a failed listing, one unreadable folder, a failed statement), no object was removed, the history of
  jobs and backups is as it was, and no store counts as reconciled later than before. This needs every
  error to have a text: the store takes the empty text for success.
\<close>

theorem incomplete_view_changes_nothing:
  assumes "speaks w" "calls v = []" "fails (reconcile w client st) (v, fs) e v'"
  shows "removals (calls v') = [] \<and> jobs (wdb v') = jobs (wdb v) \<and> backups (wdb v') = backups (wdb v) \<and>
    reconciled_of t (wdb v') = reconciled_of t (wdb v)"
proof -
  have "looking (wdb v) v" using assms(2) by (simp add: looking_def cache_only_def removals_def)
  then have "looking (wdb v) v'"
    using tripleD_Inl [OF reconcile_error_looking [OF assms(1)]] assms(3) by (metis failsE fst_conv)
  then show ?thesis by (simp add: looking_def cache_only_def)
qed

definition failing_store :: "unit objectStore" where
  "failing_store = quiet_store\<lparr>os_ListDatabases := io_throw (EExternal ''down'')\<rparr>"

lemma incomplete_view_changes_nothing_witness:
  "fst (reconcile sample_worker failing_store sample_settings (sample_world, [])) = Inl (EExternal ''down'') \<and>
   removals (calls (leaves (reconcile sample_worker failing_store sample_settings) (sample_world, []))) = [] \<and>
   reconciled_of (Target sample_settings) (wdb (leaves (reconcile sample_worker failing_store sample_settings) (sample_world, []))) = 0"
proof -
  let ?r = "reconcile sample_worker failing_store sample_settings"
  have r: "fst (?r (sample_world, [])) = Inl (EExternal ''down'')"
    by (simp add: reconcile_def ActivateStorageTarget_def reconcile_failed_def on_db_def tx_healthy call_out_def observe_def now_def
        failing_store_def quiet_store_def io_throw_def SetTargetReconciled_def sample_worker_def split: prod.split)
  then have "fails ?r (sample_world, []) (EExternal ''down'') (leaves ?r (sample_world, []))"
    by (simp add: fails_def leaves_def)
  moreover have "speaks sample_worker" "calls sample_world = []"
    by (simp_all add: speaks_def sample_worker_def sample_world_def)
  moreover have "reconciled_of t (wdb sample_world) = 0" for t
    by (simp add: reconciled_of_def sample_world_def cached_def empty_db_def)
  ultimately show ?thesis using incomplete_view_changes_nothing r by metis
qed

section \<open>During an update\<close>

definition untouched :: "db \<Rightarrow> 'x world \<Rightarrow> bool" where
  "untouched d w \<longleftrightarrow> removals (calls w) = [] \<and> jobs (wdb w) = jobs d \<and> metadata (wdb w) = metadata d"

lemma looking_untouched: "looking d w \<Longrightarrow> untouched d w"
  by (simp add: looking_def untouched_def cache_only_def)

lemma keeps_on_db_untouched:
  "keeps (\<lambda>x. jobs x = jobs d \<and> metadata x = metadata d) m \<Longrightarrow> keeps (untouched d) (on_db m)"
  by (rule keepsI) (auto simp: returns_iff fails_iff on_db_Inr on_db_Inl untouched_def dest: keepsD_eq)

lemma keeps_unlogged_untouched: "keeps (untouched d) (call_out unlogged f)"
  unfolding keeps_def untouched_def by (auto simp: call_out_def unlogged_def leaves_def split: prod.splits)

lemma keeps_read_manifest_untouched: "keeps (untouched d) (read_manifest client k)"
  unfolding keeps_def untouched_def read_manifest_def removals_def by (auto simp: call_out_def leaves_def split: prod.splits)

lemma keeps_now_untouched: "keeps (untouched d) (now w)"
  unfolding now_def observe_def by (rule keeps_unlogged_untouched)

lemmas keeps_untouched = keeps_on_db_untouched keeps_unlogged_untouched keeps_read_manifest_untouched keeps_now_untouched

lemma keeps_ReplacePrefix_untouched: "keeps (\<lambda>x. jobs x = jobs d \<and> metadata x = metadata d) (ReplacePrefix target state bs at)"
  unfolding ReplacePrefix_def Let_def by (intro tx_keeps) simp_all

lemma reconciled_fully_untouched:
  assumes "\<not> maintenanceGuard d"
  shows "keeps (untouched d) (reconciled_fully w client st databases)"
proof -
  have ask: "triple (untouched d) (attempt (on_db Maintenance)) (\<lambda>r v. untouched d v \<and> r \<noteq> Inr False) (untouched d)"
    unfolding Maintenance_def maintenance_def
    by (rule triple_attempt, rule triple_query) (use assms in \<open>auto simp: untouched_def maintenanceGuard_def\<close>)
  have forget: "triple (untouched d) (attempt (on_db (ForgetLostLocalBackups (Target st)))) (\<lambda>_. untouched d) (untouched d)"
    unfolding triple_keeps [symmetric] ForgetLostLocalBackups_def
    by (intro keeps_attempt keeps_untouched keeps_exec_affected) simp
  have rest: "triple (\<lambda>v. untouched d v \<and> r \<noteq> Inr False) (case r of Inl _ \<Rightarrow> ret ()
      | Inr on \<Rightarrow> if on then ret () else then_tx (retain w client st databases) (pruneHistory w)) (\<lambda>_. untouched d) (untouched d)" for r
  proof (cases "r = Inr False")
    case False
    then show ?thesis by (cases r) (auto intro: triple_ret)
  qed (simp add: triple_def)
  show ?thesis unfolding triple_keeps reconciled_fully_def
    by (rule triple_then [OF forget triple_bind [OF ask rest]])
qed

lemma reconcile_untouched:
  assumes "\<not> maintenanceGuard d"
  shows "keeps (untouched d) (reconcile w client st)"
  unfolding reconcile_def ActivateStorageTarget_def reconcile_databases_def reconcile_failed_def TombstonePrefixes_def
    SetTargetReconciled_def reconcilePrefix_def record_entry_def read_owner_def PrefixBackups_def Let_def
  by (intro keeps_bind keeps_then keeps_attempt keeps_result keeps_untouched keeps_ret keeps_throw keeps_if keeps_option
      keeps_map_tx keeps_for_each keeps_for_all_errors keeps_query keeps_ReplacePrefix_untouched keeps_transact_body keeps_exec
      reconciled_fully_untouched [OF assms]; simp)

text \<open>
  C32. While an update is under way the bucket is only read: a whole reconciliation, however it ends,
  removes no object and prunes no job, so a rollback finds everything the release being tried was given.
\<close>

theorem update_only_reads:
  assumes "\<not> maintenanceGuard (wdb v)" "calls v = []"
  shows "removals (calls (leaves (reconcile w client st) (v, fs))) = [] \<and>
    jobs (wdb (leaves (reconcile w client st) (v, fs))) = jobs (wdb v)"
  using keepsD [OF reconcile_untouched [OF assms(1)], of "(v, fs)" w client st] assms(2)
  by (simp add: untouched_def removals_def)

lemma update_only_reads_witness:
  "removals (calls (leaves (reconcile sample_worker quiet_store sample_settings)
     (sample_world\<lparr>wdb := cached\<lparr>metadata := [(''maintenance'', ''1'')]\<rparr>\<rparr>, []))) = []"
  by (rule conjunct1, rule update_only_reads) (simp_all add: maintenanceGuard_def sample_world_def)

section \<open>A complete listing\<close>

definition follows :: "string \<Rightarrow> Entry \<Rightarrow> BucketBackup \<Rightarrow> bool" where
  "follows dbName e b \<longleftrightarrow> BB_ManifestKey b = Entry_ManifestKey e \<and> BB_ArchiveKey b = Entry_ArchiveKey e \<and>
     BB_DBName b = dbName \<and> BB_TakenAt b = unix (Entry_TakenAt e) \<and> BB_SizeBytes b = Entry_SizeBytes e \<and>
     (BB_State b = Entry_State e \<or>
      BB_State b = StateDamaged \<and> Entry_State e \<in> {StateComplete, StateManifestOnly})"

lemma record_entry_follows:
  assumes "record_entry client dbName rec e s = (Inr b, s')"
  shows "follows dbName e b \<and> wdb (fst s') = wdb (fst s)"
proof -
  have base: "follows dbName e (backup_of_entry dbName e)" "follows dbName e (owned_as p (backup_of_entry dbName e))" for p
    by (simp_all add: follows_def backup_of_entry_def owned_as_def)
  have read: "follows dbName e b' \<and> wdb (fst s'') = wdb (fst s)"
    if "read_owner client e (backup_of_entry dbName e) s = (Inr b', s'')" "Entry_State e \<in> {StateComplete, StateManifestOnly}" for b' s''
  proof -
    from that(1) obtain r where r: "attempt (read_manifest client (Entry_ManifestKey e)) s = (Inr r, s'')"
      and b': "b' = (case r of Inl _ \<Rightarrow> (backup_of_entry dbName e)\<lparr>BB_State := StateDamaged\<rparr>
        | Inr m \<Rightarrow> if CheckManifest m e \<noteq> None then (backup_of_entry dbName e)\<lparr>BB_State := StateDamaged\<rparr>
            else (backup_of_entry dbName e)\<lparr>BB_InstallationID := Manifest_InstallationID m, BB_ProjectID := Manifest_ProjectID m,
              BB_ProjectName := Manifest_ProjectName m, BB_PostgresVersion := Manifest_PostgresVersion m,
              BB_TableCount := int (length (Manifest_Tables m))\<rparr>)"
      by (auto simp: read_owner_def bind_Inr ret_Inr)
    have "wdb (fst s'') = wdb (fst s)"
      using r by (auto simp: attempt_def read_manifest_def call_out_def split: prod.splits)
    moreover have "follows dbName e b'"
      using that(2) unfolding b' by (cases r) (simp_all add: follows_def backup_of_entry_def)
    ultimately show ?thesis by simp
  qed
  show ?thesis
  proof (cases "read_owner client e (backup_of_entry dbName e) s = (Inr b, s') \<and> Entry_State e \<in> {StateComplete, StateManifestOnly}")
    case True
    then show ?thesis using read by blast
  next
    case False
    then show ?thesis using assms base by (auto simp: record_entry_def Let_def tx_simps split: if_splits option.splits)
  qed
qed

lemma map_tx_follows:
  assumes "map_tx (record_entry client dbName rec) es s = (Inr bs, s')"
  shows "list_all2 (follows dbName) es bs \<and> wdb (fst s') = wdb (fst s)"
  using assms
proof (induction es arbitrary: bs s)
  case (Cons e es)
  from Cons.prems obtain b s1 bs1 where e: "record_entry client dbName rec e s = (Inr b, s1)"
    and es: "map_tx (record_entry client dbName rec) es s1 = (Inr bs1, s')" and bs: "bs = b # bs1"
    by (auto simp: bind_Inr ret_Inr)
  show ?case using record_entry_follows [OF e] Cons.IH [OF es] by (simp add: bs)
qed (simp add: tx_simps)

lemma prefix_state_db: "PS_DBName (prefix_state dbName bs) = dbName"
proof -
  have "PS_DBName (fold count_state bs s) = PS_DBName s" for s
    by (induction bs arbitrary: s) (simp_all add: count_state_def)
  then show ?thesis by (simp add: prefix_state_def empty_prefix_def)
qed

context backup_store
begin

lemma reconcilePrefix_records:
  assumes "bucket_keyed (wdb v)" "returns (reconcilePrefix w cl target dbName) (v, fs) u v'"
  obtains es x bs at where "os_ListBackups cl dbName (outside v) = (Inr es, x)" "list_all2 (follows dbName) es bs"
    "\<And>k. bucket_lookup target k (wdb v') =
       (case find (\<lambda>b. BB_ManifestKey b = k) bs of
          Some b \<Rightarrow> Some (bucket_row_of target b at (carried b (bucket_lookup target k (wdb v))))
        | None \<Rightarrow> (case bucket_lookup target k (wdb v) of
            None \<Rightarrow> None | Some r \<Rightarrow> if bkt_db_name r = dbName then None else Some r))"
proof -
  obtain s' where run: "reconcilePrefix w cl target dbName (v, fs) = (Inr u, (v', s'))" using assms(2) by (rule returnsE)
  then obtain es x rec s1 bs s2 at s3 where list: "os_ListBackups cl dbName (outside v) = (Inr es, x)"
    and rec: "on_db (PrefixBackups target dbName) (v\<lparr>outside := x\<rparr>, fs) = (Inr rec, s1)"
    and bs: "map_tx (record_entry cl dbName rec) es s1 = (Inr bs, s2)"
    and at: "now w s2 = (Inr at, s3)" and rep: "on_db (ReplacePrefix target (prefix_state dbName bs) bs at) s3 = (Inr u, (v', s'))"
    by (auto simp: reconcilePrefix_def bind_Inr call_out_Inr unlogged_def)
  have same: "wdb (fst s3) = wdb v"
    using rec map_tx_follows [OF bs] at by (auto simp: PrefixBackups_def tx_simps now_def)
  have all: "list_all2 (follows dbName) es bs" using map_tx_follows [OF bs] by simp
  then have "map BB_ManifestKey bs = map Entry_ManifestKey es"
    by (induction rule: list_all2_induct) (auto simp: follows_def)
  then have dist: "distinct (map BB_ManifestKey bs)" using listing_distinct [OF list] by simp
  from rep obtain d fs' where "ReplacePrefix target (prefix_state dbName bs) bs at (wdb (fst s3), snd s3) = (Inr u, (d, fs'))"
    "v' = (fst s3)\<lparr>wdb := d\<rparr>" by (auto simp: on_db_Inr)
  then have "returns (ReplacePrefix target (prefix_state dbName bs) bs at) (wdb v, snd s3) u (wdb v')"
    using same by (simp add: returns_def)
  note lookup = ReplacePrefix_lookup [OF assms(1) [unfolded bucket_keyed_def] dist this, of target, unfolded prefix_state_db]
  show thesis by (rule that [OF list all]) (simp add: lookup)
qed

end

lemma reconcilePrefix_fails:
  assumes "fails (reconcilePrefix w client target dbName) (v, fs) e v'"
  shows "wdb v' = wdb v"
proof -
  let ?P = "\<lambda>x. wdb x = wdb v"
  have k: "keeps ?P (record_entry client dbName rec en)" for rec en
    unfolding record_entry_def read_owner_def read_manifest_def Let_def
    by (intro keeps_bind keeps_if keeps_option keeps_ret keeps_attempt keeps_call_of_db [of "\<lambda>d. d = wdb v", unfolded of_db_def])
  have rep: "triple ?P (on_db (ReplacePrefix target state bs at)) (\<lambda>_ _. True) ?P" for state bs at
  proof (rule triple_on_db)
    fix x :: "'x world" and fs e d fs'
    assume "?P x" "ReplacePrefix target state bs at (wdb x, fs) = (Inl e, (d, fs'))"
    then show "?P (x\<lparr>wdb := d\<rparr>)"
      using transact_fails [of _ "(wdb x, fs)" e d] by (auto simp: ReplacePrefix_def fails_iff)
  qed simp
  have "triple ?P (reconcilePrefix w client target dbName) (\<lambda>_ _. True) ?P"
    unfolding reconcilePrefix_def PrefixBackups_def now_def observe_def
    by (rule triple_bind [OF triple_call_db triple_bind [OF triple_query_db triple_bind [OF keeps_map_tx [OF k, unfolded triple_keeps]
          triple_bind [OF triple_call_db rep]]]])
  then show ?thesis using assms tripleD_Inl [of ?P _ _ ?P "(v, fs)"] by (auto simp: fails_iff)
qed


definition sample_minio :: "unit minio" where
  "sample_minio = \<lparr>ListObjects = (\<lambda>_ _ _ x. ([Inr \<lparr>Object_Key = ''p/backups/shop/x/archive.dump'', Object_Size = 3\<rparr>], x)),
     GetObject = (\<lambda>_ _ x. (Inr '''', x)), PutObject = (\<lambda>_ _ _ _ x. (Inr (), x)), FPutObject = (\<lambda>_ _ _ x. (Inr (), x)),
     FGetObject = (\<lambda>_ _ _ x. (Inr (), x)), RemoveObject = (\<lambda>_ _ x. (Inr (), x)), GetBucketVersioning = (\<lambda>_ x. (Inr True, x))\<rparr>"

definition sample_client :: "unit Client" where
  "sample_client = \<lparr>settings_of = sample_settings, mc = sample_minio\<rparr>"


text \<open>
  A partial or failed listing of a folder changes nothing at all in the database, whatever step of
  it failed: the listing, a statement, or the transaction that replaces the folder.
\<close>

theorem reconcilePrefix_error:
  assumes "fails (reconcilePrefix w client target dbName) (v, fs) e v'"
  shows "wdb v' = wdb v"
  using assms by (rule reconcilePrefix_fails)

lemma reconcilePrefix_error_witness:
  "wdb (leaves (reconcilePrefix sample_worker quiet_store ''t'' ''shop'') (sample_world, [False, False, True])) = cached"
proof -
  have "fst (reconcilePrefix sample_worker quiet_store ''t'' ''shop'' (sample_world, [False, False, True])) = Inl EDriver"
    by code_simp
  then have "fails (reconcilePrefix sample_worker quiet_store ''t'' ''shop'') (sample_world, [False, False, True]) EDriver
      (leaves (reconcilePrefix sample_worker quiet_store ''t'' ''shop'') (sample_world, [False, False, True]))"
    by (simp add: fails_def leaves_def)
  from reconcilePrefix_error [OF this] show ?thesis by (simp add: sample_world_def)
qed

end
