(* ===== verification/Provisioning_Safety.thy ===== *)
theory Provisioning_Safety
  imports Provisioning
begin

text \<open>
  What the provisioner guarantees, for every answer of PostgreSQL and every failing statement: each call has
  its reason in the database at that moment and a rotation takes its steps in order; and, when nothing
  fails, that interrupted work is finished.
\<close>

section \<open>Every call has its reason\<close>

text \<open>
  What the provisioner asks of PostgreSQL, judged by the database at the moment of the call: a role and a
  database are made only for a project that is neither failed nor being deleted, the role with the
  project's own password; limits are set only on the role of such a project or of one not being
  deleted; a password is set only after it was recorded as pending; nothing is ever dropped.
\<close>

definition live :: "project_row \<Rightarrow> bool" where
  "live r \<longleftrightarrow> prj_stage r \<noteq> ''deleting'' \<and> prj_failed r = 0"

definition opens :: "'x Provisioner \<Rightarrow> string \<Rightarrow> string \<Rightarrow> string \<Rightarrow> bool" where
  "opens p pid sealed password \<longleftrightarrow> Open p (''project:'' @ pid) sealed = Some password"

definition justified :: "'x Provisioner \<Rightarrow> call \<Rightarrow> bool" where
  "justified p c = (case c of
     RoleEnsured role password d \<Rightarrow> list_ex (\<lambda>r. live r \<and> prj_role_name r = role \<and>
       list_ex (\<lambda>s. sec_project_id s = prj_id r \<and> opens p (prj_id r) (sec_sealed_password s) password) (project_secrets d)) (projects d)
   | DatabaseEnsured name owner d \<Rightarrow>
       list_ex (\<lambda>r. live r \<and> prj_db_name r = name \<and> prj_role_name r = owner) (projects d)
   | LimitsSet role d \<Rightarrow> list_ex (\<lambda>r. prj_stage r \<noteq> ''deleting'' \<and> prj_role_name r = role) (projects d)
   | PasswordSet role password d \<Rightarrow> list_ex (\<lambda>r. prj_role_name r = role \<and>
       list_ex (\<lambda>s. sec_project_id s = prj_id r \<and> (case sec_pending_password_sealed s of
         None \<Rightarrow> False | Some sealed \<Rightarrow> opens p (prj_id r) sealed password)) (project_secrets d)) (projects d)
   | SessionsEnded role d \<Rightarrow> True
   | RulesLoaded content d \<Rightarrow> True
   | _ \<Rightarrow> False)"

definition new_justified :: "'x Provisioner \<Rightarrow> call list \<Rightarrow> call list \<Rightarrow> bool" where
  "new_justified p old cs \<longleftrightarrow> (\<exists>new. cs = new @ old \<and> list_all (justified p) new)"

lemma new_justified_refl: "new_justified p old old"
  by (simp add: new_justified_def)

lemma new_justified_Cons: "justified p c \<Longrightarrow> new_justified p old cs \<Longrightarrow> new_justified p old (c # cs)"
  unfolding new_justified_def by (metis append_Cons list.pred_inject(2))

lemma keeps_ignoring [tx_keeps]: "keeps I m \<Longrightarrow> keeps I (ignoring m)"
  unfolding ignoring_def by (intro tx_keeps)

subsection \<open>Provisioning\<close>

definition provisionable :: "'x Provisioner \<Rightarrow> Project \<Rightarrow> string \<Rightarrow> db \<Rightarrow> bool" where
  "provisionable p project password d \<longleftrightarrow>
     (\<exists>r \<in> set (projects d). live r \<and> prj_id r = Project_ID project \<and> prj_role_name r = Project_RoleName project \<and>
        prj_db_name r = Project_DBName project) \<and>
     (\<exists>s \<in> set (project_secrets d). sec_project_id s = Project_ID project \<and>
        opens p (Project_ID project) (sec_sealed_password s) password)"

lemma provisionable_justified:
  assumes "provisionable p project password d"
  shows "justified p (RoleEnsured (Project_RoleName project) password d)"
    and "justified p (DatabaseEnsured (Project_DBName project) (Project_RoleName project) d)"
    and "justified p (LimitsSet (Project_RoleName project) d)"
  using assms by (fastforce simp: provisionable_def justified_def list_ex_iff live_def)+

lemma provisionable_other_tables:
  assumes "provisionable p project password d" "projects d' = projects d" "project_secrets d' = project_secrets d"
  shows "provisionable p project password d'"
  using assms by (simp add: provisionable_def)

lemma provisionable_update:
  assumes "provisionable p project password d" "\<And>r. prj_stage (f r) \<noteq> ''deleting''" "\<And>r. prj_failed (f r) = prj_failed r"
    "\<And>r. prj_id (f r) = prj_id r" "\<And>r. prj_role_name (f r) = prj_role_name r" "\<And>r. prj_db_name (f r) = prj_db_name r"
  shows "provisionable p project password (projects_update (update_where P f) d)"
proof -
  obtain r where r: "r \<in> set (projects d)" "live r" "prj_id r = Project_ID project"
    "prj_role_name r = Project_RoleName project" "prj_db_name r = Project_DBName project"
    using assms(1) by (auto simp: provisionable_def)
  let ?r = "if P r then f r else r"
  have "?r \<in> set (update_where P f (projects d))" "live ?r" "prj_id ?r = Project_ID project"
    "prj_role_name ?r = Project_RoleName project" "prj_db_name ?r = Project_DBName project"
    using r assms by (auto simp: set_update_where live_def)
  then show ?thesis using assms(1) unfolding provisionable_def by auto
qed

lemma keeps_SetProjectStage_provisionable:
  "name \<noteq> ''deleting'' \<Longrightarrow> keeps (provisionable p project password) (SetProjectStage pid name t)"
  unfolding SetProjectStage_def by (auto intro!: tx_keeps provisionable_update)

lemma keeps_MarkLimitsApplied_provisionable: "keeps (provisionable p project password) (MarkLimitsApplied pid n)"
  unfolding MarkLimitsApplied_def by (intro tx_keeps) (erule provisionable_other_tables, simp_all)

lemma keeps_get_PolicyState [tx_keeps]: "keeps I (get_PolicyState pid)"
  unfolding get_PolicyState_def by (intro tx_keeps) (auto split: prod.split intro: tx_keeps)

lemma keeps_RecordPolicyRevision_provisionable:
  "keeps (provisionable p project password) (RecordPolicyRevision pid n a t)"
  unfolding RecordPolicyRevision_def Let_def
  by (intro tx_keeps) (auto simp: insert_revision_def set_current_def split: if_splits elim!: provisionable_other_tables)

lemma keeps_first_policy:
  "keeps (both (provisionable p project password) J) (first_policy q pid)"
  unfolding first_policy_def by (intro tx_keeps keeps_RecordPolicyRevision_provisionable)

lemma keeps_retry_from: "keeps I fn \<Longrightarrow> keeps I (observe (Done p)) \<Longrightarrow> keeps I (retry_from p n fn latest)"
  by (induction n arbitrary: latest) (auto intro!: tx_keeps split: option.split)

lemma keeps_run_stage:
  assumes "keeps (both (provisionable p project password) J) (snd stage)" "fst stage \<noteq> ''deleting''"
  shows "keeps (both (provisionable p project password) J) (run_stage q pid stage)"
  using assms unfolding run_stage_def retry_def
  by (cases stage) (auto intro!: tx_keeps keeps_retry_from keeps_SetProjectStage_provisionable)

lemma keeps_run_stages:
  assumes "\<And>stage. stage \<in> set ss \<Longrightarrow> keeps (both (provisionable p project password) J) (snd stage) \<and> fst stage \<noteq> ''deleting''"
  shows "keeps (both (provisionable p project password) J) (run_stages q project started ss)"
  using assms by (induction ss arbitrary: started) (auto intro!: tx_keeps keeps_run_stage)

lemma stages_justified:
  assumes "stage \<in> set (stages p project password limits)"
  shows "keeps (both (provisionable p project password) (new_justified p old)) (snd stage) \<and> fst stage \<noteq> ''deleting''"
  using assms unfolding stages_def
  by (auto simp: applyLimits_def set_limits_def
      intro!: keeps_call_both new_justified_Cons keeps_then keeps_on_db_both keeps_MarkLimitsApplied_provisionable keeps_first_policy
      provisionable_justified)

lemma find_SomeD: "find P xs = Some x \<Longrightarrow> P x \<and> x \<in> set xs"
  by (auto simp: find_Some_iff)

definition on_record :: "Project \<Rightarrow> db \<Rightarrow> bool" where
  "on_record project d \<longleftrightarrow> (\<exists>r \<in> set (projects d). project = scanProject r)"

lemma get_Project_on_record: "get_Project pid (d, fs) = (Inr project, (d', fs')) \<Longrightarrow> on_record project d' \<and> Project_ID project = pid \<and> d' = d"
  by (auto simp: get_Project_def projectBy_def tx_simps on_record_def scanProject_def split: option.splits dest!: find_SomeD)

lemma SealedPassword_found:
  "SealedPassword pid (d, fs) = (Inr sealed, (d', fs')) \<Longrightarrow>
     d' = d \<and> (\<exists>s \<in> set (project_secrets d). sec_project_id s = pid \<and> sec_sealed_password s = sealed)"
  by (auto simp: SealedPassword_def tx_simps split: option.splits dest!: find_SomeD)

lemma on_record_provisionable:
  assumes "on_record project d" "Project_Stage project \<noteq> ''deleting''" "\<not> Project_Failed project"
    "s \<in> set (project_secrets d)" "sec_project_id s = Project_ID project"
    "Open p (''project:'' @ Project_ID project) (sec_sealed_password s) = Some password"
  shows "provisionable p project password d"
  using assms by (auto simp: on_record_def provisionable_def scanProject_def live_def opens_def)

lemma run_stages_justified:
  "triple (both (provisionable p project password) (new_justified p old))
     (run_stages p project started (stages p project password limits))
     (\<lambda>_. of_calls (new_justified p old)) (of_calls (new_justified p old))"
  by (rule triple_both, rule keeps_run_stages) (rule stages_justified)

lemma provision_justified: "keeps (of_calls (new_justified p old)) (provision p seen)"
proof -
  let ?J = "new_justified p old"
  have creds: "triple (both (on_record project) ?J)
    (on_db (SealedPassword (Project_ID project)))
    (\<lambda>sealed. both (\<lambda>d. on_record project d \<and> (\<exists>s \<in> set (project_secrets d). sec_project_id s = Project_ID project \<and> sec_sealed_password s = sealed)) ?J)
    (of_calls ?J)" for project
    by (rule triple_read) (auto dest: SealedPassword_found)
  have limits: "triple (both D ?J) (on_db (get_ProjectLimits pid)) (\<lambda>_. both D ?J) (of_calls ?J)" for D pid
    by (rule triple_read) (metis fst_conv keepsD_eq keeps_get_ProjectLimits)
  show ?thesis
    unfolding triple_keeps provision_def
    apply (rule triple_bind [where R = "\<lambda>project. both (on_record project) ?J"])
     apply (subst of_calls_both, rule triple_read, drule get_Project_on_record, simp)
    apply (rule triple_ifI)
     apply (rule triple_ret, simp add: both_def of_calls_def)
    apply (rule triple_ifI)
     apply (rule triple_throw, simp add: both_def of_calls_def)
    apply (rule triple_bind [OF creds])
    subgoal for project sealed
      apply (cases "Open p (''project:'' @ Project_ID project) sealed")
       apply (simp, rule triple_throw, simp add: both_def of_calls_def)
      apply simp
      apply (rule triple_bind [OF limits])
      apply (rule triple_conseq [OF run_stages_justified])
      apply (auto simp: both_def intro: on_record_provisionable)
      done
    done
qed

lemma keeps_Apply:
  assumes "\<And>content d cs. J cs \<Longrightarrow> J (RulesLoaded content d # cs)"
  shows "keeps (of_calls J) (Apply err_text m rules)"
proof -
  have "keeps (of_calls J) (validate_and_load err_text m content)" for content
    unfolding validate_and_load_def of_calls_both
    by (intro tx_keeps keeps_call_both) (auto simp: assms split: sum.split)
  then show ?thesis
    unfolding Apply_def Let_def write_file_def restore_file_def by (intro tx_keeps)
qed

lemma keeps_collect_rules: "keeps (of_calls J) (collect_rules p ps rules revisions)"
  by (induction ps arbitrary: rules revisions) (auto intro!: tx_keeps split: sum.split)

lemma SyncPolicy_justified: "keeps (of_calls (new_justified p old)) (SyncPolicy p)"
proof -
  have outcome: "keeps (of_calls (new_justified p old)) (record_outcome p r entry)" for r entry
    unfolding record_outcome_def by (cases entry) (auto intro!: tx_keeps split: sum.split)
  have applied: "keeps (of_calls (new_justified p old)) (Apply (Text p) (HBA p) rules)" for rules
    by (rule keeps_Apply) (simp add: new_justified_Cons justified_def)
  show ?thesis
    unfolding SyncPolicy_def case_prod_beta
    by (intro tx_keeps keeps_collect_rules outcome applied)
qed

subsection \<open>Limits\<close>

definition roles_ready :: "RoleLimits list \<Rightarrow> db \<Rightarrow> bool" where
  "roles_ready rs d \<longleftrightarrow> (\<forall>r \<in> set rs. \<exists>row \<in> set (projects d). prj_role_name row = RL_Role r \<and> prj_stage row = ''ready'')"

lemma ReadyProjectLimits_ready: "ReadyProjectLimits (d, fs) = (Inr rs, (d', fs')) \<Longrightarrow> roles_ready rs d'"
  by (auto simp: ReadyProjectLimits_def tx_simps roles_ready_def)

lemma sync_role_justified:
  assumes "r \<in> set rs"
  shows "keeps (both (roles_ready rs) (new_justified p old)) (sync_role p states r)"
proof -
  have mark: "keeps (roles_ready rs) (MarkLimitsApplied pid n)" "keeps (roles_ready rs) (LimitsFailed pid reason)" for pid n reason
    unfolding MarkLimitsApplied_def LimitsFailed_def by (auto intro!: tx_keeps simp: roles_ready_def)
  have "justified p (LimitsSet (RL_Role r) d)" if "roles_ready rs d" for d
    using that assms by (force simp: justified_def roles_ready_def list_ex_iff)
  then have "keeps (both (roles_ready rs) (new_justified p old)) (applyLimits p (RL_ProjectID r) (RL_Role r) (RL_Limits r))"
    unfolding applyLimits_def set_limits_def
    by (intro tx_keeps keeps_call_both mark) (simp add: new_justified_Cons)
  then show ?thesis
    unfolding sync_role_def Let_def by (intro tx_keeps mark)
qed

lemma keeps_for_each_in: "(\<And>x. x \<in> set xs \<Longrightarrow> keeps I (f x)) \<Longrightarrow> keeps I (for_each f xs)"
  by (induction xs) (auto intro: tx_keeps)

lemma SyncLimits_justified: "keeps (of_calls (new_justified p old)) (SyncLimits p)"
proof -
  let ?J = "new_justified p old"
  have rest: "triple (both (roles_ready rs) ?J)
      (if rs = [] then ret ()
       else bind_tx (call_out unlogged (RoleStates (PG p))) (\<lambda>states. for_each (sync_role p states) rs))
      (\<lambda>_. of_calls ?J) (of_calls ?J)" for rs
    by (rule triple_both) (intro tx_keeps keeps_for_each_in sync_role_justified)
  have "triple (both (\<lambda>_. True) ?J) (on_db ReadyProjectLimits) (\<lambda>rs. both (roles_ready rs) ?J) (of_calls ?J)"
    by (rule triple_read) (rule ReadyProjectLimits_ready)
  from triple_bind [OF this rest] have "keeps (of_calls ?J) (bind_tx (on_db ReadyProjectLimits) (\<lambda>rs. if rs = [] then ret ()
       else bind_tx (call_out unlogged (RoleStates (PG p))) (\<lambda>states. for_each (sync_role p states) rs)))"
    by (simp add: triple_keeps of_calls_both)
  then show ?thesis unfolding SyncLimits_def by (rule keeps_ignoring)
qed

subsection \<open>Rotation\<close>

definition pending_recorded :: "'x Provisioner \<Rightarrow> Project \<Rightarrow> string \<Rightarrow> db \<Rightarrow> bool" where
  "pending_recorded p project password d \<longleftrightarrow> justified p (PasswordSet (Project_RoleName project) password d)"

lemma finishRotation_justified:
  "triple (both (pending_recorded p project password) (new_justified p old)) (finishRotation p project password sealed entry)
     (\<lambda>_. of_calls (new_justified p old)) (of_calls (new_justified p old))"
proof -
  let ?J = "new_justified p old"
  have ended: "keeps (of_calls ?J) (then_tx (call_out (\<lambda>_ d. [SessionsEnded (Project_RoleName project) d])
       (TerminateSessions (PG p) (Project_DBName project) (Project_RoleName project)))
     (then_tx (on_db (CompleteRotation (Project_ID project) sealed entry)) (ret ())))"
    unfolding of_calls_both
    by (intro keeps_then keeps_call_both keeps_on_db_both keeps_ret) (auto simp: new_justified_Cons justified_def keeps_def)
  show ?thesis
    unfolding finishRotation_def
  proof (rule triple_then [where R = "\<lambda>_. of_calls ?J"])
    show "triple (both (pending_recorded p project password) ?J)
        (call_out (\<lambda>_ d. [PasswordSet (Project_RoleName project) password d]) (SetPassword (PG p) (Project_RoleName project) password))
        (\<lambda>_. of_calls ?J) (of_calls ?J)"
      by (rule triple_both, rule keeps_call_both) (simp add: pending_recorded_def new_justified_Cons)
  qed (use ended in \<open>simp add: triple_keeps\<close>)
qed

lemma PendingPassword_found:
  assumes "PendingPassword pid (d, fs) = (Inr sealed, (d', fs'))"
  shows "d' = d \<and> (sealed \<noteq> '''' \<longrightarrow> (\<exists>s \<in> set (project_secrets d). sec_project_id s = pid \<and> sec_pending_password_sealed s = Some sealed))"
  using assms by (auto simp: PendingPassword_def tx_simps coalesce_def split: option.splits dest!: find_SomeD)

definition pending_of :: "string \<Rightarrow> string \<Rightarrow> db \<Rightarrow> bool" where
  "pending_of pid sealed d \<longleftrightarrow>
     (\<exists>s \<in> set (project_secrets d). sec_project_id s = pid \<and> sec_pending_password_sealed s = Some sealed)"

lemma pending_recordedI:
  assumes "pending_of (Project_ID project) sealed d" "on_record project d"
    "Open p (''project:'' @ Project_ID project) sealed = Some password"
  shows "pending_recorded p project password d"
  using assms by (force simp: pending_recorded_def pending_of_def justified_def on_record_def list_ex_iff opens_def scanProject_def)

lemma finish_recorded_justified: "keeps (of_calls (new_justified p old)) (finish_recorded p r)"
proof -
  let ?J = "new_justified p old" and ?pid = "PR_ProjectID r"
  let ?D = "\<lambda>sealed d. sealed \<noteq> '''' \<longrightarrow> pending_of ?pid sealed d"
  let ?R = "\<lambda>sealed project d. ?D sealed d \<and> on_record project d \<and> Project_ID project = ?pid"
  have sealed: "triple (of_calls ?J) (on_db (PendingPassword ?pid)) (\<lambda>sealed. both (?D sealed) ?J) (of_calls ?J)"
    by (subst of_calls_both, rule triple_read) (auto dest: PendingPassword_found simp: pending_of_def)
  have project: "triple (both (?D sealed) ?J) (on_db (get_Project ?pid)) (\<lambda>project. both (?R sealed project) ?J) (of_calls ?J)" for sealed
    by (rule triple_read) (auto dest: get_Project_on_record)
  have finish: "triple (both (?R sealed project) ?J) (case Open p (''project:'' @ ?pid) sealed of
         None \<Rightarrow> ret ()
       | Some password \<Rightarrow> bind_tx (observe (Clock p)) (\<lambda>t. finishRotation p project password sealed (automatic_entry r t)))
      (\<lambda>_. of_calls ?J) (of_calls ?J)" if "sealed \<noteq> ''''" for sealed project
  proof (cases "Open p (''project:'' @ ?pid) sealed")
    case None
    then show ?thesis by (auto intro!: triple_ret simp: both_def of_calls_def)
  next
    case (Some password)
    have "triple (both (?R sealed project) ?J) (observe (Clock p)) (\<lambda>_. both (pending_recorded p project password) ?J) (of_calls ?J)"
      using that Some pending_recordedI [of project sealed _ p password] by (intro triple_observe) (auto simp: both_def)
    from triple_bind [OF this finishRotation_justified] show ?thesis using Some by simp
  qed
  show ?thesis
    unfolding finish_recorded_def triple_keeps
    by (rule triple_bind [OF sealed], rule triple_ifI, rule triple_ret, simp add: both_def of_calls_def)
      (rule triple_bind [OF project], rule finish)
qed

subsection \<open>The whole provisioner\<close>

lemma provision_each_justified: "keeps (of_calls (new_justified p old)) (provision_each p ps changed)"
  by (induction ps arbitrary: changed) (auto intro!: tx_keeps provision_justified)

lemma pass_justified: "keeps (of_calls (new_justified p old)) (pass p)"
  unfolding pass_def FinishRotations_def finish_pending_def
  by (intro tx_keeps finish_recorded_justified SyncLimits_justified provision_each_justified SyncPolicy_justified)

lemma Run_justified: "keeps (of_calls (new_justified p old)) (Run p n)"
proof -
  have "keeps (of_calls (new_justified p old)) (run_rounds p n)"
    by (induction n) (auto intro!: tx_keeps pass_justified)
  then show ?thesis unfolding Run_def by (intro tx_keeps SyncPolicy_justified)
qed

lemma ProvisionNow_justified: "keeps (of_calls (new_justified p old)) (ProvisionNow p pid)"
  unfolding ProvisionNow_def by (intro tx_keeps provision_justified SyncPolicy_justified)


section \<open>Rotations\<close>

lemma stored_kept:
  assumes "project_secrets d' = update_where P f (project_secrets d)" "\<And>r. sec_sealed_password (f r) = sec_sealed_password r"
    "\<And>r. sec_project_id (f r) = sec_project_id r"
  shows "stored_password q d' = stored_password q d"
proof -
  have "map_option sec_sealed_password (find (\<lambda>r. sec_project_id r = q) (update_where P f rs)) =
      map_option sec_sealed_password (find (\<lambda>r. sec_project_id r = q) rs)" for rs
    by (induction rs) (auto simp: update_where_def assms)
  then show ?thesis by (simp add: stored_password_def assms(1))
qed

lemma BeginRotation_keeps_stored: "keeps (\<lambda>d. stored_password q d = x) (BeginRotation pid sealed req)"
  unfolding BeginRotation_def
  by (intro tx_keeps) (auto simp: begin_rotation_def Let_def intro: trans [OF stored_kept])

lemma BeginRotation_error: "BeginRotation pid sealed req s = (Inl e, s') \<Longrightarrow> e = EDriver \<or> e = ErrProjectNotFound"
  by (auto simp: BeginRotation_def bind_tx_def exec_affected_def stmt_def throw_def ret_def split: if_splits prod.splits)

lemma transact_exit_error: "transact_exit m s = (Inl e, (d, fs)) \<Longrightarrow> d = fst s"
  using transact_exit_fails [of m s e d] by (simp add: fails_def)

lemma CompleteRotation_error: "CompleteRotation pid sealed entry s = (Inl e, (d, fs)) \<Longrightarrow> d = fst s"
  unfolding CompleteRotation_def by (rule transact_exit_error)

lemma finishRotation_error:
  assumes "finishRotation p project password sealed entry s = (Inl e, s')"
  shows "wdb (fst s') = wdb (fst s)"
proof -
  have "triple (\<lambda>w. wdb w = d) (finishRotation p project password sealed entry) (\<lambda>_ _. True) (\<lambda>w. wdb w = d)" for d
    unfolding finishRotation_def
  proof (intro triple_then)
    show "triple (\<lambda>w. wdb w = d) (on_db (CompleteRotation (Project_ID project) sealed entry)) (\<lambda>_ _. True) (\<lambda>w. wdb w = d)"
      by (rule triple_on_db) (auto dest: CompleteRotation_error)
  qed (auto intro: triple_call_db triple_ret)
  from tripleD_Inl [OF this refl assms] show ?thesis .
qed

lemma finishRotation_done:
  assumes "finishRotation p project password sealed entry (w, fs) = (Inr u, (w', fs'))" "secrets_keyed (wdb w)"
    "pending_password (Project_ID project) (wdb w) = Some sealed"
  shows "calls w' = SessionsEnded (Project_RoleName project) (wdb w) # PasswordSet (Project_RoleName project) password (wdb w) # calls w"
    and "stored_password (Project_ID project) (wdb w') = Some sealed" "pending_password (Project_ID project) (wdb w') = None"
    and "secrets_keyed (wdb w')"
proof -
  from assms(1) obtain b fs1 where "returns (CompleteRotation (Project_ID project) sealed entry) (wdb w, fs1) b (wdb w')"
    and c: "calls w' = SessionsEnded (Project_RoleName project) (wdb w) # PasswordSet (Project_RoleName project) password (wdb w) # calls w"
    by (fastforce simp: finishRotation_def tx_simps returns_iff)
  from CompleteRotation_returns [OF assms(2) this(1)] assms(3) c
  show "calls w' = SessionsEnded (Project_RoleName project) (wdb w) # PasswordSet (Project_RoleName project) password (wdb w) # calls w"
    "stored_password (Project_ID project) (wdb w') = Some sealed" "pending_password (Project_ID project) (wdb w') = None"
    "secrets_keyed (wdb w')" by simp_all
qed

text \<open>
  C29. A rotation takes its steps in order. When it returns the new password, that password was recorded as
  pending, then set on the role, then every session of the role was ended, all before it became the stored
  password of the project. When it ends with an error, no project's stored password has changed; if the
  error says that it will be finished later, the new password is pending.
\<close>

theorem Rotate_outcome:
  assumes "distinct (map sec_project_id (project_secrets (wdb v)))"
    and "Rotate p project entry (v, fs) = (r, (v', fs'))"
  shows "case r of
      Inr password \<Rightarrow> let sealed = Seal p (''project:'' @ Project_ID project) password in
        (\<exists>d. pending_password (Project_ID project) d = Some sealed \<and>
           stored_password (Project_ID project) d = stored_password (Project_ID project) (wdb v) \<and>
           calls v' = [SessionsEnded (Project_RoleName project) d, PasswordSet (Project_RoleName project) password d] @ calls v) \<and>
        stored_password (Project_ID project) (wdb v') = Some sealed
    | Inl e \<Rightarrow> stored_password q (wdb v') = stored_password q (wdb v) \<and>
        (e = ErrRotationIncomplete \<longrightarrow>
           (\<exists>password. pending_password (Project_ID project) (wdb v') = Some (Seal p (''project:'' @ Project_ID project) password)))"
proof -
  let ?id = "Project_ID project"
  obtain password x where t: "Token p (outside v) = (password, x)" by (metis surj_pair)
  let ?v = "v\<lparr>outside := x\<rparr>" and ?sealed = "Seal p (''project:'' @ ?id) password"
  have keyed: "secrets_keyed (wdb ?v)" using assms(1) by (simp add: secrets_keyed_def)
  obtain rb d1 fs1 where b: "BeginRotation ?id ?sealed (AuditEntry_RequestID entry) (wdb ?v, fs) = (rb, (d1, fs1))" by (metis surj_pair)
  have kept: "stored_password q d1 = stored_password q (wdb v)" for q
    using keepsD_eq [OF BeginRotation_keeps_stored b] by simp
  let ?v1 = "?v\<lparr>wdb := d1\<rparr>"
  show ?thesis
  proof (cases rb)
    case (Inl e)
    then have "r = Inl e" "wdb v' = d1"
      using assms(2) b t by (auto simp: Rotate_def observe_def call_out_def bind_tx_def then_tx_def on_db_def Let_def)
    moreover have "e \<noteq> ErrRotationIncomplete"
      using BeginRotation_error [OF b [unfolded Inl]] by (auto simp: ErrRotationIncomplete_def)
    ultimately show ?thesis using kept by simp
  next
    case (Inr u)
    then have began: "returns (BeginRotation ?id ?sealed (AuditEntry_RequestID entry)) (wdb ?v, fs) u d1"
      using b by (simp add: returns_def)
    obtain rf v2 fs2 where f: "finishRotation p project password ?sealed entry (?v1, fs1) = (rf, (v2, fs2))" by (metis surj_pair)
    note pending = BeginRotation_returns(1,2) [OF keyed began]
    show ?thesis
    proof (cases rf)
      case (Inl e)
      then have "r = Inl ErrRotationIncomplete" "v' = v2"
        using assms(2) b t f Inr by (auto simp: Rotate_def observe_def call_out_def bind_tx_def then_tx_def on_db_def Let_def
            attempt_def throw_def unlogged_def)
      moreover have "wdb v2 = d1" using finishRotation_error [of p project password ?sealed entry "(?v1, fs1)" e] f Inl by simp
      ultimately show ?thesis using kept pending by auto
    next
      case (Inr u')
      then have "r = Inr password" "v' = v2"
        using assms(2) b t f \<open>rb = Inr u\<close> by (auto simp: Rotate_def observe_def call_out_def bind_tx_def then_tx_def on_db_def Let_def
            attempt_def ret_def unlogged_def)
      then show ?thesis
        using finishRotation_done [of p project password ?sealed entry ?v1 fs1 u' v2 fs2] f Inr pending kept by auto
    qed
  qed
qed

subsection \<open>Interrupted rotations are finished\<close>

definition answers :: "('x, 'a) io \<Rightarrow> bool" where
  "answers f \<longleftrightarrow> (\<forall>x. \<exists>a x'. f x = (Inr a, x'))"

definition rotated :: "string \<Rightarrow> string \<Rightarrow> AuditEntry \<Rightarrow> db \<Rightarrow> db" where
  "rotated pid sealed entry d = new_event ''credential_rotated'' (''credential_rotated:'' @ pid)
     ''A database password was changed''
     (''Project '' @ pid @ ''; every session using the old password was closed.'')
     (from_unix (AuditEntry_At entry)) (audited entry (snd (swap_password pid sealed d)))"

lemma rotated_facts:
  assumes "secrets_keyed d" "pending_password pid d = Some sealed"
  shows "CompleteRotation pid sealed entry (d, []) = (Inr True, (rotated pid sealed entry d, []))"
    and "secrets_keyed (rotated pid sealed entry d)" "projects (rotated pid sealed entry d) = projects d"
    and "stored_password pid (rotated pid sealed entry d) = Some sealed" "pending_password pid (rotated pid sealed entry d) = None"
    and "q \<noteq> pid \<Longrightarrow> stored_password q (rotated pid sealed entry d) = stored_password q d \<and>
      pending_password q (rotated pid sealed entry d) = pending_password q d"
proof -
  note facts = swap_password_facts [OF assms(1), of pid sealed]
  show run: "CompleteRotation pid sealed entry (d, []) = (Inr True, (rotated pid sealed entry d, []))"
    using facts(1) assms(2)
    by (simp add: CompleteRotation_def tx_healthy audit_def RecordAlertEvent_def rotated_def)
  have same: "project_secrets (rotated pid sealed entry d) = project_secrets (snd (swap_password pid sealed d))"
    by (simp add: rotated_def new_event_def audited_def)
  then show "secrets_keyed (rotated pid sealed entry d)"
    "stored_password pid (rotated pid sealed entry d) = Some sealed" "pending_password pid (rotated pid sealed entry d) = None"
    using facts(2,3) assms(2) by (simp_all add: secrets_keyed_def stored_password_def pending_password_def)
  show "projects (rotated pid sealed entry d) = projects d"
    by (simp add: rotated_def new_event_def audited_def swap_password_def Let_def)
  show "stored_password q (rotated pid sealed entry d) = stored_password q d \<and>
      pending_password q (rotated pid sealed entry d) = pending_password q d" if "q \<noteq> pid"
    using that by (simp add: stored_password_def pending_password_def same swap_password_def Let_def find_update_key)
qed

text \<open>Whatever the provisioner asks, PostgreSQL agrees, and no other request holds a project's lock.\<close>

definition rotations_free :: "'x Provisioner \<Rightarrow> bool" where
  "rotations_free p \<longleftrightarrow> (\<forall>role password. answers (SetPassword (PG p) role password)) \<and>
     (\<forall>name role. answers (TerminateSessions (PG p) name role)) \<and> (\<forall>pid x. fst (TryLock p pid x))"

definition finishable :: "'x Provisioner \<Rightarrow> string \<Rightarrow> string \<Rightarrow> db \<Rightarrow> bool" where
  "finishable p pid sealed d \<longleftrightarrow> pending_password pid d = Some sealed \<and> sealed \<noteq> '''' \<and>
     Open p (''project:'' @ pid) sealed \<noteq> None \<and> list_ex (\<lambda>r. prj_id r = pid) (projects d)"

lemma finish_pending_effect:
  assumes "rotations_free p" "secrets_keyed (wdb w)" "finishable p (PR_ProjectID r) sealed (wdb w)"
  shows "\<exists>w' entry. finish_pending p r (w, []) = (Inr (), (w', [])) \<and> wdb w' = rotated (PR_ProjectID r) sealed entry (wdb w)"
proof -
  let ?id = "PR_ProjectID r"
  obtain password where o: "Open p (''project:'' @ ?id) sealed = Some password" using assms(3) by (auto simp: finishable_def)
  obtain s where s: "find (\<lambda>r. sec_project_id r = ?id) (project_secrets (wdb w)) = Some s" "sec_pending_password_sealed s = Some sealed"
    using assms(3) by (auto simp: finishable_def pending_password_def bind_eq_Some_conv)
  have "find (\<lambda>r. prj_id r = ?id) (projects (wdb w)) \<noteq> None"
    using assms(3) by (auto simp: finishable_def find_None_iff list_ex_iff)
  then obtain row where row: "find (\<lambda>r. prj_id r = ?id) (projects (wdb w)) = Some row" by blast
  then have id: "Project_ID (scanProject row) = ?id" by (auto simp: scanProject_def dest: find_SomeD)
  obtain x1 where l: "TryLock p ?id (outside w) = (True, x1)" using assms(1) by (metis (full_types) rotations_free_def fst_conv surj_pair)
  obtain t x2 where c: "Clock p x1 = (t, x2)" by (metis surj_pair)
  obtain x3 where sp: "SetPassword (PG p) (Project_RoleName (scanProject row)) password x2 = (Inr (), x3)"
    using assms(1) by (metis answers_def old.unit.exhaust rotations_free_def)
  obtain x4 where ts: "TerminateSessions (PG p) (Project_DBName (scanProject row)) (Project_RoleName (scanProject row)) x3 = (Inr (), x4)"
    using assms(1) by (metis answers_def old.unit.exhaust rotations_free_def)
  have "sealed \<noteq> ''''" "pending_password ?id (wdb w) = Some sealed" using assms(3) by (simp_all add: finishable_def)
  note run = rotated_facts(1) [OF assms(2) this(2), of "automatic_entry r t"]
  show ?thesis
    by (rule exI, rule exI [where x = "automatic_entry r t"], rule conjI, simp add: finish_pending_def finish_recorded_def finishRotation_def ignoring_def tx_healthy observe_def call_out_def on_db_def
        unlogged_def PendingPassword_def get_Project_def projectBy_def coalesce_def l c sp ts s row id o [simplified] run \<open>sealed \<noteq> ''''\<close>) simp
qed

lemma finish_all:
  assumes "rotations_free p" "secrets_keyed (wdb w)" "distinct (map PR_ProjectID rs)"
    "\<And>r. r \<in> set rs \<Longrightarrow> finishable p (PR_ProjectID r) (PR_Sealed r) (wdb w)"
  shows "\<exists>w'. for_each (finish_pending p) rs (w, []) = (Inr (), (w', [])) \<and>
    (\<forall>r \<in> set rs. stored_password (PR_ProjectID r) (wdb w') = Some (PR_Sealed r) \<and> pending_password (PR_ProjectID r) (wdb w') = None) \<and>
    (\<forall>q. q \<notin> PR_ProjectID ` set rs \<longrightarrow> stored_password q (wdb w') = stored_password q (wdb w) \<and>
       pending_password q (wdb w') = pending_password q (wdb w))"
  using assms(2-)
proof (induction rs arbitrary: w)
  case Nil
  then show ?case by (simp add: ret_def)
next
  case (Cons r rs)
  obtain w1 entry where w1: "finish_pending p r (w, []) = (Inr (), (w1, []))"
    "wdb w1 = rotated (PR_ProjectID r) (PR_Sealed r) entry (wdb w)"
    using finish_pending_effect [OF assms(1) Cons.prems(1), of r "PR_Sealed r"] Cons.prems(3) by auto
  have pend: "pending_password (PR_ProjectID r) (wdb w) = Some (PR_Sealed r)"
    using Cons.prems(3) [of r] by (simp add: finishable_def)
  note f = rotated_facts(2-) [OF Cons.prems(1) pend, where entry = entry, folded w1(2)]
  have "finishable p (PR_ProjectID r') (PR_Sealed r') (wdb w1)" if "r' \<in> set rs" for r'
  proof -
    have "PR_ProjectID r' \<noteq> PR_ProjectID r" using Cons.prems(2) that imageI [of _ "set rs" PR_ProjectID] by (metis distinct.simps(2) list.simps(9) list.set_map)
    then show ?thesis using Cons.prems(3) [of r'] f(2) f(5) [of "PR_ProjectID r'"] that by (simp add: finishable_def)
  qed
  with Cons.IH [OF f(1)] Cons.prems(2) obtain w2 where
    w2: "for_each (finish_pending p) rs (w1, []) = (Inr (), (w2, []))"
    "\<And>r. r \<in> set rs \<Longrightarrow> stored_password (PR_ProjectID r) (wdb w2) = Some (PR_Sealed r) \<and> pending_password (PR_ProjectID r) (wdb w2) = None"
    "\<And>q. q \<notin> PR_ProjectID ` set rs \<Longrightarrow> stored_password q (wdb w2) = stored_password q (wdb w1) \<and>
       pending_password q (wdb w2) = pending_password q (wdb w1)"
    by auto
  have "PR_ProjectID r \<notin> PR_ProjectID ` set rs" using Cons.prems(2) by auto
  with w2(3) f(3,4) have first: "stored_password (PR_ProjectID r) (wdb w2) = Some (PR_Sealed r)" "pending_password (PR_ProjectID r) (wdb w2) = None"
    by simp_all
  have "stored_password q (wdb w2) = stored_password q (wdb w) \<and> pending_password q (wdb w2) = pending_password q (wdb w)"
    if "q \<notin> PR_ProjectID ` set (r # rs)" for q
    using that w2(3) [of q] f(5) [of q] by auto
  with first w2(1,2) w1(1) show ?case by (auto simp: tx_healthy)
qed

lemma keyed_find: "distinct (map k xs) \<Longrightarrow> x \<in> set xs \<Longrightarrow> find (\<lambda>y. k y = k x) xs = Some x"
  by (induction xs) (auto simp: image_iff)

text \<open>
  Interrupted rotations are finished. When no statement fails, PostgreSQL accepts what it is asked, no
  other request holds the locks and the pending passwords can be decrypted, one run over the pending
  rotations makes every pending password of a project that is not being deleted the stored one, and
  leaves nothing pending for it.
\<close>

theorem FinishRotations_completes:
  assumes "rotations_free p" "distinct (map sec_project_id (project_secrets (wdb v)))"
    and "\<forall>s \<in> set (project_secrets (wdb v)). \<forall>sealed. sec_pending_password_sealed s = Some sealed \<longrightarrow>
      sealed \<noteq> '''' \<and> Open p (''project:'' @ sec_project_id s) sealed \<noteq> None"
    and "s \<in> set (project_secrets (wdb v))" "sec_pending_password_sealed s = Some sealed"
    and "r \<in> set (projects (wdb v))" "prj_id r = sec_project_id s" "prj_stage r \<noteq> ''deleting''"
  shows "\<exists>v'. FinishRotations p (v, []) = (Inr (), (v', [])) \<and>
    stored_password (sec_project_id s) (wdb v') = Some sealed \<and> pending_password (sec_project_id s) (wdb v') = None"
proof -
  let ?rs = "map (\<lambda>r. \<lparr>PR_ProjectID = sec_project_id r, PR_RequestID = sec_pending_request_id r,
               PR_Sealed = coalesce (sec_pending_password_sealed r) ''''\<rparr>)
     (filter (\<lambda>r. sec_pending_password_sealed r \<noteq> None \<and>
        list_ex (\<lambda>p. prj_id p = sec_project_id r \<and> prj_stage p \<noteq> ''deleting'') (projects (wdb v)))
       (project_secrets (wdb v)))"
  have keyed: "secrets_keyed (wdb v)" using assms(2) by (simp add: secrets_keyed_def)
  have "finishable p (PR_ProjectID x) (PR_Sealed x) (wdb v)" if "x \<in> set ?rs" for x
    using that assms(3) by (auto simp: finishable_def pending_password_def keyed_find [OF assms(2)] coalesce_def list_ex_iff)
  moreover have "distinct (map PR_ProjectID ?rs)" using assms(2) by (simp add: comp_def distinct_map_filter)
  ultimately obtain v' where "for_each (finish_pending p) ?rs (v, []) = (Inr (), (v', []))"
    "\<And>x. x \<in> set ?rs \<Longrightarrow> stored_password (PR_ProjectID x) (wdb v') = Some (PR_Sealed x) \<and> pending_password (PR_ProjectID x) (wdb v') = None"
    using finish_all [OF assms(1) keyed, of ?rs] by blast
  moreover have "\<lparr>PR_ProjectID = sec_project_id s, PR_RequestID = sec_pending_request_id s, PR_Sealed = sealed\<rparr> \<in> set ?rs"
    using assms(4-) by (force simp: coalesce_def list_ex_iff)
  ultimately show ?thesis
    by (intro exI [of _ v']) (force simp: FinishRotations_def ignoring_def tx_healthy on_db_def PendingRotations_def)
qed

section \<open>Provisioning completes\<close>

definition project_stage :: "string \<Rightarrow> db \<Rightarrow> string option" where
  "project_stage pid d = map_option prj_stage (find (\<lambda>r. prj_id r = pid) (projects d))"

definition staged :: "string \<Rightarrow> string \<Rightarrow> gotime \<Rightarrow> db \<Rightarrow> db" where
  "staged pid name t = projects_update (update_where (\<lambda>r. prj_id r = pid \<and> prj_stage r \<noteq> ''deleting'')
     (if name = ''ready'' then (\<lambda>r. r\<lparr>prj_stage := name, prj_ready_at := Some (unix t)\<rparr>) else (\<lambda>r. r\<lparr>prj_stage := name\<rparr>)))"

lemma SetProjectStage_staged: "SetProjectStage pid name t (d, []) = (Inr (), (staged pid name t d, []))"
  by (simp add: SetProjectStage_def staged_def tx_healthy)

lemma staged_facts:
  assumes "project_stage pid d = Some stage" "stage \<noteq> ''deleting''"
  shows "project_stage pid (staged pid name t d) = Some name"
    and "map prj_id (projects (staged pid name t d)) = map prj_id (projects d)"
    and "policy_state (staged pid name t d) = policy_state d" "policy_revisions (staged pid name t d) = policy_revisions d"
  using assms by (auto simp: staged_def project_stage_def find_update_key map_update_where)

text \<open>What the last stage relies on: the project's policy row, which has a revision or none recorded yet.\<close>

definition policy_started :: "string \<Rightarrow> db \<Rightarrow> bool" where
  "policy_started pid d \<longleftrightarrow> (case find (\<lambda>r. pol_project_id r = pid) (policy_state d) of
     None \<Rightarrow> False
   | Some st \<Rightarrow> pol_current_revision st \<noteq> 0 \<or>
       list_all (\<lambda>r. rev_project_id r \<noteq> pid) (policy_revisions d)) \<and> project_exists pid d"

definition has_policy :: "string \<Rightarrow> db \<Rightarrow> bool" where
  "has_policy pid d \<longleftrightarrow> (case find (\<lambda>r. pol_project_id r = pid) (policy_state d) of
     None \<Rightarrow> False | Some st \<Rightarrow> pol_current_revision st \<noteq> 0)"

lemma policy_started_other:
  assumes "policy_state d' = policy_state d" "policy_revisions d' = policy_revisions d" "map prj_id (projects d') = map prj_id (projects d)"
  shows "policy_started pid d' = policy_started pid d" "has_policy pid d' = has_policy pid d"
proof -
  have ids: "list_ex (\<lambda>r. prj_id r = pid) rs = (pid \<in> set (map prj_id rs))" for rs :: "project_row list"
    by (auto simp: list_ex_iff)
  show "policy_started pid d' = policy_started pid d" "has_policy pid d' = has_policy pid d"
    unfolding policy_started_def has_policy_def project_exists_def ids assms by (rule refl)+
qed

lemma first_policy_completes:
  assumes "policy_started pid (wdb w)"
  shows "\<exists>w'. first_policy p pid (w, []) = (Inr (), (w', [])) \<and> projects (wdb w') = projects (wdb w) \<and>
    calls w' = calls w \<and> policy_started pid (wdb w') \<and> has_policy pid (wdb w')"
proof -
  obtain st where st: "find (\<lambda>r. pol_project_id r = pid) (policy_state (wdb w)) = Some st"
    "pol_current_revision st \<noteq> 0 \<or> list_all (\<lambda>r. rev_project_id r \<noteq> pid) (policy_revisions (wdb w))"
    "project_exists pid (wdb w)"
    using assms by (auto simp: policy_started_def split: option.splits)
  obtain t x where c: "Clock p (outside w) = (t, x)" by (metis surj_pair)
  show ?thesis
  proof (cases "pol_current_revision st = 0")
    case False
    then show ?thesis using st
      by (auto simp: first_policy_def tx_healthy on_db_def get_PolicyState_def policy_started_def has_policy_def)
  next
    case True
    then have "\<not> list_ex (\<lambda>r. rev_project_id r = pid \<and> rev_revision r = 1) (policy_revisions (wdb w))"
      using st(2) by (auto simp: list_ex_iff list_all_iff)
    then show ?thesis using True st c
      by (auto simp: first_policy_def tx_healthy on_db_def get_PolicyState_def policy_started_def has_policy_def observe_def call_out_def unlogged_def
        RecordPolicyRevision_def insert_revision_def set_current_def Let_def project_exists_def
          find_update_key [where Q = "\<lambda>_. True", simplified])
  qed
qed

definition has_call :: "call \<Rightarrow> string" where
  "has_call c = (case c of RoleEnsured _ _ _ \<Rightarrow> ''role_created'' | DatabaseEnsured _ _ _ \<Rightarrow> ''database_created''
     | LimitsSet _ _ \<Rightarrow> ''ready'' | _ \<Rightarrow> '''')"

lemma retry_healthy: "fn (w, []) = (Inr u, (w', [])) \<Longrightarrow> retry p fn (w, []) = (Inr (), (w', []))"
  by (simp add: retry_def eval_nat_numeral tx_healthy)

text \<open>A stage works on a project: it is answered, leaves its row alone, and is one call.\<close>

definition stage_works :: "string \<Rightarrow> string \<times> ('x, unit) act \<Rightarrow> bool" where
  "stage_works pid stage \<longleftrightarrow> (\<forall>w. policy_started pid (wdb w) \<longrightarrow>
     (\<exists>w' c. snd stage (w, []) = (Inr (), (w', [])) \<and> projects (wdb w') = projects (wdb w) \<and> policy_started pid (wdb w') \<and>
        calls w' = c # calls w \<and> has_call c = fst stage \<and> (fst stage = ''ready'' \<longrightarrow> has_policy pid (wdb w'))))"

lemma run_stage_works:
  assumes "stage_works pid stage" "policy_started pid (wdb w)" "project_stage pid (wdb w) = Some s" "s \<noteq> ''deleting''"
  shows "\<exists>w' c. run_stage p pid stage (w, []) = (Inr (), (w', [])) \<and> policy_started pid (wdb w') \<and>
    project_stage pid (wdb w') = Some (fst stage) \<and> calls w' = c # calls w \<and> has_call c = fst stage \<and>
    (fst stage = ''ready'' \<longrightarrow> has_policy pid (wdb w'))"
proof -
  obtain name run where stage: "stage = (name, run)" by (metis surj_pair)
  obtain w1 c where w1: "run (w, []) = (Inr (), (w1, []))" "projects (wdb w1) = projects (wdb w)"
    "policy_started pid (wdb w1)" "calls w1 = c # calls w" "has_call c = name" "name = ''ready'' \<longrightarrow> has_policy pid (wdb w1)"
    using assms(1,2) stage unfolding stage_works_def by fastforce
  obtain t x where c: "Clock p (outside w1) = (t, x)" by (metis surj_pair)
  have s: "project_stage pid (wdb w1) = Some s" using assms(3) w1(2) by (simp add: project_stage_def)
  note f = staged_facts [OF s assms(4), of name t]
  note same = policy_started_other [OF f(3,4,2), of pid]
  show ?thesis
    using w1 f(1) same
    by (intro exI [of _ "w1\<lparr>outside := x, wdb := staged pid name t (wdb w1)\<rparr>"] exI [of _ c])
      (auto simp: run_stage_def stage tx_healthy retry_healthy [of run w "()" w1, OF w1(1)] observe_def call_out_def
        unlogged_def c on_db_def SetProjectStage_staged)
qed

lemma run_stages_work:
  assumes "\<And>stage. stage \<in> set ss \<Longrightarrow> stage_works (Project_ID project) stage \<and> fst stage \<noteq> ''deleting''"
    "policy_started (Project_ID project) (wdb w)" "project_stage (Project_ID project) (wdb w) = Some s" "s \<noteq> ''deleting''"
  shows "\<exists>w' new. run_stages p project False ss (w, []) = (Inr (), (w', [])) \<and>
    project_stage (Project_ID project) (wdb w') = Some (last (s # map fst ss)) \<and>
    calls w' = rev new @ calls w \<and> map has_call new = map fst ss \<and>
    (ss \<noteq> [] \<and> fst (last ss) = ''ready'' \<longrightarrow> has_policy (Project_ID project) (wdb w'))"
  using assms
proof (induction ss arbitrary: w s)
  case Nil
  then show ?case by (simp add: ret_def)
next
  case (Cons stage ss)
  let ?id = "Project_ID project"
  obtain w1 c where w1: "run_stage p ?id stage (w, []) = (Inr (), (w1, []))" "policy_started ?id (wdb w1)"
    "project_stage ?id (wdb w1) = Some (fst stage)" "calls w1 = c # calls w" "has_call c = fst stage"
    "fst stage = ''ready'' \<longrightarrow> has_policy ?id (wdb w1)"
    using run_stage_works [of ?id stage w s p] Cons.prems by auto
  have "fst stage \<noteq> ''deleting''" using Cons.prems(1) by simp
  with Cons.IH [OF _ w1(2,3)] Cons.prems(1) obtain w2 new where
    w2: "run_stages p project False ss (w1, []) = (Inr (), (w2, []))"
    "project_stage ?id (wdb w2) = Some (last (fst stage # map fst ss))" "calls w2 = rev new @ calls w1"
    "map has_call new = map fst ss" "ss \<noteq> [] \<and> fst (last ss) = ''ready'' \<longrightarrow> has_policy ?id (wdb w2)"
    by auto
  show ?case
  proof (intro exI conjI)
    show "run_stages p project False (stage # ss) (w, []) = (Inr (), (w2, []))" using w1(1) w2(1) by (simp add: tx_healthy)
    show "calls w2 = rev (c # new) @ calls w" using w1(4) w2(3) by simp
    show "stage # ss \<noteq> [] \<and> fst (last (stage # ss)) = ''ready'' \<longrightarrow> has_policy ?id (wdb w2)"
      using w1(1,6) w2(1,5) by (cases "ss = []") (auto simp: ret_def)
  qed (use w1 w2 in simp_all)
qed

definition roles_answer :: "'x Roles \<Rightarrow> bool" where
  "roles_answer pg \<longleftrightarrow> (\<forall>role password n. answers (EnsureRole pg role password n)) \<and>
     (\<forall>name owner. answers (EnsureDatabase pg name owner)) \<and> (\<forall>role settings n. answers (ApplyLimits pg role settings n))"

lemma answersE:
  assumes "answers (f :: ('x, unit) io)"
  obtains x' where "f x = (Inr (), x')"
  using assms unfolding answers_def by (metis old.unit.exhaust)

lemma call_works:
  fixes f :: "('x, unit) io"
  assumes "answers f" "\<And>r d. \<exists>c. lg r d = [c] \<and> has_call c = name" "name \<noteq> ''ready''"
  shows "stage_works pid (name, call_out lg f)"
  unfolding stage_works_def
proof (intro allI impI)
  fix w :: "'x world" assume "policy_started pid (wdb w)"
  moreover obtain x' where "f (outside w) = (Inr (), x')" using answersE [OF assms(1)] by blast
  moreover obtain c where "lg (Inr ()) (wdb w) = [c]" "has_call c = name" using assms(2) by blast
  ultimately show "\<exists>w' c. snd (name, call_out lg f) (w, []) = (Inr (), (w', [])) \<and> projects (wdb w') = projects (wdb w) \<and>
      policy_started pid (wdb w') \<and> calls w' = c # calls w \<and> has_call c = fst (name, call_out lg f) \<and>
      (fst (name, call_out lg f) = ''ready'' \<longrightarrow> has_policy pid (wdb w'))"
    using assms(3) by (simp add: call_out_def)
qed

lemma ready_works:
  assumes "roles_answer (PG p)"
  shows "stage_works pid (''ready'', then_tx (applyLimits p pid role limits) (first_policy p pid))"
  unfolding stage_works_def fst_conv snd_conv
proof (intro allI impI)
  fix w :: "'a world" assume started: "policy_started pid (wdb w)"
  obtain x' where x': "ApplyLimits (PG p) role (wanted (PL_Limits limits)) (ConnectionLimit (PL_Limits limits)) (outside w) = (Inr (), x')"
    using assms answersE unfolding roles_answer_def by metis
  define w1 where "w1 = w\<lparr>outside := x', calls := LimitsSet role (wdb w) # calls w,
    wdb := project_limits_update (update_where (\<lambda>r. lim_project_id r = pid \<and> lim_revision r = PL_Revision limits)
      (\<lambda>r. r\<lparr>lim_applied_revision := PL_Revision limits, lim_last_error := ''''\<rparr>)) (wdb w)\<rparr>"
  have run: "applyLimits p pid role limits (w, []) = (Inr (), (w1, []))"
    by (simp add: applyLimits_def set_limits_def tx_healthy call_out_def x' on_db_def MarkLimitsApplied_def w1_def)
  have "policy_started pid (wdb w1)" using started policy_started_other(1) [of "wdb w1" "wdb w" pid] by (simp add: w1_def)
  from first_policy_completes [OF this, of p] obtain w2 where
    w2: "first_policy p pid (w1, []) = (Inr (), (w2, []))" "projects (wdb w2) = projects (wdb w1)"
      "calls w2 = calls w1" "policy_started pid (wdb w2)" "has_policy pid (wdb w2)"
    by blast
  show "\<exists>w' c. then_tx (applyLimits p pid role limits) (first_policy p pid) (w, []) = (Inr (), (w', [])) \<and>
      projects (wdb w') = projects (wdb w) \<and> policy_started pid (wdb w') \<and> calls w' = c # calls w \<and>
      has_call c = ''ready'' \<and> (''ready'' = ''ready'' \<longrightarrow> has_policy pid (wdb w'))"
    using w2 by (intro exI [of _ w2] exI [of _ "LimitsSet role (wdb w)"]) (simp add: tx_healthy run has_call_def w1_def)
qed

lemma stages_work:
  assumes "roles_answer (PG p)" "stage \<in> set (stages p project password limits)"
  shows "stage_works (Project_ID project) stage \<and> fst stage \<noteq> ''deleting''"
  using assms ready_works [OF assms(1)]
  by (auto simp: stages_def roles_answer_def has_call_def intro!: call_works)

text \<open>
  C28. An interrupted provisioning is taken up where it stopped and completes. When no statement fails and
  PostgreSQL accepts what it is asked, a project that is neither failed nor being deleted ends up ready
  and with an access policy, and PostgreSQL is asked exactly for the stages after the recorded one, in
  order.
\<close>

theorem provision_completes:
  assumes "roles_answer (PG p)"
    and "find (\<lambda>r. prj_id r = Project_ID seen) (projects (wdb v)) = Some row" "prj_failed row = 0"
    and "prj_stage row \<in> {''identity_persisted'', ''role_created'', ''database_created''}"
    and "find (\<lambda>s. sec_project_id s = Project_ID seen) (project_secrets (wdb v)) = Some s"
    and "Open p (''project:'' @ Project_ID seen) (sec_sealed_password s) = Some password"
    and "find (\<lambda>l. lim_project_id l = Project_ID seen) (project_limits (wdb v)) = Some l"
    and "policy_started (Project_ID seen) (wdb v)"
  shows "\<exists>v' new. provision p seen (v, []) = (Inr (), (v', [])) \<and>
    project_stage (Project_ID seen) (wdb v') = Some ''ready'' \<and> has_policy (Project_ID seen) (wdb v') \<and>
    calls v' = rev new @ calls v \<and> map has_call new = tl (dropWhile (\<lambda>stage. stage \<noteq> prj_stage row) known_stages)"
proof -
  let ?id = "Project_ID seen" and ?project = "scanProject row" and ?limits = "scanLimits l"
  let ?ss = "stages p ?project password ?limits"
  let ?left = "if prj_stage row = ''identity_persisted'' then ?ss else tl (dropWhile (\<lambda>stage. fst stage \<noteq> prj_stage row) ?ss)"
  have id: "Project_ID ?project = ?id" "prj_id row = ?id" using find_SomeD [OF assms(2)] by (simp_all add: scanProject_def)
  have run: "provision p seen (v, []) = run_stages p ?project False ?left (v, [])"
    using assms(2-7) id(2)
    by (auto simp: provision_def tx_healthy on_db_def get_Project_def projectBy_def SealedPassword_def get_ProjectLimits_def
        known_stages_def scanProject_def stages_def)
  have works: "stage_works ?id stage \<and> fst stage \<noteq> ''deleting''" if "stage \<in> set ?left" for stage
    using stages_work [OF assms(1), of stage ?project password ?limits] that id(1)
    by (auto simp: stages_def split: if_splits)
  have st: "project_stage ?id (wdb v) = Some (prj_stage row)" using assms(2) by (simp add: project_stage_def)
  have "prj_stage row \<noteq> ''deleting''" using assms(4) by auto
  from run_stages_work [of ?left ?project v, unfolded id(1), OF works assms(8) st this] obtain v' new where
    "run_stages p ?project False ?left (v, []) = (Inr (), (v', []))" "project_stage ?id (wdb v') = Some (last (prj_stage row # map fst ?left))"
    "calls v' = rev new @ calls v" "map has_call new = map fst ?left" "?left \<noteq> [] \<and> fst (last ?left) = ''ready'' \<longrightarrow> has_policy ?id (wdb v')"
    by blast
  moreover have "last (prj_stage row # map fst ?left) = ''ready''" "?left \<noteq> [] \<and> fst (last ?left) = ''ready''"
    "map fst ?left = tl (dropWhile (\<lambda>stage. stage \<noteq> prj_stage row) known_stages)"
    using assms(4) by (auto simp: stages_def known_stages_def)
  ultimately show ?thesis using run by (metis (no_types, lifting))
qed

section \<open>A concrete installation\<close>

definition easy_roles :: "unit Roles" where
  "easy_roles = \<lparr>EnsureRole = (\<lambda>_ _ _. io_ret ()), EnsureDatabase = (\<lambda>_ _. io_ret ()), ApplyLimits = (\<lambda>_ _ _. io_ret ()),
     RoleStates = io_ret (\<lambda>_. None), ResetDatabaseLimits = (\<lambda>_ _ _. io_ret ()), SetPassword = (\<lambda>_ _. io_ret ()),
     TerminateSessions = (\<lambda>_ _. io_ret ()), DropProject = (\<lambda>_ _. io_ret ())\<rparr>"

definition accepting :: "unit Manager" where
  "accepting = \<lparr>Dir = ''/hba'', TunnelSource = '''', HBAFileErrors = io_ret [], Reload = io_ret 0\<rparr>"

definition easy_provisioner :: "unit Provisioner" where
  "easy_provisioner = \<lparr>PG = easy_roles, HBA = accepting, Seal = (\<lambda>_ s. ''s'' @ s), Open = (\<lambda>_ s. Some (drop 1 s)),
     Clock = (\<lambda>x. (5 * second, x)), Done = (\<lambda>x. (False, x)), TryLock = (\<lambda>_ x. (True, x)), Token = (\<lambda>x. (''new'', x)),
     Unmarshal_addresses = (\<lambda>_. Inr [''10.0.0.1'']), Text = (\<lambda>_. ''e'')\<rparr>"

definition shop :: "string \<Rightarrow> db" where
  "shop stage = limited\<lparr>projects := [(hd (projects running_backup))\<lparr>prj_stage := stage\<rparr>],
     project_secrets := [\<lparr>sec_project_id = ''p'', sec_sealed_password = ''sold'', sec_pending_password_sealed = None, sec_pending_request_id = ''''\<rparr>],
     policy_state := [\<lparr>pol_project_id = ''p'', pol_current_revision = 0, pol_applied_revision = 0, pol_state = ''pending'', pol_last_error = ''''\<rparr>]\<rparr>"

definition shop_world :: "string \<Rightarrow> unit world" where
  "shop_world stage = \<lparr>wdb = shop stage, outside = (), calls = [], files = (\<lambda>_. None)\<rparr>"

lemma easy_answers: "roles_answer (PG easy_provisioner)" "rotations_free easy_provisioner"
  by (simp_all add: roles_answer_def rotations_free_def easy_provisioner_def easy_roles_def answers_def io_ret_def)

theorem provision_completes_witness:
  "let v' = leaves (provision easy_provisioner (scanProject (hd (projects (shop ''role_created''))))) (shop_world ''role_created'', [])
   in project_stage ''p'' (wdb v') = Some ''ready'' \<and> map has_call (calls v') = [''ready'', ''database_created'']"
proof -
  let ?seen = "scanProject (hd (projects (shop ''role_created'')))"
  have id: "Project_ID ?seen = ''p''" by code_simp
  have "\<exists>v' new. provision easy_provisioner ?seen (shop_world ''role_created'', []) = (Inr (), (v', [])) \<and>
    project_stage (Project_ID ?seen) (wdb v') = Some ''ready'' \<and> has_policy (Project_ID ?seen) (wdb v') \<and>
    calls v' = rev new @ calls (shop_world ''role_created'') \<and>
    map has_call new = tl (dropWhile (\<lambda>stage. stage \<noteq> prj_stage (hd (projects (shop ''role_created'')))) known_stages)"
    by (rule provision_completes [OF easy_answers(1)])
      (simp_all add: id, simp_all add: shop_world_def shop_def limited_def running_backup_def empty_db_def easy_provisioner_def
        policy_started_def project_exists_def)
  then obtain v' new where *: "provision easy_provisioner ?seen (shop_world ''role_created'', []) = (Inr (), (v', []))"
    "project_stage ''p'' (wdb v') = Some ''ready''" "calls v' = rev new @ calls (shop_world ''role_created'')"
    "map has_call new = tl (dropWhile (\<lambda>stage. stage \<noteq> prj_stage (hd (projects (shop ''role_created'')))) known_stages)"
    unfolding id by blast
  have "tl (dropWhile (\<lambda>stage. stage \<noteq> prj_stage (hd (projects (shop ''role_created'')))) known_stages) = [''database_created'', ''ready'']"
    by code_simp
  then have "map has_call (calls v') = [''ready'', ''database_created'']"
    using * by (simp add: shop_world_def rev_map [symmetric])
  with * show ?thesis by (simp add: leaves_def)
qed

definition shop_pending :: "unit world" where
  "shop_pending = (shop_world ''ready'')\<lparr>wdb := (shop ''ready'')\<lparr>project_secrets := [\<lparr>sec_project_id = ''p'', sec_sealed_password = ''sold'',
     sec_pending_password_sealed = Some ''snew'', sec_pending_request_id = ''r''\<rparr>]\<rparr>\<rparr>"

theorem FinishRotations_completes_witness:
  "stored_password ''p'' (wdb shop_pending) = Some ''sold'' \<and>
   stored_password ''p'' (wdb (leaves (FinishRotations easy_provisioner) (shop_pending, []))) = Some ''snew''"
proof -
  have "stored_password ''p'' (wdb shop_pending) = Some ''sold''" by code_simp
  moreover have "\<exists>v'. FinishRotations easy_provisioner (shop_pending, []) = (Inr (), (v', [])) \<and>
      stored_password (sec_project_id (hd (project_secrets (wdb shop_pending)))) (wdb v') = Some ''snew'' \<and>
      pending_password (sec_project_id (hd (project_secrets (wdb shop_pending)))) (wdb v') = None"
    by (rule FinishRotations_completes [OF easy_answers(2), where r = "hd (projects (shop ''ready''))"])
      (simp_all add: shop_pending_def shop_world_def shop_def limited_def running_backup_def empty_db_def easy_provisioner_def)
  moreover have "sec_project_id (hd (project_secrets (wdb shop_pending))) = ''p''" by code_simp
  ultimately show ?thesis by (auto simp: leaves_def)
qed

theorem Rotate_outcome_witness:
  "fst (Rotate easy_provisioner (scanProject (hd (projects (shop ''ready'')))) rotation_entry (shop_world ''ready'', [])) = Inr ''new'' \<and>
   stored_password ''p'' (wdb (leaves (Rotate easy_provisioner (scanProject (hd (projects (shop ''ready'')))) rotation_entry)
     (shop_world ''ready'', []))) = Some ''snew''"
proof -
  let ?m = "Rotate easy_provisioner (scanProject (hd (projects (shop ''ready'')))) rotation_entry"
  have r: "fst (?m (shop_world ''ready'', [])) = Inr ''new''" by code_simp
  obtain v' fs' where run: "?m (shop_world ''ready'', []) = (Inr ''new'', (v', fs'))" using r by (metis prod.collapse)
  have id: "Project_ID (scanProject (hd (projects (shop ''ready'')))) = ''p''" by code_simp
  have "distinct (map sec_project_id (project_secrets (wdb (shop_world ''ready''))))" by code_simp
  from Rotate_outcome [OF this run] have "stored_password ''p'' (wdb v') = Some (Seal easy_provisioner (''project:'' @ ''p'') ''new'')"
    by (simp add: Let_def id)
  then show ?thesis using r run by (simp add: leaves_def easy_provisioner_def)
qed

end
