(* ===== verification/Policy_Sync.thy ===== *)
theory Policy_Sync
  imports Provisioning_Safety
begin

text \<open>
  The access policy shown to the operator is the one PostgreSQL runs: what \<^verbatim>\<open>SyncPolicy\<close> of
  \<^verbatim>\<open>internal/provision/provision.go\<close> records as applied was loaded, from the addresses of that revision.
\<close>

section \<open>An applied policy is loaded\<close>

text \<open>The address list of a revision as it is stored, decoded and brought to canonical form.\<close>

definition policy_list :: "'x Provisioner \<Rightarrow> string \<Rightarrow> int \<Rightarrow> db \<Rightarrow> err + string list" where
  "policy_list p pid revision d =
     (case Unmarshal_addresses p (coalesce (map_option rev_addresses
        (find (\<lambda>r. rev_project_id r = pid \<and> rev_revision r = revision) (policy_revisions d))) ''[]'') of
       Inl e \<Rightarrow> Inl e | Inr addresses \<Rightarrow> Normalize addresses)"

definition covered :: "'x Provisioner \<Rightarrow> Rule list \<Rightarrow> string \<Rightarrow> int \<Rightarrow> db \<Rightarrow> bool" where
  "covered p rules pid revision d \<longleftrightarrow> (\<exists>row \<in> set (projects d). prj_id row = pid \<and> prj_stage row = ''ready'' \<and>
     (\<exists>normalized. policy_list p pid revision d = Inr normalized \<and> rule_of (scanProject row) normalized \<in> set rules))"

definition all_covered :: "'x Provisioner \<Rightarrow> Rule list \<Rightarrow> (string \<times> PolicyState) list \<Rightarrow> db \<Rightarrow> bool" where
  "all_covered p rules revisions d \<longleftrightarrow>
     (\<forall>(pid, st) \<in> set revisions. covered p rules pid (PolicyState_CurrentRevision st) d)"

text \<open>A row shown as applied was there before, or its rules are the ones PostgreSQL loaded last.\<close>

definition loaded :: "'x Provisioner \<Rightarrow> call list \<Rightarrow> policy_state_row \<Rightarrow> 'x world \<Rightarrow> bool" where
  "loaded p cs r w \<longleftrightarrow> (\<exists>rules d. calls w = RulesLoaded (Render (TunnelSource (HBA p)) rules) d # cs \<and>
     files w (rules_file (HBA p)) = Some (Render (TunnelSource (HBA p)) rules) \<and>
     covered p rules (pol_project_id r) (pol_applied_revision r) d)"

definition applied_ok :: "'x Provisioner \<Rightarrow> policy_state_row list \<Rightarrow> call list \<Rightarrow> 'x world \<Rightarrow> bool" where
  "applied_ok p old cs w \<longleftrightarrow>
     (\<forall>r \<in> set (policy_state (wdb w)). pol_state r = ''applied'' \<longrightarrow> r \<in> set old \<or> loaded p cs r w)"

definition nothing_loaded :: "policy_state_row list \<Rightarrow> call list \<Rightarrow> 'x world \<Rightarrow> bool" where
  "nothing_loaded old cs w \<longleftrightarrow> calls w = cs \<and>
     (\<forall>r \<in> set (policy_state (wdb w)). pol_state r = ''applied'' \<longrightarrow> r \<in> set old)"

lemma nothing_loaded_ok: "nothing_loaded old cs w \<Longrightarrow> applied_ok p old cs w"
  by (simp add: nothing_loaded_def applied_ok_def)

definition collecting :: "'x Provisioner \<Rightarrow> policy_state_row list \<Rightarrow> call list \<Rightarrow> Project list \<Rightarrow> Rule list \<Rightarrow>
    (string \<times> PolicyState) list \<Rightarrow> 'x world \<Rightarrow> bool" where
  "collecting p old cs ps rules revisions w \<longleftrightarrow> nothing_loaded old cs w \<and> all_covered p rules revisions (wdb w) \<and>
     (\<forall>project \<in> set ps. on_record project (wdb w))"

text \<open>A failed outcome only takes rows out of the applied ones.\<close>

lemma keeps_refuse:
  "keeps (collecting p old cs ps rules revisions) (ignoring (on_db (ApplyPolicyResult pid n False msg)))"
  "keeps (nothing_loaded old cs) (ignoring (on_db (ApplyPolicyResult pid n False msg)))"
proof -
  let ?u = "policy_state_update (update_where (\<lambda>r. pol_project_id r = pid \<and> pol_current_revision r = n)
     (\<lambda>r. r\<lparr>pol_state := ''failed'', pol_last_error := msg\<rparr>))"
  have refuse: "nothing_loaded old cs (w\<lparr>wdb := ?u (wdb w)\<rparr>)" if "nothing_loaded old cs w" for w :: "'x world"
    using that by (auto simp: nothing_loaded_def in_update_where)
  have others: "all_covered p rules revisions (?u d) = all_covered p rules revisions d" "on_record project (?u d) = on_record project d" for d project
    by (simp_all add: all_covered_def covered_def policy_list_def on_record_def)
  show "keeps (collecting p old cs ps rules revisions) (ignoring (on_db (ApplyPolicyResult pid n False msg)))"
    unfolding ApplyPolicyResult_def if_False
    by (rule keeps_ignoring, subst triple_keeps, rule triple_exec) (auto simp: collecting_def others refuse)
  show "keeps (nothing_loaded old cs) (ignoring (on_db (ApplyPolicyResult pid n False msg)))"
    unfolding ApplyPolicyResult_def if_False
    by (rule keeps_ignoring, subst triple_keeps, rule triple_exec) (auto simp: refuse)
qed

lemma get_PolicyState_text:
  "get_PolicyState pid (d, fs) = (Inr st, (d', fs')) \<Longrightarrow> d' = d \<and> PolicyState_Addresses st =
     coalesce (map_option rev_addresses (find (\<lambda>r. rev_project_id r = pid \<and> rev_revision r = PolicyState_CurrentRevision st) (policy_revisions d))) ''[]''"
  by (auto simp: get_PolicyState_def tx_simps split: option.splits dest!: find_SomeD)

lemma all_covered_add:
  assumes "all_covered p rules revisions d" "on_record project d" "Project_Stage project = ''ready''"
    "policy_list p (Project_ID project) (PolicyState_CurrentRevision st) d = Inr normalized"
  shows "all_covered p (rules @ [rule_of project normalized]) (revisions @ [(Project_ID project, st)]) d"
  using assms by (force simp: all_covered_def covered_def on_record_def scanProject_def)

lemma collect_rules_covered:
  "triple (collecting p old cs ps rules revisions) (collect_rules p ps rules revisions)
     (\<lambda>(rules, revisions). collecting p old cs [] rules revisions) (nothing_loaded old cs)"
proof (induction ps arbitrary: rules revisions)
  case Nil
  then show ?case by (auto intro!: triple_ret)
next
  case (Cons project ps)
  let ?C = "collecting p old cs" and ?id = "Project_ID project"
  let ?st = "\<lambda>st d. PolicyState_Addresses st = coalesce (map_option rev_addresses
      (find (\<lambda>r. rev_project_id r = ?id \<and> rev_revision r = PolicyState_CurrentRevision st) (policy_revisions d))) ''[]''"
  have weaken: "?C ps rules revisions w" if "?C (project # ps) rules revisions w" for w rules revisions
    using that by (simp add: collecting_def)
  have skip: "triple (?C (project # ps) rules revisions) (collect_rules p ps rules revisions)
      (\<lambda>(rules, revisions). ?C [] rules revisions) (nothing_loaded old cs)" for rules revisions
    by (rule triple_conseq [OF Cons.IH]) (simp_all add: weaken)
  have read: "triple (?C (project # ps) rules revisions) (on_db (get_PolicyState ?id))
      (\<lambda>st w. ?C (project # ps) rules revisions w \<and> ?st st (wdb w)) (nothing_loaded old cs)"
  proof (rule triple_on_db)
    fix w :: "'a world" and fs e d fs'
    assume "?C (project # ps) rules revisions w" "get_PolicyState ?id (wdb w, fs) = (Inl e, (d, fs'))"
    moreover from this(2) have "d = wdb w" using keepsD_eq [OF keeps_get_PolicyState [of "\<lambda>x. x = wdb w"]] by fastforce
    ultimately show "nothing_loaded old cs (w\<lparr>wdb := d\<rparr>)" by (simp add: collecting_def)
  qed (drule get_PolicyState_text, simp)
  have step: "triple (\<lambda>w. ?C (project # ps) rules revisions w \<and> ?st st (wdb w))
      (case Unmarshal_addresses p (PolicyState_Addresses st) of Inl e \<Rightarrow> throw e
       | Inr addresses \<Rightarrow> (case Normalize addresses of
            Inl e \<Rightarrow> then_tx (ignoring (on_db (ApplyPolicyResult ?id (PolicyState_CurrentRevision st) False (Text p e))))
              (collect_rules p ps rules revisions)
          | Inr normalized \<Rightarrow> collect_rules p ps (rules @ [rule_of project normalized]) (revisions @ [(?id, st)])))
      (\<lambda>(rules, revisions). ?C [] rules revisions) (nothing_loaded old cs)" if ready: "Project_Stage project = ''ready''" for st
  proof (cases "Unmarshal_addresses p (PolicyState_Addresses st)")
    case (Inl e)
    then show ?thesis by (auto intro!: triple_throw simp: collecting_def)
  next
    case (Inr addresses)
    show ?thesis
    proof (cases "Normalize addresses")
      case (Inl e)
      have "triple (?C (project # ps) rules revisions) (ignoring (on_db (ApplyPolicyResult ?id (PolicyState_CurrentRevision st) False (Text p e))))
          (\<lambda>_. ?C (project # ps) rules revisions) (nothing_loaded old cs)"
        using keeps_refuse(1) [of p old cs "project # ps" rules revisions, unfolded triple_keeps] by (rule triple_error) (simp add: collecting_def)
      then show ?thesis
        unfolding Inr Inl sum.case by (rule triple_pre [OF triple_then [OF _ skip]]) simp
    next
      case (Inr normalized)
      have "?C ps (rules @ [rule_of project normalized]) (revisions @ [(?id, st)]) w"
        if "?C (project # ps) rules revisions w" "?st st (wdb w)" for w
        using that Inr \<open>Unmarshal_addresses p (PolicyState_Addresses st) = Inr addresses\<close> ready
        by (auto simp: collecting_def policy_list_def intro!: all_covered_add)
      with Inr \<open>Unmarshal_addresses p (PolicyState_Addresses st) = Inr addresses\<close> show ?thesis
        by (simp, intro triple_conseq [OF Cons.IH]) simp_all
    qed
  qed
  show ?case
    using triple_bind [OF read step] skip by simp
qed

lemma Apply_error_silent:
  assumes "Apply err_text m rules s = (Inl e, s')"
  shows "calls (fst s') = calls (fst s) \<and> wdb (fst s') = wdb (fst s)"
proof -
  let ?X = "\<lambda>w. calls w = calls (fst s) \<and> wdb w = wdb (fst s)"
  have io: "keeps ?X (on_files f)" for f :: "_ \<Rightarrow> 'c \<times> _"
    by (subst triple_keeps, rule triple_on_files) auto
  have load: "triple ?X (validate_and_load err_text m content) (\<lambda>_ _. True) ?X" for content
    unfolding validate_and_load_def
    by (rule triple_bind [where R = "\<lambda>_. ?X"], rule triple_attempt, rule triple_call)
      (auto simp: unlogged_def intro!: triple_throw triple_call split: sum.split)
  have "triple ?X (Apply err_text m rules) (\<lambda>_ _. True) ?X"
    unfolding Apply_def Let_def
  proof (rule triple_bind [where R = "\<lambda>_. ?X"])
    show "triple ?X (on_files (\<lambda>f. (f (rules_file m), f))) (\<lambda>_. ?X) ?X" by (rule triple_on_files) auto
    fix previous
    have load': "triple ?X (attempt (validate_and_load err_text m (Render (TunnelSource m) rules)))
        (\<lambda>r w. case r of Inl _ \<Rightarrow> ?X w | Inr _ \<Rightarrow> True) ?X"
      by (rule triple_attempt) (use load in simp)
    have "triple (\<lambda>w. case r of Inl _ \<Rightarrow> ?X w | Inr _ \<Rightarrow> True)
        (case r of Inl e \<Rightarrow> then_tx (restore_file (rules_file m) previous) (throw e) | Inr t \<Rightarrow> ret t) (\<lambda>_ _. True) ?X" for r
    proof (cases r)
      case (Inl e)
      have "keeps ?X (restore_file (rules_file m) previous)"
        unfolding restore_file_def write_file_def by (intro tx_keeps io)
      then show ?thesis using Inl by (auto simp: triple_keeps intro!: triple_then [where R = "\<lambda>_. ?X"] triple_throw)
    qed (auto intro!: triple_ret)
    note rest = triple_bind [OF load' this]
    have "keeps ?X (write_file (rules_file m) (Render (TunnelSource m) rules))"
      unfolding write_file_def by (intro tx_keeps io)
    then show "triple ?X (then_tx (write_file (rules_file m) (Render (TunnelSource m) rules))
        (bind_tx (attempt (validate_and_load err_text m (Render (TunnelSource m) rules))) (\<lambda>r. case r of
           Inl e \<Rightarrow> then_tx (restore_file (rules_file m) previous) (throw e) | Inr t \<Rightarrow> ret t))) (\<lambda>_ _. True) ?X"
      unfolding triple_keeps by (rule triple_then) (rule rest)
  qed
  from tripleD_Inl [OF this _ assms] show ?thesis by simp
qed

definition outcome_ok :: "'x Provisioner \<Rightarrow> policy_state_row list \<Rightarrow> call list \<Rightarrow> (string \<times> PolicyState) list \<Rightarrow>
    err + gotime \<Rightarrow> 'x world \<Rightarrow> bool" where
  "outcome_ok p old cs revisions outcome w = (case outcome of
     Inl _ \<Rightarrow> nothing_loaded old cs w
   | Inr _ \<Rightarrow> applied_ok p old cs w \<and> (\<forall>(pid, st) \<in> set revisions. \<forall>r. pol_project_id r = pid \<and>
       pol_applied_revision r = PolicyState_CurrentRevision st \<longrightarrow> loaded p cs r w))"

lemma outcome_ok_applied: "outcome_ok p old cs revisions outcome w \<Longrightarrow> applied_ok p old cs w"
  by (cases outcome) (auto simp: outcome_ok_def nothing_loaded_ok)

lemma Apply_covered:
  "triple (collecting p old cs [] rules revisions) (attempt (Apply (Text p) (HBA p) rules))
     (outcome_ok p old cs revisions) E"
proof (rule triple_attempt, rule tripleI)
  fix s x s' assume c: "collecting p old cs [] rules revisions (fst s)" and run: "Apply (Text p) (HBA p) rules s = (Inr x, s')"
  note l = Apply_loads [of "Text p" "HBA p" rules "fst s" "snd s" x "fst s'"]
  have r: "returns (Apply (Text p) (HBA p) rules) (fst s, snd s) x (fst s')" using run by (simp add: returns_def)
  have "loaded p cs r (fst s')" if "(pol_project_id r, st) \<in> set revisions" "pol_applied_revision r = PolicyState_CurrentRevision st" for r st
    using that c l [OF r] by (auto simp: loaded_def collecting_def nothing_loaded_def all_covered_def)
  moreover have "applied_ok p old cs (fst s')"
    using c l(3) [OF r] by (auto simp: applied_ok_def collecting_def nothing_loaded_def)
  ultimately show "outcome_ok p old cs revisions (Inr x) (fst s')" by (auto simp: outcome_ok_def)
next
  fix s e s' assume c: "collecting p old cs [] rules revisions (fst s)" and run: "Apply (Text p) (HBA p) rules s = (Inl e, s')"
  then show "\<forall>e. outcome_ok p old cs revisions (Inl e) (fst s')"
    using Apply_error_silent [OF run] by (auto simp: outcome_ok_def collecting_def nothing_loaded_def)
qed

lemma loaded_other_db: "loaded p cs r (w\<lparr>wdb := d\<rparr>) = loaded p cs r w"
  by (simp add: loaded_def)

lemma record_outcome_ok:
  assumes "entry \<in> set revisions"
  shows "keeps (outcome_ok p old cs revisions outcome) (record_outcome p outcome entry)"
proof (cases outcome)
  case (Inl e)
  then show ?thesis
    using keeps_refuse(2) by (cases entry) (auto simp: record_outcome_def outcome_ok_def [abs_def] intro: keeps_ret)
next
  case (Inr t)
  obtain pid st where entry: "entry = (pid, st)" by (cases entry)
  have "keeps (outcome_ok p old cs revisions (Inr t)) (ignoring (on_db (ApplyPolicyResult pid (PolicyState_CurrentRevision st) True '''')))"
    unfolding ApplyPolicyResult_def
    unfolding if_True
  proof (rule keeps_ignoring, subst triple_keeps, rule triple_exec)
    fix w :: "'a world"
    let ?u = "policy_state_update (update_where (\<lambda>r. pol_project_id r = pid \<and> pol_current_revision r = PolicyState_CurrentRevision st)
      (\<lambda>r. r\<lparr>pol_applied_revision := PolicyState_CurrentRevision st, pol_state := ''applied'', pol_last_error := ''''\<rparr>))"
    assume w: "outcome_ok p old cs revisions (Inr t) w"
    have "loaded p cs r w" if "pol_project_id r = pid" "pol_applied_revision r = PolicyState_CurrentRevision st" for r
      using w assms entry that by (auto simp: outcome_ok_def)
    then show "outcome_ok p old cs revisions (Inr t) (w\<lparr>wdb := ?u (wdb w)\<rparr>)"
      using w by (auto simp: outcome_ok_def applied_ok_def loaded_other_db in_update_where)
  qed
  then show ?thesis using Inr entry by (simp add: record_outcome_def)
qed

text \<open>
  C17. A policy is shown as applied only when PostgreSQL has loaded it. Whatever fails and whatever PostgreSQL
  answers, after the access policy was synchronised a row that was not shown as applied before is shown so
  only if the last thing done to PostgreSQL was loading the rule file that is now in place, and that file
  was rendered from a rule of that project, ready at that moment, with exactly the addresses of the
  revision the row names.
\<close>

theorem applied_means_loaded:
  assumes "r \<in> set (policy_state (wdb (leaves (SyncPolicy p) (v, fs))))" "pol_state r = ''applied''"
    and "r \<notin> set (policy_state (wdb v))"
  shows "\<exists>rules d. calls (leaves (SyncPolicy p) (v, fs)) = RulesLoaded (Render (TunnelSource (HBA p)) rules) d # calls v \<and>
     files (leaves (SyncPolicy p) (v, fs)) (rules_file (HBA p)) = Some (Render (TunnelSource (HBA p)) rules) \<and>
     covered p rules (pol_project_id r) (pol_applied_revision r) d"
proof -
  let ?old = "policy_state (wdb v)" and ?cs = "calls v"
  let ?start = "\<lambda>w :: 'a world. calls w = ?cs \<and> policy_state (wdb w) = ?old"
  have listing: "triple ?start (on_db Projects) (\<lambda>ps. collecting p ?old ?cs ps [] []) (nothing_loaded ?old ?cs)"
    unfolding Projects_def
    by (rule triple_query) (auto simp: collecting_def nothing_loaded_def all_covered_def on_record_def)
  have rest: "triple (outcome_ok p ?old ?cs revisions outcome)
      (then_tx (for_each (record_outcome p outcome) revisions) (case outcome of Inl e \<Rightarrow> throw e | Inr _ \<Rightarrow> ret ()))
      (\<lambda>_. applied_ok p ?old ?cs) (applied_ok p ?old ?cs)" for outcome revisions
  proof -
    have "keeps (outcome_ok p ?old ?cs revisions outcome)
      (then_tx (for_each (record_outcome p outcome) revisions) (case outcome of Inl e \<Rightarrow> throw e | Inr _ \<Rightarrow> ret ()))"
      by (intro keeps_then keeps_for_each_in record_outcome_ok keeps_result keeps_throw keeps_ret)
    then show ?thesis
      unfolding triple_keeps by (rule triple_conseq) (simp_all add: outcome_ok_applied)
  qed
  have "triple (case x of (rules, revisions) \<Rightarrow> collecting p ?old ?cs [] rules revisions)
      (case x of (rules, revisions) \<Rightarrow> bind_tx (attempt (Apply (Text p) (HBA p) rules)) (\<lambda>outcome.
         then_tx (for_each (record_outcome p outcome) revisions) (case outcome of Inl e \<Rightarrow> throw e | Inr _ \<Rightarrow> ret ())))
      (\<lambda>_. applied_ok p ?old ?cs) (applied_ok p ?old ?cs)" for x
    by (cases x) (simp add: triple_bind [OF Apply_covered rest])
  note collected = triple_bind [OF triple_error [OF collect_rules_covered nothing_loaded_ok] this]
  have "triple ?start (SyncPolicy p) (\<lambda>_. applied_ok p ?old ?cs) (applied_ok p ?old ?cs)"
    unfolding SyncPolicy_def by (rule triple_bind [OF triple_error [OF listing nothing_loaded_ok] collected])
  then have "applied_ok p ?old ?cs (leaves (SyncPolicy p) (v, fs))"
    by (rule triple_leaves) simp_all
  then show ?thesis using assms by (auto simp: applied_ok_def loaded_def)
qed

theorem applied_means_loaded_witness:
  "\<exists>rules d. calls (leaves (SyncPolicy easy_provisioner) (shop_world ''ready'', [])) =
     [RulesLoaded (Render '''' rules) d] \<and> covered easy_provisioner rules ''p'' 0 d"
proof -
  let ?m = "SyncPolicy easy_provisioner"
  define r :: policy_state_row where "r = \<lparr>pol_project_id = ''p'', pol_current_revision = 0, pol_applied_revision = 0, pol_state = ''applied'', pol_last_error = ''''\<rparr>"
  have "policy_state (wdb (leaves ?m (shop_world ''ready'', []))) = [r]" unfolding r_def by code_simp
  then have "r \<in> set (policy_state (wdb (leaves ?m (shop_world ''ready'', []))))" by simp
  moreover have "pol_state r = ''applied''" "r \<notin> set (policy_state (wdb (shop_world ''ready'')))"
    by (simp_all add: r_def shop_world_def shop_def)
  ultimately show ?thesis
    using applied_means_loaded [of r easy_provisioner "shop_world ''ready''" "[]"]
    by (auto simp: r_def shop_world_def easy_provisioner_def accepting_def)
qed

end
