(* ===== verification/Worker_Safety.thy ===== *)
theory Worker_Safety
  imports Worker_Jobs Retention_Safety Policy_Sync
begin

text \<open>
  The work on a job and the two tables it shares with everything else: the locale \<open>worker_invariant\<close> states
  what a condition on projects and jobs must survive, its lemmas that the whole work on a job survives it,
  and its interpretations give the end of the queue loop and the finality of a tombstone.
\<close>

section \<open>What the work on a job leaves alone\<close>

text \<open>
  The interface between the queue and the work: a condition on the projects and jobs that survives what the
  worker, the provisioner and retention do to these two tables. Jobs only lose rows, keep their ids and
  never return to the queue; projects only lose rows, keep their ids and names, and a tombstone stays.
\<close>

definition requeues :: "(job_row \<Rightarrow> job_row) \<Rightarrow> bool" where
  "requeues f \<longleftrightarrow> (\<exists>j. job_id (f j) \<noteq> job_id j \<or> (job_state (f j) = ''queued'' \<and> job_state j \<noteq> ''queued''))"

definition revives :: "(project_row \<Rightarrow> bool) \<Rightarrow> (project_row \<Rightarrow> project_row) \<Rightarrow> bool" where
  "revives P f \<longleftrightarrow> (\<exists>r. prj_id (f r) \<noteq> prj_id r \<or> prj_db_name (f r) \<noteq> prj_db_name r \<or> prj_role_name (f r) \<noteq> prj_role_name r \<or>
     (P r \<and> prj_stage r = ''deleting'' \<and> prj_stage (f r) \<noteq> ''deleting''))"

text \<open>Reads keep everything.\<close>

lemma reads_kept:
  "keeps I (PrefixBackups target db)" "keeps I (AbandonedUploadKey target k at)" "keeps I (Setting k)"
  "keeps I (get_StorageTarget target)" "keeps I get_BackupPolicy" "keeps I Maintenance" "keeps I Projects"
  "keeps I (get_Project pid)" "keeps I (SealedPassword pid)" "keeps I (BackupCandidates target iid at due)"
  unfolding PrefixBackups_def AbandonedUploadKey_def Setting_def get_StorageTarget_def get_BackupPolicy_def Maintenance_def
    Projects_def get_Project_def SealedPassword_def BackupCandidates_def
  by (auto intro!: tx_keeps split: option.split)

locale worker_invariant =
  fixes I :: "db \<Rightarrow> bool"
  assumes other_tables: "I d \<Longrightarrow> projects d' = projects d \<Longrightarrow> jobs d' = jobs d \<Longrightarrow> I d'"
    and jobs_updated: "I d \<Longrightarrow> \<not> requeues f \<Longrightarrow> I (d\<lparr>jobs := update_where P f (jobs d)\<rparr>)"
    and jobs_deleted: "I d \<Longrightarrow> I (d\<lparr>jobs := delete_where P (jobs d)\<rparr>)"
    and projects_updated: "I d \<Longrightarrow> \<not> revives Q g \<Longrightarrow> I (d\<lparr>projects := update_where Q g (projects d)\<rparr>)"
    and projects_deleted: "I d \<Longrightarrow> I (d\<lparr>projects := delete_where Q (projects d)\<rparr>)"
begin

lemma jobs_update_kept: "I d \<Longrightarrow> \<not> requeues f \<Longrightarrow> I (jobs_update (update_where P f) d)"
  using jobs_updated [of d f P] by (rule other_tables) simp_all

lemma projects_update_kept: "I d \<Longrightarrow> \<not> revives Q g \<Longrightarrow> I (projects_update (update_where Q g) d)"
  using projects_updated [of d Q g] by (rule other_tables) simp_all

lemma projects_delete_kept: "I d \<Longrightarrow> I (projects_update (delete_where Q) d)"
  using projects_deleted [of d Q] by (rule other_tables) simp_all

lemma exec_other: "(\<And>d. projects (u d) = projects d \<and> jobs (u d) = jobs d) \<Longrightarrow> keeps I (exec u)"
  by (rule keeps_exec, erule other_tables) simp_all

lemma affected_other: "(\<And>d. projects (snd (u d)) = projects d \<and> jobs (snd (u d)) = jobs d) \<Longrightarrow> keeps I (exec_affected u)"
  by (rule keeps_exec_affected, erule other_tables) simp_all

lemma insert_other: "(\<And>d d'. u d = Some d' \<Longrightarrow> projects d' = projects d \<and> jobs d' = jobs d) \<Longrightarrow> keeps I (exec_insert u)"
  by (rule keeps_exec_insert, erule other_tables) simp_all

lemmas other_writes = exec_other affected_other insert_other

lemma retention_store:
  "keeps I (ActivateStorageTarget t)" "keeps I (SetTargetReconciled target at e)" "keeps I (ReplacePrefix target ps bs at)"
  "keeps I (TombstonePrefixes target present at)" "keeps I (ForgetBucketBackup target k)" "keeps I (DeleteLocalBackupRow target k)"
  "keeps I (MarkBackupDeleting target k at)" "keeps I (MarkBackupArchiveOnly target k)" "keeps I (ForgetLostLocalBackups target)"
  unfolding ActivateStorageTarget_def SetTargetReconciled_def ReplacePrefix_def TombstonePrefixes_def ForgetBucketBackup_def
    DeleteLocalBackupRow_def MarkBackupDeleting_def MarkBackupArchiveOnly_def ForgetLostLocalBackups_def
  by (auto intro!: tx_keeps other_writes)

lemma PruneJobs_kept: "keeps I (PruneJobs at)"
  unfolding PruneJobs_def by (auto intro!: keeps_exec_affected jobs_deleted)

lemmas retention_kept = retention_store PruneJobs_kept reads_kept

lemma Reconcile_kept: "keeps (of_db I) (Reconcile w)"
proof -
  have delete: "keeps (of_db I) (deleteBackup w client target b)" for client target b
    unfolding deleteBackup_def finishDelete_def remove_object_def read_manifest_def now_def
    by (intro tx_keeps retention_kept)
  have clean: "keeps (of_db I) (cleanAbandonedUploads w client target bs)" for client target bs
    unfolding cleanAbandonedUploads_def cleanAbandonedUpload_def remove_object_def now_def Let_def
    by (intro tx_keeps retention_kept)
  have database: "keeps (of_db I) (retainDatabase w client target name policy)" for client target name policy
    unfolding retainDatabase_def finishDelete_def remove_object_def now_def
    by (intro tx_keeps retention_kept delete clean)
  have fully: "keeps (of_db I) (reconciled_fully w client st databases)" for client st databases
    unfolding reconciled_fully_def retain_def Policy_def pruneHistory_def now_def
    by (intro tx_keeps retention_kept database)
  have prefix: "keeps (of_db I) (reconcilePrefix w client target name)" for client target name
    unfolding reconcilePrefix_def record_entry_def read_owner_def read_manifest_def now_def Let_def
    by (intro tx_keeps retention_kept)
  show ?thesis
    unfolding Reconcile_def reconcile_def reconcile_databases_def reconcile_failed_def StorageSettings_def now_def
    by (intro tx_keeps retention_kept fully prefix)
qed

lemma provision_store:
  "keeps I (ApplyPolicyResult pid n ok msg)" "keeps I (MarkLimitsApplied pid n)" "keeps I (RecordPolicyRevision pid n a t)"
  unfolding ApplyPolicyResult_def MarkLimitsApplied_def RecordPolicyRevision_def insert_revision_def set_current_def Let_def
  by (auto intro!: tx_keeps other_writes split: if_splits)

lemma stages_kept: "name \<noteq> ''deleting'' \<Longrightarrow> keeps I (SetProjectStage pid name t)" "keeps I (FailProject pid msg)"
  unfolding SetProjectStage_def FailProject_def
  by (auto intro!: tx_keeps projects_update_kept simp: revives_def)

lemma Apply_kept: "keeps (of_db I) (Apply err_text m rules)"
  unfolding Apply_def write_file_def restore_file_def validate_and_load_def Let_def by (intro tx_keeps)

lemma collect_rules_kept: "keeps (of_db I) (collect_rules p ps rules revisions)"
  by (induction ps arbitrary: rules revisions) (auto intro!: tx_keeps provision_store split: sum.split)

lemma SyncPolicy_kept: "keeps (of_db I) (SyncPolicy p)"
proof -
  have outcome: "keeps (of_db I) (record_outcome p r entry)" for r entry
    unfolding record_outcome_def by (cases entry) (auto intro!: tx_keeps provision_store split: sum.split)
  show ?thesis
    unfolding SyncPolicy_def case_prod_beta
    by (intro tx_keeps reads_kept collect_rules_kept outcome Apply_kept)
qed

lemma run_stages_kept:
  "(\<And>stage. stage \<in> set ss \<Longrightarrow> keeps (of_db I) (snd stage) \<and> fst stage \<noteq> ''deleting'') \<Longrightarrow> keeps (of_db I) (run_stages p project started ss)"
proof (induction ss arbitrary: started)
  case (Cons stage ss)
  have "keeps (of_db I) (run_stage p (Project_ID project) stage)"
    using Cons.prems [of stage] unfolding run_stage_def retry_def
    by (cases stage) (auto intro!: tx_keeps keeps_retry_from stages_kept)
  with Cons show ?case by (auto intro!: tx_keeps)
qed (simp add: keeps_ret)

lemma provision_kept: "keeps (of_db I) (provision p seen)"
proof -
  have "keeps (of_db I) (snd stage) \<and> fst stage \<noteq> ''deleting''" if "stage \<in> set (stages p project password limits)" for stage project password limits
    using that unfolding stages_def applyLimits_def set_limits_def first_policy_def
    by (auto intro!: tx_keeps provision_store)
  then show ?thesis
    unfolding provision_def by (intro tx_keeps reads_kept run_stages_kept)
qed

lemma ProvisionNow_kept: "keeps (of_db I) (ProvisionNow p pid)"
  unfolding ProvisionNow_def by (intro tx_keeps reads_kept provision_kept SyncPolicy_kept stages_kept)

lemma job_store:
  "keeps I (SetJobStage jid name t)" "keeps I (SetJobTarget jid target k)"
  "state \<noteq> ''queued'' \<Longrightarrow> keeps I (exec (finish_row jid state stage msg result t))"
  unfolding SetJobStage_def SetJobTarget_def finish_row_def
  by (auto intro!: tx_keeps jobs_update_kept simp: requeues_def)

lemma event_kept: "keeps I (RecordAlertEvent kind k title detail t)"
  unfolding RecordAlertEvent_def by (auto intro!: exec_other simp: new_event_def)

lemma outcome_store:
  assumes "state \<noteq> ''queued''"
  shows "keeps I (CompleteBackupJob jid pid state stage msg result b scheduled t iv)"
    and "keeps I (FinishJob jid state stage msg result t)" and "keeps I (FailDeleteJob jid pid name stage msg result t)"
proof -
  have schedule: "keeps I (recordOutcome pid ok t iv)" for ok
    unfolding recordOutcome_def Let_def
    by (auto intro!: keeps_bind keeps_query insert_other simp: upsert_schedule_def Let_def split: if_splits)
  have backup: "keeps I (exec_insert (insert_backup b))" for b
    by (rule insert_other) (auto simp: insert_backup_def split: if_splits)
  show "keeps I (CompleteBackupJob jid pid state stage msg result b scheduled t iv)"
    unfolding CompleteBackupJob_def Let_def
    by (intro keeps_transact_body keeps_then keeps_option keeps_if keeps_ret job_store assms schedule backup)
  show "keeps I (FinishJob jid state stage msg result t)" "keeps I (FailDeleteJob jid pid name stage msg result t)"
    unfolding FinishJob_def FailDeleteJob_def
    by (auto intro!: keeps_transact_body keeps_bind keeps_query keeps_then keeps_if keeps_ret job_store assms event_kept)
qed

lemma CompleteProjectDeletion_kept: "keeps I (CompleteProjectDeletion jid project result t)"
proof -
  have "keeps I (for_each exec (forget_project_rows pid))" for pid
    unfolding forget_project_rows_def for_each.simps
    by (intro keeps_then keeps_ret keeps_exec)
      (erule jobs_update_kept projects_delete_kept other_tables; simp add: requeues_def)+
  then show ?thesis
    unfolding CompleteProjectDeletion_def
    by (intro keeps_transact_body keeps_bind keeps_query keeps_if keeps_throw keeps_then job_store event_kept) simp_all
qed

lemma set_stage_kept: "keeps (of_db I) (set_stage w job name)"
  unfolding set_stage_def clock_def now_def by (intro tx_keeps job_store)

lemma step_kept: "keeps (of_db I) m \<Longrightarrow> (\<And>a. keeps (of_db I) (k a)) \<Longrightarrow> keeps (of_db I) (step result f m k)"
  unfolding step_def give_up_def by (intro tx_keeps)

lemma asks_kept: "keeps (of_db I) (ask_server f w)" "keeps (of_db I) (ask_host g w)" "keeps (of_db I) (clock w)"
  "keeps (of_db I) (give_up result e)" "keeps (of_db I) (ensureWorkspace w n)" "keeps (of_db I) (StorageClient w)"
  unfolding ask_server_def ask_host_def clock_def now_def give_up_def ensureWorkspace_def StorageClient_def StorageSettings_def Let_def
    case_prod_beta
  by (intro tx_keeps reads_kept)+

lemmas job_kept = step_kept set_stage_kept asks_kept

lemma countTables_kept: "keeps (of_db I) (countTables w)"
proof -
  have "keeps (of_db I) (count_rows w ts)" for ts
    by (induction ts) (auto intro!: tx_keeps asks_kept)
  then show ?thesis unfolding countTables_def Let_def by (intro tx_keeps asks_kept)
qed

lemma runBackup_kept: "keeps (of_db I) (runBackup w job)"
proof -
  have publish: "keeps (of_db I) (publish w job project client snap archive result)" for project client snap archive result
    unfolding publish_def Let_def upload_file_def upload_bytes_def
    by (intro tx_keeps job_kept job_store)
  show ?thesis
    unfolding runBackup_def take_snapshot_def dump_archive_def tool_def run_process_def Let_def case_prod_beta
    by (intro job_kept tx_keeps reads_kept countTables_kept publish)
qed

lemma runRestore_kept: "keeps (of_db I) (runRestore w job)"
proof -
  have checks: "keeps (of_db I) (table_checks w ts)" for ts
    by (induction ts) (auto intro!: tx_keeps asks_kept)
  have verify: "keeps (of_db I) (verifyRestore w m role)" for m role
    unfolding verifyRestore_def Let_def by (intro tx_keeps checks asks_kept)
  have restore: "keeps (of_db I) (restore_and_verify w job project m archive result)" for project m archive result
    unfolding restore_and_verify_def run_restore_tool_def Let_def case_prod_beta
    by (intro tx_keeps job_kept verify)
  have into: "keeps (of_db I) (restore_into w job m archive input result)" for m archive input result
    unfolding restore_into_def by (intro tx_keeps job_kept ProvisionNow_kept reads_kept restore)
  show ?thesis
    unfolding runRestore_def fetch_archive_def fetch_manifest_def checksum_def Let_def case_prod_beta
    by (intro tx_keeps job_kept into)
qed

lemma runDelete_kept: "keeps (of_db I) (runDelete w job)"
  unfolding runDelete_def drop_project_def Let_def
  by (intro tx_keeps job_kept reads_kept SyncPolicy_kept CompleteProjectDeletion_kept)

lemma execute_kept: "keeps (of_db I) (execute w job)"
proof -
  have stage: "keeps (of_db I) (current_stage job)"
    unfolding current_stage_def by (intro tx_keeps)
  have finish: "keeps (of_db I) (finish_job w job encoded backup failure)" for encoded backup failure
    unfolding finish_job_def Policy_def Let_def
    by (cases failure) (auto intro!: tx_keeps stage asks_kept reads_kept outcome_store Reconcile_kept)
  show ?thesis
    unfolding execute_def run_job_def case_prod_beta
    by (intro tx_keeps runBackup_kept runRestore_kept runDelete_kept finish)
qed
end

subsection \<open>The queue\<close>

lemma count_update_le:
  assumes "\<And>x. P (f x) \<Longrightarrow> P x"
  shows "count_where P (update_where Q f xs) \<le> count_where P xs"
  using assms by (induction xs) (auto simp: count_where_def update_where_def)

lemma count_delete_le: "count_where P (delete_where Q xs) \<le> count_where P xs"
  by (induction xs) (auto simp: count_where_def delete_where_def)

interpretation queue_bound: worker_invariant "\<lambda>d. queued d \<le> n" for n
proof
  fix d and f :: "job_row \<Rightarrow> job_row" and P
  assume "queued d \<le> n" "\<not> requeues f"
  then show "queued (d\<lparr>jobs := update_where P f (jobs d)\<rparr>) \<le> n"
    using count_update_le [of "\<lambda>j. job_state j = ''queued''" f P "jobs d"] by (force simp: queued_def requeues_def)
next
  fix d P assume "queued d \<le> n"
  then show "queued (d\<lparr>jobs := delete_where P (jobs d)\<rparr>) \<le> n"
    using count_delete_le [of "\<lambda>j. job_state j = ''queued''" P "jobs d"] by (simp add: queued_def)
qed (simp_all add: queued_def)

lemma count_update_less:
  assumes "\<And>x. P (f x) \<Longrightarrow> P x" "r \<in> set xs" "Q r" "P r" "\<not> P (f r)"
  shows "count_where P (update_where Q f xs) < count_where P xs"
  using assms(2)
proof (induction xs)
  case (Cons x xs)
  have "count_where P (update_where Q f xs) \<le> count_where P xs" by (rule count_update_le) (rule assms(1))
  then show ?case using Cons assms by (auto simp: count_where_def update_where_def)
qed simp

lemma ClaimJob_dequeues:
  assumes "ClaimJob t (d, fs) = (Inr (Some job), (d', fs'))"
  shows "queued d' < queued d"
proof -
  from assms obtain r where r: "first_by created_order (filter (\<lambda>j. job_state j = ''queued'') (jobs d)) = Some r"
    and d': "d' = d\<lparr>jobs := update_where (\<lambda>j. job_id j = job_id r)
             (\<lambda>j. j\<lparr>job_state := ''running'', job_stage := ''starting'',
                    job_started_at := Some (unix t), job_stage_at := Some (unix t)\<rparr>) (jobs d)\<rparr>"
    by (auto simp: ClaimJob_def tx_simps start_job_def split: option.splits if_splits)
  from first_by_Some [OF r] show ?thesis
    unfolding d' queued_def by (simp, intro count_update_less [where r = r]) auto
qed

lemma ClaimJob_nothing:
  assumes "ClaimJob t (d, fs) = (Inr None, (d', fs'))"
  shows "d' = d \<and> (queued d = 0 \<or> \<not> maintenanceGuard d)"
proof -
  have "count_where (\<lambda>j. job_id j = job_id r) (jobs d) \<noteq> 0"
    if "first_by created_order (filter (\<lambda>j. job_state j = ''queued'') (jobs d)) = Some r" for r
    using first_by_Some [OF that] by (auto simp: count_where_def filter_empty_conv)
  then show ?thesis
    using assms
    by (auto simp: ClaimJob_def tx_simps start_job_def queued_def count_where_def filter_empty_conv split: option.splits if_splits)
qed

lemma execute_queued: "execute w job s = (r, s') \<Longrightarrow> queued (wdb (fst s')) \<le> queued (wdb (fst s))"
  using keepsD_eq [OF queue_bound.execute_kept, of w job s r s' "queued (wdb (fst s))"] by (simp add: of_db_def)

lemma never_fails_option:
  "never_fails m \<Longrightarrow> (\<And>v. never_fails (f v)) \<Longrightarrow> never_fails (case r of None \<Rightarrow> m | Some v \<Rightarrow> f v)"
  by (cases r) simp_all

lemma never_fails_job:
  "(\<And>a. never_fails (k a)) \<Longrightarrow> never_fails (step result f m k)" "never_fails (give_up result e)"
  "never_fails (ignoring n)" "never_fails (clock w)" "never_fails (set_stage w job name)"
  unfolding step_def give_up_def ignoring_def clock_def now_def set_stage_def
  by (intro never_fails_rules; simp)+

lemmas never_fails_jobs = never_fails_rules never_fails_option never_fails_job

lemma runBackup_never_fails: "never_fails (runBackup w job)"
  unfolding runBackup_def take_snapshot_def dump_archive_def publish_def Let_def case_prod_beta
  by (intro never_fails_jobs)

lemma verifyRestore_never_fails: "never_fails (verifyRestore w m role)"
proof -
  have "never_fails (table_checks w ts)" for ts
    by (induction ts) (auto intro!: never_fails_jobs)
  then show ?thesis unfolding verifyRestore_def Let_def case_prod_beta by (intro never_fails_jobs)
qed

lemma runRestore_never_fails: "never_fails (runRestore w job)"
proof -
  have tool: "never_fails (run_restore_tool w project archive)" for project archive
    unfolding run_restore_tool_def never_fails_def
    by (rule triple_bind [where R = "\<lambda>_ _. True"], rule triple_call, auto intro: triple_ret split: prod.splits)
  show ?thesis
    unfolding runRestore_def fetch_archive_def restore_into_def restore_and_verify_def Let_def case_prod_beta
    by (intro never_fails_jobs verifyRestore_never_fails tool)
qed

lemma runDelete_never_fails: "never_fails (runDelete w job)"
  unfolding runDelete_def Let_def by (intro never_fails_jobs)

lemma Policy_never_fails: "never_fails Policy"
  unfolding Policy_def by (intro never_fails_rules)

lemma Reconcile_never_fails: "never_fails (Reconcile w)"
  unfolding Reconcile_def by (intro never_fails_rules)

lemma execute_never_fails: "never_fails (execute w job)"
proof -
  have "never_fails (finish_job w job encoded backup failure)" for encoded backup failure
    unfolding finish_job_def current_stage_def Let_def case_prod_beta
    by (intro never_fails_jobs Policy_never_fails Reconcile_never_fails)
  then show ?thesis
    unfolding execute_def run_job_def case_prod_beta
    by (intro never_fails_rules runBackup_never_fails runRestore_never_fails runDelete_never_fails)
qed

lemma execute_returns: "\<exists>w'. execute w job s = (Inr (), w') \<and> queued (wdb (fst w')) \<le> queued (wdb (fst s))"
proof -
  obtain r s' where run: "execute w job s = (r, s')" by (metis surj_pair)
  then have "r = Inr ()" using tripleD_Inl [OF execute_never_fails [unfolded never_fails_def] TrueI, of w job s] by (cases r) auto
  then show ?thesis using run execute_queued by blast
qed

lemma drain_upto_ends:
  assumes "queued (wdb (fst s)) < n"
  shows "\<exists>reason s'. drain_upto w n s = (Inr reason, s') \<and> reason \<noteq> Unfinished \<and>
      (reason = NothingToClaim \<longrightarrow> queued (wdb (fst s')) = 0 \<or> \<not> maintenanceGuard (wdb (fst s')))"
    and "drain_upto w (Suc n) s = drain_upto w n s"
proof -
  have "(\<exists>reason s'. drain_upto w n s = (Inr reason, s') \<and> reason \<noteq> Unfinished \<and>
      (reason = NothingToClaim \<longrightarrow> queued (wdb (fst s')) = 0 \<or> \<not> maintenanceGuard (wdb (fst s')))) \<and>
      drain_upto w (Suc n) s = drain_upto w n s"
    using assms
  proof (induction n arbitrary: s)
    case (Suc n)
    obtain ended x1 where e: "Ended w (outside (fst s)) = (ended, x1)" by (metis surj_pair)
    obtain t x2 where c: "Now (base w) x1 = (t, x2)" by (metis surj_pair)
    obtain r d fs where claim: "ClaimJob t (wdb (fst s), snd s) = (r, (d, fs))" by (metis surj_pair)
    let ?s = "((fst s)\<lparr>outside := x2, wdb := d\<rparr>, fs)"
    have step: "drain_upto w (Suc m) s = (if ended then (Inr ContextEnded, ((fst s)\<lparr>outside := x1\<rparr>, snd s))
        else case r of Inl _ \<Rightarrow> (Inr QueueUnavailable, ?s) | Inr None \<Rightarrow> (Inr NothingToClaim, ?s)
          | Inr (Some job) \<Rightarrow> then_tx (execute w job) (drain_upto w m) ?s)" for m
      using e c claim
      by (auto simp: bind_tx_def observe_def call_out_def unlogged_def clock_def now_def attempt_def on_db_def ret_def split: sum.split option.split)
    show ?case
    proof (cases "\<not> ended \<and> (\<exists>job. r = Inr (Some job))")
      case True
      then obtain job where job: "r = Inr (Some job)" "\<not> ended" by blast
      obtain s' where s': "execute w job ?s = (Inr (), s')" "queued (wdb (fst s')) \<le> queued d"
        using execute_returns [of w job ?s] by auto
      then have "queued (wdb (fst s')) < n" using ClaimJob_dequeues claim job Suc.prems by fastforce
      from Suc.IH [OF this] show ?thesis
        using job s'(1) unfolding step [of n] step [of "Suc n"] by (simp add: then_tx_def bind_tx_def)
    next
      case False
      then show ?thesis
        using ClaimJob_nothing [of t "wdb (fst s)" "snd s" d fs] claim unfolding step [of n] step [of "Suc n"]
        by (auto split: sum.split option.split)
    qed
  qed simp
  then show "\<exists>reason s'. drain_upto w n s = (Inr reason, s') \<and> reason \<noteq> Unfinished \<and>
      (reason = NothingToClaim \<longrightarrow> queued (wdb (fst s')) = 0 \<or> \<not> maintenanceGuard (wdb (fst s')))"
    "drain_upto w (Suc n) s = drain_upto w n s" by simp_all
qed

text \<open>
  C14. The worker gets through its queue. Whatever the jobs do, whatever PostgreSQL, the provider and the tools
  answer and whatever statement fails, the loop over the queue ends: following it for more jobs than are
  queued changes nothing, it never stops in the middle, and when it stops for want of a job the queue is
  empty or an update is under way.
\<close>

theorem drain_terminates:
  "(\<forall>n. queued (wdb v) < n \<longrightarrow> drain_upto w n (v, fs) = drain w (v, fs)) \<and>
   (\<exists>reason s'. drain w (v, fs) = (Inr reason, s') \<and> reason \<noteq> Unfinished \<and>
      (reason = NothingToClaim \<longrightarrow> queued (wdb (fst s')) = 0 \<or> \<not> maintenanceGuard (wdb (fst s'))))"
proof (intro conjI allI impI)
  fix n assume "queued (wdb v) < n"
  then show "drain_upto w n (v, fs) = drain w (v, fs)"
  proof (induction n)
    case (Suc n)
    then show ?case
      using drain_upto_ends(2) [of "(v, fs)" n w] by (cases "queued (wdb v) < n") (auto simp: drain_def less_Suc_eq)
  qed simp
next
  show "\<exists>reason s'. drain w (v, fs) = (Inr reason, s') \<and> reason \<noteq> Unfinished \<and>
      (reason = NothingToClaim \<longrightarrow> queued (wdb (fst s')) = 0 \<or> \<not> maintenanceGuard (wdb (fst s')))"
    using drain_upto_ends(1) [of "(v, fs)" "Suc (queued (wdb v))" w] by (simp add: drain_def)
qed

section \<open>Tombstones\<close>

text \<open>A condition on the projects alone survives everything the worker does, the queue included.\<close>

locale project_invariant =
  fixes I :: "db \<Rightarrow> bool"
  assumes only_projects: "I d \<Longrightarrow> projects d' = projects d \<Longrightarrow> I d'"
    and rows_updated: "I d \<Longrightarrow> \<not> revives Q g \<Longrightarrow> I (d\<lparr>projects := update_where Q g (projects d)\<rparr>)"
    and rows_deleted: "I d \<Longrightarrow> I (d\<lparr>projects := delete_where Q (projects d)\<rparr>)"

sublocale project_invariant \<subseteq> worker_invariant
  by unfold_locales (auto intro: rows_updated rows_deleted elim: only_projects)

context project_invariant
begin

lemma queue_store:
  "keeps I (ClaimJob t)" "keeps I (InterruptRunningJobs t iv)" "keeps I (ResumeDeletions f t)"
  "keeps I (EnqueueBackupJob jid pid input scheduled t)"
proof -
  have insert: "keeps I (exec_insert (insert_job row))" for row
    by (rule keeps_exec_insert, erule only_projects) (auto simp: insert_job_def split: if_splits)
  have schedule: "keeps I (exec_insert (upsert_schedule row f))" for row f
    by (rule keeps_exec_insert, erule only_projects) (auto simp: upsert_schedule_def Let_def split: if_splits)
  show "keeps I (ClaimJob t)"
    unfolding ClaimJob_def by (auto intro!: tx_keeps elim!: only_projects simp: start_job_def split: option.split)
  show "keeps I (InterruptRunningJobs t iv)"
    unfolding InterruptRunningJobs_def interrupt_one_def query_jobs_def recordOutcome_def RecordAlertEvent_def Let_def
    by (auto intro!: tx_keeps schedule elim!: only_projects simp: new_event_def)
  show "keeps I (ResumeDeletions f t)"
    unfolding ResumeDeletions_def insertDeleteJob_def case_prod_beta Let_def by (auto intro!: tx_keeps insert)
  show "keeps I (EnqueueBackupJob jid pid input scheduled t)"
    unfolding EnqueueBackupJob_def enqueue_def enqueue_body_def Let_def
    by (auto intro!: tx_keeps insert schedule)
qed

lemma drain_kept: "keeps (of_db I) (drain w)"
proof -
  have "keeps (of_db I) (drain_upto w n)" for n
    by (induction n) (auto intro!: tx_keeps asks_kept queue_store execute_kept split: sum.split option.split)
  then show ?thesis by (simp add: keeps_def leaves_def drain_def del: drain_upto.simps)
qed

lemma scheduleBackups_kept: "keeps (of_db I) (scheduleBackups w)"
proof -
  have "keeps (of_db I) (schedule_next w t candidates)" for t candidates
    unfolding schedule_next_def by (cases candidates) (auto intro!: tx_keeps queue_store)
  then show ?thesis
    unfolding scheduleBackups_def StorageSettings_def Policy_def by (intro tx_keeps reads_kept asks_kept)
qed

lemma reconcile_all_kept: "keeps (of_db I) (reconcile_all w)"
  unfolding reconcile_all_def resumeDeletions_def
  by (intro tx_keeps asks_kept queue_store Reconcile_kept scheduleBackups_kept)

lemma on_wake_kept: "keeps (of_db I) (on_wake w event)"
proof -
  have "keeps (of_db I) (look_then_schedule w)"
    unfolding look_then_schedule_def reconcileIfUnknown_def is_reconciled_def StorageSettings_def
    by (intro tx_keeps reads_kept Reconcile_kept scheduleBackups_kept)
  then show ?thesis
    unfolding on_wake_def by (cases event) (simp_all add: reconcile_all_kept scheduleBackups_kept)
qed

lemma Run_worker_kept: "keeps (of_db I) (Run_worker w events)"
proof -
  have "keeps (of_db I) (serve w events)"
    by (induction events) (auto intro!: tx_keeps drain_kept on_wake_kept)
  then show ?thesis
    unfolding Run_worker_def start_up_def Policy_def
    by (intro tx_keeps reads_kept asks_kept queue_store reconcile_all_kept)
qed
end

definition doomed :: "string \<Rightarrow> db \<Rightarrow> bool" where
  "doomed pid d \<longleftrightarrow> list_all (\<lambda>r. prj_id r = pid \<longrightarrow> prj_stage r = ''deleting'') (projects d)"

interpretation tombstones: project_invariant "doomed pid" for pid
proof
  fix d Q g assume "doomed pid d" "\<not> revives Q g"
  then show "doomed pid (d\<lparr>projects := update_where Q g (projects d)\<rparr>)"
    by (auto simp: doomed_def list_all_iff in_update_where revives_def)
qed (auto simp: doomed_def list_all_iff delete_where_def)

text \<open>
  A project marked for deletion is never brought back by the worker. Over any series of jobs, restores,
  reconciliations, schedules and restarts, and whatever fails, a project that is marked stays marked until
  its row is gone; no stage of the provisioner or of a restore overwrites the mark.
\<close>

theorem worker_keeps_tombstones:
  assumes "\<forall>r \<in> set (projects (wdb v)). prj_id r = pid \<longrightarrow> prj_stage r = ''deleting''"
  shows "\<forall>r \<in> set (projects (wdb (leaves (Run_worker w events) (v, fs)))). prj_id r = pid \<longrightarrow> prj_stage r = ''deleting''"
  using keepsD [OF tombstones.Run_worker_kept [of pid w events], of "(v, fs)"] assms
  by (simp add: of_db_def doomed_def list_all_iff)


section \<open>A worker to try the properties on\<close>

definition silent_server :: "unit Server" where
  "silent_server = \<lparr>DatabaseSize = (\<lambda>_. io_ret 0), Connect = (\<lambda>_. io_ret ()), BeginRead = io_ret (), ExportSnapshot = io_ret (''1'', ''17.2''),
     ListTables = (\<lambda>_. io_ret []), CountRows = (\<lambda>_ _. io_ret 0), CountObjects = io_throw (EExternal ''down''),
     ServerVersion = io_ret ''17.2'', ForeignTables = (\<lambda>_. io_ret 0), CanConnect = (\<lambda>_. io_ret True)\<rparr>"

definition roomy_host :: "unit Host" where
  "roomy_host = \<lparr>Statfs = io_ret (2 ^ 30, 4096), MkdirTemp = (\<lambda>p. io_ret (''/work/'' @ p)), Passfile = io_ret ''/work/.pgpass'',
     FileSHA256 = (\<lambda>_. io_ret (''abc'', 10)), Process = (\<lambda>_ _ _. (Ran '''' Succeeded, ()))\<rparr>"

definition sample_job_worker :: "unit JobWorker" where
  "sample_job_worker = \<lparr>base = sample_worker, Provision = Some easy_provisioner, Server_of = silent_server, Host_of = roomy_host,
     Ended = (\<lambda>_. (False, ())), Draw = (\<lambda>_. (''0123456789abcdef'', ())), DrawEach = (\<lambda>_. (\<lambda>p. p, ())),
     New_client = (\<lambda>_. Inl (EExternal ''down'')), Decode_manifest = (\<lambda>_. None), Encode_manifest = (\<lambda>_. Inr ''{}''),
     Decode_restore = (\<lambda>_. Inl (EExternal ''json'')), Decode_delete = (\<lambda>_. Inl (EExternal ''json'')),
     Encode_delete = (\<lambda>_. ''{}''), Encode_backup_result = (\<lambda>_. ''{}''), Encode_restore_result = (\<lambda>_. ''{}''),
     Encode_delete_result = (\<lambda>_. ''{}'')\<rparr>"

lemma drain_terminates_witness:
  "drain_upto sample_job_worker 7 (shop_world ''ready'', [True]) = drain sample_job_worker (shop_world ''ready'', [True])"
proof -
  have "queued (wdb (shop_world ''ready'')) < 7" by code_simp
  then show ?thesis using drain_terminates [of "shop_world ''ready''" sample_job_worker "[True]"] by blast
qed

lemma worker_keeps_tombstones_witness:
  "list_ex (\<lambda>r. prj_id r = ''p'') (projects (wdb (shop_world ''deleting''))) \<and>
   \<not> list_ex (\<lambda>r. prj_id r = ''p'' \<and> prj_stage r \<noteq> ''deleting'')
     (projects (wdb (leaves (Run_worker sample_job_worker [Kicked, ReconcileTick]) (shop_world ''deleting'', [False, True]))))"
proof
  show "list_ex (\<lambda>r. prj_id r = ''p'') (projects (wdb (shop_world ''deleting'')))" by code_simp
  have "\<forall>r \<in> set (projects (wdb (shop_world ''deleting''))). prj_id r = ''p'' \<longrightarrow> prj_stage r = ''deleting''" by code_simp
  from worker_keeps_tombstones [OF this, of sample_job_worker "[Kicked, ReconcileTick]" "[False, True]"]
  show "\<not> list_ex (\<lambda>r. prj_id r = ''p'' \<and> prj_stage r \<noteq> ''deleting'')
     (projects (wdb (leaves (Run_worker sample_job_worker [Kicked, ReconcileTick]) (shop_world ''deleting'', [False, True]))))"
    by (auto simp: list_ex_iff)
qed

end
