(* ===== verification/Worker_Grounds.thy ===== *)
theory Worker_Grounds
  imports Worker_Safety
begin

text \<open>
  Why the worker may do what it does outside the database (\<^verbatim>\<open>internal/jobs\<close>): the database and the log of
  calls are followed together through a backup, a restore, a deletion, reconciliation and the loop, and
  every call to PostgreSQL or the backup store finds its grounds in the database at that moment.
\<close>

section \<open>Grounds for what the worker does outside\<close>

text \<open>
  What the worker asks of PostgreSQL and of the backup store, judged by the database at the moment of the
  call: a database is dropped only while its project is marked for deletion; an object is uploaded only
  into the folder its job has recorded; a restore runs only into a ready project; and what the provisioner
  does on its behalf is justified as before. Removals and reads of the store are judged elsewhere.
\<close>

definition claimed_key :: "string \<Rightarrow> job_row \<Rightarrow> bool" where
  "claimed_key k j \<longleftrightarrow> k = job_target_key j @ ''/'' @ ArchiveFile \<or> k = job_target_key j @ ''/'' @ ManifestFile"

definition named :: "string \<Rightarrow> string \<Rightarrow> string \<Rightarrow> db \<Rightarrow> bool" where
  "named stage name role d = list_ex (\<lambda>r. prj_stage r = stage \<and> prj_db_name r = name \<and> prj_role_name r = role) (projects d)"

definition worker_call :: "'x JobWorker \<Rightarrow> call \<Rightarrow> bool" where
  "worker_call w c = (case c of
     ProjectDropped name role d \<Rightarrow> named ''deleting'' name role d
   | Uploaded k content d \<Rightarrow> list_ex (claimed_key k) (jobs d)
   | RestoreRun name role d \<Rightarrow> named ''ready'' name role d
   | Removed k d \<Rightarrow> True
   | ReadManifest k r \<Rightarrow> True
   | Checksummed path digest n \<Rightarrow> True
   | _ \<Rightarrow> (case Provision w of None \<Rightarrow> False | Some p \<Rightarrow> justified p c))"

definition work_log :: "'x JobWorker \<Rightarrow> call list \<Rightarrow> call list \<Rightarrow> bool" where
  "work_log w old cs \<longleftrightarrow> (\<exists>new. cs = new @ old \<and> list_all (worker_call w) new)"

lemma work_log_refl: "work_log w old old"
  by (simp add: work_log_def)

lemma work_log_Cons: "worker_call w c \<Longrightarrow> work_log w old cs \<Longrightarrow> work_log w old (c # cs)"
  unfolding work_log_def by (metis append_Cons list.pred_inject(2))

lemma justified_worker_call: "Provision w = Some p \<Longrightarrow> justified p c \<Longrightarrow> worker_call w c"
  by (cases c) (auto simp: worker_call_def justified_def)

lemma keeps_provisioner:
  fixes m :: "('a, 'b) act"
  assumes "\<And>old. keeps (of_calls (new_justified p old)) m" "Provision w = Some p"
  shows "keeps (of_calls (work_log w old)) m"
  unfolding keeps_def
proof (intro allI impI)
  fix s :: "'a world \<times> bool list" assume "of_calls (work_log w old) (fst s)"
  then obtain n1 where n1: "calls (fst s) = n1 @ old" "list_all (worker_call w) n1" by (auto simp: of_calls_def work_log_def)
  have "of_calls (new_justified p (calls (fst s))) (leaves m s)"
    using assms(1) by (rule keepsD) (simp add: of_calls_def new_justified_refl)
  then obtain n2 where n2: "calls (leaves m s) = n2 @ calls (fst s)" "list_all (justified p) n2"
    by (auto simp: of_calls_def new_justified_def)
  have "list_all (worker_call w) n2" using n2(2) justified_worker_call [OF assms(2)] by (auto simp: list_all_iff)
  with n1 n2 show "of_calls (work_log w old) (leaves m s)" by (auto simp: of_calls_def work_log_def)
qed

text \<open>Steps of a job that only read, or that note what needs no grounds.\<close>

lemma step_both: "keeps (both D J) m \<Longrightarrow> (\<And>a. keeps (both D J) (k a)) \<Longrightarrow> keeps (both D J) (step result f m k)"
  unfolding step_def give_up_def by (intro tx_keeps)

lemma asks_both: "keeps (both D J) (ask_server f w)" "keeps (both D J) (ask_host g w)" "keeps (both D J) (clock w)"
  "keeps (both D J) (give_up result e)" "keeps (both D J) (ensureWorkspace w n)"
  unfolding ask_server_def ask_host_def clock_def now_def give_up_def ensureWorkspace_def Let_def case_prod_beta
  by (intro tx_keeps)+

lemma reads_both: "keeps (both D J) (StorageClient w)" "keeps (both D J) (on_db (get_Project pid))" "keeps (both D J) Policy"
proof -
  show "keeps (both D J) (on_db (get_Project pid))" by (intro keeps_on_db_both reads_kept)
  show "keeps (both D J) (StorageClient w)"
    unfolding StorageClient_def StorageSettings_def by (intro tx_keeps reads_kept)
  show "keeps (both D J) Policy" unfolding Policy_def by (intro tx_keeps reads_kept)
qed

lemma asks_calls: "keeps (of_calls J) (clock w)" "keeps (of_calls J) Policy" "keeps (of_calls J) (give_up result e)"
  unfolding of_calls_both by (rule asks_both reads_both)+

lemma set_stage_both: "(\<And>d name t. D d \<Longrightarrow> D (jobs_update (update_where (\<lambda>j. job_id j = Job_ID job \<and> job_state j = ''running'')
     (\<lambda>j. j\<lparr>job_stage := name, job_stage_at := t\<rparr>)) d)) \<Longrightarrow> keeps (both D J) (set_stage w job name)"
  unfolding set_stage_def SetJobStage_def by (intro tx_keeps asks_both) simp

lemma countTables_both: "keeps (both D J) (countTables w)"
proof -
  have "keeps (both D J) (count_rows w ts)" for ts
    by (induction ts) (auto intro!: tx_keeps asks_both)
  then show ?thesis unfolding countTables_def Let_def by (intro tx_keeps asks_both)
qed

subsection \<open>Backups\<close>

definition job_known :: "Job \<Rightarrow> db \<Rightarrow> bool" where
  "job_known job d = list_ex (\<lambda>j. job_id j = Job_ID job) (jobs d)"

definition folder_claimed :: "Job \<Rightarrow> string \<Rightarrow> string \<Rightarrow> db \<Rightarrow> bool" where
  "folder_claimed job target folder d = list_ex (\<lambda>j. job_id j = Job_ID job \<and> job_target_storage j = target \<and> job_target_key j = folder) (jobs d)"

lemma list_ex_keeps: "list_ex P rows \<Longrightarrow> (\<And>r. P r \<Longrightarrow> P (f r)) \<Longrightarrow> list_ex P (update_where Q f rows)"
  by (auto simp: list_ex_iff set_update_where)

lemma list_ex_updated: "list_ex P rows \<Longrightarrow> (\<And>r. P r \<Longrightarrow> Q r \<and> P' (f r)) \<Longrightarrow> list_ex P' (update_where Q f rows)"
  by (auto simp: list_ex_iff set_update_where)

lemma job_known_stage: "keeps (both (job_known job) J) (set_stage w job name)"
  by (rule set_stage_both) (simp add: job_known_def list_ex_keeps)

lemma folder_claimed_stage: "keeps (both (folder_claimed job target folder) J) (set_stage w job name)"
  by (rule set_stage_both) (simp add: folder_claimed_def list_ex_keeps)

lemma claim_folder:
  "triple (both (job_known job) J) (attempt (on_db (SetJobTarget (Job_ID job) target folder)))
     (\<lambda>r. case r of Inl _ \<Rightarrow> both (job_known job) J | Inr _ \<Rightarrow> both (folder_claimed job target folder) J) E"
  unfolding SetJobTarget_def
  by (rule triple_attempt, rule triple_exec)
    (auto simp: both_def job_known_def folder_claimed_def elim!: list_ex_updated)

lemma folder_claimed_known: "folder_claimed job target folder d \<Longrightarrow> job_known job d"
  by (auto simp: folder_claimed_def job_known_def list_ex_iff)

lemma upload_grounded:
  assumes "k = folder @ ''/'' @ ArchiveFile \<or> k = folder @ ''/'' @ ManifestFile"
  shows "keeps (both (folder_claimed job target folder) (work_log w old)) (upload_file client k path)"
    and "keeps (both (folder_claimed job target folder) (work_log w old)) (upload_bytes client k content)"
proof -
  have "worker_call w (Uploaded k content d)" if "folder_claimed job target folder d" for content d
    using that assms by (auto simp: worker_call_def folder_claimed_def list_ex_iff claimed_key_def)
  then show "keeps (both (folder_claimed job target folder) (work_log w old)) (upload_file client k path)"
    "keeps (both (folder_claimed job target folder) (work_log w old)) (upload_bytes client k content)"
    unfolding upload_file_def upload_bytes_def by (auto intro!: keeps_call_both work_log_Cons)
qed

lemma publish_grounded: "keeps (both (job_known job) (work_log w old)) (publish w job project client snap archive result)"
proof -
  let ?J = "work_log w old"
  have claimed: "triple (both (folder_claimed job target folder) ?J) m (\<lambda>_. both (job_known job) ?J) (both (job_known job) ?J)"
    if "keeps (both (folder_claimed job target folder) ?J) m" for target folder and m :: "('a, BackupResult \<times> (err + Backup)) act"
    using that unfolding triple_keeps by (rule triple_conseq) (auto simp: both_def folder_claimed_known)
  have known: "triple (both (job_known job) ?J) (give_up result e) (\<lambda>_. both (job_known job) ?J) (both (job_known job) ?J)"
    for e and result :: BackupResult
    using asks_both(4) unfolding triple_keeps .
  show ?thesis
    unfolding publish_def Let_def step_def [where m = "on_db (SetJobTarget _ _ _)"]
    by (rule keeps_bind [OF asks_both(3)], unfold triple_keeps, rule triple_bind [OF claim_folder])
      (auto split: sum.split simp: manifest_of_def
        intro!: known claimed tx_keeps step_both asks_both folder_claimed_stage upload_grounded)
qed

lemma runBackup_grounded: "keeps (both (job_known job) (work_log w old)) (runBackup w job)"
  unfolding runBackup_def take_snapshot_def dump_archive_def tool_def run_process_def Let_def case_prod_beta
  by (intro tx_keeps step_both asks_both reads_both job_known_stage countTables_both publish_grounded)

subsection \<open>Restores and deletions\<close>

lemma get_Project_stage:
  assumes "get_Project pid (d, fs) = (Inr project, (d', fs'))" "Project_Stage project = stage"
  shows "d' = d \<and> named stage (Project_DBName project) (Project_RoleName project) d"
  using assms unfolding get_Project_def projectBy_def
  by (auto simp: tx_simps named_def list_ex_iff scanProject_def find_Some_iff split: option.splits)

lemma named_stage: "keeps (both (named stage name role) J) (set_stage w job text)"
  by (rule set_stage_both) (simp add: named_def)

lemma step_weak:
  assumes "keeps (both D J) m" "\<And>a. keeps (of_calls J) (k a)"
  shows "triple (both D J) (step result f m k) (\<lambda>_. of_calls J) (of_calls J)"
proof -
  have "triple (both D J) (attempt m) (\<lambda>_. of_calls J) (of_calls J)" using assms(1) by (intro triple_both tx_keeps)
  moreover have "keeps (of_calls J) (case r of Inl e \<Rightarrow> give_up result (f e) | Inr a \<Rightarrow> k a)" for r
    using assms(2) by (auto simp: of_calls_both asks_both split: sum.split)
  ultimately show ?thesis unfolding step_def triple_keeps by (rule triple_bind)
qed

lemma then_weak:
  assumes "keeps (both D J) m" "triple (both D J) k Q (of_calls J)"
  shows "triple (both D J) (then_tx m k) Q (of_calls J)"
proof -
  have "triple (both D J) m (\<lambda>_. both D J) (of_calls J)"
    using assms(1) unfolding triple_keeps by (rule triple_error) (simp add: both_def of_calls_def)
  then show ?thesis by (rule triple_then) (rule assms(2))
qed

lemma step_project:
  assumes "\<And>project. Project_Stage project = stage \<Longrightarrow>
      triple (both (named stage (Project_DBName project) (Project_RoleName project)) J) (k project) (\<lambda>_. of_calls J) (of_calls J)"
    "\<And>project. Project_Stage project \<noteq> stage \<Longrightarrow> keeps (of_calls J) (k project)"
  shows "keeps (of_calls J) (step result f (on_db (get_Project pid)) k)"
proof -
  let ?D = "\<lambda>r. case r of Inl _ \<Rightarrow> (\<lambda>_. True) | Inr project \<Rightarrow> \<lambda>d. Project_Stage project = stage \<longrightarrow>
    named stage (Project_DBName project) (Project_RoleName project) d"
  have read: "triple (both (\<lambda>_. True) J) (attempt (on_db (get_Project pid))) (\<lambda>r. both (?D r) J) (of_calls J)"
    by (rule triple_attempt, rule triple_on_db) (auto simp: both_def dest: get_Project_stage)
  have rest: "triple (both (?D r) J) (case r of Inl e \<Rightarrow> give_up result (f e) | Inr a \<Rightarrow> k a) (\<lambda>_. of_calls J) (of_calls J)" for r
  proof (cases r)
    case (Inl e)
    then show ?thesis using triple_both [OF asks_both(4)] by simp
  next
    case (Inr project)
    show ?thesis
    proof (cases "Project_Stage project = stage")
      case True
      with assms(1) [OF this] Inr show ?thesis by simp
    next
      case False
      with assms(2) [OF this] Inr show ?thesis by (auto simp: of_calls_both triple_keeps)
    qed
  qed
  show ?thesis
    unfolding step_def triple_keeps using triple_bind [OF read rest] by (simp add: of_calls_both)
qed

lemma run_restore_tool_grounded:
  "keeps (both (named ''ready'' (Project_DBName project) (Project_RoleName project)) (work_log w old)) (run_restore_tool w project archive)"
  unfolding run_restore_tool_def by (intro tx_keeps keeps_call_both) (simp add: work_log_Cons worker_call_def)

lemma verifyRestore_both: "keeps (both D J) (verifyRestore w m role)"
proof -
  have "keeps (both D J) (table_checks w ts)" for ts
    by (induction ts) (auto intro!: tx_keeps asks_both)
  then show ?thesis unfolding verifyRestore_def Let_def case_prod_beta by (intro tx_keeps asks_both)
qed

lemma restore_and_verify_grounded:
  "keeps (both (named ''ready'' (Project_DBName project) (Project_RoleName project)) (work_log w old))
     (restore_and_verify w job project m archive result)"
  unfolding restore_and_verify_def Let_def case_prod_beta
  by (intro tx_keeps step_both asks_both named_stage run_restore_tool_grounded verifyRestore_both)

lemma drop_project_grounded:
  "keeps (both (named ''deleting'' (Project_DBName project) (Project_RoleName project)) (work_log w old)) (drop_project p project)"
  unfolding drop_project_def by (rule keeps_call_both) (simp add: work_log_Cons worker_call_def)

lemma runRestore_grounded: "keeps (of_calls (work_log w old)) (runRestore w job)"
proof -
  let ?J = "work_log w old"
  have read: "keeps (both D ?J) (fetch_manifest w client k)" "keeps (both D ?J) (checksum w path)" for D client k path
    unfolding fetch_manifest_def checksum_def
    by (auto intro!: keeps_call_both work_log_Cons simp: worker_call_def split: sum.split)
  have new: "keeps (both (\<lambda>_. True) ?J) (ProvisionNow p pid)" if "Provision w = Some p" for p pid
    using keeps_provisioner [OF ProvisionNow_justified that] by (simp add: of_calls_both)
  have into: "keeps (both (\<lambda>_. True) ?J) (step result as_is (on_db (get_Project pid)) (\<lambda>project.
      if Project_Stage project \<noteq> ''ready'' then give_up result e
      else step result as_is (ask_host Passfile w) (\<lambda>_. restore_and_verify w job project m archive result)))"
    for result :: RestoreResult and pid e m archive
    by (rule step_project [where stage = "''ready''", unfolded of_calls_both])
      (auto intro!: triple_both [unfolded of_calls_both] step_both asks_both restore_and_verify_grounded)
  have stage: "keeps (both (\<lambda>_. True) ?J) (set_stage w job name)" for name
    by (rule set_stage_both)
  have "keeps (both (\<lambda>_. True) ?J) (restore_into w job m archive input result)" for m archive input and result :: RestoreResult
    unfolding restore_into_def by (cases "Provision w") (simp_all add: keeps_then stage asks_both step_both [OF new into])
  then show ?thesis
    unfolding runRestore_def fetch_archive_def of_calls_both Let_def case_prod_beta
    by (intro tx_keeps step_both asks_both reads_both stage read)
qed

lemma runDelete_grounded: "keeps (of_calls (work_log w old)) (runDelete w job)"
proof -
  let ?J = "work_log w old"
  have stage: "keeps (of_calls ?J) (set_stage w job name)" for name
    unfolding of_calls_both by (rule set_stage_both)
  have step: "keeps (of_calls ?J) m \<Longrightarrow> (\<And>a. keeps (of_calls ?J) (k a)) \<Longrightarrow> keeps (of_calls ?J) (step result f m k)"
    for m :: "('a, 'b) act" and k and result :: DeleteResult and f
    unfolding of_calls_both by (rule step_both)
  have sync: "keeps (of_calls ?J) (SyncPolicy p)" if "Provision w = Some p" for p
    by (rule keeps_provisioner [OF SyncPolicy_justified that])
  have removed: "keeps (of_calls ?J) (step result as_is (on_db (CompleteProjectDeletion jid project encoded t) :: ('a, unit) act) (\<lambda>_. ret (r, Inr ())))"
    for result :: DeleteResult and r jid project encoded t
    by (intro step tx_keeps)
  show ?thesis
  proof (cases "Provision w")
    case (Some p)
    then show ?thesis
      unfolding runDelete_def Let_def
      by (auto split: sum.split intro!: asks_calls keeps_then [OF stage] step_project [where stage = "''deleting''"]
          then_weak [OF named_stage] step_weak [OF drop_project_grounded] step [OF sync] keeps_bind [OF asks_calls(1)] removed)
  qed (auto simp: runDelete_def Let_def asks_calls split: sum.split)
qed

subsection \<open>The queue and the loop\<close>

lemma Reconcile_grounded: "keeps (of_calls (work_log w old)) (Reconcile v)"
proof -
  let ?I = "of_calls (work_log w old)"
  have outside: "keeps ?I (remove_object client k)" "keeps ?I (read_manifest client k)" for client k
    unfolding remove_object_def read_manifest_def of_calls_both
    by (auto intro!: keeps_call_both work_log_Cons simp: worker_call_def)
  have delete: "keeps ?I (deleteBackup v client target b)" for client target b
    unfolding deleteBackup_def finishDelete_def now_def by (intro tx_keeps outside)
  have clean: "keeps ?I (cleanAbandonedUploads v client target bs)" for client target bs
    unfolding cleanAbandonedUploads_def cleanAbandonedUpload_def now_def Let_def by (intro tx_keeps outside)
  have database: "keeps ?I (retainDatabase v client target name policy)" for client target name policy
    unfolding retainDatabase_def finishDelete_def now_def by (intro tx_keeps outside delete clean)
  have fully: "keeps ?I (reconciled_fully v client st databases)" for client st databases
    unfolding reconciled_fully_def retain_def Policy_def pruneHistory_def now_def by (intro tx_keeps database)
  have prefix: "keeps ?I (reconcilePrefix v client target name)" for client target name
    unfolding reconcilePrefix_def record_entry_def read_owner_def now_def Let_def by (intro tx_keeps outside)
  show ?thesis
    unfolding Reconcile_def reconcile_def reconcile_databases_def reconcile_failed_def StorageSettings_def now_def
    by (intro tx_keeps fully prefix)
qed

lemma ClaimJob_known:
  assumes "ClaimJob t (d, fs) = (Inr (Some job), (d', fs'))"
  shows "job_known job d'"
proof -
  from assms obtain r where r: "first_by created_order (filter (\<lambda>j. job_state j = ''queued'') (jobs d)) = Some r"
    and "Job_ID job = job_id r" "map job_id (jobs d') = map job_id (jobs d)"
    by (auto simp: ClaimJob_def tx_simps start_job_def scanJob_def update_where_def split: option.splits if_splits)
  moreover have "r \<in> set (jobs d)" using first_by_Some [OF r] by simp
  ultimately have "Job_ID job \<in> set (map job_id (jobs d'))" by simp
  then show ?thesis by (auto simp: job_known_def list_ex_iff)
qed

lemma execute_grounded:
  "triple (both (job_known job) (work_log w old)) (execute w job) (\<lambda>_. of_calls (work_log w old)) (of_calls (work_log w old))"
proof -
  let ?J = "work_log w old"
  have finish: "keeps (of_calls ?J) (finish_job w job encoded backup failure)" for encoded backup failure
    unfolding finish_job_def current_stage_def Let_def case_prod_beta
    by (intro tx_keeps asks_calls Reconcile_grounded)
  have backup: "triple (both (job_known job) ?J) (runBackup w job) (\<lambda>_. of_calls ?J) (of_calls ?J)"
    by (rule triple_both) (rule runBackup_grounded)
  have others: "keeps (of_calls ?J) (run_job w job)" if "Job_Kind job \<noteq> ''backup''"
    using that unfolding run_job_def case_prod_beta by (auto intro!: tx_keeps runRestore_grounded runDelete_grounded)
  have "triple (both (job_known job) ?J) (run_job w job) (\<lambda>_. of_calls ?J) (of_calls ?J)"
  proof (cases "Job_Kind job = ''backup''")
    case True
    then show ?thesis unfolding run_job_def case_prod_beta by (auto intro!: triple_bind [OF backup] triple_ret)
  next
    case False
    then show ?thesis using others [unfolded triple_keeps] by (auto elim: triple_pre simp: both_def of_calls_def)
  qed
  then show ?thesis
    unfolding execute_def case_prod_beta
    by (rule triple_bind) (unfold triple_keeps [symmetric], intro tx_keeps finish)
qed

lemma drain_grounded: "keeps (of_calls (work_log w old)) (drain w)"
proof -
  let ?J = "work_log w old"
  let ?known = "\<lambda>r d. case r of Inr (Some job) \<Rightarrow> job_known job d | _ \<Rightarrow> True"
  have claim: "triple (of_calls ?J) (attempt (on_db (ClaimJob t))) (\<lambda>r. both (?known r) ?J) E" for t E
    by (rule triple_attempt, rule triple_on_db)
      (auto simp: both_def of_calls_def dest: ClaimJob_known split: option.split)
  have "keeps (of_calls ?J) (drain_upto w n)" for n
  proof (induction n)
    case (Suc n)
    have rest: "triple (both (?known r) ?J) (case r of Inl _ \<Rightarrow> ret QueueUnavailable | Inr None \<Rightarrow> ret NothingToClaim
        | Inr (Some job) \<Rightarrow> then_tx (execute w job) (drain_upto w n)) (\<lambda>_. of_calls ?J) (of_calls ?J)" for r
      using triple_then [OF execute_grounded Suc [unfolded triple_keeps]]
      by (auto split: sum.split option.split intro!: triple_ret simp: both_def of_calls_def)
    show ?case
      unfolding drain_upto.simps
      by (rule keeps_bind [OF keeps_observe_of_calls], rule keeps_if [OF keeps_ret], rule keeps_bind [OF asks_calls(1)])
        (unfold triple_keeps, rule triple_bind [OF claim rest])
  qed (simp add: keeps_ret)
  then show ?thesis by (simp add: keeps_def leaves_def drain_def del: drain_upto.simps)
qed

lemma Run_worker_grounded: "keeps (of_calls (work_log w old)) (Run_worker w events)"
proof -
  let ?I = "of_calls (work_log w old)"
  have due: "keeps ?I (schedule_next w t candidates)" for t candidates
    unfolding schedule_next_def by (cases candidates) (auto intro!: tx_keeps)
  have schedule: "keeps ?I (scheduleBackups w)"
    unfolding scheduleBackups_def StorageSettings_def by (intro tx_keeps asks_calls due)
  have all: "keeps ?I (reconcile_all w)"
    unfolding reconcile_all_def resumeDeletions_def by (intro tx_keeps asks_calls Reconcile_grounded schedule)
  have look: "keeps ?I (look_then_schedule w)"
    unfolding look_then_schedule_def reconcileIfUnknown_def is_reconciled_def StorageSettings_def
    by (intro tx_keeps Reconcile_grounded schedule)
  have "keeps ?I (serve w events)"
    by (induction events) (auto intro!: tx_keeps drain_grounded schedule all look simp: on_wake_def split: wake.split)
  then show ?thesis
    unfolding Run_worker_def start_up_def by (intro tx_keeps asks_calls all)
qed

text \<open>
  C1. The worker never acts on PostgreSQL or the backup store without grounds. Over any series of jobs,
  reconciliations, schedules and restarts, whatever the queue holds and whatever fails, at the moment of
  each call the database says so: a project's database and role are dropped only while a project of that
  name is marked for deletion, an object is uploaded only under the key of a folder that a job has recorded
  (so that a half-finished upload can be found again), \<^verbatim>\<open>pg_restore\<close> runs only into a project that is ready,
  and every role, password, limit and rule is set for the reasons the provisioner has.
\<close>

theorem worker_calls_justified:
  "\<exists>new. calls (leaves (Run_worker w events) (v, fs)) = new @ calls v \<and> list_all (worker_call w) new"
  using keepsD [OF Run_worker_grounded [of w "calls v" events], of "(v, fs)"]
  by (simp add: of_calls_def work_log_refl work_log_def)

end
