(* ===== verification/Worker_Results.thy ===== *)
theory Worker_Results
  imports Worker_Grounds
begin

text \<open>
  What the jobs of the worker are worth (\<^verbatim>\<open>runBackup\<close> and \<^verbatim>\<open>runRestore\<close> of \<^verbatim>\<open>internal/jobs/jobs.go\<close>): a backup that
  succeeds is read back from the bucket by the same client, and a restore runs only on the archive its
  manifest describes and calls itself verified only when every comparison held.
\<close>

section \<open>What a backup leaves behind\<close>

text \<open>A time whose year the names of backup folders can spell, and a worker whose clock shows only such times.\<close>

definition spellable :: "gotime \<Rightarrow> bool" where
  "spellable t = (case date_of t of (year, _, _) \<Rightarrow> 0 \<le> year \<and> year < 10000)"

definition clock_spellable :: "'x JobWorker \<Rightarrow> bool" where
  "clock_spellable w \<longleftrightarrow> (\<forall>x. spellable (from_unix (unix (fst (Now (base w) x)))))"

definition json_restores :: "'x JobWorker \<Rightarrow> bool" where
  "json_restores w \<longleftrightarrow> (\<forall>m text. Encode_manifest w m = Inr text \<longrightarrow> Decode_manifest w text = Some m)"

text \<open>
  The two objects, the archive first; the manifest is read back through the client from the bytes that were
  uploaded, and says of the archive what the job measured.
\<close>

definition published :: "'x JobWorker \<Rightarrow> call list \<Rightarrow> BackupResult \<Rightarrow> Backup \<Rightarrow> call list \<Rightarrow> bool" where
  "published w old result backup cs \<longleftrightarrow> (\<exists>(client :: 'x Client) st m path d d'.
     New_client w st = Inr client \<and> Backup_StorageTarget backup = Target (settings_of client) \<and>
     cs = Uploaded (Backup_ObjectKey backup) (Backup_Manifest backup) d' # Uploaded (Manifest_ArchiveKey m) path d # old \<and>
     Manifest_SHA256 m = BR_SHA256 result \<and> Manifest_SizeBytes m = BR_SizeBytes result \<and> Manifest_Tables m = BR_Tables result \<and>
     Manifest_SizeBytes m \<le> MaxArchiveBytes \<and> Backup_SizeBytes backup = Manifest_SizeBytes m \<and>
     Manifest_ProjectID m = Backup_ProjectID backup \<and> Manifest_InstallationID m = InstallationID (base w) \<and>
     (\<forall>x x'. ReadBytes client (Backup_ObjectKey backup) (MaxManifestBytes + 1) x = (Inr (Backup_Manifest backup), x') \<longrightarrow>
        get_Manifest (Decode_manifest w) client (Backup_ObjectKey backup) x = (Inr m, x')))"

lemma manifest_accepted:
  assumes "ValidDatabaseSegment db" "spellable at" "at = from_unix (unix at)" "folder = BackupKey prefix db at"
    and "Manifest_Version m = 1" "Manifest_DBName m = db" "Manifest_CreatedAt m = at"
    and "Manifest_ArchiveKey m = folder @ ''/'' @ ArchiveFile" "Manifest_ManifestKey m = folder @ ''/'' @ ManifestFile"
  shows "\<exists>e. EntryFor prefix (folder @ ''/'' @ ManifestFile) = Inr e \<and> CheckManifest m e = None"
proof -
  obtain year mon day where "date_of at = (year, mon, day)" "0 \<le> year" "year < 10000"
    using assms(2) by (auto simp: spellable_def split: prod.splits)
  note s = format_stamp_parses [OF this]
  have folder: "folder = key prefix [''backups''] @ ''/'' @ db @ ''/'' @ format_stamp at"
    unfolding assms(4) BackupKey_def by (rule key_below [OF valid_segment_plain [OF assms(1)] s(2)])
  have "EntryFor prefix (folder @ ''/'' @ ManifestFile) = Inr (entry_at folder at)"
    using EntryFor_below [OF assms(1) s] assms(3,4) by (simp add: BackupKey_def)
  moreover have "CheckManifest m (entry_at folder at) = None"
    using CheckManifest_below [of m "entry_at folder at" "key prefix [''backups'']"] assms(1,5-9) s(2) folder
    by (simp add: entry_at_def)
  ultimately show ?thesis by blast
qed

lemma written_reads_back:
  assumes "json_restores w" "EncodeManifest (Encode_manifest w) m = Inr encoded" "Manifest_ManifestKey m = k"
    and "EntryFor (Prefix (settings_of client)) k = Inr e" "CheckManifest m e = None"
    and "ReadBytes client k (MaxManifestBytes + 1) x = (Inr encoded, x')"
  shows "get_Manifest (Decode_manifest w) client k x = (Inr m, x')"
proof -
  have "Decode_manifest w encoded = Some m" "length encoded \<le> MaxManifestBytes"
    using assms(1,2) by (auto simp: json_restores_def EncodeManifest_def split: sum.splits if_splits)
  then have "read_as_manifest (Decode_manifest w) e k encoded = Inr m"
    using assms(3,5) by (auto simp: read_as_manifest_def Let_def)
  then show ?thesis using assms(4,6) by (simp add: get_Manifest_def io_bind_def io_ret_def)
qed

text \<open>A job that succeeds: every step before has succeeded, and what failed on the way needs no account.\<close>

definition on_success :: "('r \<Rightarrow> 'b \<Rightarrow> call list \<Rightarrow> bool) \<Rightarrow> 'r \<times> (err + 'b) \<Rightarrow> 'x world \<Rightarrow> bool" where
  "on_success Q out v = (case snd out of Inl _ \<Rightarrow> True | Inr b \<Rightarrow> Q (fst out) b (calls v))"

lemma step_success:
  assumes "triple P m R (\<lambda>_. True)" "\<And>a. triple (R a) (k a) (on_success Q) (\<lambda>_. True)"
  shows "triple P (step result f m k) (on_success Q) (\<lambda>_. True)"
proof -
  have "triple P (attempt m) (\<lambda>r v. case r of Inl _ \<Rightarrow> True | Inr a \<Rightarrow> R a v) (\<lambda>_. True)"
    using assms(1) by (intro triple_attempt) (simp add: triple_def)
  then show ?thesis
    unfolding step_def
  proof (rule triple_bind)
    fix r
    show "triple (\<lambda>v. case r of Inl _ \<Rightarrow> True | Inr a \<Rightarrow> R a v)
        (case r of Inl e \<Rightarrow> give_up result (f e) | Inr a \<Rightarrow> k a) (on_success Q) (\<lambda>_. True)"
      using assms(2) by (cases r) (auto simp: give_up_def on_success_def intro: triple_ret)
  qed
qed

lemma keeps_success: "keeps P m \<Longrightarrow> triple P m (\<lambda>_. P) (\<lambda>_. True)"
  unfolding triple_keeps by (rule triple_error) simp_all

lemmas silent_step = step_success [OF keeps_success]

lemma then_success:
  assumes "keeps P m" "triple P k Q (\<lambda>_. True)"
  shows "triple P (then_tx m k) Q (\<lambda>_. True)"
  using keeps_success [OF assms(1)] assms(2) by (rule triple_then)

lemma silent_asks:
  "keeps (of_calls J) (ask_server f w)" "keeps (of_calls J) (ask_host g w)" "keeps (of_calls J) (ensureWorkspace w n)"
  "keeps (of_calls J) (StorageClient w)" "keeps (of_calls J) (on_db op)" "keeps (of_calls J) (set_stage w job name)"
  "keeps (of_calls J) (countTables w)" "keeps (of_calls J) (tool w name' args)"
  unfolding of_calls_both tool_def run_process_def
  by (rule asks_both reads_both countTables_both keeps_on_db_of_calls [unfolded of_calls_both] set_stage_both TrueI | intro tx_keeps)+

lemma triple_pure: "(c \<Longrightarrow> triple P m Q E) \<Longrightarrow> triple (\<lambda>v. P v \<and> c) m Q E"
  by (cases c) (simp_all add: triple_def)

lemma publish_publishes:
  assumes "clock_spellable w" "json_restores w" "ValidDatabaseSegment (Project_DBName project)" "BR_SizeBytes result \<le> MaxArchiveBytes"
    "New_client w st = Inr client"
  shows "triple (of_calls (\<lambda>cs. cs = old)) (publish w job project client snap archive result)
    (on_success (published w old)) (\<lambda>_. True)"
proof -
  have up: "triple (of_calls (\<lambda>cs. cs = before)) (upload_file client k path) (\<lambda>_. of_calls (\<lambda>cs. \<exists>d. cs = Uploaded k path d # before)) (\<lambda>_. True)"
    "triple (of_calls (\<lambda>cs. \<exists>d. cs = b d)) (upload_bytes client k content) (\<lambda>_. of_calls (\<lambda>cs. \<exists>d d'. cs = Uploaded k content d' # b d)) (\<lambda>_. True)"
    for before b k path content
    unfolding upload_file_def upload_bytes_def by (rule triple_call; auto simp: of_calls_def)+
  have time: "triple (of_calls J) (clock w) (\<lambda>t v. of_calls J v \<and> spellable (from_unix (unix t))) (\<lambda>_. True)" for J
    unfolding clock_def now_def by (rule tripleI) (use assms(1) in \<open>auto simp: observe_Inr of_calls_def clock_spellable_def; metis fst_conv\<close>)+
  show ?thesis
    unfolding publish_def Let_def
  proof (rule triple_bind [OF time], rule triple_pure, rule silent_step [OF silent_asks(5)])
    fix t
    let ?at = "from_unix (unix t)"
    let ?folder = "BackupKey (Prefix (settings_of client)) (Project_DBName project) ?at"
    let ?m = "manifest_of w project snap result ?at ?folder"
    assume "spellable ?at"
    then obtain e where e: "EntryFor (Prefix (settings_of client)) (?folder @ ''/'' @ ManifestFile) = Inr e" "CheckManifest ?m e = None"
      using manifest_accepted [OF assms(3), of ?at ?folder "Prefix (settings_of client)" ?m]
      by (auto simp: manifest_of_def unix_def from_unix_def)
    have reads: "get_Manifest (Decode_manifest w) client (?folder @ ''/'' @ ManifestFile) x = (Inr ?m, x')"
      if "EncodeManifest (Encode_manifest w) ?m = Inr encoded"
        "ReadBytes client (?folder @ ''/'' @ ManifestFile) (MaxManifestBytes + 1) x = (Inr encoded, x')" for encoded x x'
      by (rule written_reads_back [OF assms(2) that(1) _ e that(2)]) (simp add: manifest_of_def)
    show "triple (of_calls (\<lambda>cs. cs = old)) (case EncodeManifest (Encode_manifest w) ?m of
        Inl e \<Rightarrow> give_up result e
      | Inr encoded \<Rightarrow> then_tx (set_stage w job ''upload_archive'')
         (step result as_is (upload_file client (Manifest_ArchiveKey ?m) archive) (\<lambda>_.
          then_tx (set_stage w job ''upload_manifest'')
          (step result as_is (upload_bytes client (Manifest_ManifestKey ?m) encoded) (\<lambda>_.
           bind_tx (observe (Draw w)) (\<lambda>token.
           ret (result\<lparr>BR_BackupID := ''bk_'' @ take 16 token, BR_ObjectKey := Manifest_ManifestKey ?m\<rparr>,
             Inr \<lparr>Backup_ID = ''bk_'' @ take 16 token, Backup_ProjectID = Project_ID project, Backup_JobID = Job_ID job,
               Backup_ObjectKey = Manifest_ManifestKey ?m, Backup_Manifest = encoded,
               Backup_SizeBytes = BR_SizeBytes result, Backup_CreatedAt = unix ?at,
               Backup_StorageTarget = client_target client\<rparr>)))))))
      (on_success (published w old)) (\<lambda>_. True)"
    proof (cases "EncodeManifest (Encode_manifest w) ?m")
      case (Inl e)
      then show ?thesis by (simp add: give_up_def on_success_def triple_ret)
    next
      case (Inr encoded)
      have end_state: "on_success (published w old) (result\<lparr>BR_BackupID := b, BR_ObjectKey := Manifest_ManifestKey ?m\<rparr>,
             Inr \<lparr>Backup_ID = b, Backup_ProjectID = Project_ID project, Backup_JobID = Job_ID job,
               Backup_ObjectKey = Manifest_ManifestKey ?m, Backup_Manifest = encoded,
               Backup_SizeBytes = BR_SizeBytes result, Backup_CreatedAt = unix ?at,
               Backup_StorageTarget = client_target client\<rparr>) v"
        if "calls v = Uploaded (Manifest_ManifestKey ?m) encoded d' # Uploaded (Manifest_ArchiveKey ?m) archive d # old" for b v d d'
        using that reads [OF Inr] assms(4,5) unfolding on_success_def published_def
        by (auto simp: manifest_of_def client_target_def intro!: exI [of _ client] exI [of _ ?m])
      show ?thesis
        unfolding Inr sum.case
        by (rule then_success [OF silent_asks(6)], rule step_success [OF up(1)], rule then_success [OF silent_asks(6)],
            rule step_success [OF up(2)], rule triple_bind [OF keeps_success [OF keeps_observe_of_calls]], rule triple_ret)
          (auto simp: of_calls_def intro: end_state)
    qed
  qed
qed

definition valid_names :: "db \<Rightarrow> bool" where
  "valid_names d = list_all (\<lambda>r. ValidDatabaseSegment (prj_db_name r)) (projects d)"

lemma get_Project_valid:
  "triple (both valid_names J) (on_db (get_Project pid)) (\<lambda>p v. of_calls J v \<and> ValidDatabaseSegment (Project_DBName p)) (\<lambda>_. True)"
proof (rule triple_on_db)
  fix v :: "'a world" and fs p d fs'
  assume "both valid_names J v" "get_Project pid (wdb v, fs) = (Inr p, d, fs')"
  then show "of_calls J (v\<lparr>wdb := d\<rparr>) \<and> ValidDatabaseSegment (Project_DBName p)"
    using get_Project_stage [OF _ refl, of pid "wdb v" fs p d fs']
    by (auto simp: both_def of_calls_def named_def valid_names_def list_ex_iff list_all_iff)
qed simp

lemma StorageClient_given:
  "triple (of_calls J) (StorageClient w) (\<lambda>c v. of_calls J v \<and> (\<exists>st. New_client w st = Inr c)) (\<lambda>_. True)"
  unfolding StorageClient_def
proof (rule triple_bind)
  show "triple (of_calls J) (StorageSettings (base w)) (\<lambda>_. of_calls J) (\<lambda>_. True)"
    unfolding StorageSettings_def by (rule keeps_success) (intro tx_keeps)
  show "triple (of_calls J) (case New_client w st of Inl e \<Rightarrow> throw e | Inr c \<Rightarrow> ret c)
      (\<lambda>c v. of_calls J v \<and> (\<exists>st. New_client w st = Inr c)) (\<lambda>_. True)" for st
    by (auto split: sum.split intro!: triple_ret triple_throw)
qed

lemma runBackup_publishes:
  assumes "clock_spellable w" "json_restores w"
  shows "triple (both valid_names (\<lambda>cs. cs = old)) (runBackup w job) (on_success (published w old)) (\<lambda>_. True)"
proof -
  have quit: "triple P (give_up result e) (on_success Q) (\<lambda>_. True)" for P Q e
    and result :: BackupResult
    by (simp add: give_up_def on_success_def triple_ret)
  have stage: "keeps (both valid_names J) (set_stage w job name)" for J name
    by (rule set_stage_both) (simp add: valid_names_def)
  have dumped: "triple (of_calls (\<lambda>cs. cs = old)) (dump_archive w job project snap archive
      (\<lambda>dumped. publish w job project client snap archive dumped)) (on_success (published w old)) (\<lambda>_. True)"
    if "ValidDatabaseSegment (Project_DBName project)" "New_client w st = Inr client" for project snap archive client st
    unfolding dump_archive_def Let_def case_prod_beta
    using publish_publishes [OF assms that(1) _ that(2)]
    by (intro then_success silent_asks silent_step triple_ifI quit) simp
  show ?thesis
    unfolding runBackup_def take_snapshot_def Let_def case_prod_beta
    by (rule then_success [OF stage], rule step_success [OF get_Project_valid], rule triple_pure, rule triple_ifI [OF quit],
        rule step_success [OF StorageClient_given], rule triple_pure, erule exE)
      (intro then_success silent_asks silent_step dumped; assumption)
qed


definition empty_bucket :: "unit Client" where
  "empty_bucket = \<lparr>settings_of = sample_settings, mc = \<lparr>ListObjects = (\<lambda>_ _ _ _. ([], ())), GetObject = (\<lambda>_ _ _. (Inr ''made'', ())),
     PutObject = (\<lambda>_ _ _ _ _. (Inr (), ())), FPutObject = (\<lambda>_ _ _ _. (Inr (), ())), FGetObject = (\<lambda>_ _ _ _. (Inr (), ())),
     RemoveObject = (\<lambda>_ _ _. (Inr (), ())), GetBucketVersioning = (\<lambda>_ _. (Inr True, ()))\<rparr>\<rparr>"

definition made_at :: gotime where "made_at = from_unix 1300000"

definition made_manifest :: Manifest where
  "made_manifest = \<lparr>Manifest_Version = 1, Manifest_InstallationID = ''i'', Manifest_ProjectID = ''p'', Manifest_ProjectName = ''p'',
     Manifest_DBName = ''p'', Manifest_PostgresVersion = ''17.2'', Manifest_CreatedAt = made_at,
     Manifest_ArchiveKey = BackupKey ''p'' ''p'' made_at @ ''/'' @ ArchiveFile, Manifest_SHA256 = ''abc'', Manifest_SizeBytes = 10,
     Manifest_Tables = [], Manifest_TablesTruncated = False, Manifest_Objects = Some no_objects,
     Manifest_ManifestKey = BackupKey ''p'' ''p'' made_at @ ''/'' @ ManifestFile\<rparr>"

definition backup_worker :: "unit JobWorker" where
  "backup_worker = sample_job_worker\<lparr>base := sample_worker\<lparr>Unmarshal_settings := \<lambda>_. Inr sample_settings\<rparr>,
     Server_of := silent_server\<lparr>CountObjects := io_ret no_objects\<rparr>, New_client := \<lambda>_. Inr empty_bucket,
     Encode_manifest := \<lambda>m. if m = made_manifest then Inr ''made'' else Inl (EExternal ''json''),
     Decode_manifest := \<lambda>b. if b = ''made'' then Some made_manifest else None\<rparr>"

definition backup_job :: Job where
  "backup_job = scanJob (hd (jobs running_backup))"

definition shop_with_storage :: "unit world" where
  "shop_with_storage = (shop_world ''ready'')\<lparr>wdb := (shop ''ready'')\<lparr>settings := [(''storage'', (''sealed'', 0))]\<rparr>\<rparr>"

lemma step_eq: "step result f m k s = (case m s of (Inl e, s') \<Rightarrow> (Inr (result, Inl (f e)), s') | (Inr a, s') \<Rightarrow> k a s')"
  by (simp add: step_def bind_tx_def attempt_def give_up_def ret_def split: prod.split sum.split)

lemma backup_succeeds: "\<exists>result backup v' fs'. runBackup backup_worker backup_job (shop_with_storage, []) = (Inr (result, Inr backup), (v', fs'))"
proof -
  have at: "from_unix (unix made_at) = made_at" by (simp add: made_at_def unix_def from_unix_def)
  have quiet: "tool_error ''pg_dump'' (readToolErrors '''') = None"
    by (simp add: tool_error_def readToolErrors_def Let_def fold_read_line_bounds nothing_read_def)
  have prefix: "Prefix sample_settings = ''p''" by (simp add: sample_settings_def)
  note fields = backup_worker_def sample_job_worker_def sample_worker_def silent_server_def roomy_host_def empty_bucket_def
  note rows = backup_job_def shop_with_storage_def shop_world_def shop_def limited_def running_backup_def run_row_def queued_job_def
    scanJob_def scanProject_def empty_db_def
  show ?thesis
    unfolding runBackup_def take_snapshot_def dump_archive_def publish_def Let_def
    by (simp add: step_eq fields rows then_tx_def bind_tx_def ret_def throw_def call_out_def unlogged_def observe_def on_db_def attempt_def ignoring_def
      ask_server_def ask_host_def clock_def now_def set_stage_def SetJobStage_def exec_def stmt_def get_Project_def projectBy_def query_def query_row_def
      StorageClient_def StorageSettings_def Setting_def StorageSetting_def io_ret_def ensureWorkspace_def Let_def countTables_def tool_def run_process_def
      SetJobTarget_def EncodeManifest_def upload_file_def upload_bytes_def UploadFile_def UploadBytes_def answered_def manifest_of_def
      run_tool_def quiet MaxArchiveBytes_def as_is_def unreachable_def coalesce_def at [unfolded made_at_def] made_manifest_def made_at_def prefix client_target_def MaxManifestBytes_def)
qed


section \<open>What a restore goes by\<close>

text \<open>
  The log of a restore: either no restore ran, or the last call is one run of \<^verbatim>\<open>pg_restore\<close>, after the manifest
  was read and the checksum and length of the downloaded file were those of the manifest.
\<close>

fun is_restore :: "call \<Rightarrow> bool" where
  "is_restore (RestoreRun _ _ _) = True"
| "is_restore _ = False"

definition unrestored :: "call list \<Rightarrow> call list \<Rightarrow> bool" where
  "unrestored old cs \<longleftrightarrow> (\<exists>new. cs = new @ old \<and> list_ex is_restore new = False)"

definition checked :: "call list \<Rightarrow> string \<Rightarrow> Manifest \<Rightarrow> string \<Rightarrow> call list \<Rightarrow> bool" where
  "checked old k m path cs \<longleftrightarrow> Manifest_SizeBytes m \<le> MaxArchiveBytes \<and>
     (\<exists>mid. list_ex is_restore mid = False \<and>
        cs = mid @ Checksummed path (Manifest_SHA256 m) (Manifest_SizeBytes m) # ReadManifest k (Inr m) # old)"

definition restored :: "call list \<Rightarrow> string \<Rightarrow> Manifest \<Rightarrow> string \<Rightarrow> call list \<Rightarrow> bool" where
  "restored old k m path cs \<longleftrightarrow> (\<exists>name role d cs'. named ''ready'' name role d \<and>
     cs = RestoreRun name role d # cs' \<and> checked old k m path cs')"

definition restore_log :: "call list \<Rightarrow> string \<Rightarrow> call list \<Rightarrow> bool" where
  "restore_log old k cs \<longleftrightarrow> unrestored old cs \<or> (\<exists>m path. restored old k m path cs)"

lemma checked_unrestored: "checked old k m path cs \<Longrightarrow> unrestored old cs"
proof -
  assume "checked old k m path cs"
  then obtain mid where "list_ex is_restore mid = False"
    "cs = (mid @ [Checksummed path (Manifest_SHA256 m) (Manifest_SizeBytes m), ReadManifest k (Inr m)]) @ old"
    by (auto simp: checked_def)
  then show ?thesis unfolding unrestored_def by (intro exI conjI) (assumption, simp)
qed

text \<open>What a restore that calls itself verified has found.\<close>

definition confirmed :: "RestoreResult \<Rightarrow> Manifest \<Rightarrow> bool" where
  "confirmed result m \<longleftrightarrow> RR_RestoreErrors result = 0 \<and> list_all Check_OK (RR_Checks result) \<and>
     \<not> Manifest_TablesTruncated m \<and> Manifest_Objects m \<noteq> None \<and>
     list_all (\<lambda>t. table_check t (Inr (TableCount_Rows t)) \<in> set (RR_Checks result)) (Manifest_Tables m)"

definition restore_end :: "call list \<Rightarrow> string \<Rightarrow> RestoreResult \<times> (err + unit) \<Rightarrow> 'x world \<Rightarrow> bool" where
  "restore_end old k out v \<longleftrightarrow> restore_log old k (calls v) \<and>
     (snd out = Inr () \<longrightarrow> (\<exists>m path. restored old k m path (calls v) \<and> (RR_Verified (fst out) \<longrightarrow> confirmed (fst out) m)))"

lemma step_restore:
  assumes "triple P m R (of_calls (restore_log old k))" "\<And>a. triple (R a) (c a) (restore_end old k) (of_calls (restore_log old k))"
  shows "triple P (step result f m c) (restore_end old k) (of_calls (restore_log old k))"
proof -
  let ?E = "of_calls (restore_log old k)"
  have "triple P (attempt m) (\<lambda>r. case r of Inl _ \<Rightarrow> ?E | Inr a \<Rightarrow> R a) ?E"
    using assms(1) by (intro triple_attempt) simp
  moreover have "triple (case r of Inl _ \<Rightarrow> ?E | Inr a \<Rightarrow> R a) (case r of Inl e \<Rightarrow> give_up result (f e) | Inr a \<Rightarrow> c a) (restore_end old k) ?E" for r
    using assms(2) by (cases r) (auto simp: give_up_def restore_end_def of_calls_def intro: triple_ret)
  ultimately show ?thesis unfolding step_def by (rule triple_bind)
qed

lemma quit_restore: "(\<And>cs. J cs \<Longrightarrow> restore_log old k cs) \<Longrightarrow> triple (of_calls J) (give_up result e) (restore_end old k) E"
  by (auto simp: give_up_def restore_end_def of_calls_def intro!: triple_ret)

lemma restore_then:
  assumes "keeps (of_calls J) m" "\<And>cs. J cs \<Longrightarrow> restore_log old k cs"
    and "triple (of_calls J) c Q (of_calls (restore_log old k))"
  shows "triple (of_calls J) (then_tx m c) Q (of_calls (restore_log old k))"
proof -
  have "triple (of_calls J) m (\<lambda>_. of_calls J) (of_calls (restore_log old k))"
    using assms(1) unfolding triple_keeps by (rule triple_error) (simp add: of_calls_def assms(2))
  then show ?thesis by (rule triple_then) (rule assms(3))
qed

lemma restore_silent_step:
  assumes "keeps (of_calls J) m" "\<And>cs. J cs \<Longrightarrow> restore_log old k cs"
    and "\<And>a. triple (of_calls J) (c a) (restore_end old k) (of_calls (restore_log old k))"
  shows "triple (of_calls J) (step result f m c) (restore_end old k) (of_calls (restore_log old k))"
proof (rule step_restore)
  show "triple (of_calls J) m (\<lambda>_. of_calls J) (of_calls (restore_log old k))"
    using assms(1) unfolding triple_keeps by (rule triple_error) (simp add: of_calls_def assms(2))
qed (rule assms(3))

lemma restore_log_starts:
  "restore_log old k old" "restore_log old k (ReadManifest k r # old)"
  "restore_log old k (Checksummed path digest n # ReadManifest k r # old)" "checked old k m path cs \<Longrightarrow> restore_log old k cs"
  "restored old k m path cs \<Longrightarrow> restore_log old k cs"
  using checked_unrestored [of old k m path cs]
  by (auto simp: restore_log_def unrestored_def intro: exI [of _ "[ReadManifest k r]"] exI [of _ "[Checksummed path digest n, ReadManifest k r]"])

lemma table_checks_found:
  "triple P (table_checks w ts) (\<lambda>cs _. list_all Check_OK cs \<longrightarrow> list_all (\<lambda>t. table_check t (Inr (TableCount_Rows t)) \<in> set cs) ts) E"
proof (rule tripleI)
  fix s cs s'
  assume "table_checks w ts s = (Inr cs, s')"
  then show "list_all Check_OK cs \<longrightarrow> list_all (\<lambda>t. table_check t (Inr (TableCount_Rows t)) \<in> set cs) ts"
  proof (induction ts arbitrary: s cs)
    case (Cons t ts)
    then obtain r cs' s1 where "table_checks w ts s1 = (Inr cs', s')" "cs = table_check t r # cs'" by (auto simp: tx_simps)
    moreover have "Check_OK (table_check t r) \<Longrightarrow> r = Inr (TableCount_Rows t)" by (simp add: table_check_def)
    ultimately show ?case using Cons.IH by (auto simp: list_all_iff)
  qed simp
next
  fix s e s' assume "table_checks w ts s = (Inl e, s')"
  then show "E (fst s')"
    by (induction ts arbitrary: s) (auto simp: bind_tx_def attempt_def ret_def split: prod.splits sum.splits)
qed

lemma tool_Errors_nonneg: "tool_Errors (run_tool name p) \<ge> 0"
proof -
  have count: "0 \<le> n" if "Option.bind (summary_digits line) Atoi = Some n" for line n
    using that by (auto simp: Atoi_def bind_eq_Some_conv split: if_splits)
  have line: "tool_Errors (read_line line run) \<ge> 0" if "tool_Errors run \<ge> 0" for line run
    using that count [of line] by (cases "Option.bind (summary_digits line) Atoi") (simp_all add: read_line_def Let_def)
  have "tool_Errors (fold read_line lines run) \<ge> 0" if "tool_Errors run \<ge> 0" for lines run
    using that by (induction lines arbitrary: run) (simp_all add: line)
  from this [of nothing_read] show ?thesis
    by (simp add: run_tool_def readToolErrors_def Let_def nothing_read_def split: process.split wait_result.split)
qed

lemma verifyRestore_found:
  "triple (of_calls J) (verifyRestore w m role) (\<lambda>(checks, state) v. of_calls J v \<and> (state = VerificationVerified \<longrightarrow>
     list_all Check_OK checks \<and> \<not> Manifest_TablesTruncated m \<and> Manifest_Objects m \<noteq> None \<and>
     list_all (\<lambda>t. table_check t (Inr (TableCount_Rows t)) \<in> set checks) (Manifest_Tables m))) E"
proof (rule tripleI)
  fix s :: "'a world \<times> bool list" and out s' assume j: "of_calls J (fst s)" and run: "verifyRestore w m role s = (Inr out, s')"
  obtain checks state where out: "out = (checks, state)" by (cases out)
  have "of_calls J (fst s')" using keepsD_eq [OF verifyRestore_both [of "\<lambda>_. True" J w m role], of s] j run by (simp add: of_calls_both)
  moreover obtain tables s1 rest where t: "table_checks w (Manifest_Tables m) s = (Inr tables, s1)"
    and "checks = tables @ rest" and state: "state = verification m checks"
    using run out by (auto simp: verifyRestore_def tx_simps Let_def)
  moreover have "list_all Check_OK tables \<longrightarrow> list_all (\<lambda>t. table_check t (Inr (TableCount_Rows t)) \<in> set tables) (Manifest_Tables m)"
    using tripleD_Inr [OF table_checks_found [where P = "\<lambda>_. True"] _ t] by simp
  ultimately show "(case out of (checks, state) \<Rightarrow> \<lambda>v. of_calls J v \<and> (state = VerificationVerified \<longrightarrow>
     list_all Check_OK checks \<and> \<not> Manifest_TablesTruncated m \<and> Manifest_Objects m \<noteq> None \<and>
     list_all (\<lambda>t. table_check t (Inr (TableCount_Rows t)) \<in> set checks) (Manifest_Tables m))) (fst s')"
    unfolding out by (auto simp: verification_def VerificationVerified_def VerificationFailed_def VerificationPartial_def list_all_iff split: if_splits)
next
  fix s e s' assume "verifyRestore w m role s = (Inl e, s')"
  then show "E (fst s')" using tripleD_Inl [OF verifyRestore_never_fails [unfolded never_fails_def] TrueI] by blast
qed

lemma run_restore_tool_logged:
  "triple (both (named ''ready'' (Project_DBName project) (Project_RoleName project)) (checked old k m path))
     (run_restore_tool w project archive) (\<lambda>run v. of_calls (restored old k m path) v \<and> tool_Errors run \<ge> 0) (\<lambda>_. False)"
  unfolding run_restore_tool_def
proof (rule triple_bind)
  show "triple (both (named ''ready'' (Project_DBName project) (Project_RoleName project)) (checked old k m path))
     (call_out (\<lambda>_ d. [RestoreRun (Project_DBName project) (Project_RoleName project) d])
       (\<lambda>x. case Process (Host_of w) ''pg_restore'' (restore_args project archive) x of (p, x') \<Rightarrow> (Inr p, x')))
     (\<lambda>_. of_calls (restored old k m path)) (\<lambda>_. False)"
    by (rule triple_call) (auto simp: both_def of_calls_def restored_def split: prod.splits)
qed (rule triple_ret, simp add: tool_Errors_nonneg)

lemma restore_and_verify_end:
  "triple (both (named ''ready'' (Project_DBName project) (Project_RoleName project)) (checked old k m path))
     (restore_and_verify w job project m archive result) (restore_end old k) (of_calls (restore_log old k))"
proof -
  let ?D = "named ''ready'' (Project_DBName project) (Project_RoleName project)" and ?R = "restored old k m path"
  note log = restore_log_starts(5)
  have stage: "triple (both ?D (checked old k m path)) (set_stage w job ''restore'') (\<lambda>_. both ?D (checked old k m path)) (of_calls (restore_log old k))"
    using named_stage unfolding triple_keeps by (rule triple_error) (auto simp: both_def of_calls_def restore_log_starts)
  have verify: "triple (of_calls ?R) (bind_tx (verifyRestore w m (Project_RoleName project)) (\<lambda>(checks, state).
      ret (res\<lparr>RR_Checks := checks, RR_Verification := if reported_errors run then VerificationFailed else state,
        RR_Verified := ((if reported_errors run then VerificationFailed else state) = VerificationVerified),
        RR_Summary := f state\<rparr>, Inr ()))) (restore_end old k) E"
    if "tool_Errors run \<ge> 0" "RR_RestoreErrors res = tool_Errors run" for run res f E
    by (rule triple_bind [OF verifyRestore_found]) (use that in \<open>auto intro!: triple_ret exI [of _ m] exI [of _ path] simp: restore_end_def of_calls_def log confirmed_def
      reported_errors_def VerificationFailed_def VerificationVerified_def split: if_splits\<close>)
  show ?thesis
    unfolding restore_and_verify_def Let_def
    by (rule triple_then [OF stage], rule triple_bind [OF triple_error [OF run_restore_tool_logged]], simp, rule triple_pure)
      (auto split: option.split intro!: quit_restore restore_then silent_asks restore_silent_step verify elim: log)
qed

lemma keeps_checked_ProvisionNow: "keeps (of_calls (checked old k m path)) (ProvisionNow p pid)"
  unfolding keeps_def
proof (intro allI impI)
  fix s :: "'a world \<times> bool list" assume "of_calls (checked old k m path) (fst s)"
  then obtain mid where mid: "Manifest_SizeBytes m \<le> MaxArchiveBytes" "list_ex is_restore mid = False"
    "calls (fst s) = mid @ Checksummed path (Manifest_SHA256 m) (Manifest_SizeBytes m) # ReadManifest k (Inr m) # old"
    by (auto simp: of_calls_def checked_def)
  have "of_calls (new_justified p (calls (fst s))) (leaves (ProvisionNow p pid) s)"
    using ProvisionNow_justified by (rule keepsD) (simp add: of_calls_def new_justified_refl)
  then obtain new where new: "calls (leaves (ProvisionNow p pid) s) = new @ calls (fst s)" "list_all (justified p) new"
    by (auto simp: of_calls_def new_justified_def)
  have "\<not> is_restore c" if "justified p c" for c using that by (cases c) (simp_all add: justified_def)
  then have "list_ex is_restore (new @ mid) = False" using new(2) mid(2) by (auto simp: list_ex_iff list_all_iff)
  then show "of_calls (checked old k m path) (leaves (ProvisionNow p pid) s)"
    unfolding of_calls_def checked_def using new(1) mid by (intro conjI exI [of _ "new @ mid"]) simp_all
qed

lemma restore_into_end:
  "triple (of_calls (checked old k m path)) (restore_into w job m archive input result) (restore_end old k) (of_calls (restore_log old k))"
proof -
  let ?J = "checked old k m path"
  note log = restore_log_starts(4)
  let ?E = "of_calls (restore_log old k)"
  have read: "triple (of_calls ?J) (on_db (get_Project pid)) (\<lambda>project v. both (\<lambda>d. Project_Stage project = ''ready'' \<longrightarrow>
      named ''ready'' (Project_DBName project) (Project_RoleName project) d) ?J v) ?E" for pid
    by (rule triple_on_db) (auto simp: both_def of_calls_def intro: log dest: get_Project_stage)
  have quit: "triple (both D ?J) (give_up result e) (restore_end old k) ?E" for D e
    by (rule triple_pre [OF quit_restore [where J = ?J, OF log]], assumption) (simp add: both_def of_calls_def)
  have pass: "triple (both D ?J) (ask_host Passfile w) (\<lambda>_. both D ?J) ?E" for D
    using asks_both(2) unfolding triple_keeps by (rule triple_error) (auto simp: both_def of_calls_def intro: log)
  have found: "triple (both (\<lambda>d. Project_Stage project = ''ready'' \<longrightarrow> named ''ready'' (Project_DBName project) (Project_RoleName project) d) ?J)
      (if Project_Stage project \<noteq> ''ready'' then give_up result (EMsg ''the target project is not ready; it may have been deleted'')
       else step result as_is (ask_host Passfile w) (\<lambda>_. restore_and_verify w job project m archive result)) (restore_end old k) ?E" for project
    by (auto intro!: quit step_restore [OF pass] restore_and_verify_end)
  show ?thesis
    unfolding restore_into_def
    by (rule restore_then [OF silent_asks(6) log], assumption)
      (auto split: option.split intro!: quit_restore log restore_silent_step [OF keeps_checked_ProvisionNow log] step_restore [OF read found])
qed

lemma runRestore_end:
  assumes "Decode_restore w (Job_Input job) = Inr input"
  shows "triple (of_calls (\<lambda>cs. cs = old)) (runRestore w job) (restore_end old (RI_ManifestKey input)) (of_calls (restore_log old (RI_ManifestKey input)))"
proof -
  let ?k = "RI_ManifestKey input"
  let ?read = "\<lambda>m cs. cs = ReadManifest ?k (Inr m) # old"
  let ?E = "of_calls (restore_log old ?k)"
  have start: "restore_log old ?k cs" if "cs = old" for cs using that restore_log_starts(1) by simp
  have begun: "restore_log old ?k cs" if "?read m cs" for m cs using that restore_log_starts(2) by simp
  have manifest: "triple (of_calls (\<lambda>cs. cs = old)) (fetch_manifest w client ?k) (\<lambda>m. of_calls (?read m)) ?E" for client
    unfolding fetch_manifest_def by (rule triple_call) (auto simp: of_calls_def restore_log_starts)
  have sum: "triple (of_calls (?read m)) (checksum w path) (\<lambda>(digest, n). of_calls (\<lambda>cs. cs = Checksummed path digest n # ReadManifest ?k (Inr m) # old)) ?E" for m path
    unfolding checksum_def by (rule triple_call) (auto simp: of_calls_def begun split: prod.split)
  have measured: "triple (of_calls (\<lambda>cs. cs = Checksummed path digest n # ReadManifest ?k (Inr m) # old))
      (if digest \<noteq> Manifest_SHA256 m \<or> n \<noteq> Manifest_SizeBytes m then give_up result e else restore_into w job m archive input result)
      (restore_end old ?k) ?E" if "Manifest_SizeBytes m \<le> MaxArchiveBytes" for m path digest n result e archive
  proof (rule triple_ifI)
    show "triple (of_calls (\<lambda>cs. cs = Checksummed path digest n # ReadManifest ?k (Inr m) # old)) (give_up result e) (restore_end old ?k) ?E"
      by (rule quit_restore) (simp add: restore_log_starts)
  next
    assume "\<not> (digest \<noteq> Manifest_SHA256 m \<or> n \<noteq> Manifest_SizeBytes m)"
    with that show "triple (of_calls (\<lambda>cs. cs = Checksummed path digest n # ReadManifest ?k (Inr m) # old))
      (restore_into w job m archive input result) (restore_end old ?k) ?E"
      by (intro triple_pre [OF restore_into_end [of old ?k m path]]) (auto simp: of_calls_def checked_def intro: exI [of _ "[]"])
  qed
  have measured_pair: "triple (case p of (digest, n) \<Rightarrow> of_calls (\<lambda>cs. cs = Checksummed path digest n # ReadManifest ?k (Inr m) # old))
      (case p of (digest, n) \<Rightarrow> if digest \<noteq> Manifest_SHA256 m \<or> n \<noteq> Manifest_SizeBytes m then give_up result e
         else restore_into w job m archive input result)
      (restore_end old ?k) ?E" if "Manifest_SizeBytes m \<le> MaxArchiveBytes" for m path p result e archive
    unfolding case_prod_beta using that by (rule measured)
  have archive: "triple (of_calls (?read m)) (fetch_archive w job client m result (\<lambda>archive. restore_into w job m archive input result))
      (restore_end old ?k) ?E" if "Manifest_SizeBytes m \<le> MaxArchiveBytes" for m client result
    unfolding fetch_archive_def Let_def
    by (rule restore_silent_step [OF silent_asks(3) begun], assumption, rule restore_silent_step [OF silent_asks(2) begun], assumption,
        rule restore_then [OF silent_asks(6) begun], assumption, rule restore_silent_step [OF keeps_unlogged_of_calls begun], assumption,
        rule restore_then [OF silent_asks(6) begun], assumption, rule step_restore [OF sum])
      (rule measured_pair [OF that])
  show ?thesis
    unfolding runRestore_def assms Let_def sum.case
    by (rule restore_then [OF silent_asks(6) start], assumption, rule restore_silent_step [OF silent_asks(4) start], assumption,
        rule step_restore [OF manifest], rule restore_silent_step [OF silent_asks(1) begun], assumption)
      (intro triple_ifI quit_restore archive; simp add: begun)
qed



end
