(* ===== verification/Worker_Trials.thy ===== *)
theory Worker_Trials
  imports Worker_Results "HOL-Library.Code_Target_Nat"
begin

text \<open>
  Concrete runs of the worker that are evaluated whole. Numbers are computed in binary here, because the
  limits of \<^verbatim>\<open>jobs.go\<close> and \<^verbatim>\<open>storage.go\<close> are in the millions.
\<close>

section \<open>A restore\<close>

definition restore_worker :: "unit JobWorker" where
  "restore_worker = backup_worker\<lparr>Decode_restore := \<lambda>_. Inr \<lparr>RI_ManifestKey = Manifest_ManifestKey made_manifest, RI_Name = ''p'', RI_ProjectID = ''p''\<rparr>\<rparr>"

definition restore_job :: Job where
  "restore_job = backup_job\<lparr>Job_Kind := ''restore''\<rparr>"

definition verified_outcome :: "err + RestoreResult \<times> (err + unit) \<Rightarrow> bool" where
  "verified_outcome r = (case r of Inr (result, Inr _) \<Rightarrow> RR_Verified result | _ \<Rightarrow> False)"

lemma restore_succeeds: "verified_outcome (fst (runRestore restore_worker restore_job (shop_with_storage, [])))"
  by code_simp


section \<open>The error stream of a tool\<close>


end
