(* ===== verification/Host_Status.thy ===== *)
theory Host_Status
  imports World
begin

text \<open>
  What the host reports about itself (\<^verbatim>\<open>internal/hoststatus/hoststatus.go\<close>): disks, the clock and the certificate,
  read from files the host writes. Reading a file is a call to the outside; JSON, the RFC 3339 parser and the
  certificate parser are functions of the record \<open>HostFiles\<close>. A free share is a fraction, its numerator and
  its positive denominator: for file systems below \<^verbatim>\<open>2^46\<close> bytes the double of the source falls under the limit
  exactly when the fraction does.
\<close>

section \<open>The report\<close>

definition StaleAfter :: duration where "StaleAfter = 15 * minute"
definition LowDiskPercent :: int where "LowDiskPercent = 15"
definition ExpiringWithin :: duration where "ExpiringWithin = 14 * 24 * hour"

type_synonym share = "int \<times> int"

definition share_less :: "share \<Rightarrow> int \<Rightarrow> bool" where
  "share_less s n = (fst s < n * snd s)"

record Paths =
  Paths_Status :: string
  Paths_CertSync :: string
  Paths_TLSState :: string
  Paths_Certificate :: string

record Disk =
  Disk_Name :: string
  Disk_Device :: nat
  Disk_TotalBytes :: int
  Disk_FreeBytes :: int
  Disk_FreePercent :: share
  Disk_Low :: bool
  Disk_Error :: string

record CertSync =
  CertSync_At :: string
  CertSync_OK :: bool
  CertSync_Message :: string

record Certificate =
  Certificate_State :: string
  Certificate_Issuer :: string
  Certificate_ExpiresAt :: "int option"
  Certificate_Expiring :: bool
  Certificate_Expired :: bool
  Certificate_LastSync :: "CertSync option"

record Status =
  Status_State :: string
  Status_WrittenAt :: int
  Status_Disks :: "Disk list"
  Status_NTPSynchronized :: "bool option"
  Status_Certificate :: Certificate

text \<open>The report as it stands in the file.\<close>

record report =
  report_WrittenAt :: string
  report_Disks :: "Disk list"
  report_Synchronized :: "bool option"

record 'x HostFiles =
  ReadFile :: "string \<Rightarrow> ('x, string) io"
  Unmarshal_report :: "string \<Rightarrow> report option"
  Unmarshal_tls :: "string \<Rightarrow> (string \<times> string) option"
  Unmarshal_sync :: "string \<Rightarrow> CertSync option"
  Parse_RFC3339 :: "string \<Rightarrow> gotime option"
  NotAfter :: "string \<Rightarrow> gotime option"

definition read_file :: "'x HostFiles \<Rightarrow> string \<Rightarrow> ('x, string option) act" where
  "read_file h path = bind_tx (attempt (call_out unlogged (ReadFile h path))) (\<lambda>r.
     ret (case r of Inl _ \<Rightarrow> None | Inr b \<Rightarrow> Some b))"

text \<open>A measured disk gets its free share; one that was not measured keeps what the file says.\<close>

definition measure_disk :: "Disk \<Rightarrow> Disk" where
  "measure_disk d =
     (if Disk_Error d = '''' \<and> Disk_TotalBytes d > 0 then
        let percent = (Disk_FreeBytes d * 100, Disk_TotalBytes d) in
        d\<lparr>Disk_FreePercent := percent, Disk_Low := share_less percent LowDiskPercent\<rparr>
      else d)"

definition report_status :: "report \<Rightarrow> gotime \<Rightarrow> gotime \<Rightarrow> Certificate \<Rightarrow> Status" where
  "report_status r at now c = \<lparr>Status_State = (if now - at > StaleAfter then ''stale'' else ''ok''), Status_WrittenAt = unix at,
     Status_Disks = map measure_disk (report_Disks r), Status_NTPSynchronized = report_Synchronized r, Status_Certificate = c\<rparr>"

definition no_report :: "Certificate \<Rightarrow> Status" where
  "no_report c = \<lparr>Status_State = ''unknown'', Status_WrittenAt = 0, Status_Disks = [], Status_NTPSynchronized = None,
     Status_Certificate = c\<rparr>"

definition parsed_report :: "'x HostFiles \<Rightarrow> string option \<Rightarrow> (report \<times> gotime) option" where
  "parsed_report h b = Option.bind b (\<lambda>text. Option.bind (Unmarshal_report h text) (\<lambda>r.
     Option.bind (Parse_RFC3339 h (report_WrittenAt r)) (\<lambda>at. Some (r, at))))"

section \<open>The certificate\<close>

definition unused_certificate :: "string \<Rightarrow> Certificate" where
  "unused_certificate state = \<lparr>Certificate_State = state, Certificate_Issuer = '''', Certificate_ExpiresAt = None,
     Certificate_Expiring = False, Certificate_Expired = False, Certificate_LastSync = None\<rparr>"

definition with_tls_state :: "(string \<times> string) option \<Rightarrow> Certificate \<Rightarrow> Certificate" where
  "with_tls_state state c = (case state of
     Some (st, issuer) \<Rightarrow> if st \<noteq> '''' then c\<lparr>Certificate_State := st, Certificate_Issuer := issuer\<rparr> else c
   | None \<Rightarrow> c)"

definition with_expiry :: "gotime option \<Rightarrow> gotime \<Rightarrow> Certificate \<Rightarrow> Certificate" where
  "with_expiry at now c = (case at of
     None \<Rightarrow> c
   | Some at \<Rightarrow> if Certificate_State c = ''trusted'' then
       c\<lparr>Certificate_ExpiresAt := Some (unix at), Certificate_Expiring := at - now < ExpiringWithin,
         Certificate_Expired := \<not> now < at\<rparr> else c)"

definition with_sync :: "CertSync option \<Rightarrow> Certificate \<Rightarrow> Certificate" where
  "with_sync sync c = (case sync of
     Some s \<Rightarrow> if CertSync_At s \<noteq> '''' then c\<lparr>Certificate_LastSync := Some s\<rparr> else c
   | None \<Rightarrow> c)"

definition certificate :: "'x HostFiles \<Rightarrow> Paths \<Rightarrow> string \<Rightarrow> gotime \<Rightarrow> ('x, Certificate) act" where
  "certificate h p mode now =
     (if mode \<noteq> ''https'' then ret (unused_certificate ''not_used'')
      else bind_tx (read_file h (Paths_TLSState p)) (\<lambda>tls.
        let c = with_tls_state (Option.bind tls (Unmarshal_tls h)) (unused_certificate ''unknown'') in
        bind_tx (read_file h (Paths_Certificate p)) (\<lambda>crt.
        let c = with_expiry (Option.bind crt (NotAfter h)) now c in
        bind_tx (read_file h (Paths_CertSync p)) (\<lambda>sync.
        ret (with_sync (Option.bind sync (Unmarshal_sync h)) c)))))"

definition Read :: "'x HostFiles \<Rightarrow> Paths \<Rightarrow> string \<Rightarrow> gotime \<Rightarrow> ('x, Status) act" where
  "Read h p mode now =
     bind_tx (read_file h (Paths_Status p)) (\<lambda>b.
     bind_tx (certificate h p mode now) (\<lambda>c.
     ret (case parsed_report h b of None \<Rightarrow> no_report c | Some (r, at) \<Rightarrow> report_status r at now c)))"

end
