(* ===== verification/Webhook.thy ===== *)
theory Webhook
  imports Hba Security "HOL-Library.Code_Target_Nat"
begin

text \<open>
  The receiver of alerts (\<^verbatim>\<open>internal/alerts/webhook.go\<close>): which addresses may be dialled, the signature, and
  one delivery. Addresses are the bytes of \<^verbatim>\<open>net.IP\<close>, four or sixteen of them, with the classes that package
  documents. The parser of URLs and the HTTP client are outside.
\<close>

unbundle bit_operations_syntax

section \<open>Addresses\<close>

type_synonym IP = "nat list"

definition mapped :: IP where
  "mapped = replicate 10 0 @ [255, 255]"

definition To4 :: "IP \<Rightarrow> IP option" where
  "To4 ip = (if length ip = 4 then Some ip
     else if length ip = 16 \<and> take 12 ip = mapped then Some (drop 12 ip)
     else None)"

text \<open>An address in its shortest form, as \<^verbatim>\<open>Contains\<close> and the class tests take it.\<close>

definition shortest :: "IP \<Rightarrow> IP" where
  "shortest ip = (case To4 ip of Some v4 \<Rightarrow> v4 | None \<Rightarrow> ip)"

record IPNet =
  net_IP :: IP
  net_ones :: nat

definition network :: "string \<Rightarrow> IPNet option" where
  "network cidr = (case ParsePrefix cidr of
     None \<Rightarrow> None
   | Some p \<Rightarrow> Some \<lparr>net_IP = (case prefix_addr (Masked_prefix p) of Addr4 b \<Rightarrow> b | Addr6 b _ \<Rightarrow> b), net_ones = prefix_bits p\<rparr>)"

definition Contains :: "IPNet option \<Rightarrow> IP \<Rightarrow> bool" where
  "Contains n ip = (case n of
     None \<Rightarrow> False
   | Some n \<Rightarrow> length (shortest ip) = length (net_IP n) \<and>
       mask_bytes (net_ones n) (shortest ip) = mask_bytes (net_ones n) (net_IP n))"

definition IsLinkLocalUnicast :: "IP \<Rightarrow> bool" where
  "IsLinkLocalUnicast ip = (case To4 ip of
     Some b \<Rightarrow> b ! 0 = 169 \<and> b ! 1 = 254
   | None \<Rightarrow> length ip = 16 \<and> ip ! 0 = 0xfe \<and> ip ! 1 AND 0xc0 = 0x80)"

definition IsLinkLocalMulticast :: "IP \<Rightarrow> bool" where
  "IsLinkLocalMulticast ip = (case To4 ip of
     Some b \<Rightarrow> b ! 0 = 224 \<and> b ! 1 = 0 \<and> b ! 2 = 0
   | None \<Rightarrow> length ip = 16 \<and> ip ! 0 = 0xff \<and> ip ! 1 AND 0x0f = 0x02)"

definition IsMulticast :: "IP \<Rightarrow> bool" where
  "IsMulticast ip = (case To4 ip of
     Some b \<Rightarrow> b ! 0 AND 0xf0 = 0xe0
   | None \<Rightarrow> length ip = 16 \<and> ip ! 0 = 0xff)"

definition IsUnspecified :: "IP \<Rightarrow> bool" where
  "IsUnspecified ip \<longleftrightarrow> shortest ip = replicate 4 0 \<or> ip = replicate 16 0"

definition IsLoopback :: "IP \<Rightarrow> bool" where
  "IsLoopback ip = (case To4 ip of
     Some b \<Rightarrow> b ! 0 = 127
   | None \<Rightarrow> ip = replicate 15 0 @ [1])"

definition IsPrivate :: "IP \<Rightarrow> bool" where
  "IsPrivate ip = (case To4 ip of
     Some b \<Rightarrow> b ! 0 = 10 \<or> (b ! 0 = 172 \<and> b ! 1 AND 0xf0 = 16) \<or> (b ! 0 = 192 \<and> b ! 1 = 168)
   | None \<Rightarrow> length ip = 16 \<and> ip ! 0 AND 0xfe = 0xfc)"

definition cgnat :: "IPNet option" where "cgnat = network ''100.64.0.0/10''"

definition reserved :: "IPNet option list" where
  "reserved = [network ''0.0.0.0/8'', network ''192.0.0.0/24'', network ''198.18.0.0/15'']"

definition nat64 :: "IPNet option" where "nat64 = network ''64:ff9b::/96''"
definition sixToFour :: "IPNet option" where "sixToFour = network ''2002::/16''"

lemma networks:
  "nat64 = Some \<lparr>net_IP = [0, 100, 255, 155] @ replicate 12 0, net_ones = 96\<rparr>"
  "sixToFour = Some \<lparr>net_IP = [32, 2] @ replicate 14 0, net_ones = 16\<rparr>"
  "cgnat = Some \<lparr>net_IP = [100, 64, 0, 0], net_ones = 10\<rparr>"
  "reserved = [Some \<lparr>net_IP = [0, 0, 0, 0], net_ones = 8\<rparr>, Some \<lparr>net_IP = [192, 0, 0, 0], net_ones = 24\<rparr>,
     Some \<lparr>net_IP = [198, 18, 0, 0], net_ones = 15\<rparr>]"
  by code_simp+

lemma Contains_16: "Contains (Some n) ip \<Longrightarrow> length (net_IP n) = 16 \<Longrightarrow> length ip = 16"
  by (auto simp: Contains_def shortest_def To4_def split: option.splits if_splits)

function allowed :: "IP \<Rightarrow> bool \<Rightarrow> bool" where
  "allowed ip private =
     (if Contains nat64 ip then allowed (take 4 (drop 12 ip)) private
      else if Contains sixToFour ip then allowed (take 4 (drop 2 ip)) private
      else if IsLinkLocalUnicast ip \<or> IsLinkLocalMulticast ip \<or> IsMulticast ip \<or> IsUnspecified ip then False
      else if list_ex (\<lambda>n. Contains n ip) reserved then False
      else (IsLoopback ip \<or> IsPrivate ip \<or> Contains cgnat ip) = private)"
  by pat_completeness auto
termination
  by (relation "measure (length \<circ> fst)") (auto simp: networks dest: Contains_16)

declare allowed.simps [simp del]
section \<open>The webhook\<close>

record Webhook =
  Webhook_URL :: string
  Webhook_Secret :: string
  Webhook_PrivateEndpoint :: bool

text \<open>What \<^verbatim>\<open>url.Parse\<close> makes of a text; \<open>Hostname\<close> is the host without its port.\<close>

record URL =
  Scheme :: string
  URL_Host :: string
  Hostname :: string
  URL_Path :: string
  RawQuery :: string
  has_User :: bool

type_synonym url_parser = "string \<Rightarrow> URL option"

definition ellipsis :: string where
  "ellipsis = [CHR 0xE2, CHR 0x80, CHR 0xA6]"

definition Validate_webhook :: "url_parser \<Rightarrow> Webhook \<Rightarrow> err option" where
  "Validate_webhook parse w =
     (if length (Webhook_URL w) > 2048 \<or> length (Webhook_Secret w) > 256 then
        Some (EMsg ''the webhook URL or secret is too long'')
      else case parse (Webhook_URL w) of
        None \<Rightarrow> Some (EMsg (''enter a full webhook URL, for example https://hooks.example.com/'' @ ellipsis))
      | Some u \<Rightarrow>
          if URL_Host u = '''' \<or> Hostname u = '''' then
            Some (EMsg (''enter a full webhook URL, for example https://hooks.example.com/'' @ ellipsis))
          else if Scheme u = ''https'' then None
          else if Scheme u = ''http'' then
            (if Webhook_PrivateEndpoint w then None
             else Some (EMsg ''the webhook must use https unless it is a private endpoint on this network''))
          else Some (EMsg ''the webhook must use https''))"

definition Masked_webhook :: "url_parser \<Rightarrow> Webhook \<Rightarrow> string" where
  "Masked_webhook parse w = (case parse (Webhook_URL w) of
     None \<Rightarrow> ''''
   | Some u \<Rightarrow>
       if URL_Host u = '''' then ''''
       else Scheme u @ ''://'' @ URL_Host u @
         (if (URL_Path u \<noteq> '''' \<and> URL_Path u \<noteq> ''/'') \<or> RawQuery u \<noteq> '''' \<or> has_User u then ''/'' @ ellipsis else ''''))"

definition Webhook_Host :: "url_parser \<Rightarrow> Webhook \<Rightarrow> string" where
  "Webhook_Host parse w = (case parse (Webhook_URL w) of None \<Rightarrow> '''' | Some u \<Rightarrow> Hostname u)"

section \<open>Dialling\<close>

definition index_of :: "char \<Rightarrow> string \<Rightarrow> nat option" where
  "index_of c s = (if c \<in> set s then Some (length (takeWhile (\<lambda>x. x \<noteq> c) s)) else None)"

text \<open>\<^verbatim>\<open>net.SplitHostPort\<close>, without the port, which is not looked at.\<close>

definition SplitHostPort :: "string \<Rightarrow> string option" where
  "SplitHostPort address = (case last_index (CHR '':'') address of
     None \<Rightarrow> None
   | Some i \<Rightarrow>
       if hd address = CHR ''['' then
         (case index_of (CHR '']'') address of
            None \<Rightarrow> None
          | Some close \<Rightarrow>
              if close + 1 \<noteq> i \<or> CHR ''['' \<in> set (drop 1 address) \<or> CHR '']'' \<in> set (drop (close + 1) address) then None
              else Some (take (close - 1) (drop 1 address)))
       else let host = take i address in
         if CHR '':'' \<in> set host \<or> CHR ''['' \<in> set address \<or> CHR '']'' \<in> set address then None
         else Some host)"

text \<open>\<^verbatim>\<open>net.ParseIP\<close> gives sixteen bytes and takes no zone.\<close>

definition ParseIP :: "string \<Rightarrow> IP option" where
  "ParseIP host = (case ParseAddr host of
     Some (Addr4 b) \<Rightarrow> Some (mapped @ b)
   | Some (Addr6 b zone) \<Rightarrow> if zone = [] then Some b else None
   | None \<Rightarrow> None)"

definition Control :: "bool \<Rightarrow> string \<Rightarrow> err option" where
  "Control private address =
     (let refusal = Some (EMsg (if private then ''a private webhook must be on this machine or a private network''
        else ''a public webhook may not point at this machine or a private network; use the private endpoint setting'')) in
      case SplitHostPort address of
        None \<Rightarrow> refusal
      | Some host \<Rightarrow> (case ParseIP host of
          None \<Rightarrow> refusal
        | Some ip \<Rightarrow> if allowed ip private then None else refusal))"

section \<open>Delivery\<close>

definition Sign :: "string \<Rightarrow> int \<Rightarrow> string \<Rightarrow> string" where
  "Sign secret timestamp body = ''sha256='' @ hex (hmac sha256 (bytes secret) (bytes (decimal timestamp @ ''.'' @ body)))"

record request =
  req_Method :: string
  req_URL :: string
  req_Header :: "(string \<times> string) list"
  req_Body :: string

definition webhook_request :: "Webhook \<Rightarrow> string \<Rightarrow> string \<Rightarrow> gotime \<Rightarrow> request" where
  "webhook_request w body version now = \<lparr>req_Method = ''POST'', req_URL = Webhook_URL w,
     req_Header = [(''Content-Type'', ''application/json''), (''User-Agent'', ''pgfy/'' @ version)] @
       (if Webhook_Secret w \<noteq> '''' then
          [(''X-Pgfy-Timestamp'', decimal (unix now)), (''X-Pgfy-Signature'', Sign (Webhook_Secret w) (unix now) body)]
        else []),
     req_Body = body\<rparr>"

text \<open>
  The HTTP library: whether a request can be made for a URL, and one request through a client whose dialler
  asks \<open>Control\<close> first. It gives the status or the text of the cause.
\<close>

record 'x HTTP =
  URL_valid :: "string \<Rightarrow> bool"
  Do :: "(string \<Rightarrow> err option) \<Rightarrow> request \<Rightarrow> 'x \<Rightarrow> (string + int) \<times> 'x"
  Parse_url :: url_parser

datatype deliver_error = Rejected int | Undelivered string

fun deliver_text :: "deliver_error \<Rightarrow> string" where
  "deliver_text (Rejected status) = ''the receiver answered HTTP '' @ decimal status"
| "deliver_text (Undelivered text) = text"

text \<open>\<^verbatim>\<open>strings.ReplaceAll\<close> of a part that is not empty; an empty one is put before every character and at the end.\<close>

function replace_all :: "string \<Rightarrow> string \<Rightarrow> string \<Rightarrow> string" where
  "replace_all part with [] = (if part = [] then with else [])"
| "replace_all part with (c # s) =
     (if part = [] then with @ c # replace_all part with s
      else if has_prefix (c # s) part then with @ replace_all part with (drop (length part) (c # s))
      else c # replace_all part with s)"
  by pat_completeness auto
termination
  by (relation "measure (length \<circ> snd \<circ> snd)") (auto simp: neq_Nil_conv)

definition scrub :: "url_parser \<Rightarrow> string \<Rightarrow> string \<Rightarrow> string" where
  "scrub parse text raw =
     (let text = replace_all raw ''(webhook)'' text in
      case parse raw of
        None \<Rightarrow> text
      | Some u \<Rightarrow> if length (URL_Path u) > 1 then replace_all (URL_Path u) (''/'' @ ellipsis) text else text)"

definition Deliver :: "'x HTTP \<Rightarrow> Webhook \<Rightarrow> string \<Rightarrow> string \<Rightarrow> gotime \<Rightarrow> ('x, deliver_error + unit) act" where
  "Deliver http w body version now =
     (if \<not> URL_valid http (Webhook_URL w) then ret (Inl (Undelivered ''the webhook URL is not valid''))
      else bind_tx (call_out (\<lambda>r _. case r of Inr (Inr status) \<Rightarrow> [Posted (Webhook_URL w) body (Some status)] | _ \<Rightarrow> [Posted (Webhook_URL w) body None])
          (\<lambda>x. case Do http (Control (Webhook_PrivateEndpoint w)) (webhook_request w body version now) x of (r, x') \<Rightarrow> (Inr r, x')))
        (\<lambda>r. case r of
          Inl cause \<Rightarrow> ret (Inl (Undelivered (scrub (Parse_url http) cause (Webhook_URL w))))
        | Inr status \<Rightarrow>
            if status < 200 \<or> status > 299 then ret (Inl (Rejected status)) else ret (Inr ())))"

section \<open>What may be dialled\<close>

text \<open>
  The same rule as lists of ranges: the address that is really reached, ranges that are never contacted, and
  ranges inside this machine or a private network.
\<close>

definition reached_address :: "IP \<Rightarrow> IP" where
  "reached_address ip = (if Contains nat64 ip then drop 12 ip else if Contains sixToFour ip then take 4 (drop 2 ip) else ip)"

definition never_contacted :: "IPNet option list" where
  "never_contacted = map network [''0.0.0.0/8'', ''169.254.0.0/16'', ''192.0.0.0/24'', ''198.18.0.0/15'', ''224.0.0.0/4'',
     ''::/128'', ''fe80::/10'', ''ff00::/8'']"

definition inside :: "IPNet option list" where
  "inside = map network [''10.0.0.0/8'', ''100.64.0.0/10'', ''127.0.0.0/8'', ''172.16.0.0/12'', ''192.168.0.0/16'', ''::1/128'', ''fc00::/7'']"

definition in_any :: "IPNet option list \<Rightarrow> IP \<Rightarrow> bool" where
  "in_any ns ip = list_ex (\<lambda>n. Contains n ip) ns"

definition address_bytes :: "IP \<Rightarrow> bool" where
  "address_bytes ip \<longleftrightarrow> (length ip = 4 \<or> length ip = 16) \<and> list_all (\<lambda>b. b < 256) ip"

lemma range_bytes:
  "never_contacted = [Some \<lparr>net_IP = [0, 0, 0, 0], net_ones = 8\<rparr>, Some \<lparr>net_IP = [169, 254, 0, 0], net_ones = 16\<rparr>,
     Some \<lparr>net_IP = [192, 0, 0, 0], net_ones = 24\<rparr>, Some \<lparr>net_IP = [198, 18, 0, 0], net_ones = 15\<rparr>,
     Some \<lparr>net_IP = [224, 0, 0, 0], net_ones = 4\<rparr>, Some \<lparr>net_IP = replicate 16 0, net_ones = 128\<rparr>,
     Some \<lparr>net_IP = [254, 128] @ replicate 14 0, net_ones = 10\<rparr>, Some \<lparr>net_IP = 255 # replicate 15 0, net_ones = 8\<rparr>]"
  "inside = [Some \<lparr>net_IP = [10, 0, 0, 0], net_ones = 8\<rparr>, Some \<lparr>net_IP = [100, 64, 0, 0], net_ones = 10\<rparr>,
     Some \<lparr>net_IP = [127, 0, 0, 0], net_ones = 8\<rparr>, Some \<lparr>net_IP = [172, 16, 0, 0], net_ones = 12\<rparr>,
     Some \<lparr>net_IP = [192, 168, 0, 0], net_ones = 16\<rparr>, Some \<lparr>net_IP = replicate 15 0 @ [1], net_ones = 128\<rparr>,
     Some \<lparr>net_IP = 252 # replicate 15 0, net_ones = 7\<rparr>]"
  by code_simp+

lemma and_upper_bits:
  assumes "b < (256 :: nat)"
  shows "b AND push_bit k (semiring_bit_operations_class.mask (8 - k)) = 2 ^ k * (b div 2 ^ k)"
proof -
  have "take_bit 8 b = b" using assms by (simp add: take_bit_nat_eq_self)
  then have low: "bit b n \<Longrightarrow> n < 8" for n by (metis bit_take_bit_iff)
  have "b AND push_bit k (semiring_bit_operations_class.mask (8 - k)) = push_bit k (drop_bit k b)"
    by (rule bit_eqI) (auto simp: bit_simps dest: low)
  then show ?thesis by (simp add: push_bit_eq_mult drop_bit_eq_div mult.commute)
qed

lemma byte_masks:
  assumes "b < (256 :: nat)"
  shows "b AND 0xf0 = 16 * (b div 16)" "b AND 0xc0 = 64 * (b div 64)" "b AND 0xfe = 2 * (b div 2)"
  using and_upper_bits [OF assms, of 4] and_upper_bits [OF assms, of 6] and_upper_bits [OF assms, of 1]
  by (simp_all add: push_bit_eq_mult mask_eq_exp_minus_1)

lemma mask_byte_whole: "8 \<le> n \<Longrightarrow> mask_byte n b = b" "b < 256 \<Longrightarrow> mask_byte 0 b = 0"
  "mask_byte 4 b = 16 * (b div 16)" "mask_byte 2 b = 64 * (b div 64)" "mask_byte 7 b = 2 * (b div 2)"
  by (simp_all add: mask_byte_def min_def)

lemma allowed_v4:
  assumes "To4 ip = Some [a, b, c, d]" "a < 256" "b < 256" "c < 256" "d < 256"
  shows "allowed ip private \<longleftrightarrow> \<not> in_any never_contacted ip \<and> in_any inside ip = private"
proof -
  have short: "shortest ip = [a, b, c, d]" using assms(1) by (simp add: shortest_def)
  have "To4 (replicate 16 0) = None" by code_simp
  with assms(1) have zero: "ip = replicate 16 0 \<longleftrightarrow> False" by auto
  have four: "replicate 4 (0 :: nat) = [0, 0, 0, 0]" by (simp add: numeral_eq_Suc)
  note masks = byte_masks [OF assms(2)] byte_masks [OF assms(3)]
  note in_range = Contains_def short mask_byte_whole assms(2-5)
  have translated: "Contains nat64 ip = False" "Contains sixToFour ip = False" by (simp_all add: networks Contains_def short)
  have classes: "IsLinkLocalUnicast ip \<longleftrightarrow> a = 169 \<and> b = 254" "IsLinkLocalMulticast ip \<longleftrightarrow> a = 224 \<and> b = 0 \<and> c = 0"
    "IsMulticast ip \<longleftrightarrow> 16 * (a div 16) = 224" "IsUnspecified ip \<longleftrightarrow> a = 0 \<and> b = 0 \<and> c = 0 \<and> d = 0" "IsLoopback ip \<longleftrightarrow> a = 127"
    "IsPrivate ip \<longleftrightarrow> a = 10 \<or> (a = 172 \<and> 16 * (b div 16) = 16) \<or> (a = 192 \<and> b = 168)"
    by (simp_all add: IsLinkLocalUnicast_def IsLinkLocalMulticast_def IsMulticast_def IsUnspecified_def IsLoopback_def IsPrivate_def
        assms(1) zero masks short four)
  have ranges: "list_ex (\<lambda>n. Contains n ip) reserved \<longleftrightarrow> a = 0 \<or> (a = 192 \<and> b = 0 \<and> c = 0) \<or> (a = 198 \<and> 2 * (b div 2) = 18)"
    "Contains cgnat ip \<longleftrightarrow> a = 100 \<and> 64 * (b div 64) = 64"
    by (simp_all add: networks in_range)
  have never: "in_any never_contacted ip \<longleftrightarrow> a = 0 \<or> (a = 169 \<and> b = 254) \<or> (a = 192 \<and> b = 0 \<and> c = 0) \<or> (a = 198 \<and> 2 * (b div 2) = 18) \<or>
      16 * (a div 16) = 224"
    by (simp add: in_any_def range_bytes in_range)
  have inside: "in_any inside ip \<longleftrightarrow> a = 10 \<or> (a = 100 \<and> 64 * (b div 64) = 64) \<or> a = 127 \<or> (a = 172 \<and> 16 * (b div 16) = 16) \<or> (a = 192 \<and> b = 168)"
    by (simp add: in_any_def range_bytes in_range)
  show ?thesis
    unfolding allowed.simps [of ip] translated classes ranges never inside by auto
qed

lemma mask_bytes_all: "8 * length bs \<le> n \<Longrightarrow> mask_bytes n bs = bs"
  by (induction bs arbitrary: n) (simp_all add: mask_byte_whole)

lemma mask_bytes_none: "list_all (\<lambda>b. b < 256) bs \<Longrightarrow> mask_bytes 0 bs = replicate (length bs) 0"
  by (induction bs) (simp_all add: mask_byte_whole)

lemma allowed_v6:
  assumes "To4 ip = None" "length ip = 16" "list_all (\<lambda>b. b < 256) ip" "\<not> Contains nat64 ip" "\<not> Contains sixToFour ip"
  shows "allowed ip private \<longleftrightarrow> \<not> in_any never_contacted ip \<and> in_any inside ip = private"
proof -
  obtain a b rest where ip: "ip = a # b # rest" "length rest = 14"
    using assms(2) by (cases ip; cases "tl ip") auto
  have bytes: "a < 256" "b < 256" "list_all (\<lambda>b. b < 256) rest" using assms(3) by (simp_all add: ip(1))
  have short: "shortest ip = ip" using assms(1) by (simp add: shortest_def)
  note masks = byte_masks [OF bytes(1)] byte_masks [OF bytes(2)]
  have tail: "mask_bytes 0 rest = mask_bytes 0 (replicate 14 0)" "mask_bytes 0 (b # rest) = mask_bytes 0 (replicate 15 0)"
    using mask_bytes_none [OF bytes(3)] mask_bytes_none [of "b # rest"] mask_bytes_none [of "replicate 14 0"] mask_bytes_none [of "replicate 15 0"]
      bytes ip(2) by (simp_all add: list_all_iff)
  then have tail15: "mask_byte 0 b # mask_bytes 0 (replicate 14 0) = mask_bytes 0 (replicate 15 0)" by simp
  have whole: "mask_bytes 128 ip = ip" "mask_bytes 128 (replicate 16 0) = replicate 16 0" "mask_bytes 128 (replicate 15 0 @ [1]) = replicate 15 0 @ [1]"
    using assms(2) by (simp_all add: mask_bytes_all)
  have at: "ip ! 0 = a" "ip ! 1 = b" by (simp_all add: ip(1))
  have classes: "IsLinkLocalUnicast ip \<longleftrightarrow> a = 254 \<and> 64 * (b div 64) = 128" "IsLinkLocalMulticast ip \<longleftrightarrow> a = 255 \<and> b AND 15 = 2"
    "IsMulticast ip \<longleftrightarrow> a = 255" "IsUnspecified ip \<longleftrightarrow> ip = replicate 16 0" "IsLoopback ip \<longleftrightarrow> ip = replicate 15 0 @ [1]"
    "IsPrivate ip \<longleftrightarrow> 2 * (a div 2) = 252"
    using assms(2) unfolding IsLinkLocalUnicast_def IsLinkLocalMulticast_def IsMulticast_def IsUnspecified_def IsLoopback_def IsPrivate_def
      assms(1) option.case short at masks by auto
  have none: "list_ex (\<lambda>n. Contains n ip) reserved = False" "Contains cgnat ip = False"
    using assms(2) by (simp_all add: networks Contains_def short)
  have v6: "Contains (Some \<lparr>net_IP = [254, 128] @ replicate 14 0, net_ones = 10\<rparr>) ip \<longleftrightarrow> a = 254 \<and> 64 * (b div 64) = 128"
    "Contains (Some \<lparr>net_IP = 255 # replicate 15 0, net_ones = 8\<rparr>) ip \<longleftrightarrow> a = 255"
    "Contains (Some \<lparr>net_IP = 252 # replicate 15 0, net_ones = 7\<rparr>) ip \<longleftrightarrow> 2 * (a div 2) = 252"
    "Contains (Some \<lparr>net_IP = replicate 16 0, net_ones = 128\<rparr>) ip \<longleftrightarrow> ip = replicate 16 0"
    "Contains (Some \<lparr>net_IP = replicate 15 0 @ [1], net_ones = 128\<rparr>) ip \<longleftrightarrow> ip = replicate 15 0 @ [1]"
    using assms(2) unfolding Contains_def short option.case IPNet.select_convs whole
    by (simp_all add: ip tail tail15 mask_byte_whole(3-5) mask_byte_whole(1) del: replicate.simps mask_bytes.simps(1))
  have v4: "Contains (Some \<lparr>net_IP = [p, q, r, s], net_ones = n\<rparr>) ip = False" for p q r s n
    using assms(2) by (simp add: Contains_def short)
  have lists: "in_any never_contacted ip \<longleftrightarrow> ip = replicate 16 0 \<or> (a = 254 \<and> 64 * (b div 64) = 128) \<or> a = 255"
    "in_any inside ip \<longleftrightarrow> ip = replicate 15 0 @ [1] \<or> 2 * (a div 2) = 252"
    unfolding in_any_def range_bytes list_ex_iff list.set bex_simps v6 v4 by simp_all
  show ?thesis
    unfolding allowed.simps [of ip] classes none lists using assms(4,5) by auto
qed

lemma allowed_exact:
  assumes "address_bytes ip"
  shows "allowed ip private \<longleftrightarrow> \<not> in_any never_contacted (reached_address ip) \<and> in_any inside (reached_address ip) = private"
proof -
  have v4: "allowed v4 private \<longleftrightarrow> \<not> in_any never_contacted v4 \<and> in_any inside v4 = private"
    if v4: "length v4 = 4" "list_all (\<lambda>b. b < 256) v4" for v4
  proof -
    obtain a b c d where "v4 = [a, b, c, d]" using v4(1) by (auto simp: numeral_eq_Suc length_Suc_conv)
    then show ?thesis using v4 by (intro allowed_v4) (auto simp: To4_def)
  qed
  consider (nat64) "Contains nat64 ip" | (six) "\<not> Contains nat64 ip" "Contains sixToFour ip"
    | (plain) "\<not> Contains nat64 ip" "\<not> Contains sixToFour ip" by blast
  then show ?thesis
  proof cases
    case nat64
    have "length ip = 16" using nat64 by (auto simp: networks dest: Contains_16)
    then have "length (drop 12 ip) = 4" "take 4 (drop 12 ip) = drop 12 ip" by simp_all
    then show ?thesis using nat64 v4 [of "drop 12 ip"] assms
      by (subst allowed.simps) (auto simp: reached_address_def address_bytes_def list_all_iff dest: in_set_dropD)
  next
    case six
    have "length ip = 16" using six by (auto simp: networks dest: Contains_16)
    then show ?thesis using six v4 [of "take 4 (drop 2 ip)"] assms
      by (subst allowed.simps) (auto simp: reached_address_def address_bytes_def list_all_iff dest: in_set_dropD in_set_takeD)
  next
    case plain
    show ?thesis
    proof (cases "To4 ip")
      case None
      then have "length ip = 16" "list_all (\<lambda>b. b < 256) ip" using assms by (auto simp: address_bytes_def To4_def)
      then show ?thesis using allowed_v6 [OF None _ _ plain] plain by (simp add: reached_address_def)
    next
      case (Some b)
      then have "length b = 4" "list_all (\<lambda>b. b < 256) b"
        using assms by (auto simp: address_bytes_def To4_def list_all_iff dest: in_set_dropD split: if_splits)
      moreover from this obtain p q r s where "b = [p, q, r, s]" by (auto simp: numeral_eq_Suc length_Suc_conv)
      ultimately show ?thesis using allowed_v4 Some plain by (simp add: reached_address_def)
    qed
  qed
qed

lemma parse_v4_bytes: "parse_v4 s = Some b \<Longrightarrow> length b = 4 \<and> list_all (\<lambda>x. x < 256) b"
proof -
  assume "parse_v4 s = Some b"
  then obtain p q r u where "map octet (split_at (CHR ''.'') s) = [Some p, Some q, Some r, Some u]" "b = [p, q, r, u]"
    by (auto simp: parse_v4_def split: list.splits option.splits)
  moreover have "x < 256" if "octet t = Some x" for t x using that by (auto simp: octet_def split: if_splits)
  ultimately show ?thesis by auto
qed

lemma hex_number_bound:
  assumes "list_all is_hex h"
  shows "hex_number h < 16 ^ length h"
proof -
  have digit: "the (hex_value c) < 16" if "is_hex c" for c
    using that by (auto simp: is_hex_def hex_value_def Let_def split: if_splits)
  have "foldl (\<lambda>n c. 16 * n + the (hex_value c)) n h < (n + 1) * 16 ^ length h" for n
    using assms
  proof (induction h arbitrary: n)
    case (Cons c h)
    have "(16 * n + the (hex_value c) + 1) * 16 ^ length h \<le> (16 * n + 16) * 16 ^ length h"
      using digit [of c] Cons.prems by (intro mult_right_mono) simp_all
    also have "\<dots> = (n + 1) * 16 ^ length (c # h)" by (simp add: algebra_simps)
    finally show ?case using Cons.IH [of "16 * n + the (hex_value c)"] Cons.prems by simp
  qed simp
  from this [of 0] show ?thesis by (simp add: hex_number_def)
qed

lemma group_bytes:
  assumes "h = takeWhile is_hex s" "length h \<le> 4" "v = hex_number h"
  shows "v div 256 < 256" "v mod 256 < 256"
proof -
  have "v < 16 ^ length h" using hex_number_bound [of h] assms by (auto simp: list_all_iff dest: set_takeWhileD)
  also have "\<dots> \<le> 16 ^ 4" using assms(2) by (intro power_increasing) auto
  finally show "v div 256 < 256" "v mod 256 < 256" by simp_all
qed

lemma parse_groups_bytes:
  assumes "parse_groups k s bs gap = Some (out, gap')" "length bs + 2 * k \<le> 16" "list_all (\<lambda>b. b < 256) bs"
  shows "length out \<le> 16 \<and> list_all (\<lambda>b. b < 256) out"
  using assms
proof (induction k arbitrary: s bs gap)
  case (Suc k)
  let ?h = "takeWhile is_hex s"
  let ?bs = "bs @ [hex_number ?h div 256, hex_number ?h mod 256]"
  have h: "length ?h \<le> 4" using Suc.prems(1) by (auto simp: Let_def split: if_splits)
  have grown: "length ?bs + 2 * k \<le> 16" "list_all (\<lambda>b. b < 256) ?bs"
    using Suc.prems group_bytes [OF refl h refl] by auto
  have ends: "(\<exists>s' gap''. parse_groups k s' ?bs gap'' = Some (out, gap')) \<or> out = ?bs \<or> (\<exists>q. parse_v4 s = Some q \<and> out = bs @ q \<and> length bs + 4 \<le> 16)"
    using Suc.prems(1) by (auto simp: Let_def split: if_splits list.splits)
  then show ?case using Suc.IH [OF _ grown] grown Suc.prems(3) parse_v4_bytes [of s] by auto
qed (auto split: if_splits)

lemma ParseIP_bytes:
  assumes "ParseIP host = Some ip"
  shows "address_bytes ip"
proof -
  have v6: "length b = 16 \<and> list_all (\<lambda>x. x < 256) b" if v6: "parse_v6_bytes s = Some b" for s b
  proof -
    have fill: "length b = 16 \<and> list_all (\<lambda>x. x < 256) b" if "fill_gap (bs, gap) = Some b" "length bs \<le> 16" "list_all (\<lambda>x. x < 256) bs" for bs gap
      using that by (auto simp: fill_gap_def list_all_iff split: if_splits) (meson in_set_takeD in_set_dropD)+
    show ?thesis
      using v6 by (auto simp: parse_v6_bytes_def bind_eq_Some_conv list_all_iff split: if_splits dest!: parse_groups_bytes fill)
  qed
  have "list_all (\<lambda>x. x < 256) mapped" "length mapped = 12" by (simp_all add: mapped_def list_all_iff)
  with assms show ?thesis
    by (auto simp: ParseIP_def ParseAddr_def parse_v6_def Let_def address_bytes_def split: option.splits if_splits Addr.splits
        dest!: v6 parse_v4_bytes)
qed

text \<open>
  C33. Which receiver may be contacted. The dialler accepts an address exactly when it is an IP address with a
  port and the address that is really reached, with the IPv4 address carried by a NAT64 or 6to4 prefix taken
  out and a mapped IPv4 address taken as such, lies in none of the ranges that are never contacted (this
  network, link-local with the metadata service of clouds, multicast, protocol assignments, benchmarking)
  and lies in this machine's or a private range exactly when the webhook is marked as a private endpoint.
\<close>

theorem dial_policy_exact:
  "Control private address = None \<longleftrightarrow>
     (\<exists>host ip. SplitHostPort address = Some host \<and> ParseIP host = Some ip \<and>
        \<not> in_any never_contacted (reached_address ip) \<and> in_any inside (reached_address ip) = private)"
proof -
  have "Control private address = None \<longleftrightarrow> (\<exists>host ip. SplitHostPort address = Some host \<and> ParseIP host = Some ip \<and> allowed ip private)"
    by (auto simp: Control_def Let_def split: option.split)
  then show ?thesis using allowed_exact ParseIP_bytes by metis
qed

end
