(* ===== verification/Management.thy ===== *)
theory Management
  imports Provisioning
begin

text \<open>
  The management connection to PostgreSQL (\<^verbatim>\<open>internal/postgres/management.go\<close>) and the health check
  (\<^verbatim>\<open>internal/postgres/health.go\<close>). The pool of the database library is a record of outside calls: it takes the
  text of a statement with its parameters and answers with rows or an error, and it quotes identifiers. Every
  statement that is sent is kept, newest first. Deadlines end a call with an error, as any failure does.
\<close>

section \<open>The pool\<close>

datatype cell = VBool bool | VInt int | VText string | VTexts "string list" | VTime gotime

datatype statement = Sent string "string list" | TxBegin | TxCommit | TxRollback

record 'x Pool =
  Pool_Exec :: "string \<Rightarrow> string list \<Rightarrow> ('x, unit) io"
  Pool_Query :: "string \<Rightarrow> string list \<Rightarrow> ('x, cell list list) io"
  Pool_Begin :: "('x, unit) io"
  Pool_Commit :: "('x, unit) io"
  Pool_Rollback :: "('x, unit) io"
  Pool_Connect :: "string \<Rightarrow> string \<Rightarrow> ('x, unit) io"
  Pool_Sanitize :: "string \<Rightarrow> string"
  Pool_Error :: "err \<Rightarrow> string"
  Pool_Ended :: "'x \<Rightarrow> bool \<times> 'x"

record 'x pg =
  server :: 'x
  sent :: "statement list"

definition on_server :: "statement list \<Rightarrow> ('x, 'a) io \<Rightarrow> ('x pg, 'a) io" where
  "on_server stmts f s = (case f (server s) of (r, x) \<Rightarrow> (r, s\<lparr>server := x, sent := stmts @ sent s\<rparr>))"

definition io_attempt :: "('x, 'a) io \<Rightarrow> ('x, err + 'a) io" where
  "io_attempt m x = (case m x of (r, x') \<Rightarrow> (Inr r, x'))"

definition io_observe :: "('x \<Rightarrow> 'a \<times> 'x) \<Rightarrow> ('x, 'a) io" where
  "io_observe f x = (case f x of (a, x') \<Rightarrow> (Inr a, x'))"

fun io_each :: "('y \<Rightarrow> ('x, unit) io) \<Rightarrow> 'y list \<Rightarrow> ('x, unit) io" where
  "io_each f [] = io_ret ()"
| "io_each f (y # ys) = io_bind (f y) (\<lambda>_. io_each f ys)"

definition pgx_ErrNoRows :: err where
  "pgx_ErrNoRows = EMsg ''no rows in result set''"

definition scan_error :: err where
  "scan_error = EMsg ''cannot scan into the destination''"

definition scan :: "(cell list \<Rightarrow> 'a option) \<Rightarrow> cell list \<Rightarrow> ('x, 'a) io" where
  "scan f row = (case f row of None \<Rightarrow> io_throw scan_error | Some v \<Rightarrow> io_ret v)"

record 'x Management =
  Management_Pool :: "'x Pool"
  Management_Password :: string

definition pg_exec :: "'x Management \<Rightarrow> string \<Rightarrow> string list \<Rightarrow> ('x pg, unit) io" where
  "pg_exec m sql args = on_server [Sent sql args] (Pool_Exec (Management_Pool m) sql args)"

definition pg_query :: "'x Management \<Rightarrow> string \<Rightarrow> string list \<Rightarrow> ('x pg, cell list list) io" where
  "pg_query m sql args = on_server [Sent sql args] (Pool_Query (Management_Pool m) sql args)"

text \<open>\<^verbatim>\<open>QueryRow(...).Scan(...)\<close>: the first row, or the error that there is none.\<close>

definition pg_row :: "'x Management \<Rightarrow> (cell list \<Rightarrow> 'a option) \<Rightarrow> string \<Rightarrow> string list \<Rightarrow> ('x pg, 'a) io" where
  "pg_row m f sql args = io_bind (pg_query m sql args) (\<lambda>rows. case rows of
     [] \<Rightarrow> io_throw pgx_ErrNoRows
   | row # _ \<Rightarrow> scan f row)"

fun scan_rows :: "(cell list \<Rightarrow> 'a option) \<Rightarrow> cell list list \<Rightarrow> ('x, 'a list) io" where
  "scan_rows f [] = io_ret []"
| "scan_rows f (row # rows) = io_bind (scan f row) (\<lambda>v. io_bind (scan_rows f rows) (\<lambda>vs. io_ret (v # vs)))"

definition pg_rows :: "'x Management \<Rightarrow> (cell list \<Rightarrow> 'a option) \<Rightarrow> string \<Rightarrow> string list \<Rightarrow> ('x pg, 'a list) io" where
  "pg_rows m f sql args = io_bind (pg_query m sql args) (scan_rows f)"

text \<open>An SQL literal between its quotes, and the line break with two tabs inside the longer statements.\<close>

definition literal :: "string \<Rightarrow> string" where
  "literal s = [CHR 0x27] @ s @ [CHR 0x27]"

definition indent :: string where
  "indent = [CHR 0x0A, CHR 0x09, CHR 0x09]"

section \<open>Names and values\<close>

definition name_char :: "char \<Rightarrow> bool" where
  "name_char c = (is_digit c \<or> (let n = (of_char c :: nat) in 97 \<le> n \<and> n \<le> 102))"

definition ValidName :: "string \<Rightarrow> bool" where
  "ValidName name \<longleftrightarrow> length name = 16 \<and> take 4 name = ''app_'' \<and> list_all name_char (drop 4 name)"

definition is_letter :: "char \<Rightarrow> bool" where
  "is_letter c = (let n = (of_char c :: nat) in (65 \<le> n \<and> n \<le> 90) \<or> (97 \<le> n \<and> n \<le> 122))"

definition passwordPattern :: "string \<Rightarrow> bool" where
  "passwordPattern s \<longleftrightarrow> 32 \<le> length s \<and> length s \<le> 64 \<and>
     list_all (\<lambda>c. is_letter c \<or> is_digit c \<or> c = CHR ''_'' \<or> c = CHR ''-'') s"

definition settingValue :: "string \<Rightarrow> bool" where
  "settingValue s \<longleftrightarrow> s = ''-1'' \<or>
     (let n = takeWhile is_digit s; rest = dropWhile is_digit s in 1 \<le> length n \<and> length n \<le> 10 \<and> (rest = ''ms'' \<or> rest = ''kB''))"

definition Management_Connect :: "'x Management \<Rightarrow> string \<Rightarrow> ('x pg, unit) io" where
  "Management_Connect m database =
     (if \<not> ValidName database then io_throw (EMsg ''invalid database name'')
      else on_server [] (Pool_Connect (Management_Pool m)
        (''host=postgres port=5432 user=pgfy_mgmt dbname='' @ database @ '' sslmode=disable connect_timeout=3'') (Management_Password m)))"

fun int_row :: "cell list \<Rightarrow> int option" where
  "int_row [VInt n] = Some n"
| "int_row _ = None"

definition size_query :: string where
  "size_query = ''SELECT pg_database_size(datname) FROM pg_database WHERE datname=$1''"

definition Management_DatabaseSize :: "'x Management \<Rightarrow> string \<Rightarrow> ('x pg, int) io" where
  "Management_DatabaseSize m database = pg_row m int_row size_query [database]"

section \<open>Roles\<close>

fun flags_row :: "cell list \<Rightarrow> (bool \<times> bool \<times> bool \<times> bool) option" where
  "flags_row [VBool a, VBool b, VBool c, VBool d] = Some (a, b, c, d)"
| "flags_row _ = None"

definition role_query :: string where
  "role_query = ''SELECT rolcanlogin, rolsuper, rolcreatedb, rolcreaterole FROM pg_roles WHERE rolname=$1''"

definition Identifier :: "'x Management \<Rightarrow> string \<Rightarrow> string" where
  "Identifier m name = Pool_Sanitize (Management_Pool m) name"

definition password_text :: "'x Management \<Rightarrow> string \<Rightarrow> string \<Rightarrow> string" where
  "password_text m role password = ''ALTER ROLE '' @ Identifier m role @ '' WITH PASSWORD '' @ literal password"

definition create_role_text :: "'x Management \<Rightarrow> string \<Rightarrow> string \<Rightarrow> int \<Rightarrow> string" where
  "create_role_text m name password limit = ''CREATE ROLE '' @ Identifier m name @ '' LOGIN PASSWORD '' @ literal password @
     '' NOSUPERUSER NOCREATEDB NOCREATEROLE NOREPLICATION CONNECTION LIMIT '' @ decimal limit"

definition Management_EnsureRole :: "'x Management \<Rightarrow> string \<Rightarrow> string \<Rightarrow> int \<Rightarrow> ('x pg, unit) io" where
  "Management_EnsureRole m name password limit =
     (if \<not> ValidName name \<or> \<not> passwordPattern password then io_throw (EMsg ''invalid role identity'')
      else io_bind (io_attempt (pg_row m flags_row role_query [name])) (\<lambda>r. case r of
        Inr (login, super, createdb, createrole) \<Rightarrow>
          if \<not> login \<or> super \<or> createdb \<or> createrole then io_throw ErrRoleMismatch
          else pg_exec m (password_text m name password) []
      | Inl e \<Rightarrow>
          if e \<noteq> pgx_ErrNoRows then io_throw e
          else if limit < 1 \<or> limit > 100 then io_throw (EMsg ''invalid connection limit'')
          else pg_exec m (create_role_text m name password limit) []))"

definition Management_SetPassword :: "'x Management \<Rightarrow> string \<Rightarrow> string \<Rightarrow> ('x pg, unit) io" where
  "Management_SetPassword m role password =
     (if \<not> ValidName role \<or> \<not> passwordPattern password then io_throw (EMsg ''invalid role identity'')
      else pg_exec m (password_text m role password) [])"

section \<open>Limits\<close>

definition limit_keys :: "string list" where
  "limit_keys = [''statement_timeout'', ''idle_in_transaction_session_timeout'', ''temp_file_limit'', ''lock_timeout'']"

definition set_text :: "'x Management \<Rightarrow> string \<Rightarrow> string \<Rightarrow> string \<Rightarrow> string" where
  "set_text m role k value = ''ALTER ROLE '' @ Identifier m role @ '' SET '' @ k @ '' = '' @ literal value"

definition limit_text :: "'x Management \<Rightarrow> string \<Rightarrow> int \<Rightarrow> string" where
  "limit_text m role limit = ''ALTER ROLE '' @ Identifier m role @ '' CONNECTION LIMIT '' @ decimal limit"

definition set_limit :: "'x Management \<Rightarrow> string \<Rightarrow> (string \<times> string) list \<Rightarrow> string \<Rightarrow> ('x pg, unit) io" where
  "set_limit m role wanted_settings k = (case map_of wanted_settings k of
     None \<Rightarrow> io_throw (EMsg ''invalid role limits'')
   | Some value \<Rightarrow> if \<not> settingValue value then io_throw (EMsg ''invalid role limits'')
       else pg_exec m (set_text m role k value) [])"

text \<open>The deferred rollback does nothing after the commit.\<close>

definition Management_ApplyLimits :: "'x Management \<Rightarrow> string \<Rightarrow> (string \<times> string) list \<Rightarrow> int \<Rightarrow> ('x pg, unit) io" where
  "Management_ApplyLimits m role wanted_settings limit =
     (if \<not> ValidName role \<or> limit < 1 \<or> limit > 100 then io_throw (EMsg ''invalid role limits'')
      else io_bind (on_server [TxBegin] (Pool_Begin (Management_Pool m))) (\<lambda>_.
        io_bind (io_attempt (io_bind (io_each (set_limit m role wanted_settings) limit_keys) (\<lambda>_. pg_exec m (limit_text m role limit) []))) (\<lambda>r.
        case r of
          Inl e \<Rightarrow> io_bind (io_attempt (on_server [TxRollback] (Pool_Rollback (Management_Pool m)))) (\<lambda>_. io_throw e)
        | Inr _ \<Rightarrow> on_server [TxCommit] (Pool_Commit (Management_Pool m)))))"

text \<open>\<^verbatim>\<open>strings.Cut\<close> at the first equals sign; a later entry of the same key wins.\<close>

definition cut :: "string \<Rightarrow> (string \<times> string) option" where
  "cut s = (case dropWhile (\<lambda>c. c \<noteq> CHR ''='') s of
     [] \<Rightarrow> None
   | _ # value \<Rightarrow> Some (takeWhile (\<lambda>c. c \<noteq> CHR ''='') s, value))"

definition settingsMap :: "string list \<Rightarrow> string \<Rightarrow> string option" where
  "settingsMap config = map_of (rev (List.map_filter cut config))"

definition reset_text :: "'x Management \<Rightarrow> string \<Rightarrow> string \<Rightarrow> string \<Rightarrow> string" where
  "reset_text m role database k = ''ALTER ROLE '' @ Identifier m role @ '' IN DATABASE '' @ Identifier m database @ '' RESET '' @ k"

definition reset_limit :: "'x Management \<Rightarrow> string \<Rightarrow> string \<Rightarrow> string \<Rightarrow> ('x pg, unit) io" where
  "reset_limit m role database k =
     (if map_of (LimitSettings 0 0 (-1) 0) k = None then io_throw (EMsg ''invalid setting'')
      else pg_exec m (reset_text m role database k) [])"

definition Management_ResetDatabaseLimits :: "'x Management \<Rightarrow> string \<Rightarrow> string \<Rightarrow> string list \<Rightarrow> ('x pg, unit) io" where
  "Management_ResetDatabaseLimits m role database keys =
     (if \<not> ValidName role \<or> \<not> ValidName database then io_throw (EMsg ''invalid role identity'')
      else io_each (reset_limit m role database) keys)"

fun state_row :: "cell list \<Rightarrow> (string \<times> RoleState) option" where
  "state_row [VText name, VInt limit, VTexts config, VTexts databaseConfig] =
     Some (name, \<lparr>RS_Settings = settingsMap config, RS_ConnectionLimit = limit, RS_DatabaseSettings = settingsMap databaseConfig\<rparr>)"
| "state_row _ = None"

definition states_query :: string where
  "states_query = ''SELECT r.rolname, r.rolconnlimit, COALESCE(s.setconfig, '' @ literal ''{}'' @ ''), COALESCE(ds.setconfig, '' @ literal ''{}'' @ '')'' @ indent @
     ''FROM pg_roles r'' @ indent @ ''LEFT JOIN pg_db_role_setting s ON s.setrole=r.oid AND s.setdatabase=0'' @ indent @
     ''LEFT JOIN pg_database d ON d.datname=r.rolname'' @ indent @
     ''LEFT JOIN pg_db_role_setting ds ON ds.setrole=r.oid AND ds.setdatabase=d.oid'' @ indent @
     ''WHERE r.rolname ~ '' @ literal ''^app_[a-f0-9]{12}$''"

definition Management_RoleStates :: "'x Management \<Rightarrow> ('x pg, string \<Rightarrow> RoleState option) io" where
  "Management_RoleStates m = io_bind (pg_rows m state_row states_query []) (\<lambda>rows. io_ret (map_of (rev rows)))"

section \<open>Connection pressure\<close>

record RoleUse =
  RoleUse_Role :: string
  RoleUse_Limit :: int
  RoleUse_Connections :: int

record Budget =
  Budget_MaxConnections :: int
  Budget_SuperuserReserved :: int
  Budget_Reserved :: int
  Budget_Available :: int
  Budget_ProjectsUsed :: int
  Budget_ProjectsLimit :: int
  Budget_Roles :: "RoleUse list"
  Budget_System :: "RoleUse list"
  Budget_OtherUsed :: int

fun settings_row :: "cell list \<Rightarrow> (int \<times> int \<times> int) option" where
  "settings_row [VInt a, VInt b, VInt c] = Some (a, b, c)"
| "settings_row _ = None"

fun use_row :: "cell list \<Rightarrow> RoleUse option" where
  "use_row [VText role, VInt limit, VInt n] = Some \<lparr>RoleUse_Role = role, RoleUse_Limit = limit, RoleUse_Connections = n\<rparr>"
| "use_row _ = None"

definition settings_query :: string where
  "settings_query = ''SELECT current_setting('' @ literal ''max_connections'' @ '')::bigint, current_setting('' @
     literal ''superuser_reserved_connections'' @ '')::bigint,'' @ indent @ ''COALESCE(current_setting('' @ literal ''reserved_connections'' @
     '', true), '' @ literal ''0'' @ '')::bigint''"

definition use_query :: string where
  "use_query = ''SELECT r.rolname, r.rolconnlimit, count(a.pid)'' @ indent @
     ''FROM pg_roles r LEFT JOIN pg_stat_activity a ON a.usename=r.rolname AND a.backend_type='' @ literal ''client backend'' @ indent @
     ''WHERE r.rolname ~ '' @ literal ''^app_[a-f0-9]{12}$'' @ '' OR r.rolname IN ('' @ literal ''pgfy_mgmt'' @ '','' @ literal ''pgfy_health'' @ '')'' @ indent @
     ''GROUP BY r.rolname, r.rolconnlimit ORDER BY r.rolname''"

definition other_query :: string where
  "other_query = ''SELECT count(*) FROM pg_stat_activity WHERE backend_type='' @ literal ''client backend'' @ indent @
     ''AND usename !~ '' @ literal ''^app_[a-f0-9]{12}$'' @ '' AND usename NOT IN ('' @ literal ''pgfy_mgmt'' @ '','' @ literal ''pgfy_health'' @ '')''"

definition count_use :: "RoleUse \<Rightarrow> Budget \<Rightarrow> Budget" where
  "count_use u b =
     (if ValidName (RoleUse_Role u) then
        b\<lparr>Budget_Roles := Budget_Roles b @ [u], Budget_ProjectsUsed := Budget_ProjectsUsed b + RoleUse_Connections u,
          Budget_ProjectsLimit := (if RoleUse_Limit u > 0 then Budget_ProjectsLimit b + RoleUse_Limit u else Budget_ProjectsLimit b)\<rparr>
      else b\<lparr>Budget_System := Budget_System b @ [u]\<rparr>)"

definition Management_ConnectionBudget :: "'x Management \<Rightarrow> ('x pg, Budget) io" where
  "Management_ConnectionBudget m =
     io_bind (pg_row m settings_row settings_query []) (\<lambda>(maximum, superuser, reserved).
     io_bind (pg_rows m use_row use_query []) (\<lambda>uses.
     let b = fold count_use uses \<lparr>Budget_MaxConnections = maximum, Budget_SuperuserReserved = superuser, Budget_Reserved = reserved,
       Budget_Available = maximum - superuser - reserved, Budget_ProjectsUsed = 0, Budget_ProjectsLimit = 0, Budget_Roles = [],
       Budget_System = [], Budget_OtherUsed = 0\<rparr> in
     io_bind (pg_row m int_row other_query []) (\<lambda>other. io_ret (b\<lparr>Budget_OtherUsed := other\<rparr>))))"

definition NearLimit :: "int \<Rightarrow> int \<Rightarrow> bool" where
  "NearLimit used limit \<longleftrightarrow> limit > 0 \<and> used * 5 \<ge> limit * 4"

definition Warnings :: "Budget \<Rightarrow> bool \<times> string list" where
  "Warnings b = (NearLimit (Budget_ProjectsUsed b) (Budget_Available b),
     map RoleUse_Role (filter (\<lambda>u. NearLimit (RoleUse_Connections u) (RoleUse_Limit u)) (Budget_Roles b @ Budget_System b)))"

section \<open>Databases\<close>

fun text_row :: "cell list \<Rightarrow> string option" where
  "text_row [VText s] = Some s"
| "text_row _ = None"

definition owner_query :: string where
  "owner_query = ''SELECT pg_get_userbyid(datdba) FROM pg_database WHERE datname=$1''"

definition create_database_text :: "'x Management \<Rightarrow> string \<Rightarrow> string \<Rightarrow> string" where
  "create_database_text m name owner = ''CREATE DATABASE '' @ Identifier m name @ '' OWNER '' @ Identifier m owner"

definition revoke_text :: "'x Management \<Rightarrow> string \<Rightarrow> string" where
  "revoke_text m name = ''REVOKE ALL ON DATABASE '' @ Identifier m name @ '' FROM PUBLIC''"

definition Management_EnsureDatabase :: "'x Management \<Rightarrow> string \<Rightarrow> string \<Rightarrow> ('x pg, unit) io" where
  "Management_EnsureDatabase m name owner =
     (if \<not> ValidName name \<or> \<not> ValidName owner then io_throw (EMsg ''invalid database identity'')
      else io_bind (io_attempt (pg_row m text_row owner_query [name])) (\<lambda>r.
        let revoke = pg_exec m (revoke_text m name) [] in
        case r of
          Inr existing \<Rightarrow> if existing \<noteq> owner then io_throw ErrOwnerMismatch else revoke
        | Inl e \<Rightarrow> if e = pgx_ErrNoRows then io_bind (pg_exec m (create_database_text m name owner) []) (\<lambda>_. revoke)
            else io_throw e))"

definition terminate_query :: string where
  "terminate_query = ''SELECT pg_terminate_backend(pid) FROM pg_stat_activity'' @ indent @
     ''WHERE datname=$1 AND usename=$2 AND backend_type='' @ literal ''client backend'' @ '' AND pid<>pg_backend_pid()''"

definition Management_TerminateSessions :: "'x Management \<Rightarrow> string \<Rightarrow> string \<Rightarrow> ('x pg, unit) io" where
  "Management_TerminateSessions m database role = pg_exec m terminate_query [database, role]"

definition frozen_text :: "'x Management \<Rightarrow> string \<Rightarrow> bool \<Rightarrow> string" where
  "frozen_text m role frozen = ''ALTER ROLE '' @ Identifier m role @
     (if frozen then '' SET default_transaction_read_only = on'' else '' RESET default_transaction_read_only'')"

definition Management_SetWritesFrozen :: "'x Management \<Rightarrow> string \<Rightarrow> string \<Rightarrow> bool \<Rightarrow> ('x pg, unit) io" where
  "Management_SetWritesFrozen m database role frozen =
     (if \<not> ValidName database \<or> \<not> ValidName role then io_throw (EMsg ''invalid project identity'')
      else io_bind (pg_exec m (frozen_text m role frozen) []) (\<lambda>_. Management_TerminateSessions m database role))"

fun ownership_row :: "cell list \<Rightarrow> (bool \<times> bool) option" where
  "ownership_row [VBool a, VBool b] = Some (a, b)"
| "ownership_row _ = None"

definition ownership_query :: string where
  "ownership_query = ''SELECT EXISTS(SELECT 1 FROM pg_roles WHERE rolname=$1 AND pg_has_role(current_user, oid, '' @ literal ''MEMBER'' @ '')),'' @ indent @
     ''EXISTS(SELECT 1 FROM pg_database WHERE datname=$2 AND pg_get_userbyid(datdba)=$1)''"

definition end_query :: string where
  "end_query = ''SELECT pg_terminate_backend(pid) FROM pg_stat_activity'' @ indent @
     ''WHERE usename=$1 AND backend_type='' @ literal ''client backend'' @ '' AND pid<>pg_backend_pid()''"

definition nologin_text :: "'x Management \<Rightarrow> string \<Rightarrow> string" where
  "nologin_text m role = ''ALTER ROLE '' @ Identifier m role @ '' NOLOGIN''"

definition drop_database_text :: "'x Management \<Rightarrow> string \<Rightarrow> string" where
  "drop_database_text m database = ''DROP DATABASE '' @ Identifier m database @ '' WITH (FORCE)''"

definition drop_role_text :: "'x Management \<Rightarrow> string \<Rightarrow> string" where
  "drop_role_text m role = ''DROP ROLE '' @ Identifier m role"

definition wrapped :: "'x Management \<Rightarrow> string \<Rightarrow> ('x pg, unit) io \<Rightarrow> ('x pg, unit) io" where
  "wrapped m what f = io_bind (io_attempt f) (\<lambda>r. case r of
     Inl e \<Rightarrow> io_throw (EMsg (what @ '': '' @ Pool_Error (Management_Pool m) e))
   | Inr _ \<Rightarrow> io_ret ())"

definition Management_DropProject :: "'x Management \<Rightarrow> string \<Rightarrow> string \<Rightarrow> ('x pg, unit) io" where
  "Management_DropProject m database role =
     (if \<not> ValidName database \<or> \<not> ValidName role then io_throw (EMsg ''invalid project identity'')
      else io_bind (pg_row m ownership_row ownership_query [role, database]) (\<lambda>(ours, ownedDatabase).
        io_bind (if ours then wrapped m ''logins could not be disabled'' (pg_exec m (nologin_text m role) []) else io_ret ()) (\<lambda>_.
        io_bind (wrapped m ''sessions could not be ended'' (pg_exec m end_query [role])) (\<lambda>_.
        io_bind (if ownedDatabase then wrapped m ''the database could not be dropped'' (pg_exec m (drop_database_text m database) []) else io_ret ()) (\<lambda>_.
        if ours then wrapped m ''the database user could not be dropped'' (pg_exec m (drop_role_text m role) []) else io_ret ())))))"

section \<open>Sessions, the rule file and reloading\<close>

record Connection =
  Connection_ClientAddr :: string
  Connection_TLS :: bool
  Connection_ApplicationName :: string
  Connection_Since :: gotime

fun connection_row :: "cell list \<Rightarrow> Connection option" where
  "connection_row [VText addr, VBool tls, VText app, VTime since] =
     Some \<lparr>Connection_ClientAddr = addr, Connection_TLS = tls, Connection_ApplicationName = app, Connection_Since = since\<rparr>"
| "connection_row _ = None"

definition connections_query :: string where
  "connections_query = ''SELECT COALESCE(host(a.client_addr), '' @ literal [] @ ''), COALESCE(s.ssl, false), a.application_name, a.backend_start'' @ indent @
     ''FROM pg_stat_activity a LEFT JOIN pg_stat_ssl s ON s.pid=a.pid'' @ indent @
     ''WHERE a.datname=$1 AND a.usename=$2 AND a.backend_type='' @ literal ''client backend'' @ '' ORDER BY a.backend_start''"

definition Management_Connections :: "'x Management \<Rightarrow> string \<Rightarrow> string \<Rightarrow> ('x pg, Connection list) io" where
  "Management_Connections m database role = pg_rows m connection_row connections_query [database, role]"

fun problem_row :: "cell list \<Rightarrow> string option" where
  "problem_row [VText name, VInt line, VText problem] = Some (name @ '' line '' @ decimal line @ '': '' @ problem)"
| "problem_row _ = None"

definition problems_query :: string where
  "problems_query = ''SELECT COALESCE(file_name, '' @ literal [] @ ''), COALESCE(line_number, 0), error FROM pg_hba_file_rules WHERE error IS NOT NULL''"

definition Management_HBAFileErrors :: "'x Management \<Rightarrow> ('x pg, string list) io" where
  "Management_HBAFileErrors m = pg_rows m problem_row problems_query []"

fun time_row :: "cell list \<Rightarrow> gotime option" where
  "time_row [VTime t] = Some t"
| "time_row _ = None"

definition load_time_query :: string where
  "load_time_query = ''SELECT pg_conf_load_time()''"

definition reload_query :: string where
  "reload_query = ''SELECT pg_reload_conf()''"

definition not_confirmed :: err where
  "not_confirmed = EMsg ''PostgreSQL did not confirm the configuration reload''"

text \<open>
  The wait for a newer load time; the pause that makes the reload distinguishable is left out. Every round that goes on has waited a fifth of a second of the ten the
  context allows, so a fifty-first round finds the context ended.
\<close>

fun confirm_reload :: "'x Management \<Rightarrow> gotime \<Rightarrow> nat \<Rightarrow> ('x pg, gotime) io" where
  "confirm_reload m before 0 = io_throw not_confirmed"
| "confirm_reload m before (Suc n) =
     io_bind (pg_row m time_row load_time_query []) (\<lambda>after.
     if after > before then io_ret after
     else io_bind (on_server [] (io_observe (Pool_Ended (Management_Pool m)))) (\<lambda>ended.
       if ended then io_throw not_confirmed else confirm_reload m before n))"

definition Management_Reload :: "'x Management \<Rightarrow> ('x pg, gotime) io" where
  "Management_Reload m =
     io_bind (pg_row m time_row load_time_query []) (\<lambda>before.
     io_bind (pg_exec m reload_query []) (\<lambda>_. confirm_reload m before 51))"

section \<open>As the provisioner and the rule file use it\<close>

definition management_roles :: "'x Management \<Rightarrow> 'x pg Roles" where
  "management_roles m = \<lparr>EnsureRole = Management_EnsureRole m, EnsureDatabase = Management_EnsureDatabase m,
     ApplyLimits = Management_ApplyLimits m, RoleStates = Management_RoleStates m,
     ResetDatabaseLimits = Management_ResetDatabaseLimits m, SetPassword = Management_SetPassword m,
     TerminateSessions = Management_TerminateSessions m, DropProject = Management_DropProject m\<rparr>"

section \<open>Health\<close>

record 'x Health =
  Health_Pool :: "'x Management"
  Health_ID :: string

fun identity_row :: "cell list \<Rightarrow> (string \<times> string) option" where
  "identity_row [VText version, VText found] = Some (version, found)"
| "identity_row _ = None"

definition health_query :: string where
  "health_query = ''SELECT current_setting('' @ literal ''server_version'' @ ''), installation_id FROM pgfy_internal.initialization WHERE singleton=TRUE''"

definition Health_Check :: "'x Health option \<Rightarrow> ('x pg, string) io" where
  "Health_Check health = (case health of
     None \<Rightarrow> io_throw (EMsg ''postgres unavailable'')
   | Some h \<Rightarrow> io_bind (pg_row (Health_Pool h) identity_row health_query []) (\<lambda>(version, found).
       if found \<noteq> Health_ID h then io_throw (EMsg ''postgres installation identity mismatch'')
       else if take 5 version \<noteq> ''18.6 '' \<and> version \<noteq> ''18.6'' then io_throw (EMsg ''unexpected postgres version'')
       else io_ret version))"

end
