(* ===== verification/Alert_Engine.thy ===== *)
theory Alert_Engine
  imports Host_Status Webhook Management Retention
begin

text \<open>
  The alert engine (\<^verbatim>\<open>internal/alerts/alerts.go\<close>): a tick evaluates what is wrong now and which sources were
  looked at, records it in the store and sends what the store says is due. The probes are calls to the
  outside; what the engine remembers between ticks is the record \<open>memory\<close>, passed from one to the next.
\<close>

section \<open>The engine\<close>

definition Every :: duration where "Every = minute"
definition PostgresGrace :: duration where "PostgresGrace = 5 * minute"
definition sendBudget :: duration where "sendBudget = 30 * second"
definition sealContext :: string where "sealContext = ''setting:'' @ AlertWebhookSetting"
definition sourceBackups :: string where "sourceBackups = ''backups''"
definition sourcePostgres :: string where "sourcePostgres = ''postgres''"
definition sourceDisk :: string where "sourceDisk = ''disk''"
definition sourceClock :: string where "sourceClock = ''clock''"
definition sourceHostReport :: string where "sourceHostReport = ''host_report''"
definition sourceConnections :: string where "sourceConnections = ''connections''"
definition sourceBucket :: string where "sourceBucket = ''bucket''"
definition sourceCertificate :: string where "sourceCertificate = ''certificate''"
definition sourceCertSync :: string where "sourceCertSync = ''certificate_sync''"

record Backups =
  Backups_Configured :: bool
  Backups_Target :: string
  Backups_Interval :: duration

text \<open>A missing probe is \<open>None\<close>. The \<open>Backups\<close> probe reads the store, so it is a whole computation.\<close>

record Message =
  Message_Version :: int
  Message_Kind :: string
  Message_Key :: string
  Message_State :: string
  Message_Summary :: string
  Message_Detail :: string
  Message_InstallationID :: string
  Message_Dashboard :: string
  Message_At :: string
  Message_Text :: string

record 'x Engine =
  Engine_InstallationID :: string
  Engine_Dashboard :: string
  Engine_Mode :: string
  Engine_Version :: string
  HostPaths :: Paths
  Files :: "'x HostFiles"
  Postgres_probe :: "('x, string) io option"
  Budget_probe :: "('x, Budget) io option"
  Backups_probe :: "('x, Backups \<times> bool) act option"
  Clock :: "'x \<Rightarrow> gotime \<times> 'x"
  Wall :: "'x \<Rightarrow> gotime \<times> 'x"
  Http :: "'x HTTP"
  Open_setting :: "string \<Rightarrow> string \<Rightarrow> string option"
  Seal_setting :: "string \<Rightarrow> string \<Rightarrow> string"
  Unmarshal_webhook :: "string \<Rightarrow> Webhook \<times> err option"
  Marshal_webhook :: "Webhook \<Rightarrow> string"
  Marshal_message :: "Message \<Rightarrow> string"
  Text_of :: "err \<Rightarrow> string"

record memory =
  failingSince :: "gotime option"
  in_maintenance :: bool
  lastOK :: int
  lastError :: string

type_synonym sources = "string \<Rightarrow> bool"

definition nothing_checked :: sources where
  "nothing_checked = (\<lambda>_. False)"

definition condition :: "string \<Rightarrow> string \<Rightarrow> string \<Rightarrow> string \<Rightarrow> string \<Rightarrow> AlertCondition" where
  "condition kind k source summary detail = \<lparr>AlertCondition_Key = k, AlertCondition_Kind = kind, AlertCondition_Source = source,
     AlertCondition_Summary = summary, AlertCondition_Detail = detail, AlertCondition_Active = False,
     AlertCondition_FirstSeenAt = 0, AlertCondition_LastFiredAt = 0, AlertCondition_SentState = ''''\<rparr>"

section \<open>PostgreSQL\<close>

text \<open>The first failed check starts the clock; an answer stops it.\<close>

definition note_postgres :: "gotime \<Rightarrow> err + string \<Rightarrow> gotime option \<Rightarrow> gotime option" where
  "note_postgres t r failing = (case r of
     Inr _ \<Rightarrow> None
   | Inl _ \<Rightarrow> (case failing of None \<Rightarrow> Some t | Some since \<Rightarrow> Some since))"

definition unreachable_now :: "gotime \<Rightarrow> gotime option \<Rightarrow> gotime option" where
  "unreachable_now t failing = (case failing of
     None \<Rightarrow> None
   | Some since \<Rightarrow> if t - since \<ge> PostgresGrace then Some since else None)"

definition postgres_condition :: "gotime \<Rightarrow> AlertCondition" where
  "postgres_condition since = condition ''postgres_unreachable'' ''postgres_unreachable'' sourcePostgres
     ''PostgreSQL has been unreachable for more than five minutes''
     (''Since '' @ format_rfc3339 since @ ''. Applications cannot connect. Run pgfyctl diagnostics on the server.'')"

definition evaluate_postgres :: "'x Engine \<Rightarrow> gotime \<Rightarrow> memory \<Rightarrow> ('x, memory \<times> AlertCondition list \<times> sources) act" where
  "evaluate_postgres e t mem = (case Postgres_probe e of
     None \<Rightarrow> ret (mem, [], nothing_checked)
   | Some probe \<Rightarrow>
       bind_tx (attempt (call_out unlogged probe)) (\<lambda>r.
       let failing = note_postgres t r (failingSince mem);
           checked = (case r of Inr _ \<Rightarrow> nothing_checked(sourcePostgres := True) | Inl _ \<Rightarrow> nothing_checked) in
       ret (mem\<lparr>failingSince := failing\<rparr>, (case unreachable_now t failing of
           None \<Rightarrow> ([], checked)
         | Some since \<Rightarrow> ([postgres_condition since], checked(sourcePostgres := True))))))"

definition budget_conditions :: "Budget \<Rightarrow> AlertCondition list" where
  "budget_conditions b = (case Warnings b of (global, roles) \<Rightarrow>
     (if global then [condition ''connections'' ''connections_global'' sourceConnections
        ''Project connections are at 80% of what PostgreSQL accepts''
        (decimal (Budget_ProjectsUsed b) @ '' of '' @ decimal (Budget_Available b) @ '' open.'')] else []) @
     map (\<lambda>role. condition ''connections'' (''connections_role:'' @ role) sourceConnections
        ''A database is at 80% of its connection limit'' (''Role '' @ role @ ''.'')) roles)"

definition evaluate_budget :: "'x Engine \<Rightarrow> AlertCondition list \<Rightarrow> sources \<Rightarrow> ('x, AlertCondition list \<times> sources) act" where
  "evaluate_budget e active checked = (case Budget_probe e of
     None \<Rightarrow> ret (active, checked(sourceConnections := True))
   | Some probe \<Rightarrow>
       if checked sourcePostgres \<and> active = [] then
         bind_tx (attempt (call_out unlogged probe)) (\<lambda>r. ret (case r of
           Inl _ \<Rightarrow> (active, checked)
         | Inr b \<Rightarrow> (active @ budget_conditions b, checked(sourceConnections := True))))
       else ret (active, checked))"
section \<open>The host\<close>

text \<open>\<^verbatim>\<open>%.0f\<close>: rounded half to even; what is rounded up to nought keeps its sign.\<close>

definition rounded :: "share \<Rightarrow> int" where
  "rounded s = (let q = fst s div snd s; r = fst s mod snd s in
     if 2 * r < snd s \<or> (2 * r = snd s \<and> even q) then q else q + 1)"

definition share_text :: "share \<Rightarrow> string" where
  "share_text s = (if fst s < 0 \<and> rounded s = 0 then ''-0'' else decimal (rounded s))"

definition disk_condition :: "string list \<Rightarrow> share \<Rightarrow> AlertCondition" where
  "disk_condition names free = condition ''disk_low'' (''disk_low:'' @ join ''+'' names) sourceDisk ''Free disk space is under 15%''
     (join '', '' names @ '': '' @ share_text free @ ''% free.'')"

definition diskConditions :: "Disk list \<Rightarrow> AlertCondition list" where
  "diskConditions disks =
     (let low = filter Disk_Low disks;
          single = map (\<lambda>d. disk_condition [Disk_Name d] (Disk_FreePercent d)) (filter (\<lambda>d. Disk_Device d = 0) low);
          group = (\<lambda>device. filter (\<lambda>d. Disk_Device d = device) low);
          grouped = map (\<lambda>device. disk_condition (sort (map Disk_Name (group device))) (Disk_FreePercent (hd (group device))))
            (remdups (filter (\<lambda>n. n \<noteq> 0) (map Disk_Device low)))
      in sort_key AlertCondition_Key (single @ grouped))"

definition disks_measured :: "Disk list \<Rightarrow> bool" where
  "disks_measured disks \<longleftrightarrow> disks \<noteq> [] \<and> list_all (\<lambda>d. Disk_Error d = '''' \<and> Disk_TotalBytes d > 0) disks"

definition evaluate_host :: "Status \<Rightarrow> AlertCondition list \<Rightarrow> sources \<Rightarrow> AlertCondition list \<times> sources" where
  "evaluate_host host active checked =
     (let checked = checked(sourceHostReport := True) in
      if Status_State host \<noteq> ''ok'' then
        (active @ [condition ''host_report_stale'' ''host_report_stale'' sourceHostReport ''The host has stopped reporting disk and clock status''
           ''Disk and clock alerts cannot fire until it reports again. Check systemctl status pgfy-host-status.timer.''], checked)
      else
        let checked = checked(sourceDisk := disks_measured (Status_Disks host));
            active = active @ diskConditions (Status_Disks host) in
        (case Status_NTPSynchronized host of
           None \<Rightarrow> (active, checked)
         | Some synchronized \<Rightarrow>
             (if synchronized then active
              else active @ [condition ''ntp_unsynchronised'' ''ntp_unsynchronised'' sourceClock ''The host clock is not synchronised''
                ''Sign-in codes and certificate checks depend on the time. Check systemd-timesyncd.''],
              checked(sourceClock := True))))"

definition evaluate_certificate :: "string \<Rightarrow> Certificate \<Rightarrow> AlertCondition list \<Rightarrow> sources \<Rightarrow> AlertCondition list \<times> sources" where
  "evaluate_certificate mode c active checked =
     (if mode \<noteq> ''https'' then (active, checked(sourceCertificate := True, sourceCertSync := True))
      else
        (active @
         (case Certificate_ExpiresAt c of
            Some at \<Rightarrow> if Certificate_Expiring c then
              [condition ''certificate_expiring'' ''certificate_expiring'' sourceCertificate
                (if Certificate_Expired c then ''The database and dashboard certificate has expired''
                 else ''The database and dashboard certificate expires within 14 days'')
                (''Expires '' @ format_rfc3339 (from_unix at) @ ''. Check that ports 80/443 reach Caddy, then run pgfyctl sync-db-cert.'')] else []
          | None \<Rightarrow> []) @
         (case Certificate_LastSync c of
            Some sync \<Rightarrow> if CertSync_OK sync then []
              else [condition ''certificate_sync_failed'' ''certificate_sync_failed'' sourceCertSync ''Delivering the certificate to PostgreSQL failed''
                (CertSync_Message sync)]
          | None \<Rightarrow> []),
         checked(sourceCertificate := (Certificate_State c \<noteq> ''unknown'' \<and>
             (Certificate_State c \<noteq> ''trusted'' \<or> Certificate_ExpiresAt c \<noteq> None)),
           sourceCertSync := (Certificate_LastSync c \<noteq> None))))"

section \<open>Backups\<close>

definition failing_backup :: "string \<Rightarrow> schedule_row \<Rightarrow> AlertCondition" where
  "failing_backup name f = condition ''backup_failed'' (''backup_failed:'' @ sch_project_id f) sourceBackups
     (''Backups of '' @ name @ '' are failing'')
     (decimal (sch_failures f) @ '' attempts in a row have failed; the next is retried automatically. See the database's Backups tab.'')"

definition late_backup :: "Project \<Rightarrow> AlertCondition" where
  "late_backup p = condition ''backup_stale'' (''backup_stale:'' @ Project_ID p) sourceBackups
     (''The newest recoverable backup of '' @ Project_Name p @ '' is older than its target'')
     ''Older than 1.5 times the backup target interval. See the database's Backups tab.''"

definition incomplete_prefix :: "PrefixState \<Rightarrow> AlertCondition" where
  "incomplete_prefix p = condition ''manifest_only'' (''manifest_only:'' @ PS_DBName p) sourceBucket
     ''The bucket holds backups whose archive is missing''
     (decimal (PS_ManifestOnly p) @ '' manifest(s) for '' @ PS_DBName p @
       '' without an archive; they are never offered for restore and never deleted automatically.'')"

definition name_of :: "Project list \<Rightarrow> string \<Rightarrow> string" where
  "name_of ps pid = (case map_of (rev (map (\<lambda>p. (Project_ID p, Project_Name p)) ps)) pid of None \<Rightarrow> '''' | Some name \<Rightarrow> name)"

definition backupConditions :: "'x Engine \<Rightarrow> Backups \<Rightarrow> gotime \<Rightarrow> sources \<Rightarrow> ('x, AlertCondition list \<times> sources) act" where
  "backupConditions e b t checked =
     bind_tx (attempt (on_db Projects)) (\<lambda>r. case r of
       Inl _ \<Rightarrow> ret ([], checked)
     | Inr ps \<Rightarrow>
         bind_tx (attempt (on_db BackupFailures)) (\<lambda>failures.
         bind_tx (attempt (on_db (LateProjects (Backups_Target b) (Engine_InstallationID e) (Backups_Interval b) t))) (\<lambda>late.
         bind_tx (attempt (on_db (PrefixStates (Backups_Target b)))) (\<lambda>prefixes.
         let (out, checked) = (case (failures, late) of
               (Inr fs, Inr ls) \<Rightarrow>
                 (map (\<lambda>f. failing_backup (name_of ps (sch_project_id f)) f)
                    (filter (\<lambda>f. sch_failures f \<ge> 2 \<and> name_of ps (sch_project_id f) \<noteq> '''') fs) @ map late_backup ls,
                  checked(sourceBackups := True))
             | _ \<Rightarrow> ([], checked));
             (out, checked) = (case prefixes of
               Inr pfs \<Rightarrow> (out @ map incomplete_prefix (filter (\<lambda>p. PS_ManifestOnly p > 0) pfs), checked(sourceBucket := True))
             | Inl _ \<Rightarrow> (out, checked)) in
         ret (sort_key AlertCondition_Key out, checked)))))"

definition evaluate_backups :: "'x Engine \<Rightarrow> gotime \<Rightarrow> AlertCondition list \<Rightarrow> sources \<Rightarrow> ('x, AlertCondition list \<times> sources) act" where
  "evaluate_backups e t active checked = (case Backups_probe e of
     None \<Rightarrow> ret (active, checked(sourceBackups := True, sourceBucket := True))
   | Some probe \<Rightarrow>
       bind_tx probe (\<lambda>(b, ok).
       if \<not> ok then ret (active, checked)
       else if \<not> Backups_Configured b then ret (active, checked(sourceBackups := True, sourceBucket := True))
       else bind_tx (backupConditions e b t checked) (\<lambda>(out, checked). ret (active @ out, checked))))"

text \<open>The probe the process installs: the storage settings and what is known of the store they name.\<close>

definition no_backups :: Backups where
  "no_backups = \<lparr>Backups_Configured = False, Backups_Target = '''', Backups_Interval = 0\<rparr>"

definition storage_probe :: "'x Worker \<Rightarrow> ('x, Backups \<times> bool) act" where
  "storage_probe w =
     bind_tx (attempt (StorageSettings w)) (\<lambda>r. case r of
       Inl e \<Rightarrow> ret (no_backups, e = ErrStorageNotConfigured)
     | Inr st \<Rightarrow>
         bind_tx (attempt (on_db (get_StorageTarget (Target st)))) (\<lambda>state.
         bind_tx (attempt (on_db get_BackupPolicy)) (\<lambda>policy. ret (case (state, policy) of
           (Inr s, Inr p) \<Rightarrow> if StorageTarget_ReconciledAt s = 0 then (no_backups, False)
             else (\<lparr>Backups_Configured = True, Backups_Target = Target st, Backups_Interval = Interval p\<rparr>, True)
         | _ \<Rightarrow> (no_backups, False)))))"

section \<open>Evaluation\<close>

definition Evaluate :: "'x Engine \<Rightarrow> gotime \<Rightarrow> memory \<Rightarrow> ('x, memory \<times> AlertCondition list \<times> sources) act" where
  "Evaluate e t mem =
     bind_tx (evaluate_postgres e t mem) (\<lambda>(mem, active, checked).
     bind_tx (evaluate_budget e active checked) (\<lambda>(active, checked).
     bind_tx (Read (Files e) (HostPaths e) (Engine_Mode e) t) (\<lambda>host.
     let (active, checked) = evaluate_host host active checked;
         (active, checked) = evaluate_certificate (Engine_Mode e) (Status_Certificate host) active checked in
     bind_tx (evaluate_backups e t active checked) (\<lambda>(active, checked).
     ret (mem, active, checked)))))"

section \<open>Sending\<close>

definition dash :: string where
  "dash = '' '' @ [CHR 0xE2, CHR 0x80, CHR 0x94] @ '' ''"

definition message_text :: "Outgoing \<Rightarrow> string" where
  "message_text out =
     (let prefix = (if Outgoing_State out = ''firing'' then ''Alert'' else if Outgoing_State out = ''resolved'' then ''Resolved''
        else if Outgoing_State out = ''event'' then ''Notice'' else '''') in
      ''[Pgfy] '' @ prefix @ '': '' @ Outgoing_Summary out @
      (if Outgoing_Detail out \<noteq> '''' \<and> Outgoing_State out \<noteq> ''resolved'' then dash @ Outgoing_Detail out else ''''))"

definition message :: "'x Engine \<Rightarrow> Outgoing \<Rightarrow> gotime \<Rightarrow> string" where
  "message e out t = Marshal_message e \<lparr>Message_Version = 1, Message_Kind = Outgoing_Kind out, Message_Key = Outgoing_Key out,
     Message_State = Outgoing_State out, Message_Summary = Outgoing_Summary out, Message_Detail = Outgoing_Detail out,
     Message_InstallationID = Engine_InstallationID e, Message_Dashboard = Engine_Dashboard e, Message_At = format_rfc3339 t,
     Message_Text = message_text out\<rparr>"

definition no_webhook :: Webhook where
  "no_webhook = \<lparr>Webhook_URL = '''', Webhook_Secret = '''', Webhook_PrivateEndpoint = False\<rparr>"

definition get_Webhook :: "'x Engine \<Rightarrow> ('x, Webhook \<times> bool \<times> err option) act" where
  "get_Webhook e =
     bind_tx (attempt (on_db (Setting AlertWebhookSetting))) (\<lambda>r. ret (case r of
       Inl failure \<Rightarrow> (no_webhook, False, Some failure)
     | Inr sealed \<Rightarrow>
         if sealed = '''' then (no_webhook, False, None)
         else case Open_setting e sealContext sealed of
           None \<Rightarrow> (no_webhook, False, Some (EMsg ''the stored webhook cannot be decrypted with this installation key''))
         | Some opened \<Rightarrow> (case Unmarshal_webhook e opened of (w, failure) \<Rightarrow>
             if failure \<noteq> None \<or> Webhook_URL w = '''' then (w, False, failure) else (w, True, None))))"

definition SaveWebhook :: "'x Engine \<Rightarrow> Webhook \<Rightarrow> ('x, unit) act" where
  "SaveWebhook e w =
     bind_tx (get_Webhook e) (\<lambda>(previous, _, _).
     bind_tx (observe (Clock e)) (\<lambda>t.
     on_db (SetAlertWebhook (Seal_setting e sealContext (Marshal_webhook e w)) (Webhook_URL previous \<noteq> Webhook_URL w) t)))"

definition record_delivery :: "string option \<Rightarrow> gotime \<Rightarrow> memory \<Rightarrow> memory" where
  "record_delivery failure t mem = (case failure of
     None \<Rightarrow> mem\<lparr>lastOK := unix t, lastError := ''''\<rparr>
   | Some text \<Rightarrow> mem\<lparr>lastError := text\<rparr>)"

text \<open>An answer that says this message is refused although the receiver is up.\<close>

definition refused_only :: "deliver_error \<Rightarrow> bool" where
  "refused_only failure = (case failure of Rejected status \<Rightarrow> status \<noteq> 429 \<and> status < 500 | Undelivered _ \<Rightarrow> False)"

fun send_each :: "'x Engine \<Rightarrow> Webhook \<Rightarrow> gotime \<Rightarrow> gotime \<Rightarrow> Outgoing list \<Rightarrow> memory \<Rightarrow> ('x, memory) act" where
  "send_each e w t deadline [] mem = ret mem"
| "send_each e w t deadline (out # rest) mem =
     bind_tx (observe (Wall e)) (\<lambda>n.
     if n > deadline then ret mem
     else bind_tx (Deliver (Http e) w (message e out t) (Engine_Version e) t) (\<lambda>r. case r of
       Inl failure \<Rightarrow>
         then_tx (on_db (AlertAttemptFailed out))
         (let mem = record_delivery (Some (deliver_text failure)) t mem in
          if refused_only failure then send_each e w t deadline rest mem else ret mem)
     | Inr _ \<Rightarrow>
         then_tx (ignoring (on_db (MarkAlertSent out t)))
         (send_each e w t deadline rest (record_delivery None t mem))))"

definition send :: "'x Engine \<Rightarrow> gotime \<Rightarrow> memory \<Rightarrow> ('x, memory) act" where
  "send e t mem =
     bind_tx (get_Webhook e) (\<lambda>(w, ok, failure). case failure of
       Some f \<Rightarrow> ret (record_delivery (Some (Text_of e f)) t mem)
     | None \<Rightarrow>
         if \<not> ok then ret mem
         else bind_tx (attempt (on_db (AlertsToSend t))) (\<lambda>r. case r of
           Inl _ \<Rightarrow> ret mem
         | Inr pending \<Rightarrow>
             if pending = [] then ret mem
             else bind_tx (observe (Wall e)) (\<lambda>n. send_each e w t (n + sendBudget) pending mem)))"

definition Delivery :: "memory \<Rightarrow> int \<times> string" where
  "Delivery mem = (lastOK mem, lastError mem)"

definition test_message :: Outgoing where
  "test_message = \<lparr>Outgoing_Key = ''test'', Outgoing_Kind = ''test'', Outgoing_State = ''event'', Outgoing_Summary = ''Test alert from Pgfy'',
     Outgoing_Detail = ''Alerts from this installation will arrive here.'', Outgoing_EventID = 0, Outgoing_At = 0\<rparr>"

definition SendTest :: "'x Engine \<Rightarrow> memory \<Rightarrow> ('x, memory \<times> string option) act" where
  "SendTest e mem =
     bind_tx (get_Webhook e) (\<lambda>(w, ok, failure). case failure of
       Some f \<Rightarrow> ret (mem, Some (Text_of e f))
     | None \<Rightarrow>
         if \<not> ok then ret (mem, Some ''no webhook is configured'')
         else bind_tx (observe (Clock e)) (\<lambda>t.
           bind_tx (Deliver (Http e) w (message e test_message t) (Engine_Version e) t) (\<lambda>r.
           let failure = (case r of Inl f \<Rightarrow> Some (deliver_text f) | Inr _ \<Rightarrow> None) in
           ret (record_delivery failure t mem, failure))))"

section \<open>Ticks\<close>

definition Tick :: "'x Engine \<Rightarrow> memory \<Rightarrow> ('x, memory) act" where
  "Tick e mem =
     bind_tx (attempt (on_db Maintenance)) (\<lambda>r. case r of
       Inl _ \<Rightarrow> ret mem
     | Inr on \<Rightarrow>
         if on then ret (mem\<lparr>in_maintenance := True\<rparr>)
         else let mem = (if in_maintenance mem then mem\<lparr>in_maintenance := False, failingSince := None\<rparr> else mem) in
           bind_tx (observe (Clock e)) (\<lambda>t.
           bind_tx (Evaluate e t mem) (\<lambda>(mem, active, checked).
           bind_tx (attempt (on_db (ReconcileAlerts active checked t))) (\<lambda>r. case r of
             Inl _ \<Rightarrow> ret mem
           | Inr _ \<Rightarrow> send e t mem))))"

text \<open>The loop, followed for a number of ticks; it ends with the context.\<close>

fun Run_alerts :: "'x Engine \<Rightarrow> nat \<Rightarrow> memory \<Rightarrow> ('x, memory) act" where
  "Run_alerts e 0 mem = ret mem"
| "Run_alerts e (Suc n) mem = bind_tx (Tick e mem) (Run_alerts e n)"

end
