(* ===== verification/Alert_Safety.thy ===== *)
theory Alert_Safety
  imports Alert_Engine Worker_Safety
begin

text \<open>
  What the alerter does over any number of ticks. The locale \<open>alert_contract\<close> is what a statement about the
  database and the log has to meet to hold after every tick; it is met by \<open>told_once\<close> (a condition is announced
  once a day) and by \<open>told_truly\<close> (what is recorded as told was accepted). Further: a receiver that is down is
  asked once a tick, an update is quiet, and when PostgreSQL counts as unreachable. The last section evaluates
  a trial engine.
\<close>

section \<open>What an evaluation leaves alone\<close>

definition installed_probe :: "'x Engine \<Rightarrow> bool" where
  "installed_probe e \<longleftrightarrow> Backups_probe e = None \<or> (\<exists>w. Backups_probe e = Some (storage_probe w))"

definition joint :: "(db \<Rightarrow> call list \<Rightarrow> bool) \<Rightarrow> 'x world \<Rightarrow> bool" where
  "joint P w = P (wdb w) (calls w)"

lemma keeps_joint:
  assumes "\<And>D J. keeps (both D J) m"
  shows "keeps (joint P) m"
  unfolding keeps_def joint_def
proof (intro allI impI)
  fix s :: "'a world \<times> bool list" assume "P (wdb (fst s)) (calls (fst s))"
  then show "P (wdb (leaves m s)) (calls (leaves m s))"
    using keepsD [OF assms [of "\<lambda>d. d = wdb (fst s)" "\<lambda>cs. cs = calls (fst s)"], of s] by (simp add: both_def)
qed

lemma joint_after:
  "keeps (joint P) m \<Longrightarrow> P (wdb w) (calls w) \<Longrightarrow> m (w, fs) = (r, (w', fs')) \<Longrightarrow> P (wdb w') (calls w')"
  using keepsD_eq [of "joint P" m "(w, fs)" r "(w', fs')"] by (simp add: joint_def)

lemma keeps_joint_db: "(\<And>cs. keeps (\<lambda>d. P d cs) m) \<Longrightarrow> keeps (joint P) (on_db m)"
  unfolding keeps_def joint_def by (auto simp: on_db_eq leaves_def)

lemma keeps_read_file [tx_keeps]: "keeps (both D J) (read_file h path)"
  unfolding read_file_def by (intro tx_keeps)

lemma keeps_storage_probe [tx_keeps]: "keeps (both D J) (storage_probe w)"
  unfolding storage_probe_def StorageSettings_def by (intro tx_keeps reads_kept)

lemma keeps_backupConditions [tx_keeps]: "keeps (both D J) (backupConditions e b t checked)"
  unfolding backupConditions_def Projects_def BackupFailures_def LateProjects_def NewestRecoverable_def PrefixStates_def Let_def case_prod_beta
  by (intro tx_keeps)

lemma keeps_evaluate_backups [tx_keeps]: 
  assumes "installed_probe e"
  shows "keeps (both D J) (evaluate_backups e t active checked)"
  using assms unfolding installed_probe_def evaluate_backups_def case_prod_beta
  by (elim disjE exE; simp only: option.case) (intro tx_keeps)+

lemma keeps_Evaluate: "installed_probe e \<Longrightarrow> keeps (both D J) (Evaluate e t mem)"
  unfolding Evaluate_def evaluate_postgres_def evaluate_budget_def Read_def certificate_def Let_def case_prod_beta
  by (intro tx_keeps)

lemma keeps_get_Webhook: "keeps (both D J) (get_Webhook e)"
  unfolding get_Webhook_def by (intro tx_keeps reads_kept)

lemma triple_observe_value:
  assumes "\<And>w a x. P w \<Longrightarrow> f (outside w) = (a, x) \<Longrightarrow> Q a (w\<lparr>outside := x\<rparr>)"
  shows "triple P (observe f) Q E"
  unfolding observe_def
  by (rule triple_call) (auto simp: unlogged_def split: prod.splits intro: assms)

lemma keeps_observe_joint: "keeps (joint P) (observe f)"
  by (intro keeps_joint tx_keeps)

section \<open>The contract of a tick\<close>

definition acknowledged :: "'x Engine \<Rightarrow> Outgoing \<Rightarrow> gotime \<Rightarrow> call list \<Rightarrow> bool" where
  "acknowledged e out t cs \<longleftrightarrow> (\<exists>url status. Posted url (message e out t) (Some status) \<in> set cs \<and> 200 \<le> status \<and> status \<le> 299)"

lemma triple_Deliver:
  assumes "\<And>d cs url status. P d cs \<Longrightarrow> P d (Posted url (message e out t) status # cs)"
  shows "triple (joint P) (Deliver http w (message e out t) version t)
    (\<lambda>r. joint (\<lambda>d cs. P d cs \<and> (r = Inr () \<longrightarrow> acknowledged e out t cs))) (\<lambda>_. False)"
proof -
  let ?R = "\<lambda>r x. joint P x \<and> (\<forall>status. r = Inr status \<and> 200 \<le> status \<and> status \<le> 299 \<longrightarrow> acknowledged e out t (calls x))"
  have "triple (joint P) (call_out (\<lambda>r _. case r of Inr (Inr status) \<Rightarrow> [Posted (Webhook_URL w) (message e out t) (Some status)]
        | _ \<Rightarrow> [Posted (Webhook_URL w) (message e out t) None])
      (\<lambda>x. case Do http (Control (Webhook_PrivateEndpoint w)) (webhook_request w (message e out t) version t) x of (r, x') \<Rightarrow> (Inr r, x')))
    ?R (\<lambda>_. False)"
    by (rule triple_call) (auto simp: joint_def acknowledged_def intro: assms split: sum.splits prod.splits)
  then show ?thesis
    unfolding Deliver_def
    by (auto intro!: triple_ifI triple_bind [of _ _ ?R] triple_ret simp: joint_def not_less split: sum.split)
qed

locale alert_contract =
  fixes e :: "'x Engine" and P :: "db \<Rightarrow> call list \<Rightarrow> bool"
    and S :: "gotime \<Rightarrow> Outgoing \<Rightarrow> bool" and C :: "gotime \<Rightarrow> bool"
  assumes reconciled: "C t \<Longrightarrow> keeps (\<lambda>d. P d cs) (ReconcileAlerts active checked t)"
    and to_send: "C t \<Longrightarrow> P d cs \<Longrightarrow> AlertsToSend t (d, fs) = (Inr outs, s) \<Longrightarrow> list_all (S t) outs"
    and posted: "C t \<Longrightarrow> S t out \<Longrightarrow> P d cs \<Longrightarrow> P d (Posted url (message e out t) status # cs)"
    and failed: "keeps (\<lambda>d. P d cs) (AlertAttemptFailed out)"
    and sent: "C t \<Longrightarrow> S t out \<Longrightarrow> acknowledged e out t cs \<Longrightarrow> keeps (\<lambda>d. P d cs) (MarkAlertSent out t)"
begin

lemma send_each_keeps: "C t \<Longrightarrow> list_all (S t) outs \<Longrightarrow> keeps (joint P) (send_each e w t deadline outs mem)"
proof (induction outs arbitrary: mem)
  case (Cons out rest)
  let ?M = "\<lambda>r mem'. case r of
       Inl failure \<Rightarrow> then_tx (on_db (AlertAttemptFailed out))
         (if refused_only failure then send_each e w t deadline rest (record_delivery (Some (deliver_text failure)) t mem)
          else ret (record_delivery (Some (deliver_text failure)) t mem))
     | Inr _ \<Rightarrow> then_tx (ignoring (on_db (MarkAlertSent out t))) (send_each e w t deadline rest (record_delivery None t mem))"
  have S: "S t out" "C t" and rest: "keeps (joint P) (send_each e w t deadline rest mem')" for mem'
    using Cons by simp_all
  have after: "triple (joint (\<lambda>d cs. P d cs \<and> (r = Inr () \<longrightarrow> acknowledged e out t cs))) (?M r mem') (\<lambda>_. joint P) (joint P)"
    for r :: "deliver_error + unit" and mem'
  proof (cases r)
    case (Inl failure)
    have "keeps (joint P) (?M r mem')"
      unfolding Inl by (simp, intro conjI impI tx_keeps keeps_joint_db failed rest)
    then show ?thesis unfolding triple_keeps by (rule triple_pre) (simp add: joint_def)
  next
    case (Inr u)
    have "keeps (\<lambda>d. P d cs \<and> acknowledged e out t cs) (MarkAlertSent out t)" for cs
    proof (cases "acknowledged e out t cs")
      case True
      then show ?thesis using sent [OF S(2,1) True] by simp
    qed (simp add: keeps_def)
    then have mark: "keeps (joint (\<lambda>d cs. P d cs \<and> acknowledged e out t cs)) (ignoring (on_db (MarkAlertSent out t)))"
      by (intro tx_keeps keeps_joint_db)
    show ?thesis
      unfolding Inr sum.case
    proof (rule triple_then [of _ _ "\<lambda>_. joint P"])
      show "triple (joint (\<lambda>d cs. P d cs \<and> (Inr u = Inr () \<longrightarrow> acknowledged e out t cs))) (ignoring (on_db (MarkAlertSent out t))) (\<lambda>_. joint P) (joint P)"
        using mark unfolding triple_keeps by (rule triple_conseq) (simp_all add: joint_def)
    qed (use rest in \<open>simp add: triple_keeps\<close>)
  qed
  have deliver: "triple (joint P) (Deliver (Http e) w (message e out t) (Engine_Version e) t)
      (\<lambda>r. joint (\<lambda>d cs. P d cs \<and> (r = Inr () \<longrightarrow> acknowledged e out t cs))) (joint P)"
    using triple_Deliver [of P e out t] posted [OF S(2,1)] by (blast intro: triple_error)
  show ?case
    unfolding send_each.simps Let_def
    by (rule keeps_bind [OF keeps_observe_joint], rule keeps_if [OF keeps_ret])
      (unfold triple_keeps, rule triple_bind [OF deliver after])
qed (simp add: keeps_ret)

lemma send_keeps:
  assumes "C t"
  shows "keeps (joint P) (send e t mem)"
proof -
  have list: "triple (joint P) (on_db (AlertsToSend t)) (\<lambda>outs w. joint P w \<and> list_all (S t) outs) (joint P)"
  proof (rule triple_on_db)
    fix w :: "'a world" and fs x d fs' assume w: "joint P w" and r: "AlertsToSend t (wdb w, fs) = (Inr x, d, fs')"
    have "d = wdb w" using r by (auto simp: AlertsToSend_def tx_simps)
    then show "joint P (w\<lparr>wdb := d\<rparr>) \<and> list_all (S t) x" using w to_send [OF assms _ r] by (simp add: joint_def)
  next
    fix w :: "'a world" and fs x d fs' assume "joint P w" "AlertsToSend t (wdb w, fs) = (Inl x, d, fs')"
    moreover have "keeps (\<lambda>d. P d cs) (AlertsToSend t)" for cs unfolding AlertsToSend_def by (intro tx_keeps)
    ultimately show "joint P (w\<lparr>wdb := d\<rparr>)" using keepsD_eq [of _ "AlertsToSend t"] by (fastforce simp: joint_def)
  qed
  have each: "triple (\<lambda>x. joint P x \<and> list_all (S t) outs) (bind_tx (observe (Wall e)) (\<lambda>n. send_each e w t (n + sendBudget) outs mem)) (\<lambda>_. joint P) (joint P)" for outs w
  proof (cases "list_all (S t) outs")
    case True
    then have "keeps (joint P) (bind_tx (observe (Wall e)) (\<lambda>n. send_each e w t (n + sendBudget) outs mem))"
      by (intro keeps_bind keeps_observe_joint send_each_keeps assms)
    then show ?thesis unfolding triple_keeps by (rule triple_pre) simp
  qed (simp add: triple_def)
  let ?L = "\<lambda>r x. joint P x \<and> (\<forall>outs. r = Inr outs \<longrightarrow> list_all (S t) outs)"
  have "triple (joint P) (attempt (on_db (AlertsToSend t))) ?L (joint P)"
    by (rule triple_attempt, rule triple_conseq [OF list]) auto
  then have pass: "triple (joint P) (bind_tx (attempt (on_db (AlertsToSend t))) (\<lambda>r. case r of
       Inl _ \<Rightarrow> ret mem
     | Inr pending \<Rightarrow> if pending = [] then ret mem
         else bind_tx (observe (Wall e)) (\<lambda>n. send_each e w t (n + sendBudget) pending mem))) (\<lambda>_. joint P) (joint P)" for w
  proof (rule triple_bind)
    fix r :: "err + Outgoing list"
    show "triple (?L r) (case r of Inl _ \<Rightarrow> ret mem | Inr pending \<Rightarrow> if pending = [] then ret mem
        else bind_tx (observe (Wall e)) (\<lambda>n. send_each e w t (n + sendBudget) pending mem)) (\<lambda>_. joint P) (joint P)"
      using each by (cases r) (auto intro!: triple_ret)
  qed
  show ?thesis
    unfolding send_def case_prod_beta
    by (rule keeps_bind [OF keeps_joint [OF keeps_get_Webhook]], rule keeps_option, rule keeps_if [OF keeps_ret])
      (simp_all add: triple_keeps pass triple_ret)
qed

lemma Tick_keeps:
  assumes "installed_probe e" "\<And>x. C (fst (Clock e x))"
  shows "keeps (joint P) (Tick e mem)"
proof -
  have clock: "triple (joint P) (observe (Clock e)) (\<lambda>t w. joint P w \<and> C t) (joint P)"
    by (rule triple_observe_value) (metis assms(2) fst_conv joint_def world.select_convs(1,3) world.surjective world.update_convs(2))
  have evaluated: "keeps (joint P) (bind_tx (Evaluate e t mem) (\<lambda>p. bind_tx (attempt (on_db (ReconcileAlerts (fst (snd p)) (snd (snd p)) t)))
      (\<lambda>r. case r of Inl _ \<Rightarrow> ret (fst p) | Inr _ \<Rightarrow> send e t (fst p))))" if "C t" for t mem
    using that
    by (intro keeps_bind keeps_attempt keeps_result keeps_ret keeps_joint_db reconciled send_keeps)
      (simp_all add: keeps_joint keeps_Evaluate assms(1))
  have timed: "keeps (joint P) (bind_tx (observe (Clock e)) (\<lambda>t. bind_tx (Evaluate e t mem) (\<lambda>p. bind_tx (attempt (on_db (ReconcileAlerts (fst (snd p)) (snd (snd p)) t)))
      (\<lambda>r. case r of Inl _ \<Rightarrow> ret (fst p) | Inr _ \<Rightarrow> send e t (fst p)))))" for mem
    unfolding triple_keeps
  proof (rule triple_bind [OF clock])
    fix t
    show "triple (\<lambda>w. joint P w \<and> C t) (bind_tx (Evaluate e t mem) (\<lambda>p. bind_tx (attempt (on_db (ReconcileAlerts (fst (snd p)) (snd (snd p)) t)))
      (\<lambda>r. case r of Inl _ \<Rightarrow> ret (fst p) | Inr _ \<Rightarrow> send e t (fst p)))) (\<lambda>_. joint P) (joint P)"
    proof (cases "C t")
      case True
      then show ?thesis using evaluated unfolding triple_keeps by (blast intro: triple_pre)
    qed (simp add: triple_def)
  qed
  show ?thesis
    unfolding Tick_def case_prod_beta Let_def
    by (intro keeps_bind keeps_attempt keeps_joint_db reads_kept keeps_result keeps_ret keeps_if timed)
qed

lemma Run_keeps:
  assumes "installed_probe e" "\<And>x. C (fst (Clock e x))"
  shows "keeps (joint P) (Run_alerts e n mem)"
  by (induction n arbitrary: mem) (auto intro!: keeps_bind keeps_ret Tick_keeps assms)

end

section \<open>Once a day\<close>

text \<open>A firing message about \<open>k\<close>, whatever its other fields.\<close>

definition firing_post :: "'x Engine \<Rightarrow> string \<Rightarrow> call \<Rightarrow> bool" where
  "firing_post e k c \<longleftrightarrow> (\<exists>url m status. c = Posted url (Marshal_message e m) status \<and> Message_Key m = k \<and> Message_State m = ''firing'')"

text \<open>What a receiver relies on: the encoded message tells its key and its state.\<close>

definition legible :: "'x Engine \<Rightarrow> bool" where
  "legible e \<longleftrightarrow> (\<forall>m m'. Marshal_message e m = Marshal_message e m' \<longrightarrow> Message_Key m = Message_Key m' \<and> Message_State m = Message_State m')"

lemma legibleD: "Marshal_message e m = Marshal_message e m' \<Longrightarrow> legible e \<Longrightarrow> Message_Key m = Message_Key m' \<and> Message_State m = Message_State m'"
  unfolding legible_def by blast

definition not_again :: "string \<Rightarrow> Outgoing \<Rightarrow> bool" where
  "not_again k out \<longleftrightarrow> \<not> (Outgoing_Key out = k \<and> Outgoing_State out = ''firing'')"

definition within_a_day :: "gotime \<Rightarrow> gotime \<Rightarrow> bool" where
  "within_a_day t0 t \<longleftrightarrow> t0 \<le> t \<and> unix t < unix t0 + 86400"

definition told_once :: "'x Engine \<Rightarrow> string \<Rightarrow> gotime \<Rightarrow> db \<Rightarrow> call list \<Rightarrow> bool" where
  "told_once e k t0 d cs \<longleftrightarrow> told_since (unix t0) k d \<and> (legible e \<longrightarrow> (\<forall>c \<in> set cs. \<not> firing_post e k c))"

lemma told_not_listed:
  assumes "told_since (unix t0) k d" "unix t < unix t0 + 86400" "AlertsToSend t (d, fs) = (Inr outs, s)"
  shows "list_all (not_again k) outs"
proof -
  have "unix (t - AlertRepeat) = unix t - 86400"
    using unix_minus [of t 86400] by (simp add: AlertRepeat_def)
  with assms(1,2) have "\<not> (con_active r = 1 \<and> to_send t r)" if "r \<in> set (alert_conditions d)" "con_key r = k" for r
    using that by (fastforce simp: told_since_def to_send_def)
  then show ?thesis
    using assms(3) by (auto simp: AlertsToSend_def tx_simps outgoing_condition_def outgoing_event_def not_again_def list_all_iff split: if_splits)
qed

lemma keeps_fixed: "keeps D m \<Longrightarrow> keeps (\<lambda>d. D d \<and> c) m"
  unfolding keeps_def by auto

interpretation once: alert_contract e "told_once e k t0" "\<lambda>_. not_again k" "within_a_day t0" for e k t0
proof
  fix t cs active checked assume t: "within_a_day t0 t"
  then have "t - 30 * 24 * hour \<le> t0"
    unfolding within_a_day_def unix_def by linarith
  then show "keeps (\<lambda>d. told_once e k t0 d cs) (ReconcileAlerts active checked t)"
    unfolding told_once_def using t
    by (intro keeps_fixed told_since_reconcile unix_mono) (auto simp: within_a_day_def)
next
  fix t d cs fs outs s assume "within_a_day t0 t" "told_once e k t0 d cs" "AlertsToSend t (d, fs) = (Inr outs, s)"
  then show "list_all (not_again k) outs" by (auto simp: told_once_def within_a_day_def intro: told_not_listed)
next
  fix t out d cs url status assume "not_again k out" "told_once e k t0 d cs"
  then show "told_once e k t0 d (Posted url (message e out t) status # cs)"
    by (auto simp: told_once_def firing_post_def message_def not_again_def dest: legibleD)
next
  show "keeps (\<lambda>d. told_once e k t0 d cs) (AlertAttemptFailed out)" for cs out
    unfolding told_once_def by (intro keeps_fixed told_since_attempt)
next
  fix t out cs assume "within_a_day t0 t"
  then show "keeps (\<lambda>d. told_once e k t0 d cs) (MarkAlertSent out t)"
    unfolding told_once_def by (intro keeps_fixed told_since_sent unix_mono) (simp add: within_a_day_def)
qed

lemma told_by_mark:
  assumes "returns (MarkAlertSent out t0) (d, fs) u d1" "Outgoing_State out = ''firing''"
    and "\<exists>r \<in> set (alert_conditions d). con_key r = Outgoing_Key out"
    and "\<forall>r \<in> set (alert_conditions d). con_key r = Outgoing_Key out \<longrightarrow> con_active r = 1"
  shows "told_since (unix t0) (Outgoing_Key out) d1"
  using assms by (auto simp: MarkAlertSent_def returns_iff tx_simps told_since_def bex_key_update_where in_update_where)

text \<open>
  C34. The receiver hears of a condition once a day. After a firing message was recorded as sent at \<open>t0\<close>, however
  many ticks the alerter makes in the following 24 hours, whatever the probes, the host files and the receiver
  answer and whichever statements fail, no second firing message about that condition is posted. Assumed are
  only that an encoded message tells its key and its state, and that the clock stays in that day.
\<close>

theorem receiver_hears_once:
  assumes "installed_probe e" "legible e"
    and "\<forall>x. t0 \<le> fst (Clock e x) \<and> unix (fst (Clock e x)) < unix t0 + 86400"
    and "returns (MarkAlertSent out t0) (d, fs) u (wdb w)" "Outgoing_State out = ''firing''"
    and "\<exists>r \<in> set (alert_conditions d). con_key r = Outgoing_Key out"
    and "\<forall>r \<in> set (alert_conditions d). con_key r = Outgoing_Key out \<longrightarrow> con_active r = 1"
    and "calls w = []" "Run_alerts e n mem (w, fs1) = (r, (w', fs2))"
  shows "\<forall>c \<in> set (calls w'). \<not> firing_post e (Outgoing_Key out) c"
proof -
  have "told_once e (Outgoing_Key out) t0 (wdb w) (calls w)"
    using told_by_mark [OF assms(4-7)] assms(8) by (simp add: told_once_def)
  moreover have "keeps (joint (told_once e (Outgoing_Key out) t0)) (Run_alerts e n mem)"
    by (rule once.Run_keeps) (use assms(1,3) in \<open>simp_all add: within_a_day_def\<close>)
  ultimately have "told_once e (Outgoing_Key out) t0 (wdb w') (calls w')" using assms(9) by (blast intro: joint_after)
  then show ?thesis using assms(2) by (simp add: told_once_def)
qed

section \<open>What is recorded as told\<close>

definition accepted_post :: "'x Engine \<Rightarrow> string \<Rightarrow> string \<Rightarrow> call \<Rightarrow> bool" where
  "accepted_post e k state c \<longleftrightarrow> (\<exists>url m status. c = Posted url (Marshal_message e m) (Some status) \<and>
     Message_Key m = k \<and> Message_State m = state \<and> 200 \<le> status \<and> status \<le> 299)"

definition told_truly :: "'x Engine \<Rightarrow> db \<Rightarrow> call list \<Rightarrow> bool" where
  "told_truly e d cs \<longleftrightarrow> (\<forall>r \<in> set (alert_conditions d). con_sent_state r \<noteq> '''' \<longrightarrow>
     (\<exists>c \<in> set cs. accepted_post e (con_key r) (con_sent_state r) c))"

lemma told_truly_update:
  assumes "told_truly e d cs" "\<And>r. con_key (f r) = con_key r"
    and "\<And>r. con_sent_state (f r) = con_sent_state r \<or> con_sent_state (f r) = ''''"
  shows "told_truly e (alert_conditions_update (update_where Q f) d) cs"
  unfolding told_truly_def
proof (intro ballI impI)
  fix x assume "x \<in> set (alert_conditions (alert_conditions_update (update_where Q f) d))" and s: "con_sent_state x \<noteq> ''''"
  then obtain r where r: "r \<in> set (alert_conditions d)" "x = r \<or> x = f r" by (auto simp: in_update_where)
  then have "con_key x = con_key r" "con_sent_state x = con_sent_state r" using assms(2) assms(3) [of r] s by auto
  then show "\<exists>c \<in> set cs. accepted_post e (con_key x) (con_sent_state x) c"
    using assms(1) r(1) s by (auto simp: told_truly_def)
qed

lemma told_truly_seen: "told_truly e d cs \<Longrightarrow> told_truly e (alert_conditions_update (condition_seen t c) d) cs"
  unfolding condition_seen_def upsert_def
  by (cases "list_ex (\<lambda>r. con_key r = AlertCondition_Key c) (alert_conditions d)")
    (force simp: told_truly_def in_update_where)+

lemma told_truly_reconcile: "keeps (\<lambda>d. told_truly e d cs) (ReconcileAlerts active checked t)"
  unfolding ReconcileAlerts_def Let_def
proof (intro tx_keeps)
  show "told_truly e (alert_conditions_update (condition_seen t c) d) cs" if "told_truly e d cs" for c d
    using that by (rule told_truly_seen)
  show "told_truly e (alert_conditions_update (restart_wait t source) d) cs" if "told_truly e d cs" for source d
    unfolding restart_wait_def using that by (rule told_truly_update) simp_all
  show "told_truly e (alert_conditions_update (mark_clear t key) d) cs" if "told_truly e d cs" for key d
    unfolding mark_clear_def using that by (rule told_truly_update) simp_all
  show "told_truly e (alert_conditions_update (forget_resolved t) d) cs" if "told_truly e d cs" for d
    using that by (auto simp: told_truly_def forget_resolved_def)
qed (simp add: told_truly_def)

lemma told_truly_sent:
  assumes "acknowledged e out t cs" "Outgoing_State out \<in> {''firing'', ''resolved'', ''event''}"
  shows "keeps (\<lambda>d. told_truly e d cs) (MarkAlertSent out t)"
proof -
  have ack: "\<exists>c \<in> set cs. accepted_post e (Outgoing_Key out) (Outgoing_State out) c"
  proof -
    obtain url status where "Posted url (message e out t) (Some status) \<in> set cs" "200 \<le> status" "status \<le> 299"
      using assms(1) by (auto simp: acknowledged_def)
    moreover have "accepted_post e (Outgoing_Key out) (Outgoing_State out) (Posted url (message e out t) (Some status))"
      unfolding accepted_post_def message_def using calculation(2,3)
      by (intro exI conjI) (rule refl | simp)+
    ultimately show ?thesis by blast
  qed
  have mark: "told_truly e (alert_conditions_update (update_where Q f) d) cs"
    if "told_truly e d cs" "\<And>r. Q r \<Longrightarrow> con_key r = Outgoing_Key out" "\<And>r. con_key (f r) = con_key r"
      "\<And>r. con_sent_state (f r) = Outgoing_State out" for Q f d
    using that ack by (auto simp: told_truly_def in_update_where) blast
  consider "Outgoing_State out = ''event''" | "Outgoing_State out = ''firing''" | "Outgoing_State out = ''resolved''"
    using assms(2) by blast
  then show ?thesis
  proof cases
    case 1
    then show ?thesis unfolding MarkAlertSent_def by (simp, intro keeps_exec) (simp add: told_truly_def)
  next
    case 2
    then show ?thesis unfolding MarkAlertSent_def by (simp, intro keeps_exec mark) simp_all
  next
    case 3
    then show ?thesis unfolding MarkAlertSent_def by (simp, intro keeps_exec mark) simp_all
  qed
qed

lemma listed_states: "AlertsToSend t (d, fs) = (Inr outs, s) \<Longrightarrow>
    list_all (\<lambda>out. Outgoing_State out \<in> {''firing'', ''resolved'', ''event''}) outs"
  by (auto simp: AlertsToSend_def tx_simps outgoing_condition_def outgoing_event_def list_all_iff)

interpretation truly: alert_contract e "told_truly e" "\<lambda>_ out. Outgoing_State out \<in> {''firing'', ''resolved'', ''event''}" "\<lambda>_. True" for e
proof
  show "keeps (\<lambda>d. told_truly e d cs) (ReconcileAlerts active checked t)" for cs active checked t
    by (rule told_truly_reconcile)
  show "keeps (\<lambda>d. told_truly e d cs) (AlertAttemptFailed out)" for cs out
    unfolding AlertAttemptFailed_def by (intro tx_keeps) (simp add: told_truly_def)
qed (use told_truly_sent listed_states in \<open>auto simp: told_truly_def\<close>)


section \<open>A receiver that is down\<close>

text \<open>An answer that shows the receiver is up.\<close>

fun answered_up :: "call \<Rightarrow> bool" where
  "answered_up (Posted url body status) = (case status of None \<Rightarrow> False | Some s \<Rightarrow> s \<noteq> 429 \<and> s < 500)"
| "answered_up _ = False"

definition posts_since :: "(call list \<Rightarrow> bool) \<Rightarrow> call list \<Rightarrow> call list \<Rightarrow> bool" where
  "posts_since ok cs0 cs \<longleftrightarrow> (\<exists>fresh. cs = fresh @ cs0 \<and> ok fresh)"

definition up :: "call list \<Rightarrow> call list \<Rightarrow> bool" where
  "up = posts_since (list_all answered_up)"

definition up_but_last :: "call list \<Rightarrow> call list \<Rightarrow> bool" where
  "up_but_last = posts_since (\<lambda>fresh. list_all answered_up (tl fresh))"

lemma up_weaken: "up cs0 cs \<Longrightarrow> up_but_last cs0 cs"
  unfolding up_def up_but_last_def posts_since_def by (metis list.set_sel(2) list_all_iff tl_Nil)

lemma up_one: "up cs0 cs \<Longrightarrow> up_but_last cs0 (c # cs)"
  unfolding up_def up_but_last_def posts_since_def by (metis append_Cons list.sel(3))

lemma up_more: "up cs0 cs \<Longrightarrow> answered_up c \<Longrightarrow> up cs0 (c # cs)"
  unfolding up_def posts_since_def by (metis append_Cons list.pred_inject(2))

lemma Deliver_up:
  "triple (of_calls (up cs0)) (Deliver http w body version t)
     (\<lambda>r. of_calls (if r = Inr () \<or> (\<exists>f. r = Inl f \<and> refused_only f) then up cs0 else up_but_last cs0)) (\<lambda>_. False)"
proof -
  let ?R = "\<lambda>r x. of_calls (up_but_last cs0) x \<and> (\<forall>s. r = Inr s \<and> s \<noteq> 429 \<and> s < 500 \<longrightarrow> of_calls (up cs0) x)"
  have "triple (of_calls (up cs0)) (call_out (\<lambda>r _. case r of Inr (Inr status) \<Rightarrow> [Posted (Webhook_URL w) body (Some status)]
        | _ \<Rightarrow> [Posted (Webhook_URL w) body None])
      (\<lambda>x. case Do http (Control (Webhook_PrivateEndpoint w)) (webhook_request w body version t) x of (r, x') \<Rightarrow> (Inr r, x')))
    ?R (\<lambda>_. False)"
    by (rule triple_call) (auto simp: of_calls_def intro: up_one up_more split: sum.splits prod.splits)
  then show ?thesis
    unfolding Deliver_def
    by (auto intro!: triple_ifI triple_bind [of _ _ ?R] triple_ret simp: of_calls_def refused_only_def up_weaken split: sum.split if_splits)
qed

lemma send_each_up: "triple (of_calls (up cs0)) (send_each e w t deadline outs mem) (\<lambda>_. of_calls (up_but_last cs0)) (of_calls (up_but_last cs0))"
proof (induction outs arbitrary: mem)
  case Nil
  show ?case by (simp add: triple_ret of_calls_def up_weaken)
next
  case (Cons out rest)
  let ?U = "of_calls (up cs0)" and ?B = "of_calls (up_but_last cs0)"
  have db: "triple (of_calls J) (on_db m) (\<lambda>_. of_calls J) (of_calls J)" for J m
    using keeps_on_db_of_calls by (simp add: triple_keeps)
  have sent: "triple (of_calls J) (ignoring (on_db m)) (\<lambda>_. of_calls J) (of_calls J)" for J m
    using keeps_on_db_of_calls unfolding triple_keeps [symmetric] by (intro tx_keeps)
  have weak: "of_calls (up cs0) x \<Longrightarrow> of_calls (up_but_last cs0) x" for x :: "'a world"
    by (simp add: of_calls_def up_weaken)
  have after: "triple (of_calls (if r = Inr () \<or> (\<exists>f. r = Inl f \<and> refused_only f) then up cs0 else up_but_last cs0))
      (case r of
       Inl failure \<Rightarrow> then_tx (on_db (AlertAttemptFailed out))
         (if refused_only failure then send_each e w t deadline rest (record_delivery (Some (deliver_text failure)) t mem)
          else ret (record_delivery (Some (deliver_text failure)) t mem))
     | Inr _ \<Rightarrow> then_tx (ignoring (on_db (MarkAlertSent out t))) (send_each e w t deadline rest (record_delivery None t mem))) (\<lambda>_. ?B) ?B"
    for r :: "deliver_error + unit"
  proof (cases r)
    case (Inl f)
    then show ?thesis
      by (cases "refused_only f")
        (auto intro!: triple_then [OF triple_error [OF db [of "up cs0"]]] triple_then [OF db [of "up_but_last cs0"]] Cons.IH triple_ret weak)
  next
    case (Inr u)
    then show ?thesis
      by (auto intro!: triple_then [OF triple_error [OF sent [of "up cs0"]]] Cons.IH weak)
  qed
  show ?case
    unfolding send_each.simps Let_def
    by (intro triple_bind [of _ _ "\<lambda>_. ?U"] triple_bind [OF triple_error [OF Deliver_up]] triple_observe triple_ifI triple_ret after)
      (simp_all add: of_calls_def up_weaken)
qed

lemma send_up: "triple (of_calls (up cs0)) (send e t mem) (\<lambda>_. of_calls (up_but_last cs0)) (of_calls (up_but_last cs0))"
proof -
  let ?U = "of_calls (up cs0)"
  have same: "triple ?U m (\<lambda>_. ?U) (of_calls (up_but_last cs0))" if "\<And>D J. keeps (both D J) m" for m :: "('a, 'b) act"
    using that unfolding triple_keeps of_calls_both
    by (rule triple_error) (simp add: both_def up_weaken)
  have list: "keeps (both D J) (attempt (on_db (AlertsToSend t)))" for D and J and t
    unfolding AlertsToSend_def by (intro tx_keeps)
  have wall: "keeps (both D J) (observe (Wall e))" for D J by (rule keeps_observe_both)
  show ?thesis
    unfolding send_def case_prod_beta
    by (intro triple_bind [OF same [OF keeps_get_Webhook]]) 
      (auto intro!: triple_ret triple_bind [OF same [OF list]] triple_bind [OF same [OF wall]] send_each_up
        simp: of_calls_def up_weaken split: option.split sum.split)
qed

text \<open>
  C35. A receiver that is down is asked once. Of the messages one tick posts, every one but the last was answered
  by a receiver that is up: with a status other than 429 and below 500. After no answer, a 429 or a 5xx nothing
  more is posted in that tick.
\<close>

theorem down_receiver_asked_once:
  assumes "installed_probe e" "Tick e mem (w, fs) = (r, (w', fs'))"
  shows "\<exists>fresh. calls w' = fresh @ calls w \<and> list_all answered_up (tl fresh)"
proof -
  let ?U = "of_calls (up (calls w))" and ?B = "of_calls (up_but_last (calls w))"
  have same: "triple ?U m (\<lambda>_. ?U) ?B" if "\<And>D J. keeps (both D J) m" for m :: "('a, 'b) act"
    using that unfolding triple_keeps of_calls_both
    by (rule triple_error) (simp add: both_def up_weaken)
  have db: "triple ?U (attempt (on_db m)) (\<lambda>_. ?U) ?B" for m :: "'b dbop"
    using keeps_attempt [OF keeps_on_db_of_calls] unfolding triple_keeps
    by (rule triple_error) (simp add: of_calls_def up_weaken)
  have clock: "keeps (both D J) (observe (Clock e))" for D J by (rule keeps_observe_both)
  have "triple ?U (Tick e mem) (\<lambda>_. ?B) ?B"
    unfolding Tick_def case_prod_beta Let_def
    by (intro triple_bind [OF db])
      (auto intro!: triple_ret triple_bind [OF same [OF clock]] triple_bind [OF same [OF keeps_Evaluate [OF assms(1)]]] triple_bind [OF db] send_up
        simp: of_calls_def up_weaken split: sum.split)
  moreover have "?U w" by (simp add: of_calls_def up_def posts_since_def)
  ultimately have "?B w'"
    using assms(2) tripleD_Inr [of ?U "Tick e mem" _ ?B "(w, fs)"] tripleD_Inl [of ?U "Tick e mem" _ ?B "(w, fs)"]
    by (cases r) fastforce+
  then show ?thesis by (simp add: of_calls_def up_but_last_def posts_since_def)
qed

section \<open>Updates\<close>

text \<open>
  C36. An update is quiet. While the maintenance flag is set a tick posts nothing, asks nothing of the outside and
  leaves the database as it is, whether the flag can be read or not; and the first tick after the update judges
  PostgreSQL as if it had just been started, so a failure seen before the update counts for nothing.
\<close>

theorem update_is_quiet:
  "(\<not> maintenanceGuard (wdb w) \<longrightarrow> wdb (leaves (Tick e mem) (w, fs)) = wdb w \<and> calls (leaves (Tick e mem) (w, fs)) = calls w \<and>
      outside (leaves (Tick e mem) (w, fs)) = outside w \<and>
      fst (Tick e mem (w, [])) = Inr (mem\<lparr>in_maintenance := True\<rparr>)) \<and>
   (maintenanceGuard (wdb w) \<longrightarrow>
      Tick e (mem\<lparr>in_maintenance := True\<rparr>) (w, []) = Tick e (mem\<lparr>in_maintenance := False, failingSince := None\<rparr>) (w, []))"
  by (auto simp: Tick_def Maintenance_def maintenance_def leaves_def bind_tx_def attempt_def on_db_def query_def stmt_def ret_def
      fails_now_def split: if_splits)

section \<open>When PostgreSQL counts as unreachable\<close>

abbreviation noted :: "(gotime \<times> (err + string)) list \<Rightarrow> gotime option" where
  "noted history \<equiv> fold (\<lambda>c. note_postgres (fst c) (snd c)) history None"

lemma note_postgres_some:
  "note_postgres t r failing = Some since \<longleftrightarrow> isl r \<and> (failing = Some since \<or> (failing = None \<and> since = t))"
  by (auto simp: note_postgres_def split: sum.splits option.splits)

lemma noted_none: "noted history = None \<longleftrightarrow> history = [] \<or> (\<exists>v. snd (last history) = Inr v)"
  by (induction history rule: rev_induct) (auto simp: note_postgres_def split: sum.splits option.splits)

lemma noted_some:
  "noted history = Some since \<longleftrightarrow> (\<exists>before after failure. history = before @ (since, Inl failure) # after \<and>
     (before = [] \<or> (\<exists>v. snd (last before) = Inr v)) \<and> list_all (\<lambda>c. isl (snd c)) after)" (is "_ \<longleftrightarrow> ?R history")
proof (induction history rule: rev_induct)
  case (snoc c history)
  obtain t r where c: "c = (t, r)" by (cases c)
  have split: "?R (history @ [c]) \<longleftrightarrow> (isl r \<and> ?R history) \<or> (since = t \<and> isl r \<and> noted history = None)"
  proof
    assume "?R (history @ [c])"
    then obtain before after failure where *: "history @ [c] = before @ (since, Inl failure) # after"
      "before = [] \<or> (\<exists>v. snd (last before) = Inr v)" "list_all (\<lambda>c. isl (snd c)) after" by blast
    show "(isl r \<and> ?R history) \<or> (since = t \<and> isl r \<and> noted history = None)"
      using * by (cases after rule: rev_cases) (auto simp: c noted_none)
  next
    assume "(isl r \<and> ?R history) \<or> (since = t \<and> isl r \<and> noted history = None)"
    then show "?R (history @ [c])"
    proof
      assume "isl r \<and> ?R history"
      then obtain before after failure where "isl r" "history = before @ (since, Inl failure) # after"
        "before = [] \<or> (\<exists>v. snd (last before) = Inr v)" "list_all (\<lambda>c. isl (snd c)) after" by blast
      then have "history @ [c] = before @ (since, Inl failure) # (after @ [c])" "list_all (\<lambda>c. isl (snd c)) (after @ [c])"
        by (simp_all add: c)
      then show ?thesis using \<open>before = [] \<or> _\<close> by blast
    next
      assume "since = t \<and> isl r \<and> noted history = None"
      then show ?thesis by (intro exI [of _ history] exI [of _ "[]"]) (auto simp: c noted_none isl_def)
    qed
  qed
  show ?case
    unfolding split snoc.IH [symmetric] by (auto simp: c note_postgres_some)
qed simp

text \<open>
  The grace of five minutes. After any history of checks the alerter reports PostgreSQL as unreachable exactly
  when the latest check failed, since the first failure after the last answer, and once that is at least five
  minutes ago; an answer at any time clears it.
\<close>

theorem unreachable_exact:
  "unreachable_now t (fold (\<lambda>c. note_postgres (fst c) (snd c)) history None) = Some since \<longleftrightarrow>
     (\<exists>before after failure. history = before @ (since, Inl failure) # after \<and>
        (before = [] \<or> (\<exists>v. snd (last before) = Inr v)) \<and> list_all (\<lambda>c. isl (snd c)) after \<and> since + 5 * minute \<le> t)"
proof -
  have "unreachable_now t (noted history) = Some since \<longleftrightarrow> noted history = Some since \<and> since + 5 * minute \<le> t"
    by (auto simp: unreachable_now_def PostgresGrace_def split: option.splits)
  then show ?thesis unfolding noted_some by blast
qed

section \<open>A trial\<close>

text \<open>
  An engine without probes on a host that reports nothing; the outside is the number of requests the receiver has
  seen and decides its answer.
\<close>

definition trial_engine :: "(nat \<Rightarrow> string + int) \<Rightarrow> nat Engine" where
  "trial_engine answer = \<lparr>Engine_InstallationID = ''i'', Engine_Dashboard = ''d'', Engine_Mode = ''tunnel'', Engine_Version = ''1'',
     HostPaths = \<lparr>Paths_Status = ''s'', Paths_CertSync = ''c'', Paths_TLSState = ''t'', Paths_Certificate = ''p''\<rparr>,
     Files = \<lparr>ReadFile = (\<lambda>_ x. (Inl (EMsg ''no such file''), x)), Unmarshal_report = (\<lambda>_. None), Unmarshal_tls = (\<lambda>_. None),
       Unmarshal_sync = (\<lambda>_. None), Parse_RFC3339 = (\<lambda>_. None), NotAfter = (\<lambda>_. None)\<rparr>,
     Postgres_probe = None, Budget_probe = None, Backups_probe = None, Clock = (\<lambda>x. (100 * second, x)), Wall = (\<lambda>x. (100 * second, x)),
     Http = \<lparr>URL_valid = (\<lambda>_. True), Do = (\<lambda>_ _ x. (answer x, Suc x)), Parse_url = (\<lambda>_. None)\<rparr>,
     Open_setting = (\<lambda>_ s. Some s), Seal_setting = (\<lambda>_ s. s),
     Unmarshal_webhook = (\<lambda>s. (\<lparr>Webhook_URL = s, Webhook_Secret = '''', Webhook_PrivateEndpoint = False\<rparr>, None)),
     Marshal_webhook = Webhook_URL, Marshal_message = (\<lambda>m. replicate (length (Message_Key m)) (CHR ''k'') @ '' '' @ Message_Key m @ Message_State m), Text_of = (\<lambda>_. '''')\<rparr>"

definition trial_memory :: memory where
  "trial_memory = \<lparr>failingSince = None, in_maintenance = False, lastOK = 0, lastError = ''''\<rparr>"

definition trial_world :: "condition_row list \<Rightarrow> nat world" where
  "trial_world rows = \<lparr>wdb = empty_db\<lparr>alert_conditions := rows, settings := [(AlertWebhookSetting, (''https://hook.example'', 0))]\<rparr>, outside = 0, calls = [], files = (\<lambda>_. None)\<rparr>"

lemma trial_engine_fits: "installed_probe (trial_engine answer)" "legible (trial_engine answer)"
proof -
  show "legible (trial_engine answer)"
    unfolding legible_def trial_engine_def Engine.select_convs
  proof (intro allI impI)
    fix m m' :: Message
    assume eq: "replicate (length (Message_Key m)) (CHR ''k'') @ '' '' @ Message_Key m @ Message_State m =
      replicate (length (Message_Key m')) (CHR ''k'') @ '' '' @ Message_Key m' @ Message_State m'"
    have "takeWhile (\<lambda>c. c \<noteq> CHR '' '') (replicate n (CHR ''k'') @ '' '' @ s) = replicate n (CHR ''k'')" for n s
      by (induction n) simp_all
    then have "length (Message_Key m) = length (Message_Key m')" using eq by (metis length_replicate)
    with eq show "Message_Key m = Message_Key m' \<and> Message_State m = Message_State m'" by simp
  qed
qed (simp add: installed_probe_def trial_engine_def)

definition told_world :: "nat world" where
  "told_world = trial_world (alert_conditions (leaves (MarkAlertSent disk_alert (100 * second)) (disk_full, [])))"

theorem receiver_hears_once_witness:
  "let w' = leaves (Run_alerts (trial_engine (\<lambda>_. Inr 200)) 2 trial_memory) (told_world, []) in
     calls w' \<noteq> [] \<and> filter (firing_post (trial_engine (\<lambda>_. Inr 200)) ''disk'') (calls w') = []"
proof -
  let ?e = "trial_engine (\<lambda>_. Inr 200)" and ?d = "wdb (trial_world (alert_conditions disk_full))"
  obtain r w' fs where run: "Run_alerts ?e 2 trial_memory (told_world, []) = (r, (w', fs))" by (metis surj_pair)
  have mark: "returns (MarkAlertSent disk_alert (100 * second)) (?d, []) () (wdb told_world)"
    by (simp add: told_world_def trial_world_def leaves_def returns_def MarkAlertSent_def disk_alert_def disk_full_def exec_def stmt_def)
  have "\<forall>c \<in> set (calls w'). \<not> firing_post ?e (Outgoing_Key disk_alert) c"
    by (rule receiver_hears_once [OF trial_engine_fits _ mark _ _ _ _ run])
      (simp_all add: trial_engine_def disk_alert_def trial_world_def disk_full_def told_world_def)
  moreover have "calls (leaves (Run_alerts ?e 2 trial_memory) (told_world, [])) \<noteq> []" by code_simp
  ultimately show ?thesis by (simp add: run leaves_def filter_empty_conv disk_alert_def)
qed


theorem down_receiver_asked_once_witness:
  "let w = trial_world (alert_conditions disk_full); w' = leaves (Tick (trial_engine (\<lambda>_. Inr 503)) trial_memory) (w, []) in
     length (calls w') = 1 \<and> (\<exists>fresh. calls w' = fresh @ calls w \<and> list_all answered_up (tl fresh))"
proof -
  let ?e = "trial_engine (\<lambda>_. Inr 503)" and ?w = "trial_world (alert_conditions disk_full)"
  obtain r w' fs where run: "Tick ?e trial_memory (?w, []) = (r, (w', fs))" by (metis surj_pair)
  have "length (calls (leaves (Tick ?e trial_memory) (?w, []))) = 1" by code_simp
  then show ?thesis using down_receiver_asked_once [OF trial_engine_fits(1) run] by (simp add: run leaves_def)
qed

theorem update_is_quiet_witness:
  "let w = trial_world []; v = w\<lparr>wdb := (wdb w)\<lparr>metadata := [(''maintenance'', ''1'')]\<rparr>\<rparr>; e = trial_engine (\<lambda>_. Inr 200) in
     calls (leaves (Tick e trial_memory) (v, [])) = [] \<and> length (calls (leaves (Tick e trial_memory) (w, []))) = 1"
proof -
  let ?w = "trial_world []" and ?e = "trial_engine (\<lambda>_. Inr 200)"
  let ?v = "?w\<lparr>wdb := (wdb ?w)\<lparr>metadata := [(''maintenance'', ''1'')]\<rparr>\<rparr>"
  have "calls (leaves (Tick ?e trial_memory) (?v, [])) = []"
    using update_is_quiet [of ?v ?e trial_memory "[]"] by (simp add: maintenanceGuard_def trial_world_def)
  moreover have "length (calls (leaves (Tick ?e trial_memory) (?w, []))) = 1" by code_simp
  ultimately show ?thesis by simp
qed

end
