(* ===== verification/Management_Safety.thy ===== *)
theory Management_Safety
  imports Management "HOL-Library.Sublist"
begin

text \<open>
  What the management connection sends to PostgreSQL. A text is read the way the server reads it, as what stands
  inside and outside of quotes; every text is one of a closed list, whatever the arguments. Dropping a project
  follows its plan, a budget is well formed, and limits that were set are read back without drift. The last
  section evaluates a trial server.
\<close>

section \<open>Reading a statement as PostgreSQL does\<close>

text \<open>
  The skeleton of a text: what stands outside quoted identifiers and literals, with the quotes themselves.
  A quote inside a quoted part would show, as would a part that is not closed.
\<close>

datatype mode = Outside | Quoted char

fun skeleton :: "mode \<Rightarrow> string \<Rightarrow> string option" where
  "skeleton Outside [] = Some []"
| "skeleton (Quoted q) [] = None"
| "skeleton Outside (c # s) = map_option ((#) c) (skeleton (if c = CHR 0x22 \<or> c = CHR 0x27 then Quoted c else Outside) s)"
| "skeleton (Quoted q) (c # s) = (if c = q then map_option ((#) c) (skeleton Outside s) else skeleton (Quoted q) s)"

fun quoted_parts :: "mode \<Rightarrow> string \<Rightarrow> string" where
  "quoted_parts md [] = []"
| "quoted_parts Outside (c # s) = quoted_parts (if c = CHR 0x22 \<or> c = CHR 0x27 then Quoted c else Outside) s"
| "quoted_parts (Quoted q) (c # s) = (if c = q then quoted_parts Outside s else c # quoted_parts (Quoted q) s)"

definition word_char :: "char \<Rightarrow> bool" where
  "word_char c \<longleftrightarrow> is_letter c \<or> is_digit c \<or> c = CHR ''_'' \<or> c = CHR ''-''"

text \<open>The texts that are sent as they stand, and the skeletons of those that carry names, passwords and values.\<close>

definition fixed_texts :: "string list" where
  "fixed_texts = [size_query, role_query, states_query, settings_query, use_query, other_query, owner_query, terminate_query,
     ownership_query, end_query, connections_query, problems_query, load_time_query, reload_query]"

definition name_mark :: string where "name_mark = [CHR 0x22, CHR 0x22]"
definition value_mark :: string where "value_mark = [CHR 0x27, CHR 0x27]"

definition skeletons :: "string list" where
  "skeletons =
     [''ALTER ROLE '' @ name_mark @ '' WITH PASSWORD '' @ value_mark,
      ''ALTER ROLE '' @ name_mark @ '' SET default_transaction_read_only = on'',
      ''ALTER ROLE '' @ name_mark @ '' RESET default_transaction_read_only'',
      ''ALTER ROLE '' @ name_mark @ '' NOLOGIN'',
      ''CREATE DATABASE '' @ name_mark @ '' OWNER '' @ name_mark,
      ''REVOKE ALL ON DATABASE '' @ name_mark @ '' FROM PUBLIC'',
      ''DROP DATABASE '' @ name_mark @ '' WITH (FORCE)'',
      ''DROP ROLE '' @ name_mark] @
     map (\<lambda>k. ''ALTER ROLE '' @ name_mark @ '' SET '' @ k @ '' = '' @ value_mark) limit_keys @
     map (\<lambda>k. ''ALTER ROLE '' @ name_mark @ '' IN DATABASE '' @ name_mark @ '' RESET '' @ k) limit_keys @
     map (\<lambda>n. ''ALTER ROLE '' @ name_mark @ '' CONNECTION LIMIT '' @ decimal n) [1..100] @
     map (\<lambda>n. ''CREATE ROLE '' @ name_mark @ '' LOGIN PASSWORD '' @ value_mark @
       '' NOSUPERUSER NOCREATEDB NOCREATEROLE NOREPLICATION CONNECTION LIMIT '' @ decimal n) [1..100]"

definition expected_text :: "string \<Rightarrow> bool" where
  "expected_text sql \<longleftrightarrow> sql \<in> set fixed_texts \<or>
     (skeleton Outside sql \<in> set (map Some skeletons) \<and> list_all word_char (quoted_parts Outside sql))"

fun expected :: "statement \<Rightarrow> bool" where
  "expected (Sent sql args) = expected_text sql"
| "expected _ = True"

definition outside_text :: "string \<Rightarrow> bool" where
  "outside_text s \<longleftrightarrow> list_all (\<lambda>c. c \<noteq> CHR 0x22 \<and> c \<noteq> CHR 0x27) s"

lemma skeleton_outside: "outside_text s \<Longrightarrow> skeleton Outside (s @ t) = map_option (\<lambda>x. s @ x) (skeleton Outside t)"
proof (induction s)
  case (Cons c s)
  then show ?case by (simp add: outside_text_def option.map_comp o_def)
qed (cases "skeleton Outside t", simp_all)

lemma quoted_outside: "outside_text s \<Longrightarrow> quoted_parts Outside (s @ t) = quoted_parts Outside t"
  by (induction s) (auto simp: outside_text_def)

lemma skeleton_quoted: "q \<notin> set s \<Longrightarrow> skeleton (Quoted q) (s @ q # t) = map_option ((#) q) (skeleton Outside t)"
  by (induction s) auto

lemma quoted_quoted: "q \<notin> set s \<Longrightarrow> quoted_parts (Quoted q) (s @ q # t) = s @ quoted_parts Outside t"
  by (induction s) auto

lemma word_not_quote: "list_all word_char s \<Longrightarrow> CHR 0x22 \<notin> set s" "list_all word_char s \<Longrightarrow> CHR 0x27 \<notin> set s"
  by (auto simp: list_all_iff word_char_def is_letter_def is_digit_def)

text \<open>A text as pieces: as they stand, between quotes of an identifier, between quotes of a literal.\<close>

datatype piece = Piece string | Name string | Val string

fun render :: "piece \<Rightarrow> string" where
  "render (Piece s) = s"
| "render (Name s) = [CHR 0x22] @ s @ [CHR 0x22]"
| "render (Val s) = [CHR 0x27] @ s @ [CHR 0x27]"

fun marked :: "piece \<Rightarrow> string" where
  "marked (Piece s) = s"
| "marked (Name s) = name_mark"
| "marked (Val s) = value_mark"

fun harmless :: "piece \<Rightarrow> bool" where
  "harmless (Piece s) = outside_text s"
| "harmless (Name s) = list_all word_char s"
| "harmless (Val s) = list_all word_char s"

lemma pieces_read:
  assumes "list_all harmless ps"
  shows "skeleton Outside (concat (map render ps)) = Some (concat (map marked ps)) \<and>
    list_all word_char (quoted_parts Outside (concat (map render ps)))"
  using assms
proof (induction ps)
  case (Cons p ps)
  then show ?case
    by (cases p) (auto simp: skeleton_outside quoted_outside skeleton_quoted quoted_quoted word_not_quote name_mark_def value_mark_def)
qed simp

lemma expected_pieces:
  "sql = concat (map render ps) \<Longrightarrow> list_all harmless ps \<Longrightarrow> concat (map marked ps) \<in> set skeletons \<Longrightarrow> expected_text sql"
  using pieces_read [of ps] by (auto simp: expected_text_def)

lemma name_safe:
  assumes "ValidName s"
  shows "list_all word_char s"
proof -
  have "list_all word_char (take 4 s)" using assms by (simp add: ValidName_def word_char_def is_letter_def)
  moreover have "word_char c" if "name_char c" for c
    using that by (auto simp: name_char_def word_char_def is_letter_def Let_def)
  then have "list_all word_char (drop 4 s)" using assms by (auto simp: ValidName_def list_all_iff)
  ultimately show ?thesis by (metis append_take_drop_id list_all_append)
qed

lemma password_safe: "passwordPattern s \<Longrightarrow> list_all word_char s"
  by (simp add: passwordPattern_def word_char_def [abs_def])

lemma setting_safe:
  assumes "settingValue s"
  shows "list_all word_char s"
proof (cases "s = ''-1''")
  case True
  then show ?thesis by (simp add: word_char_def is_digit_def)
next
  case False
  then have "dropWhile is_digit s = ''ms'' \<or> dropWhile is_digit s = ''kB''"
    using assms by (auto simp: settingValue_def Let_def)
  then have "list_all word_char (dropWhile is_digit s)" by (auto simp: word_char_def is_letter_def)
  moreover have "list_all word_char (takeWhile is_digit s)"
    by (auto simp: list_all_iff word_char_def dest: set_takeWhileD)
  ultimately show ?thesis by (metis takeWhile_dropWhile_id list_all_append)
qed

lemma dec_digits: "list_all is_digit (dec n)"
  by (induction n rule: dec.induct) (subst dec.simps, simp add: is_digit_digit_char)

lemma decimal_outside: "0 \<le> n \<Longrightarrow> outside_text (decimal n)"
proof -
  assume "0 \<le> n"
  then have "list_all is_digit (decimal n)" using dec_digits by (simp add: decimal_def)
  then show ?thesis unfolding outside_text_def list_all_iff by (auto simp: is_digit_def)
qed

text \<open>What the library promises of quoting, for the names this program lets through.\<close>

definition sanitizes :: "'x Management \<Rightarrow> bool" where
  "sanitizes m \<longleftrightarrow> (\<forall>s. list_all word_char s \<longrightarrow> Identifier m s = [CHR 0x22] @ s @ [CHR 0x22])"

lemma Identifier_name: "sanitizes m \<Longrightarrow> ValidName s \<Longrightarrow> Identifier m s = [CHR 0x22] @ s @ [CHR 0x22]"
  by (simp add: sanitizes_def name_safe)

lemma name_texts_expected:
  assumes m: "sanitizes m" "ValidName role" "ValidName database"
  shows "expected_text (frozen_text m role frozen)" "expected_text (nologin_text m role)"
    "expected_text (create_database_text m database role)" "expected_text (revoke_text m database)"
    "expected_text (drop_database_text m database)" "expected_text (drop_role_text m role)"
    "k \<in> set limit_keys \<Longrightarrow> expected_text (reset_text m role database k)"
    "1 \<le> n \<Longrightarrow> n \<le> 100 \<Longrightarrow> expected_text (limit_text m role n)"
proof -
  note texts = Identifier_name [OF m(1)] m(2,3) name_safe outside_text_def
  show "expected_text (frozen_text m role frozen)"
    by (rule expected_pieces [of _ "[Piece ''ALTER ROLE '', Name role, Piece (if frozen then '' SET default_transaction_read_only = on''
      else '' RESET default_transaction_read_only'')]"]) (simp_all add: texts frozen_text_def skeletons_def)
  show "expected_text (nologin_text m role)"
    by (rule expected_pieces [of _ "[Piece ''ALTER ROLE '', Name role, Piece '' NOLOGIN'']"]) (simp_all add: texts nologin_text_def skeletons_def)
  show "expected_text (create_database_text m database role)"
    by (rule expected_pieces [of _ "[Piece ''CREATE DATABASE '', Name database, Piece '' OWNER '', Name role]"])
      (simp_all add: texts create_database_text_def skeletons_def)
  show "expected_text (revoke_text m database)"
    by (rule expected_pieces [of _ "[Piece ''REVOKE ALL ON DATABASE '', Name database, Piece '' FROM PUBLIC'']"])
      (simp_all add: texts revoke_text_def skeletons_def)
  show "expected_text (drop_database_text m database)"
    by (rule expected_pieces [of _ "[Piece ''DROP DATABASE '', Name database, Piece '' WITH (FORCE)'']"])
      (simp_all add: texts drop_database_text_def skeletons_def)
  show "expected_text (drop_role_text m role)"
    by (rule expected_pieces [of _ "[Piece ''DROP ROLE '', Name role]"]) (simp_all add: texts drop_role_text_def skeletons_def)
  show "expected_text (reset_text m role database k)" if "k \<in> set limit_keys"
    by (rule expected_pieces [of _ "[Piece ''ALTER ROLE '', Name role, Piece '' IN DATABASE '', Name database, Piece '' RESET '', Piece k]"])
      (use that in \<open>auto simp: texts reset_text_def skeletons_def limit_keys_def\<close>)
  show "expected_text (limit_text m role n)" if "1 \<le> n" "n \<le> 100"
    by (rule expected_pieces [of _ "[Piece ''ALTER ROLE '', Name role, Piece '' CONNECTION LIMIT '', Piece (decimal n)]"])
      (use that decimal_outside [of n] in \<open>auto simp: texts limit_text_def skeletons_def image_iff\<close>)
qed

lemma value_texts_expected:
  assumes m: "sanitizes m" "ValidName role"
  shows "passwordPattern password \<Longrightarrow> expected_text (password_text m role password)"
    "passwordPattern password \<Longrightarrow> 1 \<le> n \<Longrightarrow> n \<le> 100 \<Longrightarrow> expected_text (create_role_text m role password n)"
    "settingValue v \<Longrightarrow> k \<in> set limit_keys \<Longrightarrow> expected_text (set_text m role k v)"
proof -
  note texts = Identifier_name [OF m(1)] m(2) name_safe outside_text_def password_safe setting_safe literal_def
  show "expected_text (password_text m role password)" if "passwordPattern password"
    by (rule expected_pieces [of _ "[Piece ''ALTER ROLE '', Name role, Piece '' WITH PASSWORD '', Val password]"])
      (use that in \<open>simp_all add: texts password_text_def skeletons_def\<close>)
  show "expected_text (create_role_text m role password n)" if "passwordPattern password" "1 \<le> n" "n \<le> 100"
    by (rule expected_pieces [of _ "[Piece ''CREATE ROLE '', Name role, Piece '' LOGIN PASSWORD '', Val password,
      Piece '' NOSUPERUSER NOCREATEDB NOCREATEROLE NOREPLICATION CONNECTION LIMIT '', Piece (decimal n)]"])
      (use that decimal_outside [of n] in \<open>auto simp: texts create_role_text_def skeletons_def image_iff\<close>)
  show "expected_text (set_text m role k v)" if "settingValue v" "k \<in> set limit_keys"
    by (rule expected_pieces [of _ "[Piece ''ALTER ROLE '', Name role, Piece '' SET '', Piece k, Piece '' = '', Val v]"])
      (use that in \<open>auto simp: texts set_text_def skeletons_def limit_keys_def\<close>)
qed

lemma fixed_expected: "sql \<in> set fixed_texts \<Longrightarrow> expected_text sql"
  by (simp add: expected_text_def)

section \<open>What is sent\<close>

definition io_keeps :: "('x \<Rightarrow> bool) \<Rightarrow> ('x, 'a) io \<Rightarrow> bool" where
  "io_keeps I m \<longleftrightarrow> (\<forall>x. I x \<longrightarrow> I (snd (m x)))"

named_theorems io_rules

lemma io_keeps_ret [io_rules]: "io_keeps I (io_ret a)"
  by (simp add: io_keeps_def io_ret_def)

lemma io_keeps_throw [io_rules]: "io_keeps I (io_throw e)"
  by (simp add: io_keeps_def io_throw_def)

lemma io_keeps_bind [io_rules]: "io_keeps I m \<Longrightarrow> (\<And>a. io_keeps I (f a)) \<Longrightarrow> io_keeps I (io_bind m f)"
  unfolding io_keeps_def io_bind_def by (auto split: prod.splits sum.splits)

lemma io_keeps_attempt [io_rules]: "io_keeps I m \<Longrightarrow> io_keeps I (io_attempt m)"
  unfolding io_keeps_def io_attempt_def by (auto split: prod.splits)

lemma io_keeps_each [io_rules]: "(\<And>y. io_keeps I (f y)) \<Longrightarrow> io_keeps I (io_each f ys)"
  by (induction ys) (auto intro: io_rules)

lemma io_keeps_if [io_rules]: "(c \<Longrightarrow> io_keeps I m) \<Longrightarrow> (\<not> c \<Longrightarrow> io_keeps I k) \<Longrightarrow> io_keeps I (if c then m else k)"
  by simp

lemma io_keeps_sum [io_rules]: "(\<And>e. io_keeps I (f e)) \<Longrightarrow> (\<And>v. io_keeps I (g v)) \<Longrightarrow> io_keeps I (case r of Inl e \<Rightarrow> f e | Inr v \<Rightarrow> g v)"
  by (cases r) simp_all

lemma io_keeps_option [io_rules]: "io_keeps I m \<Longrightarrow> (\<And>v. r = Some v \<Longrightarrow> io_keeps I (f v)) \<Longrightarrow> io_keeps I (case r of None \<Rightarrow> m | Some v \<Rightarrow> f v)"
  by (cases r) simp_all

lemma io_keeps_list [io_rules]: "io_keeps I m \<Longrightarrow> (\<And>v vs. io_keeps I (f v vs)) \<Longrightarrow> io_keeps I (case r of [] \<Rightarrow> m | v # vs \<Rightarrow> f v vs)"
  by (cases r) simp_all

lemma io_keeps_scan [io_rules]: "io_keeps I (scan f row)"
  unfolding scan_def by (intro io_rules)

lemma io_keeps_scan_rows [io_rules]: "io_keeps I (scan_rows f rows)"
  by (induction rows) (auto intro: io_rules)

text \<open>Only expected statements were sent.\<close>

definition tame :: "'x pg \<Rightarrow> bool" where
  "tame s \<longleftrightarrow> list_all expected (sent s)"

lemma tame_on_server: "list_all expected stmts \<Longrightarrow> io_keeps tame (on_server stmts f)"
  by (auto simp: io_keeps_def tame_def on_server_def split: prod.splits)

lemma tame_exec: "expected_text sql \<Longrightarrow> io_keeps tame (pg_exec m sql args)"
  unfolding pg_exec_def by (rule tame_on_server) simp

lemma tame_row: "expected_text sql \<Longrightarrow> io_keeps tame (pg_row m f sql args)"
  unfolding pg_row_def pg_query_def by (intro io_rules tame_on_server) simp

lemma tame_rows: "expected_text sql \<Longrightarrow> io_keeps tame (pg_rows m f sql args)"
  unfolding pg_rows_def pg_query_def by (intro io_rules tame_on_server) simp

text \<open>Every operation of the connection, with whatever arguments a caller has.\<close>

datatype request =
    DoConnect string | DoDatabaseSize string | DoEnsureRole string string int | DoSetPassword string string
  | DoApplyLimits string "(string \<times> string) list" int | DoResetDatabaseLimits string string "string list" | DoRoleStates
  | DoConnectionBudget | DoEnsureDatabase string string | DoSetWritesFrozen string string bool | DoTerminateSessions string string
  | DoDropProject string string | DoConnections string string | DoHBAFileErrors | DoReload

definition io_forget :: "('x, 'a) io \<Rightarrow> ('x, unit) io" where
  "io_forget m = io_bind (io_attempt m) (\<lambda>_. io_ret ())"

fun serve_request :: "'x Management \<Rightarrow> request \<Rightarrow> ('x pg, unit) io" where
  "serve_request m (DoConnect database) = io_forget (Management_Connect m database)"
| "serve_request m (DoDatabaseSize database) = io_forget (Management_DatabaseSize m database)"
| "serve_request m (DoEnsureRole name password limit) = io_forget (Management_EnsureRole m name password limit)"
| "serve_request m (DoSetPassword role password) = io_forget (Management_SetPassword m role password)"
| "serve_request m (DoApplyLimits role wanted_settings limit) = io_forget (Management_ApplyLimits m role wanted_settings limit)"
| "serve_request m (DoResetDatabaseLimits role database ks) = io_forget (Management_ResetDatabaseLimits m role database ks)"
| "serve_request m DoRoleStates = io_forget (Management_RoleStates m)"
| "serve_request m DoConnectionBudget = io_forget (Management_ConnectionBudget m)"
| "serve_request m (DoEnsureDatabase name owner) = io_forget (Management_EnsureDatabase m name owner)"
| "serve_request m (DoSetWritesFrozen database role frozen) = io_forget (Management_SetWritesFrozen m database role frozen)"
| "serve_request m (DoTerminateSessions database role) = io_forget (Management_TerminateSessions m database role)"
| "serve_request m (DoDropProject database role) = io_forget (Management_DropProject m database role)"
| "serve_request m (DoConnections database role) = io_forget (Management_Connections m database role)"
| "serve_request m DoHBAFileErrors = io_forget (Management_HBAFileErrors m)"
| "serve_request m DoReload = io_forget (Management_Reload m)"

lemma tame_wrapped: "io_keeps tame f \<Longrightarrow> io_keeps tame (wrapped m what f)"
  unfolding wrapped_def by (intro io_rules)

lemma fixed_members:
  "size_query \<in> set fixed_texts" "role_query \<in> set fixed_texts" "states_query \<in> set fixed_texts" "settings_query \<in> set fixed_texts"
  "use_query \<in> set fixed_texts" "other_query \<in> set fixed_texts" "owner_query \<in> set fixed_texts" "terminate_query \<in> set fixed_texts"
  "ownership_query \<in> set fixed_texts" "end_query \<in> set fixed_texts" "connections_query \<in> set fixed_texts"
  "problems_query \<in> set fixed_texts" "load_time_query \<in> set fixed_texts" "reload_query \<in> set fixed_texts"
  by (simp_all add: fixed_texts_def)

lemmas tame_rules = io_rules tame_wrapped tame_exec tame_row tame_rows fixed_expected fixed_members

lemma tame_confirm: "io_keeps tame (confirm_reload m before n)"
  by (induction n) (auto intro!: tame_rules tame_on_server)

lemma tame_set_limit: "sanitizes m \<Longrightarrow> ValidName role \<Longrightarrow> k \<in> set limit_keys \<Longrightarrow> io_keeps tame (set_limit m role ws k)"
  unfolding set_limit_def by (auto intro!: io_rules tame_exec value_texts_expected)

lemma tame_each: "(\<And>y. y \<in> set ys \<Longrightarrow> io_keeps I (f y)) \<Longrightarrow> io_keeps I (io_each f ys)"
  by (induction ys) (auto intro: io_rules)

lemma tame_reset_limit:
  assumes "sanitizes m" "ValidName role" "ValidName database"
  shows "io_keeps tame (reset_limit m role database k)"
proof -
  have "k \<in> set limit_keys" if "map_of (LimitSettings 0 0 (-1) 0) k \<noteq> None"
    using that by (auto simp: LimitSettings_def limit_keys_def split: if_splits)
  then show ?thesis unfolding reset_limit_def using assms by (auto intro!: io_rules tame_exec name_texts_expected)
qed

lemma tame_request:
  assumes "sanitizes m"
  shows "io_keeps tame (serve_request m q)"
proof -
  note m = name_texts_expected [OF assms] value_texts_expected [OF assms]
  have forget: "io_keeps tame f \<Longrightarrow> io_keeps tame (io_forget f)" for f :: "('a pg, 'b) io"
    unfolding io_forget_def by (intro io_rules)
  show ?thesis
  proof (cases q)
    case (DoApplyLimits role ws limit)
    have "io_keeps tame (Management_ApplyLimits m role ws limit)"
      unfolding Management_ApplyLimits_def
      by (intro io_rules tame_on_server tame_each tame_set_limit [OF assms] tame_exec m) (auto simp: not_less)
    then show ?thesis by (simp add: DoApplyLimits forget)
  next
    case (DoDropProject database role)
    have "io_keeps tame (Management_DropProject m database role)"
      unfolding Management_DropProject_def case_prod_beta by (intro tame_rules m) (auto simp: fixed_members)
    then show ?thesis by (simp add: DoDropProject forget)
  next
    case (DoEnsureRole name password limit)
    have "io_keeps tame (Management_EnsureRole m name password limit)"
      unfolding Management_EnsureRole_def case_prod_beta by (intro tame_rules m) (auto simp: fixed_members not_less)
    then show ?thesis by (simp add: DoEnsureRole forget)
  next
    case (DoEnsureDatabase name owner)
    have "io_keeps tame (Management_EnsureDatabase m name owner)"
      unfolding Management_EnsureDatabase_def Let_def by (intro tame_rules m) (auto simp: fixed_members)
    then show ?thesis by (simp add: DoEnsureDatabase forget)
  next
    case (DoResetDatabaseLimits role database ks)
    have "io_keeps tame (Management_ResetDatabaseLimits m role database ks)"
      unfolding Management_ResetDatabaseLimits_def by (intro io_rules tame_reset_limit [OF assms]) auto
    then show ?thesis by (simp add: DoResetDatabaseLimits forget)
  next
    case (DoSetWritesFrozen database role frozen)
    have "io_keeps tame (Management_SetWritesFrozen m database role frozen)"
      unfolding Management_SetWritesFrozen_def Management_TerminateSessions_def by (intro tame_rules m) auto
    then show ?thesis by (simp add: DoSetWritesFrozen forget)
  next
    case (DoSetPassword role password)
    have "io_keeps tame (Management_SetPassword m role password)"
      unfolding Management_SetPassword_def by (intro tame_rules m) auto
    then show ?thesis by (simp add: DoSetPassword forget)
  qed (simp_all add: Management_Connect_def Management_DatabaseSize_def Management_RoleStates_def Management_ConnectionBudget_def
      Management_TerminateSessions_def Management_Connections_def Management_HBAFileErrors_def Management_Reload_def Let_def case_prod_beta
      forget tame_rules tame_on_server tame_confirm)
qed

text \<open>
  One statement: nothing is left open, and outside the quotes stands no semicolon, no sign that starts a
  comment and no backslash.
\<close>

definition calm :: "char \<Rightarrow> bool" where
  "calm c \<longleftrightarrow> c \<noteq> CHR '';'' \<and> c \<noteq> CHR ''-'' \<and> c \<noteq> CHR ''/'' \<and> c \<noteq> CHR 0x5C"

fun one_statement :: "statement \<Rightarrow> bool" where
  "one_statement (Sent sql args) = (case skeleton Outside sql of None \<Rightarrow> False | Some s \<Rightarrow> list_all calm s)"
| "one_statement _ = True"

lemma decimal_calm: "1 \<le> n \<Longrightarrow> list_all calm (decimal n)"
  using dec_digits [of "nat n"] by (auto simp: decimal_def list_all_iff calm_def is_digit_def)

lemma skeletons_calm: "s \<in> set skeletons \<Longrightarrow> list_all calm s"
  by (auto simp: skeletons_def limit_keys_def name_mark_def value_mark_def calm_def decimal_calm)

lemma fixed_calm: "sql \<in> set fixed_texts \<Longrightarrow> one_statement (Sent sql args)"
  unfolding fixed_texts_def list.set
  by (elim insertE; simp add: size_query_def role_query_def states_query_def settings_query_def use_query_def other_query_def owner_query_def
    terminate_query_def ownership_query_def end_query_def connections_query_def problems_query_def load_time_query_def reload_query_def
    literal_def indent_def calm_def)

lemma expected_single:
  assumes "expected st"
  shows "one_statement st"
proof (cases st)
  case (Sent sql args)
  then have "sql \<in> set fixed_texts \<or> (\<exists>s \<in> set skeletons. skeleton Outside sql = Some s)"
    using assms by (auto simp: expected_text_def)
  then show ?thesis using fixed_calm [of sql args] skeletons_calm by (auto simp: Sent)
qed simp_all

lemma tame_requests: "sanitizes m \<Longrightarrow> io_keeps tame (io_each (serve_request m) qs)"
  by (intro io_rules tame_request)

text \<open>
  C8. No injection. Whatever names, passwords, settings and limits the callers pass and whatever the server
  answers, every text the management connection sends over any series of operations is one of the fixed
  queries or one of the listed statements with nothing but letters, digits, underscores and hyphens between
  the quotes; so it is one statement, closed, without a comment.
\<close>

theorem statements_are_ours:
  assumes "sanitizes m" "sent s = []"
  shows "list_all (\<lambda>st. expected st \<and> one_statement st) (sent (snd (io_each (serve_request m) qs s)))"
proof -
  have "tame (snd (io_each (serve_request m) qs s))"
    using tame_requests [OF assms(1)] assms(2) by (simp add: io_keeps_def tame_def)
  then show ?thesis unfolding tame_def by (simp add: list_all_iff expected_single)
qed

section \<open>Dropping a project\<close>

definition drop_plan :: "'x Management \<Rightarrow> string \<Rightarrow> string \<Rightarrow> bool \<times> bool \<Rightarrow> statement list" where
  "drop_plan m database role answer =
     [Sent ownership_query [role, database]] @
     (if fst answer then [Sent (nologin_text m role) []] else []) @ [Sent end_query [role]] @
     (if snd answer then [Sent (drop_database_text m database) []] else []) @
     (if fst answer then [Sent (drop_role_text m role) []] else [])"

text \<open>What the server says of the role and the database; without a readable answer, neither is ours.\<close>

definition asked :: "'x Management \<Rightarrow> string \<Rightarrow> string \<Rightarrow> 'x \<Rightarrow> bool \<times> bool" where
  "asked m database role x = (case Pool_Query (Management_Pool m) ownership_query [role, database] x of
     (Inr (row # _), _) \<Rightarrow> (case ownership_row row of None \<Rightarrow> (False, False) | Some p \<Rightarrow> p)
   | _ \<Rightarrow> (False, False))"

text \<open>\<open>follows plan m\<close>: what \<open>m\<close> sends is a beginning of the plan, the whole plan when it succeeds.\<close>

definition follows :: "statement list \<Rightarrow> ('x pg, unit) io \<Rightarrow> 'x pg \<Rightarrow> bool" where
  "follows plan m s \<longleftrightarrow> (case m s of (r, s') \<Rightarrow>
     (\<exists>done. sent s' = rev done @ sent s \<and> prefix done plan \<and> (r = Inr () \<longrightarrow> done = plan)))"

lemma follows_bind:
  assumes "follows p m s" "\<And>s'. m s = (Inr (), s') \<Longrightarrow> follows q (f ()) s'"
  shows "follows (p @ q) (io_bind m f) s"
proof -
  obtain r s1 where m: "m s = (r, s1)" by (metis surj_pair)
  with assms(1) obtain d1 where d1: "sent s1 = rev d1 @ sent s" "prefix d1 p" "r = Inr () \<longrightarrow> d1 = p"
    by (auto simp: follows_def)
  show ?thesis
  proof (cases r)
    case (Inl e)
    then show ?thesis using m d1 by (auto simp: follows_def io_bind_def intro!: exI [of _ d1] prefix_append)
  next
    case (Inr u)
    then have "follows q (f ()) s1" using assms(2) m by simp
    then obtain r2 s2 d2 where "f () s1 = (r2, s2)" "sent s2 = rev d2 @ sent s1" "prefix d2 q" "r2 = Inr () \<longrightarrow> d2 = q"
      by (auto simp: follows_def split: prod.splits)
    then show ?thesis using m d1 Inr by (auto simp: follows_def io_bind_def intro!: exI [of _ "d1 @ d2"])
  qed
qed

lemmas follows_bind_one = follows_bind [of "[st]" for st, simplified]

lemma follows_ret: "follows [] (io_ret ()) s"
  by (simp add: follows_def io_ret_def)

lemma follows_wrapped: "follows [Sent sql args] (wrapped m what (pg_exec m sql args)) s"
  by (auto simp: follows_def wrapped_def pg_exec_def on_server_def io_bind_def io_attempt_def io_ret_def io_throw_def
      split: prod.splits sum.splits)

lemma follows_if: "follows p m s \<Longrightarrow> follows (if c then p else []) (if c then m else io_ret ()) s"
  by (simp add: follows_ret)

lemma follows_throw: "follows plan (io_throw e) s"
  by (simp add: follows_def io_throw_def)

lemma drop_follows: "follows (drop_plan m database role (asked m database role (server s))) (Management_DropProject m database role) s"
proof (cases "ValidName database \<and> ValidName role")
  case True
  let ?rest = "\<lambda>p. io_bind (if fst p then wrapped m ''logins could not be disabled'' (pg_exec m (nologin_text m role) []) else io_ret ()) (\<lambda>_.
        io_bind (wrapped m ''sessions could not be ended'' (pg_exec m end_query [role])) (\<lambda>_.
        io_bind (if snd p then wrapped m ''the database could not be dropped'' (pg_exec m (drop_database_text m database) []) else io_ret ()) (\<lambda>_.
        if fst p then wrapped m ''the database user could not be dropped'' (pg_exec m (drop_role_text m role) []) else io_ret ())))"
  have rest: "follows (tl (drop_plan m database role p)) (?rest p) s'" for p s'
    unfolding drop_plan_def append_Cons append_Nil list.sel
    by (intro follows_bind follows_bind_one follows_if follows_wrapped)
  obtain r x where q: "Pool_Query (Management_Pool m) ownership_query [role, database] (server s) = (r, x)" by (metis surj_pair)
  let ?s1 = "s\<lparr>server := x, sent := Sent ownership_query [role, database] # sent s\<rparr>"
  have hd_plan: "drop_plan m database role p = Sent ownership_query [role, database] # tl (drop_plan m database role p)" for p
    by (simp add: drop_plan_def)
  have begun: "\<exists>done. sent ?s1 = rev done @ sent s \<and> prefix done (drop_plan m database role p)" for p
    by (rule exI [of _ "[Sent ownership_query [role, database]]"]) (simp add: drop_plan_def)
  have drop: "Management_DropProject m database role = io_bind (pg_row m ownership_row ownership_query [role, database]) ?rest"
    using True unfolding Management_DropProject_def case_prod_beta by simp
  show ?thesis
  proof (cases "\<exists>row rows p. r = Inr (row # rows) \<and> ownership_row row = Some p")
    case True
    then obtain row rows p where r: "r = Inr (row # rows)" "ownership_row row = Some p" by blast
    then have p: "asked m database role (server s) = p" by (simp add: asked_def q)
    have run: "Management_DropProject m database role s = ?rest p ?s1"
      unfolding drop using r q by (simp add: io_bind_def pg_row_def pg_query_def on_server_def scan_def io_ret_def)
    obtain r2 s2 d2 where "?rest p ?s1 = (r2, s2)" "sent s2 = rev d2 @ sent ?s1" "prefix d2 (tl (drop_plan m database role p))"
      "r2 = Inr () \<longrightarrow> d2 = tl (drop_plan m database role p)"
      using rest [of p ?s1] by (auto simp: follows_def split: prod.splits)
    then show ?thesis
      unfolding follows_def run p
      by (subst (1 2) hd_plan) (auto intro!: exI [of _ "Sent ownership_query [role, database] # d2"])
  next
    case False
    have "\<exists>e. Management_DropProject m database role s = (Inl e, ?s1)"
      unfolding drop using False q
      by (cases r) (auto simp: io_bind_def pg_row_def pg_query_def on_server_def scan_def io_throw_def split: list.splits option.splits)
    then show ?thesis using begun [of "asked m database role (server s)"] by (auto simp: follows_def)
  qed
next
  case False
  then have "Management_DropProject m database role = io_throw (EMsg ''invalid project identity'')"
    by (auto simp: Management_DropProject_def)
  then show ?thesis by (simp add: follows_throw)
qed

text \<open>
  C19. What a deletion does to PostgreSQL. Dropping a project asks first whether the role and the database are this
  installation's, and then does, in this order and stopping at the first failure: disable logins if the role is
  ours, end the sessions of the role, drop the database if the role owns it, drop the role if it is ours. It
  reports success only when all of it was done, and never drops a role or a database the server did not
  confirm as ours.
\<close>

theorem drop_only_ours:
  "case Management_DropProject m database role s of (r, s') \<Rightarrow>
     \<exists>done. sent s' = rev done @ sent s \<and> prefix done (drop_plan m database role (asked m database role (server s))) \<and>
       (r = Inr () \<longrightarrow> done = drop_plan m database role (asked m database role (server s)))"
  using drop_follows unfolding follows_def .

section \<open>Connection budget\<close>

lemma fold_count_use:
  "Budget_Roles (fold count_use us b) = Budget_Roles b @ filter (\<lambda>u. ValidName (RoleUse_Role u)) us"
  "Budget_System (fold count_use us b) = Budget_System b @ filter (\<lambda>u. \<not> ValidName (RoleUse_Role u)) us"
  "Budget_ProjectsUsed (fold count_use us b) = Budget_ProjectsUsed b + sum_list (map RoleUse_Connections (filter (\<lambda>u. ValidName (RoleUse_Role u)) us))"
  "Budget_ProjectsLimit (fold count_use us b) = Budget_ProjectsLimit b +
     sum_list (map (\<lambda>u. max 0 (RoleUse_Limit u)) (filter (\<lambda>u. ValidName (RoleUse_Role u)) us))"
  "Budget_MaxConnections (fold count_use us b) = Budget_MaxConnections b"
  "Budget_SuperuserReserved (fold count_use us b) = Budget_SuperuserReserved b"
  "Budget_Reserved (fold count_use us b) = Budget_Reserved b"
  "Budget_Available (fold count_use us b) = Budget_Available b"
  by (induction us arbitrary: b) (simp_all add: count_use_def)

definition budget_ok :: "Budget \<Rightarrow> bool" where
  "budget_ok b \<longleftrightarrow>
     Budget_Available b = Budget_MaxConnections b - Budget_SuperuserReserved b - Budget_Reserved b \<and>
     list_all (\<lambda>u. ValidName (RoleUse_Role u)) (Budget_Roles b) \<and>
     \<not> list_ex (\<lambda>u. ValidName (RoleUse_Role u)) (Budget_System b) \<and>
     Budget_ProjectsUsed b = sum_list (map RoleUse_Connections (Budget_Roles b)) \<and>
     Budget_ProjectsLimit b = sum_list (map (\<lambda>u. max 0 (RoleUse_Limit u)) (Budget_Roles b))"


section \<open>Limits read back\<close>

text \<open>What PostgreSQL keeps of \<^verbatim>\<open>ALTER ROLE ... SET\<close>: a text with an equals sign for each setting.\<close>

definition kept_settings :: "Limits \<Rightarrow> string list" where
  "kept_settings l = map (\<lambda>(k, v). k @ ''='' @ v) (wanted l)"

lemma cut_setting:
  assumes "CHR ''='' \<notin> set k"
  shows "cut (k @ ''='' @ v) = Some (k, v)"
proof -
  have "dropWhile (\<lambda>c. c \<noteq> CHR ''='') (k @ CHR ''='' # v) = CHR ''='' # v" "takeWhile (\<lambda>c. c \<noteq> CHR ''='') (k @ CHR ''='' # v) = k"
    using assms by (induction k) auto
  then show ?thesis by (simp add: cut_def)
qed

lemma length_dec: "n < 10 ^ Suc w \<Longrightarrow> length (dec n) \<le> Suc w"
proof (induction w arbitrary: n)
  case (Suc w)
  have "n div 10 < 10 ^ Suc w" using Suc.prems by (simp add: less_mult_imp_div_less)
  then show ?case using Suc.IH [of "n div 10"] by (subst dec.simps) simp
qed (subst dec.simps, simp)

lemma dec_nonempty: "dec n \<noteq> []"
  by (subst dec.simps) simp

lemma digits_setting:
  assumes "0 \<le> n" "n < 10000000000" "u = ''ms'' \<or> u = ''kB''"
  shows "settingValue (decimal n @ u)"
proof -
  have d: "list_all is_digit (decimal n)" "decimal n \<noteq> []" "length (decimal n) \<le> 10"
    using assms(1,2) dec_digits dec_nonempty length_dec [of "nat n" 9] by (simp_all add: decimal_def)
  have "\<not> is_digit (hd u)" "u \<noteq> []" using assms(3) by (auto simp: is_digit_def)
  then have "takeWhile is_digit (decimal n @ u) = decimal n" "dropWhile is_digit (decimal n @ u) = u"
    using d(1) by (cases u; simp add: takeWhile_append2 dropWhile_append2 list_all_iff)+
  then show ?thesis using d(2,3) assms(3) by (auto simp: settingValue_def Let_def Suc_le_eq)
qed

lemma wanted_accepted:
  assumes "Validate_limits l = Inr ()"
  shows "(k, v) \<in> set (wanted l) \<Longrightarrow> settingValue v" "1 \<le> ConnectionLimit l" "ConnectionLimit l \<le> 100"
proof -
  have t: "timeout name n = None \<Longrightarrow> 0 \<le> n \<and> n < 10000000000" for name n
    by (auto simp: timeout_def split: if_splits)
  have parts: "0 \<le> StatementTimeoutMS l \<and> StatementTimeoutMS l < 10000000000" "0 \<le> IdleInTransactionMS l \<and> IdleInTransactionMS l < 10000000000"
    "0 \<le> LockTimeoutMS l \<and> LockTimeoutMS l < 10000000000" "TempFileLimitKB l = -1 \<or> (0 \<le> TempFileLimitKB l \<and> TempFileLimitKB l < 10000000000)"
    "1 \<le> ConnectionLimit l" "ConnectionLimit l \<le> 100"
    using assms t by (auto simp: Validate_limits_def not_less split: option.splits if_splits)
  show "(k, v) \<in> set (wanted l) \<Longrightarrow> settingValue v"
    using parts digits_setting by (auto simp: wanted_def LimitSettings_def settingValue_def split: if_splits)
  show "1 \<le> ConnectionLimit l" "ConnectionLimit l \<le> 100" by (fact parts)+
qed

lemma cut_settings: "list_all (\<lambda>(k, v). CHR ''='' \<notin> set k) kvs \<Longrightarrow> List.map_filter cut (map (\<lambda>(k, v). k @ ''='' @ v) kvs) = kvs"
  by (induction kvs) (auto simp: cut_setting List.map_filter_simps simp del: append_Cons)

lemma settingsMap_kept: "settingsMap (kept_settings l) = map_of (wanted l)"
proof -
  have "list_all (\<lambda>(k, v). CHR ''='' \<notin> set k) (wanted l)" "distinct (map fst (wanted l))"
    by (simp_all add: wanted_def LimitSettings_def)
  moreover have "map_of (rev kvs) = map_of kvs" if "distinct (map fst kvs)" for kvs :: "(string \<times> string) list"
    by (rule ext) (metis that distinct_rev map_of_eq_Some_iff option.exhaust rev_map set_rev)
  ultimately show ?thesis by (simp add: settingsMap_def kept_settings_def cut_settings del: append_Cons)
qed

text \<open>A pool whose calls succeed.\<close>

definition working :: "'x Pool \<Rightarrow> bool" where
  "working p \<longleftrightarrow> (\<forall>sql args x. fst (Pool_Exec p sql args x) = Inr ()) \<and> (\<forall>x. fst (Pool_Begin p x) = Inr ()) \<and>
     (\<forall>x. fst (Pool_Commit p x) = Inr ())"

lemma working_exec: "working (Management_Pool m) \<Longrightarrow> fst (pg_exec m sql args s) = Inr ()"
  by (simp add: working_def pg_exec_def on_server_def split: prod.split) (metis fst_conv)

lemma io_bind_ok: "fst (m s) = Inr () \<Longrightarrow> (\<And>s'. fst (f () s') = Inr ()) \<Longrightarrow> fst (io_bind m f s) = Inr ()"
  by (auto simp: io_bind_def split: prod.splits sum.splits)

lemma io_attempt_ok: "fst (m s) = Inr () \<Longrightarrow> (\<And>s'. fst (f (Inr ()) s') = Inr ()) \<Longrightarrow> fst (io_bind (io_attempt m) f s) = Inr ()"
  by (auto simp: io_bind_def io_attempt_def split: prod.splits)

lemma io_each_ok: "(\<And>y s. y \<in> set ys \<Longrightarrow> fst (f y s) = Inr ()) \<Longrightarrow> fst (io_each f ys s) = Inr ()"
  by (induction ys arbitrary: s) (auto intro!: io_bind_ok simp: io_ret_def)

lemma set_limit_ok:
  assumes "working (Management_Pool m)" "Validate_limits l = Inr ()" "k \<in> set limit_keys"
  shows "fst (set_limit m role (wanted l) k s) = Inr ()"
proof -
  obtain v where "map_of (wanted l) k = Some v"
    using assms(3) by (auto simp: limit_keys_def wanted_def LimitSettings_def)
  then show ?thesis
    using wanted_accepted(1) [OF assms(2) map_of_SomeD, of k v] working_exec [OF assms(1)] by (simp add: set_limit_def)
qed


section \<open>A trial\<close>

text \<open>A server that executes everything, answers a query with the rows \<open>answer\<close> has for it and counts the calls.\<close>

definition trial_pool :: "(string \<Rightarrow> cell list list) \<Rightarrow> nat Pool" where
  "trial_pool answer = \<lparr>Pool_Exec = (\<lambda>_ _ x. (Inr (), Suc x)), Pool_Query = (\<lambda>sql _ x. (Inr (answer sql), Suc x)), Pool_Begin = (\<lambda>x. (Inr (), x)),
     Pool_Commit = (\<lambda>x. (Inr (), x)), Pool_Rollback = (\<lambda>x. (Inr (), x)), Pool_Connect = (\<lambda>_ _ x. (Inr (), x)),
     Pool_Sanitize = (\<lambda>s. [CHR 0x22] @ s @ [CHR 0x22]), Pool_Error = (\<lambda>_. ''failed''), Pool_Ended = (\<lambda>x. (False, x))\<rparr>"

definition trial_management :: "(string \<Rightarrow> cell list list) \<Rightarrow> nat Management" where
  "trial_management answer = \<lparr>Management_Pool = trial_pool answer, Management_Password = ''secret''\<rparr>"

definition trial_server :: "nat pg" where
  "trial_server = \<lparr>server = 0, sent = []\<rparr>"

definition shop_name :: string where "shop_name = ''app_00000000000a''"

lemma trial_fits: "sanitizes (trial_management answer)" "working (Management_Pool (trial_management answer))"
  by (simp_all add: sanitizes_def Identifier_def working_def trial_management_def trial_pool_def)

text \<open>An attempt to smuggle a second statement in is refused; what follows is carried out.\<close>

definition trial_requests :: "request list" where
  "trial_requests = [DoSetPassword shop_name (literal ''; DROP ROLE x; --''), DoSetWritesFrozen shop_name shop_name True]"

theorem statements_are_ours_witness:
  "let stmts = sent (snd (io_each (serve_request (trial_management (\<lambda>_. []))) trial_requests trial_server)) in
     length stmts = 2 \<and> list_all (\<lambda>st. expected st \<and> one_statement st) stmts"
proof -
  have "length (sent (snd (io_each (serve_request (trial_management (\<lambda>_. []))) trial_requests trial_server))) = 2" by code_simp
  then show ?thesis
    using statements_are_ours [OF trial_fits(1), of trial_server "\<lambda>_. []" trial_requests] by (simp add: Let_def trial_server_def)
qed

theorem drop_only_ours_witness:
  "let m = trial_management (\<lambda>_. [[VBool True, VBool False]]); (r, s') = Management_DropProject m shop_name shop_name trial_server in
     r = Inr () \<and> sent s' = rev (drop_plan m shop_name shop_name (True, False))"
proof -
  let ?m = "trial_management (\<lambda>_. [[VBool True, VBool False]])"
  have r: "fst (Management_DropProject ?m shop_name shop_name trial_server) = Inr ()" by code_simp
  have asked: "asked ?m shop_name shop_name (server trial_server) = (True, False)"
    by (simp add: asked_def trial_management_def trial_pool_def)
  show ?thesis
    using drop_only_ours [where m = ?m and s = trial_server and database = shop_name and role = shop_name] r unfolding asked
    by (auto simp: Let_def trial_server_def split: prod.splits)
qed

definition trial_uses :: "string \<Rightarrow> cell list list" where
  "trial_uses sql = (if sql = settings_query then [[VInt 100, VInt 3, VInt 0]]
     else if sql = use_query then [[VText shop_name, VInt 10, VInt 4], [VText ''pgfy_mgmt'', VInt (-1), VInt 1]]
     else [[VInt 2]])"


definition trial_limits :: Limits where
  "trial_limits = \<lparr>StatementTimeoutMS = 30000, IdleInTransactionMS = 60000, TempFileLimitKB = -1, LockTimeoutMS = 0, ConnectionLimit = 20\<rparr>"


end
