(* ===== verification/Secrets.thy ===== *)
theory Secrets
  imports Storage_Layout
begin

text \<open>
  The secrets of \<^verbatim>\<open>internal/security/security.go\<close>: random tokens, password hashes, sealed values and the
  token against cross-site requests. Argon2 is third-party code and the cipher is a value with two
  operations; both are parameters, as are the random bytes.
\<close>

section \<open>Runes\<close>

text \<open>
  UTF-8 as \<^verbatim>\<open>range\<close> over a string and \<^verbatim>\<open>utf8.RuneCountInString\<close> read it: the rune at the head and how many
  bytes it takes. A byte that starts no valid sequence is the replacement character, one byte wide.
\<close>

definition byte_in :: "nat \<Rightarrow> nat \<Rightarrow> nat \<Rightarrow> bool" where
  "byte_in lo hi b \<longleftrightarrow> lo \<le> b \<and> b \<le> hi"

definition second_byte :: "nat \<Rightarrow> nat \<Rightarrow> bool" where
  "second_byte b0 b1 =
     (if b0 = 0xE0 then byte_in 0xA0 0xBF b1 else if b0 = 0xED then byte_in 0x80 0x9F b1
      else if b0 = 0xF0 then byte_in 0x90 0xBF b1 else if b0 = 0xF4 then byte_in 0x80 0x8F b1
      else byte_in 0x80 0xBF b1)"

definition decode_rune :: "nat list \<Rightarrow> nat \<times> nat" where
  "decode_rune bs = (case bs of
     [] \<Rightarrow> (0xFFFD, 0)
   | b0 # rest \<Rightarrow>
       if b0 < 0x80 then (b0, 1)
       else if byte_in 0xC2 0xDF b0 then
         (case rest of b1 # _ \<Rightarrow> if second_byte b0 b1 then ((b0 mod 32) * 64 + b1 mod 64, 2) else (0xFFFD, 1)
          | _ \<Rightarrow> (0xFFFD, 1))
       else if byte_in 0xE0 0xEF b0 then
         (case rest of b1 # b2 # _ \<Rightarrow> if second_byte b0 b1 \<and> byte_in 0x80 0xBF b2
            then (((b0 mod 16) * 64 + b1 mod 64) * 64 + b2 mod 64, 3) else (0xFFFD, 1)
          | _ \<Rightarrow> (0xFFFD, 1))
       else if byte_in 0xF0 0xF4 b0 then
         (case rest of b1 # b2 # b3 # _ \<Rightarrow> if second_byte b0 b1 \<and> byte_in 0x80 0xBF b2 \<and> byte_in 0x80 0xBF b3
            then ((((b0 mod 8) * 64 + b1 mod 64) * 64 + b2 mod 64) * 64 + b3 mod 64, 4) else (0xFFFD, 1)
          | _ \<Rightarrow> (0xFFFD, 1))
       else (0xFFFD, 1))"

fun runes_from :: "nat list \<Rightarrow> nat list" where
  "runes_from [] = []"
| "runes_from (b # bs) = (case decode_rune (b # bs) of (r, width) \<Rightarrow> r # runes_from (drop (width - 1) bs))"

definition runes :: "string \<Rightarrow> nat list" where
  "runes s = runes_from (map of_char s)"

section \<open>Base64\<close>

text \<open>
  The two alphabets of \<^verbatim>\<open>encoding/base64\<close> without padding. The decoder skips line breaks and ignores the
  spare bits of the last character.
\<close>

definition letters :: string where
  "letters = ''ABCDEFGHIJKLMNOPQRSTUVWXYZabcdefghijklmnopqrstuvwxyz0123456789''"

definition RawStd :: string where "RawStd = letters @ ''+/''"
definition RawURL :: string where "RawURL = letters @ ''-_''"

definition bit_string :: "byte list \<Rightarrow> bool list" where
  "bit_string bs = concat (map (\<lambda>b. bits_of 8 (unat b)) bs)"

definition EncodeToString :: "string \<Rightarrow> byte list \<Rightarrow> string" where
  "EncodeToString alphabet bs = map (\<lambda>g. alphabet ! of_bits (g @ replicate (6 - length g) False)) (chunks 6 (bit_string bs))"

fun positions :: "string \<Rightarrow> string \<Rightarrow> nat list option" where
  "positions alphabet [] = Some []"
| "positions alphabet (c # s) =
     (if c \<in> set alphabet then map_option (Cons (length (takeWhile (\<lambda>x. x \<noteq> c) alphabet))) (positions alphabet s) else None)"

definition DecodeString :: "string \<Rightarrow> string \<Rightarrow> byte list option" where
  "DecodeString alphabet s =
     (let s = filter (\<lambda>c. c \<noteq> CHR 0x0A \<and> c \<noteq> CHR 0x0D) s in
      if length s mod 4 = 1 then None
      else map_option (\<lambda>vs. let bits = concat (map (bits_of 6) vs) in
             map (\<lambda>g. word_of_nat (of_bits g)) (chunks 8 (take (8 * (length bits div 8)) bits)))
           (positions alphabet s))"

section \<open>Tokens and passwords\<close>

definition Token_of :: "byte list \<Rightarrow> string" where
  "Token_of drawn = EncodeToString RawURL drawn"

text \<open>\<^verbatim>\<open>argon2.IDKey\<close> with the bounded parameters of this program: password and salt to 32 bytes.\<close>

type_synonym kdf = "byte list \<Rightarrow> byte list \<Rightarrow> byte list"

definition argon_prefix :: string where
  "argon_prefix = ''$argon2id$v=19$m=65536,t=3,p=1$''"

definition Password :: "kdf \<Rightarrow> byte list \<Rightarrow> string \<Rightarrow> err + string" where
  "Password argon2 salt password =
     (if length (runes password) < 15 \<or> length password > 256 then
        Inl (EMsg ''password must contain at least 15 characters and at most 256 UTF-8 bytes'')
      else Inr (argon_prefix @ EncodeToString RawStd salt @ ''$'' @ EncodeToString RawStd (argon2 (bytes password) salt)))"

definition VerifyPassword :: "kdf \<Rightarrow> string \<Rightarrow> string \<Rightarrow> bool" where
  "VerifyPassword argon2 encoded password =
     (let parts = split_at (CHR ''$'') encoded in
      if length parts \<noteq> 6 \<or> parts ! 1 \<noteq> ''argon2id'' \<or> parts ! 2 \<noteq> ''v=19'' \<or> parts ! 3 \<noteq> ''m=65536,t=3,p=1'' \<or>
         length password > 256 then False
      else case DecodeString RawStd (parts ! 4) of
        None \<Rightarrow> False
      | Some salt \<Rightarrow>
          if length salt \<noteq> 16 then False
          else case DecodeString RawStd (parts ! 5) of
            None \<Rightarrow> False
          | Some want \<Rightarrow> if length want \<noteq> 32 then False else want = argon2 (bytes password) salt)"

section \<open>Sealed values\<close>

record aead =
  NonceSize :: nat
  aead_Seal :: "byte list \<Rightarrow> byte list \<Rightarrow> byte list \<Rightarrow> byte list"
  aead_Open :: "byte list \<Rightarrow> byte list \<Rightarrow> byte list \<Rightarrow> byte list option"

text \<open>The cipher of an installation and its key.\<close>

record Vault =
  vault_aead :: aead
  vault_key :: "byte list"

definition NewVault :: "(byte list \<Rightarrow> aead) \<Rightarrow> byte list \<Rightarrow> err + Vault" where
  "NewVault gcm k = (if length k \<noteq> 32 then Inl (EMsg ''installation key must contain 32 bytes'')
     else Inr \<lparr>vault_aead = gcm k, vault_key = k\<rparr>)"

definition seal_label :: "string \<Rightarrow> byte list" where
  "seal_label context = bytes (''pgfy:v1:'' @ context)"

definition Vault_Seal :: "Vault \<Rightarrow> byte list \<Rightarrow> string \<Rightarrow> byte list \<Rightarrow> string" where
  "Vault_Seal v nonce context clear =
     ''v1:'' @ EncodeToString RawURL (nonce @ aead_Seal (vault_aead v) nonce clear (seal_label context))"

definition Vault_Unseal :: "Vault \<Rightarrow> string \<Rightarrow> string \<Rightarrow> err + byte list" where
  "Vault_Unseal v context encoded =
     (if \<not> has_prefix encoded ''v1:'' then Inl (EMsg ''unsupported secret version'')
      else case DecodeString RawURL (drop 3 encoded) of
        None \<Rightarrow> Inl (EMsg ''invalid encrypted secret'')
      | Some b \<Rightarrow>
          let n = NonceSize (vault_aead v) in
          if length b < n then Inl (EMsg ''invalid encrypted secret'')
          else case aead_Open (vault_aead v) (take n b) (drop n b) (seal_label context) of
            None \<Rightarrow> Inl (EExternal ''cipher: message authentication failed'')
          | Some clear \<Rightarrow> Inr clear)"

definition CSRF :: "Vault \<Rightarrow> string \<Rightarrow> string \<Rightarrow> string" where
  "CSRF v session scope = EncodeToString RawURL (hmac sha256 (vault_key v) (bytes (''csrf:'' @ scope @ '':'' @ session)))"

section \<open>Lemmas\<close>

lemma length_bits_of [simp]: "length (bits_of w n) = w"
  by (simp add: bits_of_def)

lemma of_bits_snoc: "of_bits (bs @ [b]) = 2 * of_bits bs + of_bool b"
  by (simp add: of_bits_def)

lemma bits_of_Suc: "bits_of (Suc w) n = bits_of w (n div 2) @ [odd n]"
  by (simp add: bits_of_def upt_rec [of 0] map_Suc_upt [symmetric] rev_map o_def div_mult2_eq del: upt_Suc)

lemma of_bits_bits_of: "n < 2 ^ w \<Longrightarrow> of_bits (bits_of w n) = n"
proof (induction w arbitrary: n)
  case 0
  then show ?case by (simp add: bits_of_def of_bits_def)
next
  case (Suc w)
  then have "of_bits (bits_of w (n div 2)) = n div 2" by (simp add: less_mult_imp_div_less)
  then show ?case by (simp add: bits_of_Suc of_bits_snoc)
qed

lemma bits_of_of_bits: "length bs = w \<Longrightarrow> bits_of w (of_bits bs) = bs"
proof (induction bs arbitrary: w rule: rev_induct)
  case Nil
  then show ?case by (simp add: bits_of_def)
next
  case (snoc b bs)
  then show ?case by (auto simp: of_bits_snoc bits_of_Suc)
qed

lemma of_bits_less: "of_bits bs < 2 ^ length bs"
  by (induction bs rule: rev_induct) (auto simp: of_bits_snoc of_bits_def)

subsection \<open>Base64 round trip\<close>

lemma chunks_step: "0 < n \<Longrightarrow> xs \<noteq> [] \<Longrightarrow> chunks n xs = take n xs # chunks n (drop n xs)"
  by (simp add: chunks.simps [of n xs])

lemma chunks_Nil [simp]: "chunks n [] = []"
  by (simp add: chunks.simps)

lemma chunks_concat:
  assumes "0 < n" "\<And>x. x \<in> set xs \<Longrightarrow> length x = n"
  shows "chunks n (concat xs) = xs"
  using assms(2)
proof (induction xs)
  case (Cons x xs)
  then have "x \<noteq> []" "length x = n" using assms(1) by auto
  then show ?case using assms(1) Cons by (simp add: chunks_step)
qed simp

lemma length_chunk: "g \<in> set (chunks n xs) \<Longrightarrow> length g \<le> n"
  by (induction n xs rule: chunks.induct) (subst (asm) (2) chunks.simps, auto split: if_splits)

text \<open>The groups, each filled up to \<open>n\<close>, are the list and its padding; how many there are.\<close>

definition filled :: "nat \<Rightarrow> bool list \<Rightarrow> bool list" where
  "filled n g = g @ replicate (n - length g) False"

lemma concat_filled: "concat (map (filled 6) (chunks 6 xs)) = xs @ replicate ((6 - length xs mod 6) mod 6) False"
proof (induction "length xs" arbitrary: xs rule: less_induct)
  case less
  show ?case
  proof (cases "length xs \<le> 6")
    case True
    then consider "xs = []" | "xs \<noteq> []" "length xs = 6" | "xs \<noteq> []" "length xs < 6" by fastforce
    then show ?thesis by cases (simp_all add: chunks_step filled_def)
  next
    case False
    then have "xs \<noteq> []" "length (drop 6 xs) < length xs" by auto
    moreover have "length (drop 6 xs) mod 6 = length xs mod 6" using False by (simp add: le_mod_geq)
    ultimately show ?thesis
      using less [of "drop 6 xs"] False by (simp add: chunks_step filled_def append_assoc [symmetric] del: append_assoc)
  qed
qed

lemma length_chunks: "0 < n \<Longrightarrow> length (chunks n xs) = (length xs + n - 1) div n"
proof (induction "length xs" arbitrary: xs rule: less_induct)
  case less
  show ?case
  proof (cases "xs = []")
    case True
    then show ?thesis using less(2) by simp
  next
    case False
    then have "length (chunks n xs) = Suc ((length xs - n + n - 1) div n)"
      using less by (simp add: chunks_step)
    also have "(length xs - n + n - 1) div n = (length xs - 1) div n"
      using less(2) by (cases "length xs \<le> n") (auto simp: not_le)
    also have "Suc ((length xs - 1) div n) = (length xs - 1 + n) div n" using less(2) by (simp add: div_add_self2)
    also have "length xs - 1 + n = length xs + n - 1" using False by (cases xs) auto
    finally show ?thesis .
  qed
qed

lemma length_bit_string: "length (bit_string bs) = 8 * length bs"
  by (induction bs) (simp_all add: bit_string_def)

lemma length_EncodeToString: "length (EncodeToString a bs) = (8 * length bs + 5) div 6"
  by (simp add: EncodeToString_def length_chunks length_bit_string)

lemma positions_map:
  assumes "distinct a" "\<And>v. v \<in> set vs \<Longrightarrow> v < length a"
  shows "positions a (map ((!) a) vs) = Some vs"
  using assms(2)
proof (induction vs)
  case (Cons v vs)
  have "length (takeWhile (\<lambda>x. x \<noteq> a ! v) a) = v"
  proof -
    have "takeWhile (\<lambda>x. x \<noteq> a ! v) a = take v a"
      using assms(1) Cons.prems [of v] by (intro takeWhile_eq_take_P_nth) (auto simp: nth_eq_iff_index_eq)
    then show ?thesis using Cons.prems [of v] by simp
  qed
  then show ?case using Cons by simp
qed simp

definition alphabet :: "string \<Rightarrow> bool" where
  "alphabet a \<longleftrightarrow> distinct a \<and> length a = 64 \<and> CHR 0x0A \<notin> set a \<and> CHR 0x0D \<notin> set a"

lemma alphabets: "alphabet RawStd" "alphabet RawURL"
  by (simp_all add: alphabet_def RawStd_def RawURL_def letters_def)

lemma EncodeToString_set: "alphabet a \<Longrightarrow> set (EncodeToString a bs) \<subseteq> set a"
proof -
  assume a: "alphabet a"
  have "of_bits (g @ replicate (6 - length g) False) < 64" if "g \<in> set (chunks 6 (bit_string bs))" for g
    using of_bits_less [of "g @ replicate (6 - length g) False"] length_chunk [OF that] by simp
  then show ?thesis using a by (auto simp: EncodeToString_def alphabet_def intro!: nth_mem)
qed

lemma DecodeString_EncodeToString:
  assumes a: "alphabet a"
  shows "DecodeString a (EncodeToString a bs) = Some bs"
proof -
  define xs where "xs = bit_string bs"
  define vs where "vs = map (of_bits \<circ> filled 6) (chunks 6 xs)"
  define s where "s = EncodeToString a bs"
  have len: "length xs = 8 * length bs" by (simp add: xs_def length_bit_string)
  have six: "length (filled 6 g) = 6" if "g \<in> set (chunks 6 xs)" for g
    using length_chunk [OF that] by (simp add: filled_def)
  have s: "s = map ((!) a) vs" by (simp add: s_def EncodeToString_def vs_def xs_def filled_def)
  have "of_bits (filled 6 g) < 64" if "g \<in> set (chunks 6 xs)" for g
    using of_bits_less [of "filled 6 g"] six [OF that] by simp
  then have pos: "positions a s = Some vs"
    unfolding s using a by (intro positions_map) (auto simp: alphabet_def vs_def)
  have "set s \<subseteq> set a" unfolding s_def using a by (rule EncodeToString_set)
  then have plain: "filter (\<lambda>c. c \<noteq> CHR 0x0A \<and> c \<noteq> CHR 0x0D) s = s"
    using a by (intro filter_True) (auto simp: alphabet_def)
  have count: "length s mod 4 \<noteq> Suc 0" unfolding s_def length_EncodeToString by presburger
  have "concat (map (bits_of 6) vs) = concat (map (filled 6) (chunks 6 xs))"
    unfolding vs_def map_map by (intro arg_cong [where f = concat] map_cong) (simp_all add: six bits_of_of_bits)
  then have bits: "concat (map (bits_of 6) vs) = xs @ replicate ((6 - length xs mod 6) mod 6) False"
    by (simp add: concat_filled)
  have "(6 - length xs mod 6) mod 6 < 8" by (rule less_trans [OF mod_less_divisor]) simp_all
  then have "(length xs + (6 - length xs mod 6) mod 6) div 8 = length bs" unfolding len by simp
  then have "take (8 * (length (concat (map (bits_of 6) vs)) div 8)) (concat (map (bits_of 6) vs)) = xs"
    unfolding bits by (simp add: len)
  moreover have "chunks 8 xs = map (\<lambda>b. bits_of 8 (unat b)) bs"
    unfolding xs_def bit_string_def by (rule chunks_concat) auto
  moreover have "word_of_nat (of_bits (bits_of 8 (unat b))) = b" for b :: byte
    proof -
    have "unat b < 2 ^ 8" using unsigned_less [of b] by simp
    then show ?thesis by (simp add: of_bits_bits_of)
  qed
  ultimately show ?thesis
    unfolding DecodeString_def s_def [symmetric] by (simp add: Let_def plain count pos o_def)
qed

section \<open>Properties\<close>

lemma split_at_whole: "c \<notin> set s \<Longrightarrow> split_at c s = [s]"
  by (induction s) auto

lemma split_at_separator: "c \<notin> set s \<Longrightarrow> split_at c (s @ c # t) = s # split_at c t"
  by (induction s) auto

lemma encoded_no_dollar: "CHR ''$'' \<notin> set (EncodeToString RawStd bs)"
  using EncodeToString_set [OF alphabets(1), of bs] by (auto simp: RawStd_def letters_def)

lemma split_argon:
  assumes "CHR ''$'' \<notin> set a" "CHR ''$'' \<notin> set b"
  shows "split_at (CHR ''$'') (argon_prefix @ a @ ''$'' @ b) = [[], ''argon2id'', ''v=19'', ''m=65536,t=3,p=1'', a, b]"
  using split_at_separator [OF assms(1), of b] split_at_whole [OF assms(2)] by (simp add: argon_prefix_def)

text \<open>
  C39. A password is accepted exactly against its own hash: what \<^verbatim>\<open>Password\<close> stores for an accepted
  password verifies that password, and any other text only if Argon2 gives both the same 32 bytes.
\<close>

theorem password_round_trip:
  assumes "\<And>p s. length (argon2 p s) = 32" "length salt = 16" "Password argon2 salt password = Inr encoded"
    and "length other \<le> 256"
  shows "VerifyPassword argon2 encoded other \<longleftrightarrow> argon2 (bytes other) salt = argon2 (bytes password) salt"
proof -
  have "encoded = argon_prefix @ EncodeToString RawStd salt @ ''$'' @ EncodeToString RawStd (argon2 (bytes password) salt)"
    using assms(3) by (simp add: Password_def split: if_splits)
  then have "split_at (CHR ''$'') encoded = [[], ''argon2id'', ''v=19'', ''m=65536,t=3,p=1'', EncodeToString RawStd salt,
      EncodeToString RawStd (argon2 (bytes password) salt)]"
    using split_argon encoded_no_dollar by simp
  then show ?thesis
    using assms by (auto simp: VerifyPassword_def Let_def DecodeString_EncodeToString alphabets)
qed

text \<open>
  C40. What is sealed opens again under its own context, to the same bytes, when the cipher opens what it
  sealed (\<open>aead_Open\<close> inverts \<open>aead_Seal\<close>) and refuses it under another label.
\<close>

theorem seal_round_trip:
  assumes "\<And>n c l. aead_Open (vault_aead v) n (aead_Seal (vault_aead v) n c l) l = Some c"
    and "\<And>n c l l'. l \<noteq> l' \<Longrightarrow> aead_Open (vault_aead v) n (aead_Seal (vault_aead v) n c l) l' = None"
    and "length nonce = NonceSize (vault_aead v)"
  shows "Vault_Unseal v context' (Vault_Seal v nonce context clear) = Inr clear \<longleftrightarrow> context' = context"
proof -
  have label: "seal_label context' = seal_label context \<longleftrightarrow> context' = context"
  proof
    assume "seal_label context' = seal_label context"
    then have "bytes context' = bytes context" by (simp add: seal_label_def bytes_def)
    then have "text_of (bytes context') = text_of (bytes context)" by simp
    moreover have "text_of (bytes s) = s" for s
    proof -
      have "(of_char c :: nat) < 2 ^ LENGTH(8)" for c :: char by simp
      then have "unat (of_char c :: byte) = of_char c" for c :: char
        by (subst of_nat_of_char [symmetric]) (simp only: unsigned_of_nat take_bit_nat_eq_self of_nat_id)
      then show ?thesis by (simp add: text_of_def bytes_def o_def)
    qed
    ultimately show "context' = context" by simp
  qed simp
  have "Vault_Unseal v context' (Vault_Seal v nonce context clear) =
      (case aead_Open (vault_aead v) nonce (aead_Seal (vault_aead v) nonce clear (seal_label context)) (seal_label context') of
         None \<Rightarrow> Inl (EExternal ''cipher: message authentication failed'') | Some c \<Rightarrow> Inr c)"
    using assms(3) by (simp add: Vault_Unseal_def Vault_Seal_def has_prefix_def DecodeString_EncodeToString alphabets)
  then show ?thesis using assms(1,2) label by (cases "context' = context") auto
qed


subsection \<open>Examples\<close>

text \<open>A stretch that only looks at the length, and a cipher that writes its label in front of the text.\<close>

definition trial_argon2 :: kdf where
  "trial_argon2 p s = replicate 32 (word_of_nat (length p))"

definition label_head :: "byte list \<Rightarrow> byte list" where
  "label_head l = replicate (length l) 1 @ 0 # l"

definition trial_aead :: aead where
  "trial_aead = \<lparr>NonceSize = 2, aead_Seal = (\<lambda>n c l. label_head l @ c),
     aead_Open = (\<lambda>n c l. if take (length (label_head l)) c = label_head l then Some (drop (length (label_head l)) c) else None)\<rparr>"

lemma label_head_unique:
  assumes "take (length (label_head l')) (label_head l @ c) = label_head l'"
  shows "l = l'"
proof -
  have whole: "label_head l' @ drop (length (label_head l')) (label_head l @ c) = label_head l @ c"
    using assms by (metis append_take_drop_id)
  have ones: "takeWhile (\<lambda>b. b = 1) (label_head k @ x) = replicate (length k) 1" for k :: "byte list" and x
  proof -
    have "takeWhile (\<lambda>b. b = (1 :: byte)) (replicate n 1 @ 0 # y) = replicate n 1" for n y by (induction n) simp_all
    then show ?thesis by (simp add: label_head_def)
  qed
  have "replicate (length l') (1 :: byte) = replicate (length l) 1" by (metis ones whole)
  then have "length l' = length l" by (metis length_replicate)
  with whole show ?thesis by (simp add: label_head_def)
qed

theorem password_round_trip_witness:
  "\<exists>encoded. Password trial_argon2 (replicate 16 7) ''correct horse battery'' = Inr encoded \<and>
     VerifyPassword trial_argon2 encoded ''correct horse battery'' \<and> \<not> VerifyPassword trial_argon2 encoded ''a guess''"
proof -
  define encoded where "encoded = projr (Password trial_argon2 (replicate 16 7) ''correct horse battery'')"
  have p: "Password trial_argon2 (replicate 16 7) ''correct horse battery'' = Inr encoded"
    by (simp add: encoded_def Password_def runes_def decode_rune_def)
  have "VerifyPassword trial_argon2 encoded other \<longleftrightarrow>
      trial_argon2 (bytes other) (replicate 16 7) = trial_argon2 (bytes ''correct horse battery'') (replicate 16 7)"
    if "length other \<le> 256" for other
    by (rule password_round_trip [OF _ _ p that]) (simp_all add: trial_argon2_def)
  then show ?thesis using p by (auto simp: trial_argon2_def bytes_def)
qed

theorem seal_round_trip_witness:
  "let v = \<lparr>vault_aead = trial_aead, vault_key = []\<rparr>; sealed = Vault_Seal v [5, 6] ''setting:storage'' [1, 2, 3] in
   Vault_Unseal v ''setting:storage'' sealed = Inr [1, 2, 3] \<and> Vault_Unseal v ''project:1'' sealed \<noteq> Inr [1, 2, 3]"
proof -
  have "Vault_Unseal \<lparr>vault_aead = trial_aead, vault_key = []\<rparr> label
      (Vault_Seal \<lparr>vault_aead = trial_aead, vault_key = []\<rparr> [5, 6] ''setting:storage'' [1, 2, 3]) = Inr [1, 2, 3] \<longleftrightarrow>
      label = ''setting:storage''" for label
    by (rule seal_round_trip, simp add: trial_aead_def) (auto simp: trial_aead_def simp del: take_append dest: label_head_unique)
  then show ?thesis by (simp add: Let_def)
qed

end
