(* ===== verification/Http_Core.thy ===== *)
theory Http_Core
  imports Secrets Store_Auth Worker_Jobs Alert_Engine
begin

text \<open>
  What the handlers of \<^verbatim>\<open>internal/httpapi\<close> share (\<^verbatim>\<open>server.go\<close>): requests and answers, the rate limit, the
  session check and the reading of a body. A handler is a computation over the database and the outside that
  ends in an answer. The values it hands to \<^verbatim>\<open>encoding/json\<close> are of the type \<open>any\<close>; printing them, and
  reading a body into a struct, is that package's work and a parameter here (\<open>Library\<close>).
\<close>

section \<open>The installation\<close>

record Installation =
  Config_ID :: string
  Config_Mode :: string
  Config_Origin :: string
  Config_Hostname :: string
  Config_Generation :: string
  Config_Release :: string
  Config_CaddyVersion :: string
  Config_DockerVersion :: string
  Config_ComposeVersion :: string

text \<open>The expression for a host name: labels of letters, digits and inner dashes, at least two, joined by dots.\<close>

definition host_letter :: "char \<Rightarrow> bool" where
  "host_letter c \<longleftrightarrow> lower_letter c \<or> is_digit c"

definition host_label :: "string \<Rightarrow> bool" where
  "host_label l \<longleftrightarrow> l \<noteq> [] \<and> length l \<le> 63 \<and> host_letter (hd l) \<and> host_letter (last l) \<and>
     list_all (\<lambda>c. host_letter c \<or> c = CHR ''-'') l"

definition hostname :: "string \<Rightarrow> bool" where
  "hostname s \<longleftrightarrow> (let labels = split_at (CHR ''.'') s in length labels \<ge> 2 \<and> list_all host_label labels)"

text \<open>The fragment of a URL is not part of \<open>URL\<close> and a second function of the library.\<close>

definition Validate_installation :: "url_parser \<Rightarrow> (string \<Rightarrow> string) \<Rightarrow> Installation \<Rightarrow> err + unit" where
  "Validate_installation parse fragment c = (case parse (Config_Origin c) of
     None \<Rightarrow> Inl (EMsg ''invalid installation configuration'')
   | Some u \<Rightarrow>
       if has_User u \<or> RawQuery u \<noteq> '''' \<or> fragment (Config_Origin c) \<noteq> '''' \<or> URL_Path u \<noteq> '''' \<or> Config_ID c = '''' \<or> Config_Generation c = '''' then
         Inl (EMsg ''invalid installation configuration'')
       else if Config_Mode c = ''https'' \<and> hostname (Config_Hostname c) \<and> length (Config_Hostname c) \<le> 253 \<and>
         Scheme u = ''https'' \<and> URL_Host u = Config_Hostname c then Inr ()
       else if Config_Mode c = ''tunnel'' \<and> Config_Hostname c = '''' \<and> Config_Origin c = ''http://127.0.0.1:8080'' then Inr ()
       else Inl (EMsg ''invalid access mode or origin''))"

section \<open>Views\<close>

record databaseAccess =
  Access_Mode :: string
  Access_Host :: string
  Access_Port :: int
  Access_Certificate :: string

record deletionView =
  deletionView_StartedAt :: int
  deletionView_Active :: bool
  deletionView_LastError :: string

record projectView =
  view_Project :: Project
  view_OpenToInternet :: bool
  view_RotationPending :: bool
  view_Limits :: "ProjectLimits option"
  view_SizeBytes :: "int option"
  view_SizeError :: string
  view_Policy :: "PolicyState option"
  view_Connections :: "Connection list"
  view_Deletion :: "deletionView option"

record connectionDetails =
  details_Host :: string
  details_Port :: int
  details_Database :: string
  details_User :: string
  details_Password :: string
  details_SSLMode :: string
  details_URL :: string
  details_Psql :: string

record roleView =
  roleView_Use :: RoleUse
  roleView_Project :: string
  roleView_Warning :: bool

record jobView =
  jobView_Job :: Job
  jobView_ResultJSON :: string
  jobView_Elapsed :: int

record databaseGroup =
  group_DBName :: string
  group_ProjectID :: string
  group_ProjectName :: string
  group_InstallationID :: string
  group_Mixed :: bool
  group_Foreign :: bool
  group_NewestAt :: int
  group_Count :: int
  group_TotalBytes :: int
  group_HasMore :: bool
  group_ManifestOnly :: int
  group_Damaged :: int
  group_ReconciledAt :: int
  group_Backups :: "BucketBackup list"

text \<open>A value handed to the encoder: a scalar, a raw message, a list, a map, or one of the structs.\<close>

datatype any =
    AText string
  | AInt int
  | ABool bool
  | ARaw string
  | AList "any list"
  | AMap "(string \<times> any) list"
  | ASession Session
  | AConfig Installation
  | AHost Status
  | AAccess databaseAccess
  | AProject Project
  | AProjectView projectView
  | ADetails connectionDetails
  | ACredentials connectionDetails bool
  | APolicyState PolicyState
  | ALimits Limits
  | AProjectLimits ProjectLimits
  | ARoleView roleView
  | AJob jobView
  | ABackup Backup string
  | ABackupPolicy BackupPolicy
  | ASettings Settings
  | AStep CheckStep
  | AGroup databaseGroup
  | ABucketBackup BucketBackup
  | ACondition AlertCondition

section \<open>Requests and answers\<close>

text \<open>
  A request after \<^verbatim>\<open>net/http\<close> has parsed it. \<open>Segments\<close> are the unescaped elements of its path, of which
  \<open>Path\<close> is the text; \<open>Canonical\<close> says that the path is clean as written. \<open>PathValues\<close> are the wildcards of the
  route, \<open>RequestID\<close> the identifier the server draws for the answer.
\<close>

record Request =
  Method :: string
  Req_Host :: string
  Segments :: "string list"
  Canonical :: bool
  Req_Header :: "string \<Rightarrow> string"
  Req_Cookies :: "(string \<times> string) list"
  RemoteAddr :: string
  Req_Query :: "string \<Rightarrow> string"
  Req_Body :: string
  PathValues :: "(string \<times> string) list"
  RequestID :: string

definition Path :: "Request \<Rightarrow> string" where
  "Path r = ''/'' @ join ''/'' (Segments r)"

definition PathValue :: "Request \<Rightarrow> string \<Rightarrow> string" where
  "PathValue r name = coalesce (map_of (PathValues r) name) ''''"

record Cookie =
  Cookie_Name :: string
  Cookie_Value :: string
  Cookie_Path :: string
  Cookie_HttpOnly :: bool
  Cookie_Secure :: bool
  Cookie_SameSiteStrict :: bool
  Cookie_MaxAge :: int
  Cookie_Expires :: "gotime option"

datatype content = Empty | Json any | Plain string | File string

record Response =
  Resp_Status :: int
  Resp_Header :: "(string \<times> string) list"
  Resp_Cookies :: "Cookie list"
  Resp_Content :: content

definition answer :: "int \<Rightarrow> content \<Rightarrow> Response" where
  "answer code c = \<lparr>Resp_Status = code, Resp_Header = [], Resp_Cookies = [], Resp_Content = c\<rparr>"

definition set_header :: "string \<Rightarrow> string \<Rightarrow> Response \<Rightarrow> Response" where
  "set_header k v resp = resp\<lparr>Resp_Header := kv_put k v (Resp_Header resp)\<rparr>"

definition with_cookies :: "Cookie list \<Rightarrow> Response \<Rightarrow> Response" where
  "with_cookies cs resp = resp\<lparr>Resp_Cookies := cs @ Resp_Cookies resp\<rparr>"

definition write_json :: "int \<Rightarrow> any \<Rightarrow> Response" where
  "write_json code v = set_header ''Content-Type'' ''application/json'' (answer code (Json v))"

definition failure :: "Request \<Rightarrow> int \<Rightarrow> string \<Rightarrow> string \<Rightarrow> Response" where
  "failure r code kind text = write_json code (AMap [(''error'', AMap [(''code'', AText kind), (''message'', AText text),
     (''request_id'', AText (RequestID r))])])"

section \<open>The server\<close>

text \<open>
  The standard library: the JSON encoder and its readers, the parsers of URLs, media types and mail addresses,
  lower case, and the letters and digits of Unicode. A reader of a request body gives the first value of a text,
  read strictly into the struct, and what follows it.
\<close>

type_synonym 'in reader = "string \<Rightarrow> ('in \<times> string) option"

record Credentials =
  credentials_Token :: string
  credentials_Email :: string
  credentials_Password :: string

record Library =
  Marshal :: "any \<Rightarrow> string"
  Valid :: "string \<Rightarrow> bool"
  Unmarshal_list :: "string \<Rightarrow> string list"
  Marshal_enrolment :: "Enrolment \<Rightarrow> string"
  Unmarshal_enrolment :: "string \<Rightarrow> Enrolment option"
  Marshal_settings :: "Settings \<Rightarrow> string"
  UrlParse :: url_parser
  ParseMediaType :: "string \<Rightarrow> string"
  ParseAddress :: "string \<Rightarrow> string option"
  ToLower :: "string \<Rightarrow> string"
  IsLetter :: "nat \<Rightarrow> bool"
  IsDigit :: "nat \<Rightarrow> bool"
  Read_credentials :: "Credentials reader"
  Read_code :: "string reader"
  Read_reset :: "(string \<times> string) reader"
  Read_create :: "(string \<times> string) reader"
  Read_access :: "(int \<times> string list) reader"
  Read_writes :: "bool reader"
  Read_delete :: "(string \<times> bool) reader"
  Read_limits :: "(Limits \<times> int) reader"
  Read_webhook :: "Webhook reader"
  Read_storage :: "Settings reader"
  Read_policy :: "BackupPolicy \<Rightarrow> BackupPolicy reader"
  Read_restore :: "(string \<times> string) reader"

text \<open>The operations of PostgreSQL management that the handlers call; \<open>Management\<close> provides them.\<close>

record 'x Mgmt =
  Mgmt_DatabaseSize :: "string \<Rightarrow> ('x, int) io"
  Mgmt_Connections :: "string \<Rightarrow> string \<Rightarrow> ('x, Connection list) io"
  Mgmt_SetWritesFrozen :: "string \<Rightarrow> string \<Rightarrow> bool \<Rightarrow> ('x, unit) io"
  Mgmt_ConnectionBudget :: "('x, Budget) io"

text \<open>The dashboard's files: what exists, and what can be read.\<close>

record Assets =
  Assets_Stat :: "string \<Rightarrow> bool"
  Assets_Read :: "string \<Rightarrow> string option"

text \<open>
  The server. \<open>Srv_Store\<close> is \<open>False\<close> when management storage could not be opened. \<open>Srv_Salt\<close>, \<open>Srv_Token\<close> and
  \<open>Srv_Secret\<close> draw random bytes, a token and a secret of a second factor; \<open>Srv_SlotFree\<close> says whether one of the two slots for
  password hashing is free; \<open>Srv_ReadFile\<close> reads a file; \<open>Srv_Text\<close> is \<^verbatim>\<open>e.Error()\<close>.
\<close>

record 'x HttpServer =
  Srv_Config :: Installation
  Srv_Store :: bool
  Srv_Seal :: "string \<Rightarrow> string \<Rightarrow> string"
  Srv_Open :: "string \<Rightarrow> string \<Rightarrow> string option"
  Srv_CSRF :: "string \<Rightarrow> string \<Rightarrow> string"
  Srv_Argon2 :: kdf
  Srv_PG :: "('x, string) io option"
  Srv_Assets :: "Assets option"
  Srv_Versions :: "(string \<times> string) list"
  Srv_TrustedProxy :: "Prefix option"
  Srv_Mgmt :: "'x Mgmt option"
  Srv_Provisioner :: "'x Provisioner option"
  Srv_Jobs :: "'x JobWorker option"
  Srv_Alerts :: "'x Engine option"
  Srv_TLSStatePath :: string
  Srv_HostPaths :: Paths
  Srv_HostFiles :: "'x HostFiles"
  Srv_Now :: "'x \<Rightarrow> gotime \<times> 'x"
  Srv_Token :: "'x \<Rightarrow> string \<times> 'x"
  Srv_Salt :: "'x \<Rightarrow> byte list \<times> 'x"
  Srv_Secret :: "'x \<Rightarrow> byte list \<times> 'x"
  Srv_SlotFree :: "'x \<Rightarrow> bool \<times> 'x"
  Srv_ReadFile :: "string \<Rightarrow> ('x, string) io"
  Srv_LookupIP :: "string \<Rightarrow> ('x, IP list) io"
  Srv_Text :: "err \<Rightarrow> string"
  Srv_SQLiteVersion :: "('x, string) io"
  Srv_Lib :: Library

definition wall :: "'x HttpServer \<Rightarrow> ('x, gotime) act" where
  "wall s = observe (Srv_Now s)"

definition fresh_token :: "'x HttpServer \<Rightarrow> ('x, string) act" where
  "fresh_token s = observe (Srv_Token s)"

text \<open>
  \<^verbatim>\<open>if e != nil { ... }\<close> around a call: \<open>trying m h k\<close> goes on with \<open>h\<close> on an error and with \<open>k\<close> on a value. A check
  that may already have answered is a computation of a \<open>Response + 'a\<close>, and \<open>unless\<close> returns that answer.
\<close>

definition trying :: "('x, 'a) act \<Rightarrow> (err \<Rightarrow> ('x, 'b) act) \<Rightarrow> ('a \<Rightarrow> ('x, 'b) act) \<Rightarrow> ('x, 'b) act" where
  "trying m h k = bind_tx (attempt m) (\<lambda>r. case r of Inl e \<Rightarrow> h e | Inr v \<Rightarrow> k v)"

definition unless :: "('x, Response + 'a) act \<Rightarrow> ('a \<Rightarrow> ('x, Response) act) \<Rightarrow> ('x, Response) act" where
  "unless m k = bind_tx m (\<lambda>a. case a of Inl resp \<Rightarrow> ret resp | Inr v \<Rightarrow> k v)"

section \<open>The rate limit\<close>

record bucket =
  bucket_count :: int
  bucket_until :: gotime

record rateLimit =
  limit_clients :: "(string \<times> bucket) list"
  limit_global :: bucket

definition no_bucket :: bucket where
  "no_bucket = \<lparr>bucket_count = 0, bucket_until = zero_time\<rparr>"

definition no_attempts :: rateLimit where
  "no_attempts = \<lparr>limit_clients = [], limit_global = no_bucket\<rparr>"

text \<open>A bucket whose time is over starts again.\<close>

definition renewed :: "duration \<Rightarrow> gotime \<Rightarrow> bucket \<Rightarrow> bucket" where
  "renewed window t b = (if t < bucket_until b then b else \<lparr>bucket_count = 0, bucket_until = t + window\<rparr>)"

definition counted :: "bucket \<Rightarrow> bucket" where
  "counted b = b\<lparr>bucket_count := bucket_count b + 1\<rparr>"

definition allow :: "rateLimit \<Rightarrow> string \<Rightarrow> gotime \<Rightarrow> bool \<times> rateLimit" where
  "allow l client t =
     (let global = renewed minute t (limit_global l);
          b = renewed (15 * minute) t (coalesce (map_of (limit_clients l) client) no_bucket);
          live = filter (\<lambda>c. t < bucket_until (snd c)) (limit_clients l) in
      if bucket_count global \<ge> 30 \<or> bucket_count b \<ge> 10 \<or> length live \<ge> 10000 then
        (False, \<lparr>limit_clients = live, limit_global = global\<rparr>)
      else (True, \<lparr>limit_clients = kv_put client (counted b) live, limit_global = counted global\<rparr>))"

text \<open>What the process remembers between requests: the two limits and the alert engine's memory.\<close>

record gates =
  gate_limiter :: rateLimit
  gate_codes :: rateLimit
  gate_alerts :: memory

type_synonym 'x handler = "gates \<Rightarrow> Request \<Rightarrow> ('x, gates \<times> Response) act"

text \<open>\<^verbatim>\<open>Prefix.Contains\<close>: the same family, no zone, and the same leading bits.\<close>

definition prefix_contains :: "Prefix \<Rightarrow> Addr \<Rightarrow> bool" where
  "prefix_contains p a \<longleftrightarrow> \<not> has_zone a \<and> BitLen a = BitLen (prefix_addr p) \<and>
     mask_addr (prefix_bits p) a = mask_addr (prefix_bits p) (prefix_addr p)"

definition client :: "'x HttpServer \<Rightarrow> Request \<Rightarrow> string" where
  "client s r =
     (let host = coalesce (SplitHostPort (RemoteAddr r)) '''' in
      case (ParseAddr host, Srv_TrustedProxy s) of
        (Some ip, Some proxy) \<Rightarrow>
          if prefix_contains proxy ip then
            (case ParseAddr (Req_Header r ''X-Forwarded-For'') of Some forwarded \<Rightarrow> print_addr forwarded | None \<Rightarrow> host)
          else host
      | _ \<Rightarrow> host)"

definition too_many :: "Request \<Rightarrow> Response" where
  "too_many r = set_header ''Retry-After'' ''900'' (failure r 429 ''rate_limited'' ''Too many attempts. Try again later.'')"

text \<open>A slot taken here is released when the handler returns.\<close>

definition beginAuth :: "'x HttpServer \<Rightarrow> gates \<Rightarrow> Request \<Rightarrow> ('x, gates \<times> Response option) act" where
  "beginAuth s g r =
     bind_tx (wall s) (\<lambda>t.
     case allow (gate_limiter g) (client s r) t of (ok, l) \<Rightarrow>
     let g = g\<lparr>gate_limiter := l\<rparr> in
     if \<not> ok then ret (g, Some (too_many r))
     else bind_tx (observe (Srv_SlotFree s)) (\<lambda>free.
       ret (g, if free then None else Some (failure r 429 ''auth_busy'' ''Authentication is busy. Try again shortly.''))))"

text \<open>A handler behind the gate, and one that does not use what the process remembers.\<close>

definition gated :: "('x, gates \<times> Response option) act \<Rightarrow> ('x, Response) act \<Rightarrow> ('x, gates \<times> Response) act" where
  "gated gate h = bind_tx gate (\<lambda>(g, refusal). case refusal of
     Some resp \<Rightarrow> ret (g, resp)
   | None \<Rightarrow> bind_tx h (\<lambda>resp. ret (g, resp)))"

definition ungated :: "(Request \<Rightarrow> ('x, Response) act) \<Rightarrow> 'x handler" where
  "ungated h g r = bind_tx (h r) (\<lambda>resp. ret (g, resp))"

section \<open>Bodies\<close>

text \<open>
  The body is cut off at 4096 bytes, where reading fails. The first value must be the struct and nothing but
  white space may follow it.
\<close>

definition json_space :: "char \<Rightarrow> bool" where
  "json_space c \<longleftrightarrow> c = CHR 0x20 \<or> c = CHR 0x09 \<or> c = CHR 0x0A \<or> c = CHR 0x0D"

definition decode :: "'in reader \<Rightarrow> Request \<Rightarrow> Response + 'in" where
  "decode read r = (case read (take 4096 (Req_Body r)) of
     None \<Rightarrow> Inl (failure r 400 ''invalid_request'' ''Provide a valid JSON request.'')
   | Some (v, rest) \<Rightarrow>
       if length (Req_Body r) > 4096 \<or> \<not> list_all json_space rest then
         Inl (failure r 400 ''invalid_request'' ''Provide a single JSON object.'')
       else Inr v)"

section \<open>Sessions\<close>

definition scope :: "'x HttpServer \<Rightarrow> string" where
  "scope s = Config_ID (Srv_Config s) @ '':'' @ Config_Mode (Srv_Config s) @ '':'' @ Config_Generation (Srv_Config s) @ '':'' @
     Config_Origin (Srv_Config s)"

definition https :: "'x HttpServer \<Rightarrow> bool" where
  "https s \<longleftrightarrow> Config_Mode (Srv_Config s) = ''https''"

definition cookie :: "'x HttpServer \<Rightarrow> string \<Rightarrow> string" where
  "cookie s kind = (if https s then ''__Host-pgfy_'' @ kind else ''pgfy_tunnel_'' @ kind)"

definition cookieName :: "'x HttpServer \<Rightarrow> string" where
  "cookieName s = cookie s ''session''"

definition new_cookie :: "'x HttpServer \<Rightarrow> string \<Rightarrow> string \<Rightarrow> int \<Rightarrow> gotime option \<Rightarrow> Cookie" where
  "new_cookie s name value age expires = \<lparr>Cookie_Name = name, Cookie_Value = value, Cookie_Path = ''/'', Cookie_HttpOnly = True,
     Cookie_Secure = https s, Cookie_SameSiteStrict = True, Cookie_MaxAge = age, Cookie_Expires = expires\<rparr>"

definition session_cookie :: "'x HttpServer \<Rightarrow> string \<Rightarrow> gotime \<Rightarrow> Cookie" where
  "session_cookie s token t = new_cookie s (cookieName s) token 43200 (Some (t + 12 * hour))"

definition step_cookie :: "'x HttpServer \<Rightarrow> string \<Rightarrow> string \<Rightarrow> duration \<Rightarrow> gotime \<Rightarrow> Cookie" where
  "step_cookie s kind value ttl t = new_cookie s (cookie s kind) value (ttl div second) (Some (t + ttl))"

definition clearCookie :: "'x HttpServer \<Rightarrow> string \<Rightarrow> Cookie" where
  "clearCookie s kind = new_cookie s (cookie s kind) '''' (-1) None"

text \<open>The first cookie of that name, if it has the length of a token.\<close>

definition stepCookie :: "'x HttpServer \<Rightarrow> Request \<Rightarrow> string \<Rightarrow> string option" where
  "stepCookie s r kind = (case map_of (Req_Cookies r) (cookie s kind) of
     None \<Rightarrow> None
   | Some v \<Rightarrow> if length v \<noteq> 43 then None else Some v)"

definition unavailable :: "Request \<Rightarrow> string \<Rightarrow> Response" where
  "unavailable r text = failure r 503 ''metadata_unavailable'' text"

definition storage_down :: string where
  "storage_down = ''Management storage is unavailable.''"

definition authorize :: "'x HttpServer \<Rightarrow> Request \<Rightarrow> ('x, Response + (Session \<times> string)) act" where
  "authorize s r = (case stepCookie s r ''session'' of
     None \<Rightarrow> ret (Inl (failure r 401 ''unauthorized'' ''Sign in to continue.''))
   | Some token \<Rightarrow>
       bind_tx (wall s) (\<lambda>t.
       trying (on_db (get_Session token (scope s) t))
         (\<lambda>e. ret (Inl (if e = ENoRows then failure r 401 ''unauthorized'' ''Your session expired. Sign in again.''
            else unavailable r storage_down)))
         (\<lambda>session.
            let csrf = Srv_CSRF s token (scope s) in
            if Method r \<noteq> ''GET'' \<and> Req_Header r ''X-CSRF-Token'' \<noteq> csrf then
              ret (Inl (failure r 403 ''csrf_rejected'' ''Refresh the page and try again.''))
            else ret (Inr (session\<lparr>Session_CSRF := csrf\<rparr>, token)))))"

definition signed_in :: "'x HttpServer \<Rightarrow> Request \<Rightarrow> (Session \<Rightarrow> string \<Rightarrow> ('x, Response) act) \<Rightarrow> ('x, Response) act" where
  "signed_in s r k = unless (authorize s r) (\<lambda>(session, token). k session token)"

section \<open>The audit trail\<close>

definition auditEntry :: "'x HttpServer \<Rightarrow> Request \<Rightarrow> string \<Rightarrow> string \<Rightarrow> any option \<Rightarrow> ('x, AuditEntry) act" where
  "auditEntry s r action target detail = bind_tx (wall s) (\<lambda>t. ret \<lparr>AuditEntry_ID = 0, AuditEntry_At = unix t,
     AuditEntry_AdminID = 1, AuditEntry_Action = action, AuditEntry_Target = target, AuditEntry_RequestID = RequestID r,
     AuditEntry_Detail = (case detail of None \<Rightarrow> '''' | Some d \<Rightarrow> Marshal (Srv_Lib s) d)\<rparr>)"

definition record_audit :: "'x HttpServer \<Rightarrow> Request \<Rightarrow> string \<Rightarrow> string \<Rightarrow> any option \<Rightarrow> ('x, unit) act" where
  "record_audit s r action target detail =
     bind_tx (auditEntry s r action target detail) (\<lambda>entry. ignoring (on_db (Audit entry)))"

end
