(* ===== verification/Http_Auth.thy ===== *)
theory Http_Auth
  imports Http_Core
begin

text \<open>
  Signing in and out (\<^verbatim>\<open>setup\<close>, \<^verbatim>\<open>login\<close>, \<^verbatim>\<open>logout\<close> and \<^verbatim>\<open>session\<close> of \<^verbatim>\<open>internal/httpapi/server.go\<close>, and
  \<^verbatim>\<open>internal/httpapi/auth.go\<close>): the password step, the code step, enrolment and the reset. Random values are drawn from
  the outside, and the store does the rest.
\<close>

section \<open>Helpers\<close>

definition normalizeEmail :: "Library \<Rightarrow> string \<Rightarrow> string \<times> bool" where
  "normalizeEmail lib value =
     (let v = ToLower lib (TrimSpace value) in (v, ParseAddress lib v = Some v \<and> length v \<le> 254))"

definition adminFactorContext :: string where
  "adminFactorContext = ''admin:totp:1''"

definition enrolContext :: "string \<Rightarrow> string" where
  "enrolContext tokenHash = ''auth_token:enrol:'' @ tokenHash"

definition enrolView :: "byte list \<Rightarrow> string \<Rightarrow> gotime \<Rightarrow> any" where
  "enrolView secret account t = AMap [(''next'', AText ''enrol''), (''key'', AText (TOTPKey secret)), (''account'', AText account),
     (''issuer'', AText ''Pgfy''), (''algorithm'', AText ''SHA1''), (''digits'', AInt (int TOTPDigits)), (''period'', AInt TOTPPeriod),
     (''server_time'', AInt (unix t))]"

definition no_enrolment :: Enrolment where
  "no_enrolment = \<lparr>Enrolment_Kind = '''', Enrolment_Email = '''', Enrolment_PasswordHash = '''', Enrolment_Binding = '''',
     Enrolment_Scope = '''', Enrolment_Secret = []\<rparr>"

text \<open>The account shown with a key; a query that fails leaves it empty.\<close>

definition account_of :: "Enrolment \<Rightarrow> ('x, string) act" where
  "account_of en = (if Enrolment_Email en \<noteq> '''' then ret (Enrolment_Email en)
     else trying (on_db AdminEmail) (\<lambda>_. ret '''') ret)"

definition setup_rejected :: "Request \<Rightarrow> Response" where
  "setup_rejected r = failure r 409 ''setup_rejected'' ''Setup token is invalid, expired, or already used.''"

definition reset_rejected :: "Request \<Rightarrow> Response" where
  "reset_rejected r = failure r 409 ''reset_rejected''
     ''Reset token is invalid, expired, or already used. Issue a new one with pgfyctl reset-admin.''"

definition startEnrolment :: "'x HttpServer \<Rightarrow> Request \<Rightarrow> Enrolment \<Rightarrow> (string \<Rightarrow> string \<Rightarrow> ('x, unit) act) \<Rightarrow> ('x, Response) act" where
  "startEnrolment s r en begin_step =
     bind_tx (observe (Srv_Secret s)) (\<lambda>secret.
     bind_tx (fresh_token s) (\<lambda>enrol.
     let en = en\<lparr>Enrolment_Secret := secret, Enrolment_Scope := scope s\<rparr>; hash = Hash enrol in
     trying (begin_step hash (Srv_Seal s (enrolContext hash) (Marshal_enrolment (Srv_Lib s) en)))
       (\<lambda>e. ret (if e = ErrSetup then setup_rejected r
          else if e = ErrToken then reset_rejected r
          else unavailable r ''The sign-in step could not be saved. Run host diagnostics.''))
       (\<lambda>_. bind_tx (wall s) (\<lambda>t.
          bind_tx (account_of en) (\<lambda>account.
          bind_tx (wall s) (\<lambda>shown.
          ret (with_cookies [step_cookie s ''enrol'' enrol (10 * minute) t] (write_json 200 (enrolView secret account shown)))))))))"

definition signed_in_answer :: "'x HttpServer \<Rightarrow> string \<Rightarrow> string \<Rightarrow> int \<Rightarrow> gotime \<Rightarrow> Response" where
  "signed_in_answer s email token status t = with_cookies [session_cookie s token t]
     (write_json status (AMap [(''email'', AText email), (''csrf_token'', AText (Srv_CSRF s token (scope s)))]))"

definition signedIn :: "'x HttpServer \<Rightarrow> string \<Rightarrow> string \<Rightarrow> int \<Rightarrow> ('x, Response) act" where
  "signedIn s email token status = bind_tx (wall s) (\<lambda>t. ret (signed_in_answer s email token status t))"

definition granted :: "(Response + 'a) \<Rightarrow> ('a \<Rightarrow> ('x, Response) act) \<Rightarrow> ('x, Response) act" where
  "granted a k = (case a of Inl resp \<Rightarrow> ret resp | Inr v \<Rightarrow> k v)"

text \<open>\<^verbatim>\<open>security.Password\<close> with a fresh salt.\<close>

definition hashed :: "'x HttpServer \<Rightarrow> Request \<Rightarrow> string \<Rightarrow> (string \<Rightarrow> ('x, Response) act) \<Rightarrow> ('x, Response) act" where
  "hashed s r password k =
     bind_tx (observe (Srv_Salt s)) (\<lambda>salt. case Password (Srv_Argon2 s) salt password of
       Inl e \<Rightarrow> ret (failure r 400 ''invalid_password'' (Srv_Text s e))
     | Inr hash \<Rightarrow> k hash)"

section \<open>Setup\<close>

definition setupAvailable :: "'x HttpServer \<Rightarrow> Request \<Rightarrow> ('x, Response) act" where
  "setupAvailable s r = trying (on_db SetupAvailable) (\<lambda>_. ret (unavailable r storage_down))
     (\<lambda>available. ret (write_json 200 (AMap [(''available'', ABool available)])))"

definition setup_tunnel :: "'x HttpServer \<Rightarrow> Request \<Rightarrow> string \<Rightarrow> string \<Rightarrow> string \<Rightarrow> ('x, Response) act" where
  "setup_tunnel s r setupToken email hash =
     bind_tx (fresh_token s) (\<lambda>token.
     bind_tx (wall s) (\<lambda>t.
     trying (on_db (Setup setupToken email hash (Hash token) (scope s) t))
       (\<lambda>e. ret (if e = ErrSetup then setup_rejected r else unavailable r ''Setup could not be saved. Run host diagnostics.''))
       (\<lambda>_. signedIn s email token 201)))"

definition setup_body :: "'x HttpServer \<Rightarrow> Request \<Rightarrow> ('x, Response) act" where
  "setup_body s r =
     granted (decode (Read_credentials (Srv_Lib s)) r) (\<lambda>input.
     case normalizeEmail (Srv_Lib s) (credentials_Email input) of (email, valid) \<Rightarrow>
     if \<not> valid \<or> length (credentials_Token input) \<noteq> 43 then
       ret (failure r 400 ''invalid_setup'' ''Provide a valid email, setup token, and password.'')
     else hashed s r (credentials_Password input) (\<lambda>hash.
       if https s then
         startEnrolment s r (no_enrolment\<lparr>Enrolment_Kind := ''setup'', Enrolment_Email := email, Enrolment_PasswordHash := hash\<rparr>)
           (\<lambda>enrolHash sealed. bind_tx (wall s) (\<lambda>t. on_db (BeginEnrolment (credentials_Token input) enrolHash sealed t)))
       else setup_tunnel s r (credentials_Token input) email hash))"

definition post_setup :: "'x HttpServer \<Rightarrow> 'x handler" where
  "post_setup s g r = gated (beginAuth s g r) (setup_body s r)"

section \<open>The password step\<close>

definition dummy_hash :: string where
  "dummy_hash = ''$argon2id$v=19$m=65536,t=3,p=1$AAAAAAAAAAAAAAAAAAAAAA$AAAAAAAAAAAAAAAAAAAAAAAAAAAAAAAAAAAAAAAAAAA''"

definition invalid_credentials :: "Request \<Rightarrow> Response" where
  "invalid_credentials r = failure r 401 ''invalid_credentials'' ''Email or password is incorrect.''"

text \<open>The password was right for \<open>hash\<close>; what follows depends on the factor stored now.\<close>

definition login_pending :: "'x HttpServer \<Rightarrow> Request \<Rightarrow> string \<Rightarrow> ('x, Response) act" where
  "login_pending s r current =
     bind_tx (fresh_token s) (\<lambda>pending.
     bind_tx (wall s) (\<lambda>t.
     trying (on_db (BeginPending (Hash pending) current (scope s) t))
       (\<lambda>_. ret (unavailable r ''Sign-in could not be saved.''))
       (\<lambda>_. bind_tx (wall s) (\<lambda>set_at. bind_tx (wall s) (\<lambda>shown.
          ret (with_cookies [step_cookie s ''pending'' pending (5 * minute) set_at]
            (write_json 200 (AMap [(''next'', AText ''code''), (''server_time'', AInt (unix shown))]))))))))"

definition login_session :: "'x HttpServer \<Rightarrow> Request \<Rightarrow> string \<Rightarrow> string \<Rightarrow> ('x, Response) act" where
  "login_session s r email current =
     bind_tx (fresh_token s) (\<lambda>token.
     bind_tx (wall s) (\<lambda>t.
     trying (on_db (AddSession token (scope s) current t))
       (\<lambda>e. ret (if e = ErrCredentialsChanged then invalid_credentials r else unavailable r ''Session could not be saved.''))
       (\<lambda>_. signedIn s email token 200)))"

definition login_verified :: "'x HttpServer \<Rightarrow> Request \<Rightarrow> string \<Rightarrow> string \<Rightarrow> ('x, Response) act" where
  "login_verified s r email hash =
     trying (on_db Factor) (\<lambda>_. ret (unavailable r storage_down)) (\<lambda>(enrolled, current).
     if current \<noteq> hash then ret (invalid_credentials r)
     else if enrolled then login_pending s r current
     else if https s then
       startEnrolment s r (no_enrolment\<lparr>Enrolment_Kind := ''upgrade'', Enrolment_Email := email, Enrolment_Binding := Hash current\<rparr>)
         (\<lambda>enrolHash sealed. bind_tx (wall s) (\<lambda>t. on_db (BeginUpgrade enrolHash sealed t)))
     else login_session s r email current)"

definition login_body :: "'x HttpServer \<Rightarrow> Request \<Rightarrow> ('x, Response) act" where
  "login_body s r =
     granted (decode (Read_credentials (Srv_Lib s)) r) (\<lambda>input.
     let email = fst (normalizeEmail (Srv_Lib s) (credentials_Email input)) in
     bind_tx (attempt (on_db (get_Password email))) (\<lambda>found.
     if \<not> (case found of Inl e \<Rightarrow> e = ENoRows | Inr _ \<Rightarrow> True) then ret (unavailable r storage_down)
     else
       let hash = (case found of Inl _ \<Rightarrow> dummy_hash | Inr h \<Rightarrow> h);
           valid = VerifyPassword (Srv_Argon2 s) hash (credentials_Password input) in
       if (case found of Inl _ \<Rightarrow> True | Inr _ \<Rightarrow> \<not> valid) then ret (invalid_credentials r)
       else login_verified s r email hash))"

definition login :: "'x HttpServer \<Rightarrow> 'x handler" where
  "login s g r = gated (beginAuth s g r) (login_body s r)"

section \<open>The code step\<close>

definition codeAllowed :: "'x HttpServer \<Rightarrow> gates \<Rightarrow> Request \<Rightarrow> ('x, gates \<times> Response option) act" where
  "codeAllowed s g r =
     bind_tx (wall s) (\<lambda>t.
     case allow (gate_codes g) (client s r) t of (ok, l) \<Rightarrow>
     ret (g\<lparr>gate_codes := l\<rparr>, if ok then None else Some (too_many r)))"

definition codeFailure :: "Request \<Rightarrow> err \<Rightarrow> Response" where
  "codeFailure r e = (case e of
     ErrCode \<Rightarrow> failure r 401 ''invalid_code'' ''That code is not right. Check the time on your device and try the current code.''
   | ErrCodeReused \<Rightarrow> failure r 401 ''code_reused'' ''That code was already used. Wait for the next one.''
   | LockedError seconds \<Rightarrow> set_header ''Retry-After'' (decimal seconds)
       (failure r 429 ''code_locked'' ''Too many wrong codes. Wait a few minutes and try again.'')
   | ErrMaintenance \<Rightarrow> failure r 503 ''maintenance'' ''An update is in progress. Finish the reset when it completes.''
   | _ \<Rightarrow> unavailable r storage_down)"

text \<open>What the handler gives the store to check a code with.\<close>

definition verify_code :: "'x HttpServer \<Rightarrow> string \<Rightarrow> gotime \<Rightarrow> string \<Rightarrow> int \<Rightarrow> err + int" where
  "verify_code s code t sealed latest = (case Srv_Open s adminFactorContext sealed of
     None \<Rightarrow> Inl ErrToken
   | Some secret \<Rightarrow> (case VerifyTOTP (bytes secret) code t latest of (n, valid, reused) \<Rightarrow>
       if reused then Inl ErrCodeReused else if \<not> valid then Inl ErrCode else Inr n))"

definition confirmCode :: "'x HttpServer \<Rightarrow> 'x handler" where
  "confirmCode s g r = (case stepCookie s r ''pending'' of
     None \<Rightarrow> ret (g, failure r 401 ''code_expired'' ''Sign in again.'')
   | Some pending \<Rightarrow> gated (codeAllowed s g r) (
       granted (decode (Read_code (Srv_Lib s)) r) (\<lambda>code.
       bind_tx (wall s) (\<lambda>t.
       bind_tx (fresh_token s) (\<lambda>session.
       trying (on_db (ConfirmPending (Hash pending) (Hash session) (scope s) t (verify_code s code t)))
         (\<lambda>e. ret (if e = ErrToken then with_cookies [clearCookie s ''pending'']
              (failure r 401 ''code_expired'' ''This sign-in expired. Sign in again.'')
            else codeFailure r e))
         (\<lambda>email. bind_tx (signedIn s email session 200) (\<lambda>resp. ret (with_cookies [clearCookie s ''pending''] resp))))))))"

section \<open>Enrolment\<close>

definition confirmed_of :: "Enrolment \<Rightarrow> string \<Rightarrow> int \<Rightarrow> Confirmed" where
  "confirmed_of en sealed n = \<lparr>Enrolment_Kind = Enrolment_Kind en, Enrolment_Email = Enrolment_Email en,
     Enrolment_PasswordHash = Enrolment_PasswordHash en, Enrolment_Binding = Enrolment_Binding en,
     Enrolment_Scope = Enrolment_Scope en, Enrolment_Secret = Enrolment_Secret en,
     Confirmed_SecretSealed = sealed, Confirmed_Step = n\<rparr>"

definition open_enrolment :: "'x HttpServer \<Rightarrow> string \<Rightarrow> string \<Rightarrow> Enrolment option" where
  "open_enrolment s hash sealed =
     Option.bind (Srv_Open s (enrolContext hash) sealed) (Unmarshal_enrolment (Srv_Lib s))"

definition verify_enrolment :: "'x HttpServer \<Rightarrow> string \<Rightarrow> string \<Rightarrow> gotime \<Rightarrow> string \<Rightarrow> err + Confirmed" where
  "verify_enrolment s hash code t sealed = (case open_enrolment s hash sealed of
     None \<Rightarrow> Inl ErrToken
   | Some en \<Rightarrow> (case VerifyTOTP (Enrolment_Secret en) code t 0 of (n, valid, _) \<Rightarrow>
       if \<not> valid then Inl ErrCode
       else Inr (confirmed_of en (Srv_Seal s adminFactorContext (text_of (Enrolment_Secret en))) n)))"

definition confirmEnrolment :: "'x HttpServer \<Rightarrow> 'x handler" where
  "confirmEnrolment s g r = (case stepCookie s r ''enrol'' of
     None \<Rightarrow> ret (g, failure r 401 ''enrol_expired'' ''This setup step expired. Start again.'')
   | Some enrol \<Rightarrow> gated (codeAllowed s g r) (
       granted (decode (Read_code (Srv_Lib s)) r) (\<lambda>code.
       bind_tx (wall s) (\<lambda>t.
       bind_tx (fresh_token s) (\<lambda>session.
       let hash = Hash enrol in
       trying (on_db (ConfirmEnrolment hash (Hash session) (scope s) (RequestID r) t (verify_enrolment s hash code t)))
         (\<lambda>e. ret (if e = ErrToken then with_cookies [clearCookie s ''enrol'']
              (failure r 401 ''enrol_expired'' ''This setup step expired or was replaced. Start again.'')
            else codeFailure r e))
         (\<lambda>email. bind_tx (signedIn s email session 200) (\<lambda>resp. ret (with_cookies [clearCookie s ''enrol''] resp))))))))"

text \<open>The enrolment in progress, if its token lives, its payload opens and it can still be completed.\<close>

definition enrolment_in_progress :: "'x HttpServer \<Rightarrow> string \<Rightarrow> ('x, Enrolment option) act" where
  "enrolment_in_progress s hash =
     bind_tx (wall s) (\<lambda>t.
     trying (on_db (EnrolmentPayload hash t)) (\<lambda>_. ret None) (\<lambda>sealed.
     case open_enrolment s hash sealed of
       None \<Rightarrow> ret None
     | Some en \<Rightarrow>
         bind_tx (if Enrolment_Kind en = ''upgrade''
                  then trying (on_db Factor) (\<lambda>_. ret False) (\<lambda>(enrolled, _). ret (\<not> enrolled)) else ret True) (\<lambda>current.
         if \<not> current then ret None
         else trying (on_db (EnrolmentUsable hash (Enrolment_Kind en))) (\<lambda>_. ret None)
           (\<lambda>usable. ret (if usable then Some en else None)))))"

definition currentEnrolment :: "'x HttpServer \<Rightarrow> Request \<Rightarrow> ('x, Response) act" where
  "currentEnrolment s r = (case stepCookie s r ''enrol'' of
     None \<Rightarrow> ret (failure r 401 ''enrol_expired'' ''No setup step is in progress.'')
   | Some enrol \<Rightarrow>
       bind_tx (enrolment_in_progress s (Hash enrol)) (\<lambda>found. case found of
         None \<Rightarrow> ret (with_cookies [clearCookie s ''enrol''] (failure r 401 ''enrol_expired'' ''This setup step expired. Start again.''))
       | Some en \<Rightarrow>
           bind_tx (account_of en) (\<lambda>account.
           bind_tx (wall s) (\<lambda>t. ret (write_json 200 (enrolView (Enrolment_Secret en) account t))))))"

definition startReset_body :: "'x HttpServer \<Rightarrow> Request \<Rightarrow> ('x, Response) act" where
  "startReset_body s r =
     granted (decode (Read_reset (Srv_Lib s)) r) (\<lambda>(token, password).
     if length token \<noteq> 43 then ret (reset_rejected r)
     else hashed s r password (\<lambda>hash.
       startEnrolment s r (no_enrolment\<lparr>Enrolment_Kind := ''reset'', Enrolment_PasswordHash := hash\<rparr>)
         (\<lambda>enrolHash sealed. bind_tx (wall s) (\<lambda>t. on_db (BeginReset token enrolHash sealed t)))))"

definition startReset :: "'x HttpServer \<Rightarrow> 'x handler" where
  "startReset s g r = gated (beginAuth s g r) (startReset_body s r)"

section \<open>Leaving\<close>

definition abandon_step :: "'x HttpServer \<Rightarrow> Request \<Rightarrow> string \<Rightarrow> ('x, unit) act" where
  "abandon_step s r kind = (case stepCookie s r kind of
     None \<Rightarrow> ret ()
   | Some value \<Rightarrow> bind_tx (wall s) (\<lambda>t. ignoring (on_db (Abandon (Hash value) t))))"

definition abandonSteps :: "'x HttpServer \<Rightarrow> Request \<Rightarrow> ('x, unit) act" where
  "abandonSteps s r = for_each (abandon_step s r) [''pending'', ''enrol'']"

definition abandon :: "'x HttpServer \<Rightarrow> Request \<Rightarrow> ('x, Response) act" where
  "abandon s r = then_tx (abandonSteps s r)
     (ret (with_cookies [clearCookie s ''pending'', clearCookie s ''enrol''] (answer 204 Empty)))"

definition logout :: "'x HttpServer \<Rightarrow> Request \<Rightarrow> ('x, Response) act" where
  "logout s r = signed_in s r (\<lambda>_ token.
     trying (on_db (Logout token)) (\<lambda>_. ret (unavailable r ''Logout could not be saved. Try again.'')) (\<lambda>_.
     then_tx (abandonSteps s r)
     (ret (with_cookies (map (clearCookie s) [''session'', ''pending'', ''enrol'']) (answer 204 Empty)))))"

definition get_session :: "'x HttpServer \<Rightarrow> Request \<Rightarrow> ('x, Response) act" where
  "get_session s r = signed_in s r (\<lambda>found _. ret (write_json 200 (ASession (found\<lparr>Session_ClientIP := client s r\<rparr>))))"

end
