(* ===== verification/Http_Projects.thy ===== *)
theory Http_Projects
  imports Http_Auth
begin

text \<open>
  The handlers for projects (\<^verbatim>\<open>internal/httpapi/projects.go\<close>), their limits and passwords
  (\<^verbatim>\<open>internal/httpapi/access.go\<close>) and alerts (\<^verbatim>\<open>internal/httpapi/alerts.go\<close>). Waking a background loop
  (\<^verbatim>\<open>Kick\<close>) changes nothing here: those loops are followed on their own.
\<close>

section \<open>How applications connect\<close>

definition databaseAccess_of :: "'x HttpServer \<Rightarrow> ('x, databaseAccess) act" where
  "databaseAccess_of s =
     bind_tx (attempt (call_out unlogged (Srv_ReadFile s (Srv_TLSStatePath s)))) (\<lambda>b. ret
       \<lparr>Access_Mode = (if https s then ''direct'' else ''tunnel''),
        Access_Host = (if https s then Config_Hostname (Srv_Config s) else ''127.0.0.1''), Access_Port = 5432,
        Access_Certificate = (case b of
          Inr text \<Rightarrow> if Valid (Srv_Lib s) text then text else ''{\"state\":\"unknown\"}''
        | Inl _ \<Rightarrow> ''{\"state\":\"unknown\"}'')\<rparr>)"

text \<open>\<^verbatim>\<open>url.PathEscape\<close>: a byte is kept if it is unreserved or one of the marks a path segment may have.\<close>

definition upper_letter :: "char \<Rightarrow> bool" where
  "upper_letter c = (let n = (of_char c :: nat) in 65 \<le> n \<and> n \<le> 90)"

definition path_safe :: "char \<Rightarrow> bool" where
  "path_safe c \<longleftrightarrow> lower_letter c \<or> upper_letter c \<or> is_digit c \<or> c \<in> set ''-_.~$&+=:@''"

definition upper_hex :: "nat \<Rightarrow> char" where
  "upper_hex n = ''0123456789ABCDEF'' ! n"

definition PathEscape :: "string \<Rightarrow> string" where
  "PathEscape s = concat (map (\<lambda>c. if path_safe c then [c]
     else [CHR ''%'', upper_hex (of_char c div 16), upper_hex (of_char c mod 16)]) s)"

definition libpqURL :: "connectionDetails \<Rightarrow> string" where
  "libpqURL c = (if details_SSLMode c = ''verify-full'' then details_URL c @ ''&sslrootcert=system'' else details_URL c)"

definition connectionDetails_of :: "databaseAccess \<Rightarrow> Project \<Rightarrow> string \<Rightarrow> connectionDetails" where
  "connectionDetails_of access p password =
     (let mode = (if Access_Mode access = ''tunnel'' then ''disable'' else ''verify-full'');
          c = \<lparr>details_Host = Access_Host access, details_Port = Access_Port access, details_Database = Project_DBName p,
            details_User = Project_RoleName p, details_Password = password, details_SSLMode = mode,
            details_URL = ''postgresql://'' @ PathEscape (Project_RoleName p) @ '':'' @ PathEscape password @ ''@'' @
              Access_Host access @ '':'' @ decimal (Access_Port access) @ ''/'' @ Project_DBName p @ ''?sslmode='' @ mode,
            details_Psql = ''''\<rparr>
      in c\<lparr>details_Psql := ''psql '' @ quoted (libpqURL c)\<rparr>)"

definition project_context :: "Project \<Rightarrow> string" where
  "project_context p = ''project:'' @ Project_ID p"

definition projectCredentials :: "'x HttpServer \<Rightarrow> Project \<Rightarrow> ('x, connectionDetails) act" where
  "projectCredentials s p =
     bind_tx (on_db (SealedPassword (Project_ID p))) (\<lambda>sealed.
     case Srv_Open s (project_context p) sealed of
       None \<Rightarrow> throw (EExternal ''cipher: message authentication failed'')
     | Some password \<Rightarrow> bind_tx (databaseAccess_of s) (\<lambda>access. ret (connectionDetails_of access p password)))"

section \<open>Views of a project\<close>

definition validProjectName :: "Library \<Rightarrow> string \<Rightarrow> bool" where
  "validProjectName lib name \<longleftrightarrow> name \<noteq> '''' \<and> length name \<le> 64 \<and> TrimSpace name = name \<and>
     list_all (\<lambda>n. IsLetter lib n \<or> IsDigit lib n \<or> n \<in> set (map of_char '' -_.()'')) (runes name)"

definition openToInternet :: "string list \<Rightarrow> bool" where
  "openToInternet addresses = list_ex (\<lambda>a. a = ''0.0.0.0/0'' \<or> a = ''::/0'') addresses"

definition plain_view :: "Project \<Rightarrow> projectView" where
  "plain_view p = \<lparr>view_Project = p, view_OpenToInternet = False, view_RotationPending = False, view_Limits = None,
     view_SizeBytes = None, view_SizeError = '''', view_Policy = None, view_Connections = [], view_Deletion = None\<rparr>"

definition deletion_of :: "Project \<Rightarrow> err + Job option \<Rightarrow> deletionView" where
  "deletion_of p found = (case found of
     Inr (Some job) \<Rightarrow> \<lparr>deletionView_StartedAt = Project_DeletingAt p,
       deletionView_Active = (Job_State job = ''queued'' \<or> Job_State job = ''running''),
       deletionView_LastError = (if Job_State job = ''failed'' \<or> Job_State job = ''interrupted'' then Job_Error job else '''')\<rparr>
   | _ \<Rightarrow> \<lparr>deletionView_StartedAt = Project_DeletingAt p, deletionView_Active = False, deletionView_LastError = ''''\<rparr>)"

definition with_size :: "'x HttpServer \<Rightarrow> Project \<Rightarrow> projectView \<Rightarrow> ('x, projectView) act" where
  "with_size s p view = (case Srv_Mgmt s of
     Some m \<Rightarrow> if Project_Stage p = ''ready'' then
         trying (call_out unlogged (Mgmt_DatabaseSize m (Project_DBName p)))
           (\<lambda>_. ret (view\<lparr>view_SizeError := ''Size is unavailable while PostgreSQL cannot be reached.''\<rparr>))
           (\<lambda>n. ret (view\<lparr>view_SizeBytes := Some n\<rparr>))
       else ret view
   | None \<Rightarrow> ret view)"

definition projectSummary :: "'x HttpServer \<Rightarrow> Project \<Rightarrow> ('x, projectView) act" where
  "projectSummary s p =
     bind_tx (if Project_Stage p = ''ready'' then
         trying (on_db (get_PolicyState (Project_ID p))) (\<lambda>_. ret False)
           (\<lambda>st. ret (openToInternet (Unmarshal_list (Srv_Lib s) (PolicyState_Addresses st))))
       else ret False) (\<lambda>opened.
     let view = (plain_view p)\<lparr>view_OpenToInternet := opened\<rparr> in
     if Project_Stage p = ''deleting'' then
       bind_tx (attempt (on_db (LastDeleteJob (Project_ID p)))) (\<lambda>found.
       ret (view\<lparr>view_Deletion := Some (deletion_of p found)\<rparr>))
     else
       bind_tx (trying (on_db (PendingPassword (Project_ID p))) (\<lambda>_. ret False) (\<lambda>pending. ret (pending \<noteq> ''''))) (\<lambda>rotating.
       with_size s p (view\<lparr>view_RotationPending := rotating\<rparr>)))"

fun summaries :: "'x HttpServer \<Rightarrow> Project list \<Rightarrow> ('x, projectView list) act" where
  "summaries s [] = ret []"
| "summaries s (p # ps) = bind_tx (projectSummary s p) (\<lambda>v. bind_tx (summaries s ps) (\<lambda>vs. ret (v # vs)))"

section \<open>Guards\<close>

definition provisioning_down :: "Request \<Rightarrow> Response" where
  "provisioning_down r = failure r 503 ''postgres_unavailable''
     ''Project provisioning is unavailable on this installation. Run host diagnostics.''"

definition provisioningReady :: "'x HttpServer \<Rightarrow> Request \<Rightarrow> Response + ('x Mgmt \<times> 'x Provisioner)" where
  "provisioningReady s r = (case (Srv_Mgmt s, Srv_Provisioner s) of
     (Some m, Some p) \<Rightarrow> Inr (m, p)
   | _ \<Rightarrow> Inl (provisioning_down r))"

definition provisioner_ready :: "'x HttpServer \<Rightarrow> Request \<Rightarrow> Response + 'x Provisioner" where
  "provisioner_ready s r = (case Srv_Provisioner s of Some p \<Rightarrow> Inr p | None \<Rightarrow> Inl (provisioning_down r))"

definition jobsReady :: "'x HttpServer \<Rightarrow> Request \<Rightarrow> Response + 'x JobWorker" where
  "jobsReady s r = (case Srv_Jobs s of
     Some w \<Rightarrow> Inr w
   | None \<Rightarrow> Inl (failure r 503 ''postgres_unavailable'' ''Backups are unavailable on this installation. Run host diagnostics.''))"

definition not_found :: "Request \<Rightarrow> string \<Rightarrow> Response" where
  "not_found r text = failure r 404 ''not_found'' text"

definition project :: "'x HttpServer \<Rightarrow> Request \<Rightarrow> (Project \<Rightarrow> ('x, Response) act) \<Rightarrow> ('x, Response) act" where
  "project s r k = trying (on_db (get_Project (PathValue r ''id'')))
     (\<lambda>e. ret (if e = ErrProjectNotFound then not_found r ''Project not found.'' else unavailable r storage_down)) k"

section \<open>Listing, creating and retrying\<close>

definition listProjects :: "'x HttpServer \<Rightarrow> Request \<Rightarrow> ('x, Response) act" where
  "listProjects s r = signed_in s r (\<lambda>_ _.
     trying (on_db Projects) (\<lambda>_. ret (unavailable r storage_down)) (\<lambda>ps.
     bind_tx (summaries s ps) (\<lambda>views.
     bind_tx (databaseAccess_of s) (\<lambda>access.
     ret (write_json 200 (AMap [(''projects'', AList (map AProjectView views)), (''database_access'', AAccess access)]))))))"

text \<open>The names of a new project are made from one random token.\<close>

definition new_project :: "string \<Rightarrow> string \<Rightarrow> Project" where
  "new_project token name = (let suffix = take 12 (hex (bytes token)) in
     \<lparr>Project_ID = ''prj_'' @ suffix, Project_Name = name, Project_DBName = ''app_'' @ suffix, Project_RoleName = ''app_'' @ suffix,
      Project_Stage = '''', Project_Failed = False, Project_StageError = '''', Project_CreatedAt = 0, Project_ReadyAt = 0,
      Project_FrozenAt = 0, Project_DeletingAt = 0\<rparr>)"

definition this_minute :: "gotime \<Rightarrow> string" where
  "this_minute t = format_rfc3339 (t - t mod minute)"

definition draw_project :: "'x HttpServer \<Rightarrow> string \<Rightarrow> ('x, Project \<times> string) act" where
  "draw_project s name =
     bind_tx (fresh_token s) (\<lambda>token.
     bind_tx (fresh_token s) (\<lambda>password. ret (new_project token name, password)))"

definition save_project :: "'x HttpServer \<Rightarrow> Project \<Rightarrow> string \<Rightarrow> string \<Rightarrow> ('x, Project \<times> bool) act" where
  "save_project s p password k =
     bind_tx (wall s) (\<lambda>t. on_db (CreateProject p k (Srv_Seal s (project_context p) password) t))"

definition invalid_name :: "Request \<Rightarrow> Response" where
  "invalid_name r = failure r 400 ''invalid_name''
     (''Use 1'' @ [CHR 0xE2, CHR 0x80, CHR 0x93] @ ''64 letters, digits, spaces, dots, dashes, underscores, or parentheses.'')"

definition createProject :: "'x HttpServer \<Rightarrow> Request \<Rightarrow> ('x, Response) act" where
  "createProject s r = signed_in s r (\<lambda>session _.
     granted (provisioningReady s r) (\<lambda>_.
     granted (decode (Read_create (Srv_Lib s)) r) (\<lambda>(name, given).
     if \<not> validProjectName (Srv_Lib s) name then ret (invalid_name r)
     else bind_tx (if given = '''' \<or> length given > 128
                   then bind_tx (wall s) (\<lambda>t. ret (Hash (Session_Email session @ ''|'' @ name @ ''|'' @ this_minute t)))
                   else ret given) (\<lambda>k.
       bind_tx (draw_project s name) (\<lambda>(p, password).
       trying (save_project s p password k) (\<lambda>_. ret (unavailable r ''Project could not be saved. Run host diagnostics.'')) (\<lambda>(created, wasCreated).
       bind_tx (projectSummary s created) (\<lambda>view.
       ret (write_json (if wasCreated then 202 else 200) (AProjectView view)))))))))"

definition getProject :: "'x HttpServer \<Rightarrow> Request \<Rightarrow> ('x, Response) act" where
  "getProject s r = signed_in s r (\<lambda>_ _.
     project s r (\<lambda>p.
     bind_tx (projectSummary s p) (\<lambda>view.
     bind_tx (attempt (on_db (get_PolicyState (Project_ID p)))) (\<lambda>policy.
     bind_tx (attempt (on_db (get_ProjectLimits (Project_ID p)))) (\<lambda>limits.
     bind_tx (case Srv_Mgmt s of
         Some m \<Rightarrow> if Project_Stage p = ''ready'' then
             trying (call_out unlogged (Mgmt_Connections m (Project_DBName p) (Project_RoleName p))) (\<lambda>_. ret []) ret
           else ret []
       | None \<Rightarrow> ret []) (\<lambda>connections.
     bind_tx (databaseAccess_of s) (\<lambda>access.
     let view = view\<lparr>view_Policy := (case policy of Inr st \<Rightarrow> Some st | Inl _ \<Rightarrow> None),
           view_Limits := (case limits of Inr l \<Rightarrow> Some l | Inl _ \<Rightarrow> None), view_Connections := connections\<rparr> in
     ret (write_json 200 (AMap [(''project'', AProjectView view), (''database_access'', AAccess access)])))))))))"

definition retryProject :: "'x HttpServer \<Rightarrow> Request \<Rightarrow> ('x, Response) act" where
  "retryProject s r = signed_in s r (\<lambda>_ _.
     granted (provisioningReady s r) (\<lambda>_.
     project s r (\<lambda>p.
     trying (on_db (RetryProject (Project_ID p)))
       (\<lambda>_. ret (failure r 409 ''not_failed'' ''Only failed projects can be retried.''))
       (\<lambda>_. ret (answer 204 Empty)))))"

definition getCredentials :: "'x HttpServer \<Rightarrow> Request \<Rightarrow> ('x, Response) act" where
  "getCredentials s r = signed_in s r (\<lambda>_ _.
     project s r (\<lambda>p.
     if Project_Stage p \<noteq> ''ready'' then
       ret (failure r 409 ''not_ready'' ''Credentials become available once the database is ready.'')
     else trying (projectCredentials s p) (\<lambda>_. ret (unavailable r ''Stored credentials could not be read.'')) (\<lambda>c.
       bind_tx (trying (on_db (PendingPassword (Project_ID p))) (\<lambda>_. ret '''') ret) (\<lambda>pending.
       ret (write_json 200 (ACredentials c (pending \<noteq> '''')))))))"

section \<open>Access rules, writes and limits\<close>

definition being_deleted :: "Request \<Rightarrow> Response" where
  "being_deleted r = failure r 409 ''deleting'' ''This database is being deleted.''"

definition updateAccess :: "'x HttpServer \<Rightarrow> Request \<Rightarrow> ('x, Response) act" where
  "updateAccess s r = signed_in s r (\<lambda>_ _.
     granted (provisioningReady s r) (\<lambda>(_, prov).
     project s r (\<lambda>p.
     granted (decode (Read_access (Srv_Lib s)) r) (\<lambda>(revision, addresses).
     if Project_Stage p = ''deleting'' then ret (being_deleted r)
     else case Normalize addresses of
       Inl e \<Rightarrow> ret (failure r 400 ''invalid_addresses'' (Srv_Text s e))
     | Inr normalized \<Rightarrow>
         bind_tx (wall s) (\<lambda>t.
         trying (on_db (RecordPolicyRevision (Project_ID p) revision (Marshal (Srv_Lib s) (AList (map AText normalized))) t))
           (\<lambda>e. ret (if e = ErrRevisionConflict then
                failure r 409 ''revision_conflict'' ''The access rules changed elsewhere. Reload and try again.''
              else unavailable r ''Access rules could not be saved.''))
           (\<lambda>_.
            then_tx (record_audit s r ''access.update'' (Project_ID p) (Some (AMap [(''addresses'', AInt (int (length normalized)))])))
            (then_tx (if Project_Stage p = ''ready'' then ignoring (SyncPolicy prov) else ret ())
            (trying (on_db (get_PolicyState (Project_ID p)))
               (\<lambda>_. ret (unavailable r ''Access rules could not be read back.''))
               (\<lambda>st. ret (write_json 200 (APolicyState st)))))))))))"

text \<open>\<^verbatim>\<open>UPDATE\<close> of PostgreSQL first, then of the record; if the record fails, PostgreSQL is set back.\<close>

definition set_writes :: "'x Mgmt \<Rightarrow> Project \<Rightarrow> bool \<Rightarrow> ('x, unit) act" where
  "set_writes m p frozen = call_out unlogged (Mgmt_SetWritesFrozen m (Project_DBName p) (Project_RoleName p) frozen)"

definition freeze :: "'x HttpServer \<Rightarrow> Request \<Rightarrow> 'x Mgmt \<Rightarrow> Project \<Rightarrow> bool \<Rightarrow> ('x, Response) act" where
  "freeze s r m p frozen =
     trying (set_writes m p frozen)
       (\<lambda>_. ret (failure r 503 ''postgres_unavailable'' ''PostgreSQL did not apply the change. Run host diagnostics.''))
       (\<lambda>_.
        bind_tx (if frozen then bind_tx (wall s) (\<lambda>t. ret (Some t)) else ret None) (\<lambda>at_time.
        trying (on_db (SetProjectFrozen (Project_ID p) at_time))
          (\<lambda>_. then_tx (ignoring (set_writes m p (\<not> frozen)))
             (ret (unavailable r ''The change could not be saved and was reverted.'')))
          (\<lambda>_.
           then_tx (record_audit s r (if frozen then ''writes.freeze'' else ''writes.resume'') (Project_ID p) None)
           (bind_tx (projectSummary s (p\<lparr>Project_FrozenAt := (case at_time of Some t \<Rightarrow> unix t | None \<Rightarrow> 0)\<rparr>)) (\<lambda>view.
            ret (write_json 200 (AProjectView view)))))))"

definition updateWrites :: "'x HttpServer \<Rightarrow> Request \<Rightarrow> ('x, Response) act" where
  "updateWrites s r = signed_in s r (\<lambda>_ _.
     granted (provisioningReady s r) (\<lambda>(m, _).
     project s r (\<lambda>p.
     if Project_Stage p \<noteq> ''ready'' \<or> Project_Failed p then
       ret (failure r 409 ''not_ready'' ''Writes can be frozen once the database is ready.'')
     else granted (decode (Read_writes (Srv_Lib s)) r) (\<lambda>frozen.
       if frozen = (Project_FrozenAt p \<noteq> 0) then
         bind_tx (projectSummary s p) (\<lambda>view. ret (write_json 200 (AProjectView view)))
       else freeze s r m p frozen))))"

definition putLimits :: "'x HttpServer \<Rightarrow> Request \<Rightarrow> ('x, Response) act" where
  "putLimits s r = signed_in s r (\<lambda>_ _.
     granted (provisioner_ready s r) (\<lambda>prov.
     project s r (\<lambda>p.
     granted (decode (Read_limits (Srv_Lib s)) r) (\<lambda>(limits, revision).
     if Project_Stage p = ''deleting'' then ret (being_deleted r)
     else case Validate_limits limits of
       Inl e \<Rightarrow> ret (failure r 400 ''invalid_limits'' (Srv_Text s e))
     | Inr _ \<Rightarrow>
         bind_tx (wall s) (\<lambda>t.
         trying (on_db (SetProjectLimits (Project_ID p) limits revision t))
           (\<lambda>e. ret (if e = ErrRevisionConflict then
                failure r 409 ''revision_conflict'' ''The limits changed elsewhere. Reload and try again.''
              else unavailable r ''Limits could not be saved.''))
           (\<lambda>saved.
            then_tx (record_audit s r ''limits.update'' (Project_ID p) (Some (ALimits limits)))
            (if Project_Stage p = ''ready'' then
               then_tx (SyncLimits prov)
               (trying (on_db (get_ProjectLimits (Project_ID p)))
                  (\<lambda>_. ret (write_json 200 (AProjectLimits saved))) (\<lambda>current. ret (write_json 200 (AProjectLimits current))))
             else ret (write_json 200 (AProjectLimits saved)))))))))"

definition not_rotatable :: "Request \<Rightarrow> Response" where
  "not_rotatable r = failure r 409 ''not_ready'' ''Passwords can be changed once the database is ready.''"

definition rotateCredentials :: "'x HttpServer \<Rightarrow> Request \<Rightarrow> ('x, Response) act" where
  "rotateCredentials s r = signed_in s r (\<lambda>_ _.
     granted (provisioningReady s r) (\<lambda>(_, prov).
     project s r (\<lambda>p.
     if Project_Stage p \<noteq> ''ready'' \<or> Project_Failed p then ret (not_rotatable r)
     else bind_tx (auditEntry s r ''credentials.rotate'' (Project_ID p) None) (\<lambda>entry.
       trying (Rotate prov p entry)
         (\<lambda>e. ret (if e = ErrProjectNotFound then not_rotatable r
            else if e = ErrRotationIncomplete then failure r 502 ''rotation_incomplete''
              ''PostgreSQL did not confirm the new password yet. It will be finished automatically; the new password is shown once it is active.''
            else unavailable r ''The password change could not be recorded; nothing changed.''))
         (\<lambda>password.
          bind_tx (databaseAccess_of s) (\<lambda>access.
          bind_tx (wall s) (\<lambda>t.
          ret (write_json 200 (AMap [(''credentials'', ADetails (connectionDetails_of access p password)), (''rotated_at'', AInt (unix t))])))))))))"

section \<open>Connection use\<close>

definition role_view :: "Project list \<Rightarrow> RoleUse \<Rightarrow> roleView" where
  "role_view ps u = \<lparr>roleView_Use = u,
     roleView_Project = coalesce (map_of (rev (map (\<lambda>p. (Project_RoleName p, Project_Name p)) ps)) (RoleUse_Role u)) '''',
     roleView_Warning = NearLimit (RoleUse_Connections u) (RoleUse_Limit u)\<rparr>"

definition budget_view :: "Budget \<Rightarrow> Project list \<Rightarrow> any" where
  "budget_view b ps = AMap [(''max_connections'', AInt (Budget_MaxConnections b)),
     (''superuser_reserved'', AInt (Budget_SuperuserReserved b)), (''reserved'', AInt (Budget_Reserved b)),
     (''available'', AInt (Budget_Available b)), (''projects_used'', AInt (Budget_ProjectsUsed b)),
     (''projects_limit'', AInt (Budget_ProjectsLimit b)), (''other_used'', AInt (Budget_OtherUsed b)),
     (''warning'', ABool (fst (Warnings b))), (''overcommitted'', ABool (Budget_ProjectsLimit b > Budget_Available b)),
     (''roles'', AList (map (ARoleView \<circ> role_view ps) (Budget_Roles b))),
     (''system'', AList (map (ARoleView \<circ> role_view ps) (Budget_System b)))]"

definition connectionBudget :: "'x HttpServer \<Rightarrow> Request \<Rightarrow> ('x, Response) act" where
  "connectionBudget s r = signed_in s r (\<lambda>_ _. case Srv_Mgmt s of
     None \<Rightarrow> ret (failure r 503 ''postgres_unavailable'' ''PostgreSQL management is unavailable. Run host diagnostics.'')
   | Some m \<Rightarrow>
       trying (call_out unlogged (Mgmt_ConnectionBudget m))
         (\<lambda>_. ret (failure r 503 ''postgres_unavailable'' ''Connection use could not be read from PostgreSQL.''))
         (\<lambda>b. bind_tx (trying (on_db Projects) (\<lambda>_. ret []) ret) (\<lambda>ps.
          ret (write_json 200 (budget_view b ps)))))"

section \<open>Connection checks\<close>

definition createConnectionCheck :: "'x HttpServer \<Rightarrow> Request \<Rightarrow> ('x, Response) act" where
  "createConnectionCheck s r = signed_in s r (\<lambda>_ _.
     project s r (\<lambda>p.
     if Project_Stage p \<noteq> ''ready'' then ret (failure r 409 ''not_ready'' ''The database is not ready yet.'')
     else trying (projectCredentials s p) (\<lambda>_. ret (unavailable r ''Stored credentials could not be read.'')) (\<lambda>c.
       bind_tx (fresh_token s) (\<lambda>first.
       bind_tx (fresh_token s) (\<lambda>other.
       let application = ''pgfy-check-'' @ take 24 first; cid = ''chk_'' @ take 16 other in
       bind_tx (databaseAccess_of s) (\<lambda>access.
       bind_tx (wall s) (\<lambda>t.
       trying (on_db (NewConnectionCheck cid (Project_ID p) (Hash application) (Access_Mode access) t))
         (\<lambda>_. ret (unavailable r ''Connection check could not be saved.''))
         (\<lambda>_. bind_tx (wall s) (\<lambda>shown. ret (write_json 201 (AMap [(''id'', AText cid),
            (''expires_at'', AInt (unix (shown + 10 * minute))), (''application_name'', AText application),
            (''command'', AText (''psql '' @ quoted (libpqURL c @ ''&application_name='' @ application) @
               '' -c '' @ quoted ''select pg_sleep(20)''))])))))))))))"

definition complete_with :: "'x HttpServer \<Rightarrow> string \<Rightarrow> string \<Rightarrow> Connection list \<Rightarrow> ('x, unit) act" where
  "complete_with s checkID hash connections = (case find (\<lambda>c. Hash (Connection_ApplicationName c) = hash) connections of
     None \<Rightarrow> ret ()
   | Some c \<Rightarrow>
       bind_tx (wall s) (\<lambda>t.
       ignoring (on_db (CompleteConnectionCheck checkID (Marshal (Srv_Lib s)
         (AMap [(''client_addr'', AText (Connection_ClientAddr c)), (''tls'', ABool (Connection_TLS c)), (''observed_at'', AInt (unix t))]))))))"

definition observe_check :: "'x HttpServer \<Rightarrow> Project \<Rightarrow> string \<Rightarrow> ('x, unit) act" where
  "observe_check s p checkID =
     bind_tx (attempt (on_db (PendingChallengeHash (Project_ID p) checkID))) (\<lambda>found.
     case (found, Srv_Mgmt s) of
       (Inr hash, Some m) \<Rightarrow>
         trying (call_out unlogged (Mgmt_Connections m (Project_DBName p) (Project_RoleName p))) (\<lambda>_. ret ())
           (complete_with s checkID hash)
     | _ \<Rightarrow> ret ())"

definition check_view :: "ConnectionCheck \<Rightarrow> any" where
  "check_view c = AMap ([(''id'', AText (ConnectionCheck_ID c)), (''state'', AText (ConnectionCheck_State c)),
     (''expires_at'', AInt (ConnectionCheck_ExpiresAt c)), (''created_at'', AInt (ConnectionCheck_CreatedAt c))] @
     (if ConnectionCheck_Evidence c \<noteq> '''' then [(''evidence'', ARaw (ConnectionCheck_Evidence c))] else []))"

definition getConnectionCheck :: "'x HttpServer \<Rightarrow> Request \<Rightarrow> ('x, Response) act" where
  "getConnectionCheck s r = signed_in s r (\<lambda>_ _.
     project s r (\<lambda>p.
     bind_tx (wall s) (\<lambda>t.
     then_tx (ignoring (on_db (ExpireConnectionChecks t)))
     (then_tx (observe_check s p (PathValue r ''check''))
     (trying (on_db (get_ConnectionCheck (Project_ID p) (PathValue r ''check'')))
       (\<lambda>e. ret (if e = ErrProjectNotFound then not_found r ''Connection check not found.''
          else unavailable r ''Connection check could not be read.''))
       (\<lambda>c. ret (write_json 200 (check_view c))))))))"

section \<open>Deletion\<close>

definition jobView_of :: "Library \<Rightarrow> Job \<Rightarrow> gotime \<Rightarrow> jobView" where
  "jobView_of lib j t = \<lparr>jobView_Job = j, jobView_ResultJSON = (if Valid lib (Job_Result j) then Job_Result j else ''{}''),
     jobView_Elapsed = (if Job_StartedAt j > 0
       then (if Job_FinishedAt j = 0 then unix t else Job_FinishedAt j) - Job_StartedAt j else 0)\<rparr>"

definition view_job :: "'x HttpServer \<Rightarrow> Job \<Rightarrow> ('x, jobView) act" where
  "view_job s j = (if Job_FinishedAt j = 0 then bind_tx (wall s) (\<lambda>t. ret (jobView_of (Srv_Lib s) j t))
     else ret (jobView_of (Srv_Lib s) j 0))"

definition storageTarget :: "'x HttpServer \<Rightarrow> ('x, string option) act" where
  "storageTarget s = (case Srv_Jobs s of
     None \<Rightarrow> ret None
   | Some w \<Rightarrow> trying (StorageSettings (base w)) (\<lambda>_. ret None) (\<lambda>st. ret (Some (Target st))))"

definition recentlyBackedUp :: "'x HttpServer \<Rightarrow> Project \<Rightarrow> ('x, bool) act" where
  "recentlyBackedUp s p =
     bind_tx (storageTarget s) (\<lambda>found. case found of
       None \<Rightarrow> ret False
     | Some target \<Rightarrow>
         trying (on_db get_BackupPolicy) (\<lambda>_. ret False) (\<lambda>policy.
         trying (on_db (NewestRecoverable target (Config_ID (Srv_Config s)))) (\<lambda>_. ret False) (\<lambda>newest.
         bind_tx (wall s) (\<lambda>t. ret (coalesce (map_of newest (Project_ID p)) 0 > unix (t - Interval policy))))))"

definition not_deletable :: "Request \<Rightarrow> Response" where
  "not_deletable r = failure r 409 ''not_deletable'' ''Wait until the database is ready or its setup has failed.''"

definition deletion_refused :: "Request \<Rightarrow> err \<Rightarrow> Response" where
  "deletion_refused r e = (case e of
     ErrMaintenance \<Rightarrow> failure r 503 ''maintenance'' ''An update is in progress. Try again when it finishes.''
   | ErrNotDeletable \<Rightarrow> not_deletable r
   | ErrProjectBusy \<Rightarrow> failure r 409 ''job_busy'' ''A backup or restore of this database is running. Try again when it finishes.''
   | ErrProjectNotFound \<Rightarrow> not_found r ''Project not found.''
   | _ \<Rightarrow> unavailable r ''The deletion could not be saved.'')"

definition begin_delete :: "'x HttpServer \<Rightarrow> Request \<Rightarrow> 'x JobWorker \<Rightarrow> Project \<Rightarrow> bool \<Rightarrow> ('x, Response) act" where
  "begin_delete s r w p acknowledged =
     bind_tx (auditEntry s r ''project.delete'' (Project_ID p)
       (Some (AMap [(''name'', AText (Project_Name p)), (''acknowledged_without_backup'', ABool acknowledged)]))) (\<lambda>entry.
     bind_tx (observe (DrawEach w)) (\<lambda>tokens.
     bind_tx (wall s) (\<lambda>t.
     trying (on_db (BeginProjectDeletion (Project_ID p) (delete_job w tokens) entry t)) (\<lambda>e. ret (deletion_refused r e)) (\<lambda>(job, _).
     bind_tx (trying (on_db (get_Project (Project_ID p)))
         (\<lambda>_. bind_tx (wall s) (\<lambda>t. ret (p\<lparr>Project_Stage := ''deleting'', Project_DeletingAt := unix t\<rparr>))) ret) (\<lambda>updated.
     bind_tx (projectSummary s updated) (\<lambda>view.
     bind_tx (view_job s job) (\<lambda>shown.
     ret (write_json 202 (AMap [(''project'', AProjectView view), (''job'', AJob shown)])))))))))"

definition deleteProject :: "'x HttpServer \<Rightarrow> Request \<Rightarrow> ('x, Response) act" where
  "deleteProject s r = signed_in s r (\<lambda>_ _.
     granted (jobsReady s r) (\<lambda>w.
     granted (provisioner_ready s r) (\<lambda>_.
     project s r (\<lambda>p.
     granted (decode (Read_delete (Srv_Lib s)) r) (\<lambda>(confirm, acknowledge).
     if Project_Stage p = ''deleting'' then begin_delete s r w p False
     else if Project_Stage p \<noteq> ''ready'' \<and> \<not> Project_Failed p then ret (not_deletable r)
     else if confirm \<noteq> Project_Name p then
       ret (failure r 400 ''name_mismatch'' ''Type the database name exactly to confirm.'')
     else if Project_Stage p = ''ready'' then
       bind_tx (recentlyBackedUp s p) (\<lambda>recent.
       if recent then begin_delete s r w p False
       else if \<not> acknowledge then ret (failure r 409 ''backup_required''
         ''There is no recoverable backup newer than the backup interval. Back up first, or confirm that data written since the last backup will be lost.'')
       else begin_delete s r w p True)
     else begin_delete s r w p False)))))"

section \<open>Alerts\<close>

definition alertsReady :: "'x HttpServer \<Rightarrow> Request \<Rightarrow> Response + 'x Engine" where
  "alertsReady s r = (case Srv_Alerts s of
     Some e \<Rightarrow> Inr e
   | None \<Rightarrow> Inl (unavailable r ''Alerts are unavailable on this installation. Run host diagnostics.''))"

text \<open>Only the masked URL leaves the server, and whether a secret is set.\<close>

definition webhook_view :: "url_parser \<Rightarrow> bool \<Rightarrow> Webhook \<Rightarrow> any" where
  "webhook_view parse configured hook = AMap [(''configured'', ABool configured), (''url'', AText (Masked_webhook parse hook)),
     (''has_secret'', ABool (Webhook_Secret hook \<noteq> '''')), (''private_endpoint'', ABool (Webhook_PrivateEndpoint hook))]"

definition getAlertSettings :: "'x HttpServer \<Rightarrow> Request \<Rightarrow> ('x, Response) act" where
  "getAlertSettings s r = signed_in s r (\<lambda>_ _.
     granted (alertsReady s r) (\<lambda>e.
     bind_tx (get_Webhook e) (\<lambda>(hook, configured, failed). case failed of
       Some _ \<Rightarrow> ret (unavailable r ''Alert settings could not be read.'')
     | None \<Rightarrow> ret (write_json 200 (webhook_view (UrlParse (Srv_Lib s)) configured hook)))))"

text \<open>A masked URL that comes back keeps the stored one, a blank secret the stored secret.\<close>

definition merged_webhook :: "url_parser \<Rightarrow> Webhook \<Rightarrow> bool \<Rightarrow> Webhook \<Rightarrow> Webhook" where
  "merged_webhook parse current configured input =
     (let input = (if configured \<and> Webhook_URL input = Masked_webhook parse current then input\<lparr>Webhook_URL := Webhook_URL current\<rparr> else input)
      in if Webhook_Secret input = '''' \<and> configured then input\<lparr>Webhook_Secret := Webhook_Secret current\<rparr> else input)"

definition save_webhook :: "'x HttpServer \<Rightarrow> Request \<Rightarrow> 'x Engine \<Rightarrow> Webhook \<Rightarrow> ('x, Response) act" where
  "save_webhook s r e hook =
     trying (SaveWebhook e hook) (\<lambda>_. ret (unavailable r ''Alert settings could not be saved.'')) (\<lambda>_.
     then_tx (record_audit s r ''settings.alerts'' (Webhook_Host (UrlParse (Srv_Lib s)) hook)
       (Some (AMap [(''enabled'', ABool (Webhook_URL hook \<noteq> '''')), (''private_endpoint'', ABool (Webhook_PrivateEndpoint hook))])))
     (ret (write_json 200 (webhook_view (UrlParse (Srv_Lib s)) (Webhook_URL hook \<noteq> '''') hook))))"

definition putAlertSettings :: "'x HttpServer \<Rightarrow> Request \<Rightarrow> ('x, Response) act" where
  "putAlertSettings s r = signed_in s r (\<lambda>_ _.
     granted (alertsReady s r) (\<lambda>e.
     granted (decode (Read_webhook (Srv_Lib s)) r) (\<lambda>input.
     bind_tx (get_Webhook e) (\<lambda>(current, configured, failed).
     if Webhook_URL input = '''' then save_webhook s r e no_webhook
     else
       let hook = merged_webhook (UrlParse (Srv_Lib s)) current (configured \<and> failed = None) input in
       case Validate_webhook (UrlParse (Srv_Lib s)) hook of
         Some failed \<Rightarrow> ret (failure r 400 ''invalid_webhook'' (Srv_Text s failed))
       | None \<Rightarrow> save_webhook s r e hook))))"

definition testAlerts :: "'x HttpServer \<Rightarrow> 'x handler" where
  "testAlerts s g r =
     bind_tx (authorize s r) (\<lambda>a. case a of
       Inl resp \<Rightarrow> ret (g, resp)
     | Inr _ \<Rightarrow> (case alertsReady s r of
         Inl resp \<Rightarrow> ret (g, resp)
       | Inr e \<Rightarrow>
           bind_tx (SendTest e (gate_alerts g)) (\<lambda>(mem, failed).
           ret (g\<lparr>gate_alerts := mem\<rparr>, write_json 200 (AMap (case failed of
             Some text \<Rightarrow> [(''ok'', ABool False), (''error'', AText text)]
           | None \<Rightarrow> [(''ok'', ABool True)]))))))"

definition listAlerts :: "'x HttpServer \<Rightarrow> gates \<Rightarrow> Request \<Rightarrow> ('x, Response) act" where
  "listAlerts s g r = signed_in s r (\<lambda>_ _.
     granted (alertsReady s r) (\<lambda>_.
     trying (on_db AlertConditions) (\<lambda>_. ret (unavailable r ''Alerts could not be read.'')) (\<lambda>conditions.
     case Delivery (gate_alerts g) of (ok, failed) \<Rightarrow>
     ret (write_json 200 (AMap [(''conditions'', AList (map ACondition conditions)),
       (''delivery'', AMap [(''last_ok_at'', AInt ok), (''last_error'', AText failed)])])))))"

end
