(* ===== verification/Http_Backups.thy ===== *)
theory Http_Backups
  imports Http_Projects
begin

text \<open>
  The handlers for backups, their storage and restores (\<^verbatim>\<open>internal/httpapi/backups.go\<close>), with the checks on
  storage settings they rely on (\<^verbatim>\<open>internal/storage/storage.go\<close>).
\<close>

section \<open>Storage settings\<close>

definition privateAddress :: "IP \<Rightarrow> bool" where
  "privateAddress ip \<longleftrightarrow> IsLoopback ip \<or> IsPrivate ip \<or> IsLinkLocalUnicast ip"

definition privateHost :: "(string \<Rightarrow> ('x, IP list) io) \<Rightarrow> string \<Rightarrow> ('x, unit) io" where
  "privateHost lookup host x = (case lookup host x of
     (Inr addresses, x') \<Rightarrow>
       if addresses = [] then (Inl (EMsg ''the private endpoint's address could not be resolved''), x')
       else if list_ex (\<lambda>a. \<not> privateAddress a) addresses then
         (Inl (EMsg ''a private endpoint must be a loopback or private network address''), x')
       else (Inr (), x')
   | (Inl _, x') \<Rightarrow> (Inl (EMsg ''the private endpoint's address could not be resolved''), x'))"

text \<open>What the dialler of a private endpoint asks before it connects.\<close>

definition private_control :: "string \<Rightarrow> err option" where
  "private_control address = (case SplitHostPort address of
     None \<Rightarrow> Some (EMsg ''the private endpoint address could not be read'')
   | Some host \<Rightarrow> (case ParseIP host of
       Some ip \<Rightarrow> if privateAddress ip then None
         else Some (EMsg ''the private endpoint resolved to a public address and was not contacted'')
     | None \<Rightarrow> Some (EMsg ''the private endpoint resolved to a public address and was not contacted'')))"

definition endpoint_checked :: "(string \<Rightarrow> ('x, IP list) io) \<Rightarrow> Settings \<Rightarrow> URL \<Rightarrow> ('x, unit) io" where
  "endpoint_checked lookup st u =
     (if Scheme u = ''https'' then io_ret ()
      else if \<not> PrivateEndpoint st then
        io_throw (EMsg ''the endpoint must use https:// unless it is a private endpoint on this network'')
      else privateHost lookup (Hostname u))"

definition Validate_settings :: "url_parser \<Rightarrow> (string \<Rightarrow> ('x, IP list) io) \<Rightarrow> Settings \<Rightarrow> ('x, unit) io" where
  "Validate_settings parse lookup st =
     (let bad_endpoint = io_throw (EMsg ''endpoint must be an https:// URL without a path, for example https://s3.us-east-1.amazonaws.com'') in
      case parse (Endpoint st) of
        None \<Rightarrow> bad_endpoint
      | Some u \<Rightarrow>
          if (Scheme u \<noteq> ''https'' \<and> Scheme u \<noteq> ''http'') \<or> URL_Host u = '''' \<or> (URL_Path u \<noteq> '''' \<and> URL_Path u \<noteq> ''/'') then bad_endpoint
          else io_bind (endpoint_checked lookup st u) (\<lambda>_.
            if BucketProtection st \<noteq> ProtectionVersioning \<and> BucketProtection st \<noteq> ProtectionAcknowledged then
              io_throw (EMsg ''choose how this bucket is protected against deletion'')
            else if Bucket st = '''' \<or> list_ex (\<lambda>c. c = CHR ''/'' \<or> c = CHR '' '') (Bucket st) then
              io_throw (EMsg ''bucket name is required'')
            else if AccessKey st = '''' \<or> SecretKey st = '''' then
              io_throw (EMsg ''access key and secret key are required'')
            else if has_prefix (Settings.Prefix st) ''/'' \<or> contains ''..'' (Settings.Prefix st) then
              io_throw (EMsg ''prefix must be a relative path such as pgfy/production'')
            else io_ret ()))"

definition validated :: "'x HttpServer \<Rightarrow> Settings \<Rightarrow> ('x, unit) act" where
  "validated s st = call_out unlogged (Validate_settings (UrlParse (Srv_Lib s)) (Srv_LookupIP s) st)"

definition SaveStorageSettings :: "'x HttpServer \<Rightarrow> Settings \<Rightarrow> ('x, unit) act" where
  "SaveStorageSettings s st =
     then_tx (validated s st)
     (bind_tx (wall s) (\<lambda>t.
      on_db (SetSetting StorageSetting (Srv_Seal s (''setting:'' @ StorageSetting) (Marshal_settings (Srv_Lib s) st)) t)))"

section \<open>Reading and changing the storage\<close>

definition default_settings :: Settings where
  "default_settings = \<lparr>Endpoint = ''https://s3.us-east-1.amazonaws.com'', Region = ''us-east-1'', Bucket = '''', Prefix = ''pgfy'',
     AccessKey = '''', SecretKey = '''', SessionToken = '''', PathStyle = False, PrivateEndpoint = False, BucketProtection = '''',
     ProtectionState = '''', ProtectionCheckedAt = 0\<rparr>"

definition storage_view :: "bool \<Rightarrow> Settings \<Rightarrow> any" where
  "storage_view configured st = AMap [(''configured'', ABool configured), (''settings'', ASettings st)]"

definition getStorage :: "'x HttpServer \<Rightarrow> Request \<Rightarrow> ('x, Response) act" where
  "getStorage s r = signed_in s r (\<lambda>_ _.
     granted (jobsReady s r) (\<lambda>w.
     trying (StorageSettings (base w))
       (\<lambda>e. ret (if e = ErrStorageNotConfigured then write_json 200 (storage_view False default_settings)
          else unavailable r ''Storage settings could not be read.''))
       (\<lambda>st. ret (write_json 200 (storage_view True (Masked st))))))"

text \<open>Blank or masked credentials keep the stored ones.\<close>

definition merged_settings :: "Settings \<Rightarrow> Settings \<Rightarrow> Settings" where
  "merged_settings existing input =
     (let shown = Masked existing in
      input\<lparr>AccessKey := (if AccessKey input = '''' \<or> AccessKey input = AccessKey shown then AccessKey existing else AccessKey input),
        SecretKey := (if SecretKey input = '''' \<or> SecretKey input = SecretKey shown then SecretKey existing else SecretKey input),
        SessionToken := (if SessionToken input = SessionToken shown then SessionToken existing else SessionToken input)\<rparr>)"

definition checkProtection :: "'x JobWorker \<Rightarrow> Settings \<Rightarrow> ('x, string) act" where
  "checkProtection w st = (case New_client w st of
     Inl e \<Rightarrow> throw e
   | Inr c \<Rightarrow>
       bind_tx (call_out unlogged (Protection c)) (\<lambda>state.
       if state = VersioningDisabled then throw (EMsg ''this bucket does not keep versions of deleted objects. Enable versioning on the bucket, then save again.'')
       else if state = VersioningUnsupported \<and> BucketProtection st = ProtectionVersioning then
         throw (EMsg ''this provider does not report bucket versioning. Protect the bucket with the provider's own lock and acknowledge it instead.'')
       else ret state))"

definition invalid_storage :: "'x HttpServer \<Rightarrow> Request \<Rightarrow> err \<Rightarrow> Response" where
  "invalid_storage s r e = failure r 400 ''invalid_storage'' (Srv_Text s e)"

definition putStorage :: "'x HttpServer \<Rightarrow> Request \<Rightarrow> ('x, Response) act" where
  "putStorage s r = signed_in s r (\<lambda>_ _.
     granted (jobsReady s r) (\<lambda>w.
     granted (decode (Read_storage (Srv_Lib s)) r) (\<lambda>input.
     bind_tx (trying (StorageSettings (base w)) (\<lambda>_. ret (input\<lparr>ProtectionState := '''', ProtectionCheckedAt := 0\<rparr>))
       (\<lambda>existing. ret (merged_settings existing (input\<lparr>ProtectionState := '''', ProtectionCheckedAt := 0\<rparr>)))) (\<lambda>st.
     trying (validated s st) (\<lambda>e. ret (invalid_storage s r e)) (\<lambda>_.
     trying (checkProtection w st) (\<lambda>e. ret (invalid_storage s r e)) (\<lambda>state.
     bind_tx (wall s) (\<lambda>t.
     let st = st\<lparr>ProtectionState := state, ProtectionCheckedAt := unix t\<rparr> in
     trying (SaveStorageSettings s st) (\<lambda>_. ret (unavailable r ''Storage settings could not be saved.'')) (\<lambda>_.
     then_tx (record_audit s r ''settings.storage'' (Bucket st)
       (Some (AMap [(''endpoint'', AText (Endpoint st)), (''prefix'', AText (Settings.Prefix st))])))
     (ret (write_json 200 (storage_view True (Masked st)))))))))))) "

definition checkStorage :: "'x HttpServer \<Rightarrow> Request \<Rightarrow> ('x, Response) act" where
  "checkStorage s r = signed_in s r (\<lambda>_ _.
     granted (jobsReady s r) (\<lambda>w.
     trying (StorageClient w)
       (\<lambda>e. ret (if e = ErrStorageNotConfigured then failure r 409 ''storage_not_configured'' ''Save storage settings first.''
          else invalid_storage s r e))
       (\<lambda>c. bind_tx (observe (Check_store (Srv_Now s) c)) (\<lambda>steps.
          ret (write_json 200 (AMap [(''ok'', ABool (steps \<noteq> [] \<and> list_all step_OK steps)), (''steps'', AList (map AStep steps))]))))))"

section \<open>Backups\<close>

definition job_busy :: "Request \<Rightarrow> Response" where
  "job_busy r = failure r 409 ''job_busy'' ''Another backup or restore is still running. Try again when it finishes.''"

definition startBackup :: "'x HttpServer \<Rightarrow> Request \<Rightarrow> ('x, Response) act" where
  "startBackup s r = signed_in s r (\<lambda>_ _.
     granted (jobsReady s r) (\<lambda>w.
     project s r (\<lambda>p.
     if Project_Stage p \<noteq> ''ready'' \<or> Project_Failed p then ret (failure r 409 ''not_ready'' ''The database is not ready yet.'')
     else trying (StorageSettings (base w))
       (\<lambda>_. ret (failure r 409 ''storage_not_configured'' ''Configure backup storage in Settings before backing up.''))
       (\<lambda>_. bind_tx (fresh_token s) (\<lambda>token.
          bind_tx (wall s) (\<lambda>t.
          trying (on_db (EnqueueBackupJob (''job_'' @ take 16 token) (Project_ID p) (''{\"scheduled\":false}'') False t))
            (\<lambda>e. ret (if e = ErrJobBusy then job_busy r else unavailable r ''The backup could not be queued.''))
            (\<lambda>job. bind_tx (view_job s job) (\<lambda>v. ret (write_json 202 (AJob v))))))))))"

fun view_jobs :: "'x HttpServer \<Rightarrow> Job list \<Rightarrow> ('x, any list) act" where
  "view_jobs s [] = ret []"
| "view_jobs s (j # js) = bind_tx (view_job s j) (\<lambda>v. bind_tx (view_jobs s js) (\<lambda>vs. ret (AJob v # vs)))"

definition no_policy :: BackupPolicy where
  "no_policy = \<lparr>bpo_target_interval_hours = 0, bpo_retention_daily = 0, bpo_retention_weekly = 0, bpo_preferred_hour = 0, bpo_updated_at = 0\<rparr>"

definition no_schedule :: schedule_row where
  "no_schedule = \<lparr>sch_project_id = '''', sch_last_attempt_at = 0, sch_failures = 0, sch_next_attempt_at = 0\<rparr>"

text \<open>A failed query leaves its variable at the zero value.\<close>

definition or_zero :: "'a \<Rightarrow> 'a dbop \<Rightarrow> ('x, 'a) act" where
  "or_zero zero m = trying (on_db m) (\<lambda>_. ret zero) ret"

definition newest_of_project :: "'x HttpServer \<Rightarrow> string option \<Rightarrow> Project \<Rightarrow> ('x, int) act" where
  "newest_of_project s target p = (case target of
     None \<Rightarrow> ret 0
   | Some tgt \<Rightarrow> trying (on_db (NewestRecoverable tgt (Config_ID (Srv_Config s)))) (\<lambda>_. ret 0)
       (\<lambda>newest. ret (coalesce (map_of newest (Project_ID p)) 0)))"

definition next_scheduled :: "bool \<Rightarrow> BackupPolicy \<Rightarrow> int \<Rightarrow> schedule_row \<Rightarrow> int" where
  "next_scheduled configured policy newest schedule =
     (let due = (if configured \<and> newest > 0 then NextAfter policy newest else 0)
      in if sch_next_attempt_at schedule > due then sch_next_attempt_at schedule else due)"

definition listBackups :: "'x HttpServer \<Rightarrow> Request \<Rightarrow> ('x, Response) act" where
  "listBackups s r = signed_in s r (\<lambda>_ _.
     project s r (\<lambda>p.
     trying (on_db (ProjectBackups (Project_ID p) 50)) (\<lambda>_. ret (unavailable r ''Backup history could not be read.'')) (\<lambda>taken.
     trying (on_db (ProjectJobs (Project_ID p) 20)) (\<lambda>_. ret (unavailable r ''Backup history could not be read.'')) (\<lambda>history.
     bind_tx (view_jobs s history) (\<lambda>shown.
     bind_tx (storageTarget s) (\<lambda>target.
     bind_tx (or_zero no_policy get_BackupPolicy) (\<lambda>policy.
     bind_tx (or_zero no_schedule (get_BackupSchedule (Project_ID p))) (\<lambda>schedule.
     bind_tx (newest_of_project s target p) (\<lambda>newest.
     ret (write_json 200 (AMap [(''backups'', AList (map (\<lambda>b. ABackup b (Backup_Manifest b)) taken)), (''jobs'', AList shown),
       (''storage_configured'', ABool (target \<noteq> None)),
       (''next_scheduled_at'', AInt (next_scheduled (target \<noteq> None) policy newest schedule)),
       (''newest_backup_at'', AInt newest), (''target_interval_hours'', AInt (bpo_target_interval_hours policy)),
       (''failures'', AInt (sch_failures schedule)), (''last_attempt_at'', AInt (sch_last_attempt_at schedule))])))))))))))"

definition getBackupPolicy :: "'x HttpServer \<Rightarrow> Request \<Rightarrow> ('x, Response) act" where
  "getBackupPolicy s r = signed_in s r (\<lambda>_ _.
     trying (on_db get_BackupPolicy) (\<lambda>_. ret (unavailable r ''Backup settings could not be read.''))
       (\<lambda>policy. ret (write_json 200 (ABackupPolicy policy))))"

definition putBackupPolicy :: "'x HttpServer \<Rightarrow> Request \<Rightarrow> ('x, Response) act" where
  "putBackupPolicy s r = signed_in s r (\<lambda>_ _.
     trying (on_db get_BackupPolicy) (\<lambda>_. ret (unavailable r ''Backup settings could not be read.'')) (\<lambda>stored.
     granted (decode (Read_policy (Srv_Lib s) stored) r) (\<lambda>input.
     bind_tx (wall s) (\<lambda>t.
     trying (on_db (SetBackupPolicy input t)) (\<lambda>e. ret (failure r 400 ''invalid_policy'' (Srv_Text s e))) (\<lambda>_.
     then_tx (record_audit s r ''settings.backups'' '''' (Some (ABackupPolicy input)))
     (trying (on_db get_BackupPolicy) (\<lambda>_. ret (unavailable r ''Backup settings could not be read back.''))
       (\<lambda>policy. ret (write_json 200 (ABackupPolicy policy)))))))))"

definition getJob :: "'x HttpServer \<Rightarrow> Request \<Rightarrow> ('x, Response) act" where
  "getJob s r = signed_in s r (\<lambda>_ _.
     trying (on_db (get_Job (PathValue r ''id'')))
       (\<lambda>e. ret (if e = ErrProjectNotFound then not_found r ''Job not found.'' else unavailable r ''Job could not be read.''))
       (\<lambda>job. bind_tx (view_job s job) (\<lambda>v. ret (write_json 200 (AJob v)))))"

section \<open>Recovery\<close>

definition discoveryPage :: nat where "discoveryPage = 20"

definition group_of :: "string \<Rightarrow> PrefixState \<Rightarrow> BucketBackup list \<Rightarrow> bool \<Rightarrow> databaseGroup" where
  "group_of installation prefix page further =
     (let g = \<lparr>group_DBName = PS_DBName prefix, group_ProjectID = '''', group_ProjectName = '''', group_InstallationID = '''',
            group_Mixed = PS_Mixed prefix, group_Foreign = False, group_NewestAt = 0, group_Count = PS_Complete prefix,
            group_TotalBytes = sum_list (map BB_SizeBytes page), group_HasMore = further, group_ManifestOnly = PS_ManifestOnly prefix,
            group_Damaged = PS_Damaged prefix, group_ReconciledAt = PS_ReconciledAt prefix, group_Backups = page\<rparr> in
      case page of
        [] \<Rightarrow> g
      | newest # _ \<Rightarrow>
          let g = g\<lparr>group_NewestAt := BB_TakenAt newest\<rparr> in
          if PS_Mixed prefix then g
          else g\<lparr>group_ProjectID := BB_ProjectID newest, group_ProjectName := BB_ProjectName newest,
            group_InstallationID := BB_InstallationID newest, group_Foreign := (BB_InstallationID newest \<noteq> installation)\<rparr>)"

definition group_read :: "'x HttpServer \<Rightarrow> string \<Rightarrow> PrefixState \<Rightarrow> ('x, databaseGroup) act" where
  "group_read s target prefix =
     bind_tx (on_db (BucketBackups target (PS_DBName prefix) 0 discoveryPage)) (\<lambda>(page, further).
     ret (group_of (Config_ID (Srv_Config s)) prefix page further))"

definition group_shown :: "databaseGroup \<Rightarrow> bool" where
  "group_shown g \<longleftrightarrow> group_Count g > 0 \<or> group_ManifestOnly g > 0 \<or> group_Damaged g > 0"

fun groups_read :: "'x HttpServer \<Rightarrow> string \<Rightarrow> PrefixState list \<Rightarrow> ('x, databaseGroup list) act" where
  "groups_read s target [] = ret []"
| "groups_read s target (p # ps) =
     bind_tx (group_read s target p) (\<lambda>g.
     bind_tx (groups_read s target ps) (\<lambda>gs. ret (if group_shown g then g # gs else gs)))"

text \<open>\<^verbatim>\<open>time.Parse\<close> accepts a fraction after the seconds, which does not change the second.\<close>

definition page_time :: "string \<Rightarrow> int option" where
  "page_time v =
     (let digits = takeWhile is_digit (drop 16 v);
          fraction = length v > 16 \<and> (v ! 15 = CHR ''.'' \<or> v ! 15 = CHR '','') \<and> digits \<noteq> []
      in map_option unix (parse_stamp (if fraction then take 15 v @ drop (16 + length digits) v else v)))"

text \<open>\<^verbatim>\<open>strconv.Atoi\<close>: an optional sign and decimal digits, within 64 bits.\<close>

definition Atoi_text :: "string \<Rightarrow> int option" where
  "Atoi_text v =
     (let negative = has_prefix v ''-'';
          digits = (if negative \<or> has_prefix v ''+'' then drop 1 v else v);
          n = (if negative then - int (number digits) else int (number digits))
      in if digits \<noteq> [] \<and> list_all is_digit digits \<and> - (2 ^ 63) \<le> n \<and> n < 2 ^ 63 then Some n else None)"

definition page_bounds :: "Request \<Rightarrow> Response + (int \<times> nat)" where
  "page_bounds r =
     (let before = Req_Query r ''before''; limit = Req_Query r ''limit'' in
      case (if before = '''' then Some 0 else page_time before) of
        None \<Rightarrow> Inl (failure r 400 ''invalid_request'' ''Provide a backup timestamp to page from.'')
      | Some from_time \<Rightarrow>
          if limit = '''' then Inr (from_time, discoveryPage)
          else (case Atoi_text limit of
            Some n \<Rightarrow> if n < 1 \<or> n > 100 then Inl (failure r 400 ''invalid_request'' ''Ask for between 1 and 100 backups.'')
              else Inr (from_time, nat n)
          | None \<Rightarrow> Inl (failure r 400 ''invalid_request'' ''Ask for between 1 and 100 backups.'')))"

definition pageDatabase :: "'x HttpServer \<Rightarrow> Request \<Rightarrow> string \<Rightarrow> string \<Rightarrow> ('x, Response) act" where
  "pageDatabase s r target name =
     (if \<not> ValidDatabaseSegment name then
        ret (failure r 400 ''invalid_request'' ''That is not a database folder written by this application.'')
      else granted (page_bounds r) (\<lambda>(before, limit).
        trying (on_db (BucketBackups target name before limit)) (\<lambda>_. ret (unavailable r ''Backups could not be read.''))
          (\<lambda>(page, further). ret (write_json 200 (AMap [(''db_name'', AText name), (''backups'', AList (map ABucketBackup page)),
             (''has_more'', ABool further)])))))"

definition list_groups :: "'x HttpServer \<Rightarrow> Request \<Rightarrow> string \<Rightarrow> StorageTarget \<Rightarrow> ('x, Response) act" where
  "list_groups s r target state =
     trying (bind_tx (on_db (PrefixStates target)) (groups_read s target))
       (\<lambda>_. ret (unavailable r ''Backups could not be read.''))
       (\<lambda>groups.
        bind_tx (or_zero [] ActiveJobs) (\<lambda>active.
        bind_tx (or_zero [] (RecentJobs 20)) (\<lambda>recent.
        bind_tx (view_jobs s (filter (\<lambda>j. Job_Kind j = ''restore'') recent)) (\<lambda>restores.
        ret (write_json 200 (AMap [(''state'', AText (if StorageTarget_ReconciledAt state = 0 then ''checking'' else ''ok'')),
          (''databases'', AList (map AGroup groups)), (''installation_id'', AText (Config_ID (Srv_Config s))),
          (''reconciled_at'', AInt (StorageTarget_ReconciledAt state)), (''storage_error'', AText (StorageTarget_LastError state)),
          (''busy'', ABool (active \<noteq> [])), (''restores'', AList restores)]))))))"

definition listRecoveryBackups :: "'x HttpServer \<Rightarrow> Request \<Rightarrow> ('x, Response) act" where
  "listRecoveryBackups s r = signed_in s r (\<lambda>_ _.
     granted (jobsReady s r) (\<lambda>w.
     trying (StorageSettings (base w))
       (\<lambda>e. ret (if e = ErrStorageNotConfigured
          then write_json 200 (AMap [(''state'', AText ''storage_not_configured''), (''databases'', AList [])])
          else invalid_storage s r e))
       (\<lambda>st.
        let target = Target st in
        trying (on_db (get_StorageTarget target)) (\<lambda>_. ret (unavailable r ''Backups could not be read.'')) (\<lambda>state.
        if Req_Query r ''db'' \<noteq> '''' then pageDatabase s r target (Req_Query r ''db'')
        else list_groups s r target state))))"

definition restore_answer :: "'x HttpServer \<Rightarrow> Project \<Rightarrow> Job \<Rightarrow> ('x, Response) act" where
  "restore_answer s p job = bind_tx (view_job s job) (\<lambda>v. ret (write_json 202 (AMap [(''project'', AProject p), (''job'', AJob v)])))"

definition queue_restore :: "'x HttpServer \<Rightarrow> Request \<Rightarrow> Project \<Rightarrow> string \<Rightarrow> string \<Rightarrow> ('x, Response) act" where
  "queue_restore s r created manifest name =
     bind_tx (fresh_token s) (\<lambda>token.
     bind_tx (wall s) (\<lambda>t.
     trying (on_db (EnqueueJob (''job_'' @ take 16 token) ''restore'' (Project_ID created)
         (Marshal (Srv_Lib s) (AMap [(''manifest_key'', AText manifest), (''name'', AText name), (''project_id'', AText (Project_ID created))])) t))
       (\<lambda>e. ret (if e = ErrJobBusy then job_busy r else unavailable r ''The restore could not be queued.''))
       (restore_answer s created)))"

definition startRestore :: "'x HttpServer \<Rightarrow> Request \<Rightarrow> ('x, Response) act" where
  "startRestore s r = signed_in s r (\<lambda>session _.
     granted (jobsReady s r) (\<lambda>w.
     granted (provisioningReady s r) (\<lambda>_.
     granted (decode (Read_restore (Srv_Lib s)) r) (\<lambda>(manifest, name).
     if \<not> validProjectName (Srv_Lib s) name then ret (invalid_name r)
     else trying (StorageClient w)
       (\<lambda>_. ret (failure r 409 ''storage_not_configured'' ''Configure backup storage in Settings first.'')) (\<lambda>c.
     trying (call_out unlogged (get_Manifest (Decode_manifest w) c manifest))
       (\<lambda>e. ret (failure r 400 ''invalid_backup'' (Srv_Text s e))) (\<lambda>_.
     bind_tx (draw_project s name) (\<lambda>(p, password).
     bind_tx (wall s) (\<lambda>t.
     trying (save_project s p password (Hash (Session_Email session @ ''|restore|'' @ manifest @ ''|'' @ name @ ''|'' @ this_minute t)))
       (\<lambda>_. ret (unavailable r ''The target project could not be saved.'')) (\<lambda>(created, isNew).
     if isNew then queue_restore s r created manifest name
     else trying (on_db (ProjectJobs (Project_ID created) 1)) (\<lambda>_. ret (unavailable r ''The restore could not be read.'')) (\<lambda>existing.
       case existing of
         job # _ \<Rightarrow> if Job_Kind job = ''restore'' then restore_answer s created job else queue_restore s r created manifest name
       | [] \<Rightarrow> queue_restore s r created manifest name))))))))))"

end
