(* ===== verification/Http_Server.thy ===== *)
theory Http_Server
  imports Http_Backups
begin

text \<open>
  The server itself (\<^verbatim>\<open>internal/httpapi/server.go\<close>): health and status, the dashboard's files, the routes, and the
  guards every request passes first; then the commands of \<^verbatim>\<open>cmd/pgfy/main.go\<close> that work on an opened store.
\<close>

section \<open>Health and status\<close>

definition checks :: "'x HttpServer \<Rightarrow> ('x, bool \<times> (err + string)) act" where
  "checks s =
     bind_tx (if Srv_Store s then trying (on_db Store_Maintenance.Check) (\<lambda>_. ret False) (\<lambda>_. ret True) else ret False) (\<lambda>sqliteOK.
     case Srv_PG s of
       None \<Rightarrow> ret (sqliteOK, Inl (EMsg ''postgres unavailable''))
     | Some probe \<Rightarrow> bind_tx (attempt (call_out unlogged probe)) (\<lambda>pg. ret (sqliteOK, pg)))"

definition reached :: "err + 'a \<Rightarrow> bool" where
  "reached pg = (case pg of Inl _ \<Rightarrow> False | Inr _ \<Rightarrow> True)"

definition live_answer :: "Request \<Rightarrow> ('x, Response) act" where
  "live_answer r = ret (write_json 200 (AMap [(''status'', AText ''live'')]))"

definition ready :: "'x HttpServer \<Rightarrow> Request \<Rightarrow> ('x, Response) act" where
  "ready s r = bind_tx (checks s) (\<lambda>(sqliteOK, pg).
     ret (if \<not> sqliteOK \<or> \<not> reached pg then write_json 503 (AMap [(''status'', AText ''not_ready'')])
          else write_json 200 (AMap [(''status'', AText ''ready'')])))"

definition backupStatus :: "'x HttpServer \<Rightarrow> ('x, string) act" where
  "backupStatus s =
     bind_tx (storageTarget s) (\<lambda>found. case found of
       None \<Rightarrow> ret ''not_configured''
     | Some target \<Rightarrow>
         trying (on_db (get_StorageTarget target)) (\<lambda>_. ret ''unavailable'') (\<lambda>state.
         if StorageTarget_ReconciledAt state = 0 then ret ''checking''
         else bind_tx (or_zero [] BackupFailures) (\<lambda>failing.
           if failing \<noteq> [] then ret ''failing''
           else trying (on_db get_BackupPolicy) (\<lambda>_. ret ''unavailable'') (\<lambda>policy.
             bind_tx (wall s) (\<lambda>t.
             trying (on_db (LateProjects target (Config_ID (Srv_Config s)) (Interval policy) t)) (\<lambda>_. ret ''unavailable'')
               (\<lambda>late. ret (if late \<noteq> [] then ''stale'' else ''ok'')))))))"

definition component_status :: "bool \<Rightarrow> string \<Rightarrow> any" where
  "component_status up version = AMap [(''status'', AText (if up then ''available'' else ''unavailable'')), (''version'', AText version)]"

definition get_status :: "'x HttpServer \<Rightarrow> Request \<Rightarrow> ('x, Response) act" where
  "get_status s r = signed_in s r (\<lambda>_ _.
     bind_tx (checks s) (\<lambda>(sqliteOK, pg).
     bind_tx (trying (call_out unlogged (Srv_SQLiteVersion s)) (\<lambda>_. ret '''') ret) (\<lambda>sqlite.
     bind_tx (or_zero False Maintenance) (\<lambda>updating.
     bind_tx (wall s) (\<lambda>t.
     bind_tx (Read (Srv_HostFiles s) (Srv_HostPaths s) (Config_Mode (Srv_Config s)) t) (\<lambda>host.
     bind_tx (backupStatus s) (\<lambda>backup_state.
     bind_tx (databaseAccess_of s) (\<lambda>access.
     ret (write_json 200 (AMap [(''ready'', ABool (sqliteOK \<and> reached pg)), (''maintenance'', ABool updating), (''host'', AHost host),
       (''sqlite'', component_status sqliteOK sqlite),
       (''postgres'', component_status (reached pg) (case pg of Inr version \<Rightarrow> version | Inl _ \<Rightarrow> '''')),
       (''versions'', AMap (map (\<lambda>(k, v). (k, AText v)) (Srv_Versions s))), (''backups'', AText backup_state),
       (''database_access'', AAccess access)]))))))))))"

definition get_settings :: "'x HttpServer \<Rightarrow> Request \<Rightarrow> ('x, Response) act" where
  "get_settings s r = signed_in s r (\<lambda>_ _. ret (write_json 200 (AConfig (Srv_Config s))))"

section \<open>The dashboard\<close>

definition api_path :: "Request \<Rightarrow> bool" where
  "api_path r \<longleftrightarrow> has_prefix (Path r) ''/api/''"

definition health_path :: "Request \<Rightarrow> bool" where
  "health_path r \<longleftrightarrow> has_prefix (Path r) ''/health/''"

definition reading :: "Request \<Rightarrow> bool" where
  "reading r \<longleftrightarrow> Method r = ''GET'' \<or> Method r = ''HEAD''"

text \<open>Which file of the dashboard a path stands for; \<open>None\<close> is an asset that does not exist.\<close>

definition asset_of :: "Assets \<Rightarrow> string \<Rightarrow> string option" where
  "asset_of assets path =
     (let name = trim_prefix path ''/''; name = (if name = '''' then ''index.html'' else name) in
      if Assets_Stat assets name then Some name
      else if has_prefix name ''assets/'' then None
      else Some ''index.html'')"

text \<open>A file other than the index is sent by the library's file server.\<close>

definition static :: "'x HttpServer \<Rightarrow> Request \<Rightarrow> Response" where
  "static s r =
     (if api_path r \<or> health_path r then not_found r ''Endpoint not found.''
      else if \<not> reading r then answer 405 Empty
      else case Srv_Assets s of
        None \<Rightarrow> answer 503 (Plain ''Dashboard assets unavailable'')
      | Some assets \<Rightarrow> (case asset_of assets (Path r) of
          None \<Rightarrow> answer 404 (Plain ''404 page not found'')
        | Some name \<Rightarrow>
            if name = ''index.html'' then
              set_header ''Cache-Control'' ''no-cache'' (case Assets_Read assets name of
                None \<Rightarrow> answer 503 (Plain ''Dashboard unavailable'')
              | Some page \<Rightarrow> set_header ''Content-Type'' ''text/html; charset=utf-8''
                  (answer 200 (if Method r = ''HEAD'' then Empty else Plain page)))
            else set_header ''Cache-Control'' ''public, max-age=31536000, immutable'' (answer 200 (File name))))"

section \<open>Routes\<close>

definition api :: "string list \<Rightarrow> string list" where
  "api rest = ''api'' # ''v1'' # rest"

text \<open>The routes that need no session, and those whose handler begins with the session check.\<close>

definition open_routes :: "'x HttpServer \<Rightarrow> (string \<times> string list \<times> 'x handler) list" where
  "open_routes s =
     [(''GET'', [''health'', ''live''], ungated live_answer),
      (''GET'', [''health'', ''ready''], ungated (ready s)),
      (''GET'', api [''setup''], ungated (setupAvailable s)),
      (''POST'', api [''setup''], post_setup s),
      (''POST'', api [''auth'', ''login''], login s),
      (''POST'', api [''auth'', ''code''], confirmCode s),
      (''GET'', api [''auth'', ''enrol''], ungated (currentEnrolment s)),
      (''POST'', api [''auth'', ''enrol'', ''confirm''], confirmEnrolment s),
      (''POST'', api [''auth'', ''reset''], startReset s),
      (''POST'', api [''auth'', ''abandon''], ungated (abandon s))]"

definition session_routes :: "'x HttpServer \<Rightarrow> (string \<times> string list \<times> 'x handler) list" where
  "session_routes s =
     [(''POST'', api [''auth'', ''logout''], ungated (logout s)),
      (''GET'', api [''auth'', ''session''], ungated (get_session s)),
      (''GET'', api [''system'', ''status''], ungated (get_status s)),
      (''GET'', api [''settings''], ungated (get_settings s)),
      (''GET'', api [''projects''], ungated (listProjects s)),
      (''POST'', api [''projects''], ungated (createProject s)),
      (''GET'', api [''projects'', ''{id}''], ungated (getProject s)),
      (''DELETE'', api [''projects'', ''{id}''], ungated (deleteProject s)),
      (''POST'', api [''projects'', ''{id}'', ''retry''], ungated (retryProject s)),
      (''GET'', api [''projects'', ''{id}'', ''credentials''], ungated (getCredentials s)),
      (''PUT'', api [''projects'', ''{id}'', ''access''], ungated (updateAccess s)),
      (''PUT'', api [''projects'', ''{id}'', ''writes''], ungated (updateWrites s)),
      (''PUT'', api [''projects'', ''{id}'', ''limits''], ungated (putLimits s)),
      (''POST'', api [''projects'', ''{id}'', ''credentials'', ''rotate''], ungated (rotateCredentials s)),
      (''GET'', api [''system'', ''connections''], ungated (connectionBudget s)),
      (''GET'', api [''settings'', ''alerts''], ungated (getAlertSettings s)),
      (''PUT'', api [''settings'', ''alerts''], ungated (putAlertSettings s)),
      (''POST'', api [''settings'', ''alerts'', ''test''], testAlerts s),
      (''GET'', api [''alerts''], \<lambda>g. ungated (listAlerts s g) g),
      (''POST'', api [''projects'', ''{id}'', ''connection-checks''], ungated (createConnectionCheck s)),
      (''GET'', api [''projects'', ''{id}'', ''connection-checks'', ''{check}''], ungated (getConnectionCheck s)),
      (''GET'', api [''settings'', ''storage''], ungated (getStorage s)),
      (''PUT'', api [''settings'', ''storage''], ungated (putStorage s)),
      (''POST'', api [''settings'', ''storage'', ''check''], ungated (checkStorage s)),
      (''GET'', api [''settings'', ''backups''], ungated (getBackupPolicy s)),
      (''PUT'', api [''settings'', ''backups''], ungated (putBackupPolicy s)),
      (''POST'', api [''projects'', ''{id}'', ''backups''], ungated (startBackup s)),
      (''GET'', api [''projects'', ''{id}'', ''backups''], ungated (listBackups s)),
      (''GET'', api [''jobs'', ''{id}''], ungated (getJob s)),
      (''GET'', api [''recovery'', ''backups''], ungated (listRecoveryBackups s)),
      (''POST'', api [''recovery'', ''restores''], ungated (startRestore s))]"

text \<open>
  \<^verbatim>\<open>http.ServeMux\<close>: literal elements must agree, a wildcard takes one element that is not empty; a pattern
  for \<^verbatim>\<open>GET\<close> also takes \<^verbatim>\<open>HEAD\<close>. No two patterns of this table match the same request.
\<close>

definition wildcard :: "string \<Rightarrow> string option" where
  "wildcard p = (if has_prefix p ''{'' then Some (butlast (drop 1 p)) else None)"

fun match_path :: "string list \<Rightarrow> string list \<Rightarrow> (string \<times> string) list option" where
  "match_path [] [] = Some []"
| "match_path (p # ps) (x # xs) = (case wildcard p of
     None \<Rightarrow> if p = x then match_path ps xs else None
   | Some name \<Rightarrow> if x = '''' \<or> x = ''/'' then None else map_option (Cons (name, x)) (match_path ps xs))"
| "match_path _ _ = None"

definition method_matches :: "string \<Rightarrow> Request \<Rightarrow> bool" where
  "method_matches m r \<longleftrightarrow> Method r = m \<or> (m = ''GET'' \<and> Method r = ''HEAD'')"

fun find_route :: "(string \<times> string list \<times> 'x handler) list \<Rightarrow> Request \<Rightarrow> ('x handler \<times> (string \<times> string) list) option" where
  "find_route [] r = None"
| "find_route ((m, pattern, h) # rest) r =
     (if method_matches m r then
        (case match_path pattern (Segments r) of Some values \<Rightarrow> Some (h, values) | None \<Rightarrow> find_route rest r)
      else find_route rest r)"

text \<open>A path that is not clean is answered with a redirect to the clean one, and a handler is not reached.\<close>

definition ServeHTTP :: "'x HttpServer \<Rightarrow> 'x handler" where
  "ServeHTTP s g r =
     (if \<not> Canonical r \<and> Method r \<noteq> ''CONNECT'' then ret (g, answer 301 Empty)
      else case find_route (open_routes s @ session_routes s) r of
        Some (h, values) \<Rightarrow> h g (r\<lparr>PathValues := values\<rparr>)
      | None \<Rightarrow> ret (g, static s r))"

section \<open>Guards\<close>

definition maintenanceExempt :: "string list" where
  "maintenanceExempt = [''/api/v1/setup'', ''/api/v1/auth/login'', ''/api/v1/auth/logout'', ''/api/v1/auth/code'',
     ''/api/v1/auth/enrol/confirm'', ''/api/v1/auth/abandon'']"

definition same_origin :: "'x HttpServer \<Rightarrow> Request \<Rightarrow> bool" where
  "same_origin s r \<longleftrightarrow> Req_Header r ''Origin'' = Config_Origin (Srv_Config s) \<and>
     ParseMediaType (Srv_Lib s) (Req_Header r ''Content-Type'') = ''application/json'' \<and>
     Req_Header r ''Sec-Fetch-Site'' \<noteq> ''cross-site''"

definition updating_now :: "Request \<Rightarrow> Response" where
  "updating_now r = failure r 503 ''maintenance'' ''An update is in progress. Try again when it finishes.''"

text \<open>An origin that cannot be parsed makes the handler panic, which is answered as an internal error.\<close>

definition guarded :: "'x HttpServer \<Rightarrow> 'x handler" where
  "guarded s g r =
     (if \<not> api_path r then ServeHTTP s g r
      else case UrlParse (Srv_Lib s) (Config_Origin (Srv_Config s)) of
        None \<Rightarrow> ret (g, failure r 500 ''internal_error'' ''Request could not be completed.'')
      | Some u \<Rightarrow>
          if Req_Host r \<noteq> URL_Host u then ret (g, failure r 403 ''invalid_host'' ''Use the configured dashboard address.'')
          else if \<not> reading r \<and> \<not> same_origin s r then
            ret (g, failure r 403 ''origin_rejected'' ''Request origin or content type was rejected.'')
          else if \<not> Srv_Store s then ret (g, unavailable r ''Management storage is unavailable. Run host diagnostics.'')
          else if \<not> reading r \<and> path_clean (Path r) \<notin> set maintenanceExempt then
            trying (on_db Maintenance) (\<lambda>_. ret (g, updating_now r))
              (\<lambda>on. if on then ret (g, updating_now r) else ServeHTTP s g r)
          else ServeHTTP s g r)"

definition fixed_headers :: "'x HttpServer \<Rightarrow> Request \<Rightarrow> (string \<times> string) list" where
  "fixed_headers s r =
     [(''X-Request-ID'', RequestID r), (''X-Content-Type-Options'', ''nosniff''), (''Referrer-Policy'', ''no-referrer''),
      (''X-Frame-Options'', ''DENY''),
      (''Content-Security-Policy'', ''default-src 'self'; script-src 'self'; style-src 'self'; img-src 'self' data:; connect-src 'self'; frame-ancestors 'none'; base-uri 'none'; form-action '' @ [CHR 0x27] @ ''self'' @ [CHR 0x27]),
      (''Permissions-Policy'', ''camera=(), microphone=(), geolocation=()'')] @
     (if https s then [(''Strict-Transport-Security'', ''max-age=31536000'')] else []) @
     (if api_path r \<or> health_path r then [(''Cache-Control'', ''no-store'')] else [])"

text \<open>The headers are set before the handler runs, which may replace one.\<close>

definition with_fixed_headers :: "'x HttpServer \<Rightarrow> Request \<Rightarrow> Response \<Rightarrow> Response" where
  "with_fixed_headers s r resp = resp\<lparr>Resp_Header := fold (\<lambda>(k, v). kv_put k v) (Resp_Header resp) (fixed_headers s r)\<rparr>"

definition Handler :: "'x HttpServer \<Rightarrow> 'x handler" where
  "Handler s g r =
     bind_tx (fresh_token s) (\<lambda>token.
     let r = r\<lparr>RequestID := take 16 token\<rparr> in
     bind_tx (guarded s g r) (\<lambda>(g, resp). ret (g, with_fixed_headers s r resp)))"

text \<open>Requests served one after the other, with the answers in order.\<close>

fun serve_all :: "'x HttpServer \<Rightarrow> gates \<Rightarrow> Request list \<Rightarrow> ('x, gates \<times> Response list) act" where
  "serve_all s g [] = ret (g, [])"
| "serve_all s g (r # rs) =
     bind_tx (Handler s g r) (\<lambda>(g, resp). bind_tx (serve_all s g rs) (\<lambda>(g, resps). ret (g, resp # resps)))"

section \<open>The management operations\<close>

text \<open>What \<open>Management\<close> provides of the interface the handlers call.\<close>

definition management_interface :: "'x Management \<Rightarrow> 'x pg Mgmt" where
  "management_interface m = \<lparr>Mgmt_DatabaseSize = Management_DatabaseSize m, Mgmt_Connections = Management_Connections m,
     Mgmt_SetWritesFrozen = Management_SetWritesFrozen m, Mgmt_ConnectionBudget = Management_ConnectionBudget m\<rparr>"

section \<open>Commands on the host\<close>

definition usage :: err where
  "usage = EMsg ''usage: pgfy [serve|version|health [ready]|setup-token|initialize-store|reset-admin|maintenance on|off|status|jobs running|store-snapshot <path>|store-restore [--check] <path>]''"

text \<open>A command gives what it prints.\<close>

definition hostCommand :: "string \<Rightarrow> string list \<Rightarrow> string dbop" where
  "hostCommand command args = (case args of
     [arg] \<Rightarrow>
       if command = ''maintenance'' \<and> (arg = ''on'' \<or> arg = ''off'') then then_tx (SetMaintenance (arg = ''on'')) (ret '''')
       else if command = ''maintenance'' \<and> arg = ''status'' then bind_tx Maintenance (\<lambda>on. ret (if on then ''on'' else ''off''))
       else if command = ''jobs'' \<and> arg = ''running'' then bind_tx RunningJobs (\<lambda>n. ret (dec n))
       else throw usage
   | _ \<Rightarrow> throw usage)"

definition setup_token_command :: "string \<Rightarrow> gotime \<Rightarrow> string dbop" where
  "setup_token_command token t = NewSetupToken token t"

definition reset_admin_command :: "string \<Rightarrow> gotime \<Rightarrow> string dbop" where
  "reset_admin_command token t = bind_tx (attempt (NewResetToken token t)) (\<lambda>r. case r of
     Inl e \<Rightarrow> throw (EMsg (if e = ErrSetup then ''no administrator exists yet; use setup-token'' else ''management storage unavailable''))
   | Inr plain_token \<Rightarrow> ret plain_token)"

end
