(* ===== verification/Http_Limits.thy ===== *)
theory Http_Limits
  imports Http_Server
begin

text \<open>
  The rate limit over time: a series of attempts is served one after the other, and what is let through is
  bounded whatever came before and whoever asks.
\<close>

section \<open>A series of attempts\<close>

fun passes :: "rateLimit \<Rightarrow> (string \<times> gotime) list \<Rightarrow> (string \<times> gotime) list" where
  "passes l [] = []"
| "passes l ((c, t) # rest) = (case allow l c t of (ok, l') \<Rightarrow> (if ok then [(c, t)] else []) @ passes l' rest)"

fun after :: "rateLimit \<Rightarrow> (string \<times> gotime) list \<Rightarrow> rateLimit" where
  "after l [] = l"
| "after l ((c, t) # rest) = after (snd (allow l c t)) rest"

lemma set_passes: "set (passes l xs) \<subseteq> set xs"
  by (induction l xs rule: passes.induct) (auto split: prod.splits if_splits)

section \<open>The invariant\<close>

definition bucket_ok :: "int \<Rightarrow> bucket \<Rightarrow> bool" where
  "bucket_ok n b \<longleftrightarrow> 0 \<le> bucket_count b \<and> bucket_count b \<le> n"

definition limit_ok :: "rateLimit \<Rightarrow> bool" where
  "limit_ok l \<longleftrightarrow> distinct (map fst (limit_clients l)) \<and> (\<forall>c \<in> set (limit_clients l). bucket_ok 10 (snd c)) \<and>
     bucket_ok 30 (limit_global l) \<and> length (limit_clients l) \<le> 10000"

definition bucket_of :: "rateLimit \<Rightarrow> string \<Rightarrow> bucket" where
  "bucket_of l k = coalesce (map_of (limit_clients l) k) no_bucket"

lemma bucket_ok_bucket_of: "limit_ok l \<Longrightarrow> bucket_ok 10 (bucket_of l k)"
  by (auto simp: limit_ok_def bucket_of_def coalesce_def bucket_ok_def no_bucket_def split: option.split dest: map_of_SomeD)

lemma bucket_ok_renewed: "bucket_ok n b \<Longrightarrow> bucket_ok n (renewed window t b)"
  by (auto simp: bucket_ok_def renewed_def)

lemma bucket_ok_counted: "bucket_ok n b \<Longrightarrow> bucket_count b < n \<Longrightarrow> bucket_ok n (counted b)"
  by (simp add: bucket_ok_def counted_def)

lemma set_kv_put: "set (kv_put k v rows) \<subseteq> insert (k, v) (set rows)"
  by (auto simp: kv_put_def upsert_def update_where_def)

lemma distinct_kv_put: "distinct (map fst rows) \<Longrightarrow> distinct (map fst (kv_put k v rows))"
  unfolding kv_put_def by (rule distinct_map_upsert) auto

lemma length_kv_put: "length (kv_put k v rows) \<le> Suc (length rows)"
  by (simp add: kv_put_def upsert_def update_where_def)

definition live_clients :: "gotime \<Rightarrow> rateLimit \<Rightarrow> (string \<times> bucket) list" where
  "live_clients t l = filter (\<lambda>c. t < bucket_until (snd c)) (limit_clients l)"

text \<open>The two outcomes of an attempt.\<close>

lemma allow_cases:
  obtains (refused) "allow l c t = (False, \<lparr>limit_clients = live_clients t l, limit_global = renewed minute t (limit_global l)\<rparr>)"
  | (let_through) "allow l c t = (True, \<lparr>limit_clients = kv_put c (counted (renewed (15 * minute) t (bucket_of l c))) (live_clients t l),
        limit_global = counted (renewed minute t (limit_global l))\<rparr>)"
      "bucket_count (renewed minute t (limit_global l)) < 30" "bucket_count (renewed (15 * minute) t (bucket_of l c)) < 10"
      "length (live_clients t l) < 10000"
proof (cases "bucket_count (renewed minute t (limit_global l)) \<ge> 30 \<or> bucket_count (renewed (15 * minute) t (bucket_of l c)) \<ge> 10 \<or>
    length (live_clients t l) \<ge> 10000")
  case True
  then show ?thesis by (intro refused) (simp add: allow_def Let_def live_clients_def bucket_of_def)
next
  case False
  then show ?thesis by (intro let_through) (simp_all add: allow_def Let_def live_clients_def bucket_of_def)
qed

lemma limit_ok_allow:
  assumes "limit_ok l"
  shows "limit_ok (snd (allow l c t))"
proof (cases rule: allow_cases [of l c t])
  case refused
  have "length (live_clients t l) \<le> length (limit_clients l)" by (simp add: live_clients_def)
  then have "length (live_clients t l) \<le> 10000" using assms by (simp add: limit_ok_def)
  then show ?thesis using assms unfolding refused
    by (auto simp: limit_ok_def live_clients_def distinct_map_filter bucket_ok_renewed)
next
  case let_through
  have "bucket_ok 10 (counted (renewed (15 * minute) t (bucket_of l c)))"
    using bucket_ok_counted [OF bucket_ok_renewed [OF bucket_ok_bucket_of [OF assms]] let_through(3)] .
  moreover have "bucket_ok 30 (counted (renewed minute t (limit_global l)))"
    using assms let_through(2) by (simp add: limit_ok_def bucket_ok_counted bucket_ok_renewed)
  moreover have "distinct (map fst (live_clients t l))"
    using assms by (simp add: limit_ok_def live_clients_def distinct_map_filter)
  moreover have "\<forall>x \<in> set (live_clients t l). bucket_ok 10 (snd x)" using assms by (simp add: limit_ok_def live_clients_def)
  moreover have "length (kv_put c b (live_clients t l)) \<le> 10000" for b
    using length_kv_put [of c b "live_clients t l"] let_through(4) by simp
  ultimately show ?thesis
    unfolding let_through(1) limit_ok_def using set_kv_put by (fastforce intro: distinct_kv_put)
qed

lemma limit_ok_after: "limit_ok l \<Longrightarrow> limit_ok (after l xs)"
  by (induction l xs rule: after.induct) (auto simp: limit_ok_allow)

lemma limit_ok_no_attempts: "limit_ok no_attempts"
  by (simp add: limit_ok_def no_attempts_def bucket_ok_def no_bucket_def)

section \<open>What is left in a window\<close>

text \<open>
  How many attempts a bucket can still let through before \<open>hi\<close>, seen from time \<open>cur\<close>: its own rest, and one more
  window if it ends before \<open>hi\<close>.
\<close>

definition room :: "int \<Rightarrow> gotime \<Rightarrow> gotime \<Rightarrow> bucket \<Rightarrow> int" where
  "room n hi cur b = (if hi \<le> bucket_until b then n - bucket_count b
     else if cur < bucket_until b then 2 * n - bucket_count b else n)"

lemma room_later:
  assumes "bucket_ok n b" "cur \<le> t" "t < hi"
  shows "room n hi t b \<le> room n hi cur b"
  using assms by (auto simp: room_def bucket_ok_def)

lemma room_renewed:
  assumes "bucket_ok n b" "cur \<le> t" "t < hi" "hi \<le> t + window"
  shows "room n hi t (renewed window t b) \<le> room n hi cur b"
  using assms by (auto simp: room_def renewed_def bucket_ok_def)

lemma room_counted: "room n hi t b = 1 + room n hi t (counted b)" if "hi \<le> bucket_until b \<or> t < bucket_until b"
  using that by (auto simp: room_def counted_def)

lemma renewed_until: "0 < window \<Longrightarrow> t < bucket_until (renewed window t b)"
  by (simp add: renewed_def)

lemma room_passed:
  assumes "bucket_ok n b" "cur \<le> t" "t < hi" "hi \<le> t + window" "0 < window"
  shows "1 + room n hi t (counted (renewed window t b)) \<le> room n hi cur b"
  using room_renewed [OF assms(1-4)] room_counted [of hi "renewed window t b" t n] renewed_until [OF assms(5), of t b] by simp

lemma map_of_filter:
  "distinct (map fst xs) \<Longrightarrow> map_of (filter (\<lambda>c. P (snd c)) xs) k = (case map_of xs k of Some v \<Rightarrow> if P v then Some v else None | None \<Rightarrow> None)"
  by (induction xs) (auto split: option.split simp: map_of_eq_None_iff rev_image_eqI)

lemma room_no_bucket: "zero_time \<le> t \<Longrightarrow> t < hi \<Longrightarrow> room 10 hi t no_bucket = 10"
  by (simp add: room_def no_bucket_def)

text \<open>A bucket that is not asked loses nothing but its time: forgetting it once it is over gains nothing.\<close>

lemma room_live:
  assumes l: "limit_ok l" and t: "cur \<le> t" "t < hi" "zero_time \<le> t"
  shows "room 10 hi t (coalesce (map_of (live_clients t l) k) no_bucket) \<le> room 10 hi cur (bucket_of l k)"
proof -
  have ok: "bucket_ok 10 (bucket_of l k)" using l by (rule bucket_ok_bucket_of)
  have "map_of (live_clients t l) k = (case map_of (limit_clients l) k of Some v \<Rightarrow> if t < bucket_until v then Some v else None | None \<Rightarrow> None)"
    unfolding live_clients_def using l by (intro map_of_filter) (simp add: limit_ok_def)
  then have "coalesce (map_of (live_clients t l) k) no_bucket = bucket_of l k \<or>
      coalesce (map_of (live_clients t l) k) no_bucket = no_bucket \<and> \<not> t < bucket_until (bucket_of l k)"
    by (auto simp: bucket_of_def coalesce_def split: option.splits if_splits)
  then show ?thesis
  proof
    assume "coalesce (map_of (live_clients t l) k) no_bucket = bucket_of l k"
    then show ?thesis using room_later [OF ok t(1,2)] by simp
  next
    assume gone: "coalesce (map_of (live_clients t l) k) no_bucket = no_bucket \<and> \<not> t < bucket_until (bucket_of l k)"
    then have "room 10 hi t (bucket_of l k) = 10" using t(2) by (simp add: room_def)
    then show ?thesis using gone room_no_bucket [OF t(3,2)] room_later [OF ok t(1,2)] by simp
  qed
qed

lemma client_step:
  assumes l: "limit_ok l" and t: "cur \<le> t" "t < hi" "zero_time \<le> t" "hi \<le> t + 15 * minute"
  shows "(if fst (allow l c t) \<and> c = k then 1 else 0) + room 10 hi t (bucket_of (snd (allow l c t)) k) \<le> room 10 hi cur (bucket_of l k)"
proof (cases rule: allow_cases [of l c t])
  case refused
  then show ?thesis using room_live [OF l t(1-3)] by (simp add: bucket_of_def)
next
  case let_through
  show ?thesis
  proof (cases "c = k")
    case True
    then show ?thesis
      using room_passed [OF bucket_ok_bucket_of [OF l] t(1,2,4)] let_through(1)
      by (simp add: bucket_of_def map_of_kv_put coalesce_def)
  next
    case False
    then show ?thesis using room_live [OF l t(1-3), of k] let_through(1) by (simp add: bucket_of_def map_of_kv_put)
  qed
qed

lemma global_step:
  assumes l: "limit_ok l" and t: "cur \<le> t" "t < hi" "hi \<le> t + minute"
  shows "(if fst (allow l c t) then 1 else 0) + room 30 hi t (limit_global (snd (allow l c t))) \<le> room 30 hi cur (limit_global l)"
proof -
  have ok: "bucket_ok 30 (limit_global l)" using l by (simp add: limit_ok_def)
  show ?thesis
    using room_renewed [OF ok t] room_passed [OF ok t] by (cases rule: allow_cases [of l c t]) simp_all
qed

section \<open>Series\<close>

text \<open>A quantity that no attempt before \<open>hi\<close> lowers by less than what it lets through bounds the whole series.\<close>

lemma series_bound:
  assumes step: "\<And>l c t cur. limit_ok l \<Longrightarrow> lo \<le> t \<Longrightarrow> cur \<le> t \<Longrightarrow> t < hi \<Longrightarrow>
      (if fst (allow l c t) \<and> P c then 1 else 0) + left_over t (snd (allow l c t)) \<le> (left_over cur l :: int)"
    and least: "\<And>l cur. limit_ok l \<Longrightarrow> 0 \<le> left_over cur l"
  shows "limit_ok l \<Longrightarrow> sorted (map snd xs) \<Longrightarrow> (\<forall>a \<in> set xs. lo \<le> snd a \<and> cur \<le> snd a) \<Longrightarrow>
    int (length (filter (\<lambda>a. P (fst a) \<and> snd a < hi) (passes l xs))) \<le> left_over cur l"
proof (induction l xs arbitrary: cur rule: passes.induct)
  case (1 l)
  then show ?case using least by simp
next
  case (2 l c t rest)
  obtain ok l' where a: "allow l c t = (ok, l')" by (metis surj_pair)
  have l': "limit_ok l'" using limit_ok_allow [OF 2(2), of c t] a by simp
  have later: "\<forall>x \<in> set rest. lo \<le> snd x \<and> t \<le> snd x" using 2(3,4) by auto
  have ih: "int (length (filter (\<lambda>a. P (fst a) \<and> snd a < hi) (passes l' rest))) \<le> left_over t l'"
    using 2(1) [OF a [symmetric] l' _ later] 2(3) by simp
  show ?case
  proof (cases "t < hi")
    case True
    then show ?thesis using step [OF 2(2), of t cur c] 2(4) ih a by (auto split: if_splits)
  next
    case False
    have "filter (\<lambda>a. P (fst a) \<and> snd a < hi) (passes l ((c, t) # rest)) = []"
      using set_passes [of l "(c, t) # rest"] later False by (fastforce simp: filter_empty_conv)
    then show ?thesis using least [OF 2(2)] by simp
  qed
qed

lemma room_nonneg: "bucket_ok n b \<Longrightarrow> 0 \<le> room n hi cur b \<and> room n hi cur b \<le> 2 * n"
  by (auto simp: room_def bucket_ok_def)

text \<open>
  C21. However many attempts came before and whatever other clients do, no client gets more than 20 attempts
  through within a quarter of an hour, and all clients together no more than 60 within a minute; the table of
  clients never holds more than 10000 entries.
\<close>

theorem attempts_bounded:
  assumes "zero_time \<le> lo" "sorted (map snd xs)" "\<forall>a \<in> set xs. lo \<le> snd a"
  shows "length (filter (\<lambda>a. fst a = k \<and> snd a < lo + 15 * minute) (passes (after no_attempts history) xs)) \<le> 20 \<and>
    length (filter (\<lambda>a. snd a < lo + minute) (passes (after no_attempts history) xs)) \<le> 60 \<and>
    length (limit_clients (after (after no_attempts history) xs)) \<le> 10000"
proof -
  define l where "l = after no_attempts history"
  have l: "limit_ok l" unfolding l_def by (rule limit_ok_after [OF limit_ok_no_attempts])
  have "int (length (filter (\<lambda>a. fst a = k \<and> snd a < lo + 15 * minute) (passes l xs))) \<le> room 10 (lo + 15 * minute) lo (bucket_of l k)"
    by (rule series_bound [where lo = lo and left_over = "\<lambda>cur l. room 10 (lo + 15 * minute) cur (bucket_of l k)"])
      (use assms l client_step bucket_ok_bucket_of room_nonneg in auto)
  also have "\<dots> \<le> 20" using room_nonneg [OF bucket_ok_bucket_of [OF l]] by force
  finally have client: "length (filter (\<lambda>a. fst a = k \<and> snd a < lo + 15 * minute) (passes l xs)) \<le> 20" by simp
  have "int (length (filter (\<lambda>a. True \<and> snd a < lo + minute) (passes l xs))) \<le> room 30 (lo + minute) lo (limit_global l)"
    by (rule series_bound [where P = "\<lambda>_. True" and lo = lo and left_over = "\<lambda>cur l. room 30 (lo + minute) cur (limit_global l)"])
      (use assms l global_step room_nonneg in \<open>auto simp: limit_ok_def\<close>)
  also have "\<dots> \<le> 60" using l room_nonneg [of 30 "limit_global l"] by (force simp: limit_ok_def)
  finally have "length (filter (\<lambda>a. snd a < lo + minute) (passes l xs)) \<le> 60" by simp
  moreover have "length (limit_clients (after l xs)) \<le> 10000" using limit_ok_after [OF l] by (simp add: limit_ok_def)
  ultimately show ?thesis using client unfolding l_def by blast
qed

text \<open>Fifteen attempts of one client within a quarter of a minute: ten pass.\<close>

definition hammering :: "(string \<times> gotime) list" where
  "hammering = map (\<lambda>i. (''10.0.0.1'', int i * second)) [0..<15]"

theorem attempts_bounded_witness:
  "length (filter (\<lambda>a. fst a = ''10.0.0.1'' \<and> snd a < 0 + 15 * minute) (passes (after no_attempts [(''10.0.0.2'', 0)]) hammering)) \<le> 20 \<and>
   passes (after no_attempts [(''10.0.0.2'', 0)]) hammering = take 10 hammering"
proof -
  have "length (filter (\<lambda>a. fst a = ''10.0.0.1'' \<and> snd a < 0 + 15 * minute) (passes (after no_attempts [(''10.0.0.2'', 0)]) hammering)) \<le> 20"
    by (rule attempts_bounded [THEN conjunct1]) (simp_all add: hammering_def zero_time_def from_unix_def upt_rec)
  moreover have "passes (after no_attempts [(''10.0.0.2'', 0)]) hammering = take 10 hammering"
    by (simp add: hammering_def upt_rec allow_def no_attempts_def no_bucket_def zero_time_def from_unix_def renewed_def counted_def coalesce_def
        kv_put_def upsert_def update_where_def)
  ultimately show ?thesis by blast
qed

end
