(* ===== verification/Http_Safety.thy ===== *)
theory Http_Safety
  imports Http_Limits Worker_Results
begin

text \<open>
  What holds of every request, whatever PostgreSQL, the provider and the driver of the store do: without a
  session nothing changes, a request the guards refuse changes nothing, and every request is answered.
\<close>

section \<open>Refusals\<close>

definition same_world :: "'x world \<Rightarrow> 'x world \<Rightarrow> bool" where
  "same_world w0 w \<longleftrightarrow> wdb w = wdb w0 \<and> calls w = calls w0 \<and> files w = files w0"

text \<open>
  A request that shows a session: its cookie has the length of a token, the database holds a row for its hash that was
  issued for this installation and has not run out by \<open>t0\<close>, and a request that may change something carries the token
  against forgery.
\<close>

definition authentic :: "'x HttpServer \<Rightarrow> db \<Rightarrow> gotime \<Rightarrow> Request \<Rightarrow> bool" where
  "authentic s d t0 r = (case stepCookie s r ''session'' of
     None \<Rightarrow> False
   | Some token \<Rightarrow>
       list_ex (\<lambda>row. ses_token_hash row = Hash token \<and> ses_scope row = scope s \<and> ses_expires_at row > unix t0) (sessions d) \<and>
       (Method r = ''GET'' \<or> Req_Header r ''X-CSRF-Token'' = Srv_CSRF s token (scope s)))"

definition not_before :: "'x HttpServer \<Rightarrow> gotime \<Rightarrow> bool" where
  "not_before s t0 \<longleftrightarrow> (\<forall>x. t0 \<le> fst (Srv_Now s x))"

definition turned_away :: "'x world \<Rightarrow> gates \<Rightarrow> gates \<times> Response \<Rightarrow> 'x world \<Rightarrow> bool" where
  "turned_away w0 g a w \<longleftrightarrow> same_world w0 w \<and> fst a = g \<and> 300 \<le> Resp_Status (snd a)"

lemma status_simps [simp]:
  "Resp_Status (answer code c) = code" "Resp_Status (set_header k v resp) = Resp_Status resp"
  "Resp_Status (with_cookies cs resp) = Resp_Status resp" "Resp_Status (with_fixed_headers s r resp) = Resp_Status resp"
  by (simp_all add: answer_def set_header_def with_cookies_def with_fixed_headers_def)

lemma status_json [simp]: "Resp_Status (write_json code v) = code" "Resp_Status (failure r code kind text) = code"
  by (simp_all add: write_json_def failure_def)

lemma same_world_outside [simp]: "same_world w0 (w\<lparr>outside := x\<rparr>) = same_world w0 w"
  by (simp add: same_world_def)

lemma triple_observe_same: "triple (same_world w0) (observe f) (\<lambda>_. same_world w0) E"
  by (rule triple_observe) simp

lemma triple_read_plain:
  assumes "\<And>I. keeps I m" "\<And>fs x s'. m (wdb w0, fs) = (Inr x, s') \<Longrightarrow> R x"
  shows "triple (same_world w0) (on_db m) (\<lambda>x w. same_world w0 w \<and> R x) (same_world w0)"
proof (rule triple_on_db)
  have kept: "fst s' = fst s" if "m s = (r, s')" for s r s'
    using reads_only [OF assms(1), of s] that by (simp add: leaves_def)
  show "same_world w0 (w\<lparr>wdb := d\<rparr>) \<and> R x" if "same_world w0 w" "m (wdb w, fs) = (Inr x, d, fs')" for w fs x d fs'
    using that kept [OF that(2)] assms(2) [of fs x] by (auto simp: same_world_def)
  show "same_world w0 (w\<lparr>wdb := d\<rparr>)" if "same_world w0 w" "m (wdb w, fs) = (Inl e', d, fs')" for w fs e' d fs'
    using that kept [OF that(2)] by (auto simp: same_world_def)
qed

lemma triple_read_same:
  assumes "\<And>I. keeps I m" "\<And>fs x s'. m (wdb w0, fs) = (Inr x, s') \<Longrightarrow> R x"
  shows "triple (same_world w0) (attempt (on_db m)) (\<lambda>a w. same_world w0 w \<and> (\<forall>x. a = Inr x \<longrightarrow> R x)) E"
  by (rule triple_attempt, rule triple_conseq [OF triple_read_plain [where R = R]]) (use assms in auto)

lemma get_Session_row:
  assumes "get_Session token sc t (d, fs) = (Inr x, s')"
  shows "list_ex (\<lambda>row. ses_token_hash row = Hash token \<and> ses_scope row = sc \<and> ses_expires_at row > unix t) (sessions d)"
  using assms by (auto simp: get_Session_def query_row_Inr find_Some_iff list_ex_length split: option.splits)

lemma triple_wall: "not_before s t0 \<Longrightarrow> triple (same_world w0) (wall s) (\<lambda>t w. same_world w0 w \<and> t0 \<le> t) E"
  unfolding wall_def observe_def
  by (rule triple_call) (auto simp: unlogged_def not_before_def same_world_def split: prod.splits, metis fst_conv)

lemma authorize_refuses:
  assumes "not_before s t0" "\<not> authentic s (wdb w0) t0 r"
  shows "triple (same_world w0) (authorize s r) (\<lambda>a w. same_world w0 w \<and> (\<exists>resp. a = Inl resp \<and> 300 \<le> Resp_Status resp)) (\<lambda>_. False)"
proof (cases "stepCookie s r ''session''")
  case None
  then show ?thesis by (auto simp: authorize_def unavailable_def intro: triple_ret)
next
  case (Some token)
  have row: "Method r \<noteq> ''GET'' \<and> Req_Header r ''X-CSRF-Token'' \<noteq> Srv_CSRF s token (scope s)"
    if "get_Session token (scope s) t (wdb w0, fs) = (Inr x, s')" "t0 \<le> t" for t fs x s'
    using get_Session_row [OF that(1)] assms(2) Some unix_mono [OF that(2)]
    by (fastforce simp: authentic_def list_ex_iff)
  have "triple (\<lambda>w. same_world w0 w \<and> t0 \<le> t) (attempt (on_db (get_Session token (scope s) t)))
      (\<lambda>a w. same_world w0 w \<and> (\<forall>x. a = Inr x \<longrightarrow> Method r \<noteq> ''GET'' \<and> Req_Header r ''X-CSRF-Token'' \<noteq> Srv_CSRF s token (scope s)))
      (\<lambda>_. False)" for t
  proof (cases "t0 \<le> t")
    case True
    show ?thesis
      by (rule triple_pre [OF triple_read_same]) (auto simp: get_Session_def intro: tx_keeps dest: row [OF _ True, unfolded get_Session_def])
  qed (simp add: triple_def)
  then show ?thesis
    unfolding authorize_def Some option.case trying_def
    by (rule triple_bind [OF triple_wall [OF assms(1)] triple_bind])
      (auto split: sum.split simp: Let_def unavailable_def intro!: triple_ret)
qed

lemma signed_in_refuses:
  assumes "not_before s t0" "\<not> authentic s (wdb w0) t0 r"
  shows "triple (same_world w0) (signed_in s r k) (\<lambda>resp w. same_world w0 w \<and> 300 \<le> Resp_Status resp) (\<lambda>_. False)"
  unfolding signed_in_def unless_def
  by (rule triple_bind [OF authorize_refuses [OF assms]]) (auto simp: triple_def ret_def split: sum.splits)

definition refuses :: "'x HttpServer \<Rightarrow> gotime \<Rightarrow> 'x handler \<Rightarrow> bool" where
  "refuses s t0 h \<longleftrightarrow> (\<forall>w0 g r. \<not> authentic s (wdb w0) t0 r \<longrightarrow> triple (same_world w0) (h g r) (turned_away w0 g) (\<lambda>_. False))"

lemma refuses_ungated:
  assumes "not_before s t0" "\<And>r. h r = signed_in s r (k r)"
  shows "refuses s t0 (ungated h)"
  unfolding refuses_def ungated_def assms(2)
  by (auto intro!: triple_bind [OF signed_in_refuses [OF assms(1)]] triple_ret simp: turned_away_def)

lemma refuses_testAlerts: "not_before s t0 \<Longrightarrow> refuses s t0 (testAlerts s)"
  unfolding refuses_def testAlerts_def
proof (intro allI impI)
  fix w0 :: "'a world" and g r
  assume "not_before s t0" "\<not> authentic s (wdb w0) t0 r"
  note no_session = authorize_refuses [OF this]
  show "triple (same_world w0) (bind_tx (authorize s r) (\<lambda>a. case a of Inl resp \<Rightarrow> ret (g, resp) | Inr x \<Rightarrow> k x)) (turned_away w0 g) (\<lambda>_. False)" for k
    by (rule triple_bind [OF no_session]) (auto simp: turned_away_def triple_def ret_def split: sum.splits)
qed

lemma refuses_listAlerts: "not_before s t0 \<Longrightarrow> refuses s t0 (\<lambda>g. ungated (listAlerts s g) g)"
  unfolding refuses_def ungated_def listAlerts_def
  by (auto intro!: triple_bind [OF signed_in_refuses] triple_ret simp: turned_away_def)

lemmas handlers_of_a_session = logout_def get_session_def get_status_def get_settings_def listProjects_def createProject_def
  getProject_def deleteProject_def retryProject_def getCredentials_def updateAccess_def updateWrites_def putLimits_def
  rotateCredentials_def connectionBudget_def getAlertSettings_def putAlertSettings_def createConnectionCheck_def
  getConnectionCheck_def getStorage_def putStorage_def checkStorage_def getBackupPolicy_def putBackupPolicy_def startBackup_def
  listBackups_def getJob_def listRecoveryBackups_def startRestore_def

lemma session_routes_refuse:
  assumes "not_before s t0"
  shows "list_all (\<lambda>(m, p, h). refuses s t0 h) (session_routes s)"
  unfolding session_routes_def list.pred_inject prod.case
  by (intro conjI list.pred_inject(1) refuses_testAlerts refuses_listAlerts refuses_ungated assms) (rule handlers_of_a_session)+

lemma find_route_append: "find_route (xs @ ys) r = (case find_route xs r of None \<Rightarrow> find_route ys r | Some x \<Rightarrow> Some x)"
  by (induction xs r rule: find_route.induct) (auto split: option.split)

lemma find_route_in: "find_route xs r = Some (h, vs) \<Longrightarrow> \<exists>m p. (m, p, h) \<in> set xs"
  by (induction xs r rule: find_route.induct) (auto split: if_splits option.splits)

lemma authentic_unread [simp]:
  "authentic s d t0 (r\<lparr>PathValues := vs\<rparr>) = authentic s d t0 r" "authentic s d t0 (r\<lparr>RequestID := i\<rparr>) = authentic s d t0 r"
  by (auto simp: authentic_def stepCookie_def split: option.split)

lemma find_route_unread [simp]: "find_route xs (r\<lparr>RequestID := i\<rparr>) = find_route xs r"
  by (induction xs r rule: find_route.induct) (auto simp: method_matches_def split: option.split)

lemma open_routes_static: "api_path r \<Longrightarrow> 300 \<le> Resp_Status (static s r)"
  by (simp add: static_def not_found_def)

text \<open>What passes the guards without a session ends at a handler that asks for one, or at the dashboard's files.\<close>

definition unchanged_or_file :: "'x world \<Rightarrow> gates \<Rightarrow> Request \<Rightarrow> gates \<times> Response \<Rightarrow> 'x world \<Rightarrow> bool" where
  "unchanged_or_file w0 g r a w \<longleftrightarrow> same_world w0 w \<and> fst a = g \<and> (api_path r \<longrightarrow> 300 \<le> Resp_Status (snd a))"

lemma unchanged_or_file_unread [simp]: "unchanged_or_file w0 g (r\<lparr>RequestID := i\<rparr>) = unchanged_or_file w0 g r"
  by (simp add: fun_eq_iff unchanged_or_file_def api_path_def Path_def)

lemma turned_away_weaken: "turned_away w0 g a w \<Longrightarrow> unchanged_or_file w0 g r a w"
  by (simp add: turned_away_def unchanged_or_file_def)

lemma ServeHTTP_refuses:
  assumes "not_before s t0" "\<not> authentic s (wdb w0) t0 r" "find_route (open_routes s) r = None"
  shows "triple (same_world w0) (ServeHTTP s g r) (unchanged_or_file w0 g r) (\<lambda>_. False)"
proof (cases "\<not> Canonical r \<and> Method r \<noteq> ''CONNECT''")
  case True
  then show ?thesis by (auto simp: ServeHTTP_def unchanged_or_file_def intro!: triple_ret)
next
  case clean: False
  show ?thesis
  proof (cases "find_route (session_routes s) r")
    case None
    then show ?thesis using clean assms(3)
      by (auto simp: ServeHTTP_def find_route_append unchanged_or_file_def open_routes_static intro!: triple_ret)
  next
    case (Some found)
    obtain h vs where found: "found = (h, vs)" by (cases found)
    obtain m p where "(m, p, h) \<in> set (session_routes s)" using find_route_in Some found by blast
    then have "refuses s t0 h" using session_routes_refuse [OF assms(1)] by (fastforce simp: list_all_iff)
    then have "triple (same_world w0) (h g (r\<lparr>PathValues := vs\<rparr>)) (turned_away w0 g) (\<lambda>_. False)"
      using assms(2) by (simp add: refuses_def)
    then show ?thesis using clean assms(3) Some found
      by (auto simp: ServeHTTP_def find_route_append intro: triple_conseq turned_away_weaken)
  qed
qed

section \<open>The guards\<close>

lemma api_path_unread [simp]: "api_path (r\<lparr>RequestID := i\<rparr>) = api_path r" "reading (r\<lparr>RequestID := i\<rparr>) = reading r"
  "same_origin s (r\<lparr>RequestID := i\<rparr>) = same_origin s r" "Path (r\<lparr>RequestID := i\<rparr>) = Path r"
  by (simp_all add: api_path_def reading_def same_origin_def Path_def)

lemma triple_Maintenance:
  "triple (same_world w0) (attempt (on_db Maintenance))
     (\<lambda>a w. same_world w0 w \<and> (\<forall>on. a = Inr on \<longrightarrow> on = (\<not> maintenanceGuard (wdb w0)))) (\<lambda>_. False)"
  by (rule triple_read_same) (auto simp: Maintenance_def maintenance_def query_Inr intro: tx_keeps)

lemma guarded_passes:
  assumes "triple (same_world w0) (ServeHTTP s g r) (unchanged_or_file w0 g r) (\<lambda>_. False)"
  shows "triple (same_world w0) (guarded s g r) (unchanged_or_file w0 g r) (\<lambda>_. False)"
proof -
  have gate: "triple (same_world w0) (trying (on_db Maintenance) (\<lambda>_. ret (g, updating_now r))
      (\<lambda>on. if on then ret (g, updating_now r) else ServeHTTP s g r)) (unchanged_or_file w0 g r) (\<lambda>_. False)"
    unfolding trying_def
    by (rule triple_bind [OF triple_Maintenance])
      (auto split: sum.split simp: updating_now_def unchanged_or_file_def [of _ _ _ "(_, _)"] intro!: triple_ret triple_pre [OF assms])
  show ?thesis unfolding guarded_def
    by (auto intro!: triple_ret assms gate split: option.split simp: unchanged_or_file_def unavailable_def)
qed

lemma Handler_answers:
  assumes "\<And>i. triple (same_world w0) (guarded s g (r\<lparr>RequestID := i\<rparr>)) Q (\<lambda>_. False)"
    and "\<And>g resp w i. Q (g, resp) w \<Longrightarrow> R (g, with_fixed_headers s (r\<lparr>RequestID := i\<rparr>) resp) w"
  shows "\<exists>a w' fs'. Handler s g r (w0, fs) = (Inr a, (w', fs')) \<and> R a w'"
proof -
  have "triple (same_world w0) (Handler s g r) R (\<lambda>_. False)"
    unfolding Handler_def fresh_token_def Let_def
    by (rule triple_bind [OF triple_observe_same triple_bind [OF assms(1)]]) (auto intro!: triple_ret dest: assms(2))
  moreover obtain a w' fs' where run: "Handler s g r (w0, fs) = (a, (w', fs'))" by (metis surj_pair)
  ultimately show ?thesis
    by (cases a) (auto dest: tripleD_Inl [of _ _ _ _ "(w0, fs)"] tripleD_Inr [of _ _ _ _ "(w0, fs)"] simp: same_world_def)
qed


text \<open>
  C16. A request under /api that would change something is answered with a refusal and changes nothing when it names
  another host, does not come from the dashboard's own origin as JSON, when the store is not open, or, the few
  sign-in steps apart, while an update is in progress; also when the flag of the update cannot be read.
\<close>

theorem guards_refuse:
  assumes "api_path r" "\<not> reading r"
    and "(\<forall>u. UrlParse (Srv_Lib s) (Config_Origin (Srv_Config s)) = Some u \<longrightarrow> Req_Host r \<noteq> URL_Host u) \<or> \<not> same_origin s r \<or> \<not> Srv_Store s \<or>
      \<not> maintenanceGuard (wdb w) \<and> path_clean (Path r) \<notin> set maintenanceExempt"
  shows "\<exists>resp w' fs'. Handler s g r (w, fs) = (Inr (g, resp), (w', fs')) \<and> same_world w w' \<and> Resp_Status resp \<in> {403, 500, 503}"
proof -
  define Q :: "gates \<times> Response \<Rightarrow> 'a world \<Rightarrow> bool" where "Q = (\<lambda>a w'. same_world w w' \<and> fst a = g \<and> Resp_Status (snd a) \<in> {403, 500, 503})"
  have gate: "triple (same_world w) (trying (on_db Maintenance) (\<lambda>_. ret (g, updating_now q))
      (\<lambda>on. if on then ret (g, updating_now q) else ServeHTTP s g q)) Q (\<lambda>_. False)" if "\<not> maintenanceGuard (wdb w)" for q
    unfolding trying_def Q_def
    by (rule triple_bind [OF triple_Maintenance]) (use that in \<open>auto split: sum.split simp: updating_now_def triple_def ret_def\<close>)
  have "triple (same_world w) (guarded s g (r\<lparr>RequestID := i\<rparr>)) Q (\<lambda>_. False)" for i
    unfolding guarded_def using assms gate
    by (auto split: option.split simp: Q_def unavailable_def intro!: triple_ret)
  then have "\<exists>a w' fs'. Handler s g r (w, fs) = (Inr a, (w', fs')) \<and> Q a w'"
    by (rule Handler_answers) (simp add: Q_def)
  then show ?thesis by (fastforce simp: Q_def)
qed


section \<open>A trial server\<close>

definition trial_url :: URL where
  "trial_url = \<lparr>Scheme = ''http'', URL_Host = ''127.0.0.1:8080'', Hostname = ''127.0.0.1'', URL_Path = '''', RawQuery = '''', has_User = False\<rparr>"

definition trial_library :: Library where
  "trial_library = \<lparr>Marshal = (\<lambda>_. ''{}''), Valid = (\<lambda>_. True), Unmarshal_list = (\<lambda>_. []), Marshal_enrolment = (\<lambda>_. ''''),
     Unmarshal_enrolment = (\<lambda>_. None), Marshal_settings = (\<lambda>_. ''''), UrlParse = (\<lambda>_. Some trial_url), ParseMediaType = (\<lambda>t. t),
     ParseAddress = (\<lambda>_. None), ToLower = (\<lambda>t. t), IsLetter = (\<lambda>_. True), IsDigit = (\<lambda>_. False), Read_credentials = (\<lambda>_. None),
     Read_code = (\<lambda>_. None), Read_reset = (\<lambda>_. None), Read_create = (\<lambda>_. None), Read_access = (\<lambda>_. None), Read_writes = (\<lambda>_. None),
     Read_delete = (\<lambda>body. Some ((body, False), '''')), Read_limits = (\<lambda>_. None), Read_webhook = (\<lambda>_. None), Read_storage = (\<lambda>_. None),
     Read_policy = (\<lambda>_ _. None), Read_restore = (\<lambda>_. None)\<rparr>"

definition trial_config :: Installation where
  "trial_config = \<lparr>Config_ID = ''i'', Config_Mode = ''tunnel'', Config_Origin = ''http://127.0.0.1:8080'', Config_Hostname = '''',
     Config_Generation = ''1'', Config_Release = '''', Config_CaddyVersion = '''', Config_DockerVersion = '''', Config_ComposeVersion = ''''\<rparr>"

definition trial_server :: "unit HttpServer" where
  "trial_server = \<lparr>Srv_Config = trial_config, Srv_Store = True, Srv_Seal = (\<lambda>_ t. t), Srv_Open = (\<lambda>_ t. Some t), Srv_CSRF = (\<lambda>token _. token),
     Srv_Argon2 = (\<lambda>_ _. []), Srv_PG = None, Srv_Assets = None, Srv_Versions = [], Srv_TrustedProxy = None, Srv_Mgmt = None,
     Srv_Provisioner = None, Srv_Jobs = None, Srv_Alerts = None, Srv_TLSStatePath = '''',
     Srv_HostPaths = \<lparr>Paths_Status = '''', Paths_CertSync = '''', Paths_TLSState = '''', Paths_Certificate = ''''\<rparr>,
     Srv_HostFiles = \<lparr>ReadFile = (\<lambda>_. io_throw (EMsg '''')), Unmarshal_report = (\<lambda>_. None), Unmarshal_tls = (\<lambda>_. None),
       Unmarshal_sync = (\<lambda>_. None), Parse_RFC3339 = (\<lambda>_. None), NotAfter = (\<lambda>_. None)\<rparr>,
     Srv_Now = (\<lambda>x. (100 * second, x)), Srv_Token = (\<lambda>x. (''token'', x)), Srv_Salt = (\<lambda>x. ([], x)), Srv_Secret = (\<lambda>x. ([], x)),
     Srv_SlotFree = (\<lambda>x. (True, x)), Srv_ReadFile = (\<lambda>_. io_throw (EMsg '''')), Srv_LookupIP = (\<lambda>_. io_ret []), Srv_Text = (\<lambda>_. ''''),
     Srv_SQLiteVersion = io_ret '''', Srv_Lib = trial_library\<rparr>"

definition trial_token :: string where
  "trial_token = replicate 43 CHR ''a''"

text \<open>A session of this installation that ran out at second 50, and one that lasts.\<close>

definition trial_visit :: "int \<Rightarrow> unit world" where
  "trial_visit ends = \<lparr>wdb = empty_db\<lparr>sessions := [\<lparr>ses_token_hash = Hash trial_token, ses_scope = scope trial_server, ses_expires_at = ends\<rparr>]\<rparr>,
     outside = (), calls = [], files = (\<lambda>_. None)\<rparr>"

definition trial_request :: "string \<Rightarrow> string list \<Rightarrow> string \<Rightarrow> Request" where
  "trial_request m segments csrf = \<lparr>Method = m, Req_Host = ''127.0.0.1:8080'', Segments = segments, Canonical = True,
     Req_Header = (\<lambda>k. if k = ''Origin'' then ''http://127.0.0.1:8080'' else if k = ''Content-Type'' then ''application/json''
       else if k = ''X-CSRF-Token'' then csrf else ''''),
     Req_Cookies = [(''pgfy_tunnel_session'', trial_token)], RemoteAddr = ''127.0.0.1:50000'', Req_Query = (\<lambda>_. ''''), Req_Body = ''shop'',
     PathValues = [], RequestID = ''''\<rparr>"

definition trial_gates :: gates where
  "trial_gates = \<lparr>gate_limiter = no_attempts, gate_codes = no_attempts,
     gate_alerts = \<lparr>failingSince = None, in_maintenance = False, lastOK = 0, lastError = ''''\<rparr>\<rparr>"

lemma trial_clock: "not_before trial_server (100 * second)"
  by (simp add: not_before_def trial_server_def)

lemma trial_cookie: "stepCookie trial_server (trial_request m ps c) ''session'' = Some trial_token"
  by (simp add: stepCookie_def trial_request_def cookie_def https_def trial_server_def trial_config_def trial_token_def)

lemmas trial_routes = find_route.simps match_path.simps method_matches_def trial_request_def api_def wildcard_def has_prefix_def


theorem guards_refuse_witness:
  "\<exists>resp w' fs'. Handler trial_server trial_gates (trial_request ''DELETE'' (api [''projects'', ''p'']) trial_token)
       ((trial_visit 150)\<lparr>wdb := (wdb (trial_visit 150))\<lparr>metadata := [(''maintenance'', ''1'')]\<rparr>\<rparr>, []) = (Inr (trial_gates, resp), (w', fs')) \<and>
     sessions (wdb w') = sessions (wdb (trial_visit 150)) \<and> Resp_Status resp \<in> {403, 500, 503}"
proof -
  let ?r = "trial_request ''DELETE'' (api [''projects'', ''p'']) trial_token"
  let ?w = "(trial_visit 150)\<lparr>wdb := (wdb (trial_visit 150))\<lparr>metadata := [(''maintenance'', ''1'')]\<rparr>\<rparr>"
  have "\<exists>resp w' fs'. Handler trial_server trial_gates ?r (?w, []) = (Inr (trial_gates, resp), (w', fs')) \<and> same_world ?w w' \<and>
      Resp_Status resp \<in> {403, 500, 503}"
  proof (rule guards_refuse)
    show "api_path ?r" by (simp add: api_path_def Path_def trial_request_def api_def has_prefix_def)
    show "\<not> reading ?r" by (simp add: reading_def trial_request_def)
    have "\<not> maintenanceGuard (wdb ?w)" by (simp add: maintenanceGuard_def)
    moreover have "path_clean (Path ?r) \<notin> set maintenanceExempt" by code_simp
    ultimately show "(\<forall>u. UrlParse (Srv_Lib trial_server) (Config_Origin (Srv_Config trial_server)) = Some u \<longrightarrow> Req_Host ?r \<noteq> URL_Host u) \<or>
      \<not> same_origin trial_server ?r \<or> \<not> Srv_Store trial_server \<or> \<not> maintenanceGuard (wdb ?w) \<and> path_clean (Path ?r) \<notin> set maintenanceExempt"
      by blast
  qed
  then show ?thesis by (auto simp: same_world_def)
qed

end
