(* ===== verification/Http_Answers.thy ===== *)
theory Http_Answers
  imports Http_Safety
begin

text \<open>
  No handler ends without an answer, whatever the store, PostgreSQL and the provider do.
\<close>

section \<open>The shape of a handler\<close>

lemma never_fails_prod: "(\<And>a b. never_fails (f a b)) \<Longrightarrow> never_fails (case p of (a, b) \<Rightarrow> f a b)"
  by (cases p) simp

lemma never_fails_list: "never_fails m \<Longrightarrow> (\<And>x xs. never_fails (f x xs)) \<Longrightarrow> never_fails (case l of [] \<Rightarrow> m | x # xs \<Rightarrow> f x xs)"
  by (cases l) simp_all

lemma never_fails_trying: "(\<And>e. never_fails (h e)) \<Longrightarrow> (\<And>v. never_fails (k v)) \<Longrightarrow> never_fails (trying m h k)"
  unfolding trying_def by (intro never_fails_rules)

lemma never_fails_unless: "never_fails m \<Longrightarrow> (\<And>v. never_fails (k v)) \<Longrightarrow> never_fails (unless m k)"
  unfolding unless_def by (intro never_fails_rules)

lemma never_fails_granted: "(\<And>v. never_fails (k v)) \<Longrightarrow> never_fails (granted a k)"
  unfolding granted_def by (intro never_fails_rules)

lemma never_fails_wall: "never_fails (wall s)" "never_fails (fresh_token s)"
  unfolding wall_def fresh_token_def by (rule never_fails_observe)+

lemmas never_fails_http = never_fails_jobs never_fails_prod never_fails_list never_fails_trying never_fails_unless never_fails_granted
  never_fails_wall

lemma never_fails_signed_in: "(\<And>session token. never_fails (k session token)) \<Longrightarrow> never_fails (signed_in s r k)"
  unfolding signed_in_def authorize_def Let_def by (intro never_fails_http)

lemma never_fails_project: "(\<And>p. never_fails (k p)) \<Longrightarrow> never_fails (project s r k)"
  unfolding project_def by (intro never_fails_http)

lemma never_fails_gated: "never_fails gate \<Longrightarrow> never_fails h \<Longrightarrow> never_fails (gated gate h)"
  unfolding gated_def by (intro never_fails_http)

lemma never_fails_hashed: "(\<And>hash. never_fails (k hash)) \<Longrightarrow> never_fails (hashed s r password k)"
  unfolding hashed_def by (intro never_fails_http)

lemma never_fails_gates: "never_fails (beginAuth s g r)" "never_fails (codeAllowed s g r)"
  unfolding beginAuth_def codeAllowed_def Let_def by (intro never_fails_http)+

lemma never_fails_audit: "never_fails (auditEntry s r action target detail)" "never_fails (record_audit s r action target detail)"
  unfolding record_audit_def auditEntry_def by (intro never_fails_http)+

lemmas never_fails_handlers = never_fails_http never_fails_signed_in never_fails_project never_fails_gated never_fails_hashed
  never_fails_gates never_fails_audit

section \<open>What the handlers call\<close>

lemma never_fails_shared: "never_fails (databaseAccess_of s)" "never_fails (or_zero zero m)" "never_fails (storageTarget s)"
  "never_fails (view_job s job)" "never_fails (get_Webhook e)" "never_fails (read_file hf path)" "never_fails (account_of en)"
  "never_fails (with_size s p view)" "never_fails (newest_of_project s tgt p)" "never_fails (signedIn s email token status)"
  "never_fails (abandonSteps s r)" "never_fails (SyncLimits prov)" "never_fails (checks s)" "never_fails (draw_project s name)"
  unfolding databaseAccess_of_def or_zero_def storageTarget_def view_job_def get_Webhook_def read_file_def account_of_def with_size_def
    newest_of_project_def signedIn_def abandonSteps_def abandon_step_def SyncLimits_def checks_def draw_project_def
  by (intro never_fails_handlers)+

lemmas never_fails_called = never_fails_handlers never_fails_shared

lemma never_fails_Read: "never_fails (Read hf paths mode t)"
  unfolding Read_def certificate_def Let_def by (intro never_fails_called)

lemma never_fails_summary: "never_fails (projectSummary s p)"
  unfolding projectSummary_def Let_def by (intro never_fails_called)

lemma never_fails_summaries: "never_fails (summaries s ps)"
  by (induction ps) (auto intro!: never_fails_called never_fails_summary)

lemma never_fails_view_jobs: "never_fails (view_jobs s js)"
  by (induction js) (auto intro!: never_fails_called)

lemma never_fails_Deliver: "never_fails (Deliver http hook body version t)"
proof -
  have "never_fails (call_out lg (\<lambda>x. case f x of (a, x') \<Rightarrow> (Inr a, x')))" for lg :: "err + 'b \<Rightarrow> db \<Rightarrow> call list" and f :: "'a \<Rightarrow> 'b \<times> 'a"
    unfolding never_fails_def by (rule triple_call) (auto split: prod.splits)
  then show ?thesis unfolding Deliver_def by (intro never_fails_called)
qed

lemma never_fails_SendTest: "never_fails (SendTest e mem)"
  unfolding SendTest_def Let_def by (intro never_fails_called never_fails_Deliver)

lemma never_fails_backupStatus: "never_fails (backupStatus s)"
  unfolding backupStatus_def by (intro never_fails_called)

lemma never_fails_enrolment: "never_fails (startEnrolment s r en begin_step)" "never_fails (enrolment_in_progress s hash)"
  unfolding startEnrolment_def enrolment_in_progress_def Let_def by (intro never_fails_called)+

lemma never_fails_deletion: "never_fails (begin_delete s r w p ack)" "never_fails (recentlyBackedUp s p)"
  unfolding begin_delete_def recentlyBackedUp_def by (intro never_fails_called never_fails_summary)+

lemma never_fails_check: "never_fails (observe_check s p c)"
  unfolding observe_check_def complete_with_def by (intro never_fails_called)

lemma never_fails_freeze: "never_fails (freeze s r m p frozen)"
  unfolding freeze_def by (intro never_fails_called never_fails_summary)

lemma never_fails_restore: "never_fails (queue_restore s r created manifest name)" "never_fails (restore_answer s created job)"
  unfolding queue_restore_def restore_answer_def by (intro never_fails_called)+

lemma never_fails_recovery: "never_fails (list_groups s r target st)" "never_fails (pageDatabase s r target name)"
  unfolding list_groups_def pageDatabase_def by (intro never_fails_called never_fails_view_jobs)+

lemma never_fails_webhook: "never_fails (save_webhook s r e hook)"
  unfolding save_webhook_def by (intro never_fails_called)

lemmas never_fails_parts = never_fails_called never_fails_Read never_fails_summary never_fails_summaries never_fails_view_jobs
  never_fails_SendTest never_fails_backupStatus never_fails_enrolment never_fails_deletion never_fails_check never_fails_freeze
  never_fails_restore never_fails_recovery never_fails_webhook

section \<open>The handlers\<close>

definition answers :: "'x handler \<Rightarrow> bool" where
  "answers h \<longleftrightarrow> (\<forall>g r. never_fails (h g r))"

lemma answers_ungated: "(\<And>r. never_fails (h r)) \<Longrightarrow> answers (ungated h)"
  unfolding answers_def ungated_def by (intro allI never_fails_rules)

lemma answers_session:
  "never_fails (logout s r)" "never_fails (get_session s r)" "never_fails (get_status s r)" "never_fails (get_settings s r)"
  "never_fails (listProjects s r)" "never_fails (createProject s r)" "never_fails (getProject s r)" "never_fails (deleteProject s r)"
  "never_fails (retryProject s r)" "never_fails (getCredentials s r)" "never_fails (updateAccess s r)" "never_fails (updateWrites s r)"
  "never_fails (putLimits s r)" "never_fails (rotateCredentials s r)" "never_fails (connectionBudget s r)"
  "never_fails (getAlertSettings s r)" "never_fails (putAlertSettings s r)" "never_fails (createConnectionCheck s r)"
  "never_fails (getConnectionCheck s r)" "never_fails (getStorage s r)" "never_fails (putStorage s r)" "never_fails (checkStorage s r)"
  "never_fails (getBackupPolicy s r)" "never_fails (putBackupPolicy s r)" "never_fails (startBackup s r)" "never_fails (listBackups s r)"
  "never_fails (getJob s r)" "never_fails (listRecoveryBackups s r)" "never_fails (startRestore s r)"
  unfolding handlers_of_a_session Let_def by (intro never_fails_parts)+

lemma answers_alerts: "answers (testAlerts s)" "answers (\<lambda>g. ungated (listAlerts s g) g)"
  unfolding answers_def testAlerts_def listAlerts_def ungated_def authorize_def Let_def by (intro allI never_fails_parts)+

lemma answers_open:
  "never_fails (live_answer r)" "never_fails (ready s r)" "never_fails (setupAvailable s r)" "never_fails (currentEnrolment s r)"
  "never_fails (abandon s r)"
  unfolding live_answer_def ready_def setupAvailable_def currentEnrolment_def abandon_def by (intro never_fails_parts)+

lemma answers_sign_in: "answers (post_setup s)" "answers (login s)" "answers (confirmCode s)" "answers (confirmEnrolment s)" "answers (startReset s)"
  unfolding answers_def post_setup_def setup_body_def setup_tunnel_def login_def login_body_def login_verified_def login_pending_def
    login_session_def confirmCode_def confirmEnrolment_def startReset_def startReset_body_def Let_def
  by (intro allI never_fails_parts)+

lemma routes_answer: "list_all (\<lambda>(m, p, h). answers h) (open_routes s @ session_routes s)"
  unfolding open_routes_def session_routes_def append.simps list.pred_inject prod.case
  by (intro conjI list.pred_inject(1) answers_alerts answers_sign_in answers_ungated answers_open answers_session)

lemma ServeHTTP_answers: "never_fails (ServeHTTP s g r)"
proof -
  have "never_fails (h g (r\<lparr>PathValues := vs\<rparr>))" if "find_route (open_routes s @ session_routes s) r = Some (h, vs)" for h vs
    using routes_answer [of s] find_route_in [OF that] by (fastforce simp: list_all_iff answers_def)
  then show ?thesis unfolding ServeHTTP_def by (auto split: option.split intro: never_fails_rules)
qed

lemma Handler_never_fails: "never_fails (Handler s g r)"
  unfolding Handler_def guarded_def Let_def by (intro never_fails_parts ServeHTTP_answers)

lemma serve_all_never_fails: "never_fails (serve_all s g rs)"
  by (induction rs arbitrary: g) (auto intro!: never_fails_rules never_fails_prod Handler_never_fails)

lemma serve_all_length: "serve_all s g rs c = (Inr (g', resps), c') \<Longrightarrow> length resps = length rs"
proof (induction rs arbitrary: g c resps g' c')
  case (Cons r rs)
  then obtain g1 resp c1 g2 rest c2 where "serve_all s g1 rs c1 = (Inr (g2, rest), c2)" "resps = resp # rest"
    by (auto simp: bind_Inr ret_Inr split: prod.splits)
  then show ?case using Cons.IH by simp
qed (simp add: ret_Inr)


end
