(* ===== verification/Http_Sessions.thy ===== *)
theory Http_Sessions
  imports Http_Answers
begin

text \<open>
  Who can get in. The locale \<open>session_invariant\<close> states what a fact about sessions and the administrator must
  survive; inside it every handler but the two that check a one-time code keeps such a fact. It is interpreted by the
  statement that no session was added.
\<close>

section \<open>Reading\<close>

lemma keeps_prod [tx_keeps]: "(\<And>a b. keeps I (f a b)) \<Longrightarrow> keeps I (case p of (a, b) \<Rightarrow> f a b)"
  by (cases p) simp

lemma keeps_list [tx_keeps]: "keeps I m \<Longrightarrow> (\<And>x xs. keeps I (f x xs)) \<Longrightarrow> keeps I (case l of [] \<Rightarrow> m | x # xs \<Rightarrow> f x xs)"
  by (cases l) simp_all

lemma reads_auth: "keeps I (get_Session token sc t)" "keeps I (get_Password email)" "keeps I Factor" "keeps I AdminEmail" "keeps I SetupAvailable"
  "keeps I (EnrolmentPayload hash t)" "keeps I (EnrolmentUsable hash kind)"
  unfolding get_Session_def get_Password_def Factor_def AdminEmail_def SetupAvailable_def EnrolmentPayload_def EnrolmentUsable_def
    count_admins_def newest_reset_id_def adminExists_def
  by (intro tx_keeps)+

lemma reads_projects: "keeps I Projects" "keeps I (get_Project pid)" "keeps I (get_PolicyState pid)" "keeps I (get_ProjectLimits pid)"
  "keeps I (SealedPassword pid)" "keeps I (PendingPassword pid)" "keeps I (LastDeleteJob pid)" "keeps I (get_ConnectionCheck pid cid)"
  "keeps I (PendingChallengeHash pid cid)" "keeps I Maintenance" "keeps I (Setting k)" "keeps I AlertConditions"
  "keeps I ReadyProjectLimits"
  unfolding Projects_def get_Project_def get_PolicyState_def get_ProjectLimits_def SealedPassword_def PendingPassword_def LastDeleteJob_def
    get_ConnectionCheck_def PendingChallengeHash_def Maintenance_def maintenance_def Setting_def AlertConditions_def
    projectBy_def ReadyProjectLimits_def
  by (intro tx_keeps)+

lemma reads_backups: "keeps I (BucketBackups tgt name before limit)" "keeps I (LateProjects tgt inst iv t)" "keeps I (NewestRecoverable tgt inst)"
  "keeps I (PrefixStates tgt)" "keeps I (ProjectBackups pid n)" "keeps I (ProjectJobs pid n)" "keeps I (get_Job jid)" "keeps I (get_StorageTarget tgt)"
  "keeps I (RecentJobs n)" "keeps I ActiveJobs" "keeps I BackupFailures" "keeps I get_BackupPolicy" "keeps I (get_BackupSchedule pid)"
  unfolding BucketBackups_def LateProjects_def NewestRecoverable_def PrefixStates_def ProjectBackups_def ProjectJobs_def get_Job_def
    get_StorageTarget_def RecentJobs_def ActiveJobs_def BackupFailures_def get_BackupPolicy_def get_BackupSchedule_def query_jobs_def Let_def Projects_def
  by (intro tx_keeps)+

section \<open>The shape of a handler\<close>

lemma keeps_trying: "keeps I m \<Longrightarrow> (\<And>e. keeps I (h e)) \<Longrightarrow> (\<And>v. keeps I (k v)) \<Longrightarrow> keeps I (trying m h k)"
  unfolding trying_def by (intro tx_keeps)

lemma keeps_unless: "keeps I m \<Longrightarrow> (\<And>v. keeps I (k v)) \<Longrightarrow> keeps I (unless m k)"
  unfolding unless_def by (intro tx_keeps)

lemma keeps_granted: "(\<And>v. keeps I (k v)) \<Longrightarrow> keeps I (granted a k)"
  unfolding granted_def by (intro tx_keeps)

lemma keeps_gated: "keeps I gate \<Longrightarrow> keeps I h \<Longrightarrow> keeps I (gated gate h)"
  unfolding gated_def by (intro tx_keeps)

lemma keeps_gates: "keeps (of_db I) (wall s)" "keeps (of_db I) (fresh_token s)" "keeps (of_db I) (beginAuth s g r)" "keeps (of_db I) (codeAllowed s g r)"
  "keeps (of_db I) (auditEntry s r action target detail)"
  unfolding wall_def fresh_token_def beginAuth_def codeAllowed_def auditEntry_def Let_def by (intro tx_keeps)+

lemma keeps_hashed: "(\<And>hash. keeps (of_db I) (k hash)) \<Longrightarrow> keeps (of_db I) (hashed s r password k)"
  unfolding hashed_def by (intro tx_keeps)

lemma keeps_signed_in: "(\<And>session token. keeps (of_db I) (k session token)) \<Longrightarrow> keeps (of_db I) (signed_in s r k)"
  unfolding signed_in_def authorize_def Let_def by (intro tx_keeps keeps_unless keeps_trying keeps_gates reads_auth)

lemma keeps_project: "(\<And>p. keeps (of_db I) (k p)) \<Longrightarrow> keeps (of_db I) (project s r k)"
  unfolding project_def by (intro tx_keeps keeps_trying reads_projects)

lemma keeps_or_zero: "keeps I m \<Longrightarrow> keeps (of_db I) (or_zero zero m)"
  unfolding or_zero_def by (intro tx_keeps keeps_trying)

lemmas http_keeps = tx_keeps keeps_trying keeps_unless keeps_granted keeps_gated keeps_gates keeps_hashed keeps_signed_in keeps_project keeps_or_zero
  reads_auth reads_projects reads_backups

lemma keeps_shown: "keeps (of_db I) (databaseAccess_of s)" "keeps (of_db I) (StorageSettings w)" "keeps (of_db I) (StorageClient jw)"
  "keeps (of_db I) (storageTarget s)" "keeps (of_db I) (view_job s job)" "keeps (of_db I) (get_Webhook e)" "keeps (of_db I) (read_file hf path)"
  "keeps (of_db I) (account_of en)" "keeps (of_db I) (newest_of_project s tgt p)" "keeps (of_db I) (signedIn s email token status)"
  "keeps (of_db I) (draw_project s name)" "keeps (of_db I) (projectCredentials s p)" "keeps (of_db I) (validated s st)"
  "keeps (of_db I) (set_writes m p frozen)"
  unfolding databaseAccess_of_def StorageSettings_def StorageClient_def storageTarget_def view_job_def get_Webhook_def read_file_def account_of_def
    newest_of_project_def signedIn_def draw_project_def projectCredentials_def validated_def set_writes_def
  by (intro http_keeps)+

lemma keeps_Read: "keeps (of_db I) (Read hf paths mode t)"
  unfolding Read_def certificate_def Let_def by (intro http_keeps keeps_shown)

lemma keeps_summary: "keeps (of_db I) (projectSummary s p)"
  unfolding projectSummary_def with_size_def Let_def by (intro http_keeps)

lemma keeps_summaries: "keeps (of_db I) (summaries s ps)"
  by (induction ps) (auto intro!: http_keeps keeps_summary)

lemma keeps_view_jobs: "keeps (of_db I) (view_jobs s js)"
  by (induction js) (auto intro!: http_keeps keeps_shown)

lemma keeps_SendTest: "keeps (of_db I) (SendTest e mem)"
  unfolding SendTest_def Deliver_def Let_def by (intro http_keeps keeps_shown)

lemma keeps_groups_read: "keeps (of_db I) (groups_read s target ps)"
  by (induction ps) (auto intro!: http_keeps simp: group_read_def)

lemma keeps_views: "keeps (of_db I) (backupStatus s)" "keeps (of_db I) (enrolment_in_progress s hash)" "keeps (of_db I) (recentlyBackedUp s p)"
  "keeps (of_db I) (list_groups s r target st)" "keeps (of_db I) (pageDatabase s r target name)" "keeps (of_db I) (restore_answer s created job)"
  "keeps (of_db I) (checkProtection jw cfg)"
  unfolding backupStatus_def enrolment_in_progress_def recentlyBackedUp_def list_groups_def pageDatabase_def restore_answer_def checkProtection_def
  by (intro http_keeps keeps_shown keeps_groups_read keeps_view_jobs)+

lemmas shown_keeps = http_keeps keeps_shown keeps_Read keeps_summary keeps_summaries keeps_view_jobs keeps_SendTest keeps_views

section \<open>Facts about who is in\<close>

locale session_invariant =
  fixes I :: "db \<Rightarrow> bool"
  assumes only_auth: "I d \<Longrightarrow> sessions d' = sessions d \<Longrightarrow> administrator d' = administrator d \<Longrightarrow> I d'"
    and sessions_deleted: "I d \<Longrightarrow> I (d\<lparr>sessions := delete_where P (sessions d)\<rparr>)"
begin

lemma exec_elsewhere: "(\<And>d. sessions (u d) = sessions d \<and> administrator (u d) = administrator d) \<Longrightarrow> keeps I (exec u)"
  by (rule keeps_exec, erule only_auth) simp_all

lemma affected_elsewhere:
  "(\<And>d. sessions (snd (u d)) = sessions d \<and> administrator (snd (u d)) = administrator d) \<Longrightarrow> keeps I (exec_affected u)"
  by (rule keeps_exec_affected, erule only_auth) simp_all

lemma insert_elsewhere:
  "(\<And>d d'. u d = Some d' \<Longrightarrow> sessions d' = sessions d \<and> administrator d' = administrator d) \<Longrightarrow> keeps I (exec_insert u)"
  by (rule keeps_exec_insert, erule only_auth) simp_all

lemmas elsewhere = exec_elsewhere affected_elsewhere insert_elsewhere

lemma small_writes: "keeps I (Audit entry)" "keeps I (audit entry)" "keeps I (RecordAlertEvent kind k summary detail t)"
  "keeps I (SetSetting k sealed t)" "keeps I (ExpireConnectionChecks t)" "keeps I (MarkLimitsApplied pid n)" "keeps I (Abandon hash t)"
  "keeps I Store_Maintenance.Check" "keeps I (LimitsFailed pid text)"
  unfolding Audit_def audit_def RecordAlertEvent_def SetSetting_def ExpireConnectionChecks_def MarkLimitsApplied_def Abandon_def
    Store_Maintenance.Check_def LimitsFailed_def
  by ((intro tx_keeps; intro exec_elsewhere; simp add: audited_def new_event_def)
    | (intro exec_elsewhere; simp add: audited_def new_event_def))+

lemmas touched_elsewhere = audited_def new_event_def insert_project_def insert_secret_def insert_policy_state_def insert_limits_def
  insert_revision_def set_current_def insert_check_def complete_check_def update_limits_def begin_rotation_def swap_password_def
  insert_job_def upsert_schedule_def insert_token_def Let_def

lemma project_writes: "keeps I (CreateProject p k sealed t)" "keeps I (RetryProject pid)" "keeps I (SetProjectFrozen pid at_time)"
  "keeps I (RecordPolicyRevision pid n addresses t)" "keeps I (ApplyPolicyResult pid n ok text)" "keeps I (NewConnectionCheck cid pid hash print t)"
  "keeps I (CompleteConnectionCheck cid evidence)" "keeps I (SetProjectLimits pid l n t)" "keeps I (BeginRotation pid sealed req)"
  "keeps I (CompleteRotation pid sealed entry)" "keeps I (SetAlertWebhook sealed changed t)" "keeps I (SetBackupPolicy policy t)"
  unfolding CreateProject_def create_rows_def projectBy_def RetryProject_def SetProjectFrozen_def update_one_project_def RecordPolicyRevision_def
    ApplyPolicyResult_def NewConnectionCheck_def CompleteConnectionCheck_def SetProjectLimits_def get_ProjectLimits_def BeginRotation_def
    CompleteRotation_def SetAlertWebhook_def SetBackupPolicy_def
  by (auto intro!: tx_keeps small_writes elim!: only_auth simp: touched_elsewhere split: if_splits option.splits)

lemma job_writes: "keeps I (EnqueueJob jid kind pid input t)" "keeps I (EnqueueBackupJob jid pid input scheduled t)"
  unfolding EnqueueJob_def EnqueueBackupJob_def enqueue_def enqueue_body_def maintenance_def
  by (auto intro!: tx_keeps reads_backups elim!: only_auth simp: touched_elsewhere split: if_splits option.splits)

lemma deletion_writes: "keeps I (BeginProjectDeletion pid newJob entry t)"
  unfolding BeginProjectDeletion_def begin_deletion_def retry_deletion_def fresh_deletion_def queue_deletion_def insertDeleteJob_def
    maintenance_def mark_deleting_def cancel_queued_def drop_backup_conditions_def
  by (auto intro!: tx_keeps small_writes reads_backups elim!: only_auth simp: touched_elsewhere split: if_splits option.splits prod.splits)

lemma token_writes: "keeps I (issue purpose hash ttl mx parent_row payload t)" "keeps I (use_token purpose hash t)" "keeps I (consume i t)"
  unfolding issue_def use_token_def consume_def
  by (auto intro!: tx_keeps elim!: only_auth simp: touched_elsewhere split: if_splits)

lemma sign_in_writes: "keeps I (BeginEnrolment token hash sealed t)" "keeps I (BeginUpgrade hash sealed t)" "keeps I (BeginReset token hash sealed t)"
  "keeps I (BeginPending hash password sc t)"
  unfolding BeginEnrolment_def BeginUpgrade_def BeginReset_def BeginPending_def spend_setup_token_def adminExists_def Let_def
  by (auto intro!: tx_keeps token_writes)

lemma Logout_kept: "keeps I (Logout token)"
  unfolding Logout_def by (intro keeps_exec sessions_deleted)

lemmas store_kept = small_writes project_writes job_writes deletion_writes sign_in_writes Logout_kept reads_auth reads_projects reads_backups

lemma Apply_kept: "keeps (of_db I) (Apply text m rules)"
  unfolding Apply_def write_file_def restore_file_def validate_and_load_def Let_def by (intro tx_keeps)

lemma provisioner_kept: "keeps (of_db I) (SyncPolicy prov)" "keeps (of_db I) (SyncLimits prov)" "keeps (of_db I) (Rotate prov p entry)"
proof -
  have rules: "keeps (of_db I) (collect_rules prov ps rules revisions)" for ps rules revisions
    by (induction ps arbitrary: rules revisions) (auto intro!: tx_keeps project_writes reads_projects split: sum.split)
  show "keeps (of_db I) (SyncPolicy prov)"
    unfolding SyncPolicy_def record_outcome_def by (intro tx_keeps rules Apply_kept store_kept)
  show "keeps (of_db I) (SyncLimits prov)"
    unfolding SyncLimits_def sync_role_def applyLimits_def set_limits_def Let_def by (intro tx_keeps store_kept)
  show "keeps (of_db I) (Rotate prov p entry)"
    unfolding Rotate_def finishRotation_def Let_def by (intro tx_keeps store_kept)
qed

lemma parts_kept: "keeps (of_db I) (record_audit s r action target detail)" "keeps (of_db I) (save_project s p password k)"
  "keeps (of_db I) (SaveWebhook e hook)" "keeps (of_db I) (SaveStorageSettings s st)" "keeps (of_db I) (checks s)"
  "keeps (of_db I) (abandonSteps s r)" "keeps (of_db I) (observe_check s p c)"
  "keeps (of_db I) (queue_restore s r created manifest name)" "keeps (of_db I) (begin_delete s r jw p ack)"
  unfolding record_audit_def save_project_def SaveWebhook_def SaveStorageSettings_def checks_def abandonSteps_def abandon_step_def
    observe_check_def complete_with_def queue_restore_def begin_delete_def
  by (intro shown_keeps store_kept)+

lemma steps_kept: "keeps (of_db I) (save_webhook s r e hook)" "keeps (of_db I) (freeze s r m p frozen)"
  unfolding save_webhook_def freeze_def by (intro shown_keeps parts_kept store_kept)+

lemma session_handlers_keep:
  "keeps (of_db I) (logout s r)" "keeps (of_db I) (get_session s r)" "keeps (of_db I) (get_status s r)" "keeps (of_db I) (get_settings s r)"
  "keeps (of_db I) (listProjects s r)" "keeps (of_db I) (createProject s r)" "keeps (of_db I) (getProject s r)" "keeps (of_db I) (deleteProject s r)"
  "keeps (of_db I) (retryProject s r)" "keeps (of_db I) (getCredentials s r)" "keeps (of_db I) (updateAccess s r)" "keeps (of_db I) (updateWrites s r)"
  "keeps (of_db I) (putLimits s r)" "keeps (of_db I) (rotateCredentials s r)" "keeps (of_db I) (connectionBudget s r)"
  "keeps (of_db I) (getAlertSettings s r)" "keeps (of_db I) (putAlertSettings s r)" "keeps (of_db I) (createConnectionCheck s r)"
  "keeps (of_db I) (getConnectionCheck s r)" "keeps (of_db I) (getStorage s r)" "keeps (of_db I) (putStorage s r)" "keeps (of_db I) (checkStorage s r)"
  "keeps (of_db I) (getBackupPolicy s r)" "keeps (of_db I) (putBackupPolicy s r)" "keeps (of_db I) (startBackup s r)"
  "keeps (of_db I) (listBackups s r)" "keeps (of_db I) (getJob s r)" "keeps (of_db I) (listRecoveryBackups s r)" "keeps (of_db I) (startRestore s r)"
  unfolding handlers_of_a_session Let_def by (intro shown_keeps store_kept provisioner_kept parts_kept steps_kept)+

lemma alert_handlers_keep: "keeps (of_db I) (testAlerts s g r)" "keeps (of_db I) (listAlerts s g r)"
  unfolding testAlerts_def listAlerts_def authorize_def Let_def by (intro shown_keeps store_kept)+

lemma open_handlers_keep: "keeps (of_db I) (live_answer r)" "keeps (of_db I) (ready s r)" "keeps (of_db I) (setupAvailable s r)"
  "keeps (of_db I) (currentEnrolment s r)" "keeps (of_db I) (abandon s r)"
  unfolding live_answer_def ready_def setupAvailable_def currentEnrolment_def abandon_def by (intro shown_keeps store_kept parts_kept)+

lemma startEnrolment_keeps: "(\<And>hash sealed. keeps (of_db I) (begin_step hash sealed)) \<Longrightarrow> keeps (of_db I) (startEnrolment s r en begin_step)"
  unfolding startEnrolment_def Let_def by (intro shown_keeps)

lemma startReset_keeps: "keeps (of_db I) (startReset s g r)"
  unfolding startReset_def startReset_body_def by (intro shown_keeps store_kept startEnrolment_keeps)

end

text \<open>The two steps that check a one-time code.\<close>

definition code_paths :: "string list list" where
  "code_paths = [api [''auth'', ''code''], api [''auth'', ''enrol'', ''confirm'']]"

definition code_step :: "Request \<Rightarrow> bool" where
  "code_step r \<longleftrightarrow> Method r = ''POST'' \<and> Segments r \<in> set code_paths"

lemma match_path_literal: "list_all (\<lambda>p. wildcard p = None) ps \<Longrightarrow> match_path ps xs = Some vs \<Longrightarrow> xs = ps"
  by (induction ps xs arbitrary: vs rule: match_path.induct) (auto split: if_splits option.splits)

lemma code_paths_literal: "p \<in> set code_paths \<Longrightarrow> match_path p xs = Some vs \<Longrightarrow> xs = p"
  by (rule match_path_literal) (auto simp: code_paths_def api_def wildcard_def has_prefix_def)

lemma find_route_matches:
  "find_route routes r = Some (h, vs) \<Longrightarrow> \<exists>m p. (m, p, h) \<in> set routes \<and> method_matches m r \<and> match_path p (Segments r) = Some vs"
  by (induction routes r rule: find_route.induct) (auto split: if_splits option.splits)

text \<open>A fact that also survives the two ways to a session without a code, which only a tunnel has.\<close>

locale closed_door = session_invariant I for I :: "db \<Rightarrow> bool" +
  fixes s :: "'x HttpServer"
  assumes no_setup: "\<not> https s \<Longrightarrow> keeps I (Setup token email password hash sc t)"
    and no_session: "\<not> https s \<Longrightarrow> keeps I (AddSession token sc password t)"
begin

lemma setup_keeps: "keeps (of_db I) (post_setup s g r)"
proof (cases "https s")
  case True
  show ?thesis unfolding post_setup_def setup_body_def if_P [OF True] by (intro shown_keeps store_kept startEnrolment_keeps)
next
  case False
  show ?thesis unfolding post_setup_def setup_body_def setup_tunnel_def if_not_P [OF False] by (intro shown_keeps no_setup False)
qed

lemma login_keeps: "keeps (of_db I) (login s g r)"
proof -
  have "keeps (of_db I) (login_verified s r email hash)" for email hash
  proof (cases "https s")
    case True
    show ?thesis unfolding login_verified_def login_pending_def if_P [OF True] by (intro shown_keeps store_kept startEnrolment_keeps)
  next
    case False
    show ?thesis unfolding login_verified_def login_pending_def login_session_def if_not_P [OF False]
      by (intro shown_keeps store_kept no_session False)
  qed
  then show ?thesis unfolding login_def login_body_def Let_def by (intro shown_keeps)
qed

lemma ungated_keeps: "(\<And>r. keeps (of_db I) (h r)) \<Longrightarrow> keeps (of_db I) (ungated h g r)"
  unfolding ungated_def by (intro tx_keeps)

lemma routes_keep:
  "list_all (\<lambda>(m, p, h). m = ''POST'' \<and> p \<in> set code_paths \<or> (\<forall>g r. keeps (of_db I) (h g r))) (open_routes s @ session_routes s)"
proof -
  have "list_all (\<lambda>(m, p, h). m = ''POST'' \<and> p \<in> set code_paths \<or> (\<forall>g r. keeps (of_db I) (h g r))) (open_routes s)"
    unfolding open_routes_def list.pred_inject prod.case
    by (intro conjI list.pred_inject(1); (rule disjI1, simp add: code_paths_def api_def; fail)?;
        intro disjI2 allI ungated_keeps open_handlers_keep setup_keeps login_keeps startReset_keeps)
  moreover have "list_all (\<lambda>(m, p, h). m = ''POST'' \<and> p \<in> set code_paths \<or> (\<forall>g r. keeps (of_db I) (h g r))) (session_routes s)"
    unfolding session_routes_def list.pred_inject prod.case
    by (intro conjI list.pred_inject(1) disjI2 allI ungated_keeps session_handlers_keep alert_handlers_keep)
  ultimately show ?thesis by (simp only: list_all_append)
qed

lemma ServeHTTP_keeps:
  assumes "\<not> code_step r"
  shows "keeps (of_db I) (ServeHTTP s g r)"
proof -
  have "keeps (of_db I) (h g (r\<lparr>PathValues := vs\<rparr>))" if route: "find_route (open_routes s @ session_routes s) r = Some (h, vs)" for h vs
  proof -
    obtain m p where mp: "(m, p, h) \<in> set (open_routes s @ session_routes s)" "method_matches m r" "match_path p (Segments r) = Some vs"
      using find_route_matches [OF route] by blast
    have "\<not> (m = ''POST'' \<and> p \<in> set code_paths)"
    proof
      assume code: "m = ''POST'' \<and> p \<in> set code_paths"
      then have "Segments r = p" using code_paths_literal mp(3) by blast
      then show False using assms code mp(2) by (simp add: code_step_def method_matches_def)
    qed
    moreover have "m = ''POST'' \<and> p \<in> set code_paths \<or> (\<forall>g r. keeps (of_db I) (h g r))"
      using bspec [OF routes_keep [unfolded list_all_iff] mp(1)] by (simp only: prod.case)
    ultimately show ?thesis by blast
  qed
  then show ?thesis unfolding ServeHTTP_def by (auto split: option.split intro: tx_keeps)
qed

lemma Handler_keeps: "\<not> code_step r \<Longrightarrow> keeps (of_db I) (Handler s g r)"
  unfolding Handler_def guarded_def Let_def
  by (intro shown_keeps ServeHTTP_keeps) (simp_all add: code_step_def)

lemma serve_all_keeps: "list_all (\<lambda>r. \<not> code_step r) rs \<Longrightarrow> keeps (of_db I) (serve_all s g rs)"
  by (induction rs arbitrary: g) (auto intro!: tx_keeps Handler_keeps)

end

section \<open>Sessions need a code\<close>

definition enrolled :: "db \<Rightarrow> bool" where
  "enrolled d = (case administrator d of None \<Rightarrow> False
     | Some a \<Rightarrow> adm_totp_secret_sealed a \<noteq> None \<and> adm_totp_secret_sealed a \<noteq> Some '''')"

definition barred :: "bool \<Rightarrow> session_row set \<Rightarrow> db \<Rightarrow> bool" where
  "barred https_mode known d \<longleftrightarrow> set (sessions d) \<subseteq> known \<and> (https_mode \<or> enrolled d)"

interpretation door: closed_door "barred (https s) known" s for s known
proof unfold_locales
  show "barred (https s) known d'" if "barred (https s) known d" "sessions d' = sessions d" "administrator d' = administrator d" for d d'
    using that by (simp add: barred_def enrolled_def)
  show "barred (https s) known (d\<lparr>sessions := delete_where P (sessions d)\<rparr>)" if "barred (https s) known d" for d P
    using that by (auto simp: barred_def enrolled_def delete_where_def)
  show "keeps (barred (https s) known) (Setup token email password hash sc t)" if "\<not> https s" for token email password hash sc t
    unfolding Setup_def using that
    by (intro keeps_transact) (auto simp: barred_def enrolled_def returns_iff tx_simps spend_setup_token_def use_token_def insert_admin_def
        adminExists_def split: option.splits sum.splits)
  show "keeps (barred (https s) known) (AddSession token sc password t)" if "\<not> https s" for token sc password t
    unfolding AddSession_def using that
    by (intro keeps_transact) (auto simp: barred_def enrolled_def returns_iff tx_simps split: option.splits)
qed

text \<open>
  C3. Over HTTPS, or once the administrator has a second factor, no series of requests without one of the two steps that
  check a one-time code adds a session, whatever they carry and whatever fails: no password, setup token or
  reset token is enough.
\<close>

theorem sessions_need_a_code:
  assumes "https s \<or> enrolled (wdb w)" "list_all (\<lambda>r. \<not> code_step r) rs"
  shows "set (sessions (wdb (leaves (serve_all s g rs) (w, fs)))) \<subseteq> set (sessions (wdb w))"
  using keepsD [OF door.serve_all_keeps [OF assms(2)], of s "set (sessions (wdb w))" "(w, fs)" g] assms(1)
  by (simp add: of_db_def barred_def)


text \<open>An enrolled administrator: signing in with the password, asking for a reset and deleting add no session.\<close>

definition enrolled_visit :: "unit world" where
  "enrolled_visit = (trial_visit 150)\<lparr>wdb := (wdb (trial_visit 150))\<lparr>administrator := Some
     \<lparr>adm_email = ''a'', adm_password_hash = ''h'', adm_created_at = 0, adm_totp_secret_sealed = Some ''sealed'', adm_totp_last_step = 0,
      adm_code_failures = 0, adm_code_locked_until = 0\<rparr>\<rparr>\<rparr>"

theorem sessions_need_a_code_witness:
  "set (sessions (wdb (leaves (serve_all trial_server trial_gates [trial_request ''POST'' (api [''auth'', ''login'']) '''',
     trial_request ''POST'' (api [''auth'', ''reset'']) '''', trial_request ''DELETE'' (api [''projects'', ''p'']) trial_token]) (enrolled_visit, []))))
   \<subseteq> set (sessions (wdb (trial_visit 150)))"
proof -
  let ?rs = "[trial_request ''POST'' (api [''auth'', ''login'']) '''', trial_request ''POST'' (api [''auth'', ''reset'']) '''',
     trial_request ''DELETE'' (api [''projects'', ''p'']) trial_token]"
  have "set (sessions (wdb (leaves (serve_all trial_server trial_gates ?rs) (enrolled_visit, [])))) \<subseteq> set (sessions (wdb enrolled_visit))"
  proof (rule sessions_need_a_code)
    show "https trial_server \<or> enrolled (wdb enrolled_visit)" by (simp add: enrolled_def enrolled_visit_def)
    show "list_all (\<lambda>r. \<not> code_step r) ?rs" by (simp add: code_step_def code_paths_def trial_request_def api_def)
  qed
  then show ?thesis by (simp add: enrolled_visit_def)
qed

end
