(* ===== verification/Http_Deletion.thy ===== *)
theory Http_Deletion
  imports Http_Sessions
begin

text \<open>
  Deleting a project is asked for in so many words: the handler passes a request on to the store only with the grounds
  stated here.
\<close>

section \<open>Grounds\<close>

text \<open>The store of the current settings, and a recoverable backup there that is newer than the backup interval.\<close>

definition stored_target :: "'x HttpServer \<Rightarrow> db \<Rightarrow> string option" where
  "stored_target s d = (case Srv_Jobs s of
     None \<Rightarrow> None
   | Some w \<Rightarrow> (case map_of (settings d) StorageSetting of
       None \<Rightarrow> None
     | Some (sealed, _) \<Rightarrow> if sealed = '''' then None
         else Option.bind (Vault_Open (base w) (''setting:'' @ StorageSetting) sealed) (\<lambda>opened.
           case Unmarshal_settings (base w) opened of Inl _ \<Rightarrow> None | Inr st \<Rightarrow> Some (Target st))))"

definition recent_backup :: "'x HttpServer \<Rightarrow> db \<Rightarrow> gotime \<Rightarrow> string \<Rightarrow> bool" where
  "recent_backup s d t0 pid = (case stored_target s d of
     None \<Rightarrow> False
   | Some tgt \<Rightarrow> list_ex (\<lambda>q. prj_id q = pid \<and> list_ex (\<lambda>b. recoverable tgt (Config_ID (Srv_Config s)) q b \<and>
       bkt_taken_at b > unix (t0 - Interval (backup_policy d))) (bucket_backups d)) (projects d))"

definition deletion_grounds :: "'x HttpServer \<Rightarrow> db \<Rightarrow> gotime \<Rightarrow> Request \<Rightarrow> bool" where
  "deletion_grounds s d t0 r = (case find (\<lambda>p. prj_id p = PathValue r ''id'') (projects d) of
     None \<Rightarrow> False
   | Some p \<Rightarrow> (case decode (Read_delete (Srv_Lib s)) r of
       Inl _ \<Rightarrow> False
     | Inr (confirm, acknowledge) \<Rightarrow> prj_stage p = ''deleting'' \<or>
         confirm = prj_name p \<and>
         (if prj_stage p = ''ready'' then acknowledge \<or> recent_backup s d t0 (prj_id p) else prj_failed p \<noteq> 0)))"

section \<open>Without them\<close>

definition refusal :: "'x world \<Rightarrow> Response \<Rightarrow> 'x world \<Rightarrow> bool" where
  "refusal w0 resp w \<longleftrightarrow> same_world w0 w \<and> 300 \<le> Resp_Status resp"

lemma keeps_same_db:
  assumes "\<And>I. keeps I m"
  shows "keeps (same_world w0) (on_db m)"
  using triple_read_plain [OF assms, of w0 "\<lambda>_. True"] by (simp add: triple_keeps)

lemma triple_impossible: "(\<And>w. \<not> P w) \<Longrightarrow> triple P m Q E"
  by (simp add: triple_def)

lemma keeps_same_observe: "keeps (same_world w0) (observe f)"
  by (auto simp: keeps_def leaves_def observe_def call_out_def unlogged_def same_world_def split: prod.splits)

lemma triple_same: "keeps (same_world w0) m \<Longrightarrow> never_fails m \<Longrightarrow> triple (same_world w0) m (\<lambda>_. same_world w0) (\<lambda>_. False)"
  by (auto simp: triple_keeps never_fails_def triple_def)

lemma authorize_reads:
  "triple (same_world w0) (authorize s r) (\<lambda>a w. same_world w0 w \<and> (\<forall>resp. a = Inl resp \<longrightarrow> 300 \<le> Resp_Status resp)) (\<lambda>_. False)"
proof -
  have "triple (same_world w0) (attempt (on_db (get_Session token sc t))) (\<lambda>_. same_world w0) (\<lambda>_. False)" for token sc t
    by (intro triple_same keeps_attempt keeps_same_db reads_auth never_fails_attempt)
  then show ?thesis
    unfolding authorize_def trying_def wall_def Let_def
    by (auto split: option.split sum.split intro!: triple_ret triple_bind [OF triple_observe_same] triple_bind [of "same_world w0" "attempt _"]
        simp: unavailable_def)
qed

lemma signed_in_refused:
  assumes "\<And>session token. triple (same_world w0) (k session token) (refusal w0) (\<lambda>_. False)"
  shows "triple (same_world w0) (signed_in s r k) (refusal w0) (\<lambda>_. False)"
  unfolding signed_in_def unless_def
proof (rule triple_bind [OF authorize_reads])
  fix a
  show "triple (\<lambda>w. same_world w0 w \<and> (\<forall>resp. a = Inl resp \<longrightarrow> 300 \<le> Resp_Status resp))
      (case a of Inl resp \<Rightarrow> ret resp | Inr v \<Rightarrow> (case v of (session, token) \<Rightarrow> k session token)) (refusal w0) (\<lambda>_. False)"
    by (cases a) (auto simp: refusal_def intro!: triple_ret intro: triple_pre [OF assms])
qed

lemma triple_trying:
  assumes "triple P (attempt m) R (\<lambda>_. False)" "\<And>e. triple (R (Inl e)) (h e) Q (\<lambda>_. False)" "\<And>v. triple (R (Inr v)) (k v) Q (\<lambda>_. False)"
  shows "triple P (trying m h k) Q (\<lambda>_. False)"
  unfolding trying_def by (rule triple_bind [OF assms(1)]) (auto split: sum.split intro: assms(2,3))

lemma granted_refused:
  assumes "\<And>resp. a = Inl resp \<Longrightarrow> 300 \<le> Resp_Status resp" "\<And>v. a = Inr v \<Longrightarrow> triple (same_world w0) (k v) (refusal w0) (\<lambda>_. False)"
  shows "triple (same_world w0) (granted a k) (refusal w0) (\<lambda>_. False)"
  using assms unfolding granted_def by (auto split: sum.split simp: refusal_def intro!: triple_ret)

lemma project_refused:
  assumes "\<And>p. find (\<lambda>q. prj_id q = PathValue r ''id'') (projects (wdb w0)) = Some p \<Longrightarrow>
      triple (same_world w0) (k (scanProject p)) (refusal w0) (\<lambda>_. False)"
  shows "triple (same_world w0) (project s r k) (refusal w0) (\<lambda>_. False)"
proof -
  let ?R = "\<lambda>v. \<exists>p. find (\<lambda>q. prj_id q = PathValue r ''id'') (projects (wdb w0)) = Some p \<and> v = scanProject p"
  have found: "triple (same_world w0) (attempt (on_db (get_Project (PathValue r ''id''))))
      (\<lambda>a w. same_world w0 w \<and> (\<forall>v. a = Inr v \<longrightarrow> ?R v)) (\<lambda>_. False)"
    by (rule triple_read_same [OF reads_projects(2)]) (auto simp: get_Project_def projectBy_def tx_simps)
  show ?thesis unfolding project_def
  proof (rule triple_trying [OF found])
    show "triple (\<lambda>w. same_world w0 w \<and> (\<forall>v. Inr u = Inr v \<longrightarrow> ?R v)) (k u) (refusal w0) (\<lambda>_. False)" for u
    proof (cases "?R u")
      case True
      then show ?thesis using assms by (auto intro: triple_pre)
    qed (auto intro: triple_impossible)
  qed (auto simp: refusal_def not_found_def unavailable_def intro!: triple_ret)
qed

lemma triple_storageTarget:
  "triple (same_world w0) (storageTarget s) (\<lambda>a w. same_world w0 w \<and> (\<forall>tgt. a = Some tgt \<longrightarrow> stored_target s (wdb w0) = Some tgt)) (\<lambda>_. False)"
proof (cases "Srv_Jobs s")
  case None
  then show ?thesis by (auto simp: storageTarget_def intro!: triple_ret)
next
  case (Some w)
  let ?R = "\<lambda>sealed. sealed = (case map_of (settings (wdb w0)) StorageSetting of None \<Rightarrow> '''' | Some (sealed, _) \<Rightarrow> sealed)"
  have read: "triple (same_world w0) (on_db (Setting StorageSetting)) (\<lambda>x w. same_world w0 w \<and> ?R x) (same_world w0)"
    by (rule triple_read_plain [OF reads_projects(11)]) (auto simp: Setting_def tx_simps split: option.splits)
  have "triple (same_world w0) (StorageSettings (base w)) (\<lambda>st w. same_world w0 w \<and> stored_target s (wdb w0) = Some (Target st)) (same_world w0)"
    unfolding StorageSettings_def
    by (rule triple_bind [OF read])
      (auto simp: stored_target_def Some triple_def ret_def throw_def split: option.splits sum.splits if_splits)
  then show ?thesis unfolding storageTarget_def Some option.case
    by (intro triple_trying [OF triple_attempt, where R = "\<lambda>a w. same_world w0 w \<and> (\<forall>st. a = Inr st \<longrightarrow> stored_target s (wdb w0) = Some (Target st))"])
      (auto intro!: triple_ret elim!: triple_conseq)
qed

lemma scan_fields: "Project_ID (scanProject p) = prj_id p" "Project_Name (scanProject p) = prj_name p" "Project_Stage (scanProject p) = prj_stage p"
  "Project_Failed (scanProject p) = (prj_failed p \<noteq> 0)"
  by (simp_all add: scanProject_def)

lemma newest_recoverable:
  assumes "NewestRecoverable tgt inst (d, fs) = (Inr newest, s')" "0 \<le> limit" "limit < coalesce (map_of newest pid) 0"
  shows "list_ex (\<lambda>q. prj_id q = pid \<and> list_ex (\<lambda>b. recoverable tgt inst q b \<and> bkt_taken_at b > limit) (bucket_backups d)) (projects d)"
proof -
  obtain taken where taken: "map_of newest pid = Some taken" "limit < taken"
    using assms(2,3) by (cases "map_of newest pid") (auto simp: coalesce_def)
  then have "(pid, taken) \<in> set newest" by (auto dest: map_of_SomeD)
  then obtain q where q: "q \<in> set (projects d)" "prj_id q = pid" "newest_of tgt inst q d = Some taken"
    using assms(1) by (auto simp: NewestRecoverable_def query_Inr split: option.splits)
  then obtain b where "b \<in> set (bucket_backups d)" "recoverable tgt inst q b" "bkt_taken_at b = taken"
    using max_of_props(2) unfolding newest_of_def by fastforce
  with q taken(2) show ?thesis by (auto simp: list_ex_iff)
qed

lemma triple_recentlyBackedUp:
  assumes "not_before s t0" "0 \<le> unix (t0 - Interval (backup_policy (wdb w0)))"
  shows "triple (same_world w0) (recentlyBackedUp s p)
    (\<lambda>a w. same_world w0 w \<and> (a \<longrightarrow> recent_backup s (wdb w0) t0 (Project_ID p))) (\<lambda>_. False)"
proof -
  let ?Q = "\<lambda>a w. same_world w0 w \<and> (a \<longrightarrow> recent_backup s (wdb w0) t0 (Project_ID p))"
  have main: "triple (same_world w0) (trying (on_db get_BackupPolicy) (\<lambda>_. ret False) (\<lambda>policy.
      trying (on_db (NewestRecoverable tgt (Config_ID (Srv_Config s)))) (\<lambda>_. ret False) (\<lambda>newest.
      bind_tx (wall s) (\<lambda>t. ret (coalesce (map_of newest (Project_ID p)) 0 > unix (t - Interval policy)))))) ?Q (\<lambda>_. False)"
    if "stored_target s (wdb w0) = Some tgt" for tgt
  proof (rule triple_trying [OF triple_read_same [OF reads_backups(12), where R = "\<lambda>policy. policy = backup_policy (wdb w0)"]])
    fix policy
    define N where "N = (\<lambda>newest. \<exists>fs s'. NewestRecoverable tgt (Config_ID (Srv_Config s)) (wdb w0, fs) = (Inr newest, s'))"
    have last: "triple (\<lambda>w. same_world w0 w \<and> t0 \<le> t) (ret (coalesce (map_of newest (Project_ID p)) 0 > unix (t - Interval policy))) ?Q (\<lambda>_. False)"
      if "N newest" "policy = backup_policy (wdb w0)" for newest t
    proof (rule triple_ret, intro conjI impI)
      fix w assume w: "same_world w0 w \<and> t0 \<le> t"
      then show "same_world w0 w" by blast
      assume "coalesce (map_of newest (Project_ID p)) 0 > unix (t - Interval policy)"
      then have "coalesce (map_of newest (Project_ID p)) 0 > unix (t0 - Interval policy)"
        using unix_mono [of "t0 - Interval policy" "t - Interval policy"] w by simp
      then show "recent_backup s (wdb w0) t0 (Project_ID p)"
        using newest_recoverable assms(2) \<open>N newest\<close> that(2) \<open>stored_target s (wdb w0) = Some tgt\<close>
        unfolding N_def recent_backup_def by auto
    qed
    show "triple (\<lambda>w. same_world w0 w \<and> (\<forall>x. Inr policy = Inr x \<longrightarrow> x = backup_policy (wdb w0)))
        (trying (on_db (NewestRecoverable tgt (Config_ID (Srv_Config s)))) (\<lambda>_. ret False) (\<lambda>newest.
         bind_tx (wall s) (\<lambda>t. ret (coalesce (map_of newest (Project_ID p)) 0 > unix (t - Interval policy))))) ?Q (\<lambda>_. False)"
    proof (cases "policy = backup_policy (wdb w0)")
      case True
      have "triple (same_world w0) (bind_tx (wall s) (\<lambda>t. ret (coalesce (map_of newest (Project_ID p)) 0 > unix (t - Interval policy)))) ?Q (\<lambda>_. False)"
        if "N newest" for newest
        by (rule triple_bind [OF triple_wall [OF assms(1)] last [OF that True]])
      then have after_read: "triple (\<lambda>w. same_world w0 w \<and> (\<forall>x. Inr newest = Inr x \<longrightarrow> N x))
          (bind_tx (wall s) (\<lambda>t. ret (coalesce (map_of newest (Project_ID p)) 0 > unix (t - Interval policy)))) ?Q (\<lambda>_. False)" for newest
        by (cases "N newest") (auto intro: triple_impossible triple_pre)
      have read: "triple (same_world w0) (attempt (on_db (NewestRecoverable tgt (Config_ID (Srv_Config s)))))
          (\<lambda>a w. same_world w0 w \<and> (\<forall>x. a = Inr x \<longrightarrow> N x)) (\<lambda>_. False)"
        by (rule triple_read_same [OF reads_backups(3)]) (auto simp: N_def)
      show ?thesis
        by (rule triple_pre [OF triple_trying [OF read _ after_read]]) (auto intro!: triple_ret)
    qed (auto intro: triple_impossible)
  qed (auto simp: get_BackupPolicy_def query_Inr intro!: triple_ret)
  show ?thesis unfolding recentlyBackedUp_def
  proof (rule triple_bind [OF triple_storageTarget])
    fix a
    show "triple (\<lambda>w. same_world w0 w \<and> (\<forall>tgt. a = Some tgt \<longrightarrow> stored_target s (wdb w0) = Some tgt))
        (case a of None \<Rightarrow> ret False | Some target \<Rightarrow> trying (on_db get_BackupPolicy) (\<lambda>_. ret False) (\<lambda>policy.
          trying (on_db (NewestRecoverable target (Config_ID (Srv_Config s)))) (\<lambda>_. ret False) (\<lambda>newest.
          bind_tx (wall s) (\<lambda>t. ret (coalesce (map_of newest (Project_ID p)) 0 > unix (t - Interval policy)))))) ?Q (\<lambda>_. False)"
    proof (cases a)
      case (Some tgt)
      show ?thesis
      proof (cases "stored_target s (wdb w0) = Some tgt")
        case True
        then show ?thesis unfolding Some option.case by (intro triple_pre [OF main]) auto
      qed (auto simp: Some intro: triple_impossible)
    qed (auto intro!: triple_ret)
  qed
qed

text \<open>
  C15. Without its grounds a request to delete a project is answered with a refusal and changes nothing at all. Grounds
  are: the project exists; it is already being deleted, or its name was typed exactly and it either never became ready
  and failed, or a recoverable backup newer than the backup interval is in the current store, or the loss was acknowledged.
\<close>

theorem deletion_needs_grounds:
  assumes "not_before s t0" "0 \<le> unix (t0 - Interval (backup_policy (wdb w)))" "\<not> deletion_grounds s (wdb w) t0 r"
  shows "\<exists>resp w' fs'. deleteProject s r (w, fs) = (Inr resp, (w', fs')) \<and> same_world w w' \<and> 300 \<le> Resp_Status resp"
proof -
  have body: "triple (same_world w) (case v of (confirm, acknowledge) \<Rightarrow>
      if Project_Stage (scanProject p) = ''deleting'' then begin_delete s r jw (scanProject p) False
      else if Project_Stage (scanProject p) \<noteq> ''ready'' \<and> \<not> Project_Failed (scanProject p) then ret (not_deletable r)
      else if confirm \<noteq> Project_Name (scanProject p) then
        ret (failure r 400 ''name_mismatch'' ''Type the database name exactly to confirm.'')
      else if Project_Stage (scanProject p) = ''ready'' then
        bind_tx (recentlyBackedUp s (scanProject p)) (\<lambda>recent.
        if recent then begin_delete s r jw (scanProject p) False
        else if \<not> acknowledge then ret (failure r 409 ''backup_required''
          ''There is no recoverable backup newer than the backup interval. Back up first, or confirm that data written since the last backup will be lost.'')
        else begin_delete s r jw (scanProject p) True)
      else begin_delete s r jw (scanProject p) False) (refusal w) (\<lambda>_. False)"
    if found: "find (\<lambda>q. prj_id q = PathValue r ''id'') (projects (wdb w)) = Some p" and read: "decode (Read_delete (Srv_Lib s)) r = Inr v" for p v jw
  proof -
    obtain confirm ack where v: "v = (confirm, ack)" by (cases v)
    have g: "prj_stage p \<noteq> ''deleting''" "confirm = prj_name p \<Longrightarrow> prj_stage p = ''ready'' \<Longrightarrow> \<not> ack \<and> \<not> recent_backup s (wdb w) t0 (prj_id p)"
      "confirm = prj_name p \<Longrightarrow> prj_stage p \<noteq> ''ready'' \<Longrightarrow> prj_failed p = 0"
      using assms(3) found read v by (auto simp: deletion_grounds_def)
    have asked: "triple (same_world w) (bind_tx (recentlyBackedUp s (scanProject p)) (\<lambda>recent.
        if recent then begin_delete s r jw (scanProject p) False else ret resp)) (refusal w) (\<lambda>_. False)"
      if "confirm = prj_name p" "prj_stage p = ''ready''" "300 \<le> Resp_Status resp" for resp
      by (rule triple_bind [OF triple_recentlyBackedUp [OF assms(1,2)]])
        (use g(2) [OF that(1,2)] that(3) in \<open>auto simp: scan_fields refusal_def intro!: triple_ret intro: triple_impossible\<close>)
    show ?thesis using g unfolding v prod.case
      by (auto simp: scan_fields refusal_def not_deletable_def intro!: triple_ret intro: asked)
  qed
  have "triple (same_world w) (deleteProject s r) (refusal w) (\<lambda>_. False)"
    unfolding deleteProject_def
    by (intro signed_in_refused granted_refused project_refused body)
      (auto simp: jobsReady_def provisioner_ready_def provisioning_down_def decode_def split: option.splits if_splits)
  moreover obtain a w' fs' where "deleteProject s r (w, fs) = (a, (w', fs'))" by (metis surj_pair)
  ultimately show ?thesis
    by (cases a) (auto dest: tripleD_Inl [of _ _ _ _ "(w, fs)"] tripleD_Inr [of _ _ _ _ "(w, fs)"] simp: same_world_def refusal_def)
qed


text \<open>
  A ready project with storage but no backup of the last day: its name alone is not enough. With a recoverable backup
  there would be grounds.
\<close>

definition trial_shop :: "unit HttpServer" where
  "trial_shop = trial_server\<lparr>Srv_Jobs := Some backup_worker, Srv_Provisioner := Some easy_provisioner, Srv_Now := (\<lambda>x. (200000 * second, x))\<rparr>"

definition trial_deletion :: Request where
  "trial_deletion = (trial_request ''DELETE'' (api [''projects'', ''p'']) trial_token)\<lparr>Req_Body := ''p'', PathValues := [(''id'', ''p'')]\<rparr>"

definition shop_backup :: bucket_row where
  "shop_backup = \<lparr>bkt_storage_target = Target sample_settings, bkt_manifest_key = ''m'', bkt_db_name = ''p'', bkt_taken_at = 190000,
     bkt_state = ''complete'', bkt_archive_key = ''a'', bkt_installation_id = ''i'', bkt_project_id = ''p'', bkt_project_name = ''p'',
     bkt_postgres_version = ''17'', bkt_table_count = 0, bkt_size_bytes = 1, bkt_seen_at = 190000, bkt_delete_started_at = 0\<rparr>"

lemmas shop_rows = shop_with_storage_def shop_world_def shop_def limited_def running_backup_def empty_db_def run_row_def queued_job_def

lemma trial_project: "find (\<lambda>q. prj_id q = ''p'') (projects (wdb shop_with_storage)) = Some (hd (projects (shop ''ready'')))"
  "hd (projects (shop ''ready'')) \<in> set (projects (wdb shop_with_storage))" "prj_id (hd (projects (shop ''ready''))) = ''p''"
  "prj_name (hd (projects (shop ''ready''))) = ''p''" "prj_db_name (hd (projects (shop ''ready''))) = ''p''"
  "prj_stage (hd (projects (shop ''ready''))) = ''ready''"
  by (simp_all add: shop_rows)

lemma trial_read: "decode (Read_delete (Srv_Lib trial_shop)) trial_deletion = Inr (''p'', False)" "PathValue trial_deletion ''id'' = ''p''"
  by (simp_all add: decode_def trial_shop_def trial_server_def trial_library_def trial_deletion_def trial_request_def PathValue_def coalesce_def)

lemma trial_target: "stored_target trial_shop (wdb shop_with_storage) = Some (Target sample_settings)"
  "stored_target trial_shop (wdb shop_with_storage\<lparr>bucket_backups := bs\<rparr>) = Some (Target sample_settings)"
  by (simp_all add: stored_target_def trial_shop_def shop_with_storage_def StorageSetting_def backup_worker_def sample_job_worker_def sample_worker_def)

theorem deletion_needs_grounds_witness:
  "(\<exists>resp w' fs'. deleteProject trial_shop trial_deletion (shop_with_storage, []) = (Inr resp, (w', fs')) \<and>
     same_world shop_with_storage w' \<and> 300 \<le> Resp_Status resp) \<and>
   deletion_grounds trial_shop ((wdb shop_with_storage)\<lparr>bucket_backups := [shop_backup]\<rparr>) (200000 * second) trial_deletion"
proof
  show "deletion_grounds trial_shop ((wdb shop_with_storage)\<lparr>bucket_backups := [shop_backup]\<rparr>) (200000 * second) trial_deletion"
    by (simp add: deletion_grounds_def trial_project trial_read recent_backup_def trial_target list_ex_iff, rule bexI [OF _ trial_project(2)])
      (simp add: trial_project recoverable_def shop_backup_def, simp add: trial_shop_def trial_server_def trial_config_def shop_rows Interval_def unix_def)
  show "\<exists>resp w' fs'. deleteProject trial_shop trial_deletion (shop_with_storage, []) = (Inr resp, (w', fs')) \<and>
     same_world shop_with_storage w' \<and> 300 \<le> Resp_Status resp"
  proof (rule deletion_needs_grounds)
    show "not_before trial_shop (200000 * second)" by (simp add: not_before_def trial_shop_def)
    show "0 \<le> unix (200000 * second - Interval (backup_policy (wdb shop_with_storage)))" by code_simp
    show "\<not> deletion_grounds trial_shop (wdb shop_with_storage) (200000 * second) trial_deletion"
      by (simp add: deletion_grounds_def trial_project trial_read recent_backup_def trial_target) (simp add: shop_rows)
  qed
qed

end
