(* ===== verification/Spec2Isabelle.thy ===== *)
theory Spec2Isabelle
  imports Store_Auth Worker_Trials Alert_Safety Management_Safety Http_Deletion
begin

text \<open>
  Pgfy manages PostgreSQL databases for small teams: a dashboard creates projects, a provisioner turns
  them into roles and databases, a worker backs them up to an S3 bucket and restores or deletes them, and
  an alerter watches. All of them share one SQLite database, the management store, and everything that
  must survive a crash is a transaction there. This development models the store as far as it holds logic,
  the bucket and its client, the worker, the provisioner with the SQL it sends, the access rules, the alerter
  with its webhook, the secrets, and the whole HTTP interface with its routes and guards.

  \<^bold>\<open>Foundations.\<close> \<^verbatim>\<open>Pgfy_Prelude\<close>: Go times as nanoseconds, the errors of the program, tables as lists of
  rows with update, delete, count and insert-or-update. \<^verbatim>\<open>Sql_Tx\<close>: \<^verbatim>\<open>database/sql\<close> as a state and error
  monad in which any statement, \<^verbatim>\<open>BeginTx\<close> or \<^verbatim>\<open>Commit\<close> may fail; transactions, atomicity and the locale
  \<open>atomic_op\<close>. \<^verbatim>\<open>Store_Schema\<close>: the tables of \<^verbatim>\<open>src/internal/store/migrations\<close>. \<^verbatim>\<open>Calendar\<close>: civil dates,
  time formats and ISO weeks. \<^verbatim>\<open>World\<close>: the database together with everything outside the program (the
  provider, PostgreSQL, the clock) and a log of the calls that matter, with triples of pre- and postconditions.

  \<^bold>\<open>The store\<close> (\<^verbatim>\<open>src/internal/store\<close>), one theory per file or part of it, every operation a function of the
  same name. \<^verbatim>\<open>Store_Maintenance\<close> (\<^verbatim>\<open>maintenance.go\<close>, settings, identity); \<^verbatim>\<open>Backup_Policy\<close> and
  \<^verbatim>\<open>Store_Backups\<close> (\<^verbatim>\<open>backups.go\<close>: due and next times agree, the cache of the bucket follows a listing
  exactly, pruning keeps provenance); \<^verbatim>\<open>Store_Alerts\<close> (\<^verbatim>\<open>alerts.go\<close>: a message at most once a day, an
  unchecked source resolves nothing); \<^verbatim>\<open>Store_Jobs\<close> (\<^verbatim>\<open>jobs.go\<close>: one job at a time, claimed in order,
  outcomes recorded with them); \<^verbatim>\<open>Store_Access\<close> (\<^verbatim>\<open>access.go\<close>: no lost update of limits, a rotation
  finished exactly once); \<^verbatim>\<open>Store_Projects\<close> (\<^verbatim>\<open>projects.go\<close>: idempotent creation, allowlist revisions,
  connection checks); \<^verbatim>\<open>Store_Deletion\<close> (\<^verbatim>\<open>deletion.go\<close>: a tombstone is final, a deletion leaves nothing
  behind); \<^verbatim>\<open>Store_Auth\<close> (\<^verbatim>\<open>auth.go\<close> and the sessions of \<^verbatim>\<open>store.go\<close>: tokens within their attempts, codes
  never reused, credentials changed only on success).

  \<^bold>\<open>Secrets\<close> (\<^verbatim>\<open>src/internal/security\<close>). \<^verbatim>\<open>Security\<close>: hashes and one-time codes computed on words. \<^verbatim>\<open>Secrets\<close>:
  tokens, password hashes, sealed values and the token against forgery, over Argon2 and the cipher as parameters;
  an accepted password verifies, a sealed value opens under its own context and no other.

  \<^bold>\<open>Backups in the bucket.\<close> \<^verbatim>\<open>Storage_Layout\<close> (\<^verbatim>\<open>src/internal/storage/layout.go\<close>): which folders are
  ours and complete, and when a manifest fits its place; a written folder is recognised again.
  \<^verbatim>\<open>Storage_Client\<close> (\<^verbatim>\<open>storage.go\<close>): the client over the S3 library; the locale \<open>backup_store\<close> is the Go
  interface \<^verbatim>\<open>objectStore\<close> with what its users rely on, interpreted by the client. \<^verbatim>\<open>Retention\<close> and
  \<^verbatim>\<open>Retention_Safety\<close> (\<^verbatim>\<open>src/internal/jobs/retention.go\<close>): the retention rules, and for every answer of the
  provider and every failing statement, that nothing is removed without grounds, that an incomplete view
  changes nothing that lasts, that an update only reads, and that a complete listing is recorded exactly.

  \<^bold>\<open>The worker\<close> (\<^verbatim>\<open>src/internal/jobs\<close>). \<^verbatim>\<open>Tool_Output\<close>: what is kept of a tool's error stream, and its bounds.
  \<^verbatim>\<open>Worker_Jobs\<close> (\<^verbatim>\<open>jobs.go\<close>, \<^verbatim>\<open>delete.go\<close>): backups, restores, deletions, the queue, the schedule and the loop.
  \<^verbatim>\<open>Worker_Safety\<close>: the locales \<open>worker_invariant\<close> and \<open>project_invariant\<close> for what survives every job; the queue is
  drained, a tombstone stays. \<^verbatim>\<open>Worker_Grounds\<close>: every call that matters has its reason in the database at
  that moment. \<^verbatim>\<open>Worker_Results\<close>: a published backup can be read back, a restore follows its manifest, and what is
  reported as verified was. \<^verbatim>\<open>Worker_Trials\<close>: runs that are evaluated whole.

  \<^bold>\<open>Access rules.\<close> \<^verbatim>\<open>Hba\<close> (\<^verbatim>\<open>src/internal/hba/hba.go\<close>): allowlists in canonical form, with the address parser
  and printer of \<^verbatim>\<open>net/netip\<close>; the rule file, and that it is restored when PostgreSQL refuses it.

  \<^bold>\<open>The provisioner.\<close> \<^verbatim>\<open>Provisioning\<close> (\<^verbatim>\<open>src/internal/provision/provision.go\<close>): the stages of a project, the
  limits of its role, the access policy, password rotations and the loop, over the interface to
  PostgreSQL the package declares. \<^verbatim>\<open>Provisioning_Safety\<close>: every call to PostgreSQL has its reason in the
  database at that moment, a rotation takes its steps in order, and when nothing fails interrupted
  provisioning and rotations are completed. \<^verbatim>\<open>Policy_Sync\<close>: a policy is shown as applied only when it was
  loaded. \<^verbatim>\<open>Management\<close> and \<^verbatim>\<open>Management_Safety\<close> (\<^verbatim>\<open>src/internal/postgres\<close>): the operations behind that interface and
  the health check, over the pool of the database library: only a closed list of statements is sent, only what is
  ours is dropped, limits read back without drift, and the connection budget is well formed.

  \<^bold>\<open>The alerter\<close> (\<^verbatim>\<open>src/internal/alerts\<close>, \<^verbatim>\<open>src/internal/hoststatus\<close>). \<^verbatim>\<open>Host_Status\<close>: the report of the host and the
  certificate. \<^verbatim>\<open>Webhook\<close>: validation, masking, delivery and the addresses that may be dialled, which are exactly
  those of a list of ranges. \<^verbatim>\<open>Alert_Engine\<close>: evaluation, delivery, the test message and the loop. \<^verbatim>\<open>Alert_Safety\<close>: the
  locale \<open>alert_contract\<close> for what survives a tick; what is recorded as told was accepted, nothing is told
  twice within a day, a receiver that is down is asked once, an update is quiet.

  \<^bold>\<open>The HTTP interface\<close> (\<^verbatim>\<open>src/internal/httpapi\<close>, the checks of \<^verbatim>\<open>config.go\<close> and \<^verbatim>\<open>storage.go\<close> it calls, and the
  commands of \<^verbatim>\<open>src/cmd/pgfy/main.go\<close> on an opened store). \<^verbatim>\<open>Http_Core\<close>: requests, answers, the rate limit, bodies
  and the session check. \<^verbatim>\<open>Http_Auth\<close> (\<^verbatim>\<open>auth.go\<close>, setup and login of \<^verbatim>\<open>server.go\<close>), \<^verbatim>\<open>Http_Projects\<close> (\<^verbatim>\<open>projects.go\<close>,
  \<^verbatim>\<open>access.go\<close>, \<^verbatim>\<open>alerts.go\<close>), \<^verbatim>\<open>Http_Backups\<close> (\<^verbatim>\<open>backups.go\<close>): one function per handler. \<^verbatim>\<open>Http_Server\<close>: status, the
  dashboard's files, the routes, the guards. \<^verbatim>\<open>Http_Limits\<close>: how many attempts can pass. \<^verbatim>\<open>Http_Safety\<close>: without a
  session, or past a guard, nothing changes. \<^verbatim>\<open>Http_Answers\<close>: every request is answered. \<^verbatim>\<open>Http_Sessions\<close>: the
  locales \<open>session_invariant\<close> and \<open>closed_door\<close>, interpreted by the statement that sessions need a code.
  \<^verbatim>\<open>Http_Deletion\<close>: a deletion needs its grounds.

  \<^bold>\<open>Choices.\<close> Integers of the database are unbounded: SQLite stores 64 bits and no modelled value
  approaches them; the hashes and codes are computed on words of their width. Strings are byte strings.
  The single connection of the store and the locks of the program serialise transactions, so an operation
  runs alone; a failure can strike at every statement. Random tokens, sealed secrets and JSON texts are
  arguments of the operations that use them, or drawn from the outside. Loops are recursions on a list, the IPv6
  parser on the eight groups an address can have. Fuel appears only where a loop ends with the process: the
  loops of the provisioner, the worker and the alerter are followed for a number of rounds given to the theorem, requests
  for a list of them. The queue is followed for one job more than it holds, and a theorem shows that more changes
  nothing; confirming a reload looks 51 times, which is every 200 milliseconds of its ten seconds.

  \<^bold>\<open>Not modelled.\<close> Migrations, copies and snapshots of the database file (\<^verbatim>\<open>store.go\<close>, \<^verbatim>\<open>maintenance.go\<close>, the
  commands for them), which are the file format and the backup interface of SQLite; starting the process: the environment,
  opening pools, files and the vault's key, signals, the listener; the password file and the emptying of the
  workspace. Parameters, with what is relied on stated where it is used: the JSON encoder and decoders, the parsers
  of URLs, media types and mail addresses, Argon2 and the cipher, X.509, the S3 library, the database library,
  the tools of PostgreSQL. Request timeouts and the interleaving of a handler with a background loop inside one
  operation are left out; the store's transactions, over which the theorems about its operations range, are what
  such runs are made of.
\<close>

end
